(* ===== verification/CAI_Prelude.thy ===== *)
theory CAI_Prelude
  imports Main "HOL-Library.Product_Lexorder" "HOL-Library.List_Lexorder" "HOL-Library.Char_ord"
begin

text \<open>
  Shared vocabulary of the development: points in time, Python exceptions as values,
  relational tables as lists of rows with the SQL operations the repositories use, and the
  generic lemmas about them.  The collection \<open>table_simps\<close> holds the rewrite rules about
  table operations that the component theories add to.
\<close>

named_theorems table_simps

section \<open>Time\<close>

text \<open>
  A point in time is a count of microseconds (the resolution of PostgreSQL's
  \<open>timestamptz\<close> and of Python's \<open>datetime\<close>) since a fixed origin.
\<close>

type_synonym time = int

definition seconds :: "int \<Rightarrow> time" where
  "seconds n = n * 1000000"

lemma seconds_pos [simp]: "0 < seconds n \<longleftrightarrow> 0 < n"
  by (simp add: seconds_def)

lemma seconds_nonneg [simp]: "0 \<le> seconds n \<longleftrightarrow> 0 \<le> n"
  by (simp add: seconds_def)

text \<open>The SQL test \<open>x IS NULL OR x <= CURRENT_TIMESTAMP\<close>.\<close>

definition elapsed :: "time \<Rightarrow> time option \<Rightarrow> bool" where
  "elapsed now x = (case x of None \<Rightarrow> True | Some t \<Rightarrow> t \<le> now)"

lemma elapsed_simps [simp]:
  "elapsed now None"
  "elapsed now (Some t) \<longleftrightarrow> t \<le> now"
  by (simp_all add: elapsed_def)

text \<open>The SQL test \<open>x > CURRENT_TIMESTAMP\<close>, which is not true when \<open>x\<close> is \<open>NULL\<close>.\<close>

definition in_future :: "time \<Rightarrow> time option \<Rightarrow> bool" where
  "in_future now x = (case x of None \<Rightarrow> False | Some t \<Rightarrow> now < t)"

lemma in_future_not_elapsed: "in_future now x \<longleftrightarrow> \<not> elapsed now x"
  by (cases x) (auto simp: in_future_def)

definition coalesce :: "'a option \<Rightarrow> 'a \<Rightarrow> 'a" where
  "coalesce x d = (case x of None \<Rightarrow> d | Some v \<Rightarrow> v)"

lemma coalesce_simps [simp]: "coalesce None d = d" "coalesce (Some v) d = v"
  by (simp_all add: coalesce_def)

definition coalesce_opt :: "'a option \<Rightarrow> 'a option \<Rightarrow> 'a option" where
  "coalesce_opt x y = (case x of None \<Rightarrow> y | Some v \<Rightarrow> Some v)"

lemma coalesce_opt_simps [simp]:
  "coalesce_opt None y = y" "coalesce_opt (Some v) y = Some v" "coalesce_opt x None = x"
  by (simp_all add: coalesce_opt_def split: option.splits)

section \<open>Exceptions\<close>

text \<open>The exceptions the modelled code raises, with their message; a raise is \<open>Inl\<close>.
  \<open>CheckViolation\<close> is the driver's error for a statement that breaks a table constraint.\<close>

datatype py_error =
    ValueError string
  | LookupError string
  | RuntimeError string
  | TypeError string
  | AcessoriasRequestError string string
  | IdentityResolutionError string string
  | DepartmentMappingError string string
  | DigisacClientError string string
  | DigisacContactBackfillError string string
  | CheckViolation string

text \<open>Running \<open>f\<close> on the value of a call, or passing its exception on.\<close>

definition on_value :: "py_error + 'a \<Rightarrow> ('a \<Rightarrow> py_error + 'b) \<Rightarrow> py_error + 'b" where
  "on_value res f = (case res of Inl e \<Rightarrow> Inl e | Inr x \<Rightarrow> f x)"

lemma on_value_simps [simp]: "on_value (Inl e) f = Inl e" "on_value (Inr x) f = f x"
  by (simp_all add: on_value_def)

lemma on_value_Inr: "on_value res f = Inr y \<longleftrightarrow> (\<exists>x. res = Inr x \<and> f x = Inr y)"
  by (cases res) simp_all

lemma on_value_InrE:
  assumes "on_value res f = Inr y"
  obtains x where "res = Inr x" "f x = Inr y"
  using assms by (auto simp: on_value_Inr)

text \<open>A transaction: an error leaves the tables as they were.\<close>

definition transaction :: "'s \<Rightarrow> py_error + ('a \<times> 's) \<Rightarrow> (py_error + 'a) \<times> 's" where
  "transaction db res = (case res of Inl e \<Rightarrow> (Inl e, db) | Inr (x, db') \<Rightarrow> (Inr x, db'))"

lemma transaction_simps [simp]:
  "transaction db (Inl e) = (Inl e, db)" "transaction db (Inr (x, db')) = (Inr x, db')"
  by (simp_all add: transaction_def)

lemma transaction_keeps:
  assumes "I db" and "\<And>x db'. res = Inr (x, db') \<Longrightarrow> I db'"
  shows "I (snd (transaction db res))"
  using assms by (cases res) auto

section \<open>Tables\<close>

text \<open>
  A table is the list of its rows; the order of the list is the physical order, which a query
  without \<open>ORDER BY\<close> does not fix and no property below depends on.
\<close>

definition update_where :: "('r \<Rightarrow> bool) \<Rightarrow> ('r \<Rightarrow> 'r) \<Rightarrow> 'r list \<Rightarrow> 'r list" where
  "update_where P f t = map (\<lambda>r. if P r then f r else r) t"

definition fetchone :: "'r list \<Rightarrow> 'r option" where
  "fetchone rows = (case rows of [] \<Rightarrow> None | r # _ \<Rightarrow> Some r)"

definition lookup_by :: "('r \<Rightarrow> 'k) \<Rightarrow> 'k \<Rightarrow> 'r list \<Rightarrow> 'r option" where
  "lookup_by key k t = find (\<lambda>r. key r = k) t"

text \<open>\<open>ORDER BY key FOR UPDATE SKIP LOCKED LIMIT n\<close> over the rows that satisfy \<open>P\<close>.\<close>

definition select_limit ::
  "nat \<Rightarrow> ('r \<Rightarrow> 'o::linorder) \<Rightarrow> ('r \<Rightarrow> bool) \<Rightarrow> 'r list \<Rightarrow> 'r list" where
  "select_limit n ord P t = take n (sort_key ord (filter P t))"

subsection \<open>Updates\<close>

lemma update_where_Nil [simp, table_simps]: "update_where P f [] = []"
  by (simp add: update_where_def)

lemma update_where_Cons [simp, table_simps]:
  "update_where P f (r # t) = (if P r then f r else r) # update_where P f t"
  by (simp add: update_where_def)

lemma set_update_where:
  "set (update_where P f t) = f ` {r \<in> set t. P r} \<union> {r \<in> set t. \<not> P r}"
  by (auto simp: update_where_def)

lemma length_update_where [simp]: "length (update_where P f t) = length t"
  by (simp add: update_where_def)

lemma map_update_where:
  assumes "\<And>r. r \<in> set t \<Longrightarrow> P r \<Longrightarrow> g (f r) = g r"
  shows "map g (update_where P f t) = map g t"
  using assms by (simp add: update_where_def)

lemma update_where_none:
  assumes "\<And>r. r \<in> set t \<Longrightarrow> \<not> P r"
  shows "update_where P f t = t"
  using assms by (induction t) auto

lemma update_whereE:
  assumes "r' \<in> set (update_where P f t)"
  obtains r where "r \<in> set t" "r' = (if P r then f r else r)"
  using assms by (auto simp: update_where_def)

lemma update_where_same: "r \<in> set t \<Longrightarrow> \<not> P r \<Longrightarrow> r \<in> set (update_where P f t)"
  by (force simp: update_where_def)

lemma update_where_changed: "r \<in> set t \<Longrightarrow> P r \<Longrightarrow> f r \<in> set (update_where P f t)"
  by (force simp: update_where_def)

lemma filter_map_comp: "filter P (map f xs) = map f (filter (\<lambda>x. P (f x)) xs)"
  by (induction xs) auto

subsection \<open>Lookups\<close>

lemma lookup_by_Nil [simp]: "lookup_by key k [] = None"
  by (simp add: lookup_by_def)

lemma lookup_by_Cons [simp]:
  "lookup_by key k (r # t) = (if key r = k then Some r else lookup_by key k t)"
  by (simp add: lookup_by_def)

lemma lookup_by_Some:
  "lookup_by key k t = Some r \<Longrightarrow> r \<in> set t \<and> key r = k"
  by (induction t) (auto split: if_splits)

lemma lookup_by_None: "lookup_by key k t = None \<longleftrightarrow> k \<notin> key ` set t"
  by (induction t) (auto split: if_splits)

lemma lookup_by_unique:
  "distinct (map key t) \<Longrightarrow> lookup_by key k t = Some r \<longleftrightarrow> r \<in> set t \<and> key r = k"
  by (induction t) (auto simp: image_iff split: if_splits)

lemma lookup_by_append:
  "lookup_by key k (t @ u) =
    (case lookup_by key k t of None \<Rightarrow> lookup_by key k u | Some r \<Rightarrow> Some r)"
  by (induction t) auto

lemma lookup_by_update_where:
  assumes "\<And>r. key (f r) = key r"
  shows "lookup_by key k (update_where P f t) =
    map_option (\<lambda>r. if P r then f r else r) (lookup_by key k t)"
  using assms by (induction t) auto

lemma lookup_by_filter:
  "distinct (map key t) \<Longrightarrow> lookup_by key k (filter P t) =
    (case lookup_by key k t of None \<Rightarrow> None | Some r \<Rightarrow> if P r then Some r else None)"
proof (induction t)
  case (Cons a t)
  then have "lookup_by key (key a) t = None" and "lookup_by key (key a) (filter P t) = None"
    by (auto simp: lookup_by_None)
  with Cons show ?case by (auto split: option.splits)
qed simp

lemma find_Some_member: "find P xs = Some x \<Longrightarrow> x \<in> set xs \<and> P x"
  by (induction xs) (auto split: if_splits)

lemma fetchone_simps [simp]: "fetchone [] = None" "fetchone (r # rs) = Some r"
  by (simp_all add: fetchone_def)

lemma fetchone_Some_in: "fetchone rs = Some r \<Longrightarrow> r \<in> set rs"
  by (cases rs) auto

lemma fetchone_None [simp]: "fetchone rs = None \<longleftrightarrow> rs = []"
  by (cases rs) auto

lemma fetchone_find: "fetchone (filter P t) = find P t"
  by (induction t) auto

lemma fetchone_filter_key:
  "fetchone (filter (\<lambda>r. key r = k) t) = lookup_by key k t"
  by (simp add: fetchone_find lookup_by_def)

lemma distinct_key_eq:
  "distinct (map key t) \<Longrightarrow> r \<in> set t \<Longrightarrow> s \<in> set t \<Longrightarrow> key r = key s \<Longrightarrow> r = s"
  by (simp add: distinct_map inj_on_def)

lemma distinct_map_append1 [simp]:
  "distinct (map key (t @ [r])) \<longleftrightarrow> distinct (map key t) \<and> key r \<notin> key ` set t"
  by auto

lemma distinct_map_update_where:
  assumes "distinct rows"
    and "\<And>x y. x \<in> set rows \<Longrightarrow> y \<in> set rows \<Longrightarrow> x \<noteq> y \<Longrightarrow>
      g (if P x then f x else x) \<noteq> g (if P y then f y else y)"
  shows "distinct (map g (update_where P f rows))"
proof -
  have "map g (update_where P f rows) = map (\<lambda>x. g (if P x then f x else x)) rows"
    by (simp add: update_where_def)
  moreover have "inj_on (\<lambda>x. g (if P x then f x else x)) (set rows)"
    using assms(2) by (meson inj_onI)
  ultimately show ?thesis using assms(1) by (simp add: distinct_map)
qed

subsection \<open>Ordered selections\<close>

lemma set_take_sort_key: "set (take n (sort_key ord t)) \<subseteq> set t"
  using set_take_subset[of n "sort_key ord t"] by simp

lemma select_limit_sub: "r \<in> set (select_limit n ord P t) \<Longrightarrow> r \<in> set t \<and> P r"
  using set_take_sort_key[of n ord "filter P t"] by (auto simp: select_limit_def)

lemma length_select_limit [simp]:
  "length (select_limit n ord P t) = min (length (filter P t)) n"
  by (simp add: select_limit_def)

lemma distinct_select_limit:
  "distinct (map key t) \<Longrightarrow> distinct (map key (select_limit n ord P t))"
proof -
  assume "distinct (map key t)"
  then have "distinct (map key (filter P t))" by (rule distinct_map_filter)
  then have "inj_on key (set (sort_key ord (filter P t))) \<and> distinct (sort_key ord (filter P t))"
    by (simp add: distinct_map)
  then have "distinct (map key (sort_key ord (filter P t)))"
    by (simp add: distinct_map)
  then show ?thesis
    by (simp add: select_limit_def take_map[symmetric])
qed

lemma select_limit_Nil [simp]:
  "select_limit n ord P t = [] \<longleftrightarrow> n = 0 \<or> (\<forall>r \<in> set t. \<not> P r)"
  by (auto simp: select_limit_def filter_empty_conv)
    (metis filter_empty_conv length_0_conv length_sort)

lemma hd_sort_key_le:
  assumes "r \<in> set xs" and "sort_key ord xs = y # ys"
  shows "ord y \<le> ord r"
proof -
  have "sorted (map ord (sort_key ord xs))" by (rule sorted_sort_key)
  moreover have "r \<in> set (sort_key ord xs)" using assms(1) by simp
  ultimately show ?thesis using assms(2) by auto
qed

lemma select_limit_1_min:
  assumes "fetchone (select_limit 1 ord P t) = Some r"
  shows "r \<in> set t" "P r" "\<And>s. s \<in> set t \<Longrightarrow> P s \<Longrightarrow> ord r \<le> ord s"
proof -
  obtain y ys where ys: "sort_key ord (filter P t) = y # ys" "r = y"
    using assms by (cases "sort_key ord (filter P t)") (auto simp: select_limit_def)
  then have "r \<in> set (sort_key ord (filter P t))" by simp
  then show "r \<in> set t" "P r" by simp_all
  show "ord r \<le> ord s" if "s \<in> set t" "P s" for s
    using hd_sort_key_le[OF _ ys(1), of s] ys(2) that by simp
qed

subsection \<open>First occurrences\<close>

text \<open>What the code builds with a \<open>seen\<close> set: each element once, where it occurs first.\<close>

definition first_occurrences :: "'a list \<Rightarrow> 'a list" where
  "first_occurrences xs = rev (remdups (rev xs))"

lemma first_occurrences_Nil [simp]: "first_occurrences [] = []"
  by (simp add: first_occurrences_def)

lemma first_occurrences_Cons [simp]:
  "first_occurrences (x # xs) = x # filter (\<lambda>y. y \<noteq> x) (first_occurrences xs)"
  unfolding first_occurrences_def by (induction xs rule: rev_induct) auto

lemma set_first_occurrences [simp]: "set (first_occurrences xs) = set xs"
  by (simp add: first_occurrences_def)

lemma distinct_first_occurrences [simp]: "distinct (first_occurrences xs)"
  by (simp add: first_occurrences_def)

lemma fetchone_select_limit_1:
  assumes "r \<in> set t" and "P r" and "\<And>s. s \<in> set t \<Longrightarrow> P s \<Longrightarrow> s \<noteq> r \<Longrightarrow> ord r < ord s"
  shows "fetchone (select_limit 1 ord P t) = Some r"
proof (cases "fetchone (select_limit 1 ord P t)")
  case None
  then show ?thesis using assms(1,2) by auto
next
  case (Some s)
  note s = select_limit_1_min[OF Some]
  have "s = r"
  proof (rule ccontr)
    assume "s \<noteq> r"
    then have "ord r < ord s" using assms(3) s(1,2) by blast
    with s(3)[OF assms(1,2)] show False by simp
  qed
  then show ?thesis using Some by simp
qed

end
