(* ===== verification/Work_Interfaces.thy ===== *)
theory Work_Interfaces
  imports CAI_Prelude
begin

text \<open>
  The contracts that several parts of the system rely on, as locales.

  \<open>leased_work\<close> is the contract of a durable work table polled by competing workers: a claim
  hands out one claimable row that no other transaction has locked and leases it, so that the row
  is not claimable again before the lease expires.  The cycle table and the two media tables
  provide it; the workers rely on it.

  \<open>event_gate\<close> is the contract of the idempotency ledger that the webhook route relies on: a key
  that was accepted is refused until its window has passed, whatever other operations run.
\<close>

section \<open>Leased work\<close>

text \<open>A sequence of claims, each with its time, the keys locked by other transactions at that
  moment, the owner and the lease in seconds; the result is the list of rows handed out.\<close>

type_synonym 'k claim_request = "time \<times> 'k set \<times> string \<times> int"

fun run_claims ::
  "(time \<Rightarrow> 'k set \<Rightarrow> string \<Rightarrow> int \<Rightarrow> 's \<Rightarrow> 'r option \<times> 's) \<Rightarrow>
   'k claim_request list \<Rightarrow> 's \<Rightarrow> 'r list \<times> 's" where
  "run_claims c [] s = ([], s)"
| "run_claims c ((now, locked, owner, lease) # reqs) s =
    (case c now locked owner lease s of (res, s') \<Rightarrow>
      (case run_claims c reqs s' of (rs, s'') \<Rightarrow>
        ((case res of None \<Rightarrow> rs | Some r \<Rightarrow> r # rs), s'')))"

definition claims_within :: "time \<Rightarrow> time \<Rightarrow> 'k claim_request list \<Rightarrow> bool" where
  "claims_within t0 t1 reqs \<longleftrightarrow>
    (\<forall>(now, locked, owner, lease) \<in> set reqs. t0 \<le> now \<and> now < t1 \<and> t1 \<le> now + seconds lease)"

lemma claims_within_Cons [simp]:
  "claims_within t0 t1 ((now, locked, owner, lease) # reqs) \<longleftrightarrow>
    t0 \<le> now \<and> now < t1 \<and> t1 \<le> now + seconds lease \<and> claims_within t0 t1 reqs"
  by (simp add: claims_within_def)

lemma claims_within_Nil [simp]: "claims_within t0 t1 []"
  by (simp add: claims_within_def)

locale leased_work =
  fixes rows :: "'s \<Rightarrow> 'r list"
    and key :: "'r \<Rightarrow> 'k"
    and claimable :: "time \<Rightarrow> 'r \<Rightarrow> bool"
    and claim :: "time \<Rightarrow> 'k set \<Rightarrow> string \<Rightarrow> int \<Rightarrow> 's \<Rightarrow> 'r option \<times> 's"
    and ok :: "string \<Rightarrow> int \<Rightarrow> bool"
  assumes claim_Some:
      "distinct (map key (rows s)) \<Longrightarrow> claim now locked owner lease s = (Some r, s') \<Longrightarrow>
        \<exists>r0 \<in> set (rows s). key r0 = key r \<and> claimable now r0 \<and> key r0 \<notin> locked \<and>
          rows s' = update_where (\<lambda>x. key x = key r) (\<lambda>_. r) (rows s)"
    and claim_None:
      "claim now locked owner lease s = (None, s') \<Longrightarrow> rows s' = rows s"
    and claim_idle:
      "claim now locked owner lease s = (None, s') \<Longrightarrow> ok owner lease \<Longrightarrow>
        r \<in> set (rows s) \<Longrightarrow> key r \<notin> locked \<Longrightarrow> \<not> claimable now r"
    and claim_leases:
      "distinct (map key (rows s)) \<Longrightarrow> claim now locked owner lease s = (Some r, s') \<Longrightarrow>
        t < now + seconds lease \<Longrightarrow> \<not> claimable t r"
begin

lemma claim_keys:
  assumes "distinct (map key (rows s))" and "claim now locked owner lease s = (res, s')"
  shows "map key (rows s') = map key (rows s)"
proof (cases res)
  case None
  with assms(2) claim_None show ?thesis by metis
next
  case (Some r)
  with assms claim_Some have "rows s' = update_where (\<lambda>x. key x = key r) (\<lambda>_. r) (rows s)"
    by blast
  then show ?thesis by (auto intro!: map_update_where)
qed

lemma claim_other_row:
  assumes "distinct (map key (rows s))" and "claim now locked owner lease s = (Some r, s')"
    and "x \<in> set (rows s)" and "key x \<noteq> key r"
  shows "x \<in> set (rows s')"
proof -
  have "rows s' = update_where (\<lambda>x. key x = key r) (\<lambda>_. r) (rows s)"
    using claim_Some[OF assms(1,2)] by blast
  with assms(3,4) show ?thesis by (simp add: update_where_same)
qed

lemma claimed_row:
  assumes "distinct (map key (rows s))" and "claim now locked owner lease s = (Some r, s')"
  shows "r \<in> set (rows s')"
proof -
  obtain r0 where "r0 \<in> set (rows s)" "key r0 = key r"
    and "rows s' = update_where (\<lambda>x. key x = key r) (\<lambda>_. r) (rows s)"
    using claim_Some[OF assms] by blast
  then show ?thesis using update_where_changed[of r0 "rows s" "\<lambda>x. key x = key r" "\<lambda>_. r"] by simp
qed

lemma leased_row_not_handed_out:
  assumes "distinct (map key (rows s))" and "x \<in> set (rows s)"
    and "\<And>t. t0 \<le> t \<Longrightarrow> t < t1 \<Longrightarrow> \<not> claimable t x" and "claims_within t0 t1 reqs"
  shows "key x \<notin> key ` set (fst (run_claims claim reqs s))"
  using assms
proof (induction reqs arbitrary: s)
  case Nil
  then show ?case by simp
next
  case (Cons req reqs)
  obtain now locked owner lease where req: "req = (now, locked, owner, lease)"
    by (cases req)
  obtain res s' where c: "claim now locked owner lease s = (res, s')"
    by fastforce
  have within: "t0 \<le> now" "now < t1" "claims_within t0 t1 reqs"
    using Cons.prems(4) req by auto
  have d': "distinct (map key (rows s'))"
    using claim_keys[OF Cons.prems(1) c] Cons.prems(1) by simp
  show ?case
  proof (cases res)
    case None
    then have "rows s' = rows s" using c claim_None by metis
    then have "key x \<notin> key ` set (fst (run_claims claim reqs s'))"
      using Cons.IH[OF d'] Cons.prems within by simp
    then show ?thesis using c None req by (simp split: prod.split)
  next
    case (Some r)
    have neq: "key x \<noteq> key r"
    proof
      assume eq: "key x = key r"
      obtain r0 where "r0 \<in> set (rows s)" "key r0 = key r" "claimable now r0"
        using claim_Some[OF Cons.prems(1)] c Some by blast
      then have "claimable now x"
        using distinct_key_eq[OF Cons.prems(1)] Cons.prems(2) eq by metis
      with Cons.prems(3) within show False by blast
    qed
    then have "x \<in> set (rows s')"
      using claim_other_row[OF Cons.prems(1)] c Some Cons.prems(2) by blast
    then have "key x \<notin> key ` set (fst (run_claims claim reqs s'))"
      using Cons.IH[OF d'] Cons.prems(3) within by blast
    then show ?thesis using c Some req neq by (auto split: prod.split)
  qed
qed

lemma claims_exclusive:
  assumes "distinct (map key (rows s))" and "claims_within t0 t1 reqs"
  shows "distinct (map key (fst (run_claims claim reqs s)))"
  using assms
proof (induction reqs arbitrary: s)
  case Nil
  then show ?case by simp
next
  case (Cons req reqs)
  obtain now locked owner lease where req: "req = (now, locked, owner, lease)"
    by (cases req)
  obtain res s' where c: "claim now locked owner lease s = (res, s')"
    by fastforce
  have within: "t1 \<le> now + seconds lease" "claims_within t0 t1 reqs"
    using Cons.prems(2) req by auto
  have d': "distinct (map key (rows s'))"
    using claim_keys[OF Cons.prems(1) c] Cons.prems(1) by simp
  note IH = Cons.IH[OF d' within(2)]
  show ?case
  proof (cases res)
    case None
    then show ?thesis using c req IH by (simp split: prod.split)
  next
    case (Some r)
    have "r \<in> set (rows s')" using claimed_row[OF Cons.prems(1)] c Some by blast
    moreover have "\<not> claimable t r" if "t < t1" for t
      using claim_leases[OF Cons.prems(1), of now locked owner lease r s' t] c Some that within(1) by simp
    ultimately have "key r \<notin> key ` set (fst (run_claims claim reqs s'))"
      using leased_row_not_handed_out[OF d' _ _ within(2)] by blast
    then show ?thesis using c Some req IH by (auto split: prod.split)
  qed
qed

end

section \<open>Idempotency gate\<close>

text \<open>The keys accepted by a sequence of timed operations, with the time of acceptance.\<close>

fun gate_run ::
  "(time \<Rightarrow> 'op \<Rightarrow> 's \<Rightarrow> 'k option \<times> 's) \<Rightarrow> (time \<times> 'op) list \<Rightarrow> 's \<Rightarrow> (time \<times> 'k) list" where
  "gate_run step [] s = []"
| "gate_run step ((now, x) # ops) s =
    (case step now x s of (res, s') \<Rightarrow>
      (case res of None \<Rightarrow> gate_run step ops s' | Some k \<Rightarrow> (now, k) # gate_run step ops s'))"

locale event_gate =
  fixes step :: "time \<Rightarrow> 'op \<Rightarrow> 's \<Rightarrow> 'k option \<times> 's"
    and active :: "time \<Rightarrow> 'k \<Rightarrow> 's \<Rightarrow> bool"
    and wf :: "'s \<Rightarrow> bool"
    and ttl :: time
  assumes step_wf: "wf s \<Longrightarrow> step now x s = (res, s') \<Longrightarrow> wf s'"
    and accept_inactive: "wf s \<Longrightarrow> step now x s = (Some k, s') \<Longrightarrow> \<not> active now k s"
    and accept_activates: "wf s \<Longrightarrow> step now x s = (Some k, s') \<Longrightarrow> t < now + ttl \<Longrightarrow> active t k s'"
    and step_keeps: "wf s \<Longrightarrow> step now x s = (res, s') \<Longrightarrow> now \<le> t \<Longrightarrow> active t k s \<Longrightarrow> active t k s'"
begin

lemma active_refused:
  assumes "wf s" and "sorted (map fst ops)" and "\<forall>t < t1. (\<forall>x \<in> set ops. t0 \<le> fst x) \<longrightarrow> t0 \<le> t \<longrightarrow> active t k s"
    and "\<forall>x \<in> set ops. t0 \<le> fst x" and "(t, k) \<in> set (gate_run step ops s)"
  shows "t1 \<le> t"
  using assms
proof (induction ops arbitrary: s t0)
  case Nil
  then show ?case by simp
next
  case (Cons a ops)
  obtain now x where a: "a = (now, x)" by (cases a)
  obtain res s' where st: "step now x s = (res, s')" by fastforce
  have act: "active u k s" if "t0 \<le> u" "u < t1" for u
    using Cons.prems(3,4) that by blast
  have t0: "t0 \<le> now" using Cons.prems(4) a by simp
  have later: "\<forall>x \<in> set ops. now \<le> fst x" using Cons.prems(2) a by auto
  have act': "active u k s'" if "now \<le> u" "u < t1" for u
    using step_keeps[OF Cons.prems(1) st that(1)] act that t0 by simp
  have IH: "t1 \<le> t" if "(t, k) \<in> set (gate_run step ops s')"
    using Cons.IH[of s' now] step_wf[OF Cons.prems(1) st] Cons.prems(2) a act' later that by auto
  show ?case
  proof (cases "res = Some k \<and> t = now")
    case True
    then have "\<not> active now k s" using accept_inactive[OF Cons.prems(1)] st by blast
    then show ?thesis using act t0 True by (meson not_le)
  next
    case False
    then have "(t, k) \<in> set (gate_run step ops s')"
      using Cons.prems(5) a st by (auto split: option.splits)
    then show ?thesis by (rule IH)
  qed
qed

lemma acceptances_spaced:
  assumes "wf s" and "sorted (map fst ops)"
  shows "sorted_wrt (\<lambda>(t, k) (t', k'). k = k' \<longrightarrow> t + ttl \<le> t') (gate_run step ops s)"
  using assms
proof (induction ops arbitrary: s)
  case Nil
  then show ?case by simp
next
  case (Cons a ops)
  obtain now x where a: "a = (now, x)" by (cases a)
  obtain res s' where st: "step now x s = (res, s')" by fastforce
  have wf': "wf s'" using step_wf[OF Cons.prems(1) st] .
  have IH: "sorted_wrt (\<lambda>(t, k) (t', k'). k = k' \<longrightarrow> t + ttl \<le> t') (gate_run step ops s')"
    using Cons.IH[OF wf'] Cons.prems(2) by simp
  have "now + ttl \<le> t'" if "res = Some k" "(t', k) \<in> set (gate_run step ops s')" for k t'
  proof -
    have "\<forall>t < now + ttl. active t k s'"
      using accept_activates[OF Cons.prems(1)] st that(1) by blast
    then show ?thesis
      using active_refused[OF wf' _ _ _ that(2), of "now + ttl" now] Cons.prems(2) a by auto
  qed
  with IH show ?case using a st by (auto split: option.splits)
qed

end

section \<open>Tables of immutable outcomes\<close>

locale snapshot_table =
  fixes rows :: "'s \<Rightarrow> 'r list"
    and key :: "'r \<Rightarrow> 'k"
    and step :: "'op \<Rightarrow> 's \<Rightarrow> 's"
    and inv :: "'s \<Rightarrow> bool"
  assumes step_inv: "inv s \<Longrightarrow> inv (step x s)"
    and step_appends: "inv s \<Longrightarrow> \<exists>rs. rows (step x s) = rows s @ rs"
    and keys_unique: "inv s \<Longrightarrow> distinct (map key (rows s))"
begin

lemma run_inv: "inv s \<Longrightarrow> inv (fold step ops s)"
  by (induction ops arbitrary: s) (simp_all add: step_inv)

lemma run_appends: "inv s \<Longrightarrow> \<exists>rs. rows (fold step ops s) = rows s @ rs"
proof (induction ops arbitrary: s)
  case (Cons x ops)
  obtain rs where rs: "rows (step x s) = rows s @ rs" using step_appends[OF Cons.prems] by blast
  obtain rs' where rs': "rows (fold step ops (step x s)) = rows (step x s) @ rs'"
    using Cons.IH[OF step_inv[OF Cons.prems]] by blast
  show ?case by (intro exI[of _ "rs @ rs'"]) (simp add: rs rs')
qed simp

lemma lookup_kept:
  assumes "inv s" and "lookup_by key k (rows s) = Some r"
  shows "lookup_by key k (rows (fold step ops s)) = Some r"
  using run_appends[OF assms(1), of ops] assms(2) by (auto simp: lookup_by_append)

lemma row_kept:
  assumes "inv s" and "r \<in> set (rows s)"
  shows "lookup_by key (key r) (rows (fold step ops s)) = Some r"
  by (rule lookup_kept[OF assms(1)]) (use assms in \<open>simp add: lookup_by_unique keys_unique\<close>)

end

end
