(* ===== verification/Webhook_Events.thy ===== *)
theory Webhook_Events
  imports Work_Interfaces
begin

text \<open>
  The ledger of received webhook events (\<open>src/core/webhook_event_repository.py\<close>, table
  \<open>webhook_event_keys\<close>): recording an event digest with a one-hour window, bounded
  cleanup of expired rows, and the one-time import of legacy markers.  The ledger provides the
  interface \<open>event_gate\<close>; the properties say that a digest is accepted at most once per
  window whatever is interleaved, and that cleanup and import never touch a live entry.
\<close>

section \<open>State and operations\<close>

record event_row =
  event_digest :: string
  first_seen_at :: time
  expires_at :: time

type_synonym ledger = "event_row list"

definition EVENT_IDEMPOTENCY_TTL_SECONDS :: int where
  "EVENT_IDEMPOTENCY_TTL_SECONDS = 3600"

definition MAX_CLEANUP_BATCH_SIZE :: int where
  "MAX_CLEANUP_BATCH_SIZE = 1000"

record webhook_event_decision =
  accepted :: bool
  outcome :: string

record cleanup_report =
  before_count :: nat
  removed_count :: nat
  after_count :: nat
  batch_size :: int

definition valid_event_digest :: "string \<Rightarrow> bool" where
  "valid_event_digest d \<longleftrightarrow> length d = 64 \<and> list_all (\<lambda>c. c \<in> set ''0123456789abcdef'') d"

definition validate_event_digest :: "string \<Rightarrow> py_error + string" where
  "validate_event_digest d =
    (if valid_event_digest d then Inr d
     else Inl (ValueError ''event_digest must be a lowercase SHA-256 digest''))"

text \<open>\<open>INSERT ... ON CONFLICT (event_digest) DO UPDATE ... WHERE expires_at <= CURRENT_TIMESTAMP
  RETURNING (xmax = 0)\<close>: the returned value is \<open>None\<close> when the conflicting row is live, and
  otherwise says whether the row was inserted.\<close>

definition upsert_event ::
  "time \<Rightarrow> string \<Rightarrow> time \<Rightarrow> time \<Rightarrow> ledger \<Rightarrow> bool option \<times> ledger" where
  "upsert_event now d seen expires l =
    (case lookup_by event_digest d l of
       None \<Rightarrow> (Some True, l @ [\<lparr>event_digest = d, first_seen_at = seen, expires_at = expires\<rparr>])
     | Some r \<Rightarrow>
         (if expires_at r \<le> now
          then (Some False, update_where (\<lambda>x. event_digest x = d)
                  (\<lambda>x. x\<lparr>first_seen_at := seen, expires_at := expires\<rparr>) l)
          else (None, l)))"

definition record_webhook_event ::
  "time \<Rightarrow> string \<Rightarrow> ledger \<Rightarrow> (py_error + webhook_event_decision) \<times> ledger" where
  "record_webhook_event now digest l =
    (case validate_event_digest digest of
       Inl e \<Rightarrow> (Inl e, l)
     | Inr d \<Rightarrow>
         (case upsert_event now d now (now + seconds 3600) l of
            (None, l') \<Rightarrow> (Inr \<lparr>accepted = False, outcome = ''duplicate''\<rparr>, l')
          | (Some True, l') \<Rightarrow> (Inr \<lparr>accepted = True, outcome = ''accepted''\<rparr>, l')
          | (Some False, l') \<Rightarrow> (Inr \<lparr>accepted = True, outcome = ''expired_replaced''\<rparr>, l')))"

definition try_mark_webhook_event :: "time \<Rightarrow> string \<Rightarrow> ledger \<Rightarrow> (py_error + bool) \<times> ledger" where
  "try_mark_webhook_event now digest l =
    (case record_webhook_event now digest l of
       (Inl e, l') \<Rightarrow> (Inl e, l')
     | (Inr d, l') \<Rightarrow> (Inr (accepted d), l'))"

definition expired :: "time \<Rightarrow> event_row \<Rightarrow> bool" where
  "expired now r \<longleftrightarrow> expires_at r \<le> now"

definition count_expired :: "time \<Rightarrow> ledger \<Rightarrow> nat" where
  "count_expired now l = length (filter (expired now) l)"

text \<open>\<open>locked\<close> is the set of digests whose rows another transaction holds locked.\<close>

definition cleanup_victims :: "time \<Rightarrow> string set \<Rightarrow> nat \<Rightarrow> ledger \<Rightarrow> event_row list" where
  "cleanup_victims now locked n l =
    select_limit n (\<lambda>r. (expires_at r, event_digest r))
      (\<lambda>r. expired now r \<and> event_digest r \<notin> locked) l"

definition cleanup_expired_webhook_event_keys ::
  "time \<Rightarrow> string set \<Rightarrow> int \<Rightarrow> ledger \<Rightarrow> (py_error + cleanup_report) \<times> ledger" where
  "cleanup_expired_webhook_event_keys now locked batch l =
    (if \<not> (1 \<le> batch \<and> batch \<le> MAX_CLEANUP_BATCH_SIZE)
     then (Inl (ValueError ''batch_size must be between 1 and 1000''), l)
     else
       let doomed = (\<lambda>r. event_digest r \<in>
              event_digest ` set (cleanup_victims now locked (nat batch) l));
           l' = filter (\<lambda>r. \<not> doomed r) l
       in (Inr \<lparr>before_count = count_expired now l,
                removed_count = length (filter doomed l),
                after_count = count_expired now l',
                batch_size = batch\<rparr>, l'))"

fun normalize_legacy_entries :: "(string \<times> int) list \<Rightarrow> py_error + (string \<times> int) list" where
  "normalize_legacy_entries [] = Inr []"
| "normalize_legacy_entries ((d, ttl) # es) =
    (case validate_event_digest d of
       Inl e \<Rightarrow> Inl e
     | Inr d' \<Rightarrow>
         (if ttl \<le> 0 then Inl (ValueError ''legacy marker TTL must be positive'')
          else (case normalize_legacy_entries es of
                  Inl e \<Rightarrow> Inl e
                | Inr es' \<Rightarrow> Inr ((d', ttl) # es'))))"

fun import_entries ::
  "time \<Rightarrow> time \<Rightarrow> (string \<times> int) list \<Rightarrow> nat \<Rightarrow> ledger \<Rightarrow> nat \<times> ledger" where
  "import_entries now captured [] n l = (n, l)"
| "import_entries now captured ((d, ttl) # es) n l =
    (let expires = captured + seconds ttl;
         seen = expires - seconds EVENT_IDEMPOTENCY_TTL_SECONDS
     in case upsert_event now d seen expires l of
          (None, l') \<Rightarrow> import_entries now captured es n l'
        | (Some _, l') \<Rightarrow> import_entries now captured es (n + 1) l')"

text \<open>\<open>now\<close> is the database clock and \<open>captured\<close> the clock of the importing process.\<close>

definition import_legacy_webhook_event_keys ::
  "time \<Rightarrow> time \<Rightarrow> (string \<times> int) list \<Rightarrow> ledger \<Rightarrow> (py_error + nat) \<times> ledger" where
  "import_legacy_webhook_event_keys now captured entries l =
    (case normalize_legacy_entries entries of
       Inl e \<Rightarrow> (Inl e, l)
     | Inr es \<Rightarrow> (case import_entries now captured es 0 l of (n, l') \<Rightarrow> (Inr n, l')))"

section \<open>The ledger as an idempotency gate\<close>

datatype ledger_op =
    Record_Event string
  | Cleanup int "string set"
  | Import_Legacy time "(string \<times> int) list"

fun ledger_step :: "time \<Rightarrow> ledger_op \<Rightarrow> ledger \<Rightarrow> string option \<times> ledger" where
  "ledger_step now (Record_Event d) l =
    (case try_mark_webhook_event now d l of
       (Inr True, l') \<Rightarrow> (Some d, l')
     | (_, l') \<Rightarrow> (None, l'))"
| "ledger_step now (Cleanup batch locked) l =
    (None, snd (cleanup_expired_webhook_event_keys now locked batch l))"
| "ledger_step now (Import_Legacy captured entries) l =
    (None, snd (import_legacy_webhook_event_keys now captured entries l))"

definition ledger_wf :: "ledger \<Rightarrow> bool" where
  "ledger_wf l \<longleftrightarrow> distinct (map event_digest l)"

definition event_active :: "time \<Rightarrow> string \<Rightarrow> ledger \<Rightarrow> bool" where
  "event_active now d l =
    (case lookup_by event_digest d l of None \<Rightarrow> False | Some r \<Rightarrow> now < expires_at r)"

lemma upsert_wf:
  "ledger_wf l \<Longrightarrow> upsert_event now d seen ex l = (res, l') \<Longrightarrow> ledger_wf l'"
  by (auto simp: upsert_event_def ledger_wf_def lookup_by_None map_update_where
      split: option.splits if_splits)

lemma upsert_active:
  "event_active t d' (snd (upsert_event now d seen ex l)) \<longleftrightarrow>
    (if d' = d \<and> fst (upsert_event now d seen ex l) \<noteq> None then t < ex else event_active t d' l)"
  by (auto simp: upsert_event_def event_active_def lookup_by_append lookup_by_update_where
      split: option.splits dest: lookup_by_Some)

lemma upsert_refused:
  "fst (upsert_event now d seen ex l) = None \<longleftrightarrow> event_active now d l"
  by (auto simp: upsert_event_def event_active_def split: option.splits)

lemma upsert_keeps:
  assumes "now \<le> t" and "event_active t d' l"
  shows "event_active t d' (snd (upsert_event now d seen ex l))"
proof -
  have "event_active now d' l"
    using assms by (auto simp: event_active_def split: option.splits)
  then show ?thesis
    using assms(2) upsert_refused[of now d seen ex l] upsert_active[of t d' now d seen ex l]
    by auto
qed

lemma record_cases:
  "record_webhook_event now d l =
    (if \<not> valid_event_digest d
     then (Inl (ValueError ''event_digest must be a lowercase SHA-256 digest''), l)
     else if event_active now d l then (Inr \<lparr>accepted = False, outcome = ''duplicate''\<rparr>, l)
     else (Inr \<lparr>accepted = True, outcome =
             (if d \<in> event_digest ` set l then ''expired_replaced'' else ''accepted'')\<rparr>,
           snd (upsert_event now d now (now + seconds 3600) l)))"
proof (cases "lookup_by event_digest d l")
  case None
  then have "d \<notin> event_digest ` set l" by (simp add: lookup_by_None)
  with None show ?thesis
    by (simp add: record_webhook_event_def validate_event_digest_def upsert_event_def
        event_active_def)
next
  case (Some r)
  then have "d \<in> event_digest ` set l" by (auto dest: lookup_by_Some)
  with Some show ?thesis
    by (auto simp: record_webhook_event_def validate_event_digest_def upsert_event_def
        event_active_def)
qed

lemma import_entries_Cons:
  "\<exists>seen ex n'. import_entries now cap (e # es) n l =
    import_entries now cap es n' (snd (upsert_event now (fst e) seen ex l))"
proof -
  obtain d ttl where e: "e = (d, ttl)" by (cases e)
  define ex where "ex = cap + seconds ttl"
  define seen where "seen = ex - seconds EVENT_IDEMPOTENCY_TTL_SECONDS"
  obtain res l1 where u: "upsert_event now d seen ex l = (res, l1)" by fastforce
  then have "import_entries now cap (e # es) n l =
      import_entries now cap es (case res of None \<Rightarrow> n | Some _ \<Rightarrow> n + 1) l1"
    using e by (simp add: Let_def ex_def seen_def split: option.splits)
  then show ?thesis using u e by (metis fst_conv snd_conv)
qed

lemma import_entries_wf:
  "ledger_wf l \<Longrightarrow> ledger_wf (snd (import_entries now cap es n l))"
proof (induction es arbitrary: n l)
  case (Cons e es)
  obtain seen ex n' where eq: "import_entries now cap (e # es) n l =
      import_entries now cap es n' (snd (upsert_event now (fst e) seen ex l))"
    using import_entries_Cons by blast
  show ?case
    unfolding eq using Cons.IH upsert_wf[OF Cons.prems] by (metis prod.collapse)
qed simp

lemma import_entries_keeps:
  "now \<le> t \<Longrightarrow> event_active t d l \<Longrightarrow> event_active t d (snd (import_entries now cap es n l))"
proof (induction es arbitrary: n l)
  case (Cons e es)
  obtain seen ex n' where eq: "import_entries now cap (e # es) n l =
      import_entries now cap es n' (snd (upsert_event now (fst e) seen ex l))"
    using import_entries_Cons by blast
  show ?case
    unfolding eq using Cons.IH[OF Cons.prems(1)] upsert_keeps[OF Cons.prems] by blast
qed simp

lemma cleanup_victim_expired:
  "ledger_wf l \<Longrightarrow> r \<in> set l \<Longrightarrow> event_digest r \<in> event_digest ` set (cleanup_victims now locked n l)
    \<Longrightarrow> expired now r \<and> event_digest r \<notin> locked"
proof -
  assume wf: "ledger_wf l" and r: "r \<in> set l"
    and "event_digest r \<in> event_digest ` set (cleanup_victims now locked n l)"
  then obtain v where v: "event_digest r = event_digest v" "v \<in> set (cleanup_victims now locked n l)"
    by blast
  have "v \<in> set l" and ex: "expired now v \<and> event_digest v \<notin> locked"
    using select_limit_sub[OF v(2)[unfolded cleanup_victims_def]] by simp_all
  then have "r = v"
    using distinct_key_eq[of event_digest l r v] wf r v(1) by (simp add: ledger_wf_def)
  with ex show ?thesis by simp
qed

lemma cleanup_keeps:
  assumes "ledger_wf l" and "now \<le> t" and "event_active t d l"
  shows "event_active t d (snd (cleanup_expired_webhook_event_keys now locked batch l))"
proof -
  obtain r where r: "lookup_by event_digest d l = Some r" "t < expires_at r"
    using assms(3) by (auto simp: event_active_def split: option.splits)
  then have "r \<in> set l" "event_digest r = d" by (auto dest: lookup_by_Some)
  moreover have "\<not> expired now r" using r(2) assms(2) by (simp add: expired_def)
  ultimately have "d \<notin> event_digest ` set (cleanup_victims now locked (nat batch) l)"
    using cleanup_victim_expired[OF assms(1)] by metis
  then show ?thesis
    using r assms(1) \<open>event_digest r = d\<close>
    by (auto simp: cleanup_expired_webhook_event_keys_def Let_def event_active_def
        ledger_wf_def lookup_by_filter)
qed

lemma ledger_step_wf: "ledger_wf l \<Longrightarrow> ledger_step now x l = (res, l') \<Longrightarrow> ledger_wf l'"
proof (cases x)
  case (Record_Event d)
  assume "ledger_wf l" "ledger_step now x l = (res, l')"
  then show ?thesis
    using Record_Event upsert_wf[of l now d now "now + seconds 3600"]
    by (auto simp: try_mark_webhook_event_def record_cases prod_eq_iff
        split: prod.splits sum.splits bool.splits if_splits)
next
  case (Cleanup batch locked)
  assume "ledger_wf l" "ledger_step now x l = (res, l')"
  then show ?thesis
    using Cleanup by (auto simp: cleanup_expired_webhook_event_keys_def Let_def ledger_wf_def
        intro: distinct_map_filter)
next
  case (Import_Legacy captured entries)
  assume "ledger_wf l" "ledger_step now x l = (res, l')"
  then show ?thesis
    using Import_Legacy by (auto simp: import_legacy_webhook_event_keys_def
        split: sum.splits prod.splits) (metis import_entries_wf snd_conv)
qed

lemma ledger_step_accepts:
  "ledger_step now x l = (Some k, l') \<Longrightarrow>
    \<not> event_active now k l \<and> l' = snd (upsert_event now k now (now + seconds 3600) l)"
  by (cases x) (auto simp: try_mark_webhook_event_def record_cases
      split: prod.splits sum.splits bool.splits if_splits)

lemma ledger_step_keeps:
  assumes "ledger_wf l" and "ledger_step now x l = (res, l')" and "now \<le> t" and "event_active t k l"
  shows "event_active t k l'"
proof (cases x)
  case (Record_Event d)
  then show ?thesis
    using assms upsert_keeps[OF assms(3,4), of d now "now + seconds 3600"]
    by (auto simp: try_mark_webhook_event_def record_cases
        split: prod.splits sum.splits bool.splits if_splits)
next
  case (Cleanup batch locked)
  then show ?thesis using assms cleanup_keeps[OF assms(1,3,4), of locked batch] by auto
next
  case (Import_Legacy captured entries)
  then show ?thesis
    using assms import_entries_keeps[OF assms(3,4)]
    by (auto simp: import_legacy_webhook_event_keys_def split: sum.splits prod.splits)
      (metis snd_conv)
qed

interpretation ledger_gate: event_gate ledger_step event_active ledger_wf "seconds 3600"
proof unfold_locales
  fix l now x k l' and t :: time
  assume l: "ledger_wf l" and st: "ledger_step now x l = (Some k, l')"
  note a = ledger_step_accepts[OF st]
  show "\<not> event_active now k l" using a by simp
  show "event_active t k l'" if "t < now + seconds 3600"
    using a that upsert_active[of t k now k now "now + seconds 3600" l]
      upsert_refused[of now k now "now + seconds 3600" l] by auto
qed (auto intro: ledger_step_wf ledger_step_keeps)

section \<open>Properties\<close>

text \<open>Whatever recordings, cleanups and imports are interleaved (in the order of the database
  clock), two acceptances of the same event digest are at least one hour apart.\<close>

theorem events_accepted_once_per_window:
  assumes "distinct (map event_digest l)" and "sorted (map fst ops)"
  shows "sorted_wrt (\<lambda>(t, d) (t', d'). d = d' \<longrightarrow> t + seconds 3600 \<le> t')
    (gate_run ledger_step ops l)"
  using ledger_gate.acceptances_spaced[of l ops] assms by (simp add: ledger_wf_def)

definition sample_digest :: string where
  "sample_digest = replicate 64 (CHR ''a'')"

lemma sample_digest_valid: "valid_event_digest sample_digest"
  by (simp add: valid_event_digest_def sample_digest_def list_all_iff)

lemma sample_run:
  "gate_run ledger_step
    [(0, Record_Event sample_digest), (10, Record_Event sample_digest),
     (3600000000, Record_Event sample_digest)] [] =
    [(0, sample_digest), (3600000000, sample_digest)]"
  by (simp add: try_mark_webhook_event_def record_cases sample_digest_valid event_active_def
      upsert_event_def seconds_def)

theorem events_accepted_once_per_window_witness:
  "sorted_wrt (\<lambda>(t, d) (t', d'). d = d' \<longrightarrow> t + seconds 3600 \<le> t')
    (gate_run ledger_step
      [(0, Record_Event sample_digest), (10, Record_Event sample_digest),
       (3600000000, Record_Event sample_digest)] [])"
  using events_accepted_once_per_window[of "[]"
      "[(0, Record_Event sample_digest), (10, Record_Event sample_digest),
        (3600000000, Record_Event sample_digest)]"] by simp

text \<open>Recording a well-formed digest is accepted exactly when no live row holds it; the row
  then lives one hour from the database clock, a duplicate changes nothing, and no other digest's
  row changes in either case.\<close>

theorem record_webhook_event_decides:
  assumes "valid_event_digest d" and "record_webhook_event now d l = (res, l')"
  shows "\<exists>dec. res = Inr dec \<and>
    (accepted dec \<longleftrightarrow> \<not> event_active now d l) \<and>
    (accepted dec \<longrightarrow> (\<forall>t. event_active t d l' \<longleftrightarrow> t < now + seconds 3600)) \<and>
    (\<not> accepted dec \<longrightarrow> l' = l \<and> outcome dec = ''duplicate'') \<and>
    (\<forall>t d'. d' \<noteq> d \<longrightarrow> event_active t d' l' = event_active t d' l)"
  using assms upsert_active[of _ _ now d now "now + seconds 3600" l]
    upsert_refused[of now d now "now + seconds 3600" l]
  by (auto simp: record_cases split: if_splits)

theorem record_webhook_event_decides_witness:
  "\<exists>dec. fst (record_webhook_event 5 sample_digest []) = Inr dec \<and> accepted dec"
  using record_webhook_event_decides[of sample_digest 5 "[]"
      "fst (record_webhook_event 5 sample_digest [])" "snd (record_webhook_event 5 sample_digest [])"]
    sample_digest_valid
  by (auto simp: event_active_def)

lemma doomed_iff:
  assumes "distinct (map event_digest l)" and "r \<in> set l"
  shows "event_digest r \<in> event_digest ` set (cleanup_victims now locked n l) \<longleftrightarrow>
    r \<in> set (cleanup_victims now locked n l)"
proof
  assume "event_digest r \<in> event_digest ` set (cleanup_victims now locked n l)"
  then obtain v where v: "v \<in> set (cleanup_victims now locked n l)" "event_digest r = event_digest v"
    by auto
  then have "v \<in> set l"
    using select_limit_sub[OF v(1)[unfolded cleanup_victims_def]] by simp
  then have "r = v" using distinct_key_eq[OF assms(1,2)] v(2) by simp
  with v(1) show "r \<in> set (cleanup_victims now locked n l)" by simp
qed simp

lemma count_doomed:
  assumes "distinct (map event_digest l)"
  shows "length (filter (\<lambda>r. event_digest r \<in> event_digest ` set (cleanup_victims now locked n l)) l)
    = length (cleanup_victims now locked n l)"
proof -
  let ?v = "cleanup_victims now locked n l"
  have d: "distinct l" using assms by (simp add: distinct_map)
  have "distinct (map event_digest ?v)"
    unfolding cleanup_victims_def by (rule distinct_select_limit[OF assms])
  then have dv: "distinct ?v" by (simp add: distinct_map)
  have sub: "set ?v \<subseteq> set l"
    by (auto simp: cleanup_victims_def dest: select_limit_sub)
  have "filter (\<lambda>r. event_digest r \<in> event_digest ` set ?v) l = filter (\<lambda>r. r \<in> set ?v) l"
    using doomed_iff[OF assms] by (metis (no_types, lifting) filter_cong)
  moreover have "set (filter (\<lambda>r. r \<in> set ?v) l) = set ?v" using sub by auto
  moreover have "distinct (filter (\<lambda>r. r \<in> set ?v) l)" using d by simp
  ultimately show ?thesis using dv by (metis distinct_card)
qed

lemma take_sort_key_least:
  assumes "x \<in> set (take n (sort_key ord xs))" and "y \<in> set xs"
    and "y \<notin> set (take n (sort_key ord xs))"
  shows "ord x \<le> ord y"
proof -
  let ?s = "sort_key ord xs"
  have "sorted (map ord (take n ?s) @ map ord (drop n ?s))"
    by (metis append_take_drop_id map_append sorted_sort_key)
  moreover have "y \<in> set (drop n ?s)"
    using assms(2,3) by (metis UnE append_take_drop_id set_append set_sort)
  ultimately show ?thesis using assms(1) by (auto simp: sorted_append)
qed

text \<open>A cleanup with an admissible batch size deletes exactly the oldest expired unlocked rows,
  as many as the batch allows, keeps every live row, and its report adds up.\<close>

theorem cleanup_removes_oldest_expired:
  assumes "1 \<le> batch" and "batch \<le> 1000" and "distinct (map event_digest l)"
    and "cleanup_expired_webhook_event_keys now locked batch l = (res, l')"
  shows "\<exists>rep. res = Inr rep \<and>
    removed_count rep =
      min (length (filter (\<lambda>r. expired now r \<and> event_digest r \<notin> locked) l)) (nat batch) \<and>
    before_count rep = removed_count rep + after_count rep \<and>
    (\<forall>r \<in> set l. \<not> expired now r \<longrightarrow> r \<in> set l') \<and>
    (\<forall>x \<in> set l. \<forall>y \<in> set l'. x \<notin> set l' \<longrightarrow> expired now y \<longrightarrow> event_digest y \<notin> locked \<longrightarrow>
      (expires_at x, event_digest x) \<le> (expires_at y, event_digest y))"
proof -
  let ?v = "cleanup_victims now locked (nat batch) l"
  let ?doomed = "\<lambda>r. event_digest r \<in> event_digest ` set ?v"
  have l': "l' = filter (\<lambda>r. \<not> ?doomed r) l"
    and res: "res = Inr \<lparr>before_count = count_expired now l, removed_count = length (filter ?doomed l),
      after_count = count_expired now l', batch_size = batch\<rparr>"
    using assms(1,2,4) by (auto simp: cleanup_expired_webhook_event_keys_def Let_def
        MAX_CLEANUP_BATCH_SIZE_def)
  have exp: "expired now r" if "r \<in> set l" "?doomed r" for r
    using cleanup_victim_expired[of l r now locked "nat batch"] assms(3) that
    by (simp add: ledger_wf_def)
  have "length (filter (expired now) l) =
      length (filter ?doomed l) + length (filter (\<lambda>r. expired now r \<and> \<not> ?doomed r) l)"
    using sum_length_filter_compl[of ?doomed "filter (expired now) l"] exp
    by (simp add: conj_commute cong: filter_cong conj_cong)
      (metis (mono_tags, lifting) exp filter_cong)
  then have sum: "count_expired now l = length (filter ?doomed l) + count_expired now l'"
    by (simp add: count_expired_def l' conj_commute)
  have keep: "r \<in> set l'" if "r \<in> set l" "\<not> expired now r" for r
    using exp that by (auto simp: l')
  have oldest: "(expires_at x, event_digest x) \<le> (expires_at y, event_digest y)"
    if "x \<in> set l" "y \<in> set l'" "x \<notin> set l'" "expired now y" "event_digest y \<notin> locked" for x y
  proof -
    have "x \<in> set ?v" using that(1,3) doomed_iff[OF assms(3)] by (auto simp: l')
    moreover have "y \<notin> set ?v" "y \<in> set l" using that(2) by (auto simp: l')
    ultimately show ?thesis
      using that(4,5) take_sort_key_least[of x "nat batch" "\<lambda>r. (expires_at r, event_digest r)" _ y]
      unfolding cleanup_victims_def select_limit_def by simp
  qed
  show ?thesis
    using res sum keep oldest count_doomed[OF assms(3), of now locked "nat batch"]
    by (simp add: cleanup_victims_def)
qed

theorem cleanup_removes_oldest_expired_witness:
  "\<exists>rep. fst (cleanup_expired_webhook_event_keys 7 {} 1
      [\<lparr>event_digest = ''b'', first_seen_at = 0, expires_at = 6\<rparr>,
       \<lparr>event_digest = ''a'', first_seen_at = 0, expires_at = 3\<rparr>]) = Inr rep \<and> removed_count rep = 1"
  using cleanup_removes_oldest_expired[of 1
      "[\<lparr>event_digest = ''b'', first_seen_at = 0, expires_at = 6\<rparr>,
        \<lparr>event_digest = ''a'', first_seen_at = 0, expires_at = 3\<rparr>]" 7 "{}"]
  by (auto simp: expired_def prod_eq_iff)

end
