(* ===== verification/Py_Text.thy ===== *)
theory Py_Text
  imports CAI_Prelude
begin

text \<open>
  Python's string operations that the modelled code uses.  A \<open>char\<close> stands for the code point of
  the same number, so the model covers the strings of code points below 256; the white space,
  the lower-case mapping and the case folding below are Python's on that range (the folding of
  the micro sign, which leaves the range, is modelled as the identity).
\<close>

section \<open>White space\<close>

definition py_whitespace :: "char list" where
  "py_whitespace = [CHR 0x09, CHR 0x0A, CHR 0x0B, CHR 0x0C, CHR 0x0D, CHR 0x1C, CHR 0x1D,
     CHR 0x1E, CHR 0x1F, CHR 0x20, CHR 0x85, CHR 0xA0]"

definition py_isspace :: "char \<Rightarrow> bool" where
  "py_isspace c \<longleftrightarrow> c \<in> set py_whitespace"

definition py_strip :: "string \<Rightarrow> string" where
  "py_strip s = rev (dropWhile py_isspace (rev (dropWhile py_isspace s)))"

text \<open>PostgreSQL's \<open>btrim(s)\<close>, which removes spaces only.\<close>

definition btrim :: "string \<Rightarrow> string" where
  "btrim s = rev (dropWhile (\<lambda>c. c = CHR '' '') (rev (dropWhile (\<lambda>c. c = CHR '' '') s)))"

lemma py_strip_Nil_iff: "py_strip s = [] \<longleftrightarrow> list_all py_isspace s"
proof -
  have "py_strip s = [] \<longleftrightarrow> (\<forall>c \<in> set (dropWhile py_isspace s). py_isspace c)"
    by (simp add: py_strip_def)
  also have "\<dots> \<longleftrightarrow> dropWhile py_isspace s = []"
    by (metis hd_dropWhile hd_in_set list.set(1) empty_iff)
  finally show ?thesis by (simp add: list_all_iff)
qed

lemma btrim_Nil_iff: "btrim s = [] \<longleftrightarrow> (\<forall>c \<in> set s. c = CHR '' '')"
proof -
  let ?d = "dropWhile (\<lambda>c. c = CHR '' '') s"
  have "btrim s = [] \<longleftrightarrow> (\<forall>c \<in> set ?d. c = CHR '' '')"
    by (simp add: btrim_def)
  also have "\<dots> \<longleftrightarrow> ?d = []"
    by (metis (mono_tags, lifting) hd_dropWhile hd_in_set list.set(1) empty_iff)
  finally show ?thesis by simp
qed

lemma py_strip_empty [simp]: "py_strip [] = []"
  by (simp add: py_strip_def)

lemma dropWhile_rev_last:
  "xs \<noteq> [] \<Longrightarrow> \<not> P (hd xs) \<Longrightarrow> dropWhile P (rev xs) = rev xs \<or> hd (rev (dropWhile P (rev xs))) = hd xs"
proof -
  assume ne: "xs \<noteq> []" and h: "\<not> P (hd xs)"
  have "rev xs = rev (tl xs) @ [hd xs]" using ne by (cases xs) auto
  then have "dropWhile P (rev xs) = dropWhile P (rev (tl xs) @ [hd xs])" by simp
  also have "\<dots> = (if \<forall>x \<in> set (rev (tl xs)). P x then [hd xs]
      else dropWhile P (rev (tl xs)) @ [hd xs])"
    using h by (auto simp: dropWhile_append dropWhile_eq_Nil_conv)
  finally show ?thesis by (auto split: if_splits)
qed

lemma py_strip_hd: "py_strip s \<noteq> [] \<Longrightarrow> \<not> py_isspace (hd (py_strip s))"
proof -
  let ?d = "dropWhile py_isspace s"
  assume ne: "py_strip s \<noteq> []"
  then have d: "?d \<noteq> []" unfolding py_strip_def by (metis dropWhile.simps(1) rev.simps(1))
  then have h: "\<not> py_isspace (hd ?d)" by (rule hd_dropWhile)
  have "py_strip s = ?d \<or> hd (py_strip s) = hd ?d"
    using dropWhile_rev_last[of ?d py_isspace] d h by (auto simp: py_strip_def)
  then show ?thesis using h by auto
qed

lemma py_strip_last: "py_strip s \<noteq> [] \<Longrightarrow> \<not> py_isspace (last (py_strip s))"
  by (metis hd_dropWhile hd_rev last_rev py_strip_def rev_is_Nil_conv)

lemma py_strip_idem [simp]: "py_strip (py_strip s) = py_strip s"
proof (cases "py_strip s = []")
  case False
  define u where "u = py_strip s"
  have ne: "u \<noteq> []" and h: "\<not> py_isspace (hd u)" and l: "\<not> py_isspace (last u)"
    using False py_strip_hd[of s] py_strip_last[of s] by (simp_all add: u_def)
  have "dropWhile py_isspace u = u" using ne h by (cases u) auto
  moreover have "dropWhile py_isspace (rev u) = rev u"
    using ne l by (cases u rule: rev_cases) auto
  ultimately have "py_strip u = u" by (simp add: py_strip_def)
  then show ?thesis by (simp add: u_def)
qed simp

lemma btrim_py_strip: "py_strip s \<noteq> [] \<Longrightarrow> btrim (py_strip s) \<noteq> []"
proof
  assume ne: "py_strip s \<noteq> []" and "btrim (py_strip s) = []"
  then have "hd (py_strip s) = CHR '' ''" by (simp add: btrim_Nil_iff)
  then show False using py_strip_hd[OF ne] by (simp add: py_isspace_def py_whitespace_def)
qed

lemma length_py_strip: "length (py_strip s) \<le> length s"
  by (metis (no_types) le_trans length_dropWhile_le length_rev py_strip_def)

lemma set_py_strip: "set (py_strip s) \<subseteq> set s"
  by (auto simp: py_strip_def dest!: set_dropWhileD)

section \<open>Case mapping\<close>

definition py_uppercase :: "char list" where
  "py_uppercase = ''ABCDEFGHIJKLMNOPQRSTUVWXYZ'' @
     [CHR 0xC0, CHR 0xC1, CHR 0xC2, CHR 0xC3, CHR 0xC4, CHR 0xC5, CHR 0xC6, CHR 0xC7,
      CHR 0xC8, CHR 0xC9, CHR 0xCA, CHR 0xCB, CHR 0xCC, CHR 0xCD, CHR 0xCE, CHR 0xCF,
      CHR 0xD0, CHR 0xD1, CHR 0xD2, CHR 0xD3, CHR 0xD4, CHR 0xD5, CHR 0xD6,
      CHR 0xD8, CHR 0xD9, CHR 0xDA, CHR 0xDB, CHR 0xDC, CHR 0xDD, CHR 0xDE]"

text \<open>In this range the lower-case letter is the upper-case one with bit 5 set.\<close>

definition set_bit5 :: "char \<Rightarrow> char" where
  "set_bit5 c = (case c of Char b0 b1 b2 b3 b4 b5 b6 b7 \<Rightarrow> Char b0 b1 b2 b3 b4 True b6 b7)"

definition py_lower_char :: "char \<Rightarrow> char" where
  "py_lower_char c = (if c \<in> set py_uppercase then set_bit5 c else c)"

definition py_lower :: "string \<Rightarrow> string" where
  "py_lower s = map py_lower_char s"

definition py_casefold :: "string \<Rightarrow> string" where
  "py_casefold s = concat (map (\<lambda>c. if c = CHR 0xDF then ''ss'' else [py_lower_char c]) s)"

definition ascii_lower_letters :: string where
  "ascii_lower_letters = ''abcdefghijklmnopqrstuvwxyz''"

definition ascii_digits :: string where
  "ascii_digits = ''0123456789''"

definition ascii_upper_letters :: string where
  "ascii_upper_letters = ''ABCDEFGHIJKLMNOPQRSTUVWXYZ''"

section \<open>Prefixes, substrings and joins\<close>

definition py_startswith :: "string \<Rightarrow> string \<Rightarrow> bool" where
  "py_startswith s p \<longleftrightarrow> take (length p) s = p"

fun py_contains :: "string \<Rightarrow> string \<Rightarrow> bool" where
  "py_contains [] p \<longleftrightarrow> p = []"
| "py_contains (c # s) p \<longleftrightarrow> py_startswith (c # s) p \<or> py_contains s p"

text \<open>\<open>re.sub("[^...]+", "_", s)\<close>: every maximal run of characters outside the class becomes one
  underscore.\<close>

fun sub_runs :: "(char \<Rightarrow> bool) \<Rightarrow> bool \<Rightarrow> string \<Rightarrow> string" where
  "sub_runs keep in_run [] = []"
| "sub_runs keep in_run (c # s) =
    (if keep c then c # sub_runs keep False s
     else if in_run then sub_runs keep True s
     else CHR ''_'' # sub_runs keep True s)"

definition strip_underscores :: "string \<Rightarrow> string" where
  "strip_underscores s =
    rev (dropWhile (\<lambda>c. c = CHR ''_'') (rev (dropWhile (\<lambda>c. c = CHR ''_'') s)))"

lemma set_sub_runs: "c \<in> set (sub_runs keep b s) \<Longrightarrow> keep c \<or> c = CHR ''_''"
  by (induction keep b s rule: sub_runs.induct) (auto split: if_splits)

lemma set_strip_underscores: "set (strip_underscores s) \<subseteq> set s"
  by (auto simp: strip_underscores_def dest!: set_dropWhileD)

lemma strip_nonblank: "py_strip s \<noteq> [] \<Longrightarrow> btrim s \<noteq> []"
proof
  assume "py_strip s \<noteq> []" and "btrim s = []"
  then have "\<forall>c \<in> set s. c = CHR '' ''" by (simp only: btrim_Nil_iff)
  moreover have "py_isspace CHR '' ''" by code_simp
  ultimately have "list_all py_isspace s" unfolding list_all_iff by (metis)
  then show False using \<open>py_strip s \<noteq> []\<close> by (simp add: py_strip_Nil_iff)
qed

text \<open>\<open>str\<close> of an integer.\<close>

fun nat_text :: "nat \<Rightarrow> string" where
  "nat_text n = (if n < 10 then [ascii_digits ! n] else nat_text (n div 10) @ [ascii_digits ! (n mod 10)])"

declare nat_text.simps [simp del]

definition int_text :: "int \<Rightarrow> string" where
  "int_text n = (if n < 0 then ''-'' @ nat_text (nat (- n)) else nat_text (nat n))"

end
