(* ===== verification/Durable_Media.thy ===== *)
theory Durable_Media
  imports Work_Interfaces Py_Text
begin

text \<open>
  Durable audio and image extraction work (\<open>src/core/durable_media_repository.py\<close>, tables
  \<open>message_transcriptions\<close> and \<open>message_image_extractions\<close>, whose rows have the same
  columns).  Each operation is the one SQL statement of the repository on the rows of one table;
  \<open>now\<close> is the database clock (\<open>CURRENT_TIMESTAMP\<close>), \<open>py_now\<close> the clock of the
  calling process, \<open>locked\<close> the keys that \<open>FOR UPDATE SKIP LOCKED\<close> skips.  The table
  constraints of the migrations are the predicate \<open>content_check\<close>; a statement that would
  break one fails and leaves the table as it was.  The constraint that orders
  \<open>updated_at\<close> after \<open>created_at\<close> compares two clocks and is left out.

  The table provides the interface \<open>leased_work\<close> to the media workers.
\<close>

section \<open>Rows\<close>

datatype content_status = Pending | Processing | Completed | Failed

definition parse_content_status :: "string \<Rightarrow> content_status option" where
  "parse_content_status s =
    (if s = ''pending'' then Some Pending
     else if s = ''processing'' then Some Processing
     else if s = ''completed'' then Some Completed
     else if s = ''failed'' then Some Failed
     else None)"

record content_row =
  ct_message_id :: string
  ct_conversation_id :: "string option"
  ct_text :: "string option"
  ct_model :: string
  ct_status :: content_status
  ct_attempt_count :: int
  ct_error_message :: "string option"
  ct_created_at :: time
  ct_updated_at :: time
  ct_completed_at :: "time option"
  ct_next_attempt_at :: "time option"
  ct_enqueued_at :: "time option"
  ct_lease_owner :: "string option"
  ct_lease_expires_at :: "time option"

definition content_check :: "content_row \<Rightarrow> bool" where
  "content_check r \<longleftrightarrow>
    btrim (ct_message_id r) \<noteq> [] \<and> btrim (ct_model r) \<noteq> [] \<and> 0 \<le> ct_attempt_count r \<and>
    (if ct_status r = Completed
     then ct_completed_at r \<noteq> None \<and> (\<exists>t. ct_text r = Some t \<and> btrim t \<noteq> [])
     else ct_completed_at r = None)"

lemma content_check_code [code]:
  "content_check r \<longleftrightarrow>
    btrim (ct_message_id r) \<noteq> [] \<and> btrim (ct_model r) \<noteq> [] \<and> 0 \<le> ct_attempt_count r \<and>
    (if ct_status r = Completed
     then ct_completed_at r \<noteq> None \<and>
       (case ct_text r of None \<Rightarrow> False | Some t \<Rightarrow> btrim t \<noteq> [])
     else ct_completed_at r = None)"
  by (auto simp: content_check_def split: option.splits)

record media_db =
  message_transcriptions :: "content_row list"
  message_image_extractions :: "content_row list"

text \<open>\<open>_validate_content_table\<close> and the choice of the table by its name.\<close>

definition on_content_table ::
  "string \<Rightarrow> (content_row list \<Rightarrow> (py_error + 'a) \<times> content_row list) \<Rightarrow>
   media_db \<Rightarrow> (py_error + 'a) \<times> media_db" where
  "on_content_table table f db =
    (if table = ''message_transcriptions'' then
       (case f (message_transcriptions db) of
          (res, rows) \<Rightarrow> (res, db\<lparr>message_transcriptions := rows\<rparr>))
     else if table = ''message_image_extractions'' then
       (case f (message_image_extractions db) of
          (res, rows) \<Rightarrow> (res, db\<lparr>message_image_extractions := rows\<rparr>))
     else (Inl (ValueError ''Unsupported content table''), db))"

section \<open>Operations\<close>

definition content_violation :: py_error where
  "content_violation = CheckViolation ''content row''"

definition new_content_row ::
  "time \<Rightarrow> time option \<Rightarrow> string \<Rightarrow> string option \<Rightarrow> string \<Rightarrow> content_row" where
  "new_content_row py_now marker mid conv mdl =
    \<lparr>ct_message_id = mid, ct_conversation_id = conv, ct_text = None, ct_model = mdl,
     ct_status = Pending, ct_attempt_count = 0, ct_error_message = None,
     ct_created_at = py_now, ct_updated_at = py_now, ct_completed_at = None,
     ct_next_attempt_at = Some py_now, ct_enqueued_at = marker,
     ct_lease_owner = None, ct_lease_expires_at = None\<rparr>"

definition reopen_content_row ::
  "time \<Rightarrow> time option \<Rightarrow> string option \<Rightarrow> string \<Rightarrow> content_row \<Rightarrow> content_row" where
  "reopen_content_row py_now marker conv mdl r =
    r\<lparr>ct_conversation_id := coalesce_opt conv (ct_conversation_id r), ct_model := mdl,
      ct_status := Pending, ct_error_message := None, ct_next_attempt_at := Some py_now,
      ct_enqueued_at := marker, ct_updated_at := py_now\<rparr>"

definition reserve_content ::
  "time \<Rightarrow> string \<Rightarrow> string option \<Rightarrow> string \<Rightarrow> bool \<Rightarrow> content_row list \<Rightarrow>
   (py_error + bool) \<times> content_row list" where
  "reserve_content py_now mid conv mdl legacy_publication_marker rows =
    (let marker = (if legacy_publication_marker then Some py_now else None);
         new = new_content_row py_now marker mid conv mdl
     in if \<not> content_check new then (Inl content_violation, rows)
        else case lookup_by ct_message_id mid rows of
          None \<Rightarrow> (Inr True, rows @ [new])
        | Some r \<Rightarrow>
            (if ct_status r = Failed
             then (Inr True, update_where (\<lambda>x. ct_message_id x = mid \<and> ct_status x = Failed)
                     (reopen_content_row py_now marker conv mdl) rows)
             else (Inr False, rows)))"

record status_args =
  sa_text :: "string option"
  sa_error_message :: "string option"
  sa_increment_attempt :: bool
  sa_next_attempt_at :: "time option"
  sa_expected_statuses :: "content_status list option"
  sa_expected_updated_at :: "time option"
  sa_expected_lease_owner :: "string option"

fun default_expected :: "content_status \<Rightarrow> content_status list" where
  "default_expected Processing = [Pending]"
| "default_expected Pending = [Processing]"
| "default_expected Completed = [Processing]"
| "default_expected Failed = [Pending, Processing]"

definition status_matches :: "string \<Rightarrow> content_status list \<Rightarrow> status_args \<Rightarrow> content_row \<Rightarrow> bool" where
  "status_matches mid expected args r \<longleftrightarrow>
    ct_message_id r = mid \<and> ct_status r \<in> set expected \<and>
    (case sa_expected_updated_at args of None \<Rightarrow> True | Some u \<Rightarrow> ct_updated_at r = u) \<and>
    (case sa_expected_lease_owner args of None \<Rightarrow> True | Some w \<Rightarrow> ct_lease_owner r = Some w)"

definition apply_status ::
  "time \<Rightarrow> time \<Rightarrow> content_status \<Rightarrow> status_args \<Rightarrow> content_row \<Rightarrow> content_row" where
  "apply_status py_now now st args r =
    r\<lparr>ct_status := st, ct_text := coalesce_opt (sa_text args) (ct_text r),
      ct_error_message := sa_error_message args,
      ct_attempt_count := ct_attempt_count r + (if sa_increment_attempt args then 1 else 0),
      ct_next_attempt_at := (if st = Pending then sa_next_attempt_at args else None),
      ct_enqueued_at := None,
      ct_lease_owner := (if sa_expected_lease_owner args = None then ct_lease_owner r else None),
      ct_lease_expires_at :=
        (if sa_expected_lease_owner args = None then ct_lease_expires_at r else None),
      ct_updated_at := now,
      ct_completed_at := (if st = Completed then Some py_now else None)\<rparr>"

definition set_content_status ::
  "time \<Rightarrow> time \<Rightarrow> string \<Rightarrow> string \<Rightarrow> status_args \<Rightarrow> content_row list \<Rightarrow>
   (py_error + time option) \<times> content_row list" where
  "set_content_status py_now now mid status args rows =
    (case parse_content_status status of
       None \<Rightarrow> (Inl (ValueError ''Unsupported content status''), rows)
     | Some st \<Rightarrow>
        (let expected = coalesce (sa_expected_statuses args) (default_expected st);
             matches = status_matches mid expected args;
             rows' = update_where matches (apply_status py_now now st args) rows
         in if \<not> list_all (\<lambda>r. matches r \<longrightarrow> content_check (apply_status py_now now st args r)) rows
            then (Inl content_violation, rows)
            else (Inr (if list_ex matches rows then Some now else None), rows')))"

definition content_claimable :: "time \<Rightarrow> content_row \<Rightarrow> bool" where
  "content_claimable now r \<longleftrightarrow>
    ct_status r = Pending \<and> elapsed now (ct_next_attempt_at r) \<or>
    ct_status r = Processing \<and> elapsed now (ct_lease_expires_at r)"

definition content_order :: "content_row \<Rightarrow> time \<times> string" where
  "content_order r = (coalesce (ct_next_attempt_at r) (ct_updated_at r), ct_message_id r)"

definition recovered_message :: string where
  "recovered_message = ''recovered after processing lease expired''"

definition claimed_content :: "time \<Rightarrow> string \<Rightarrow> int \<Rightarrow> content_row \<Rightarrow> content_row" where
  "claimed_content now owner lease_seconds r =
    r\<lparr>ct_status := Processing, ct_attempt_count := ct_attempt_count r + 1,
      ct_error_message :=
        (if ct_status r = Processing then Some recovered_message else ct_error_message r),
      ct_next_attempt_at := None, ct_enqueued_at := None, ct_lease_owner := Some owner,
      ct_lease_expires_at := Some (now + seconds lease_seconds), ct_completed_at := None,
      ct_updated_at := now\<rparr>"

definition claim_content ::
  "time \<Rightarrow> string set \<Rightarrow> string \<Rightarrow> int \<Rightarrow> string option \<Rightarrow> content_row list \<Rightarrow>
   (py_error + (content_row \<times> content_status) option) \<times> content_row list" where
  "claim_content now locked owner lease_seconds message_id rows =
    (let normalized_owner = py_strip owner
     in if normalized_owner = [] then (Inl (ValueError ''A media lease owner is required''), rows)
        else if lease_seconds < 1
          then (Inl (ValueError ''Media lease duration must be positive''), rows)
        else case fetchone (select_limit 1 content_order
                 (\<lambda>r. content_claimable now r \<and>
                      (message_id = None \<or> message_id = Some (ct_message_id r)) \<and>
                      ct_message_id r \<notin> locked) rows) of
            None \<Rightarrow> (Inr None, rows)
          | Some c \<Rightarrow>
              (Inr (Some (claimed_content now normalized_owner lease_seconds c, ct_status c)),
               update_where (\<lambda>r. ct_message_id r = ct_message_id c)
                 (claimed_content now normalized_owner lease_seconds) rows))"

definition get_content :: "string \<Rightarrow> content_row list \<Rightarrow> content_row option" where
  "get_content mid rows = lookup_by ct_message_id mid rows"

record content_metrics =
  m_due :: nat
  m_scheduled :: nat
  m_leased :: nat
  m_stale :: nat
  m_completed :: nat
  m_failed :: nat

definition count_where :: "('r \<Rightarrow> bool) \<Rightarrow> 'r list \<Rightarrow> nat" where
  "count_where P rows = length (filter P rows)"

definition content_work_metrics :: "time \<Rightarrow> content_row list \<Rightarrow> content_metrics" where
  "content_work_metrics now rows =
    \<lparr>m_due = count_where (\<lambda>r. ct_status r = Pending \<and> elapsed now (ct_next_attempt_at r)) rows,
     m_scheduled =
       count_where (\<lambda>r. ct_status r = Pending \<and> in_future now (ct_next_attempt_at r)) rows,
     m_leased =
       count_where (\<lambda>r. ct_status r = Processing \<and> in_future now (ct_lease_expires_at r)) rows,
     m_stale =
       count_where (\<lambda>r. ct_status r = Processing \<and> elapsed now (ct_lease_expires_at r)) rows,
     m_completed = count_where (\<lambda>r. ct_status r = Completed) rows,
     m_failed = count_where (\<lambda>r. ct_status r = Failed) rows\<rparr>"

definition get_completed_content :: "string list \<Rightarrow> content_row list \<Rightarrow> (string \<times> string) list" where
  "get_completed_content message_ids rows =
    concat (map (\<lambda>r. case ct_text r of
        None \<Rightarrow> []
      | Some t \<Rightarrow> (if py_strip t = [] then [] else [(ct_message_id r, py_strip t)]))
     (filter (\<lambda>r. ct_status r = Completed \<and> ct_text r \<noteq> None \<and>
        ct_message_id r \<in> set message_ids) rows))"

definition recovery_due :: "time \<Rightarrow> int \<Rightarrow> content_row \<Rightarrow> bool" where
  "recovery_due now lease_seconds r \<longleftrightarrow>
    (ct_status r = Pending \<and> elapsed now (ct_next_attempt_at r) \<and>
      (case ct_enqueued_at r of None \<Rightarrow> True | Some e \<Rightarrow> e < now - seconds lease_seconds)) \<or>
    (ct_status r = Processing \<and> ct_updated_at r < now - seconds lease_seconds)"

definition recovered_content :: "time \<Rightarrow> content_row \<Rightarrow> content_row" where
  "recovered_content now r =
    r\<lparr>ct_status := Pending,
      ct_error_message :=
        (if ct_status r = Processing then Some recovered_message else ct_error_message r),
      ct_next_attempt_at := None, ct_enqueued_at := Some now, ct_updated_at := now,
      ct_completed_at := None\<rparr>"

text \<open>The rows returned carry the new state and the previous status.\<close>

definition claim_due_content ::
  "time \<Rightarrow> string set \<Rightarrow> int \<Rightarrow> int \<Rightarrow> content_row list \<Rightarrow>
   (py_error + (content_row \<times> content_status) list) \<times> content_row list" where
  "claim_due_content now locked lease_seconds batch_size rows =
    (if lease_seconds < 1 \<or> batch_size < 1
     then (Inl (ValueError ''Recovery lease and batch size must be positive''), rows)
     else
       let candidates = select_limit (nat batch_size) content_order
             (\<lambda>r. recovery_due now lease_seconds r \<and> ct_message_id r \<notin> locked) rows;
           chosen = (\<lambda>r. ct_message_id r \<in> ct_message_id ` set candidates)
       in (Inr (map (\<lambda>r. (recovered_content now r, ct_status r)) (filter chosen rows)),
           update_where chosen (recovered_content now) rows))"

definition release_content_publication ::
  "time \<Rightarrow> string \<Rightarrow> string \<Rightarrow> content_row list \<Rightarrow> bool \<times> content_row list" where
  "release_content_publication now mid error_message rows =
    (let matches = (\<lambda>r. ct_message_id r = mid \<and> ct_status r = Pending)
     in (list_ex matches rows,
         update_where matches (\<lambda>r. r\<lparr>ct_enqueued_at := None,
           ct_error_message := Some error_message, ct_updated_at := now\<rparr>) rows))"

definition pending_content :: "string list \<Rightarrow> content_row list \<Rightarrow> string list" where
  "pending_content message_ids rows =
    map ct_message_id (filter (\<lambda>r. ct_status r \<in> {Pending, Processing} \<and>
      ct_message_id r \<in> set message_ids) rows)"

definition get_pending_content_extractions :: "string list \<Rightarrow> string list \<Rightarrow> media_db \<Rightarrow> string set" where
  "get_pending_content_extractions audio_ids image_ids db =
    set (pending_content audio_ids (message_transcriptions db)) \<union>
    set (pending_content image_ids (message_image_extractions db))"

subsection \<open>The operations on the two tables\<close>

definition reserve_transcription ::
  "time \<Rightarrow> string \<Rightarrow> string option \<Rightarrow> string \<Rightarrow> media_db \<Rightarrow> (py_error + bool) \<times> media_db" where
  "reserve_transcription py_now mid conv mdl =
    on_content_table ''message_transcriptions'' (reserve_content py_now mid conv mdl False)"

definition reserve_image_extraction ::
  "time \<Rightarrow> string \<Rightarrow> string option \<Rightarrow> string \<Rightarrow> media_db \<Rightarrow> (py_error + bool) \<times> media_db" where
  "reserve_image_extraction py_now mid conv mdl =
    on_content_table ''message_image_extractions'' (reserve_content py_now mid conv mdl False)"

definition set_transcription_status ::
  "time \<Rightarrow> time \<Rightarrow> string \<Rightarrow> string \<Rightarrow> status_args \<Rightarrow> media_db \<Rightarrow>
   (py_error + time option) \<times> media_db" where
  "set_transcription_status py_now now mid status args =
    on_content_table ''message_transcriptions'' (set_content_status py_now now mid status args)"

definition set_image_extraction_status ::
  "time \<Rightarrow> time \<Rightarrow> string \<Rightarrow> string \<Rightarrow> status_args \<Rightarrow> media_db \<Rightarrow>
   (py_error + time option) \<times> media_db" where
  "set_image_extraction_status py_now now mid status args =
    on_content_table ''message_image_extractions'' (set_content_status py_now now mid status args)"

definition claim_next_transcription ::
  "time \<Rightarrow> string set \<Rightarrow> string \<Rightarrow> int \<Rightarrow> string option \<Rightarrow> media_db \<Rightarrow>
   (py_error + (content_row \<times> content_status) option) \<times> media_db" where
  "claim_next_transcription now locked owner lease_seconds message_id =
    on_content_table ''message_transcriptions''
      (claim_content now locked owner lease_seconds message_id)"

definition claim_next_image_extraction ::
  "time \<Rightarrow> string set \<Rightarrow> string \<Rightarrow> int \<Rightarrow> string option \<Rightarrow> media_db \<Rightarrow>
   (py_error + (content_row \<times> content_status) option) \<times> media_db" where
  "claim_next_image_extraction now locked owner lease_seconds message_id =
    on_content_table ''message_image_extractions''
      (claim_content now locked owner lease_seconds message_id)"

definition recover_stale_transcriptions ::
  "time \<Rightarrow> string set \<Rightarrow> int \<Rightarrow> int \<Rightarrow> media_db \<Rightarrow>
   (py_error + (content_row \<times> content_status) list) \<times> media_db" where
  "recover_stale_transcriptions now locked lease_seconds batch_size =
    on_content_table ''message_transcriptions''
      (claim_due_content now locked lease_seconds batch_size)"

definition recover_stale_image_extractions ::
  "time \<Rightarrow> string set \<Rightarrow> int \<Rightarrow> int \<Rightarrow> media_db \<Rightarrow>
   (py_error + (content_row \<times> content_status) list) \<times> media_db" where
  "recover_stale_image_extractions now locked lease_seconds batch_size =
    on_content_table ''message_image_extractions''
      (claim_due_content now locked lease_seconds batch_size)"

definition release_transcription_publication ::
  "time \<Rightarrow> string \<Rightarrow> string \<Rightarrow> media_db \<Rightarrow> (py_error + bool) \<times> media_db" where
  "release_transcription_publication now mid error_message =
    on_content_table ''message_transcriptions'' (\<lambda>rows.
      case release_content_publication now mid error_message rows of (b, rows') \<Rightarrow> (Inr b, rows'))"

definition release_image_publication ::
  "time \<Rightarrow> string \<Rightarrow> string \<Rightarrow> media_db \<Rightarrow> (py_error + bool) \<times> media_db" where
  "release_image_publication now mid error_message =
    on_content_table ''message_image_extractions'' (\<lambda>rows.
      case release_content_publication now mid error_message rows of (b, rows') \<Rightarrow> (Inr b, rows'))"

definition get_transcription :: "string \<Rightarrow> media_db \<Rightarrow> content_row option" where
  "get_transcription mid db = get_content mid (message_transcriptions db)"

definition get_image_extraction :: "string \<Rightarrow> media_db \<Rightarrow> content_row option" where
  "get_image_extraction mid db = get_content mid (message_image_extractions db)"

definition get_completed_transcriptions :: "string list \<Rightarrow> media_db \<Rightarrow> (string \<times> string) list" where
  "get_completed_transcriptions message_ids db =
    get_completed_content message_ids (message_transcriptions db)"

definition get_completed_image_extractions :: "string list \<Rightarrow> media_db \<Rightarrow> (string \<times> string) list" where
  "get_completed_image_extractions message_ids db =
    get_completed_content message_ids (message_image_extractions db)"

definition get_transcription_work_metrics :: "time \<Rightarrow> media_db \<Rightarrow> content_metrics" where
  "get_transcription_work_metrics now db = content_work_metrics now (message_transcriptions db)"

definition get_image_extraction_work_metrics :: "time \<Rightarrow> media_db \<Rightarrow> content_metrics" where
  "get_image_extraction_work_metrics now db =
    content_work_metrics now (message_image_extractions db)"

section \<open>Runs of operations on one table\<close>

datatype media_op =
    Reserve time string "string option" string bool
  | Set_Status time string string status_args
  | Claim "string set" string int "string option"
  | Recover "string set" int int
  | Release string string

fun media_step :: "time \<Rightarrow> media_op \<Rightarrow> content_row list \<Rightarrow> content_row list" where
  "media_step now (Reserve py_now mid conv mdl legacy) rows =
    snd (reserve_content py_now mid conv mdl legacy rows)"
| "media_step now (Set_Status py_now mid status args) rows =
    snd (set_content_status py_now now mid status args rows)"
| "media_step now (Claim locked owner lease mid) rows =
    snd (claim_content now locked owner lease mid rows)"
| "media_step now (Recover locked lease batch) rows =
    snd (claim_due_content now locked lease batch rows)"
| "media_step now (Release mid err) rows = snd (release_content_publication now mid err rows)"

inductive media_reachable :: "content_row list \<Rightarrow> bool" where
  media_empty: "media_reachable []"
| media_next: "media_reachable rows \<Longrightarrow> media_reachable (media_step now x rows)"

fun media_run :: "(time \<times> media_op) list \<Rightarrow> content_row list \<Rightarrow> content_row list" where
  "media_run [] rows = rows"
| "media_run ((now, x) # ops) rows = media_run ops (media_step now x rows)"

text \<open>A status change that is explicitly allowed to start from \<open>completed\<close>; no caller makes one.\<close>

fun reopens_completed :: "media_op \<Rightarrow> bool" where
  "reopens_completed (Set_Status py_now mid status args) =
    (case sa_expected_statuses args of None \<Rightarrow> False | Some ss \<Rightarrow> Completed \<in> set ss)"
| "reopens_completed _ = False"

section \<open>Lemmas\<close>

definition content_inv :: "content_row list \<Rightarrow> bool" where
  "content_inv rows \<longleftrightarrow> distinct (map ct_message_id rows) \<and>
    (\<forall>r \<in> set rows. content_check r \<and> (ct_next_attempt_at r \<noteq> None \<longrightarrow> ct_status r = Pending))"

lemma content_updates_key [simp]:
  "ct_message_id (reopen_content_row py_now mk conv mdl r) = ct_message_id r"
  "ct_message_id (apply_status py_now now st args r) = ct_message_id r"
  "ct_message_id (claimed_content now w lease r) = ct_message_id r"
  "ct_message_id (recovered_content now r) = ct_message_id r"
  "ct_message_id (new_content_row py_now mk mid conv mdl) = mid"
  by (simp_all add: reopen_content_row_def apply_status_def claimed_content_def
      recovered_content_def new_content_row_def)

text \<open>Every operation leaves the rows either unchanged, extended by a fresh one, or updated
  in place without changing their keys.\<close>

lemma content_inv_update:
  assumes "content_inv rows" and "\<And>r. ct_message_id (f r) = ct_message_id r"
    and "\<And>r. r \<in> set rows \<Longrightarrow> P r \<Longrightarrow> content_check r \<Longrightarrow>
      content_check (f r) \<and> (ct_next_attempt_at (f r) \<noteq> None \<longrightarrow> ct_status (f r) = Pending)"
  shows "content_inv (update_where P f rows)"
  using assms by (auto simp: content_inv_def map_update_where elim!: update_whereE)

lemma content_check_claimed:
  "content_check r \<Longrightarrow> content_check (claimed_content now w lease r) \<and>
    (ct_next_attempt_at (claimed_content now w lease r) \<noteq> None \<longrightarrow>
      ct_status (claimed_content now w lease r) = Pending)"
  by (auto simp: content_check_def claimed_content_def)

lemma content_check_recovered:
  "content_check r \<Longrightarrow> content_check (recovered_content now r) \<and>
    (ct_next_attempt_at (recovered_content now r) \<noteq> None \<longrightarrow>
      ct_status (recovered_content now r) = Pending)"
  by (auto simp: content_check_def recovered_content_def)

lemma reserve_inv: "content_inv rows \<Longrightarrow> content_inv (snd (reserve_content py_now mid conv mdl legacy rows))"
proof -
  assume inv: "content_inv rows"
  let ?mk = "if legacy then Some py_now else None"
  let ?new = "new_content_row py_now ?mk mid conv mdl"
  show ?thesis
  proof (cases "content_check ?new")
    case False
    then show ?thesis using inv by (simp add: reserve_content_def)
  next
    case ok: True
    show ?thesis
    proof (cases "lookup_by ct_message_id mid rows")
      case None
      then have "mid \<notin> ct_message_id ` set rows" by (simp add: lookup_by_None)
      moreover have "ct_status ?new = Pending" by (simp add: new_content_row_def)
      ultimately show ?thesis
        using None ok inv by (auto simp: reserve_content_def content_inv_def)
    next
      case (Some r)
      have "content_inv (update_where (\<lambda>x. ct_message_id x = mid \<and> ct_status x = Failed)
              (reopen_content_row py_now ?mk conv mdl) rows)"
        using inv ok
        by (intro content_inv_update)
          (auto simp: content_check_def reopen_content_row_def new_content_row_def)
      then show ?thesis using Some ok inv by (simp add: reserve_content_def)
    qed
  qed
qed

lemma set_status_inv:
  "content_inv rows \<Longrightarrow> content_inv (snd (set_content_status py_now now mid status args rows))"
proof -
  assume inv: "content_inv rows"
  show ?thesis
  proof (cases "parse_content_status status")
    case None
    then show ?thesis using inv by (simp add: set_content_status_def)
  next
    case (Some st)
    let ?m = "status_matches mid (coalesce (sa_expected_statuses args) (default_expected st)) args"
    show ?thesis
    proof (cases "list_all (\<lambda>r. ?m r \<longrightarrow> content_check (apply_status py_now now st args r)) rows")
      case False
      then show ?thesis using Some inv by (simp add: set_content_status_def Let_def)
    next
      case True
      have "content_inv (update_where ?m (apply_status py_now now st args) rows)"
        using inv True
        by (intro content_inv_update) (auto simp: list_all_iff apply_status_def)
      then show ?thesis using Some True by (simp add: set_content_status_def Let_def)
    qed
  qed
qed

lemma claim_inv: "content_inv rows \<Longrightarrow> content_inv (snd (claim_content now locked w lease mid rows))"
  by (auto simp: claim_content_def Let_def content_check_claimed split: option.split
      intro!: content_inv_update)

lemma recover_inv: "content_inv rows \<Longrightarrow> content_inv (snd (claim_due_content now locked lease batch rows))"
  by (auto simp: claim_due_content_def Let_def content_check_recovered intro!: content_inv_update)

lemma release_inv: "content_inv rows \<Longrightarrow> content_inv (snd (release_content_publication now mid err rows))"
  by (auto simp: release_content_publication_def Let_def content_check_def intro!: content_inv_update)

lemma media_step_inv: "content_inv rows \<Longrightarrow> content_inv (media_step now x rows)"
  by (cases x) (simp_all add: reserve_inv set_status_inv claim_inv recover_inv release_inv)

section \<open>The media tables as leased work\<close>

definition media_claim ::
  "time \<Rightarrow> string set \<Rightarrow> string \<Rightarrow> int \<Rightarrow> content_row list \<Rightarrow> content_row option \<times> content_row list" where
  "media_claim now locked owner lease rows =
    (case claim_content now locked owner lease None rows of
       (Inr (Some (r, _)), rows') \<Rightarrow> (Some r, rows')
     | (_, rows') \<Rightarrow> (None, rows'))"

lemma claim_content_Some:
  assumes "claim_content now locked owner lease mid rows = (Inr (Some (r, prev)), rows')"
  shows "\<exists>c \<in> set rows. content_claimable now c \<and> (mid = None \<or> mid = Some (ct_message_id c)) \<and>
    ct_message_id c \<notin> locked \<and> prev = ct_status c \<and>
    r = claimed_content now (py_strip owner) lease c \<and>
    rows' = update_where (\<lambda>x. ct_message_id x = ct_message_id c)
      (claimed_content now (py_strip owner) lease) rows \<and>
    (\<forall>x \<in> set rows. content_claimable now x \<and> (mid = None \<or> mid = Some (ct_message_id x)) \<and>
      ct_message_id x \<notin> locked \<longrightarrow> content_order c \<le> content_order x)"
proof -
  let ?P = "\<lambda>r. content_claimable now r \<and> (mid = None \<or> mid = Some (ct_message_id r)) \<and>
    ct_message_id r \<notin> locked"
  obtain c where c: "fetchone (select_limit 1 content_order ?P rows) = Some c"
    and res: "r = claimed_content now (py_strip owner) lease c" "prev = ct_status c"
      "rows' = update_where (\<lambda>x. ct_message_id x = ct_message_id c)
        (claimed_content now (py_strip owner) lease) rows"
    using assms by (auto simp: claim_content_def Let_def split: if_splits option.splits)
  note min = select_limit_1_min[OF c]
  show ?thesis
    using res min(1,2) min(3) by (intro bexI[of _ c]) auto
qed

lemma claim_content_None:
  assumes "claim_content now locked owner lease mid rows = (Inr None, rows')"
  shows "rows' = rows \<and> (\<forall>x \<in> set rows. ct_message_id x \<notin> locked \<longrightarrow>
    mid = None \<or> mid = Some (ct_message_id x) \<longrightarrow> \<not> content_claimable now x)"
  using assms by (auto simp: claim_content_def Let_def split: if_splits option.splits)

lemma media_claim_Some:
  "media_claim now locked owner lease rows = (Some r, rows') \<longleftrightarrow>
    (\<exists>prev. claim_content now locked owner lease None rows = (Inr (Some (r, prev)), rows'))"
  by (auto simp: media_claim_def split: prod.splits sum.splits option.splits)

lemma media_claim_None:
  "media_claim now locked owner lease rows = (None, rows') \<Longrightarrow> rows' = rows"
  by (auto simp: media_claim_def claim_content_def Let_def
      split: prod.splits sum.splits option.splits if_splits)

lemma media_claim_idle:
  assumes "media_claim now locked owner lease rows = (None, rows')"
    and "py_strip owner \<noteq> [] \<and> 1 \<le> lease" and "x \<in> set rows" and "ct_message_id x \<notin> locked"
  shows "\<not> content_claimable now x"
proof -
  have "claim_content now locked owner lease None rows = (Inr None, rows')"
    using assms(1,2)
    by (auto simp: media_claim_def claim_content_def Let_def split: option.splits)
  then show ?thesis using claim_content_None assms(3,4) by blast
qed

interpretation media_work: leased_work "\<lambda>rows. rows" ct_message_id content_claimable media_claim
  "\<lambda>owner lease. py_strip owner \<noteq> [] \<and> 1 \<le> lease"
proof unfold_locales
  fix rows rows' :: "content_row list" and now locked owner lease r
  assume d: "distinct (map ct_message_id rows)"
    and c: "media_claim now locked owner lease rows = (Some r, rows')"
  obtain c0 where c0: "c0 \<in> set rows" "content_claimable now c0" "ct_message_id c0 \<notin> locked"
    "r = claimed_content now (py_strip owner) lease c0"
    "rows' = update_where (\<lambda>x. ct_message_id x = ct_message_id c0)
      (claimed_content now (py_strip owner) lease) rows"
    using c media_claim_Some claim_content_Some by meson
  have "update_where (\<lambda>x. ct_message_id x = ct_message_id c0)
      (claimed_content now (py_strip owner) lease) rows =
    update_where (\<lambda>x. ct_message_id x = ct_message_id r) (\<lambda>_. r) rows"
    unfolding update_where_def using c0(1,4) distinct_key_eq[OF d] by (auto intro!: map_cong)
  then show "\<exists>r0 \<in> set rows. ct_message_id r0 = ct_message_id r \<and> content_claimable now r0 \<and>
      ct_message_id r0 \<notin> locked \<and>
      rows' = update_where (\<lambda>x. ct_message_id x = ct_message_id r) (\<lambda>_. r) rows"
    using c0 by (intro bexI[of _ c0]) auto
  show "\<not> content_claimable t r" if "t < now + seconds lease" for t
    using c0(4) that by (simp add: content_claimable_def claimed_content_def)
next
  fix rows rows' now locked owner lease
  assume "media_claim now locked owner lease rows = (None, rows')"
  then show "rows' = rows" by (rule media_claim_None)
qed (rule media_claim_idle)

section \<open>Properties\<close>

text \<open>C10: However many workers claim from a media table during one lease period, and whichever rows
  other transactions hold locked, no message is handed out twice.\<close>

theorem media_claims_exclusive:
  assumes "distinct (map ct_message_id rows)" and "claims_within t0 t1 reqs"
  shows "distinct (map ct_message_id (fst (run_claims media_claim reqs rows)))"
  using assms by (rule media_work.claims_exclusive)

definition sample_media :: "content_row list" where
  "sample_media = [new_content_row 5 None ''m1'' None ''whisper'', new_content_row 3 None ''m2'' None ''whisper'']"

lemma sample_media_claims:
  "map ct_message_id (fst (run_claims media_claim
    [(10, {}, ''w1'', 60), (11, {}, ''w2'', 60), (12, {}, ''w3'', 60)] sample_media)) = [''m2'', ''m1'']"
  by code_simp

theorem media_claims_exclusive_witness:
  "distinct (map ct_message_id (fst (run_claims media_claim
    [(10, {}, ''w1'', 60), (11, {}, ''w2'', 60), (12, {}, ''w3'', 60)] sample_media)))"
  by (rule media_claims_exclusive[where ?t0.0 = 0 and ?t1.0 = 20])
    (simp_all add: sample_media_def new_content_row_def seconds_def)

text \<open>A claim with a usable owner and lease either finds no due row outside the locked ones and
  changes nothing, or leases the first due row in the polling order: the row is in processing
  under the stripped owner until the lease expires, counts one more attempt, and is the only row
  that changes.\<close>

theorem claim_content_takes_first_due:
  assumes "py_strip owner \<noteq> []" and "1 \<le> lease"
    and "claim_content now locked owner lease mid rows = (res, rows')"
  shows "(res = Inr None \<and> rows' = rows \<and>
      (\<forall>x \<in> set rows. ct_message_id x \<notin> locked \<longrightarrow> mid = None \<or> mid = Some (ct_message_id x) \<longrightarrow>
        \<not> content_claimable now x)) \<or>
    (\<exists>c \<in> set rows. content_claimable now c \<and> ct_message_id c \<notin> locked \<and>
      res = Inr (Some (claimed_content now (py_strip owner) lease c, ct_status c)) \<and>
      ct_attempt_count (claimed_content now (py_strip owner) lease c) = ct_attempt_count c + 1 \<and>
      rows' = update_where (\<lambda>x. ct_message_id x = ct_message_id c)
        (claimed_content now (py_strip owner) lease) rows \<and>
      (\<forall>x \<in> set rows. content_claimable now x \<and> ct_message_id x \<notin> locked \<and>
        (mid = None \<or> mid = Some (ct_message_id x)) \<longrightarrow> content_order c \<le> content_order x))"
proof (cases res)
  case (Inl e)
  then show ?thesis using assms by (auto simp: claim_content_def Let_def split: option.splits)
next
  case (Inr o')
  show ?thesis
  proof (cases o')
    case None
    then show ?thesis using claim_content_None assms(3) Inr by blast
  next
    case (Some p)
    obtain r prev where "p = (r, prev)" by (cases p)
    then have "claim_content now locked owner lease mid rows = (Inr (Some (r, prev)), rows')"
      using assms(3) Inr Some by simp
    from claim_content_Some[OF this] obtain c where c: "c \<in> set rows" "content_claimable now c"
      "ct_message_id c \<notin> locked" "prev = ct_status c"
      "r = claimed_content now (py_strip owner) lease c"
      "rows' = update_where (\<lambda>x. ct_message_id x = ct_message_id c)
        (claimed_content now (py_strip owner) lease) rows"
      and least: "\<forall>x \<in> set rows. content_claimable now x \<and>
        (mid = None \<or> mid = Some (ct_message_id x)) \<and> ct_message_id x \<notin> locked \<longrightarrow>
        content_order c \<le> content_order x"
      by blast
    have "ct_attempt_count (claimed_content now (py_strip owner) lease c) = ct_attempt_count c + 1"
      by (simp add: claimed_content_def)
    moreover have "res = Inr (Some (claimed_content now (py_strip owner) lease c, ct_status c))"
      using Inr Some \<open>p = (r, prev)\<close> c(4,5) by simp
    ultimately show ?thesis using c least by blast
  qed
qed

theorem claim_content_takes_first_due_witness:
  "\<exists>c \<in> set sample_media. ct_message_id c = ''m2'' \<and>
    fst (claim_content 10 {} '' w1 '' 60 None sample_media) =
      Inr (Some (claimed_content 10 ''w1'' 60 c, Pending))"
proof -
  have "py_strip '' w1 '' = ''w1''" by code_simp
  moreover have "\<forall>x \<in> set sample_media. content_claimable 10 x"
    by (simp add: sample_media_def content_claimable_def new_content_row_def)
  moreover have "content_order (new_content_row 3 None ''m2'' None ''whisper'')
      < content_order (new_content_row 5 None ''m1'' None ''whisper'')"
    by (simp add: content_order_def new_content_row_def)
  ultimately show ?thesis
    using claim_content_takes_first_due[of "'' w1 ''" 60 10 "{}" None sample_media
        "fst (claim_content 10 {} '' w1 '' 60 None sample_media)"
        "snd (claim_content 10 {} '' w1 '' 60 None sample_media)"]
    by (auto simp: sample_media_def new_content_row_def)
qed

text \<open>Once a row is leased to an owner, a report that names any other lease owner (a worker whose
  lease was taken over) finds no row and changes nothing.\<close>

theorem stale_media_owner_cannot_report:
  assumes "distinct (map ct_message_id rows)"
    and "claim_content now locked owner lease mid rows = (Inr (Some (r, prev)), rows')"
    and "parse_content_status status = Some st"
    and "sa_expected_lease_owner args = Some stale" and "stale \<noteq> py_strip owner"
  shows "set_content_status py_now now' (ct_message_id r) status args rows' = (Inr None, rows')"
proof -
  let ?m = "status_matches (ct_message_id r)
    (coalesce (sa_expected_statuses args) (default_expected st)) args"
  obtain c where c: "c \<in> set rows" "r = claimed_content now (py_strip owner) lease c"
    "rows' = update_where (\<lambda>x. ct_message_id x = ct_message_id c)
      (claimed_content now (py_strip owner) lease) rows"
    using claim_content_Some[OF assms(2)] by blast
  have "\<not> ?m x" if "x \<in> set rows'" for x
    using that c assms(4,5)
    by (auto simp: status_matches_def claimed_content_def elim!: update_whereE split: if_splits)
  then show ?thesis
    using assms(3) by (auto simp: set_content_status_def Let_def list_all_iff list_ex_iff
        update_where_none)
qed

definition stale_report :: status_args where
  "stale_report = \<lparr>sa_text = Some ''late'', sa_error_message = None, sa_increment_attempt = False,
     sa_next_attempt_at = None, sa_expected_statuses = None, sa_expected_updated_at = None,
     sa_expected_lease_owner = Some ''w0''\<rparr>"

theorem stale_media_owner_cannot_report_witness:
  "set_content_status 12 12 ''m2'' ''completed'' stale_report
      (snd (claim_content 10 {} ''w1'' 60 None sample_media)) =
    (Inr None, snd (claim_content 10 {} ''w1'' 60 None sample_media))"
proof -
  let ?c = "new_content_row 3 None ''m2'' None ''whisper''"
  let ?r = "claimed_content 10 ''w1'' 60 ?c"
  have strip: "py_strip ''w1'' = ''w1''" by code_simp
  have "fst (claim_content 10 {} ''w1'' 60 None sample_media) = Inr (Some (?r, Pending))"
    by code_simp
  then have c: "claim_content 10 {} ''w1'' 60 None sample_media =
      (Inr (Some (?r, Pending)), snd (claim_content 10 {} ''w1'' 60 None sample_media))"
    by (simp add: prod_eq_iff)
  have "distinct (map ct_message_id sample_media)" by (simp add: sample_media_def)
  from stale_media_owner_cannot_report[OF this c, of "''completed''" Completed stale_report "''w0''" 12 12]
  show ?thesis using strip by (simp add: stale_report_def parse_content_status_def)
qed

lemma content_inv_reachable: "media_reachable rows \<Longrightarrow> content_inv rows"
proof (induction rule: media_reachable.induct)
  case media_empty
  show ?case by (simp add: content_inv_def)
next
  case (media_next rows now x)
  then show ?case by (simp add: media_step_inv)
qed

text \<open>In every reachable media table the message ids are unique, every row satisfies the table
  constraints (a completed row has a completion time and non-blank text), and only pending rows
  carry a next-attempt time.\<close>

theorem media_reachable_inv:
  assumes "media_reachable rows"
  shows "distinct (map ct_message_id rows) \<and>
    (\<forall>r \<in> set rows. content_check r \<and> (ct_next_attempt_at r \<noteq> None \<longrightarrow> ct_status r = Pending))"
  using content_inv_reachable[OF assms] by (simp add: content_inv_def)

theorem media_reachable_inv_witness:
  "distinct (map ct_message_id (media_step 10 (Claim {} ''w'' 60 None)
      (media_step 5 (Reserve 5 ''m1'' None ''whisper'' False) [])))"
  using media_reachable_inv[OF media_next[OF media_next[OF media_empty,
        of 5 "Reserve 5 ''m1'' None ''whisper'' False"], of 10 "Claim {} ''w'' 60 None"]]
  by blast

lemma completed_not_matched:
  "ct_status r = Completed \<Longrightarrow> \<not> reopens_completed (Set_Status py_now mid status args) \<Longrightarrow>
    \<not> status_matches mid (coalesce (sa_expected_statuses args) (default_expected st)) args r"
  by (cases st) (auto simp: status_matches_def coalesce_def split: option.splits)

lemma completed_claim:
  assumes "distinct (map ct_message_id rows)" and "r \<in> set rows" and "ct_status r = Completed"
  shows "r \<in> set (snd (claim_content now locked owner lease mid rows))"
proof -
  obtain res rows' where cl: "claim_content now locked owner lease mid rows = (res, rows')"
    by fastforce
  consider "rows' = rows" | p where "res = Inr (Some p)"
    using cl by (auto simp: claim_content_def Let_def split: if_splits option.splits)
  then show ?thesis
  proof cases
    case 1
    then show ?thesis using cl assms(2) by simp
  next
    case (2 p)
    then obtain c where "c \<in> set rows" "content_claimable now c"
      and rows': "rows' = update_where (\<lambda>x. ct_message_id x = ct_message_id c)
        (claimed_content now (py_strip owner) lease) rows"
      using claim_content_Some[of now locked owner lease mid rows "fst p" "snd p" rows'] cl by auto
    then have "ct_message_id r \<noteq> ct_message_id c"
      using distinct_key_eq[OF assms(1,2)] assms(3) by (force simp: content_claimable_def)
    then show ?thesis using cl rows' assms(2) by (simp add: update_where_same)
  qed
qed

lemma completed_recover:
  assumes "distinct (map ct_message_id rows)" and "r \<in> set rows" and "ct_status r = Completed"
  shows "r \<in> set (snd (claim_due_content now locked lease batch rows))"
proof -
  define cand where "cand = select_limit (nat batch) content_order
      (\<lambda>r. recovery_due now lease r \<and> ct_message_id r \<notin> locked) rows"
  have out: "ct_message_id r \<noteq> ct_message_id c" if "c \<in> set cand" for c
  proof
    assume eq: "ct_message_id r = ct_message_id c"
    from select_limit_sub[OF that[unfolded cand_def]]
    have "c \<in> set rows" "recovery_due now lease c" by simp_all
    then show False
      using distinct_key_eq[OF assms(1,2) _ eq] assms(3) by (simp add: recovery_due_def)
  qed
  have "ct_message_id r \<notin> ct_message_id ` set cand"
  proof
    assume "ct_message_id r \<in> ct_message_id ` set cand"
    then obtain c where "ct_message_id r = ct_message_id c" "c \<in> set cand" by (rule imageE)
    then show False using out by simp
  qed
  then have "r \<in> set (update_where (\<lambda>r. ct_message_id r \<in> ct_message_id ` set cand)
      (recovered_content now) rows)"
    by (rule update_where_same[OF assms(2)])
  then show ?thesis using assms(2) unfolding claim_due_content_def Let_def cand_def by simp
qed

lemma completed_step:
  assumes "distinct (map ct_message_id rows)" and "r \<in> set rows" and "ct_status r = Completed"
    and "\<not> reopens_completed x"
  shows "r \<in> set (media_step now x rows)"
proof (cases x)
  case (Reserve py_now mid conv mdl legacy)
  then show ?thesis
    using assms(2,3) by (auto simp: reserve_content_def Let_def update_where_same split: option.split)
next
  case (Set_Status py_now mid status args)
  then show ?thesis
    using assms(2,3,4) completed_not_matched[of r py_now mid status args]
    by (cases "parse_content_status status")
      (simp_all add: set_content_status_def Let_def update_where_same)
next
  case (Release mid err)
  then show ?thesis
    using assms(2,3) by (auto simp: release_content_publication_def Let_def update_where_same)
qed (simp_all add: completed_claim completed_recover assms)

text \<open>C36: A completed extraction is final: its row, with its text, survives every later run of
  reservations, status reports, claims, recoveries and releases, unless a report explicitly
  expects the status completed.\<close>

theorem completed_content_is_final:
  assumes "content_inv rows" and "r \<in> set rows" and "ct_status r = Completed"
    and "\<forall>(now, x) \<in> set ops. \<not> reopens_completed x"
  shows "r \<in> set (media_run ops rows)"
  using assms
proof (induction ops arbitrary: rows)
  case (Cons a ops)
  obtain now x where a: "a = (now, x)" by (cases a)
  have "r \<in> set (media_step now x rows)"
    using completed_step[of rows r x now] Cons.prems a by (auto simp: content_inv_def)
  then show ?case
    using Cons.IH[OF media_step_inv[OF Cons.prems(1)]] Cons.prems(3,4) a by simp
qed simp

definition sample_completed :: content_row where
  "sample_completed = (new_content_row 1 None ''m0'' None ''whisper'')
     \<lparr>ct_status := Completed, ct_text := Some ''ola'', ct_completed_at := Some 4,
      ct_next_attempt_at := None\<rparr>"

theorem completed_content_is_final_witness:
  "sample_completed \<in> set (media_run
    [(10, Reserve 10 ''m0'' None ''whisper'' False), (11, Claim {} ''w'' 60 None),
     (12, Recover {} 1 5)] [sample_completed])"
proof -
  have "content_check sample_completed" by code_simp
  then have "content_inv [sample_completed]"
    by (simp add: content_inv_def sample_completed_def)
  then show ?thesis
    by (rule completed_content_is_final) (simp_all add: sample_completed_def)
qed

text \<open>A row whose worker died is not lost: once its lease has expired, a claim for it (when no
  transaction holds it locked) leases it to the new owner, counts the attempt and records the
  recovery.\<close>

theorem expired_processing_row_is_reclaimed:
  assumes "distinct (map ct_message_id rows)" and "r \<in> set rows" and "ct_status r = Processing"
    and "elapsed now (ct_lease_expires_at r)" and "ct_message_id r \<notin> locked"
    and "py_strip owner \<noteq> []" and "1 \<le> lease"
  shows "\<exists>r'. fst (claim_content now locked owner lease (Some (ct_message_id r)) rows) =
      Inr (Some (r', Processing)) \<and>
    ct_message_id r' = ct_message_id r \<and> ct_lease_owner r' = Some (py_strip owner) \<and>
    ct_attempt_count r' = ct_attempt_count r + 1 \<and> ct_error_message r' = Some recovered_message"
proof -
  let ?res = "fst (claim_content now locked owner lease (Some (ct_message_id r)) rows)"
  let ?rows' = "snd (claim_content now locked owner lease (Some (ct_message_id r)) rows)"
  have cl: "content_claimable now r" using assms(3,4) by (simp add: content_claimable_def)
  have eq: "claim_content now locked owner lease (Some (ct_message_id r)) rows = (?res, ?rows')" by simp
  have "\<exists>p. ?res = Inr (Some p)"
  proof (rule ccontr)
    assume "\<nexists>p. ?res = Inr (Some p)"
    then have "?res = Inr None"
      using assms(6,7) by (auto simp: claim_content_def Let_def split: option.splits)
    then show False
      using claim_content_None[of now locked owner lease "Some (ct_message_id r)" rows ?rows'] eq
        cl assms(2,5) by (metis prod.collapse)
  qed
  then obtain r' prev where res: "?res = Inr (Some (r', prev))" by auto
  with eq have "claim_content now locked owner lease (Some (ct_message_id r)) rows =
      (Inr (Some (r', prev)), ?rows')" by simp
  from claim_content_Some[OF this] obtain c where "c \<in> set rows" "ct_message_id c = ct_message_id r"
    and c: "r' = claimed_content now (py_strip owner) lease c" "prev = ct_status c" by auto
  then have "c = r" using distinct_key_eq[OF assms(1)] assms(2) by blast
  then show ?thesis using c res assms(3) by (simp add: claimed_content_def)
qed

definition sample_crashed :: content_row where
  "sample_crashed = claimed_content 5 ''dead'' 60 (new_content_row 3 None ''m2'' None ''whisper'')"

theorem expired_processing_row_is_reclaimed_witness:
  "\<exists>r'. fst (claim_content 70000000 {} ''w1'' 60 (Some ''m2'') [sample_crashed]) =
      Inr (Some (r', Processing)) \<and> ct_attempt_count r' = 2"
proof -
  have "py_strip ''w1'' \<noteq> []" by code_simp
  moreover have "ct_message_id sample_crashed = ''m2''" "ct_attempt_count sample_crashed = 1"
    "ct_status sample_crashed = Processing" "ct_lease_expires_at sample_crashed = Some 60000005"
    by (simp_all add: sample_crashed_def claimed_content_def new_content_row_def seconds_def)
  ultimately show ?thesis
    using expired_processing_row_is_reclaimed[of "[sample_crashed]" sample_crashed 70000000 "{}" "''w1''" 60]
    by auto
qed

text \<open>The work metrics partition the table: due and scheduled rows are the pending ones, leased
  and stale rows the ones in processing, and the six counters add up to the number of rows.\<close>

theorem media_metrics_partition:
  "m_due (content_work_metrics now rows) + m_scheduled (content_work_metrics now rows) =
     count_where (\<lambda>r. ct_status r = Pending) rows \<and>
   m_leased (content_work_metrics now rows) + m_stale (content_work_metrics now rows) =
     count_where (\<lambda>r. ct_status r = Processing) rows \<and>
   m_due (content_work_metrics now rows) + m_scheduled (content_work_metrics now rows) +
   m_leased (content_work_metrics now rows) + m_stale (content_work_metrics now rows) +
   m_completed (content_work_metrics now rows) + m_failed (content_work_metrics now rows) = length rows"
proof (induction rows)
  case Nil
  then show ?case by (simp add: content_work_metrics_def count_where_def)
next
  case (Cons r rows)
  then show ?case
    by (cases "ct_status r")
      (simp_all add: content_work_metrics_def count_where_def in_future_not_elapsed)
qed

text \<open>A duplicate reservation never disturbs existing work: for a message whose row is pending,
  in processing or completed it reports that nothing was reserved and changes nothing, so a
  future retry schedule is kept; only a failed row is reopened.\<close>

theorem reserve_keeps_existing_work:
  assumes "distinct (map ct_message_id rows)" and "r \<in> set rows"
    and "content_check (new_content_row py_now None (ct_message_id r) conv mdl)"
  shows "if ct_status r = Failed
    then fst (reserve_content py_now (ct_message_id r) conv mdl False rows) = Inr True \<and>
      lookup_by ct_message_id (ct_message_id r)
        (snd (reserve_content py_now (ct_message_id r) conv mdl False rows)) =
        Some (reopen_content_row py_now None conv mdl r)
    else reserve_content py_now (ct_message_id r) conv mdl False rows = (Inr False, rows)"
proof -
  have "lookup_by ct_message_id (ct_message_id r) rows = Some r"
    using assms(1,2) by (simp add: lookup_by_unique)
  then show ?thesis
    using assms(3) by (simp add: reserve_content_def lookup_by_update_where)
qed

theorem reserve_keeps_existing_work_witness:
  "reserve_content 99 ''m1'' None ''whisper'' False sample_media = (Inr False, sample_media)"
proof -
  let ?r = "new_content_row 5 None ''m1'' None ''whisper''"
  have "content_check (new_content_row 99 None ''m1'' None ''whisper'')" by code_simp
  moreover have "ct_status ?r = Pending" by (simp add: new_content_row_def)
  moreover have "?r \<in> set sample_media" "distinct (map ct_message_id sample_media)"
    by (simp_all add: sample_media_def)
  ultimately show ?thesis
    using reserve_keeps_existing_work[of sample_media ?r 99 None "''whisper''"] by simp
qed

end
