(* ===== verification/Conversation_Cycles.thy ===== *)
theory Conversation_Cycles
  imports Durable_Media
begin

text \<open>
  The persistent conversation-processing cycles
  (\<open>src/core/conversation_cycle_repository.py\<close>, tables
  \<open>conversation_processing_cycles\<close> and \<open>conversation_cycle_messages\<close>): opening and
  closing a cycle from ticket events, status transitions, lease claims of the finalization
  worker, waking of media-blocked cycles, message membership and the operational reads.

  Every operation is one transaction on the state \<open>cycle_db\<close>.  \<open>now\<close> is the clock the
  statement uses (\<open>datetime.now\<close> in the two ticket operations, \<open>CURRENT_TIMESTAMP\<close> in the
  others) and \<open>uuid\<close> the value of \<open>uuid7()\<close>.  Timestamps arrive parsed.  The unique and
  check constraints of the migrations are explicit: an insert or update that would break one is an
  error and leaves the tables as they were; that this does not happen is one of the properties.
  JSON columns are opaque texts.
\<close>

section \<open>State\<close>

datatype cycle_status =
    Cycle_Open | Cycle_Pending | Recovering_Messages | Waiting_Media | Media_Blocked
  | Building_Context | Summarizing | Classifying | Cycle_Completed | Completed_With_Warnings
  | Retryable_Failure | Cycle_Failed

definition RECOVERABLE_CYCLE_STATUSES :: "cycle_status list" where
  "RECOVERABLE_CYCLE_STATUSES =
    [Cycle_Pending, Recovering_Messages, Waiting_Media, Building_Context, Summarizing,
     Classifying, Retryable_Failure]"

definition TERMINAL_CYCLE_STATUSES :: "cycle_status list" where
  "TERMINAL_CYCLE_STATUSES = [Cycle_Completed, Completed_With_Warnings, Cycle_Failed]"

definition BLOCKED_CYCLE_STATUSES :: "cycle_status list" where
  "BLOCKED_CYCLE_STATUSES = [Media_Blocked]"

definition cycle_status_names :: "(string \<times> cycle_status) list" where
  "cycle_status_names =
    [(''open'', Cycle_Open), (''pending'', Cycle_Pending),
     (''recovering_messages'', Recovering_Messages), (''waiting_media'', Waiting_Media),
     (''building_context'', Building_Context), (''summarizing'', Summarizing),
     (''classifying'', Classifying), (''retryable_failure'', Retryable_Failure),
     (''media_blocked'', Media_Blocked), (''completed'', Cycle_Completed),
     (''completed_with_warnings'', Completed_With_Warnings), (''failed'', Cycle_Failed)]"

definition parse_cycle_status :: "string \<Rightarrow> cycle_status option" where
  "parse_cycle_status s = map_of cycle_status_names s"

type_synonym json = string

record cycle =
  cy_id :: int
  cy_public_id :: string
  cy_conversation_id :: string
  cy_sequence_number :: int
  cy_protocol :: "string option"
  cy_cycle_started_at :: "time option"
  cy_ticket_closed_at :: "time option"
  cy_cycle_start_strategy :: string
  cy_open_event_key :: "string option"
  cy_close_event_key :: "string option"
  cy_contact_external_id :: "string option"
  cy_status :: cycle_status
  cy_attempt_count :: int
  cy_transient_retry_count :: int
  cy_error_phase :: "string option"
  cy_error_message :: "string option"
  cy_warning_count :: int
  cy_snapshot_json :: "json option"
  cy_rendered_context :: "string option"
  cy_model_context :: "string option"
  cy_context_reduction_applied :: bool
  cy_context_reduction_json :: json
  cy_history_recovery_attempt :: int
  cy_history_page_count :: int
  cy_processing_time_ms :: "int option"
  cy_classification_id :: "int option"
  cy_next_attempt_at :: "time option"
  cy_enqueued_at :: "time option"
  cy_lease_owner :: "string option"
  cy_lease_expires_at :: "time option"
  cy_created_at :: time
  cy_updated_at :: time
  cy_completed_at :: "time option"

record cycle_message =
  cm_cycle_id :: int
  cm_message_id :: string
  cm_position :: nat
  cm_message_type :: string
  cm_message_timestamp :: time
  cm_created_at :: time

record cycle_db =
  cycles :: "cycle list"
  cycle_messages :: "cycle_message list"
  next_cycle_id :: int
  has_cycle_schema :: bool

definition empty_cycle_db :: cycle_db where
  "empty_cycle_db = \<lparr>cycles = [], cycle_messages = [], next_cycle_id = 1, has_cycle_schema = True\<rparr>"

section \<open>Constraints\<close>

definition nonblank_opt :: "string option \<Rightarrow> bool" where
  "nonblank_opt x = (case x of None \<Rightarrow> True | Some s \<Rightarrow> btrim s \<noteq> [])"

lemma nonblank_opt_simps [simp]:
  "nonblank_opt None" "nonblank_opt (Some s) \<longleftrightarrow> btrim s \<noteq> []"
  by (simp_all add: nonblank_opt_def)

definition cycle_check :: "cycle \<Rightarrow> bool" where
  "cycle_check c \<longleftrightarrow>
    0 < cy_sequence_number c \<and> 0 \<le> cy_attempt_count c \<and> 0 \<le> cy_warning_count c \<and>
    0 \<le> cy_transient_retry_count c \<and> btrim (cy_cycle_start_strategy c) \<noteq> [] \<and>
    nonblank_opt (cy_open_event_key c) \<and> nonblank_opt (cy_close_event_key c) \<and>
    nonblank_opt (cy_contact_external_id c)"

text \<open>SQL's unique constraint on a nullable column: null values never conflict.\<close>

definition unique_opt :: "('r \<Rightarrow> 'v option) \<Rightarrow> 'r list \<Rightarrow> bool" where
  "unique_opt col rows \<longleftrightarrow> distinct (List.map_filter col rows)"

definition cycles_unique :: "cycle list \<Rightarrow> bool" where
  "cycles_unique rows \<longleftrightarrow>
    distinct (map cy_id rows) \<and> distinct (map cy_public_id rows) \<and>
    distinct (map (\<lambda>c. (cy_conversation_id c, cy_sequence_number c)) rows) \<and>
    distinct (map cy_conversation_id (filter (\<lambda>c. cy_ticket_closed_at c = None) rows)) \<and>
    unique_opt cy_open_event_key rows \<and> unique_opt cy_close_event_key rows \<and>
    unique_opt cy_classification_id rows"

definition cycle_violation :: py_error where
  "cycle_violation = CheckViolation ''conversation_processing_cycles''"

definition commit_cycles :: "cycle list \<Rightarrow> 'a \<Rightarrow> cycle_db \<Rightarrow> (py_error + 'a) \<times> cycle_db" where
  "commit_cycles rows x db =
    (if cycles_unique rows \<and> list_all cycle_check rows then (Inr x, db\<lparr>cycles := rows\<rparr>)
     else (Inl cycle_violation, db))"

definition with_cycle_schema ::
  "(cycle_db \<Rightarrow> (py_error + 'a) \<times> cycle_db) \<Rightarrow> cycle_db \<Rightarrow> (py_error + 'a) \<times> cycle_db" where
  "with_cycle_schema f db =
    (if has_cycle_schema db then f db
     else (Inl (RuntimeError
       ''conversation cycle persistence requires migration 0013_conversation_cycles''), db))"

section \<open>Opening and closing\<close>

definition cycle_row :: "string \<Rightarrow> cycle_db \<Rightarrow> cycle option" where
  "cycle_row public_id db = lookup_by cy_public_id public_id (cycles db)"

definition normalize_cycle_contact_external_id :: "string option \<Rightarrow> py_error + string option" where
  "normalize_cycle_contact_external_id value =
    (case value of
       None \<Rightarrow> Inr None
     | Some v \<Rightarrow>
         (let normalized = py_strip v
          in if normalized = [] then Inr None
             else if 240 < length normalized \<or>
                list_ex (\<lambda>c. c \<in> set [CHR 0x0D, CHR 0x0A, CHR 0x00]) normalized
             then Inl (ValueError ''contact_external_id must be a safe stable ID'')
             else Inr (Some normalized)))"

definition max_or_zero :: "int list \<Rightarrow> int" where
  "max_or_zero xs = (case xs of [] \<Rightarrow> 0 | x # ys \<Rightarrow> fold max ys x)"

definition next_sequence :: "string \<Rightarrow> cycle list \<Rightarrow> int" where
  "next_sequence conv rows =
    max_or_zero (map cy_sequence_number (filter (\<lambda>c. cy_conversation_id c = conv) rows)) + 1"

definition new_cycle :: "int \<Rightarrow> string \<Rightarrow> string \<Rightarrow> int \<Rightarrow> string \<Rightarrow> time \<Rightarrow> cycle" where
  "new_cycle i uuid conv sequence strategy now =
    \<lparr>cy_id = i, cy_public_id = uuid, cy_conversation_id = conv, cy_sequence_number = sequence,
     cy_protocol = None, cy_cycle_started_at = None, cy_ticket_closed_at = None,
     cy_cycle_start_strategy = strategy, cy_open_event_key = None, cy_close_event_key = None,
     cy_contact_external_id = None, cy_status = Cycle_Open, cy_attempt_count = 0,
     cy_transient_retry_count = 0, cy_error_phase = None, cy_error_message = None,
     cy_warning_count = 0, cy_snapshot_json = None, cy_rendered_context = None,
     cy_model_context = None, cy_context_reduction_applied = False,
     cy_context_reduction_json = ''[]'', cy_history_recovery_attempt = 0,
     cy_history_page_count = 0, cy_processing_time_ms = None, cy_classification_id = None,
     cy_next_attempt_at = None, cy_enqueued_at = None, cy_lease_owner = None,
     cy_lease_expires_at = None, cy_created_at = now, cy_updated_at = now, cy_completed_at = None\<rparr>"

definition insert_cycle :: "cycle \<Rightarrow> cycle_db \<Rightarrow> (py_error + unit) \<times> cycle_db" where
  "insert_cycle c db =
    (case commit_cycles (cycles db @ [c]) () db of
       (res, db') \<Rightarrow> (res, db'\<lparr>next_cycle_id := next_cycle_id db + 1\<rparr>))"

text \<open>Reads the row back; PostgreSQL returning no row is the code's last \<open>RuntimeError\<close>.\<close>

definition return_cycle :: "string \<Rightarrow> bool \<Rightarrow> cycle_db \<Rightarrow> (py_error + cycle \<times> bool) \<times> cycle_db" where
  "return_cycle public_id created db =
    (case cycle_row public_id db of
       None \<Rightarrow> (Inl (RuntimeError ''PostgreSQL did not return the cycle''), db)
     | Some c \<Rightarrow> (Inr (c, created), db))"

definition find_open_cycle :: "string \<Rightarrow> cycle list \<Rightarrow> cycle option" where
  "find_open_cycle conv rows =
    find (\<lambda>c. cy_conversation_id c = conv \<and> cy_ticket_closed_at c = None) rows"

definition create_open_cycle_tx ::
  "time \<Rightarrow> string \<Rightarrow> string \<Rightarrow> time \<Rightarrow> string \<Rightarrow> string \<Rightarrow> string option \<Rightarrow> cycle_db \<Rightarrow>
   (py_error + cycle \<times> bool) \<times> cycle_db" where
  "create_open_cycle_tx now uuid conv started_at open_event_key strategy contact db =
    (let duplicate = find (\<lambda>c. cy_open_event_key c = Some open_event_key) (cycles db);
         existing = find_open_cycle conv (cycles db);
         created = (duplicate = None \<and> existing = None)
     in case duplicate of
          Some d \<Rightarrow> return_cycle (cy_public_id d) created db
        | None \<Rightarrow>
            (case existing of
               None \<Rightarrow>
                 (case insert_cycle
                     ((new_cycle (next_cycle_id db) uuid conv (next_sequence conv (cycles db))
                        strategy now)
                      \<lparr>cy_cycle_started_at := Some started_at,
                       cy_open_event_key := Some open_event_key,
                       cy_contact_external_id := contact\<rparr>) db of
                    (Inl e, db') \<Rightarrow> (Inl e, db)
                  | (Inr _, db') \<Rightarrow> return_cycle uuid created db')
             | Some e \<Rightarrow>
                 (if contact = None then return_cycle (cy_public_id e) created db
                  else case commit_cycles
                      (update_where (\<lambda>c. cy_public_id c = cy_public_id e)
                        (\<lambda>c. c\<lparr>cy_contact_external_id := coalesce_opt (cy_contact_external_id c) contact,
                              cy_updated_at := now\<rparr>) (cycles db)) () db of
                    (Inl err, db') \<Rightarrow> (Inl err, db')
                  | (Inr _, db') \<Rightarrow> return_cycle (cy_public_id e) created db')))"

definition create_open_cycle ::
  "time \<Rightarrow> string \<Rightarrow> string \<Rightarrow> time \<Rightarrow> string \<Rightarrow> string \<Rightarrow> string option \<Rightarrow> cycle_db \<Rightarrow>
   (py_error + cycle \<times> bool) \<times> cycle_db" where
  "create_open_cycle now uuid conv started_at open_event_key strategy contact_external_id =
    with_cycle_schema (\<lambda>db.
      case normalize_cycle_contact_external_id contact_external_id of
        Inl e \<Rightarrow> (Inl e, db)
      | Inr contact \<Rightarrow>
          create_open_cycle_tx now uuid conv started_at open_event_key strategy contact db)"

definition close_update :: "time \<Rightarrow> int \<Rightarrow> string \<Rightarrow> time \<Rightarrow> string \<Rightarrow> string option \<Rightarrow> cycle \<Rightarrow> cycle" where
  "close_update now delay protocol closed_at close_event_key contact c =
    c\<lparr>cy_protocol := Some protocol, cy_ticket_closed_at := Some closed_at,
      cy_close_event_key := Some close_event_key, cy_status := Cycle_Pending,
      cy_contact_external_id := coalesce_opt (cy_contact_external_id c) contact,
      cy_next_attempt_at := Some (now + seconds delay), cy_updated_at := now,
      cy_error_phase := None, cy_error_message := None\<rparr>"

definition close_cycle_tx ::
  "time \<Rightarrow> int \<Rightarrow> string \<Rightarrow> string \<Rightarrow> string \<Rightarrow> time \<Rightarrow> string \<Rightarrow> string \<Rightarrow> string option \<Rightarrow> cycle_db \<Rightarrow>
   (py_error + cycle \<times> bool) \<times> cycle_db" where
  "close_cycle_tx now delay uuid conv protocol closed_at close_event_key fallback contact db =
    (case find (\<lambda>c. cy_close_event_key c = Some close_event_key) (cycles db) of
       Some d \<Rightarrow> return_cycle (cy_public_id d) False db
     | None \<Rightarrow>
         (case find_open_cycle conv (cycles db) of
            Some opened \<Rightarrow>
              (case commit_cycles
                  (update_where (\<lambda>c. cy_id c = cy_id opened)
                    (close_update now delay protocol closed_at close_event_key contact)
                    (cycles db)) () db of
                 (Inl e, db') \<Rightarrow> (Inl e, db')
               | (Inr _, db') \<Rightarrow> return_cycle (cy_public_id opened) True db')
          | None \<Rightarrow>
              (case insert_cycle
                  (close_update now delay protocol closed_at close_event_key contact
                    (new_cycle (next_cycle_id db) uuid conv (next_sequence conv (cycles db))
                      fallback now)) db of
                 (Inl e, db') \<Rightarrow> (Inl e, db)
               | (Inr _, db') \<Rightarrow> return_cycle uuid True db')))"

definition close_cycle ::
  "time \<Rightarrow> int \<Rightarrow> string \<Rightarrow> string \<Rightarrow> string \<Rightarrow> time \<Rightarrow> string \<Rightarrow> string \<Rightarrow> string option \<Rightarrow> cycle_db \<Rightarrow>
   (py_error + cycle \<times> bool) \<times> cycle_db" where
  "close_cycle now delay uuid conv protocol closed_at close_event_key fallback contact_external_id =
    with_cycle_schema (\<lambda>db.
      case normalize_cycle_contact_external_id contact_external_id of
        Inl e \<Rightarrow> (Inl e, db)
      | Inr contact \<Rightarrow>
          close_cycle_tx now delay uuid conv protocol closed_at close_event_key fallback contact db)"

section \<open>Transitions\<close>

text \<open>An assignment of the \<open>fields\<close> mapping; \<open>F_unknown\<close> is a name outside the permitted
  set.\<close>

datatype cycle_field =
    F_protocol "string option"
  | F_cycle_started_at "time option"
  | F_cycle_start_strategy string
  | F_attempt_count int
  | F_transient_retry_count int
  | F_error_phase "string option"
  | F_error_message "string option"
  | F_warning_count int
  | F_snapshot_json "json option"
  | F_rendered_context "string option"
  | F_model_context "string option"
  | F_context_reduction_applied bool
  | F_context_reduction_json json
  | F_history_recovery_attempt int
  | F_history_page_count int
  | F_processing_time_ms "int option"
  | F_classification_id "int option"
  | F_next_attempt_at "time option"
  | F_enqueued_at "time option"
  | F_lease_owner "string option"
  | F_lease_expires_at "time option"
  | F_completed_at "time option"
  | F_unknown string

fun permitted_field :: "cycle_field \<Rightarrow> bool" where
  "permitted_field (F_unknown name) = False"
| "permitted_field _ = True"

fun assign_field :: "cycle_field \<Rightarrow> cycle \<Rightarrow> cycle" where
  "assign_field (F_protocol v) c = c\<lparr>cy_protocol := v\<rparr>"
| "assign_field (F_cycle_started_at v) c = c\<lparr>cy_cycle_started_at := v\<rparr>"
| "assign_field (F_cycle_start_strategy v) c = c\<lparr>cy_cycle_start_strategy := v\<rparr>"
| "assign_field (F_attempt_count v) c = c\<lparr>cy_attempt_count := v\<rparr>"
| "assign_field (F_transient_retry_count v) c = c\<lparr>cy_transient_retry_count := v\<rparr>"
| "assign_field (F_error_phase v) c = c\<lparr>cy_error_phase := v\<rparr>"
| "assign_field (F_error_message v) c = c\<lparr>cy_error_message := v\<rparr>"
| "assign_field (F_warning_count v) c = c\<lparr>cy_warning_count := v\<rparr>"
| "assign_field (F_snapshot_json v) c = c\<lparr>cy_snapshot_json := v\<rparr>"
| "assign_field (F_rendered_context v) c = c\<lparr>cy_rendered_context := v\<rparr>"
| "assign_field (F_model_context v) c = c\<lparr>cy_model_context := v\<rparr>"
| "assign_field (F_context_reduction_applied v) c = c\<lparr>cy_context_reduction_applied := v\<rparr>"
| "assign_field (F_context_reduction_json v) c = c\<lparr>cy_context_reduction_json := v\<rparr>"
| "assign_field (F_history_recovery_attempt v) c = c\<lparr>cy_history_recovery_attempt := v\<rparr>"
| "assign_field (F_history_page_count v) c = c\<lparr>cy_history_page_count := v\<rparr>"
| "assign_field (F_processing_time_ms v) c = c\<lparr>cy_processing_time_ms := v\<rparr>"
| "assign_field (F_classification_id v) c = c\<lparr>cy_classification_id := v\<rparr>"
| "assign_field (F_next_attempt_at v) c = c\<lparr>cy_next_attempt_at := v\<rparr>"
| "assign_field (F_enqueued_at v) c = c\<lparr>cy_enqueued_at := v\<rparr>"
| "assign_field (F_lease_owner v) c = c\<lparr>cy_lease_owner := v\<rparr>"
| "assign_field (F_lease_expires_at v) c = c\<lparr>cy_lease_expires_at := v\<rparr>"
| "assign_field (F_completed_at v) c = c\<lparr>cy_completed_at := v\<rparr>"
| "assign_field (F_unknown name) c = c"

definition transition_update :: "time \<Rightarrow> cycle_status \<Rightarrow> cycle_field list \<Rightarrow> cycle \<Rightarrow> cycle" where
  "transition_update now st assigns c =
    fold assign_field assigns (c\<lparr>cy_status := st, cy_updated_at := now\<rparr>)"

definition transition_matches :: "string \<Rightarrow> cycle_status list \<Rightarrow> cycle \<Rightarrow> bool" where
  "transition_matches public_id expected c \<longleftrightarrow>
    cy_public_id c = public_id \<and> (expected = [] \<or> cy_status c \<in> set expected)"

text \<open>\<open>expected = []\<close> stands for no \<open>expected_statuses\<close> (Python tests their truth value).\<close>

definition transition_cycle_tx ::
  "time \<Rightarrow> string \<Rightarrow> string \<Rightarrow> cycle_status list \<Rightarrow> cycle_field list \<Rightarrow> cycle_db \<Rightarrow>
   (py_error + cycle option) \<times> cycle_db" where
  "transition_cycle_tx now public_id status expected assigns db =
    (case parse_cycle_status status of
       None \<Rightarrow> (Inl (ValueError ''Unsupported cycle status''), db)
     | Some st \<Rightarrow>
         (if \<not> list_all permitted_field assigns
          then (Inl (ValueError ''Unsupported cycle fields''), db)
          else commit_cycles
            (update_where (transition_matches public_id expected)
              (transition_update now st assigns) (cycles db))
            (map_option (transition_update now st assigns)
              (find (transition_matches public_id expected) (cycles db))) db))"

definition transition_cycle ::
  "time \<Rightarrow> string \<Rightarrow> string \<Rightarrow> cycle_status list \<Rightarrow> cycle_field list \<Rightarrow> cycle_db \<Rightarrow>
   (py_error + cycle option) \<times> cycle_db" where
  "transition_cycle now public_id status expected assigns =
    with_cycle_schema (transition_cycle_tx now public_id status expected assigns)"

section \<open>Claims\<close>

definition recoverable :: "cycle \<Rightarrow> bool" where
  "recoverable c \<longleftrightarrow> cy_status c \<in> set RECOVERABLE_CYCLE_STATUSES"

definition cycle_claimable :: "time \<Rightarrow> cycle \<Rightarrow> bool" where
  "cycle_claimable now c \<longleftrightarrow>
    recoverable c \<and> elapsed now (cy_next_attempt_at c) \<and> elapsed now (cy_lease_expires_at c)"

definition cycle_order :: "cycle \<Rightarrow> time \<times> int" where
  "cycle_order c = (coalesce (cy_next_attempt_at c) (cy_updated_at c), cy_id c)"

definition claimed_cycle :: "time \<Rightarrow> string \<Rightarrow> int \<Rightarrow> cycle \<Rightarrow> cycle" where
  "claimed_cycle now owner lease_seconds c =
    c\<lparr>cy_lease_owner := Some owner, cy_lease_expires_at := Some (now + seconds lease_seconds),
      cy_enqueued_at := None, cy_updated_at := now\<rparr>"

definition claim_cycle ::
  "time \<Rightarrow> string \<Rightarrow> string \<Rightarrow> int \<Rightarrow> cycle_db \<Rightarrow> (py_error + cycle option) \<times> cycle_db" where
  "claim_cycle now public_id owner lease_seconds =
    with_cycle_schema (\<lambda>db.
      let matches = (\<lambda>c. cy_public_id c = public_id \<and> cycle_claimable now c)
      in (Inr (map_option (claimed_cycle now owner lease_seconds) (find matches (cycles db))),
          db\<lparr>cycles := update_where matches (claimed_cycle now owner lease_seconds) (cycles db)\<rparr>))"

definition claim_next_cycle_tx ::
  "time \<Rightarrow> int set \<Rightarrow> string \<Rightarrow> int \<Rightarrow> cycle_db \<Rightarrow> cycle option \<times> cycle_db" where
  "claim_next_cycle_tx now locked owner lease_seconds db =
    (case fetchone (select_limit 1 cycle_order
        (\<lambda>c. cycle_claimable now c \<and> cy_id c \<notin> locked) (cycles db)) of
       None \<Rightarrow> (None, db)
     | Some c \<Rightarrow>
         (Some (claimed_cycle now owner lease_seconds c),
          db\<lparr>cycles := update_where (\<lambda>x. cy_id x = cy_id c)
            (claimed_cycle now owner lease_seconds) (cycles db)\<rparr>))"

definition claim_next_cycle ::
  "time \<Rightarrow> int set \<Rightarrow> string \<Rightarrow> int \<Rightarrow> cycle_db \<Rightarrow> (py_error + cycle option) \<times> cycle_db" where
  "claim_next_cycle now locked owner lease_seconds =
    with_cycle_schema (\<lambda>db.
      case claim_next_cycle_tx now locked owner lease_seconds db of (res, db') \<Rightarrow> (Inr res, db'))"

definition publication_due :: "time \<Rightarrow> int \<Rightarrow> cycle \<Rightarrow> bool" where
  "publication_due now finalization_lease_seconds c \<longleftrightarrow>
    cycle_claimable now c \<and>
    (case cy_enqueued_at c of None \<Rightarrow> True
     | Some e \<Rightarrow> e < now - seconds finalization_lease_seconds)"

definition get_recoverable_cycles ::
  "time \<Rightarrow> int set \<Rightarrow> int \<Rightarrow> int \<Rightarrow> cycle_db \<Rightarrow> (py_error + cycle list) \<times> cycle_db" where
  "get_recoverable_cycles now locked finalization_lease_seconds limit =
    with_cycle_schema (\<lambda>db.
      let candidates = select_limit (nat (max 1 limit)) cycle_order
            (\<lambda>c. publication_due now finalization_lease_seconds c \<and> cy_id c \<notin> locked) (cycles db);
          chosen = (\<lambda>c. cy_id c \<in> cy_id ` set candidates);
          mark = (\<lambda>c. c\<lparr>cy_enqueued_at := Some now, cy_updated_at := now\<rparr>)
      in (Inr (map mark (filter chosen (cycles db))),
          db\<lparr>cycles := update_where chosen mark (cycles db)\<rparr>))"

definition release_cycle_publication ::
  "time \<Rightarrow> string \<Rightarrow> cycle_db \<Rightarrow> (py_error + bool) \<times> cycle_db" where
  "release_cycle_publication now public_id =
    with_cycle_schema (\<lambda>db.
      let matches = (\<lambda>c. cy_public_id c = public_id \<and> recoverable c)
      in (Inr (list_ex matches (cycles db)),
          db\<lparr>cycles := update_where matches
            (\<lambda>c. c\<lparr>cy_enqueued_at := None, cy_updated_at := now\<rparr>) (cycles db)\<rparr>))"

section \<open>Media-blocked cycles\<close>

definition audio_message_type :: "string \<Rightarrow> bool" where
  "audio_message_type t \<longleftrightarrow> t \<in> set [''ptt'', ''audio'', ''voice'']"

definition exhausted :: "int \<Rightarrow> string \<Rightarrow> content_row list \<Rightarrow> bool" where
  "exhausted max_attempts message_id rows =
    (case lookup_by ct_message_id message_id rows of
       None \<Rightarrow> False
     | Some r \<Rightarrow> ct_status r = Failed \<and> max_attempts \<le> ct_attempt_count r)"

definition media_exhausted :: "int \<Rightarrow> media_db \<Rightarrow> cycle_message \<Rightarrow> bool" where
  "media_exhausted max_attempts media m \<longleftrightarrow>
    (audio_message_type (cm_message_type m) \<and>
      exhausted max_attempts (cm_message_id m) (message_transcriptions media)) \<or>
    (cm_message_type m = ''image'' \<and>
      exhausted max_attempts (cm_message_id m) (message_image_extractions media))"

definition unblocked :: "int \<Rightarrow> media_db \<Rightarrow> cycle_message list \<Rightarrow> cycle \<Rightarrow> bool" where
  "unblocked max_attempts media messages c \<longleftrightarrow>
    cy_status c = Media_Blocked \<and>
    \<not> list_ex (\<lambda>m. cm_cycle_id m = cy_id c \<and> media_exhausted max_attempts media m) messages"

definition woken_cycle :: "time \<Rightarrow> cycle \<Rightarrow> cycle" where
  "woken_cycle now c =
    c\<lparr>cy_status := Waiting_Media, cy_next_attempt_at := Some now, cy_enqueued_at := None,
      cy_error_phase := None, cy_error_message := None, cy_updated_at := now\<rparr>"

definition wake_unblocked_media_cycles ::
  "time \<Rightarrow> int set \<Rightarrow> int \<Rightarrow> int \<Rightarrow> media_db \<Rightarrow> cycle_db \<Rightarrow> (py_error + cycle list) \<times> cycle_db" where
  "wake_unblocked_media_cycles now locked max_attempts limit media =
    with_cycle_schema (\<lambda>db.
      let candidates = select_limit (nat (max 1 limit)) (\<lambda>c. (cy_updated_at c, cy_id c))
            (\<lambda>c. unblocked max_attempts media (cycle_messages db) c \<and> cy_id c \<notin> locked) (cycles db);
          chosen = (\<lambda>c. cy_id c \<in> cy_id ` set candidates)
      in (Inr (map (woken_cycle now) (filter chosen (cycles db))),
          db\<lparr>cycles := update_where chosen (woken_cycle now) (cycles db)\<rparr>))"

section \<open>Message membership\<close>

record history_message =
  hm_message_id :: string
  hm_type :: string
  hm_timestamp :: time

definition message_check :: "cycle_message \<Rightarrow> bool" where
  "message_check m \<longleftrightarrow> btrim (cm_message_id m) \<noteq> [] \<and> btrim (cm_message_type m) \<noteq> []"

definition message_violation :: py_error where
  "message_violation = CheckViolation ''conversation_cycle_messages''"

text \<open>\<open>INSERT ... ON CONFLICT (cycle_id, message_id) DO UPDATE\<close>.\<close>

definition upsert_message :: "cycle_message \<Rightarrow> cycle_message list \<Rightarrow> cycle_message list" where
  "upsert_message m rows =
    (if list_ex (\<lambda>x. cm_cycle_id x = cm_cycle_id m \<and> cm_message_id x = cm_message_id m) rows
     then update_where
       (\<lambda>x. cm_cycle_id x = cm_cycle_id m \<and> cm_message_id x = cm_message_id m)
       (\<lambda>x. x\<lparr>cm_position := cm_position m, cm_message_type := cm_message_type m,
             cm_message_timestamp := cm_message_timestamp m\<rparr>) rows
     else rows @ [m])"

definition owned_elsewhere :: "int \<Rightarrow> string \<Rightarrow> cycle_message list \<Rightarrow> bool" where
  "owned_elsewhere cid message_id rows =
    (case lookup_by cm_message_id message_id rows of
       None \<Rightarrow> False
     | Some owner \<Rightarrow> cm_cycle_id owner \<noteq> cid)"

definition message_row :: "time \<Rightarrow> int \<Rightarrow> nat \<Rightarrow> history_message \<Rightarrow> cycle_message" where
  "message_row now cid position m =
    \<lparr>cm_cycle_id = cid, cm_message_id = hm_message_id m, cm_position = position,
     cm_message_type = hm_type m, cm_message_timestamp = hm_timestamp m, cm_created_at = now\<rparr>"

text \<open>The loop over \<open>enumerate(messages)\<close>; the result is the accepted ids, the conflicting
  ids and the table.\<close>

fun save_messages_loop ::
  "time \<Rightarrow> int \<Rightarrow> nat \<Rightarrow> history_message list \<Rightarrow> cycle_message list \<Rightarrow>
   py_error + string list \<times> string list \<times> cycle_message list" where
  "save_messages_loop now cid position [] rows = Inr ([], [], rows)"
| "save_messages_loop now cid position (m # ms) rows =
    (if owned_elsewhere cid (hm_message_id m) rows
     then (case save_messages_loop now cid (Suc position) ms rows of
             Inl e \<Rightarrow> Inl e
           | Inr (acc, conf, rows') \<Rightarrow> Inr (acc, hm_message_id m # conf, rows'))
     else if \<not> message_check (message_row now cid position m) then Inl message_violation
     else (case save_messages_loop now cid (Suc position) ms
                 (upsert_message (message_row now cid position m) rows) of
             Inl e \<Rightarrow> Inl e
           | Inr (acc, conf, rows') \<Rightarrow> Inr (hm_message_id m # acc, conf, rows')))"

definition save_cycle_messages ::
  "time \<Rightarrow> string \<Rightarrow> history_message list \<Rightarrow> cycle_db \<Rightarrow>
   (py_error + string list \<times> string list) \<times> cycle_db" where
  "save_cycle_messages now public_id messages =
    with_cycle_schema (\<lambda>db.
      case cycle_row public_id db of
        None \<Rightarrow> (Inl (LookupError ''conversation cycle not found''), db)
      | Some c \<Rightarrow>
          (case save_messages_loop now (cy_id c) 0 messages
              (filter (\<lambda>m. cm_cycle_id m \<noteq> cy_id c) (cycle_messages db)) of
             Inl e \<Rightarrow> (Inl e, db)
           | Inr (accepted, conflicts, rows') \<Rightarrow>
               (Inr (accepted, conflicts), db\<lparr>cycle_messages := rows'\<rparr>)))"

section \<open>Reads\<close>

definition read_with_cycle_schema :: "(cycle_db \<Rightarrow> 'a) \<Rightarrow> cycle_db \<Rightarrow> py_error + 'a" where
  "read_with_cycle_schema f db = fst (with_cycle_schema (\<lambda>db. (Inr (f db), db)) db)"

definition get_cycle :: "string \<Rightarrow> cycle_db \<Rightarrow> py_error + cycle option" where
  "get_cycle public_id = read_with_cycle_schema (cycle_row public_id)"

text \<open>\<open>ORDER BY sequence_number DESC LIMIT n\<close> over the rows that satisfy \<open>P\<close>.\<close>

definition latest_cycles :: "nat \<Rightarrow> (cycle \<Rightarrow> bool) \<Rightarrow> cycle_db \<Rightarrow> cycle list" where
  "latest_cycles n P db = select_limit n (\<lambda>c. - cy_sequence_number c) P (cycles db)"

definition get_latest_cycle :: "string \<Rightarrow> cycle_db \<Rightarrow> py_error + cycle option" where
  "get_latest_cycle conv = read_with_cycle_schema (\<lambda>db.
    fetchone (latest_cycles 1 (\<lambda>c. cy_conversation_id c = conv) db))"

definition get_previous_cycle :: "string \<Rightarrow> int \<Rightarrow> cycle_db \<Rightarrow> py_error + cycle option" where
  "get_previous_cycle conv sequence_number = read_with_cycle_schema (\<lambda>db.
    fetchone (latest_cycles 1
      (\<lambda>c. cy_conversation_id c = conv \<and> cy_sequence_number c < sequence_number) db))"

definition list_cycles :: "string \<Rightarrow> int \<Rightarrow> cycle_db \<Rightarrow> py_error + cycle list" where
  "list_cycles conv limit = read_with_cycle_schema
    (latest_cycles (nat (max 1 (min limit 100))) (\<lambda>c. cy_conversation_id c = conv))"

text \<open>The query selects six columns of the rows; the model returns the rows.\<close>

definition get_cycles_by_public_ids :: "string list \<Rightarrow> cycle_db \<Rightarrow> py_error + cycle list" where
  "get_cycles_by_public_ids public_ids = read_with_cycle_schema (\<lambda>db.
    let normalized = filter (\<lambda>p. p \<noteq> []) (map py_strip public_ids)
    in filter (\<lambda>c. cy_public_id c \<in> set normalized) (cycles db))"

record content_state =
  cs_kind :: string
  cs_status :: content_status
  cs_text :: "string option"
  cs_attempt_count :: int
  cs_error_message :: "string option"
  cs_updated_at :: time
  cs_next_attempt_at :: "time option"
  cs_enqueued_at :: "time option"

definition content_state_of :: "string \<Rightarrow> content_row \<Rightarrow> content_state" where
  "content_state_of kind r =
    \<lparr>cs_kind = kind, cs_status = ct_status r, cs_text = ct_text r,
     cs_attempt_count = ct_attempt_count r, cs_error_message = ct_error_message r,
     cs_updated_at = ct_updated_at r, cs_next_attempt_at = ct_next_attempt_at r,
     cs_enqueued_at = ct_enqueued_at r\<rparr>"

definition content_states_of :: "string \<Rightarrow> string list \<Rightarrow> content_row list \<Rightarrow> string \<rightharpoonup> content_state" where
  "content_states_of kind message_ids rows message_id =
    (if message_id \<in> set message_ids
     then map_option (content_state_of kind) (lookup_by ct_message_id message_id rows)
     else None)"

text \<open>Image states are stored after the audio states in the same dictionary.\<close>

definition get_content_states :: "string list \<Rightarrow> string list \<Rightarrow> media_db \<Rightarrow> string \<rightharpoonup> content_state" where
  "get_content_states audio_ids image_ids media =
    content_states_of ''audio'' audio_ids (message_transcriptions media) ++
    content_states_of ''image'' image_ids (message_image_extractions media)"

record cycle_work_metrics =
  cwm_due :: nat
  cwm_scheduled :: nat
  cwm_leased :: nat

definition get_cycle_work_metrics :: "time \<Rightarrow> cycle_db \<Rightarrow> cycle_work_metrics" where
  "get_cycle_work_metrics now db =
    (if \<not> has_cycle_schema db then \<lparr>cwm_due = 0, cwm_scheduled = 0, cwm_leased = 0\<rparr>
     else \<lparr>cwm_due = count_where (cycle_claimable now) (cycles db),
           cwm_scheduled =
             count_where (\<lambda>c. recoverable c \<and> in_future now (cy_next_attempt_at c)) (cycles db),
           cwm_leased =
             count_where (\<lambda>c. recoverable c \<and> in_future now (cy_lease_expires_at c)) (cycles db)\<rparr>)"

definition get_cycle_metrics :: "cycle_db \<Rightarrow> cycle_status \<Rightarrow> nat" where
  "get_cycle_metrics db st =
    (if has_cycle_schema db then count_where (\<lambda>c. cy_status c = st) (cycles db) else 0)"

section \<open>Uniqueness, row by row\<close>

definition opt_differ :: "'a option \<Rightarrow> 'a option \<Rightarrow> bool" where
  "opt_differ a b \<longleftrightarrow> a = None \<or> a \<noteq> b"

definition compatible :: "cycle \<Rightarrow> cycle \<Rightarrow> bool" where
  "compatible x y \<longleftrightarrow>
    cy_public_id x \<noteq> cy_public_id y \<and>
    \<not> (cy_conversation_id x = cy_conversation_id y \<and> cy_sequence_number x = cy_sequence_number y) \<and>
    \<not> (cy_conversation_id x = cy_conversation_id y \<and>
       cy_ticket_closed_at x = None \<and> cy_ticket_closed_at y = None) \<and>
    opt_differ (cy_open_event_key x) (cy_open_event_key y) \<and>
    opt_differ (cy_close_event_key x) (cy_close_event_key y) \<and>
    opt_differ (cy_classification_id x) (cy_classification_id y)"

lemma compatible_sym: "compatible x y \<Longrightarrow> compatible y x"
  by (auto simp: compatible_def opt_differ_def)

lemma unique_opt_Cons:
  "unique_opt col (r # rows) \<longleftrightarrow> unique_opt col rows \<and> (\<forall>x \<in> set rows. opt_differ (col r) (col x))"
  by (cases "col r")
    (auto simp: unique_opt_def opt_differ_def map_filter_simps map_filter_def image_iff,
      metis option.sel option.distinct(1))

lemma cycles_unique_Nil [simp]: "cycles_unique []"
  by (simp add: cycles_unique_def unique_opt_def map_filter_simps)

lemma cycles_unique_Cons:
  "cycles_unique (c # rows) \<longleftrightarrow>
    cycles_unique rows \<and> cy_id c \<notin> cy_id ` set rows \<and> (\<forall>x \<in> set rows. compatible c x)"
  by (auto simp: cycles_unique_def unique_opt_Cons compatible_def image_iff)

lemma cycles_unique_iff:
  "cycles_unique rows \<longleftrightarrow> distinct (map cy_id rows) \<and>
    (\<forall>x \<in> set rows. \<forall>y \<in> set rows. x \<noteq> y \<longrightarrow> compatible x y)"
proof (induction rows)
  case (Cons c rows)
  then show ?case
    by (auto simp: cycles_unique_Cons intro: compatible_sym)
qed simp

lemma cycles_unique_append:
  "cycles_unique (rows @ [c]) \<longleftrightarrow>
    cycles_unique rows \<and> cy_id c \<notin> cy_id ` set rows \<and> (\<forall>x \<in> set rows. compatible x c)"
  by (induction rows) (auto simp: cycles_unique_Cons)

lemma cycles_unique_update:
  assumes "cycles_unique rows" and "\<And>x. cy_id (f x) = cy_id x"
    and "\<And>x y. x \<in> set rows \<Longrightarrow> y \<in> set rows \<Longrightarrow> x \<noteq> y \<Longrightarrow> compatible x y \<Longrightarrow>
      compatible (if P x then f x else x) (if P y then f y else y)"
  shows "cycles_unique (update_where P f rows)"
proof -
  have "compatible x' y'" if new: "x' \<in> set (update_where P f rows)"
    "y' \<in> set (update_where P f rows)" "x' \<noteq> y'" for x' y'
  proof -
    obtain x y where "x \<in> set rows" "y \<in> set rows" and
      eq: "x' = (if P x then f x else x)" "y' = (if P y then f y else y)"
      using new(1,2) by (auto simp: update_where_def)
    moreover have "x \<noteq> y" using eq new(3) by auto
    ultimately show ?thesis using assms(1,3) by (auto simp: cycles_unique_iff)
  qed
  moreover have "distinct (map cy_id (update_where P f rows))"
    using assms(1,2) by (simp add: map_update_where cycles_unique_iff)
  ultimately show ?thesis by (simp add: cycles_unique_iff)
qed

lemma distinct_cycle_ids: "cycles_unique rows \<Longrightarrow> distinct (map cy_id rows)"
  by (simp add: cycles_unique_def)

lemma distinct_public_ids: "cycles_unique rows \<Longrightarrow> distinct (map cy_public_id rows)"
  by (simp add: cycles_unique_def)

lemma open_cycle_unique:
  "cycles_unique rows \<Longrightarrow> x \<in> set rows \<Longrightarrow> y \<in> set rows \<Longrightarrow>
    cy_conversation_id x = cy_conversation_id y \<Longrightarrow> cy_ticket_closed_at x = None \<Longrightarrow>
    cy_ticket_closed_at y = None \<Longrightarrow> x = y"
  unfolding cycles_unique_iff compatible_def by blast

text \<open>Updates that touch neither the keys nor the constrained columns.\<close>

definition same_keys :: "cycle \<Rightarrow> cycle \<Rightarrow> bool" where
  "same_keys x y \<longleftrightarrow>
    cy_id x = cy_id y \<and> cy_public_id x = cy_public_id y \<and>
    cy_conversation_id x = cy_conversation_id y \<and> cy_sequence_number x = cy_sequence_number y \<and>
    cy_ticket_closed_at x = cy_ticket_closed_at y \<and> cy_open_event_key x = cy_open_event_key y \<and>
    cy_close_event_key x = cy_close_event_key y \<and> cy_classification_id x = cy_classification_id y \<and>
    cy_attempt_count x = cy_attempt_count y \<and> cy_warning_count x = cy_warning_count y \<and>
    cy_transient_retry_count x = cy_transient_retry_count y \<and>
    cy_cycle_start_strategy x = cy_cycle_start_strategy y \<and>
    cy_contact_external_id x = cy_contact_external_id y"

lemma same_keys_updates [simp]:
  "same_keys (claimed_cycle now w lease c) c"
  "same_keys (woken_cycle now c) c"
  "same_keys (c\<lparr>cy_enqueued_at := e, cy_updated_at := u\<rparr>) c"
  by (simp_all add: same_keys_def claimed_cycle_def woken_cycle_def)

section \<open>Invariant\<close>

definition seqs_of :: "string \<Rightarrow> cycle list \<Rightarrow> int list" where
  "seqs_of conv rows = map cy_sequence_number (filter (\<lambda>c. cy_conversation_id c = conv) rows)"

text \<open>The cycles of a conversation are numbered 1, 2, ... without gaps, in the order in which
  they were created.\<close>

definition numbered :: "cycle list \<Rightarrow> bool" where
  "numbered rows \<longleftrightarrow> (\<forall>conv. seqs_of conv rows = map int [1..<Suc (length (seqs_of conv rows))])"

definition messages_ok :: "cycle list \<Rightarrow> cycle_message list \<Rightarrow> bool" where
  "messages_ok rows ms \<longleftrightarrow>
    distinct (map cm_message_id ms) \<and> distinct (map (\<lambda>m. (cm_cycle_id m, cm_position m)) ms) \<and>
    cm_cycle_id ` set ms \<subseteq> cy_id ` set rows"

text \<open>A cycle with a close event is closed.\<close>

definition close_key_ok :: "cycle \<Rightarrow> bool" where
  "close_key_ok c \<longleftrightarrow> (cy_close_event_key c \<noteq> None \<longrightarrow> cy_ticket_closed_at c \<noteq> None)"

definition cycle_inv :: "cycle_db \<Rightarrow> bool" where
  "cycle_inv db \<longleftrightarrow>
    cycles_unique (cycles db) \<and> list_all cycle_check (cycles db) \<and> numbered (cycles db) \<and>
    (\<forall>c \<in> set (cycles db). cy_id c < next_cycle_id db) \<and> list_all close_key_ok (cycles db) \<and>
    messages_ok (cycles db) (cycle_messages db)"

lemma seqs_of_update:
  assumes "\<And>c. c \<in> set rows \<Longrightarrow> P c \<Longrightarrow> cy_conversation_id (f c) = cy_conversation_id c \<and>
    cy_sequence_number (f c) = cy_sequence_number c"
  shows "seqs_of conv (update_where P f rows) = seqs_of conv rows"
  using assms by (induction rows) (auto simp: seqs_of_def)

lemma numbered_update:
  assumes "numbered rows" and "\<And>c. c \<in> set rows \<Longrightarrow> P c \<Longrightarrow>
    cy_conversation_id (f c) = cy_conversation_id c \<and> cy_sequence_number (f c) = cy_sequence_number c"
  shows "numbered (update_where P f rows)"
  using assms(1) seqs_of_update[of rows P f, OF assms(2)] by (simp add: numbered_def)

lemma fold_max_int_upt: "fold max (map int [Suc k..<Suc (k + n)]) (int k) = int (k + n)"
proof (induction n)
  case (Suc n)
  have "[Suc k..<Suc (k + Suc n)] = [Suc k..<Suc (k + n)] @ [Suc (k + n)]" by simp
  then show ?case using Suc by simp
qed simp

lemma max_or_zero_upt: "max_or_zero (map int [1..<Suc n]) = int n"
proof (cases n)
  case 0
  then show ?thesis by (simp add: max_or_zero_def)
next
  case (Suc k)
  have "[1..<Suc n] = 1 # [2..<Suc n]" using Suc by (simp add: upt_rec numeral_2_eq_2)
  then have "max_or_zero (map int [1..<Suc n]) = fold max (map int [Suc 1..<Suc (1 + k)]) (int 1)"
    using Suc by (simp add: max_or_zero_def numeral_2_eq_2)
  then show ?thesis using Suc fold_max_int_upt[of 1 k] by simp
qed

lemma next_sequence_numbered:
  "numbered rows \<Longrightarrow> next_sequence conv rows = int (length (seqs_of conv rows)) + 1"
  using max_or_zero_upt[of "length (seqs_of conv rows)"]
  by (simp add: next_sequence_def numbered_def flip: seqs_of_def)

lemma numbered_append:
  assumes "numbered rows" and "cy_sequence_number c = next_sequence (cy_conversation_id c) rows"
  shows "numbered (rows @ [c])"
proof -
  have "seqs_of conv (rows @ [c]) = map int [1..<Suc (length (seqs_of conv (rows @ [c])))]" for conv
  proof (cases "conv = cy_conversation_id c")
    case True
    then have "seqs_of conv (rows @ [c]) = seqs_of conv rows @ [int (length (seqs_of conv rows)) + 1]"
      using assms next_sequence_numbered[OF assms(1)] by (simp add: seqs_of_def)
    then show ?thesis using assms(1) by (simp add: numbered_def)
  next
    case False
    then have "seqs_of conv (rows @ [c]) = seqs_of conv rows" by (simp add: seqs_of_def)
    then show ?thesis using assms(1) by (simp add: numbered_def)
  qed
  then show ?thesis by (simp add: numbered_def)
qed

lemma seq_bound:
  assumes "numbered rows" and "c \<in> set rows"
  shows "cy_sequence_number c < next_sequence (cy_conversation_id c) rows"
proof -
  let ?s = "seqs_of (cy_conversation_id c) rows"
  have "cy_sequence_number c \<in> set ?s" using assms(2) by (auto simp: seqs_of_def)
  then have "cy_sequence_number c \<in> set (map int [1..<Suc (length ?s)])"
    using assms(1) unfolding numbered_def by metis
  then show ?thesis using next_sequence_numbered[OF assms(1)] by auto
qed

section \<open>Every operation keeps the invariant\<close>

lemma ids_update_where:
  assumes "\<And>c. cy_id (f c) = cy_id c"
  shows "cy_id ` set (update_where P f rows) = cy_id ` set rows"
proof -
  have "map cy_id (update_where P f rows) = map cy_id rows"
    using assms by (simp add: map_update_where)
  then show ?thesis by (metis set_map)
qed

lemma messages_ok_update:
  assumes "\<And>c. cy_id (f c) = cy_id c"
  shows "messages_ok (update_where P f rows) ms \<longleftrightarrow> messages_ok rows ms"
  using ids_update_where[of f P rows, OF assms] by (simp add: messages_ok_def)

lemma cycles_unique_same_keys:
  assumes "cycles_unique rows" and "\<And>c. same_keys (f c) c"
  shows "cycles_unique (update_where P f rows)"
proof (rule cycles_unique_update[OF assms(1)])
  show "cy_id (f x) = cy_id x" for x using assms(2)[of x] by (simp add: same_keys_def)
  show "compatible (if P x then f x else x) (if P y then f y else y)"
    if "compatible x y" for x y
    using that assms(2)[of x] assms(2)[of y] by (auto simp: compatible_def same_keys_def)
qed

lemma inv_same_keys:
  assumes "cycle_inv db" and "\<And>c. same_keys (f c) c"
  shows "cycle_inv (db\<lparr>cycles := update_where P f (cycles db)\<rparr>)"
proof -
  have f: "cy_id (f c) = cy_id c" "cy_conversation_id (f c) = cy_conversation_id c"
    "cy_sequence_number (f c) = cy_sequence_number c" "cycle_check (f c) = cycle_check c"
    "close_key_ok (f c) = close_key_ok c" for c
    using assms(2)[of c] by (simp_all add: same_keys_def cycle_check_def close_key_ok_def)
  have "list_all cycle_check (update_where P f (cycles db))"
    using assms(1) f by (auto simp: cycle_inv_def list_all_iff elim!: update_whereE)
  moreover have "\<forall>c \<in> set (update_where P f (cycles db)). cy_id c < next_cycle_id db"
    using assms(1) f by (auto simp: cycle_inv_def elim!: update_whereE)
  moreover have "list_all close_key_ok (update_where P f (cycles db))"
    using assms(1) f by (auto simp: cycle_inv_def list_all_iff elim!: update_whereE)
  ultimately show ?thesis
    using assms cycles_unique_same_keys[of "cycles db" f P] f
    by (auto simp: cycle_inv_def messages_ok_update intro!: numbered_update)
qed

lemma commit_update_inv:
  assumes "cycle_inv db" and "commit_cycles (update_where P f (cycles db)) x db = (res, db')"
    and "\<And>c. cy_id (f c) = cy_id c \<and> cy_conversation_id (f c) = cy_conversation_id c \<and>
      cy_sequence_number (f c) = cy_sequence_number c \<and> (close_key_ok c \<longrightarrow> close_key_ok (f c))"
  shows "cycle_inv db'"
proof (cases "cycles_unique (update_where P f (cycles db)) \<and> list_all cycle_check (update_where P f (cycles db))")
  case True
  have "\<forall>c \<in> set (update_where P f (cycles db)). cy_id c < next_cycle_id db"
    using assms(1,3) by (auto simp: cycle_inv_def elim!: update_whereE)
  moreover have "numbered (update_where P f (cycles db))"
    using assms(1,3) by (auto simp: cycle_inv_def intro!: numbered_update)
  moreover have "list_all close_key_ok (update_where P f (cycles db))"
    using assms(1,3) by (auto simp: cycle_inv_def list_all_iff elim!: update_whereE)
  ultimately show ?thesis
    using True assms by (auto simp: commit_cycles_def cycle_inv_def messages_ok_update)
next
  case False
  then show ?thesis using assms by (auto simp: commit_cycles_def)
qed

lemma insert_cycle_inv:
  assumes "cycle_inv db" and "insert_cycle c db = (Inr u, db')"
    and "cy_id c = next_cycle_id db"
    and "cy_sequence_number c = next_sequence (cy_conversation_id c) (cycles db)"
    and "close_key_ok c"
  shows "cycle_inv db'"
proof -
  have db': "db' = db\<lparr>cycles := cycles db @ [c], next_cycle_id := next_cycle_id db + 1\<rparr>"
    and ok: "cycles_unique (cycles db @ [c])" "list_all cycle_check (cycles db @ [c])"
    using assms(2) by (auto simp: insert_cycle_def commit_cycles_def split: if_splits)
  have "numbered (cycles db @ [c])"
    using assms(1,4) by (simp add: cycle_inv_def numbered_append)
  then show ?thesis
    using db' ok assms(1,3,5) by (fastforce simp: cycle_inv_def messages_ok_def)
qed

lemma return_cycle_db [simp]: "snd (return_cycle public_id created db) = db"
  by (simp add: return_cycle_def split: option.split)

lemma new_cycle_simps [simp]:
  "cy_id (new_cycle i uuid conv n strategy now) = i"
  "cy_public_id (new_cycle i uuid conv n strategy now) = uuid"
  "cy_conversation_id (new_cycle i uuid conv n strategy now) = conv"
  "cy_sequence_number (new_cycle i uuid conv n strategy now) = n"
  "cy_ticket_closed_at (new_cycle i uuid conv n strategy now) = None"
  "cy_open_event_key (new_cycle i uuid conv n strategy now) = None"
  "cy_close_event_key (new_cycle i uuid conv n strategy now) = None"
  "cy_classification_id (new_cycle i uuid conv n strategy now) = None"
  "cy_contact_external_id (new_cycle i uuid conv n strategy now) = None"
  "cy_cycle_start_strategy (new_cycle i uuid conv n strategy now) = strategy"
  "cy_status (new_cycle i uuid conv n strategy now) = Cycle_Open"
  "cy_attempt_count (new_cycle i uuid conv n strategy now) = 0"
  "cy_warning_count (new_cycle i uuid conv n strategy now) = 0"
  "cy_transient_retry_count (new_cycle i uuid conv n strategy now) = 0"
  by (simp_all add: new_cycle_def)

lemma close_update_simps [simp]:
  "cy_id (close_update now delay protocol at key contact c) = cy_id c"
  "cy_public_id (close_update now delay protocol at key contact c) = cy_public_id c"
  "cy_conversation_id (close_update now delay protocol at key contact c) = cy_conversation_id c"
  "cy_sequence_number (close_update now delay protocol at key contact c) = cy_sequence_number c"
  "cy_ticket_closed_at (close_update now delay protocol at key contact c) = Some at"
  "cy_open_event_key (close_update now delay protocol at key contact c) = cy_open_event_key c"
  "cy_close_event_key (close_update now delay protocol at key contact c) = Some key"
  "cy_classification_id (close_update now delay protocol at key contact c) = cy_classification_id c"
  "cy_contact_external_id (close_update now delay protocol at key contact c) =
     coalesce_opt (cy_contact_external_id c) contact"
  "cy_cycle_start_strategy (close_update now delay protocol at key contact c) = cy_cycle_start_strategy c"
  "cy_status (close_update now delay protocol at key contact c) = Cycle_Pending"
  "cy_attempt_count (close_update now delay protocol at key contact c) = cy_attempt_count c"
  "cy_warning_count (close_update now delay protocol at key contact c) = cy_warning_count c"
  "cy_transient_retry_count (close_update now delay protocol at key contact c) = cy_transient_retry_count c"
  by (simp_all add: close_update_def)

lemma insert_cycle_error: "insert_cycle c db = (Inl e, db') \<Longrightarrow> \<not> (cycles_unique (cycles db @ [c]) \<and> list_all cycle_check (cycles db @ [c]))"
  by (auto simp: insert_cycle_def commit_cycles_def split: if_splits)

lemma create_open_cycle_tx_inv:
  assumes "cycle_inv db"
  shows "cycle_inv (snd (create_open_cycle_tx now uuid conv at key strategy contact db))"
proof (cases "find (\<lambda>c. cy_open_event_key c = Some key) (cycles db)")
  case (Some d)
  then show ?thesis using assms by (simp add: create_open_cycle_tx_def Let_def)
next
  case nodup: None
  show ?thesis
  proof (cases "find_open_cycle conv (cycles db)")
    case None
    let ?c = "(new_cycle (next_cycle_id db) uuid conv (next_sequence conv (cycles db)) strategy now)
      \<lparr>cy_cycle_started_at := Some at, cy_open_event_key := Some key, cy_contact_external_id := contact\<rparr>"
    obtain res db1 where ins: "insert_cycle ?c db = (res, db1)" by fastforce
    show ?thesis
    proof (cases res)
      case (Inl e)
      then show ?thesis using nodup None ins assms by (simp add: create_open_cycle_tx_def Let_def)
    next
      case (Inr u)
      have "cycle_inv db1"
        by (rule insert_cycle_inv[OF assms ins[unfolded Inr]]) (simp_all add: close_key_ok_def)
      then show ?thesis using nodup None ins Inr by (simp add: create_open_cycle_tx_def Let_def)
    qed
  next
    case (Some e)
    let ?f = "\<lambda>c. c\<lparr>cy_contact_external_id := coalesce_opt (cy_contact_external_id c) contact, cy_updated_at := now\<rparr>"
    obtain res db1 where c: "commit_cycles (update_where (\<lambda>c. cy_public_id c = cy_public_id e) ?f (cycles db)) () db = (res, db1)"
      by fastforce
    have "cycle_inv db1" by (rule commit_update_inv[OF assms c]) (simp add: close_key_ok_def)
    then show ?thesis using nodup Some assms c
      by (cases res) (simp_all add: create_open_cycle_tx_def Let_def)
  qed
qed

lemma close_cycle_tx_inv:
  assumes "cycle_inv db"
  shows "cycle_inv (snd (close_cycle_tx now delay uuid conv protocol at key fallback contact db))"
proof (cases "find (\<lambda>c. cy_close_event_key c = Some key) (cycles db)")
  case (Some d)
  then show ?thesis using assms by (simp add: close_cycle_tx_def)
next
  case nodup: None
  show ?thesis
  proof (cases "find_open_cycle conv (cycles db)")
    case None
    let ?c = "close_update now delay protocol at key contact
      (new_cycle (next_cycle_id db) uuid conv (next_sequence conv (cycles db)) fallback now)"
    obtain res db1 where ins: "insert_cycle ?c db = (res, db1)" by fastforce
    show ?thesis
    proof (cases res)
      case (Inl e)
      then show ?thesis using nodup None ins assms by (simp add: close_cycle_tx_def)
    next
      case (Inr u)
      have "cycle_inv db1"
        by (rule insert_cycle_inv[OF assms ins[unfolded Inr]]) (simp_all add: close_key_ok_def)
      then show ?thesis using nodup None ins Inr by (simp add: close_cycle_tx_def)
    qed
  next
    case (Some opened)
    obtain res db1 where c: "commit_cycles (update_where (\<lambda>c. cy_id c = cy_id opened)
        (close_update now delay protocol at key contact) (cycles db)) () db = (res, db1)"
      by fastforce
    have "cycle_inv db1" by (rule commit_update_inv[OF assms c]) (simp add: close_key_ok_def)
    then show ?thesis using nodup Some c by (cases res) (simp_all add: close_cycle_tx_def)
  qed
qed

lemma assign_field_keys [simp]:
  "cy_id (assign_field x c) = cy_id c"
  "cy_public_id (assign_field x c) = cy_public_id c"
  "cy_conversation_id (assign_field x c) = cy_conversation_id c"
  "cy_sequence_number (assign_field x c) = cy_sequence_number c"
  "cy_ticket_closed_at (assign_field x c) = cy_ticket_closed_at c"
  "cy_open_event_key (assign_field x c) = cy_open_event_key c"
  "cy_close_event_key (assign_field x c) = cy_close_event_key c"
  "cy_status (assign_field x c) = cy_status c"
  by (cases x; simp)+

lemma fold_assign_keys [simp]:
  "cy_id (fold assign_field xs c) = cy_id c"
  "cy_public_id (fold assign_field xs c) = cy_public_id c"
  "cy_conversation_id (fold assign_field xs c) = cy_conversation_id c"
  "cy_sequence_number (fold assign_field xs c) = cy_sequence_number c"
  "cy_ticket_closed_at (fold assign_field xs c) = cy_ticket_closed_at c"
  "cy_open_event_key (fold assign_field xs c) = cy_open_event_key c"
  "cy_close_event_key (fold assign_field xs c) = cy_close_event_key c"
  "cy_status (fold assign_field xs c) = cy_status c"
  by (induction xs arbitrary: c; simp)+

lemma transition_update_keys [simp]:
  "cy_id (transition_update now st xs c) = cy_id c"
  "cy_public_id (transition_update now st xs c) = cy_public_id c"
  "cy_conversation_id (transition_update now st xs c) = cy_conversation_id c"
  "cy_sequence_number (transition_update now st xs c) = cy_sequence_number c"
  "cy_ticket_closed_at (transition_update now st xs c) = cy_ticket_closed_at c"
  "cy_open_event_key (transition_update now st xs c) = cy_open_event_key c"
  "cy_close_event_key (transition_update now st xs c) = cy_close_event_key c"
  "cy_status (transition_update now st xs c) = st"
  by (simp_all add: transition_update_def)

lemma transition_cycle_tx_inv:
  assumes "cycle_inv db"
  shows "cycle_inv (snd (transition_cycle_tx now public_id status expected xs db))"
proof (cases "parse_cycle_status status")
  case None
  then show ?thesis using assms by (simp add: transition_cycle_tx_def)
next
  case (Some st)
  let ?m = "transition_matches public_id expected"
  obtain res db1 where c: "commit_cycles (update_where ?m (transition_update now st xs) (cycles db))
      (map_option (transition_update now st xs) (find ?m (cycles db))) db = (res, db1)"
    by fastforce
  have "cycle_inv db1" by (rule commit_update_inv[OF assms c]) (simp add: close_key_ok_def)
  then show ?thesis using Some c assms by (simp add: transition_cycle_tx_def)
qed

section \<open>Message membership\<close>

definition loop_ok :: "int \<Rightarrow> nat \<Rightarrow> cycle_message list \<Rightarrow> bool" where
  "loop_ok cid position rows \<longleftrightarrow>
    distinct (map cm_message_id rows) \<and> distinct (map (\<lambda>m. (cm_cycle_id m, cm_position m)) rows) \<and>
    (\<forall>m \<in> set rows. cm_cycle_id m = cid \<longrightarrow> cm_position m < position)"

definition others :: "int \<Rightarrow> cycle_message list \<Rightarrow> cycle_message list" where
  "others cid rows = filter (\<lambda>m. cm_cycle_id m \<noteq> cid) rows"

definition own_ids :: "int \<Rightarrow> cycle_message list \<Rightarrow> string set" where
  "own_ids cid rows = set (map cm_message_id (filter (\<lambda>m. cm_cycle_id m = cid) rows))"

lemma message_row_simps [simp]:
  "cm_cycle_id (message_row now cid position m) = cid"
  "cm_message_id (message_row now cid position m) = hm_message_id m"
  "cm_position (message_row now cid position m) = position"
  "cm_message_type (message_row now cid position m) = hm_type m"
  "cm_message_timestamp (message_row now cid position m) = hm_timestamp m"
  by (simp_all add: message_row_def)

lemma owned_elsewhere_iff:
  "distinct (map cm_message_id rows) \<Longrightarrow>
    owned_elsewhere cid mid rows \<longleftrightarrow> mid \<in> cm_message_id ` set (others cid rows)"
proof (cases "lookup_by cm_message_id mid rows")
  case None
  then have "mid \<notin> cm_message_id ` set rows" by (simp add: lookup_by_None)
  then show ?thesis using None by (auto simp: owned_elsewhere_def others_def)
next
  case (Some r)
  assume d: "distinct (map cm_message_id rows)"
  have r: "r \<in> set rows" "cm_message_id r = mid" using lookup_by_Some[OF Some] by simp_all
  have "mid \<in> cm_message_id ` set (others cid rows) \<longleftrightarrow> cm_cycle_id r \<noteq> cid"
  proof
    assume "mid \<in> cm_message_id ` set (others cid rows)"
    then obtain s where s: "mid = cm_message_id s" "s \<in> set rows" "cm_cycle_id s \<noteq> cid"
      by (auto simp: others_def)
    then have "s = r" using distinct_key_eq[OF d s(2) r(1)] r(2) by simp
    then show "cm_cycle_id r \<noteq> cid" using s(3) by simp
  next
    assume "cm_cycle_id r \<noteq> cid"
    then have "r \<in> set (others cid rows)" using r(1) by (simp add: others_def)
    then show "mid \<in> cm_message_id ` set (others cid rows)" unfolding r(2)[symmetric] by (rule imageI)
  qed
  then show ?thesis using Some by (simp add: owned_elsewhere_def)
qed

lemma upsert_message_ok:
  assumes "loop_ok cid position rows" and "\<not> owned_elsewhere cid (hm_message_id m) rows"
  shows "loop_ok cid (Suc position) (upsert_message (message_row now cid position m) rows)"
    and "others cid (upsert_message (message_row now cid position m) rows) = others cid rows"
    and "own_ids cid (upsert_message (message_row now cid position m) rows) =
      insert (hm_message_id m) (own_ids cid rows)"
proof -
  let ?row = "message_row now cid position m"
  let ?P = "\<lambda>x. cm_cycle_id x = cid \<and> cm_message_id x = hm_message_id m"
  let ?f = "\<lambda>x. x\<lparr>cm_position := cm_position ?row, cm_message_type := cm_message_type ?row,
    cm_message_timestamp := cm_message_timestamp ?row\<rparr>"
  have d: "distinct (map cm_message_id rows)" and bound: "\<forall>m \<in> set rows. cm_cycle_id m = cid \<longrightarrow> cm_position m < position"
    and dp: "distinct (map (\<lambda>m. (cm_cycle_id m, cm_position m)) rows)"
    using assms(1) by (simp_all add: loop_ok_def)
  have dr: "distinct rows" using d by (simp add: distinct_map)
  have noother: "hm_message_id m \<notin> cm_message_id ` set (others cid rows)"
    using assms(2) owned_elsewhere_iff[OF d] by simp
  show "loop_ok cid (Suc position) (upsert_message ?row rows)"
  proof (cases "list_ex ?P rows")
    case True
    have "distinct (map (\<lambda>m. (cm_cycle_id m, cm_position m)) (update_where ?P ?f rows))"
    proof (rule distinct_map_update_where[OF dr])
      fix x y assume xy: "x \<in> set rows" "y \<in> set rows" "x \<noteq> y"
      have "cm_message_id x \<noteq> cm_message_id y" using distinct_key_eq[OF d] xy by blast
      moreover have "(cm_cycle_id x, cm_position x) \<noteq> (cm_cycle_id y, cm_position y)"
        using distinct_key_eq[OF dp] xy by blast
      ultimately show "(\<lambda>m. (cm_cycle_id m, cm_position m)) (if ?P x then ?f x else x) \<noteq>
          (\<lambda>m. (cm_cycle_id m, cm_position m)) (if ?P y then ?f y else y)"
        using bound xy by (auto simp: less_le)
    qed
    then show ?thesis
      using True d bound
      by (auto simp: upsert_message_def loop_ok_def map_update_where less_Suc_eq elim!: update_whereE)
  next
    case False
    then have "hm_message_id m \<notin> cm_message_id ` set rows"
      using noother by (auto simp: list_ex_iff others_def)
    then show ?thesis
      using False d dp bound by (auto simp: upsert_message_def loop_ok_def less_Suc_eq)
  qed
  have "others cid (update_where ?P ?f rows) = others cid rows"
    unfolding others_def by (induction rows) auto
  then show "others cid (upsert_message ?row rows) = others cid rows"
    by (simp add: upsert_message_def others_def)
  have "map cm_message_id (filter (\<lambda>m. cm_cycle_id m = cid) (update_where ?P ?f rows)) =
      map cm_message_id (filter (\<lambda>m. cm_cycle_id m = cid) rows)"
    by (induction rows) simp_all
  then have "own_ids cid (update_where ?P ?f rows) = own_ids cid rows"
    by (simp only: own_ids_def)
  moreover have "hm_message_id m \<in> own_ids cid rows" if "list_ex ?P rows"
    using that by (force simp: own_ids_def list_ex_iff)
  ultimately show "own_ids cid (upsert_message ?row rows) = insert (hm_message_id m) (own_ids cid rows)"
    by (cases "list_ex ?P rows") (simp_all add: upsert_message_def insert_absorb, simp add: own_ids_def)
qed

lemma save_messages_loop_ok:
  assumes "save_messages_loop now cid position ms rows = Inr (acc, conf, rows')"
    and "loop_ok cid position rows"
  shows "(\<exists>n. loop_ok cid n rows') \<and> others cid rows' = others cid rows \<and>
    own_ids cid rows' = own_ids cid rows \<union> set acc \<and>
    conf = filter (\<lambda>i. i \<in> cm_message_id ` set (others cid rows)) (map hm_message_id ms) \<and>
    acc = filter (\<lambda>i. i \<notin> cm_message_id ` set (others cid rows)) (map hm_message_id ms)"
  using assms
proof (induction ms arbitrary: position rows acc conf)
  case Nil
  then show ?case by auto
next
  case (Cons m ms)
  have d: "distinct (map cm_message_id rows)" using Cons.prems(2) by (simp add: loop_ok_def)
  have up: "loop_ok cid (Suc position) rows" using Cons.prems(2) by (auto simp: loop_ok_def)
  show ?case
  proof (cases "owned_elsewhere cid (hm_message_id m) rows")
    case True
    then obtain conf' where rec: "save_messages_loop now cid (Suc position) ms rows = Inr (acc, conf', rows')"
      and conf: "conf = hm_message_id m # conf'"
      using Cons.prems(1) by (auto split: sum.splits)
    show ?thesis
      using Cons.IH[OF rec up] conf True owned_elsewhere_iff[OF d, of cid "hm_message_id m"] by simp
  next
    case False
    let ?rows = "upsert_message (message_row now cid position m) rows"
    obtain acc' where rec: "save_messages_loop now cid (Suc position) ms ?rows = Inr (acc', conf, rows')"
      and acc: "acc = hm_message_id m # acc'"
      using Cons.prems(1) False by (auto split: sum.splits if_splits)
    note u = upsert_message_ok[OF Cons.prems(2) False, of now]
    show ?thesis
      using Cons.IH[OF rec u(1)] u(2,3) acc False owned_elsewhere_iff[OF d, of cid "hm_message_id m"]
      by simp
  qed
qed

lemma save_messages_loop_rows:
  assumes "save_messages_loop now cid position ms rows = Inr (acc, conf, rows')"
  shows "cm_cycle_id ` set rows' \<subseteq> insert cid (cm_cycle_id ` set rows)"
  using assms
proof (induction ms arbitrary: position rows acc conf)
  case (Cons m ms)
  have up: "cm_cycle_id ` set (upsert_message (message_row now cid position m) rows)
      \<subseteq> insert cid (cm_cycle_id ` set rows)"
    by (auto simp: upsert_message_def elim!: update_whereE)
  show ?case
  proof (cases "owned_elsewhere cid (hm_message_id m) rows")
    case True
    then obtain conf' where "save_messages_loop now cid (Suc position) ms rows = Inr (acc, conf', rows')"
      using Cons.prems by (auto split: sum.splits)
    then show ?thesis by (rule Cons.IH)
  next
    case False
    then obtain acc' where "save_messages_loop now cid (Suc position) ms
        (upsert_message (message_row now cid position m) rows) = Inr (acc', conf, rows')"
      using Cons.prems by (auto split: sum.splits if_splits)
    from Cons.IH[OF this] show ?thesis using up by blast
  qed
qed auto

lemma loop_ok_start:
  assumes "messages_ok rows ms"
  shows "loop_ok cid 0 (filter (\<lambda>m. cm_cycle_id m \<noteq> cid) ms)"
  using assms by (auto simp: messages_ok_def loop_ok_def distinct_map_filter)

lemma save_cycle_messages_inv:
  assumes "cycle_inv db"
  shows "cycle_inv (snd (save_cycle_messages now public_id ms db))"
proof (cases "has_cycle_schema db")
  case False
  then show ?thesis using assms by (simp add: save_cycle_messages_def with_cycle_schema_def)
next
  case True
  show ?thesis
  proof (cases "cycle_row public_id db")
    case None
    then show ?thesis using True assms by (simp add: save_cycle_messages_def with_cycle_schema_def)
  next
    case (Some c)
    let ?rows = "filter (\<lambda>m. cm_cycle_id m \<noteq> cy_id c) (cycle_messages db)"
    have ok: "messages_ok (cycles db) (cycle_messages db)" using assms by (simp add: cycle_inv_def)
    have c: "c \<in> set (cycles db)" using Some by (auto simp: cycle_row_def dest: lookup_by_Some)
    show ?thesis
    proof (cases "save_messages_loop now (cy_id c) 0 ms ?rows")
      case (Inl e)
      then show ?thesis using True Some assms
        by (simp add: save_cycle_messages_def with_cycle_schema_def)
    next
      case (Inr t)
      obtain acc conf rows' where t: "t = (acc, conf, rows')" by (cases t)
      note loop = Inr[unfolded t]
      have "cm_cycle_id ` set rows' \<subseteq> cy_id ` set (cycles db)"
        using save_messages_loop_rows[OF loop] ok c by (auto simp: messages_ok_def)
      moreover have "\<exists>n. loop_ok (cy_id c) n rows'"
        using save_messages_loop_ok[OF loop loop_ok_start[OF ok]] by blast
      ultimately have "messages_ok (cycles db) rows'" by (auto simp: messages_ok_def loop_ok_def)
      then show ?thesis using True Some Inr t assms
        by (simp add: save_cycle_messages_def with_cycle_schema_def cycle_inv_def)
    qed
  qed
qed

end
