(* ===== verification/Cycle_Correctness.thy ===== *)
theory Cycle_Correctness
  imports Conversation_Cycles
begin

text \<open>
  Correctness of the conversation cycles: the operations of the repository as one step function,
  the states it reaches, what every step keeps of a cycle, the cycle table as an instance of
  \<open>leased_work\<close>, and the properties of opening, closing, claiming, waking and message membership.
\<close>

section \<open>Steps\<close>

datatype cycle_op =
    Open_Ticket string string time string string "string option"
  | Close_Ticket int string string string time string string "string option"
  | Transition string string "cycle_status list" "cycle_field list"
  | Claim_One string string int
  | Claim_Next "int set" string int
  | Publish_Recoverable "int set" int int
  | Release_Publication string
  | Wake_Blocked "int set" int int media_db
  | Save_Messages string "history_message list"

fun cycle_step :: "time \<Rightarrow> cycle_op \<Rightarrow> cycle_db \<Rightarrow> cycle_db" where
  "cycle_step now (Open_Ticket uuid conv started_at key strategy contact) db =
     snd (create_open_cycle now uuid conv started_at key strategy contact db)"
| "cycle_step now (Close_Ticket delay uuid conv protocol closed_at key fallback contact) db =
     snd (close_cycle now delay uuid conv protocol closed_at key fallback contact db)"
| "cycle_step now (Transition public_id status expected assigns) db =
     snd (transition_cycle now public_id status expected assigns db)"
| "cycle_step now (Claim_One public_id owner lease) db =
     snd (claim_cycle now public_id owner lease db)"
| "cycle_step now (Claim_Next locked owner lease) db =
     snd (claim_next_cycle now locked owner lease db)"
| "cycle_step now (Publish_Recoverable locked lease limit) db =
     snd (get_recoverable_cycles now locked lease limit db)"
| "cycle_step now (Release_Publication public_id) db =
     snd (release_cycle_publication now public_id db)"
| "cycle_step now (Wake_Blocked locked max_attempts limit media) db =
     snd (wake_unblocked_media_cycles now locked max_attempts limit media db)"
| "cycle_step now (Save_Messages public_id messages) db =
     snd (save_cycle_messages now public_id messages db)"

inductive cycle_reachable :: "cycle_db \<Rightarrow> bool" where
  cycle_empty: "cycle_reachable empty_cycle_db"
| cycle_next: "cycle_reachable db \<Longrightarrow> cycle_reachable (cycle_step now x db)"

fun cycle_run :: "(time \<times> cycle_op) list \<Rightarrow> cycle_db \<Rightarrow> cycle_db" where
  "cycle_run [] db = db"
| "cycle_run ((now, x) # ops) db = cycle_run ops (cycle_step now x db)"

lemma with_cycle_schema_inv:
  "cycle_inv db \<Longrightarrow> (cycle_inv db \<Longrightarrow> cycle_inv (snd (f db))) \<Longrightarrow> cycle_inv (snd (with_cycle_schema f db))"
  by (simp add: with_cycle_schema_def)

lemma claim_next_cycle_tx_db:
  "\<exists>P. snd (claim_next_cycle_tx now locked owner lease db) =
    db\<lparr>cycles := update_where P (claimed_cycle now owner lease) (cycles db)\<rparr>"
proof (cases "fetchone (select_limit 1 cycle_order
    (\<lambda>c. cycle_claimable now c \<and> cy_id c \<notin> locked) (cycles db))")
  case None
  then have "snd (claim_next_cycle_tx now locked owner lease db) =
      db\<lparr>cycles := update_where (\<lambda>_. False) (claimed_cycle now owner lease) (cycles db)\<rparr>"
    by (simp only: claim_next_cycle_tx_def option.case snd_conv) (simp add: update_where_none)
  then show ?thesis by blast
next
  case (Some c)
  then show ?thesis by (auto simp: claim_next_cycle_tx_def)
qed

lemma cycle_step_inv: "cycle_inv db \<Longrightarrow> cycle_inv (cycle_step now x db)"
proof (cases x)
  case (Open_Ticket uuid conv started key strategy contact)
  assume "cycle_inv db"
  then show ?thesis
    using Open_Ticket create_open_cycle_tx_inv
    by (auto simp: create_open_cycle_def intro!: with_cycle_schema_inv split: sum.split)
next
  case (Close_Ticket delay uuid conv protocol closed key fallback contact)
  assume "cycle_inv db"
  then show ?thesis
    using Close_Ticket close_cycle_tx_inv
    by (auto simp: close_cycle_def intro!: with_cycle_schema_inv split: sum.split)
next
  case (Transition public_id status expected assigns)
  assume "cycle_inv db"
  then show ?thesis
    using Transition transition_cycle_tx_inv
    by (auto simp: transition_cycle_def intro!: with_cycle_schema_inv)
next
  case (Claim_One public_id owner lease)
  assume "cycle_inv db"
  then show ?thesis
    using Claim_One by (auto simp: claim_cycle_def Let_def intro!: with_cycle_schema_inv inv_same_keys)
next
  case (Claim_Next locked owner lease)
  assume "cycle_inv db"
  then show ?thesis
    using Claim_Next claim_next_cycle_tx_db[of now locked owner lease db]
    by (auto simp: claim_next_cycle_def case_prod_beta intro!: with_cycle_schema_inv inv_same_keys)
next
  case (Publish_Recoverable locked lease limit)
  assume "cycle_inv db"
  then show ?thesis
    using Publish_Recoverable
    by (auto simp: get_recoverable_cycles_def Let_def intro!: with_cycle_schema_inv inv_same_keys)
next
  case (Release_Publication public_id)
  assume "cycle_inv db"
  then show ?thesis
    using Release_Publication
    by (auto simp: release_cycle_publication_def Let_def intro!: with_cycle_schema_inv inv_same_keys)
next
  case (Wake_Blocked locked max_attempts limit media)
  assume "cycle_inv db"
  then show ?thesis
    using Wake_Blocked
    by (auto simp: wake_unblocked_media_cycles_def Let_def intro!: with_cycle_schema_inv inv_same_keys)
next
  case (Save_Messages public_id messages)
  assume "cycle_inv db"
  then show ?thesis using Save_Messages save_cycle_messages_inv by simp
qed

lemma cycle_inv_empty: "cycle_inv empty_cycle_db"
  by (simp add: cycle_inv_def empty_cycle_db_def numbered_def seqs_of_def messages_ok_def)

lemma cycle_inv_reachable: "cycle_reachable db \<Longrightarrow> cycle_inv db"
  by (induction rule: cycle_reachable.induct) (simp_all add: cycle_inv_empty cycle_step_inv)

lemma cycle_run_inv: "cycle_inv db \<Longrightarrow> cycle_inv (cycle_run ops db)"
  by (induction ops db rule: cycle_run.induct) (simp_all add: cycle_step_inv)

section \<open>What every step keeps of a cycle\<close>

definition persists :: "cycle \<Rightarrow> cycle \<Rightarrow> bool" where
  "persists c d \<longleftrightarrow>
    cy_id d = cy_id c \<and> cy_public_id d = cy_public_id c \<and>
    cy_conversation_id d = cy_conversation_id c \<and> cy_sequence_number d = cy_sequence_number c \<and>
    cy_open_event_key d = cy_open_event_key c \<and>
    (cy_ticket_closed_at c \<noteq> None \<longrightarrow>
      cy_ticket_closed_at d = cy_ticket_closed_at c \<and> cy_close_event_key d = cy_close_event_key c)"

definition kept :: "cycle_db \<Rightarrow> cycle_db \<Rightarrow> bool" where
  "kept db db' \<longleftrightarrow> (\<forall>c \<in> set (cycles db). \<exists>d \<in> set (cycles db'). persists c d)"

lemma persists_refl [simp]: "persists c c"
  by (simp add: persists_def)

lemma persists_trans: "persists c d \<Longrightarrow> persists d e \<Longrightarrow> persists c e"
  by (auto simp: persists_def)

lemma kept_refl [simp]: "kept db db"
  by (auto simp: kept_def intro: persists_refl)

lemma kept_trans: "kept a b \<Longrightarrow> kept b c \<Longrightarrow> kept a c"
  unfolding kept_def by (meson persists_trans)

lemma same_keys_persists: "same_keys d c \<Longrightarrow> persists c d"
  by (simp add: same_keys_def persists_def)

lemma kept_update:
  assumes "cycles db' = update_where P f (cycles db)"
    and "\<And>c. c \<in> set (cycles db) \<Longrightarrow> P c \<Longrightarrow> persists c (f c)"
  shows "kept db db'"
proof -
  have "\<exists>d \<in> set (cycles db'). persists c d" if c: "c \<in> set (cycles db)" for c
  proof (cases "P c")
    case True
    then show ?thesis using assms(2)[OF c] update_where_changed[of c "cycles db" P f] c assms(1) by auto
  next
    case False
    then have "c \<in> set (cycles db')" using update_where_same[OF c] assms(1) by simp
    then show ?thesis using persists_refl by blast
  qed
  then show ?thesis by (simp add: kept_def)
qed

lemma kept_append: "cycles db' = cycles db @ [c] \<Longrightarrow> kept db db'"
  by (auto simp: kept_def intro: persists_refl)

lemma commit_kept:
  assumes "\<And>c. c \<in> set (cycles db) \<Longrightarrow> P c \<Longrightarrow> persists c (f c)"
  shows "kept db (snd (commit_cycles (update_where P f (cycles db)) x db))"
  using kept_update[OF _ assms] by (simp add: commit_cycles_def)

lemma insert_kept: "kept db (snd (insert_cycle c db))"
  by (simp add: insert_cycle_def commit_cycles_def kept_def) (metis UnI1 persists_refl)

lemma with_cycle_schema_kept: "kept db (snd (f db)) \<Longrightarrow> kept db (snd (with_cycle_schema f db))"
  by (simp add: with_cycle_schema_def)

lemma find_open_cycle_Some:
  "find_open_cycle conv rows = Some c \<Longrightarrow>
    c \<in> set rows \<and> cy_conversation_id c = conv \<and> cy_ticket_closed_at c = None"
  by (auto simp: find_open_cycle_def find_Some_iff)

lemma find_open_cycle_None:
  "find_open_cycle conv rows = None \<longleftrightarrow>
    (\<forall>c \<in> set rows. cy_conversation_id c = conv \<longrightarrow> cy_ticket_closed_at c \<noteq> None)"
  by (auto simp: find_open_cycle_def find_None_iff)

lemma create_open_cycle_tx_kept:
  "kept db (snd (create_open_cycle_tx now uuid conv at key strategy contact db))"
proof (cases "find (\<lambda>c. cy_open_event_key c = Some key) (cycles db)")
  case (Some d)
  then show ?thesis by (simp add: create_open_cycle_tx_def Let_def)
next
  case nodup: None
  show ?thesis
  proof (cases "find_open_cycle conv (cycles db)")
    case None
    let ?c = "(new_cycle (next_cycle_id db) uuid conv (next_sequence conv (cycles db)) strategy now)
      \<lparr>cy_cycle_started_at := Some at, cy_open_event_key := Some key, cy_contact_external_id := contact\<rparr>"
    obtain res db1 where ins: "insert_cycle ?c db = (res, db1)" by fastforce
    then have "kept db db1" using insert_kept[of db ?c] by simp
    then show ?thesis using nodup None ins
      by (cases res) (simp_all add: create_open_cycle_tx_def Let_def)
  next
    case (Some e)
    let ?f = "\<lambda>c. c\<lparr>cy_contact_external_id := coalesce_opt (cy_contact_external_id c) contact, cy_updated_at := now\<rparr>"
    obtain res db1 where c: "commit_cycles (update_where (\<lambda>c. cy_public_id c = cy_public_id e) ?f (cycles db)) () db = (res, db1)"
      by fastforce
    have "kept db (snd (commit_cycles (update_where (\<lambda>c. cy_public_id c = cy_public_id e) ?f (cycles db)) () db))"
      by (rule commit_kept) (simp add: persists_def)
    then show ?thesis using nodup Some c
      by (cases res) (simp_all add: create_open_cycle_tx_def Let_def)
  qed
qed

lemma close_cycle_tx_kept:
  assumes "cycle_inv db"
  shows "kept db (snd (close_cycle_tx now delay uuid conv protocol at key fallback contact db))"
proof (cases "find (\<lambda>c. cy_close_event_key c = Some key) (cycles db)")
  case (Some d)
  then show ?thesis by (simp add: close_cycle_tx_def)
next
  case nodup: None
  show ?thesis
  proof (cases "find_open_cycle conv (cycles db)")
    case None
    let ?c = "close_update now delay protocol at key contact
      (new_cycle (next_cycle_id db) uuid conv (next_sequence conv (cycles db)) fallback now)"
    obtain res db1 where ins: "insert_cycle ?c db = (res, db1)" by fastforce
    then have "kept db db1" using insert_kept[of db ?c] by simp
    then show ?thesis using nodup None ins by (cases res) (simp_all add: close_cycle_tx_def)
  next
    case (Some opened)
    let ?P = "\<lambda>c. cy_id c = cy_id opened" and ?f = "close_update now delay protocol at key contact"
    obtain res db1 where c: "commit_cycles (update_where ?P ?f (cycles db)) () db = (res, db1)"
      by fastforce
    have "persists d (?f d)" if d: "d \<in> set (cycles db)" "cy_id d = cy_id opened" for d
    proof -
      have "distinct (map cy_id (cycles db))" using assms by (simp add: cycle_inv_def cycles_unique_def)
      moreover have op: "opened \<in> set (cycles db)" "cy_ticket_closed_at opened = None"
        using find_open_cycle_Some[OF Some] by simp_all
      ultimately have "d = opened" using distinct_key_eq d by metis
      then show ?thesis using op by (simp add: persists_def)
    qed
    then have "kept db (snd (commit_cycles (update_where ?P ?f (cycles db)) () db))" by (rule commit_kept)
    then show ?thesis using nodup Some c by (cases res) (simp_all add: close_cycle_tx_def)
  qed
qed

lemma transition_cycle_tx_kept: "kept db (snd (transition_cycle_tx now public_id status expected xs db))"
  by (auto simp: transition_cycle_tx_def persists_def intro!: commit_kept split: option.split)

lemma cycle_step_kept: "cycle_inv db \<Longrightarrow> kept db (cycle_step now x db)"
proof (cases x)
  case (Open_Ticket uuid conv started key strategy contact)
  then show ?thesis
    using create_open_cycle_tx_kept
    by (auto simp: create_open_cycle_def intro!: with_cycle_schema_kept split: sum.split)
next
  case (Close_Ticket delay uuid conv protocol closed key fallback contact)
  assume "cycle_inv db"
  then show ?thesis
    using Close_Ticket close_cycle_tx_kept
    by (auto simp: close_cycle_def intro!: with_cycle_schema_kept split: sum.split)
next
  case (Transition public_id status expected assigns)
  then show ?thesis
    using transition_cycle_tx_kept by (auto simp: transition_cycle_def intro!: with_cycle_schema_kept)
next
  case (Claim_Next locked owner lease)
  obtain P where "snd (claim_next_cycle_tx now locked owner lease db) =
      db\<lparr>cycles := update_where P (claimed_cycle now owner lease) (cycles db)\<rparr>"
    using claim_next_cycle_tx_db by blast
  then have "kept db (snd (claim_next_cycle_tx now locked owner lease db))"
    using kept_update[of _ P "claimed_cycle now owner lease" db] by (simp add: same_keys_persists)
  then show ?thesis
    using Claim_Next by (simp add: claim_next_cycle_def case_prod_beta with_cycle_schema_kept)
next
  case (Save_Messages public_id messages)
  have "cycles (snd (save_cycle_messages now public_id messages db)) = cycles db"
    by (auto simp: save_cycle_messages_def with_cycle_schema_def split: option.split sum.split)
  then show ?thesis using Save_Messages by (auto simp: kept_def intro: persists_refl)
qed (auto simp: claim_cycle_def get_recoverable_cycles_def release_cycle_publication_def
    wake_unblocked_media_cycles_def Let_def intro!: with_cycle_schema_kept kept_update same_keys_persists)

lemma cycle_run_kept: "cycle_inv db \<Longrightarrow> kept db (cycle_run ops db)"
proof (induction ops db rule: cycle_run.induct)
  case (2 now x ops db)
  then show ?case
    using cycle_step_kept[of db now x] cycle_step_inv[of db now x] kept_trans by fastforce
qed simp

section \<open>The cycle table as leased work\<close>

lemma claim_next_cycle_tx_Some:
  assumes "claim_next_cycle_tx now locked owner lease db = (Some r, db')"
  obtains c where "c \<in> set (cycles db)" "cycle_claimable now c" "cy_id c \<notin> locked"
    "r = claimed_cycle now owner lease c"
    "db' = db\<lparr>cycles := update_where (\<lambda>x. cy_id x = cy_id c) (claimed_cycle now owner lease) (cycles db)\<rparr>"
    "\<And>x. x \<in> set (cycles db) \<Longrightarrow> cycle_claimable now x \<Longrightarrow> cy_id x \<notin> locked \<Longrightarrow>
      cycle_order c \<le> cycle_order x"
proof -
  let ?P = "\<lambda>c. cycle_claimable now c \<and> cy_id c \<notin> locked"
  obtain c where c: "fetchone (select_limit 1 cycle_order ?P (cycles db)) = Some c"
    and "r = claimed_cycle now owner lease c"
    and "db' = db\<lparr>cycles := update_where (\<lambda>x. cy_id x = cy_id c) (claimed_cycle now owner lease) (cycles db)\<rparr>"
    using assms by (auto simp: claim_next_cycle_tx_def split: option.splits)
  with select_limit_1_min[OF c] that show ?thesis by blast
qed

lemma claim_next_cycle_tx_None:
  assumes "claim_next_cycle_tx now locked owner lease db = (None, db')"
  shows "db' = db \<and> (\<forall>x \<in> set (cycles db). cy_id x \<notin> locked \<longrightarrow> \<not> cycle_claimable now x)"
  using assms by (auto simp: claim_next_cycle_tx_def split: option.splits)

lemma claimed_cycle_simps [simp]:
  "cy_id (claimed_cycle now owner lease c) = cy_id c"
  "cy_status (claimed_cycle now owner lease c) = cy_status c"
  "cy_lease_owner (claimed_cycle now owner lease c) = Some owner"
  "cy_lease_expires_at (claimed_cycle now owner lease c) = Some (now + seconds lease)"
  by (simp_all add: claimed_cycle_def)

interpretation cycle_work: leased_work cycles cy_id cycle_claimable claim_next_cycle_tx "\<lambda>_ _. True"
proof unfold_locales
  fix db db' now locked owner lease r
  assume d: "distinct (map cy_id (cycles db))"
    and c: "claim_next_cycle_tx now locked owner lease db = (Some r, db')"
  obtain c0 where c0: "c0 \<in> set (cycles db)" "cycle_claimable now c0" "cy_id c0 \<notin> locked"
    "r = claimed_cycle now owner lease c0"
    "db' = db\<lparr>cycles := update_where (\<lambda>x. cy_id x = cy_id c0) (claimed_cycle now owner lease) (cycles db)\<rparr>"
    using claim_next_cycle_tx_Some[OF c] by metis
  have "update_where (\<lambda>x. cy_id x = cy_id c0) (claimed_cycle now owner lease) (cycles db) =
      update_where (\<lambda>x. cy_id x = cy_id r) (\<lambda>_. r) (cycles db)"
    unfolding update_where_def using c0(1,4) distinct_key_eq[OF d] by (auto intro!: map_cong)
  then show "\<exists>r0 \<in> set (cycles db). cy_id r0 = cy_id r \<and> cycle_claimable now r0 \<and>
      cy_id r0 \<notin> locked \<and> cycles db' = update_where (\<lambda>x. cy_id x = cy_id r) (\<lambda>_. r) (cycles db)"
    using c0 by (intro bexI[of _ c0]) auto
  show "\<not> cycle_claimable t r" if "t < now + seconds lease" for t
    using c0(4) that by (simp add: cycle_claimable_def)
next
  fix db db' now locked owner lease
  assume "claim_next_cycle_tx now locked owner lease db = (None, db')"
  then show "cycles db' = cycles db" using claim_next_cycle_tx_None by blast
next
  fix db db' now locked owner lease and r :: cycle
  assume "claim_next_cycle_tx now locked owner lease db = (None, db')" "r \<in> set (cycles db)" "cy_id r \<notin> locked"
  then show "\<not> cycle_claimable now r" using claim_next_cycle_tx_None by blast
qed

section \<open>Properties\<close>

definition sample_ops :: "(time \<times> cycle_op) list" where
  "sample_ops =
    [(10, Open_Ticket ''u1'' ''conv'' 5 ''open-1'' ''webhook'' None),
     (20, Close_Ticket 0 ''u2'' ''conv'' ''p1'' 18 ''close-1'' ''api'' (Some ''contact'')),
     (30, Open_Ticket ''u3'' ''conv'' 25 ''open-2'' ''webhook'' None)]"

definition sample_cycles :: cycle_db where
  "sample_cycles = cycle_run sample_ops empty_cycle_db"

lemma cycle_reachable_run: "cycle_reachable db \<Longrightarrow> cycle_reachable (cycle_run ops db)"
  by (induction ops db rule: cycle_run.induct) (simp_all add: cycle_next)

lemma sample_cycles_reachable: "cycle_reachable sample_cycles"
  unfolding sample_cycles_def by (rule cycle_reachable_run[OF cycle_empty])

lemma sample_cycles_rows:
  "map (\<lambda>c. (cy_id c, cy_public_id c, cy_sequence_number c, cy_status c)) (cycles sample_cycles) =
    [(1, ''u1'', 1, Cycle_Pending), (2, ''u3'', 2, Cycle_Open)]"
  by code_simp

lemma sample_cycles_keys:
  "map (\<lambda>c. (cy_open_event_key c, cy_close_event_key c)) (cycles sample_cycles) =
    [(Some ''open-1'', Some ''close-1''), (Some ''open-2'', None)]"
  by code_simp

lemma sample_cycles_schema: "has_cycle_schema sample_cycles"
  by code_simp

text \<open>C4: Whatever sequence of ticket events, transitions, claims, publications, wake-ups and
  message saves runs, the cycle table keeps its invariant: ids are unique, a conversation has at
  most one cycle whose ticket is open, the cycles of a conversation are numbered 1, 2, ... without
  gaps, an event key opens or closes at most one cycle, and a message belongs to at most one
  cycle, which exists.\<close>

theorem cycle_reachable_inv:
  assumes "cycle_reachable db"
  shows "distinct (map cy_id (cycles db)) \<and> distinct (map cy_public_id (cycles db)) \<and>
    (\<forall>c \<in> set (cycles db). \<forall>d \<in> set (cycles db).
      (cy_conversation_id c = cy_conversation_id d \<and> cy_ticket_closed_at c = None \<and>
         cy_ticket_closed_at d = None \<longrightarrow> c = d) \<and>
      (cy_open_event_key c = cy_open_event_key d \<and> cy_open_event_key c \<noteq> None \<longrightarrow> c = d) \<and>
      (cy_close_event_key c = cy_close_event_key d \<and> cy_close_event_key c \<noteq> None \<longrightarrow> c = d)) \<and>
    (\<forall>conv. let ns = map cy_sequence_number (filter (\<lambda>c. cy_conversation_id c = conv) (cycles db))
      in ns = map int [1..<Suc (length ns)]) \<and>
    distinct (map cm_message_id (cycle_messages db)) \<and>
    (\<forall>m \<in> set (cycle_messages db). \<exists>c \<in> set (cycles db). cy_id c = cm_cycle_id m)"
proof -
  have inv: "cycle_inv db" using assms by (rule cycle_inv_reachable)
  have u: "cycles_unique (cycles db)" using inv by (simp add: cycle_inv_def)
  have comp: "c = d \<or> compatible c d" if "c \<in> set (cycles db)" "d \<in> set (cycles db)" for c d
    using u that by (auto simp: cycles_unique_iff)
  have keys: "\<forall>c \<in> set (cycles db). \<forall>d \<in> set (cycles db).
      (cy_conversation_id c = cy_conversation_id d \<and> cy_ticket_closed_at c = None \<and>
         cy_ticket_closed_at d = None \<longrightarrow> c = d) \<and>
      (cy_open_event_key c = cy_open_event_key d \<and> cy_open_event_key c \<noteq> None \<longrightarrow> c = d) \<and>
      (cy_close_event_key c = cy_close_event_key d \<and> cy_close_event_key c \<noteq> None \<longrightarrow> c = d)"
  proof (intro ballI)
    fix c d assume "c \<in> set (cycles db)" "d \<in> set (cycles db)"
    from comp[OF this] show "(cy_conversation_id c = cy_conversation_id d \<and> cy_ticket_closed_at c = None \<and>
         cy_ticket_closed_at d = None \<longrightarrow> c = d) \<and>
      (cy_open_event_key c = cy_open_event_key d \<and> cy_open_event_key c \<noteq> None \<longrightarrow> c = d) \<and>
      (cy_close_event_key c = cy_close_event_key d \<and> cy_close_event_key c \<noteq> None \<longrightarrow> c = d)"
      by (auto simp: compatible_def opt_differ_def)
  qed
  have fk: "\<forall>m \<in> set (cycle_messages db). \<exists>c \<in> set (cycles db). cy_id c = cm_cycle_id m"
  proof
    fix m assume "m \<in> set (cycle_messages db)"
    then have "cm_cycle_id m \<in> cy_id ` set (cycles db)"
      using inv by (auto simp: cycle_inv_def messages_ok_def)
    then show "\<exists>c \<in> set (cycles db). cy_id c = cm_cycle_id m" by auto
  qed
  have ms: "distinct (map cm_message_id (cycle_messages db))"
    using inv by (simp add: cycle_inv_def messages_ok_def)
  have nums: "\<forall>conv. let ns = map cy_sequence_number (filter (\<lambda>c. cy_conversation_id c = conv) (cycles db))
      in ns = map int [1..<Suc (length ns)]"
    using inv unfolding cycle_inv_def numbered_def seqs_of_def Let_def by blast
  from distinct_cycle_ids[OF u] distinct_public_ids[OF u] keys nums ms fk show ?thesis
    by (intro conjI)
qed

theorem cycle_reachable_inv_witness: "distinct (map cy_public_id (cycles sample_cycles))"
  using cycle_reachable_inv[OF sample_cycles_reachable] by blast

text \<open>C5: However many finalization workers claim from the cycle table during one lease period, and
  whichever cycles other transactions hold locked, no cycle is handed out twice.\<close>

theorem cycle_claims_exclusive:
  assumes "cycle_reachable db" and "claims_within t0 t1 reqs"
  shows "distinct (map cy_id (fst (run_claims claim_next_cycle_tx reqs db)))"
proof -
  have "distinct (map cy_id (cycles db))"
    using cycle_inv_reachable[OF assms(1)] by (simp add: cycle_inv_def cycles_unique_def)
  then show ?thesis using assms(2) by (rule cycle_work.claims_exclusive)
qed

theorem cycle_claims_exclusive_witness:
  "distinct (map cy_id (fst (run_claims claim_next_cycle_tx
    [(100, {}, ''w1'', 60), (101, {}, ''w2'', 60)] sample_cycles)))"
  by (rule cycle_claims_exclusive[OF sample_cycles_reachable, where ?t0.0 = 0 and ?t1.0 = 200])
    (simp_all add: seconds_def)

text \<open>A claim of the next cycle returns nothing exactly when no unlocked cycle is claimable;
  otherwise it leases the least one in the polling order.  Open, media-blocked, completed and
  failed cycles, cycles scheduled for later and cycles under a live lease are never claimed, and
  no other cycle changes.\<close>

theorem claim_next_cycle_least_due:
  assumes "has_cycle_schema db"
    and "claim_next_cycle now locked owner lease db = (Inr res, db')"
  shows "case res of
      None \<Rightarrow> db' = db \<and> (\<forall>x \<in> set (cycles db). cy_id x \<notin> locked \<longrightarrow> \<not> cycle_claimable now x)
    | Some r \<Rightarrow> \<exists>c \<in> set (cycles db).
        r = claimed_cycle now owner lease c \<and> cy_id c \<notin> locked \<and>
        cy_status r \<notin> {Cycle_Open, Media_Blocked, Cycle_Completed, Completed_With_Warnings, Cycle_Failed} \<and>
        elapsed now (cy_next_attempt_at c) \<and> elapsed now (cy_lease_expires_at c) \<and>
        (\<forall>x \<in> set (cycles db). cycle_claimable now x \<and> cy_id x \<notin> locked \<longrightarrow>
          cycle_order c \<le> cycle_order x) \<and>
        cycles db' = update_where (\<lambda>x. cy_id x = cy_id c) (claimed_cycle now owner lease) (cycles db)"
proof -
  have tx: "claim_next_cycle_tx now locked owner lease db = (res, db')"
    using assms by (simp add: claim_next_cycle_def with_cycle_schema_def case_prod_beta prod_eq_iff)
  show ?thesis
  proof (cases res)
    case None
    then show ?thesis using claim_next_cycle_tx_None tx by simp
  next
    case (Some r)
    obtain c where c: "c \<in> set (cycles db)" "cycle_claimable now c" "cy_id c \<notin> locked"
      "r = claimed_cycle now owner lease c"
      "db' = db\<lparr>cycles := update_where (\<lambda>x. cy_id x = cy_id c) (claimed_cycle now owner lease) (cycles db)\<rparr>"
      and least: "\<And>x. x \<in> set (cycles db) \<Longrightarrow> cycle_claimable now x \<Longrightarrow> cy_id x \<notin> locked \<Longrightarrow>
        cycle_order c \<le> cycle_order x"
      by (rule claim_next_cycle_tx_Some[OF tx[unfolded Some]]) (rule that)
    have "cy_status c \<notin> {Cycle_Open, Media_Blocked, Cycle_Completed, Completed_With_Warnings, Cycle_Failed}"
      using c(2) by (auto simp: cycle_claimable_def recoverable_def RECOVERABLE_CYCLE_STATUSES_def)
    then show ?thesis
      using c least Some by (auto simp: cycle_claimable_def intro!: bexI[of _ c])
  qed
qed

theorem claim_next_cycle_least_due_witness:
  "\<exists>r. fst (claim_next_cycle 100 {} ''w1'' 60 sample_cycles) = Inr (Some r) \<and>
    cy_status r \<noteq> Cycle_Open"
proof -
  have "fst (claim_next_cycle 100 {} ''w1'' 60 sample_cycles) \<noteq> Inr None \<and>
      (case fst (claim_next_cycle 100 {} ''w1'' 60 sample_cycles) of Inl e \<Rightarrow> False | Inr _ \<Rightarrow> True)"
    by code_simp
  then obtain r where "fst (claim_next_cycle 100 {} ''w1'' 60 sample_cycles) = Inr (Some r)"
    by (auto split: sum.splits)
  then have "claim_next_cycle 100 {} ''w1'' 60 sample_cycles =
      (Inr (Some r), snd (claim_next_cycle 100 {} ''w1'' 60 sample_cycles))"
    by (simp add: prod_eq_iff)
  from claim_next_cycle_least_due[OF sample_cycles_schema this]
  have "cy_status r \<noteq> Cycle_Open" by auto
  with \<open>fst _ = Inr (Some r)\<close> show ?thesis by blast
qed

section \<open>Ticket events\<close>

lemma normalized_contact_nonblank:
  "normalize_cycle_contact_external_id value = Inr c \<Longrightarrow> nonblank_opt c"
  by (auto simp: normalize_cycle_contact_external_id_def Let_def btrim_py_strip
      split: option.splits if_splits)

lemma cycles_unique_update_one:
  assumes "cycles_unique rows" and "\<And>x. cy_id (f x) = cy_id x"
    and "\<And>x. x \<in> set rows \<Longrightarrow> P x \<longleftrightarrow> x = e"
    and "\<And>y. y \<in> set rows \<Longrightarrow> y \<noteq> e \<Longrightarrow> compatible e y \<Longrightarrow> compatible (f e) y"
  shows "cycles_unique (update_where P f rows)"
proof (rule cycles_unique_update[OF assms(1,2)])
  fix x y assume xy: "x \<in> set rows" "y \<in> set rows" "x \<noteq> y" "compatible x y"
  consider "x = e" | "y = e" | "x \<noteq> e" "y \<noteq> e" by blast
  then show "compatible (if P x then f x else x) (if P y then f y else y)"
  proof cases
    case 1
    then show ?thesis using xy assms(3)[of x] assms(3)[of y] assms(4)[of y] by simp
  next
    case 2
    then have "compatible (f e) x" using xy assms(4)[of x] compatible_sym by blast
    then show ?thesis using 2 xy assms(3)[of x] assms(3)[of y] compatible_sym by simp
  next
    case 3
    then show ?thesis using xy assms(3)[of x] assms(3)[of y] by simp
  qed
qed

lemma check_update:
  "list_all cycle_check rows \<Longrightarrow> (\<And>x. cycle_check x \<Longrightarrow> cycle_check (f x)) \<Longrightarrow>
    list_all cycle_check (update_where P f rows)"
  by (auto simp: list_all_iff elim!: update_whereE)

lemma nonblank_coalesce: "nonblank_opt a \<Longrightarrow> nonblank_opt b \<Longrightarrow> nonblank_opt (coalesce_opt a b)"
  by (cases a) simp_all

lemma return_cycle_member:
  "cycles_unique (cycles db) \<Longrightarrow> c \<in> set (cycles db) \<Longrightarrow> cy_public_id c = p \<Longrightarrow>
    return_cycle p created db = (Inr (c, created), db)"
proof -
  assume u: "cycles_unique (cycles db)" and c: "c \<in> set (cycles db)" "cy_public_id c = p"
  then have "lookup_by cy_public_id p (cycles db) = Some c"
    using distinct_public_ids[OF u] by (simp add: lookup_by_unique)
  then show ?thesis by (simp add: return_cycle_def cycle_row_def)
qed

lemma opt_differ_None [simp]: "opt_differ a None"
  by (cases a) (simp_all add: opt_differ_def)

lemma insert_cycle_ok:
  assumes "cycle_inv db" and "cy_id c = next_cycle_id db" and "cy_public_id c \<notin> cy_public_id ` set (cycles db)"
    and "cy_sequence_number c = next_sequence (cy_conversation_id c) (cycles db)"
    and "find_open_cycle (cy_conversation_id c) (cycles db) = None"
    and "\<And>x. x \<in> set (cycles db) \<Longrightarrow> opt_differ (cy_open_event_key x) (cy_open_event_key c)"
    and "\<And>x. x \<in> set (cycles db) \<Longrightarrow> opt_differ (cy_close_event_key x) (cy_close_event_key c)"
    and "cy_classification_id c = None" and "cycle_check c"
  shows "insert_cycle c db = (Inr (), db\<lparr>cycles := cycles db @ [c], next_cycle_id := next_cycle_id db + 1\<rparr>)"
    and "cycles_unique (cycles db @ [c])"
proof -
  have n: "numbered (cycles db)" and u: "cycles_unique (cycles db)"
    and ids: "\<forall>x \<in> set (cycles db). cy_id x < next_cycle_id db"
    using assms(1) by (simp_all add: cycle_inv_def)
  have "compatible x c" if x: "x \<in> set (cycles db)" for x
  proof -
    have "\<not> (cy_conversation_id x = cy_conversation_id c \<and> cy_sequence_number x = cy_sequence_number c)"
      using seq_bound[OF n x] assms(4) by auto
    moreover have "\<not> (cy_conversation_id x = cy_conversation_id c \<and> cy_ticket_closed_at x = None)"
      using assms(5) x by (auto simp: find_open_cycle_None)
    moreover have "cy_public_id x \<noteq> cy_public_id c" using assms(3) imageI[OF x, of cy_public_id] by auto
    moreover have "opt_differ (cy_classification_id x) (cy_classification_id c)"
      using assms(8) by simp
    ultimately show ?thesis using assms(6,7)[OF x] by (auto simp: compatible_def)
  qed
  moreover have "cy_id c \<notin> cy_id ` set (cycles db)" using ids assms(2) by auto
  ultimately show un: "cycles_unique (cycles db @ [c])" using u by (simp add: cycles_unique_append)
  moreover have "list_all cycle_check (cycles db @ [c])"
    using assms(1,9) by (simp add: cycle_inv_def)
  ultimately show "insert_cycle c db = (Inr (), db\<lparr>cycles := cycles db @ [c], next_cycle_id := next_cycle_id db + 1\<rparr>)"
    by (simp add: insert_cycle_def commit_cycles_def)
qed

lemma seq_positive: "numbered rows \<Longrightarrow> 0 < next_sequence conv rows"
  using next_sequence_numbered[of rows conv] by simp

definition with_contact :: "time \<Rightarrow> string option \<Rightarrow> cycle \<Rightarrow> cycle" where
  "with_contact now contact c =
    (if contact = None then c
     else c\<lparr>cy_contact_external_id := coalesce_opt (cy_contact_external_id c) contact,
            cy_updated_at := now\<rparr>)"

lemma commit_contact:
  assumes inv: "cycle_inv db" and e: "e \<in> set (cycles db)" and "nonblank_opt contact"
    and P: "\<And>x. x \<in> set (cycles db) \<Longrightarrow> P x \<longleftrightarrow> x = e"
    and f: "f = (\<lambda>c. c\<lparr>cy_contact_external_id := coalesce_opt (cy_contact_external_id c) contact,
      cy_updated_at := now\<rparr>)"
  shows "commit_cycles (update_where P f (cycles db)) () db =
      (Inr (), db\<lparr>cycles := update_where P f (cycles db)\<rparr>)"
    and "cycles_unique (update_where P f (cycles db))"
proof -
  have u: "cycles_unique (cycles db)" using inv by (simp add: cycle_inv_def)
  show un: "cycles_unique (update_where P f (cycles db))"
    using cycles_unique_update_one[OF u _ P, of f] by (simp add: f compatible_def)
  have "list_all cycle_check (update_where P f (cycles db))"
    using inv assms(3) f by (intro check_update) (auto simp: cycle_inv_def cycle_check_def nonblank_coalesce)
  with un show "commit_cycles (update_where P f (cycles db)) () db =
      (Inr (), db\<lparr>cycles := update_where P f (cycles db)\<rparr>)"
    by (simp add: commit_cycles_def)
qed

lemma public_id_is:
  assumes "cycles_unique rows" and "e \<in> set rows" and "x \<in> set rows"
  shows "cy_public_id x = cy_public_id e \<longleftrightarrow> x = e" and "cy_id x = cy_id e \<longleftrightarrow> x = e"
  using distinct_key_eq[OF distinct_public_ids[OF assms(1)] assms(3,2)]
    distinct_key_eq[OF distinct_cycle_ids[OF assms(1)] assms(3,2)] by auto

lemma open_ticket_cases:
  assumes "cycle_reachable db" and "has_cycle_schema db"
    and "normalize_cycle_contact_external_id value = Inr contact"
    and "uuid \<notin> cy_public_id ` set (cycles db)" and "btrim key \<noteq> []" and "btrim strategy \<noteq> []"
  shows "case find (\<lambda>c. cy_open_event_key c = Some key) (cycles db) of
      Some d \<Rightarrow> create_open_cycle now uuid conv at key strategy value db = (Inr (d, False), db)
    | None \<Rightarrow>
       (case find_open_cycle conv (cycles db) of
          Some e \<Rightarrow> create_open_cycle now uuid conv at key strategy value db =
            (Inr (with_contact now contact e, False),
             db\<lparr>cycles := update_where (\<lambda>c. cy_id c = cy_id e) (with_contact now contact) (cycles db)\<rparr>)
        | None \<Rightarrow> \<exists>c. create_open_cycle now uuid conv at key strategy value db =
            (Inr (c, True), db\<lparr>cycles := cycles db @ [c], next_cycle_id := next_cycle_id db + 1\<rparr>) \<and>
            cy_public_id c = uuid \<and> cy_conversation_id c = conv \<and> cy_status c = Cycle_Open \<and>
            cy_open_event_key c = Some key \<and> cy_ticket_closed_at c = None \<and>
            cy_cycle_started_at c = Some at \<and> cy_contact_external_id c = contact \<and>
            cy_sequence_number c =
              1 + int (length (filter (\<lambda>c. cy_conversation_id c = conv) (cycles db))))"
proof -
  have inv: "cycle_inv db" using assms(1) by (rule cycle_inv_reachable)
  have u: "cycles_unique (cycles db)" using inv by (simp add: cycle_inv_def)
  have nb: "nonblank_opt contact" using assms(3) by (rule normalized_contact_nonblank)
  have run: "create_open_cycle now uuid conv at key strategy value db =
      create_open_cycle_tx now uuid conv at key strategy contact db"
    using assms(2,3) by (simp add: create_open_cycle_def with_cycle_schema_def)
  show ?thesis
  proof (cases "find (\<lambda>c. cy_open_event_key c = Some key) (cycles db)")
    case (Some d)
    then have "d \<in> set (cycles db)" by (auto simp: find_Some_iff)
    then show ?thesis
      using Some return_cycle_member[OF u] by (simp add: run create_open_cycle_tx_def Let_def)
  next
    case nodup: None
    show ?thesis
    proof (cases "find_open_cycle conv (cycles db)")
      case None
      let ?c = "(new_cycle (next_cycle_id db) uuid conv (next_sequence conv (cycles db)) strategy now)
        \<lparr>cy_cycle_started_at := Some at, cy_open_event_key := Some key, cy_contact_external_id := contact\<rparr>"
      have diff: "opt_differ (cy_open_event_key x) (Some key)" if "x \<in> set (cycles db)" for x
        using nodup that by (auto simp: find_None_iff opt_differ_def)
      have n: "numbered (cycles db)" using inv by (simp add: cycle_inv_def)
      have "cycle_check ?c"
        using assms(5,6) nb seq_positive[OF n] by (simp add: cycle_check_def)
      then have ins: "insert_cycle ?c db =
          (Inr (), db\<lparr>cycles := cycles db @ [?c], next_cycle_id := next_cycle_id db + 1\<rparr>)"
        and un: "cycles_unique (cycles db @ [?c])"
        using insert_cycle_ok[of db ?c] inv assms(4) None diff by simp_all
      have ret: "return_cycle uuid True (db\<lparr>cycles := cycles db @ [?c], next_cycle_id := next_cycle_id db + 1\<rparr>) =
          (Inr (?c, True), db\<lparr>cycles := cycles db @ [?c], next_cycle_id := next_cycle_id db + 1\<rparr>)"
        by (rule return_cycle_member) (use un in simp_all)
      have "next_sequence conv (cycles db) =
          1 + int (length (filter (\<lambda>c. cy_conversation_id c = conv) (cycles db)))"
        using next_sequence_numbered[OF n] by (simp add: seqs_of_def)
      then show ?thesis
        using nodup None ins ret by (simp add: run create_open_cycle_tx_def Let_def new_cycle_def)
    next
      case (Some e)
      have e: "e \<in> set (cycles db)" using find_open_cycle_Some[OF Some] by simp
      show ?thesis
      proof (cases contact)
        case None
        have "update_where (\<lambda>c. cy_id c = cy_id e) (with_contact now None) (cycles db) = cycles db"
          by (induction "cycles db") (auto simp: update_where_def with_contact_def)
        then show ?thesis
          using nodup Some None return_cycle_member[OF u e]
          by (simp add: run create_open_cycle_tx_def Let_def with_contact_def)
      next
        case contact: (Some v)
        let ?f = "\<lambda>c. c\<lparr>cy_contact_external_id := coalesce_opt (cy_contact_external_id c) contact, cy_updated_at := now\<rparr>"
        have f: "with_contact now contact = ?f" using contact by (simp add: with_contact_def fun_eq_iff)
        have P: "update_where (\<lambda>c. cy_public_id c = cy_public_id e) ?f (cycles db) =
            update_where (\<lambda>c. cy_id c = cy_id e) ?f (cycles db)"
          unfolding update_where_def using public_id_is[OF u e] by (intro map_cong) auto
        note cc = commit_contact[OF inv e nb public_id_is(1)[OF u e] refl, of now]
        have ret: "return_cycle (cy_public_id e) False
            (db\<lparr>cycles := update_where (\<lambda>c. cy_public_id c = cy_public_id e) ?f (cycles db)\<rparr>) =
          (Inr (?f e, False), db\<lparr>cycles := update_where (\<lambda>c. cy_public_id c = cy_public_id e) ?f (cycles db)\<rparr>)"
          by (rule return_cycle_member) (use cc(2) update_where_changed[OF e, of "\<lambda>c. cy_public_id c = cy_public_id e" ?f] in simp_all)
        show ?thesis
          unfolding nodup Some option.case run f create_open_cycle_tx_def Let_def
          using contact cc(1) ret P by simp
      qed
    qed
  qed
qed

text \<open>An open-ticket event is decided in the order the code has it, and no table constraint can
  stop it (for a fresh UUID, a usable event key and strategy): a repeated event key returns the
  cycle it opened and changes nothing; a conversation whose ticket is still open returns that
  cycle, which only gains a missing contact; otherwise a new open cycle is appended with the next
  sequence number.\<close>

theorem open_ticket_decides:
  assumes "cycle_reachable db" and "has_cycle_schema db"
    and "normalize_cycle_contact_external_id value = Inr contact"
    and "uuid \<notin> cy_public_id ` set (cycles db)" and "btrim key \<noteq> []" and "btrim strategy \<noteq> []"
  shows "case find (\<lambda>c. cy_open_event_key c = Some key) (cycles db) of
      Some d \<Rightarrow> create_open_cycle now uuid conv at key strategy value db = (Inr (d, False), db)
    | None \<Rightarrow>
       (case find_open_cycle conv (cycles db) of
          Some e \<Rightarrow> create_open_cycle now uuid conv at key strategy value db =
            (Inr (with_contact now contact e, False),
             db\<lparr>cycles := update_where (\<lambda>c. cy_id c = cy_id e) (with_contact now contact) (cycles db)\<rparr>)
        | None \<Rightarrow> \<exists>c. create_open_cycle now uuid conv at key strategy value db =
            (Inr (c, True), db\<lparr>cycles := cycles db @ [c], next_cycle_id := next_cycle_id db + 1\<rparr>) \<and>
            cy_public_id c = uuid \<and> cy_conversation_id c = conv \<and> cy_status c = Cycle_Open \<and>
            cy_open_event_key c = Some key \<and> cy_ticket_closed_at c = None \<and>
            cy_cycle_started_at c = Some at \<and> cy_contact_external_id c = contact \<and>
            cy_sequence_number c =
              1 + int (length (filter (\<lambda>c. cy_conversation_id c = conv) (cycles db))))"
  by (rule open_ticket_cases[OF assms])

lemma sample_next_open:
  "find (\<lambda>c. cy_open_event_key c = Some ''open-3'') (cycles sample_cycles) = None"
  "find_open_cycle ''conv2'' (cycles sample_cycles) = None"
  "''u9'' \<notin> cy_public_id ` set (cycles sample_cycles)"
  "normalize_cycle_contact_external_id (Some '' c '') = Inr (Some ''c'')"
  "btrim ''open-3'' \<noteq> []" "btrim ''webhook'' \<noteq> []" "btrim ''close-3'' \<noteq> []"
  "filter (\<lambda>c. cy_conversation_id c = ''conv2'') (cycles sample_cycles) = []"
  by code_simp+

theorem open_ticket_decides_witness:
  "\<exists>c. fst (create_open_cycle 40 ''u9'' ''conv2'' 39 ''open-3'' ''webhook'' (Some '' c '') sample_cycles) =
    Inr (c, True) \<and> cy_sequence_number c = 1 \<and> cy_contact_external_id c = Some ''c''"
  using open_ticket_decides[OF sample_cycles_reachable sample_cycles_schema sample_next_open(4,3,5,6),
      of 40 "''conv2''" 39] sample_next_open
  by auto

lemma close_update_check:
  "cycle_check c \<Longrightarrow> nonblank_opt contact \<Longrightarrow> btrim key \<noteq> [] \<Longrightarrow>
    cycle_check (close_update now delay protocol at key contact c)"
  by (simp add: cycle_check_def nonblank_coalesce)

lemma close_ticket_cases:
  assumes "cycle_reachable db" and "has_cycle_schema db"
    and "normalize_cycle_contact_external_id value = Inr contact"
    and "uuid \<notin> cy_public_id ` set (cycles db)" and "btrim key \<noteq> []" and "btrim fallback \<noteq> []"
  shows "case find (\<lambda>c. cy_close_event_key c = Some key) (cycles db) of
      Some d \<Rightarrow> close_cycle now delay uuid conv protocol at key fallback value db = (Inr (d, False), db)
    | None \<Rightarrow> \<exists>c db'. close_cycle now delay uuid conv protocol at key fallback value db = (Inr (c, True), db') \<and>
        c \<in> set (cycles db') \<and> cy_conversation_id c = conv \<and> cy_status c = Cycle_Pending \<and>
        cy_ticket_closed_at c = Some at \<and> cy_close_event_key c = Some key \<and>
        cy_next_attempt_at c = Some (now + seconds delay) \<and>
        cy_error_phase c = None \<and> cy_error_message c = None \<and>
        find_open_cycle conv (cycles db') = None \<and>
        (case find_open_cycle conv (cycles db) of
           Some opened \<Rightarrow> cy_id c = cy_id opened \<and> length (cycles db') = length (cycles db)
         | None \<Rightarrow> cy_public_id c = uuid \<and> cycles db' = cycles db @ [c])"
proof -
  have inv: "cycle_inv db" using assms(1) by (rule cycle_inv_reachable)
  have u: "cycles_unique (cycles db)" and ch: "list_all cycle_check (cycles db)"
    using inv by (simp_all add: cycle_inv_def)
  have nb: "nonblank_opt contact" using assms(3) by (rule normalized_contact_nonblank)
  have run: "close_cycle now delay uuid conv protocol at key fallback value db =
      close_cycle_tx now delay uuid conv protocol at key fallback contact db"
    using assms(2,3) by (simp add: close_cycle_def with_cycle_schema_def)
  let ?f = "close_update now delay protocol at key contact"
  show ?thesis
  proof (cases "find (\<lambda>c. cy_close_event_key c = Some key) (cycles db)")
    case (Some d)
    then have "d \<in> set (cycles db)" by (auto simp: find_Some_iff)
    then show ?thesis using Some return_cycle_member[OF u] by (simp add: run close_cycle_tx_def)
  next
    case nodup: None
    have diff: "opt_differ (cy_close_event_key x) (Some key)" if "x \<in> set (cycles db)" for x
      using nodup that by (auto simp: find_None_iff opt_differ_def)
    show ?thesis
    proof (cases "find_open_cycle conv (cycles db)")
      case None
      let ?c = "?f (new_cycle (next_cycle_id db) uuid conv (next_sequence conv (cycles db)) fallback now)"
      let ?db = "db\<lparr>cycles := cycles db @ [?c], next_cycle_id := next_cycle_id db + 1\<rparr>"
      have n: "numbered (cycles db)" using inv by (simp add: cycle_inv_def)
      have "cycle_check ?c"
        by (rule close_update_check[OF _ nb assms(5)])
          (use assms(6) seq_positive[OF n] in \<open>simp add: cycle_check_def\<close>)
      then have ins: "insert_cycle ?c db = (Inr (), ?db)" and un: "cycles_unique (cycles db @ [?c])"
        using insert_cycle_ok[of db ?c] inv assms(4) None diff by simp_all
      have ret: "return_cycle uuid True ?db = (Inr (?c, True), ?db)"
        by (rule return_cycle_member) (use un in simp_all)
      have "find_open_cycle conv (cycles ?db) = None"
        using None by (auto simp: find_open_cycle_None)
      then show ?thesis
        using nodup None ins ret by (simp add: run close_cycle_tx_def close_update_def)
    next
      case (Some e)
      have e: "e \<in> set (cycles db)" "cy_conversation_id e = conv" "cy_ticket_closed_at e = None"
        using find_open_cycle_Some[OF Some] by simp_all
      let ?rows = "update_where (\<lambda>c. cy_id c = cy_id e) ?f (cycles db)"
      have un: "cycles_unique ?rows"
      proof (rule cycles_unique_update_one[OF u _ public_id_is(2)[OF u e(1)]])
        fix y assume "y \<in> set (cycles db)" "y \<noteq> e" "compatible e y"
        then show "compatible (?f e) y"
          using diff[of y] by (auto simp: compatible_def opt_differ_def)
      qed simp_all
      have "list_all cycle_check ?rows"
        using ch nb assms(5) by (intro check_update close_update_check)
      then have com: "commit_cycles ?rows () db = (Inr (), db\<lparr>cycles := ?rows\<rparr>)"
        using un by (simp add: commit_cycles_def)
      have mem: "?f e \<in> set ?rows"
        using update_where_changed[OF e(1), of "\<lambda>c. cy_id c = cy_id e" ?f] by simp
      have ret: "return_cycle (cy_public_id e) True (db\<lparr>cycles := ?rows\<rparr>) =
          (Inr (?f e, True), db\<lparr>cycles := ?rows\<rparr>)"
        by (rule return_cycle_member) (use un mem in simp_all)
      have "find_open_cycle conv ?rows = None"
        unfolding find_open_cycle_None
      proof (intro ballI impI)
        fix x assume "x \<in> set ?rows" "cy_conversation_id x = conv"
        then obtain r where r: "r \<in> set (cycles db)" "x = (if cy_id r = cy_id e then ?f r else r)"
          by (auto elim: update_whereE)
        then show "cy_ticket_closed_at x \<noteq> None"
          using open_cycle_unique[OF u r(1) e(1)] e \<open>cy_conversation_id x = conv\<close> by (auto split: if_splits)
      qed
      then show ?thesis
        using nodup Some com ret mem e by (simp add: run close_cycle_tx_def) (simp add: close_update_def)
    qed
  qed
qed

text \<open>A close-ticket event is decided in the order the code has it, and no table constraint can
  stop it (for a fresh UUID, a usable event key and strategy): a repeated event key returns the
  cycle it closed and changes nothing; otherwise the open cycle of the conversation, or a new
  cycle when none is open, is closed, pending, scheduled after the configured delay with its last
  error cleared, and the conversation has no open cycle left.\<close>

theorem close_ticket_decides:
  assumes "cycle_reachable db" and "has_cycle_schema db"
    and "normalize_cycle_contact_external_id value = Inr contact"
    and "uuid \<notin> cy_public_id ` set (cycles db)" and "btrim key \<noteq> []" and "btrim fallback \<noteq> []"
  shows "case find (\<lambda>c. cy_close_event_key c = Some key) (cycles db) of
      Some d \<Rightarrow> close_cycle now delay uuid conv protocol at key fallback value db = (Inr (d, False), db)
    | None \<Rightarrow> \<exists>c db'. close_cycle now delay uuid conv protocol at key fallback value db = (Inr (c, True), db') \<and>
        c \<in> set (cycles db') \<and> cy_conversation_id c = conv \<and> cy_status c = Cycle_Pending \<and>
        cy_ticket_closed_at c = Some at \<and> cy_close_event_key c = Some key \<and>
        cy_next_attempt_at c = Some (now + seconds delay) \<and>
        cy_error_phase c = None \<and> cy_error_message c = None \<and>
        find_open_cycle conv (cycles db') = None \<and>
        (case find_open_cycle conv (cycles db) of
           Some opened \<Rightarrow> cy_id c = cy_id opened \<and> length (cycles db') = length (cycles db)
         | None \<Rightarrow> cy_public_id c = uuid \<and> cycles db' = cycles db @ [c])"
  by (rule close_ticket_cases[OF assms])

theorem close_ticket_decides_witness:
  "\<exists>c db'. close_cycle 40 60 ''u9'' ''conv'' ''p9'' 39 ''close-3'' ''webhook'' (Some '' c '') sample_cycles =
    (Inr (c, True), db') \<and> cy_status c = Cycle_Pending \<and> cy_next_attempt_at c = Some 60000040 \<and>
    find_open_cycle ''conv'' (cycles db') = None"
proof -
  have "find (\<lambda>c. cy_close_event_key c = Some ''close-3'') (cycles sample_cycles) = None" by code_simp
  then show ?thesis
    using close_ticket_decides[OF sample_cycles_reachable sample_cycles_schema sample_next_open(4,3,7,6),
        of 40 60 "''conv''" "''p9''" 39]
    by (auto simp: seconds_def)
qed

text \<open>No operation loses a cycle or changes what it is: after any run of operations every cycle is
  still there with its id, public id, conversation, sequence number and opening event, and a
  closed cycle keeps its closing time and event (a later ticket never reopens it).\<close>

theorem cycles_persist:
  assumes "cycle_reachable db" and "c \<in> set (cycles db)"
  shows "\<exists>d \<in> set (cycles (cycle_run ops db)).
    cy_id d = cy_id c \<and> cy_public_id d = cy_public_id c \<and>
    cy_conversation_id d = cy_conversation_id c \<and> cy_sequence_number d = cy_sequence_number c \<and>
    cy_open_event_key d = cy_open_event_key c \<and>
    (cy_ticket_closed_at c \<noteq> None \<longrightarrow>
      cy_ticket_closed_at d = cy_ticket_closed_at c \<and> cy_close_event_key d = cy_close_event_key c)"
  using cycle_run_kept[OF cycle_inv_reachable[OF assms(1)], of ops] assms(2)
  by (simp add: kept_def persists_def)

theorem cycles_persist_witness:
  "\<exists>d \<in> set (cycles (cycle_run sample_ops (cycle_run sample_ops empty_cycle_db))).
    cy_public_id d = cy_public_id (hd (cycles sample_cycles))"
proof -
  have "cycles sample_cycles \<noteq> []" using sample_cycles_rows by auto
  then have "hd (cycles sample_cycles) \<in> set (cycles sample_cycles)" by (rule hd_in_set)
  then show ?thesis
    using cycles_persist[OF sample_cycles_reachable, of "hd (cycles sample_cycles)" sample_ops]
    by (auto simp: sample_cycles_def)
qed

lemma find_key_member:
  assumes "cycles_unique rows" and "c \<in> set rows" and "cy_close_event_key c = Some key"
  shows "find (\<lambda>c. cy_close_event_key c = Some key) rows = Some c"
proof (cases "find (\<lambda>c. cy_close_event_key c = Some key) rows")
  case None
  then show ?thesis using assms by (auto simp: find_None_iff)
next
  case (Some d)
  then have "d \<in> set rows" "cy_close_event_key d = Some key" by (auto simp: find_Some_iff)
  then have "d = c \<or> compatible d c" using assms(1,2) unfolding cycles_unique_iff by blast
  then have "d = c" using \<open>cy_close_event_key d = Some key\<close> assms(3)
    by (simp add: compatible_def opt_differ_def)
  then show ?thesis using Some by simp
qed

lemma schema_step: "has_cycle_schema (cycle_step now x db) = has_cycle_schema db"
  by (cases x)
    (auto simp: with_cycle_schema_def create_open_cycle_def create_open_cycle_tx_def close_cycle_def
        close_cycle_tx_def transition_cycle_def transition_cycle_tx_def claim_cycle_def
        claim_next_cycle_def claim_next_cycle_tx_def get_recoverable_cycles_def
        release_cycle_publication_def wake_unblocked_media_cycles_def save_cycle_messages_def Let_def
        commit_cycles_def insert_cycle_def
        split: option.split sum.split prod.split)

lemma schema_run: "has_cycle_schema (cycle_run ops db) = has_cycle_schema db"
  by (induction ops db rule: cycle_run.induct) (simp_all add: schema_step)

lemma close_cycle_result:
  assumes "cycle_inv db" and "close_cycle now delay uuid conv protocol at key fallback value db = (Inr (c, b), db')"
  shows "cycle_inv db' \<and> c \<in> set (cycles db') \<and> cy_close_event_key c = Some key"
proof -
  have inv: "cycle_inv db'"
    using cycle_step_inv[OF assms(1), of now "Close_Ticket delay uuid conv protocol at key fallback value"]
      assms(2) by simp
  obtain contact where tx: "close_cycle_tx now delay uuid conv protocol at key fallback contact db = (Inr (c, b), db')"
    using assms(2) by (auto simp: close_cycle_def with_cycle_schema_def split: if_splits sum.splits)
  have ret: "x \<in> set (cycles s) \<and> cy_public_id x = p \<and> s' = s"
    if "return_cycle p cr s = (Inr (x, y), s')" for p cr s x y s'
    using that lookup_by_Some by (fastforce simp: return_cycle_def cycle_row_def split: option.splits)
  have u: "cycles_unique (cycles db)" using assms(1) by (simp add: cycle_inv_def)
  let ?f = "close_update now delay protocol at key contact"
  show ?thesis
  proof (cases "find (\<lambda>c. cy_close_event_key c = Some key) (cycles db)")
    case (Some d)
    then have d: "d \<in> set (cycles db)" "cy_close_event_key d = Some key" by (auto simp: find_Some_iff)
    have "return_cycle (cy_public_id d) False db = (Inr (c, b), db')"
      using tx Some by (simp add: close_cycle_tx_def)
    then show ?thesis using return_cycle_member[OF u d(1) refl] d inv by simp
  next
    case nodup: None
    show ?thesis
    proof (cases "find_open_cycle conv (cycles db)")
      case None
      let ?c = "?f (new_cycle (next_cycle_id db) uuid conv (next_sequence conv (cycles db)) fallback now)"
      obtain r db1 where ins: "insert_cycle ?c db = (r, db1)" by fastforce
      then have r: "return_cycle uuid True db1 = (Inr (c, b), db')" and "r = Inr ()"
        using tx nodup None by (auto simp: close_cycle_tx_def split: sum.splits)
      then have db1: "cycles db1 = cycles db @ [?c]" and un: "cycles_unique (cycles db1)"
        using ins by (auto simp: insert_cycle_def commit_cycles_def split: if_splits)
      have "return_cycle uuid True db1 = (Inr (?c, True), db1)"
        by (rule return_cycle_member[OF un]) (simp_all add: db1)
      then show ?thesis using r inv db1 by simp
    next
      case (Some e)
      have e: "e \<in> set (cycles db)" using find_open_cycle_Some[OF Some] by simp
      let ?rows = "update_where (\<lambda>c. cy_id c = cy_id e) ?f (cycles db)"
      obtain r db1 where com: "commit_cycles ?rows () db = (r, db1)" by fastforce
      then have r: "return_cycle (cy_public_id e) True db1 = (Inr (c, b), db')" and "r = Inr ()"
        using tx nodup Some by (auto simp: close_cycle_tx_def split: sum.splits)
      then have db1: "cycles db1 = ?rows" and un: "cycles_unique (cycles db1)"
        using com by (auto simp: commit_cycles_def split: if_splits)
      have "?f e \<in> set ?rows" using update_where_changed[OF e, of "\<lambda>c. cy_id c = cy_id e" ?f] by simp
      then have "return_cycle (cy_public_id e) True db1 = (Inr (?f e, True), db1)"
        by (intro return_cycle_member[OF un]) (simp_all add: db1)
      then show ?thesis using r inv db1 \<open>?f e \<in> set ?rows\<close> by simp
    qed
  qed
qed

lemma close_event_again:
  assumes "cycle_reachable db"
    and "close_cycle now delay uuid conv protocol at key fallback value db = (Inr (c, b), db1)"
    and "normalize_cycle_contact_external_id value2 = Inr contact2"
  shows "\<exists>d. close_cycle now2 delay2 uuid2 conv2 protocol2 at2 key fallback2 value2 (cycle_run ops db1) =
      (Inr (d, False), cycle_run ops db1) \<and>
    cy_id d = cy_id c \<and> cy_public_id d = cy_public_id c \<and> cy_ticket_closed_at d = cy_ticket_closed_at c"
proof -
  let ?db2 = "cycle_run ops db1"
  have res: "cycle_inv db1" "c \<in> set (cycles db1)" "cy_close_event_key c = Some key"
    using close_cycle_result[OF cycle_inv_reachable[OF assms(1)] assms(2)] by simp_all
  then have closed: "cy_ticket_closed_at c \<noteq> None"
    by (auto simp: cycle_inv_def list_all_iff close_key_ok_def)
  obtain d where d: "d \<in> set (cycles ?db2)" "persists c d"
    using cycle_run_kept[OF res(1), of ops] res(2) by (auto simp: kept_def)
  then have dk: "cy_close_event_key d = Some key" "cy_id d = cy_id c" "cy_public_id d = cy_public_id c"
    "cy_ticket_closed_at d = cy_ticket_closed_at c"
    using closed res(3) by (simp_all add: persists_def)
  have u: "cycles_unique (cycles ?db2)" using cycle_run_inv[OF res(1)] by (simp add: cycle_inv_def)
  have "has_cycle_schema db"
    using assms(2) by (auto simp: close_cycle_def with_cycle_schema_def split: if_splits)
  then have "has_cycle_schema ?db2"
    using schema_run[of ops db1] assms(2)
      schema_step[of now "Close_Ticket delay uuid conv protocol at key fallback value" db] by simp
  then have "close_cycle now2 delay2 uuid2 conv2 protocol2 at2 key fallback2 value2 ?db2 =
      (Inr (d, False), ?db2)"
    using assms(3) find_key_member[OF u d(1) dk(1)] return_cycle_member[OF u d(1) refl]
    by (simp add: close_cycle_def with_cycle_schema_def close_cycle_tx_def)
  then show ?thesis using dk by blast
qed

text \<open>A close event is idempotent however late it is delivered again: once it closed a cycle, any
  later delivery under the same event key (with any payload, after any other operations) returns
  that cycle with its recorded closing time and changes nothing.\<close>

theorem close_event_replay:
  assumes "cycle_reachable db"
    and "close_cycle now delay uuid conv protocol at key fallback value db = (Inr (c, b), db1)"
    and "normalize_cycle_contact_external_id value2 = Inr contact2"
  shows "\<exists>d. close_cycle now2 delay2 uuid2 conv2 protocol2 at2 key fallback2 value2 (cycle_run ops db1) =
      (Inr (d, False), cycle_run ops db1) \<and>
    cy_id d = cy_id c \<and> cy_ticket_closed_at d = cy_ticket_closed_at c"
  using close_event_again[OF assms] by blast

definition first_ops :: "(time \<times> cycle_op) list" where
  "first_ops = [(10, Open_Ticket ''u1'' ''conv'' 5 ''open-1'' ''webhook'' None)]"

theorem close_event_replay_witness:
  "\<exists>d. close_cycle 90 0 ''u5'' ''other'' ''p7'' 88 ''close-1'' ''api'' None
      (cycle_run sample_ops (snd (close_cycle 20 0 ''u2'' ''conv'' ''p1'' 18 ''close-1'' ''api'' None
        (cycle_run first_ops empty_cycle_db)))) =
    (Inr (d, False), cycle_run sample_ops (snd (close_cycle 20 0 ''u2'' ''conv'' ''p1'' 18 ''close-1'' ''api'' None
        (cycle_run first_ops empty_cycle_db)))) \<and>
    cy_ticket_closed_at d = Some 18"
proof -
  let ?db = "cycle_run first_ops empty_cycle_db"
  let ?r = "close_cycle 20 0 ''u2'' ''conv'' ''p1'' 18 ''close-1'' ''api'' None ?db"
  have "(case fst ?r of Inl _ \<Rightarrow> False | Inr (c, b) \<Rightarrow> cy_ticket_closed_at c = Some 18)" by code_simp
  then obtain c b where c: "?r = (Inr (c, b), snd ?r)" "cy_ticket_closed_at c = Some 18"
    by (cases ?r) (auto split: sum.splits)
  have "normalize_cycle_contact_external_id None = Inr None"
    by (simp add: normalize_cycle_contact_external_id_def)
  from close_event_replay[OF cycle_reachable_run[OF cycle_empty] c(1) this,
      of 90 0 "''u5''" "''other''" "''p7''" 88 "''api''" sample_ops]
  show ?thesis unfolding c(2) by blast
qed

section \<open>Transitions, wake-ups and membership\<close>

lemma transition_matches_one:
  "cycles_unique rows \<Longrightarrow> c \<in> set rows \<Longrightarrow> transition_matches pid expected c \<Longrightarrow>
    x \<in> set rows \<Longrightarrow> transition_matches pid expected x \<longleftrightarrow> x = c"
  using public_id_is(1)[of rows c x] by (auto simp: transition_matches_def)

lemma find_matching_one:
  assumes "cycles_unique rows" and "c \<in> set rows" and "transition_matches pid expected c"
  shows "find (transition_matches pid expected) rows = Some c"
proof (cases "find (transition_matches pid expected) rows")
  case None
  then show ?thesis using assms(2,3) by (auto simp: find_None_iff)
next
  case (Some d)
  then have "d \<in> set rows" "transition_matches pid expected d" by (auto simp: find_Some_iff)
  then show ?thesis using Some transition_matches_one[OF assms, of d] by simp
qed

text \<open>A transition is guarded by the status the caller expects: when the cycle is missing or in
  another status it returns nothing and changes nothing; otherwise exactly that cycle gets the new
  status and the assigned fields, or, when an assigned value breaks a table constraint, the
  statement fails and nothing changes.\<close>

theorem transition_guarded:
  assumes "cycle_reachable db" and "has_cycle_schema db"
    and "parse_cycle_status status = Some st" and "list_all permitted_field assigns"
  shows "case find (transition_matches pid expected) (cycles db) of
      None \<Rightarrow> transition_cycle now pid status expected assigns db = (Inr None, db)
    | Some c \<Rightarrow> cy_public_id c = pid \<and> (expected = [] \<or> cy_status c \<in> set expected) \<and>
        (transition_cycle now pid status expected assigns db = (Inl cycle_violation, db) \<or>
         transition_cycle now pid status expected assigns db =
           (Inr (Some (transition_update now st assigns c)),
            db\<lparr>cycles := map (\<lambda>x. if x = c then transition_update now st assigns c else x) (cycles db)\<rparr>))"
proof -
  have inv: "cycle_inv db" using assms(1) by (rule cycle_inv_reachable)
  have u: "cycles_unique (cycles db)" and ch: "list_all cycle_check (cycles db)"
    using inv by (simp_all add: cycle_inv_def)
  let ?m = "transition_matches pid expected" and ?f = "transition_update now st assigns"
  have run: "transition_cycle now pid status expected assigns db =
      commit_cycles (update_where ?m ?f (cycles db)) (map_option ?f (find ?m (cycles db))) db"
    using assms(2-4) by (simp add: transition_cycle_def with_cycle_schema_def transition_cycle_tx_def)
  show ?thesis
  proof (cases "find ?m (cycles db)")
    case None
    then have "update_where ?m ?f (cycles db) = cycles db"
      by (intro update_where_none) (auto simp: find_None_iff)
    then show ?thesis using None u ch by (simp add: run commit_cycles_def)
  next
    case (Some c)
    then have c: "c \<in> set (cycles db)" "?m c" by (auto simp: find_Some_iff)
    have "update_where ?m ?f (cycles db) = map (\<lambda>x. if x = c then ?f c else x) (cycles db)"
      unfolding update_where_def using transition_matches_one[OF u c] by (intro map_cong) auto
    then show ?thesis using Some c(2) by (simp add: run commit_cycles_def transition_matches_def)
  qed
qed

theorem transition_guarded_witness:
  "transition_cycle 50 ''u1'' ''completed'' [Classifying] [F_error_phase None] sample_cycles =
    (Inr None, sample_cycles)"
proof -
  have "find (transition_matches ''u1'' [Classifying]) (cycles sample_cycles) = None"
    and "parse_cycle_status ''completed'' = Some Cycle_Completed" by code_simp+
  then show ?thesis
    using transition_guarded[OF sample_cycles_reachable sample_cycles_schema, where status = "''completed''"
        and assigns = "[F_error_phase None]" and pid = "''u1''" and expected = "[Classifying]" and now = 50]
    by simp
qed

lemma claim_cycle_Some:
  assumes "has_cycle_schema db" and "claim_cycle now pid owner lease db = (Inr (Some c), db1)"
  obtains c0 where "c0 \<in> set (cycles db)" "cy_public_id c0 = pid" "c = claimed_cycle now owner lease c0"
    "cycles db1 = update_where (\<lambda>c. cy_public_id c = pid \<and> cycle_claimable now c)
      (claimed_cycle now owner lease) (cycles db)" "cycle_claimable now c0"
proof -
  let ?P = "\<lambda>c. cy_public_id c = pid \<and> cycle_claimable now c"
  obtain c0 where c0: "find ?P (cycles db) = Some c0" "c = claimed_cycle now owner lease c0"
    "db1 = db\<lparr>cycles := update_where ?P (claimed_cycle now owner lease) (cycles db)\<rparr>"
    using assms by (auto simp: claim_cycle_def with_cycle_schema_def Let_def)
  from c0(1) have "c0 \<in> set (cycles db) \<and> ?P c0" by (rule find_Some_member)
  then show ?thesis using c0(2,3) by (intro that[of c0]) simp_all
qed

text \<open>A status transition does not look at the lease: while one owner holds a cycle, a transition
  that names no owner and expects the current status succeeds at any time, and leaves the cycle
  under that owner's lease.\<close>

theorem transition_ignores_lease:
  assumes "cycle_reachable db" and "has_cycle_schema db"
    and "claim_cycle now pid owner lease db = (Inr (Some c), db1)"
    and "parse_cycle_status status = Some st"
  shows "\<exists>d. fst (transition_cycle now2 pid status [cy_status c] [] db1) = Inr (Some d) \<and>
    d \<in> set (cycles (snd (transition_cycle now2 pid status [cy_status c] [] db1))) \<and>
    cy_id d = cy_id c \<and> cy_status d = st \<and> cy_lease_owner d = Some owner \<and>
    cy_lease_expires_at d = Some (now + seconds lease)"
proof -
  have inv: "cycle_inv db" using assms(1) by (rule cycle_inv_reachable)
  have inv1: "cycle_inv db1"
    using cycle_step_inv[OF inv, of now "Claim_One pid owner lease"] assms(3) by simp
  have u: "cycles_unique (cycles db1)" and ch: "list_all cycle_check (cycles db1)"
    using inv1 by (simp_all add: cycle_inv_def)
  have schema: "has_cycle_schema db1"
    using schema_step[of now "Claim_One pid owner lease" db] assms(2,3) by simp
  obtain c0 where c0: "c0 \<in> set (cycles db)" "cy_public_id c0 = pid" "c = claimed_cycle now owner lease c0"
    "cycles db1 = update_where (\<lambda>c. cy_public_id c = pid \<and> cycle_claimable now c)
      (claimed_cycle now owner lease) (cycles db)" "cycle_claimable now c0"
    by (rule claim_cycle_Some[OF assms(2,3)])
  then have c: "c \<in> set (cycles db1)"
    using update_where_changed[OF c0(1), of "\<lambda>c. cy_public_id c = pid \<and> cycle_claimable now c"
        "claimed_cycle now owner lease"] by simp
  let ?m = "transition_matches pid [cy_status c]" and ?f = "transition_update now2 st []"
  have m: "?m c" using c0(2,3) by (simp add: transition_matches_def claimed_cycle_def)
  have "cycles_unique (update_where ?m ?f (cycles db1))"
    by (rule cycles_unique_update_one[OF u _ transition_matches_one[OF u c m]])
      (simp_all add: compatible_def transition_update_def)
  moreover have "list_all cycle_check (update_where ?m ?f (cycles db1))"
    using ch by (intro check_update) (simp_all add: cycle_check_def transition_update_def)
  ultimately have "transition_cycle now2 pid status [cy_status c] [] db1 =
      (Inr (Some (?f c)), db1\<lparr>cycles := update_where ?m ?f (cycles db1)\<rparr>)"
    using schema assms(4) find_matching_one[OF u c m]
    by (simp add: transition_cycle_def with_cycle_schema_def transition_cycle_tx_def commit_cycles_def)
  moreover have "?f c \<in> set (update_where ?m ?f (cycles db1))" using c m by (rule update_where_changed)
  ultimately show ?thesis using c0(3) by (simp add: transition_update_def)
qed

theorem transition_ignores_lease_witness:
  "\<exists>d. fst (transition_cycle 101 ''u1'' ''failed'' [Cycle_Pending] []
      (snd (claim_cycle 100 ''u1'' ''w1'' 60 sample_cycles))) = Inr (Some d) \<and>
    cy_status d = Cycle_Failed \<and> cy_lease_owner d = Some ''w1''"
proof -
  let ?r = "claim_cycle 100 ''u1'' ''w1'' 60 sample_cycles"
  have "(case fst ?r of Inr (Some c) \<Rightarrow> cy_status c = Cycle_Pending | _ \<Rightarrow> False)" by code_simp
  then obtain c where c: "?r = (Inr (Some c), snd ?r)" "cy_status c = Cycle_Pending"
    by (cases ?r) (auto split: sum.splits option.splits)
  have "parse_cycle_status ''failed'' = Some Cycle_Failed" by code_simp
  from transition_ignores_lease[OF sample_cycles_reachable sample_cycles_schema c(1) this, of 101] c(2)
  show ?thesis by auto
qed

lemma member_by_id:
  assumes d: "distinct (map cy_id rows)" and s: "sub \<subseteq> set rows" and x: "x \<in> set rows"
  shows "(cy_id x \<in> cy_id ` sub) = (x \<in> sub)"
proof
  assume "cy_id x \<in> cy_id ` sub"
  then obtain y where "y \<in> sub" "cy_id x = cy_id y" by auto
  then show "x \<in> sub" using distinct_key_eq[OF d x, of y] s by auto
qed simp

lemma members_update:
  "distinct (map cy_id rows) \<Longrightarrow> sub \<subseteq> set rows \<Longrightarrow>
    filter (\<lambda>c. cy_id c \<in> cy_id ` sub) rows = filter (\<lambda>c. c \<in> sub) rows"
  by (rule filter_cong[OF refl member_by_id])

lemma length_filter_sub:
  assumes "distinct rows" and "distinct sel" and "set sel \<subseteq> set rows"
  shows "length (filter (\<lambda>c. c \<in> set sel) rows) = length sel"
proof -
  have "length (filter (\<lambda>c. c \<in> set sel) rows) = card (set (filter (\<lambda>c. c \<in> set sel) rows))"
    using distinct_card[of "filter (\<lambda>c. c \<in> set sel) rows"] assms(1) by simp
  also have "set (filter (\<lambda>c. c \<in> set sel) rows) = set sel" using assms(3) by auto
  also have "card (set sel) = length sel" using assms(2) by (rule distinct_card)
  finally show ?thesis .
qed

lemma select_limit_all:
  assumes "length (filter P rows) \<le> n"
  shows "set (select_limit n ord P rows) = {r \<in> set rows. P r}"
  using assms by (auto simp: select_limit_def)

text \<open>The periodic wake-up moves media-blocked cycles back to waiting for media, due at once and
  with their error cleared: only cycles none of whose messages has an exhausted extraction, at
  most the given number of them, all of them when they fit, and no other cycle changes.\<close>

theorem wake_unblocked_exact:
  assumes "cycle_reachable db" and "has_cycle_schema db"
    and "wake_unblocked_media_cycles now locked max_attempts limit media db = (res, db')"
    and "ready = (\<lambda>c. cy_status c = Media_Blocked \<and> cy_id c \<notin> locked \<and>
      \<not> (\<exists>m \<in> set (cycle_messages db). cm_cycle_id m = cy_id c \<and> media_exhausted max_attempts media m))"
  shows "\<exists>sel. set sel \<subseteq> {c \<in> set (cycles db). ready c} \<and>
    length sel = min (length (filter ready (cycles db))) (nat (max 1 limit)) \<and>
    res = Inr (map (woken_cycle now) sel) \<and>
    cycles db' = map (\<lambda>c. if c \<in> set sel then woken_cycle now c else c) (cycles db) \<and>
    (\<forall>c \<in> set sel. cy_status (woken_cycle now c) = Waiting_Media \<and>
       cy_next_attempt_at (woken_cycle now c) = Some now \<and> cy_error_message (woken_cycle now c) = None)"
proof -
  have u: "cycles_unique (cycles db)"
    using cycle_inv_reachable[OF assms(1)] by (simp add: cycle_inv_def)
  let ?P = "\<lambda>c. unblocked max_attempts media (cycle_messages db) c \<and> cy_id c \<notin> locked"
  have ready: "?P = ready" unfolding assms(4) by (auto simp: unblocked_def list_ex_iff fun_eq_iff)
  let ?cand = "select_limit (nat (max 1 limit)) (\<lambda>c. (cy_updated_at c, cy_id c)) ?P (cycles db)"
  let ?sel = "filter (\<lambda>c. c \<in> set ?cand) (cycles db)"
  have cand: "c \<in> set (cycles db) \<and> ready c" if "c \<in> set ?cand" for c
    using select_limit_sub[OF that] fun_cong[OF ready, of c] by simp
  then have sub: "set ?cand \<subseteq> set (cycles db)" by blast
  have dr: "distinct (cycles db)" using distinct_cycle_ids[OF u] by (simp add: distinct_map)
  have "distinct ?cand"
    using distinct_select_limit[OF distinct_cycle_ids[OF u]] unfolding distinct_map by blast
  then have len: "length ?sel = min (length (filter ready (cycles db))) (nat (max 1 limit))"
    using length_filter_sub[OF dr _ sub] by (simp add: ready)
  have chosen: "(cy_id c \<in> cy_id ` set ?cand) = (c \<in> set ?cand)" if "c \<in> set (cycles db)" for c
    using member_by_id[OF distinct_cycle_ids[OF u] sub that] .
  have "res = Inr (map (woken_cycle now) ?sel)"
    using assms(2,3) members_update[OF distinct_cycle_ids[OF u] sub]
    by (auto simp: wake_unblocked_media_cycles_def with_cycle_schema_def Let_def)
  moreover have "cycles db' = map (\<lambda>c. if c \<in> set ?sel then woken_cycle now c else c) (cycles db)"
    using assms(2,3) chosen
    by (auto simp: wake_unblocked_media_cycles_def with_cycle_schema_def Let_def update_where_def)
  moreover have "set ?sel \<subseteq> {c \<in> set (cycles db). ready c}" using cand by auto
  ultimately show ?thesis
    using len by (intro exI[of _ ?sel]) (simp add: woken_cycle_def)
qed

definition blocked_cycles :: cycle_db where
  "blocked_cycles = cycle_run [(40, Transition ''u1'' ''media_blocked'' [] [])] sample_cycles"

lemma blocked_cycles_reachable: "cycle_reachable blocked_cycles"
  unfolding blocked_cycles_def by (rule cycle_reachable_run[OF sample_cycles_reachable])

theorem wake_unblocked_exact_witness:
  "\<exists>sel. length sel = 1 \<and>
    fst (wake_unblocked_media_cycles 50 {} 3 10 \<lparr>message_transcriptions = [], message_image_extractions = []\<rparr>
      blocked_cycles) = Inr (map (woken_cycle 50) sel)"
proof -
  let ?media = "\<lparr>message_transcriptions = [], message_image_extractions = []\<rparr>"
  let ?ready = "\<lambda>c. cy_status c = Media_Blocked \<and> cy_id c \<notin> {} \<and>
      \<not> (\<exists>m \<in> set (cycle_messages blocked_cycles). cm_cycle_id m = cy_id c \<and> media_exhausted 3 ?media m)"
  have "length (filter ?ready (cycles blocked_cycles)) = 1" and "has_cycle_schema blocked_cycles"
    by code_simp+
  then show ?thesis
    using wake_unblocked_exact[OF blocked_cycles_reachable _ _ refl, of 50 "{}" 3 10 ?media
        "fst (wake_unblocked_media_cycles 50 {} 3 10 ?media blocked_cycles)"
        "snd (wake_unblocked_media_cycles 50 {} 3 10 ?media blocked_cycles)"]
    by fastforce
qed

text \<open>Saving the messages of a cycle partitions them: a message that another cycle already owns is
  reported as a conflict and stays where it is, every other message is accepted and becomes a
  member, the former members that are not in the list are released, and the membership of all
  other cycles is unchanged.\<close>

theorem save_messages_partition:
  assumes "cycle_reachable db"
    and "save_cycle_messages now pid ms db = (Inr (accepted, conflicts), db')"
  shows "\<exists>c \<in> set (cycles db). cy_public_id c = pid \<and> cycles db' = cycles db \<and>
    (let foreign = filter (\<lambda>m. cm_cycle_id m \<noteq> cy_id c) (cycle_messages db);
         taken = cm_message_id ` set foreign
     in filter (\<lambda>m. cm_cycle_id m \<noteq> cy_id c) (cycle_messages db') = foreign \<and>
        conflicts = filter (\<lambda>i. i \<in> taken) (map hm_message_id ms) \<and>
        accepted = filter (\<lambda>i. i \<notin> taken) (map hm_message_id ms) \<and>
        cm_message_id ` {m \<in> set (cycle_messages db'). cm_cycle_id m = cy_id c} = set accepted)"
proof -
  obtain c rows' where c: "cycle_row pid db = Some c"
    and loop: "save_messages_loop now (cy_id c) 0 ms
      (filter (\<lambda>m. cm_cycle_id m \<noteq> cy_id c) (cycle_messages db)) = Inr (accepted, conflicts, rows')"
    and db': "db' = db\<lparr>cycle_messages := rows'\<rparr>"
    using assms(2) by (auto simp: save_cycle_messages_def with_cycle_schema_def
        split: if_splits option.splits sum.splits)
  let ?foreign = "filter (\<lambda>m. cm_cycle_id m \<noteq> cy_id c) (cycle_messages db)"
  have mem: "c \<in> set (cycles db)" "cy_public_id c = pid"
    using c lookup_by_Some by (fastforce simp: cycle_row_def)+
  have "messages_ok (cycles db) (cycle_messages db)"
    using cycle_inv_reachable[OF assms(1)] by (simp add: cycle_inv_def)
  note res = save_messages_loop_ok[OF loop loop_ok_start[OF this]]
  have "others (cy_id c) ?foreign = ?foreign" by (simp add: others_def)
  moreover have "own_ids (cy_id c) ?foreign = {}" by (simp add: own_ids_def)
  moreover have "cm_message_id ` {m \<in> set rows'. cm_cycle_id m = cy_id c} = own_ids (cy_id c) rows'"
    by (auto simp: own_ids_def)
  ultimately have "others (cy_id c) rows' = ?foreign"
    "cm_message_id ` {m \<in> set rows'. cm_cycle_id m = cy_id c} = set accepted"
    "conflicts = filter (\<lambda>i. i \<in> cm_message_id ` set ?foreign) (map hm_message_id ms)"
    "accepted = filter (\<lambda>i. i \<notin> cm_message_id ` set ?foreign) (map hm_message_id ms)"
    using res by simp_all
  moreover have "cycles db' = cycles db" "cycle_messages db' = rows'" by (simp_all add: db')
  ultimately show ?thesis
    using mem by (intro bexI[of _ c]) (simp_all only: others_def Let_def simp_thms)
qed

definition msg :: "string \<Rightarrow> history_message" where
  "msg i = \<lparr>hm_message_id = i, hm_type = ''chat'', hm_timestamp = 7\<rparr>"

definition cycles_with_messages :: cycle_db where
  "cycles_with_messages = cycle_run [(50, Save_Messages ''u1'' [msg ''a'', msg ''b''])] sample_cycles"

lemma cycles_with_messages_reachable: "cycle_reachable cycles_with_messages"
  unfolding cycles_with_messages_def by (rule cycle_reachable_run[OF sample_cycles_reachable])

theorem save_messages_partition_witness:
  "\<exists>accepted conflicts. fst (save_cycle_messages 60 ''u3'' [msg ''b'', msg ''c''] cycles_with_messages) =
      Inr (accepted, conflicts) \<and> set accepted \<inter> set conflicts = {}"
proof -
  let ?r = "save_cycle_messages 60 ''u3'' [msg ''b'', msg ''c''] cycles_with_messages"
  have "(case fst ?r of Inl _ \<Rightarrow> False | Inr _ \<Rightarrow> True)" by code_simp
  then obtain acc conf where r: "?r = (Inr (acc, conf), snd ?r)"
    by (cases ?r) (auto split: sum.splits)
  have "\<exists>T. conf = filter (\<lambda>i. i \<in> T) (map hm_message_id [msg ''b'', msg ''c'']) \<and>
      acc = filter (\<lambda>i. i \<notin> T) (map hm_message_id [msg ''b'', msg ''c''])"
    using save_messages_partition[OF cycles_with_messages_reachable r] unfolding Let_def by blast
  then have "set acc \<inter> set conf = {}" by force
  with r show ?thesis by (metis fst_conv)
qed

end
