(* ===== verification/Provider_Coordination.thy ===== *)
theory Provider_Coordination
  imports CAI_Prelude Complex_Main
begin

text \<open>
  Admission and retry of calls to external providers (\<open>src/core/provider_coordination.py\<close>,
  \<open>src/core/provider_retry.py\<close>).  Python's floats are rational numbers here; their rounding is
  not modelled.  The caller's \<open>clock\<close> and \<open>sleep\<close> callables act on the state \<open>'w\<close> of the
  outside world and are parameters; \<open>clock_ok\<close> states what the documentation of
  \<open>time.monotonic\<close> and \<open>time.sleep\<close> promises.  The limiter serializes its callers with a
  lock, so that one admission at a time is the whole of its behaviour.
\<close>

section \<open>Sliding window\<close>

record limiter =
  lim_limit :: nat
  lim_requests :: "rat list"

definition new_limiter :: "int \<Rightarrow> py_error + limiter" where
  "new_limiter limit_per_minute =
    (if \<not> (1 \<le> limit_per_minute \<and> limit_per_minute \<le> 100)
     then Inl (ValueError ''provider request rate must be between 1 and 100'')
     else Inr \<lparr>lim_limit = nat limit_per_minute, lim_requests = []\<rparr>)"

text \<open>Limiters with a \<open>shared_key\<close> share one state per process: the first creation fixes it.\<close>

definition shared_limiter ::
  "int \<Rightarrow> string option \<Rightarrow> (string \<rightharpoonup> limiter) \<Rightarrow> (py_error + limiter) \<times> (string \<rightharpoonup> limiter)" where
  "shared_limiter limit_per_minute shared_key states =
    (case new_limiter limit_per_minute of
       Inl e \<Rightarrow> (Inl e, states)
     | Inr new \<Rightarrow>
        (case shared_key of
           None \<Rightarrow> (Inr new, states)
         | Some key \<Rightarrow>
             (case states key of
                Some state \<Rightarrow> (Inr state, states)
              | None \<Rightarrow> (Inr new, states(key \<mapsto> new)))))"

text \<open>The inner loop: entries of a minute ago or older leave the deque from its front.\<close>

definition expire :: "rat \<Rightarrow> rat list \<Rightarrow> rat list" where
  "expire now requests = dropWhile (\<lambda>t. now - t \<ge> 60) requests"

partial_function (option) before_request ::
  "('w \<Rightarrow> rat \<times> 'w) \<Rightarrow> (rat \<Rightarrow> 'w \<Rightarrow> 'w) \<Rightarrow> limiter \<Rightarrow> 'w \<Rightarrow> (limiter \<times> 'w) option" where
  "before_request clock sleep state w =
    (let (now, w1) = clock w;
         requests = expire now (lim_requests state)
     in if length requests < lim_limit state
        then Some (state\<lparr>lim_requests := requests @ [now]\<rparr>, w1)
        else before_request clock sleep (state\<lparr>lim_requests := requests\<rparr>)
               (sleep (max 0 (60 - (now - hd requests))) w1))"

text \<open>A run of \<open>n\<close> admissions, with the time of each.\<close>

fun admissions ::
  "('w \<Rightarrow> rat \<times> 'w) \<Rightarrow> (rat \<Rightarrow> 'w \<Rightarrow> 'w) \<Rightarrow> nat \<Rightarrow> limiter \<Rightarrow> 'w \<Rightarrow> (rat list \<times> limiter \<times> 'w) option" where
  "admissions clock sleep 0 state w = Some ([], state, w)"
| "admissions clock sleep (Suc n) state w =
    (case before_request clock sleep state w of
       None \<Rightarrow> None
     | Some (state', w') \<Rightarrow>
         (case admissions clock sleep n state' w' of
            None \<Rightarrow> None
          | Some (ts, r) \<Rightarrow> Some (last (lim_requests state') # ts, r)))"

text \<open>The clock never runs backwards, and sleeping takes at least the requested time.  \<open>tm w\<close> is the
  time of the world \<open>w\<close>.\<close>

definition clock_ok :: "('w \<Rightarrow> rat \<times> 'w) \<Rightarrow> (rat \<Rightarrow> 'w \<Rightarrow> 'w) \<Rightarrow> ('w \<Rightarrow> rat) \<Rightarrow> bool" where
  "clock_ok clock sleep tm \<longleftrightarrow>
    (\<forall>w. tm w \<le> fst (clock w) \<and> fst (clock w) \<le> tm (snd (clock w))) \<and>
    (\<forall>d w. tm w + d \<le> tm (sleep d w))"

definition limiter_ok :: "limiter \<Rightarrow> bool" where
  "limiter_ok state \<longleftrightarrow> 0 < lim_limit state \<and> length (lim_requests state) \<le> lim_limit state"

lemma before_request_admits:
  assumes "clock w = (now, w1)" and "length (expire now (lim_requests state)) < lim_limit state"
  shows "before_request clock sleep state w =
    Some (state\<lparr>lim_requests := expire now (lim_requests state) @ [now]\<rparr>, w1)"
  using assms by (subst before_request.simps) simp

lemma before_request_waits:
  assumes "clock w = (now, w1)" and "\<not> length (expire now (lim_requests state)) < lim_limit state"
  shows "before_request clock sleep state w =
    before_request clock sleep (state\<lparr>lim_requests := expire now (lim_requests state)\<rparr>)
      (sleep (max 0 (60 - (now - hd (expire now (lim_requests state))))) w1)"
  using assms by (subst before_request.simps) (simp add: Let_def)

lemma expire_split:
  obtains popped where "requests = popped @ expire now requests" "\<forall>t \<in> set popped. 60 \<le> now - t"
proof
  show "requests = takeWhile (\<lambda>t. now - t \<ge> 60) requests @ expire now requests"
    by (simp add: expire_def)
  show "\<forall>t \<in> set (takeWhile (\<lambda>t. now - t \<ge> 60) requests). 60 \<le> now - t"
    by (auto dest: set_takeWhileD)
qed

lemma expire_hd: "expire now requests \<noteq> [] \<Longrightarrow> now - hd (expire now requests) < 60"
  using hd_dropWhile[of "\<lambda>t. now - t \<ge> 60" requests] by (simp add: expire_def)

lemma expire_drops_head:
  "requests \<noteq> [] \<Longrightarrow> 60 \<le> now - hd requests \<Longrightarrow> length (expire now requests) < length requests"
  by (cases requests) (auto simp: expire_def less_Suc_eq_le length_dropWhile_le)

lemma before_request_result:
  assumes ok: "clock_ok clock sleep tm" and inv: "limiter_ok state"
  shows "\<exists>popped now kept w'. lim_requests state = popped @ kept \<and>
    before_request clock sleep state w = Some (state\<lparr>lim_requests := kept @ [now]\<rparr>, w') \<and>
    (\<forall>t \<in> set popped. 60 \<le> now - t) \<and> tm w \<le> now \<and> now \<le> tm w' \<and> length kept < lim_limit state"
proof -
  obtain now w1 where c: "clock w = (now, w1)" by fastforce
  have mono: "tm w \<le> now" "now \<le> tm w1" using ok c by (auto simp: clock_ok_def dest: spec[of _ w])
  let ?kept = "expire now (lim_requests state)"
  obtain popped where split: "lim_requests state = popped @ ?kept" "\<forall>t \<in> set popped. 60 \<le> now - t"
    by (rule expire_split)
  show ?thesis
  proof (cases "length ?kept < lim_limit state")
    case True
    then show ?thesis using before_request_admits[of clock w now w1 state, OF c True] split mono by blast
  next
    case False
    then have ne: "?kept \<noteq> []" using inv by (auto simp: limiter_ok_def)
    have "length (lim_requests state) = length popped + length ?kept"
      using arg_cong[OF split(1), of length] by simp
    then have "length popped = 0" using False inv unfolding limiter_ok_def by linarith
    then have "popped = []" by simp
    then have eq: "?kept = lim_requests state" using split(1) by simp
    let ?head = "hd (lim_requests state)"
    have young: "now - ?head < 60" using expire_hd[OF ne] by (simp add: eq)
    define d where "d = max 0 (60 - (now - ?head))"
    obtain now2 w2 where c2: "clock (sleep d w1) = (now2, w2)" by fastforce
    have "tm w1 + d \<le> tm (sleep d w1)" using ok by (simp add: clock_ok_def)
    moreover have "tm (sleep d w1) \<le> now2" "now2 \<le> tm w2"
      using ok c2 by (auto simp: clock_ok_def dest: spec[of _ "sleep d w1"])
    ultimately have later: "now + d \<le> now2" "now2 \<le> tm w2" using mono by auto
    then have "60 \<le> now2 - ?head" by (simp add: d_def max_def split: if_splits)
    then have short: "length (expire now2 (lim_requests state)) < lim_limit state"
      using expire_drops_head[of "lim_requests state" now2] ne inv eq by (simp add: limiter_ok_def)
    have "before_request clock sleep state w =
        before_request clock sleep (state\<lparr>lim_requests := ?kept\<rparr>) (sleep (max 0 (60 - (now - hd ?kept))) w1)"
      by (rule before_request_waits[of clock w now w1 state, OF c False])
    also have "\<dots> = before_request clock sleep state (sleep d w1)" unfolding eq d_def by simp
    also have "\<dots> = Some (state\<lparr>lim_requests := expire now2 (lim_requests state) @ [now2]\<rparr>, w2)"
      by (rule before_request_admits[of clock "sleep d w1" now2 w2 state, OF c2 short])
    finally have res: "before_request clock sleep state w =
      Some (state\<lparr>lim_requests := expire now2 (lim_requests state) @ [now2]\<rparr>, w2)" .
    obtain popped2 where "lim_requests state = popped2 @ expire now2 (lim_requests state)"
      "\<forall>t \<in> set popped2. 60 \<le> now2 - t" by (rule expire_split)
    moreover have "tm w \<le> now2" using mono later by (simp add: d_def max_def split: if_splits)
    ultimately show ?thesis using res later short by blast
  qed
qed

lemma before_request_ok:
  assumes "clock_ok clock sleep tm" and "limiter_ok state"
  shows "\<exists>state' w'. before_request clock sleep state w = Some (state', w') \<and> limiter_ok state'"
  using before_request_result[of clock sleep tm state w, OF assms] assms(2)
  by (fastforce simp: limiter_ok_def)

section \<open>The window bound\<close>

definition spaced :: "nat \<Rightarrow> rat list \<Rightarrow> bool" where
  "spaced k ts \<longleftrightarrow> (\<forall>i. i + k < length ts \<longrightarrow> 60 \<le> ts ! (i + k) - ts ! i)"

text \<open>The deque is a suffix of all admissions so far, and what it has lost is a minute old.\<close>

definition log_inv :: "rat list \<Rightarrow> limiter \<Rightarrow> rat \<Rightarrow> bool" where
  "log_inv ts state now \<longleftrightarrow>
    limiter_ok state \<and> spaced (lim_limit state) ts \<and> sorted ts \<and> (\<forall>t \<in> set ts. t \<le> now) \<and>
    (\<exists>gone. ts = gone @ lim_requests state \<and> (\<forall>t \<in> set gone. 60 \<le> now - t))"

lemma spaced_snoc:
  assumes "spaced k ts" and "ts = gone @ kept" and "length kept < k" and "\<forall>t \<in> set gone. 60 \<le> now - t"
  shows "spaced k (ts @ [now])"
  unfolding spaced_def
proof (intro allI impI)
  fix i assume i: "i + k < length (ts @ [now])"
  show "60 \<le> (ts @ [now]) ! (i + k) - (ts @ [now]) ! i"
  proof (cases "i + k < length ts")
    case True
    then show ?thesis using assms(1) by (simp add: spaced_def nth_append)
  next
    case False
    then have eq: "i + k = length ts" using i by simp
    then have "i < length gone" using assms(2,3) by simp
    then have "ts ! i \<in> set gone" using assms(2) by (simp add: nth_append)
    moreover have "i < length ts" using \<open>i < length gone\<close> assms(2) by simp
    ultimately show ?thesis using assms(4) eq by (simp add: nth_append)
  qed
qed

lemma before_request_log:
  assumes "clock_ok clock sleep tm" and inv: "log_inv ts state (tm w)"
  shows "\<exists>state' w' now. before_request clock sleep state w = Some (state', w') \<and>
    last (lim_requests state') = now \<and> lim_limit state' = lim_limit state \<and>
    log_inv (ts @ [now]) state' (tm w')"
proof -
  have li: "limiter_ok state" using inv by (simp add: log_inv_def)
  obtain popped now kept w' where r: "lim_requests state = popped @ kept"
    "before_request clock sleep state w = Some (state\<lparr>lim_requests := kept @ [now]\<rparr>, w')"
    "\<forall>t \<in> set popped. 60 \<le> now - t" "tm w \<le> now" "now \<le> tm w'" "length kept < lim_limit state"
    using before_request_result[where clock = clock and sleep = sleep and w = w and state = state,
        OF assms(1) li] by blast
  obtain gone where g: "ts = gone @ lim_requests state" "\<forall>t \<in> set gone. 60 \<le> tm w - t"
    using inv by (auto simp: log_inv_def)
  have ts: "ts = (gone @ popped) @ kept" using g r(1) by simp
  have old: "\<forall>t \<in> set (gone @ popped). 60 \<le> now - t" using g(2) r(3,4) by fastforce
  have le: "\<forall>t \<in> set ts. t \<le> now" using inv r(4) by (fastforce simp: log_inv_def)
  have "spaced (lim_limit state) (ts @ [now])"
    using spaced_snoc[OF _ ts r(6) old] inv by (simp add: log_inv_def)
  moreover have "sorted (ts @ [now])" using inv le by (simp add: log_inv_def sorted_append)
  moreover have "\<forall>t \<in> set (gone @ popped). 60 \<le> tm w' - t" using old r(5) by fastforce
  moreover have "\<forall>t \<in> set (ts @ [now]). t \<le> tm w'" using le r(5) by fastforce
  moreover have "limiter_ok (state\<lparr>lim_requests := kept @ [now]\<rparr>)"
    using li r(6) by (simp add: limiter_ok_def)
  ultimately have "log_inv (ts @ [now]) (state\<lparr>lim_requests := kept @ [now]\<rparr>) (tm w')"
    using ts by (auto simp: log_inv_def)
  then show ?thesis using r(2) by fastforce
qed

lemma admissions_log:
  assumes "clock_ok clock sleep tm" and "log_inv ts state (tm w)"
  shows "\<exists>us state' w'. admissions clock sleep n state w = Some (us, state', w') \<and> length us = n \<and>
    lim_limit state' = lim_limit state \<and> log_inv (ts @ us) state' (tm w')"
  using assms(2)
proof (induction n arbitrary: ts state w)
  case (Suc n)
  obtain s1 w1 now where 1: "before_request clock sleep state w = Some (s1, w1)"
    "last (lim_requests s1) = now" "lim_limit s1 = lim_limit state" "log_inv (ts @ [now]) s1 (tm w1)"
    using before_request_log[OF assms(1) Suc.prems] by blast
  from Suc.IH[OF 1(4)] show ?case using 1 by fastforce
qed auto

lemma new_limiter_log: "new_limiter limit = Inr state \<Longrightarrow> log_inv [] state now \<and> lim_limit state = nat limit"
  by (auto simp: new_limiter_def log_inv_def limiter_ok_def spaced_def split: if_splits)

text \<open>C34: A limiter never admits more than its limit in any minute: whatever the callers do between
  their requests, an admission and the one \<open>limit\<close> places later are at least 60 seconds apart, and
  admissions are in time order.\<close>

theorem limiter_window_bound:
  assumes "clock_ok clock sleep tm" and "new_limiter limit = Inr state"
    and "admissions clock sleep n state w = Some (ts, r)" and "i + nat limit < length ts"
  shows "60 \<le> ts ! (i + nat limit) - ts ! i \<and> sorted ts"
proof -
  have "log_inv [] state (tm w)" and "lim_limit state = nat limit"
    using new_limiter_log[OF assms(2)] by blast+
  then show ?thesis
    using admissions_log[OF assms(1), of "[]" state w n] assms(3,4)
    by (auto simp: log_inv_def spaced_def)
qed

definition ideal_clock :: "rat \<Rightarrow> rat \<times> rat" where
  "ideal_clock w = (w, w)"

definition ideal_sleep :: "rat \<Rightarrow> rat \<Rightarrow> rat" where
  "ideal_sleep d w = w + d"

lemma ideal_clock_ok: "clock_ok ideal_clock ideal_sleep id"
  by (simp add: clock_ok_def ideal_clock_def ideal_sleep_def)

text \<open>The limiter always lets its caller through: with a clock and a sleep that behave as
  documented every request is admitted after at most one wait, so any number of requests is
  eventually served.\<close>

theorem limiter_admits:
  assumes "clock_ok clock sleep tm" and "new_limiter limit = Inr state"
  shows "\<exists>ts r. admissions clock sleep n state w = Some (ts, r) \<and> length ts = n"
proof -
  have "log_inv [] state (tm w)" using new_limiter_log[OF assms(2)] by blast
  then show ?thesis using admissions_log[OF assms(1), of "[]" state w n] by blast
qed

theorem limiter_admits_witness:
  "\<exists>ts r. admissions ideal_clock ideal_sleep 3 \<lparr>lim_limit = 2, lim_requests = []\<rparr> 5 = Some (ts, r) \<and>
    length ts = 3"
  by (rule limiter_admits[OF ideal_clock_ok, of 2]) (simp add: new_limiter_def)

theorem limiter_window_bound_witness:
  "\<exists>ts r. admissions ideal_clock ideal_sleep 3 \<lparr>lim_limit = 2, lim_requests = []\<rparr> 5 = Some (ts, r) \<and>
    60 \<le> ts ! 2 - ts ! 0"
proof -
  have n: "new_limiter 2 = Inr \<lparr>lim_limit = 2, lim_requests = []\<rparr>" by (simp add: new_limiter_def)
  have "log_inv [] \<lparr>lim_limit = 2, lim_requests = []\<rparr> (id 5)" using new_limiter_log[OF n] by blast
  from admissions_log[OF ideal_clock_ok this, of 3] obtain ts r where
    a: "admissions ideal_clock ideal_sleep 3 \<lparr>lim_limit = 2, lim_requests = []\<rparr> 5 = Some (ts, r)"
    "length ts = 3" by auto
  have "60 \<le> ts ! (0 + nat 2) - ts ! 0 \<and> sorted ts"
    by (rule limiter_window_bound[OF ideal_clock_ok n a(1)]) (simp add: a(2))
  then have "60 \<le> ts ! 2 - ts ! 0" by (simp add: numeral_2_eq_2)
  with a(1) show ?thesis by blast
qed

section \<open>Retry delays\<close>

definition TRANSIENT_PROVIDER_STATUSES :: "int list" where
  "TRANSIENT_PROVIDER_STATUSES = [408, 425, 429, 500, 502, 503, 504]"

text \<open>The classes of exceptions the code distinguishes: the client's \<open>APITimeoutError\<close> is an
  \<open>APIConnectionError\<close>.\<close>

datatype exception_kind =
    API_Timeout_Error | API_Connection_Error | Timeout_Error | Connection_Error | Other_Error

record provider_exception =
  exc_status_code :: "int option"
  exc_kind :: exception_kind
  exc_retry_after :: "rat option"

record transient_error =
  te_retry_after_seconds :: "rat option"
  te_category :: string

definition is_connection_failure :: "exception_kind \<Rightarrow> bool" where
  "is_connection_failure k \<longleftrightarrow>
    k \<in> set [API_Timeout_Error, API_Connection_Error, Connection_Error, Timeout_Error]"

text \<open>\<open>exc_retry_after\<close> is what \<open>retry_after_seconds(exc)\<close> reads from the headers and the text.\<close>

definition transient_provider_error :: "provider_exception \<Rightarrow> transient_error option" where
  "transient_provider_error exc =
    (if (case exc_status_code exc of None \<Rightarrow> False | Some s \<Rightarrow> s \<in> set TRANSIENT_PROVIDER_STATUSES) \<or>
        is_connection_failure (exc_kind exc)
     then Some \<lparr>te_retry_after_seconds = exc_retry_after exc,
       te_category =
         (if exc_status_code exc = Some 429 then ''rate_limit''
          else if exc_status_code exc \<in> set [Some 500, Some 502, Some 503, Some 504]
            then ''provider_server_error''
          else if exc_status_code exc \<in> set [Some 408, Some 425] then ''transient_http''
          else if exc_kind exc \<in> set [API_Timeout_Error, Timeout_Error] then ''timeout''
          else ''connection'')\<rparr>
     else None)"

definition retry_delay :: "int \<Rightarrow> rat \<Rightarrow> rat \<Rightarrow> rat \<Rightarrow> rat option \<Rightarrow> rat" where
  "retry_delay attempt base_seconds max_delay_seconds provider_margin_seconds provider_delay_seconds =
    (let exponent = nat (max 0 (attempt - 1));
         local_delay = min (base_seconds * 2 ^ exponent) max_delay_seconds
     in case provider_delay_seconds of
          None \<Rightarrow> local_delay
        | Some d \<Rightarrow> max local_delay (d + provider_margin_seconds))"

definition provider_cooldown_delay :: "rat \<Rightarrow> rat \<Rightarrow> rat option \<Rightarrow> rat" where
  "provider_cooldown_delay base_seconds provider_margin_seconds provider_delay_seconds =
    (case provider_delay_seconds of
       None \<Rightarrow> base_seconds
     | Some d \<Rightarrow> d + provider_margin_seconds)"

text \<open>The retry delay backs off: it never decreases from one attempt to the next, starts at the base
  delay, never exceeds the larger of the configured maximum and what the provider asked for plus
  the margin, and never undercuts what the provider asked for.\<close>

theorem retry_delay_backs_off:
  assumes "0 \<le> base" and "a \<le> b"
  shows "retry_delay a base mx margin p \<le> retry_delay b base mx margin p \<and>
    min base mx \<le> retry_delay a base mx margin p \<and>
    (case p of None \<Rightarrow> retry_delay a base mx margin p \<le> mx
     | Some d \<Rightarrow> d + margin \<le> retry_delay a base mx margin p \<and>
         retry_delay a base mx margin p \<le> max mx (d + margin))"
proof -
  let ?e = "\<lambda>n. nat (max 0 (n - 1))"
  have "(2::rat) ^ ?e a \<le> 2 ^ ?e b" using assms(2) by (intro power_increasing) auto
  then have mono: "base * 2 ^ ?e a \<le> base * 2 ^ ?e b" using assms(1) by (rule mult_left_mono)
  have "(1::rat) \<le> 2 ^ ?e a" by simp
  then have low: "base \<le> base * 2 ^ ?e a" using assms(1) mult_left_mono[of 1 "2 ^ ?e a" base] by simp
  show ?thesis
    using mono low by (cases p) (auto simp: retry_delay_def Let_def min_def max_def)
qed

theorem retry_delay_backs_off_witness:
  "retry_delay 2 5 60 1 (Some 30) \<le> retry_delay 4 5 60 1 (Some 30)"
  using retry_delay_backs_off[of 5 2 4 60 1 "Some 30"] by simp

end
