(* ===== verification/Py_Json.thy ===== *)
theory Py_Json
  imports Py_Text Complex_Main
begin

text \<open>
  The dynamic values of decoded JSON that the code inspects with \<open>isinstance\<close>, \<open>.get\<close> and truth
  tests.  A float is a rational number; the NaN and the infinities, which \<open>json.loads\<close> accepts, are
  \<open>JNonFinite\<close>.  A dictionary is the list of its items in insertion order.
\<close>

datatype jvalue =
    JNull
  | JBool bool
  | JInt int
  | JFloat rat
  | JNonFinite
  | JStr string
  | JList "jvalue list"
  | JObj "(string \<times> jvalue) list"

type_synonym jdict = "(string \<times> jvalue) list"

definition dict_get :: "jdict \<Rightarrow> string \<Rightarrow> jvalue" where
  "dict_get d k = (case map_of d k of None \<Rightarrow> JNull | Some v \<Rightarrow> v)"

fun dict_set :: "(string \<times> 'v) list \<Rightarrow> string \<Rightarrow> 'v \<Rightarrow> (string \<times> 'v) list" where
  "dict_set [] k v = [(k, v)]"
| "dict_set ((k', v') # d) k v = (if k' = k then (k, v) # d else (k', v') # dict_set d k v)"

fun py_truthy :: "jvalue \<Rightarrow> bool" where
  "py_truthy JNull = False"
| "py_truthy (JBool b) = b"
| "py_truthy (JInt n) = (n \<noteq> 0)"
| "py_truthy (JFloat r) = (r \<noteq> 0)"
| "py_truthy JNonFinite = True"
| "py_truthy (JStr s) = (s \<noteq> [])"
| "py_truthy (JList xs) = (xs \<noteq> [])"
| "py_truthy (JObj d) = (d \<noteq> [])"

text \<open>\<open>str(v)\<close>; the texts of floats and containers are left to the parameter \<open>repr\<close>.\<close>

definition py_str :: "(jvalue \<Rightarrow> string) \<Rightarrow> jvalue \<Rightarrow> string" where
  "py_str repr v =
    (case v of
       JNull \<Rightarrow> ''None''
     | JBool b \<Rightarrow> (if b then ''True'' else ''False'')
     | JInt n \<Rightarrow> int_text n
     | JStr s \<Rightarrow> s
     | _ \<Rightarrow> repr v)"

definition py_or :: "jvalue \<Rightarrow> jvalue \<Rightarrow> jvalue" where
  "py_or a b = (if py_truthy a then a else b)"

fun hashable :: "jvalue \<Rightarrow> bool" where
  "hashable (JList xs) = False"
| "hashable (JObj d) = False"
| "hashable _ = True"

lemma map_of_dict_set: "map_of (dict_set d k v) = (map_of d)(k \<mapsto> v)"
  by (induction d k v rule: dict_set.induct) auto

lemma dict_set_same: "map_of d k = Some v \<Longrightarrow> dict_set d k v = d"
  by (induction d k v rule: dict_set.induct) (auto split: if_splits)

lemma dict_get_set: "dict_get (dict_set d k v) k' = (if k' = k then v else dict_get d k')"
  by (simp add: dict_get_def map_of_dict_set)

definition dict_has :: "(string \<times> 'v) list \<Rightarrow> string \<Rightarrow> bool" where
  "dict_has d k \<longleftrightarrow> map_of d k \<noteq> None"

lemma dict_has_set [simp]: "dict_has (dict_set d k v) k' \<longleftrightarrow> k' = k \<or> dict_has d k'"
  by (simp add: dict_has_def map_of_dict_set)

text \<open>The rounding of \<open>datetime\<close> to microseconds: half to even.\<close>

definition round_half_even :: "rat \<Rightarrow> int" where
  "round_half_even r =
    (let f = \<lfloor>r\<rfloor>; d = r - of_int f
     in if d < 1 / 2 then f else if d > 1 / 2 then f + 1 else if even f then f else f + 1)"

end
