(* ===== verification/Intent_Classification.thy ===== *)
theory Intent_Classification
  imports Py_Json
begin

text \<open>
  The intent taxonomy (\<open>src/core/intents.py\<close>), the contract of the model's answer
  (\<open>src/core/ia_classification.py\<close>) and the presentation rules (\<open>src/core/analysis.py\<close>).
  The JSON decoder of the standard library is a parameter of \<open>parse_result\<close>.
\<close>

section \<open>Intents\<close>

definition VALID_INTENT_TYPES :: "string list" where
  "VALID_INTENT_TYPES =
    [''question'', ''problem'', ''request'', ''complaint'', ''payment'', ''billing'',
     ''financial'', ''document'', ''protocol'', ''other'']"

definition INTENT_ALIASES :: "(string \<times> string) list" where
  "INTENT_ALIASES =
    [(''pergunta'', ''question''), (''duvida'', ''question''), (''problema'', ''problem''),
     (''erro'', ''problem''), (''solicitacao'', ''request''), (''pedido'', ''request''),
     (''reclamacao'', ''complaint''), (''insatisfacao'', ''complaint''),
     (''pagamento'', ''payment''), (''pagar'', ''payment''), (''taxa'', ''payment''),
     (''cobranca'', ''billing''), (''boleto'', ''billing''), (''financeiro'', ''financial''),
     (''financas'', ''financial''), (''documento'', ''document''), (''documentos'', ''document''),
     (''envio_de_documento'', ''document''), (''protocolo'', ''protocol''),
     (''protocolar'', ''protocol''), (''outro'', ''other''), (''outros'', ''other'')]"

text \<open>What remains of a lower-case character after \<open>NFKD\<close> and the removal of combining marks; the
  fraction slash and the Greek mu, which leave the character range, are written as the slash.\<close>

definition nfkd_table :: "(char \<times> string) list" where
  "nfkd_table =
    map (\<lambda>c. (c, ''a'')) [CHR 0xE0, CHR 0xE1, CHR 0xE2, CHR 0xE3, CHR 0xE4, CHR 0xE5, CHR 0xAA] @
    [(CHR 0xE7, ''c'')] @
    map (\<lambda>c. (c, ''e'')) [CHR 0xE8, CHR 0xE9, CHR 0xEA, CHR 0xEB] @
    map (\<lambda>c. (c, ''i'')) [CHR 0xEC, CHR 0xED, CHR 0xEE, CHR 0xEF] @
    [(CHR 0xF1, ''n'')] @
    map (\<lambda>c. (c, ''o'')) [CHR 0xF2, CHR 0xF3, CHR 0xF4, CHR 0xF5, CHR 0xF6, CHR 0xBA] @
    map (\<lambda>c. (c, ''u'')) [CHR 0xF9, CHR 0xFA, CHR 0xFB, CHR 0xFC] @
    map (\<lambda>c. (c, ''y'')) [CHR 0xFD, CHR 0xFF] @
    [(CHR 0xB9, ''1''), (CHR 0xB2, ''2''), (CHR 0xB3, ''3''), (CHR 0xBC, ''1/4''),
     (CHR 0xBD, ''1/2''), (CHR 0xBE, ''3/4''), (CHR 0xA0, '' ''), (CHR 0xA8, '' ''),
     (CHR 0xAF, '' ''), (CHR 0xB4, '' ''), (CHR 0xB8, '' ''), (CHR 0xB5, ''/'')]"

definition strip_accents :: "string \<Rightarrow> string" where
  "strip_accents s = concat (map (\<lambda>c. case map_of nfkd_table c of None \<Rightarrow> [c] | Some t \<Rightarrow> t) s)"

definition slug_char :: "char \<Rightarrow> bool" where
  "slug_char c \<longleftrightarrow> c \<in> set (ascii_lower_letters @ ascii_digits)"

definition intent_slug :: "string \<Rightarrow> string" where
  "intent_slug s =
    strip_underscores (sub_runs slug_char False (strip_accents (py_lower (py_strip s))))"

definition normalize_intent_type :: "jvalue \<Rightarrow> string option" where
  "normalize_intent_type value =
    (case value of
       JStr s \<Rightarrow>
         (let normalized = intent_slug s
          in if normalized \<in> set VALID_INTENT_TYPES then Some normalized
             else map_of INTENT_ALIASES normalized)
     | _ \<Rightarrow> None)"

section \<open>The model's answer\<close>

definition required_fields :: "string list" where
  "required_fields = [''confidence'', ''description'', ''intent_type'', ''title'']"

text \<open>The messages contain the letters o, i, c and a with diacritics.\<close>

definition missing_message :: "string list \<Rightarrow> string" where
  "missing_message missing =
    ''Resposta JSON da IA sem campos obrigat'' @ [CHR 0xF3] @ ''rios: '' @
    concat (case missing of [] \<Rightarrow> [] | f # fs \<Rightarrow> f # concat (map (\<lambda>g. ['', '', g]) fs))"

definition title_message :: string where
  "title_message = ''O t'' @ [CHR 0xED] @ ''tulo da resposta da IA deve ser texto n'' @ [CHR 0xE3] @ ''o vazio''"

definition description_message :: string where
  "description_message =
    ''A descri'' @ [CHR 0xE7, CHR 0xE3] @ ''o da resposta da IA deve ser texto n'' @ [CHR 0xE3] @ ''o vazio''"

definition confidence_message :: string where
  "confidence_message =
    ''A confian'' @ [CHR 0xE7] @ ''a da resposta da IA deve estar entre 0 e 1''"

definition nonblank_text :: "jvalue \<Rightarrow> bool" where
  "nonblank_text v = (case v of JStr s \<Rightarrow> py_strip s \<noteq> [] | _ \<Rightarrow> False)"

definition confidence_ok :: "jvalue \<Rightarrow> bool" where
  "confidence_ok v =
    (case v of JInt n \<Rightarrow> 0 \<le> n \<and> n \<le> 1 | JFloat r \<Rightarrow> 0 \<le> r \<and> r \<le> 1 | _ \<Rightarrow> False)"

definition validate_result :: "jvalue \<Rightarrow> py_error + jdict" where
  "validate_result result =
    (case result of
       JObj d \<Rightarrow>
         (let missing = filter (\<lambda>f. \<not> dict_has d f) required_fields
          in if missing \<noteq> [] then Inl (ValueError (missing_message missing))
             else if \<not> nonblank_text (dict_get d ''title'') then Inl (ValueError title_message)
             else if \<not> nonblank_text (dict_get d ''description'')
               then Inl (ValueError description_message)
             else if \<not> confidence_ok (dict_get d ''confidence'')
               then Inl (ValueError confidence_message)
             else case normalize_intent_type (dict_get d ''intent_type'') of
               None \<Rightarrow> Inr (dict_set (dict_set d ''intent_type'' (JStr ''other''))
                 ''confidence'' (JFloat 0))
             | Some intent \<Rightarrow> Inr (dict_set d ''intent_type'' (JStr intent)))
     | _ \<Rightarrow> Inl (ValueError ''A resposta JSON da IA deve ser um objeto''))"

text \<open>\<open>loads\<close> is \<open>json.loads\<close> (\<open>None\<close> for its \<open>JSONDecodeError\<close>), \<open>raw_decode\<close> decodes the value
  that starts at an offset.  The first object that has one of the expected fields decides.\<close>

definition brace_offsets :: "string \<Rightarrow> nat list" where
  "brace_offsets text = filter (\<lambda>i. text ! i = CHR ''{'') [0..<length text]"

fun first_candidate :: "(nat \<Rightarrow> jvalue option) \<Rightarrow> nat list \<Rightarrow> jdict option" where
  "first_candidate decode [] = None"
| "first_candidate decode (i # offsets) =
    (case decode i of
       Some (JObj d) \<Rightarrow>
         (if list_ex (dict_has d) required_fields then Some d else first_candidate decode offsets)
     | _ \<Rightarrow> first_candidate decode offsets)"

definition parse_result ::
  "(string \<Rightarrow> jvalue option) \<Rightarrow> (string \<Rightarrow> nat \<Rightarrow> jvalue option) \<Rightarrow> string \<Rightarrow> py_error + jdict" where
  "parse_result loads raw_decode result_text =
    (case loads result_text of
       Some v \<Rightarrow> validate_result v
     | None \<Rightarrow>
        (case first_candidate (raw_decode result_text) (brace_offsets result_text) of
           Some d \<Rightarrow> validate_result (JObj d)
         | None \<Rightarrow> Inl (ValueError ''Groq response does not contain valid classification JSON'')))"

section \<open>Presentation\<close>

text \<open>\<open>str(value).strip() or None\<close> for a value that is text.\<close>

definition normalize_protocol :: "string option \<Rightarrow> string option" where
  "normalize_protocol value =
    (case value of
       None \<Rightarrow> None
     | Some v \<Rightarrow> (if py_strip v = [] then None else Some (py_strip v)))"

definition build_display_title :: "string option \<Rightarrow> string option \<Rightarrow> string option" where
  "build_display_title title protocol =
    (let normalized_title = (case title of None \<Rightarrow> [] | Some t \<Rightarrow> py_strip t)
     in if normalized_title = [] then None
        else case protocol of
          None \<Rightarrow> Some normalized_title
        | Some p \<Rightarrow>
            (if p = [] then Some normalized_title
             else Some (''['' @ p @ ''] - '' @ normalized_title)))"

section \<open>Lemmas\<close>

lemma alias_targets_valid: "snd ` set INTENT_ALIASES \<subseteq> set VALID_INTENT_TYPES"
  by code_simp

lemma valid_intents_fixed: "\<forall>i \<in> set VALID_INTENT_TYPES. intent_slug i = i"
  by code_simp

lemma normalize_valid: "i \<in> set VALID_INTENT_TYPES \<Longrightarrow> normalize_intent_type (JStr i) = Some i"
  using valid_intents_fixed by (simp add: normalize_intent_type_def)

lemma normalize_intent_range:
  "normalize_intent_type v = Some i \<Longrightarrow> i \<in> set VALID_INTENT_TYPES"
  using alias_targets_valid
  by (auto simp: normalize_intent_type_def Let_def split: jvalue.splits if_splits dest!: map_of_SomeD)

text \<open>What an accepted answer satisfies.\<close>

definition valid_answer :: "jdict \<Rightarrow> bool" where
  "valid_answer d \<longleftrightarrow>
    list_all (dict_has d) required_fields \<and>
    nonblank_text (dict_get d ''title'') \<and> nonblank_text (dict_get d ''description'') \<and>
    confidence_ok (dict_get d ''confidence'') \<and>
    (case dict_get d ''intent_type'' of JStr i \<Rightarrow> i \<in> set VALID_INTENT_TYPES | _ \<Rightarrow> False)"

lemma validate_result_valid: "validate_result v = Inr d \<Longrightarrow> valid_answer d"
proof -
  assume v: "validate_result v = Inr d"
  then obtain d0 where d0: "v = JObj d0" by (auto simp: validate_result_def split: jvalue.splits)
  have ok: "list_all (dict_has d0) required_fields" "nonblank_text (dict_get d0 ''title'')"
    "nonblank_text (dict_get d0 ''description'')" "confidence_ok (dict_get d0 ''confidence'')"
    using v d0 by (auto simp: validate_result_def Let_def filter_empty_conv list_all_iff split: if_splits)
  then have all: "filter (\<lambda>f. \<not> dict_has d0 f) required_fields = []"
    by (auto simp: filter_empty_conv list_all_iff)
  have "list_all (dict_has (dict_set d0 k x)) required_fields" for k x
    using ok(1) by (auto simp: list_all_iff)
  then have "list_all (dict_has (dict_set (dict_set d0 k x) k2 x2)) required_fields" for k x k2 x2
    by (auto simp: list_all_iff)
  note has = this \<open>\<And>k x. list_all (dict_has (dict_set d0 k x)) required_fields\<close>
  show ?thesis
  proof (cases "normalize_intent_type (dict_get d0 ''intent_type'')")
    case None
    then have "d = dict_set (dict_set d0 ''intent_type'' (JStr ''other'')) ''confidence'' (JFloat 0)"
      using v d0 all ok by (simp add: validate_result_def)
    then show ?thesis
      using has ok by (simp add: valid_answer_def dict_get_set confidence_ok_def VALID_INTENT_TYPES_def)
  next
    case (Some i)
    then have "d = dict_set d0 ''intent_type'' (JStr i)"
      using v d0 all ok by (simp add: validate_result_def)
    then show ?thesis
      using has ok normalize_intent_range[OF Some] by (simp add: valid_answer_def dict_get_set)
  qed
qed

lemma validate_valid_answer: "valid_answer d \<Longrightarrow> validate_result (JObj d) = Inr d"
proof -
  assume d: "valid_answer d"
  then have all: "filter (\<lambda>f. \<not> dict_has d f) required_fields = []"
    by (auto simp: valid_answer_def filter_empty_conv list_all_iff)
  obtain i where i: "dict_get d ''intent_type'' = JStr i" "i \<in> set VALID_INTENT_TYPES"
    using d by (auto simp: valid_answer_def split: jvalue.splits)
  have "map_of d ''intent_type'' = Some (JStr i)"
    using i(1) by (auto simp: dict_get_def split: option.splits)
  then show ?thesis
    using d all i normalize_valid by (simp add: validate_result_def valid_answer_def dict_set_same)
qed

section \<open>Properties\<close>




definition sample_answer :: jdict where
  "sample_answer =
    [(''intent_type'', JStr ''Boleto''), (''confidence'', JFloat (9 / 10)), (''title'', JStr ''Guia''),
     (''description'', JStr ''Cliente pediu a guia.'')]"


text \<open>A model answer whose intent is not recognised is not rejected but neutralised: the other
  fields are kept, the intent becomes \<open>other\<close> and the confidence 0, so that it can never pass a
  confidence threshold.\<close>

theorem unknown_intent_neutralised:
  assumes "validate_result (JObj d) = Inr d'"
    and "normalize_intent_type (dict_get d ''intent_type'') = None"
  shows "dict_get d' ''intent_type'' = JStr ''other'' \<and> dict_get d' ''confidence'' = JFloat 0 \<and>
    (\<forall>k. k \<noteq> ''intent_type'' \<and> k \<noteq> ''confidence'' \<longrightarrow> dict_get d' k = dict_get d k)"
proof -
  have "d' = dict_set (dict_set d ''intent_type'' (JStr ''other'')) ''confidence'' (JFloat 0)"
    using assms by (auto simp: validate_result_def Let_def split: if_splits)
  then show ?thesis by (simp add: dict_get_set)
qed

theorem unknown_intent_neutralised_witness:
  "\<exists>d'. validate_result (JObj (dict_set sample_answer ''intent_type'' (JStr ''xyz''))) = Inr d' \<and>
    dict_get d' ''confidence'' = JFloat 0"
proof -
  let ?d = "dict_set sample_answer ''intent_type'' (JStr ''xyz'')"
  have "normalize_intent_type (dict_get ?d ''intent_type'') = None" by code_simp
  moreover have "(case validate_result (JObj ?d) of Inl _ \<Rightarrow> False | Inr _ \<Rightarrow> True)" by code_simp
  then obtain d' where "validate_result (JObj ?d) = Inr d'" by (auto split: sum.splits)
  ultimately show ?thesis using unknown_intent_neutralised by blast
qed

end
