(* ===== verification/Finalization.thy ===== *)
theory Finalization
  imports Py_Json Durable_Media
begin

text \<open>
  Normalization of a recovered message history for the finalization of a cycle
  (\<open>src/core/finalization.py\<close>, \<open>src/core/media.py\<close>, \<open>src/core/message_filter.py\<close>): the inferred
  start of the cycle, the filter, the merge of media states and the chunking for the model.  A raw
  message is a decoded JSON object.  \<open>datetime.fromisoformat\<close> is the parameter \<open>fromiso\<close>: it reads a text as a
  local time and an optional offset from UTC, both in microseconds.  A normalized message keeps the
  timestamp as a point in time; the code stores its ISO text in UTC, whose order is the same.
  Rendering (\<open>render_context\<close>, \<open>_quote_excerpt\<close>) is not modelled.
\<close>

section \<open>Messages\<close>

type_synonym iso_parser = "string \<Rightarrow> (time \<times> time option) option"

fun replace_Z :: "string \<Rightarrow> string" where
  "replace_Z [] = []"
| "replace_Z (c # s) = (if c = CHR ''Z'' then ''+00:00'' @ replace_Z s else c # replace_Z s)"

definition parse_timestamp :: "iso_parser \<Rightarrow> jvalue \<Rightarrow> time option" where
  "parse_timestamp fromiso value =
    (case value of
       JStr s \<Rightarrow>
         (case fromiso (replace_Z s) of
            None \<Rightarrow> None
          | Some (t, None) \<Rightarrow> Some t
          | Some (t, Some offset) \<Rightarrow> Some (t - offset))
     | _ \<Rightarrow> None)"

definition SUPPORTED_HISTORY_TYPES :: "string list" where
  "SUPPORTED_HISTORY_TYPES = [''chat'', ''document'', ''ptt'', ''audio'', ''voice'', ''image'']"

definition AUDIO_TYPES :: "string list" where
  "AUDIO_TYPES = [''ptt'', ''audio'', ''voice'']"

definition CLOCK_SKEW :: time where
  "CLOCK_SKEW = seconds 5"

text \<open>\<open>value in SUPPORTED_HISTORY_TYPES\<close> raises for a value that has no hash.\<close>

definition supported_type :: "jvalue \<Rightarrow> py_error + bool" where
  "supported_type v =
    (if \<not> hashable v then Inl (TypeError ''unhashable type'')
     else Inr (case v of JStr s \<Rightarrow> s \<in> set SUPPORTED_HISTORY_TYPES | _ \<Rightarrow> False))"

definition message_time :: "iso_parser \<Rightarrow> jdict \<Rightarrow> time option" where
  "message_time fromiso raw =
    parse_timestamp fromiso (py_or (dict_get raw ''timestamp'') (dict_get raw ''createdAt''))"

definition is_bot_message :: "bool option \<Rightarrow> string option \<Rightarrow> bool" where
  "is_bot_message is_from_bot origin \<longleftrightarrow>
    is_from_bot = Some True \<or>
    (case origin of None \<Rightarrow> False | Some s \<Rightarrow> py_lower (py_strip s) = ''bot'')"

definition is_image_message :: "jvalue \<Rightarrow> jvalue \<Rightarrow> bool" where
  "is_image_message message_type file_data \<longleftrightarrow>
    message_type = JStr ''image'' \<or>
    (message_type = JStr ''document'' \<and>
      (case file_data of
         JObj d \<Rightarrow>
           (case dict_get d ''mimetype'' of
              JStr m \<Rightarrow> py_startswith (py_lower (py_strip m)) ''image/''
            | _ \<Rightarrow> False)
       | _ \<Rightarrow> False))"

definition effective_message_type :: "string \<Rightarrow> jvalue \<Rightarrow> string" where
  "effective_message_type message_type file_data =
    (if is_image_message (JStr message_type) file_data then ''image'' else message_type)"

definition file_keys :: "(string \<times> string) list" where
  "file_keys =
    [(''id'', ''id''), (''name'', ''name''), (''publicFilename'', ''public_filename''),
     (''public_filename'', ''public_filename''), (''extension'', ''extension''),
     (''mimetype'', ''mimetype'')]"

fun collect_file :: "jdict \<Rightarrow> (string \<times> string) list \<Rightarrow> (string \<times> string) list \<Rightarrow> (string \<times> string) list" where
  "collect_file raw [] result = result"
| "collect_file raw ((source, target) # keys) result =
    collect_file raw keys
      (case dict_get raw source of
         JStr v \<Rightarrow>
           (if py_strip v \<noteq> [] \<and> \<not> dict_has result target
            then dict_set result target (py_strip v) else result)
       | _ \<Rightarrow> result)"

definition safe_file_metadata :: "jvalue \<Rightarrow> (string \<times> string) list" where
  "safe_file_metadata raw = (case raw of JObj d \<Rightarrow> collect_file d file_keys [] | _ \<Rightarrow> [])"

definition file_value :: "(string \<times> string) list \<Rightarrow> jvalue" where
  "file_value f = JObj (map (\<lambda>(k, v). (k, JStr v)) f)"

record norm_message =
  nm_message_id :: string
  nm_timestamp :: time
  nm_sender_type :: string
  nm_sender_id :: jvalue
  nm_sender_name :: "string option"
  nm_type :: string
  nm_content :: string
  nm_quoted_message_id :: "string option"
  nm_media_status :: "string option"
  nm_file :: "(string \<times> string) list"

section \<open>Start of the cycle\<close>

text \<open>The two lists the loop collects: times of ticket-open events and of supported messages.\<close>

fun scan_history ::
  "iso_parser \<Rightarrow> time option \<Rightarrow> time \<Rightarrow> jdict list \<Rightarrow> py_error + time list \<times> time list" where
  "scan_history fromiso previous_closed_at closed_at [] = Inr ([], [])"
| "scan_history fromiso previous_closed_at closed_at (message # rest) =
    (case message_time fromiso message of
       None \<Rightarrow> scan_history fromiso previous_closed_at closed_at rest
     | Some timestamp \<Rightarrow>
        (if timestamp > closed_at + CLOCK_SKEW
         then scan_history fromiso previous_closed_at closed_at rest
         else if dict_get message ''type'' = JStr ''ticket'' \<and>
           (case dict_get message ''data'' of
              JObj d \<Rightarrow> dict_get d ''ticketOpen'' = JBool True | _ \<Rightarrow> False)
         then (case scan_history fromiso previous_closed_at closed_at rest of
                 Inl e \<Rightarrow> Inl e
               | Inr (opens, valid) \<Rightarrow> Inr (timestamp # opens, valid))
         else case supported_type (dict_get message ''type'') of
           Inl e \<Rightarrow> Inl e
         | Inr supported \<Rightarrow>
            (case scan_history fromiso previous_closed_at closed_at rest of
               Inl e \<Rightarrow> Inl e
             | Inr (opens, valid) \<Rightarrow>
                 Inr (opens,
                   if supported \<and> (case previous_closed_at of None \<Rightarrow> True | Some p \<Rightarrow> timestamp > p)
                   then timestamp # valid else valid))))"

definition infer_cycle_start ::
  "iso_parser \<Rightarrow> jdict list \<Rightarrow> time option \<Rightarrow> jvalue \<Rightarrow> time option \<Rightarrow> time \<Rightarrow>
   py_error + time \<times> string" where
  "infer_cycle_start fromiso raw_messages configured_start ticket_started_at previous_closed_at closed_at =
    (case configured_start of
       Some s \<Rightarrow> Inr (s, ''webhook_open_event'')
     | None \<Rightarrow>
        (case scan_history fromiso previous_closed_at closed_at raw_messages of
           Inl e \<Rightarrow> Inl e
         | Inr (technical_opens, valid_messages) \<Rightarrow>
            (case technical_opens of
               t # ts \<Rightarrow> Inr (fold max ts t, ''digisac_ticket_open_event'')
             | [] \<Rightarrow>
                (case parse_timestamp fromiso ticket_started_at of
                   Some ticket_start \<Rightarrow>
                     (if ticket_start \<le> closed_at \<and>
                         (case previous_closed_at of None \<Rightarrow> True | Some p \<Rightarrow> ticket_start > p)
                      then Inr (ticket_start, ''digisac_ticket_started_at'')
                      else case valid_messages of
                        v # vs \<Rightarrow> Inr (fold min vs v, ''first_unassociated_message'')
                      | [] \<Rightarrow> Inr (closed_at, ''empty_cycle_at_close''))
                 | None \<Rightarrow>
                     (case valid_messages of
                        v # vs \<Rightarrow> Inr (fold min vs v, ''first_unassociated_message'')
                      | [] \<Rightarrow> Inr (closed_at, ''empty_cycle_at_close''))))))"

section \<open>Normalization\<close>

text \<open>What the loop body does with one raw message: it is kept, or excluded for a reason with the
  warnings it gives.  A warning is its code, the message id and, for an unknown type, the type (the
  code stores \<open>str\<close> of it).\<close>

type_synonym history_warning = "string \<times> string \<times> jvalue"

datatype verdict = Keep norm_message | Exclude string "history_warning list"

definition str_or_none :: "jvalue \<Rightarrow> string option" where
  "str_or_none v = (case v of JStr s \<Rightarrow> Some s | _ \<Rightarrow> None)"

definition bool_or_none :: "jvalue \<Rightarrow> bool option" where
  "bool_or_none v = (case v of JBool b \<Rightarrow> Some b | _ \<Rightarrow> None)"

definition build_message :: "jdict \<Rightarrow> string \<Rightarrow> string \<Rightarrow> time \<Rightarrow> norm_message" where
  "build_message raw message_id message_type timestamp =
    (let is_from_me = (dict_get raw ''isFromMe'' = JBool True);
         file_data = safe_file_metadata (dict_get raw ''file'')
     in \<lparr>nm_message_id = message_id, nm_timestamp = timestamp,
         nm_sender_type = (if is_from_me then ''agent'' else ''client''),
         nm_sender_id = (if is_from_me then dict_get raw ''userId'' else dict_get raw ''contactId''),
         nm_sender_name = None,
         nm_type = effective_message_type message_type (file_value file_data),
         nm_content = (case dict_get raw ''text'' of JStr t \<Rightarrow> py_strip t | _ \<Rightarrow> []),
         nm_quoted_message_id = str_or_none (dict_get raw ''quotedMessageId''),
         nm_media_status = None, nm_file = file_data\<rparr>)"

definition judge_message ::
  "iso_parser \<Rightarrow> time \<Rightarrow> time option \<Rightarrow> time \<Rightarrow> jdict \<Rightarrow> py_error + verdict" where
  "judge_message fromiso inferred_start previous_closed_at ticket_closed_at raw =
    (case dict_get raw ''id'' of
       JStr message_id \<Rightarrow>
        (if py_strip message_id = [] then Inr (Exclude ''missing_message_id'' [])
         else
           let message_type = dict_get raw ''type''
           in if message_type = JStr ''ticket'' then Inr (Exclude ''technical_ticket_event'' [])
              else case supported_type message_type of
                Inl e \<Rightarrow> Inl e
              | Inr False \<Rightarrow>
                  Inr (Exclude ''unknown_type'' [(''unknown_message_type'', message_id, message_type)])
              | Inr True \<Rightarrow>
                 (if dict_get raw ''visible'' = JBool False then Inr (Exclude ''invisible'' [])
                  else if dict_get raw ''deletedAt'' \<noteq> JNull \<and> dict_get raw ''deletedAt'' \<noteq> JStr []
                    then Inr (Exclude ''deleted'' [])
                  else if is_bot_message (bool_or_none (dict_get raw ''isFromBot''))
                      (str_or_none (dict_get raw ''origin''))
                    then Inr (Exclude ''bot'' [])
                  else case message_time fromiso raw of
                    None \<Rightarrow> Inr (Exclude ''invalid_timestamp'' [(''invalid_timestamp'', message_id, JNull)])
                  | Some timestamp \<Rightarrow>
                     (if (case previous_closed_at of None \<Rightarrow> False | Some p \<Rightarrow> timestamp \<le> p)
                      then Inr (Exclude ''previous_cycle'' [])
                      else if timestamp < inferred_start - CLOCK_SKEW \<or>
                        timestamp > ticket_closed_at + CLOCK_SKEW
                      then Inr (Exclude ''outside_cycle'' [])
                      else Inr (Keep (build_message raw message_id
                        (case message_type of JStr t \<Rightarrow> t | _ \<Rightarrow> []) timestamp)))))
     | _ \<Rightarrow> Inr (Exclude ''missing_message_id'' []))"

type_synonym counts = "(string \<times> nat) list"

definition add_count :: "string \<Rightarrow> counts \<Rightarrow> counts" where
  "add_count reason excluded =
    dict_set excluded reason ((case map_of excluded reason of None \<Rightarrow> 0 | Some n \<Rightarrow> n) + 1)"

fun normalize_loop ::
  "(jdict \<Rightarrow> py_error + verdict) \<Rightarrow> jdict list \<Rightarrow> norm_message list \<Rightarrow> history_warning list \<Rightarrow> counts \<Rightarrow>
   py_error + norm_message list \<times> history_warning list \<times> counts" where
  "normalize_loop judge [] normalized warnings excluded = Inr (normalized, warnings, excluded)"
| "normalize_loop judge (raw # rest) normalized warnings excluded =
    (case judge raw of
       Inl e \<Rightarrow> Inl e
     | Inr (Keep m) \<Rightarrow> normalize_loop judge rest (normalized @ [m]) warnings excluded
     | Inr (Exclude reason ws) \<Rightarrow>
         normalize_loop judge rest normalized (warnings @ ws) (add_count reason excluded))"

record normalized_history =
  nh_messages :: "norm_message list"
  nh_warnings :: "history_warning list"
  nh_exclusion_counts :: counts
  nh_cycle_started_at :: time
  nh_cycle_start_strategy :: string

definition message_order :: "norm_message \<Rightarrow> time \<times> string" where
  "message_order m = (nm_timestamp m, nm_message_id m)"

definition normalize_history ::
  "iso_parser \<Rightarrow> jdict list \<Rightarrow> time option \<Rightarrow> time option \<Rightarrow> time \<Rightarrow> jvalue \<Rightarrow>
   py_error + normalized_history" where
  "normalize_history fromiso raw_messages cycle_started_at previous_closed_at ticket_closed_at
      ticket_started_at =
    (case infer_cycle_start fromiso raw_messages cycle_started_at ticket_started_at previous_closed_at
        ticket_closed_at of
       Inl e \<Rightarrow> Inl e
     | Inr (inferred_start, strategy) \<Rightarrow>
        (case normalize_loop (judge_message fromiso inferred_start previous_closed_at ticket_closed_at)
            raw_messages [] [] [] of
           Inl e \<Rightarrow> Inl e
         | Inr (normalized, warnings, excluded) \<Rightarrow>
             Inr \<lparr>nh_messages = sort_key message_order normalized, nh_warnings = warnings,
               nh_exclusion_counts = excluded, nh_cycle_started_at = inferred_start,
               nh_cycle_start_strategy = strategy\<rparr>))"

section \<open>Media states\<close>

record media_state =
  ms_status :: content_status
  ms_text :: "string option"
  ms_attempt_count :: int

definition status_text :: "content_status \<Rightarrow> string" where
  "status_text s =
    (case s of Pending \<Rightarrow> ''pending'' | Processing \<Rightarrow> ''processing''
     | Completed \<Rightarrow> ''completed'' | Failed \<Rightarrow> ''failed'')"

definition needs_media :: "norm_message \<Rightarrow> bool" where
  "needs_media m \<longleftrightarrow>
    nm_type m \<in> set AUDIO_TYPES \<or> is_image_message (JStr (nm_type m)) (file_value (nm_file m))"

datatype media_need = Ready | Await | Block

definition apply_media_state ::
  "int \<Rightarrow> media_state option \<Rightarrow> norm_message \<Rightarrow> norm_message \<times> media_need" where
  "apply_media_state max_attempts state m =
    (case state of
       None \<Rightarrow> (m\<lparr>nm_media_status := Some ''missing''\<rparr>, Await)
     | Some st \<Rightarrow>
        (let m' = m\<lparr>nm_media_status := Some (status_text (ms_status st))\<rparr>
         in case ms_status st of
              Completed \<Rightarrow>
                (let text = (case ms_text st of None \<Rightarrow> [] | Some t \<Rightarrow> py_strip t)
                 in (m'\<lparr>nm_content := text\<rparr>, if text = [] then Await else Ready))
            | Pending \<Rightarrow> (m', Await)
            | Processing \<Rightarrow> (m', Await)
            | Failed \<Rightarrow> (m', if ms_attempt_count st < max_attempts then Await else Block)))"

text \<open>The list of warnings the code returns beside these three is always empty.\<close>

fun apply_media_states ::
  "int \<Rightarrow> (string \<rightharpoonup> media_state) \<Rightarrow> norm_message list \<Rightarrow>
   norm_message list \<times> string list \<times> string list" where
  "apply_media_states max_attempts states [] = ([], [], [])"
| "apply_media_states max_attempts states (m # ms) =
    (case apply_media_states max_attempts states ms of
       (output, pending, blocked) \<Rightarrow>
         (if \<not> needs_media m then (m # output, pending, blocked)
          else case apply_media_state max_attempts (states (nm_message_id m)) m of
            (m', Ready) \<Rightarrow> (m' # output, pending, blocked)
          | (m', Await) \<Rightarrow> (m' # output, nm_message_id m # pending, blocked)
          | (m', Block) \<Rightarrow> (m' # output, pending, nm_message_id m # blocked)))"

section \<open>Chunks\<close>

text \<open>\<open>math.ceil(len(text.encode("utf-8")) / 3)\<close>: a character below 128 takes one byte, the others of
  the range two.\<close>

definition utf8_length :: "string \<Rightarrow> nat" where
  "utf8_length s = sum_list (map (\<lambda>c. if of_char c < (128::nat) then 1 else 2) s)"

definition estimate_tokens :: "string \<Rightarrow> nat" where
  "estimate_tokens s = (utf8_length s + 2) div 3"

definition message_cost :: "norm_message \<Rightarrow> nat" where
  "message_cost m = estimate_tokens (nm_content m) + 40"

fun chunk_loop ::
  "int \<Rightarrow> norm_message list \<Rightarrow> norm_message list \<Rightarrow> nat \<Rightarrow> norm_message list list" where
  "chunk_loop token_limit [] current tokens = (if current = [] then [] else [current])"
| "chunk_loop token_limit (m # ms) current tokens =
    (if current \<noteq> [] \<and> int (tokens + message_cost m) > token_limit
     then current # chunk_loop token_limit ms [m] (message_cost m)
     else chunk_loop token_limit ms (current @ [m]) (tokens + message_cost m))"

definition chunk_messages :: "norm_message list \<Rightarrow> int \<Rightarrow> norm_message list list" where
  "chunk_messages messages token_limit = chunk_loop token_limit messages [] 0"

section \<open>Lemmas on the loops\<close>

definition total :: "counts \<Rightarrow> nat" where
  "total c = sum_list (map snd c)"

lemma total_set: "total (dict_set c k v) + (case map_of c k of None \<Rightarrow> 0 | Some n \<Rightarrow> n) = total c + v"
  by (induction c k v rule: dict_set.induct) (auto simp: total_def split: option.splits)

lemma total_add [simp]: "total (add_count reason c) = Suc (total c)"
  using total_set[of c reason "(case map_of c reason of None \<Rightarrow> 0 | Some n \<Rightarrow> n) + 1"]
  by (simp add: add_count_def)

lemma normalize_loop_spec:
  assumes "normalize_loop judge raws ms ws c = Inr (ms', ws', c')"
  shows "length ms' + total c' = length ms + total c + length raws \<and>
    (\<forall>m \<in> set ms'. m \<in> set ms \<or> (\<exists>raw \<in> set raws. judge raw = Inr (Keep m)))"
  using assms
proof (induction raws arbitrary: ms ws c)
  case (Cons raw raws)
  obtain v where v: "judge raw = Inr v"
    using Cons.prems by (cases "judge raw") simp_all
  show ?case
  proof (cases v)
    case (Keep m)
    then have "normalize_loop judge raws (ms @ [m]) ws c = Inr (ms', ws', c')"
      using Cons.prems v by simp
    from Cons.IH[OF this] show ?thesis using v Keep by auto
  next
    case (Exclude reason ws2)
    then have "normalize_loop judge raws ms (ws @ ws2) (add_count reason c) = Inr (ms', ws', c')"
      using Cons.prems v by simp
    from Cons.IH[OF this] show ?thesis by auto
  qed
qed simp

lemma fold_max_mem: "fold max ts (t::'a::linorder) \<in> set (t # ts)"
  by (induction ts arbitrary: t) (auto simp: max_def split: if_splits)

lemma fold_max_ge: "\<forall>x \<in> set (t # ts). x \<le> fold max ts (t::'a::linorder)"
proof (induction ts arbitrary: t)
  case (Cons u ts)
  have "max u t \<le> fold max ts (max u t)" using Cons[of "max u t"] by simp
  moreover have "\<forall>x \<in> set ts. x \<le> fold max ts (max u t)" using Cons[of "max u t"] by simp
  ultimately show ?case by simp
qed simp

lemma fold_min_mem: "fold min ts (t::'a::linorder) \<in> set (t # ts)"
  by (induction ts arbitrary: t) (auto simp: min_def split: if_splits)

lemma scan_history_bounds:
  assumes "scan_history fromiso prev closing raws = Inr (opens, valid)"
  shows "(\<forall>t \<in> set opens. t \<le> closing + CLOCK_SKEW) \<and>
    (\<forall>t \<in> set valid. t \<le> closing + CLOCK_SKEW \<and> (\<forall>p. prev = Some p \<longrightarrow> p < t))"
  using assms
proof (induction raws arbitrary: opens valid)
  case (Cons raw raws)
  show ?case
  proof (cases "\<exists>t. message_time fromiso raw = Some t \<and> t \<le> closing + CLOCK_SKEW")
    case False
    then have "scan_history fromiso prev closing raws = Inr (opens, valid)"
      using Cons.prems by (auto split: option.splits if_splits)
    then show ?thesis by (rule Cons.IH)
  next
    case True
    then obtain t where t: "message_time fromiso raw = Some t" "t \<le> closing + CLOCK_SKEW" by blast
    obtain o' v' where rec: "scan_history fromiso prev closing raws = Inr (o', v')"
      and ov: "opens = o' \<and> valid = v' \<or> opens = t # o' \<and> valid = v' \<or>
        opens = o' \<and> valid = t # v' \<and> (case prev of None \<Rightarrow> True | Some p \<Rightarrow> t > p)"
      using Cons.prems t
      by (cases "scan_history fromiso prev closing raws"; cases "supported_type (dict_get raw ''type'')")
        (auto split: if_splits)
    then show ?thesis using Cons.IH[OF rec] t(2) by (cases prev) auto
  qed
qed simp

lemma judge_keep:
  assumes "judge_message fromiso start prev closing raw = Inr (Keep m)"
  shows "\<exists>i t. dict_get raw ''id'' = JStr i \<and> py_strip i \<noteq> [] \<and> dict_get raw ''type'' = JStr t \<and>
    t \<in> set SUPPORTED_HISTORY_TYPES \<and> dict_get raw ''visible'' \<noteq> JBool False \<and>
    (dict_get raw ''deletedAt'' = JNull \<or> dict_get raw ''deletedAt'' = JStr []) \<and>
    dict_get raw ''isFromBot'' \<noteq> JBool True \<and> message_time fromiso raw = Some (nm_timestamp m) \<and>
    (\<forall>p. prev = Some p \<longrightarrow> p < nm_timestamp m) \<and>
    start - CLOCK_SKEW \<le> nm_timestamp m \<and> nm_timestamp m \<le> closing + CLOCK_SKEW \<and>
    nm_message_id m = i \<and> m = build_message raw i t (nm_timestamp m)"
proof -
  obtain i where i: "dict_get raw ''id'' = JStr i"
    using assms by (auto simp: judge_message_def split: jvalue.splits)
  then have si: "py_strip i \<noteq> []" and nt: "dict_get raw ''type'' \<noteq> JStr ''ticket''"
    using assms by (auto simp: judge_message_def Let_def split: if_splits)
  have "supported_type (dict_get raw ''type'') = Inr True"
    using assms i si nt by (auto simp: judge_message_def Let_def split: sum.splits bool.splits)
  then obtain t where t: "dict_get raw ''type'' = JStr t" "t \<in> set SUPPORTED_HISTORY_TYPES"
    by (auto simp: supported_type_def split: if_splits jvalue.splits)
  note su = \<open>supported_type _ = Inr True\<close>
  have vis: "dict_get raw ''visible'' \<noteq> JBool False"
    using assms i si nt su by (auto simp: judge_message_def Let_def split: if_splits)
  have del: "dict_get raw ''deletedAt'' = JNull \<or> dict_get raw ''deletedAt'' = JStr []"
    using assms i si nt su vis by (auto simp: judge_message_def Let_def split: if_splits)
  have bot: "\<not> is_bot_message (bool_or_none (dict_get raw ''isFromBot'')) (str_or_none (dict_get raw ''origin''))"
    using assms i si nt su vis del by (auto simp: judge_message_def Let_def split: if_splits)
  obtain ts where ts: "message_time fromiso raw = Some ts"
    using assms i si nt su vis del bot by (auto simp: judge_message_def Let_def split: if_splits option.splits)
  have prev: "\<not> (case prev of None \<Rightarrow> False | Some p \<Rightarrow> ts \<le> p)"
    using assms i si nt su vis del bot ts by (auto simp: judge_message_def Let_def split: if_splits)
  have win: "\<not> (ts < start - CLOCK_SKEW \<or> ts > closing + CLOCK_SKEW)"
    using assms i si nt su vis del bot ts prev by (auto simp: judge_message_def Let_def split: if_splits)
  have m: "m = build_message raw i t ts"
    using assms i si nt su vis del bot ts prev win t by (auto simp: judge_message_def Let_def)
  then have "nm_timestamp m = ts" "nm_message_id m = i" by (simp_all add: build_message_def Let_def)
  moreover have "dict_get raw ''isFromBot'' \<noteq> JBool True"
    using bot by (auto simp: is_bot_message_def bool_or_none_def)
  ultimately show ?thesis
    using i si t vis del ts prev win m by (auto split: option.splits)
qed

section \<open>Properties\<close>

lemma normalize_history_loop:
  assumes "normalize_history fromiso raws start prev closing tstart = Inr h"
  obtains ms where "normalize_loop (judge_message fromiso (nh_cycle_started_at h) prev closing) raws [] [] [] =
      Inr (ms, nh_warnings h, nh_exclusion_counts h)"
    "nh_messages h = sort_key message_order ms"
    "infer_cycle_start fromiso raws start tstart prev closing =
      Inr (nh_cycle_started_at h, nh_cycle_start_strategy h)"
  using assms by (auto simp: normalize_history_def split: sum.splits prod.splits)

text \<open>C33: No message of the history disappears silently: the messages kept plus the exclusions counted
  by reason add up to the messages received.\<close>

theorem history_conservation:
  assumes "normalize_history fromiso raws start prev closing tstart = Inr h"
  shows "length (nh_messages h) + sum_list (map snd (nh_exclusion_counts h)) = length raws"
proof -
  obtain ms where "normalize_loop (judge_message fromiso (nh_cycle_started_at h) prev closing) raws [] [] [] =
      Inr (ms, nh_warnings h, nh_exclusion_counts h)" "nh_messages h = sort_key message_order ms"
    by (rule normalize_history_loop[OF assms])
  with normalize_loop_spec[OF this(1)] show ?thesis by (simp add: total_def)
qed

text \<open>A small decimal reader stands for the ISO parser in the examples.\<close>

definition digit_value :: "char \<Rightarrow> int" where
  "digit_value c = of_char c - 48"

definition demo_iso :: iso_parser where
  "demo_iso s =
    (if s \<noteq> [] \<and> list_all (\<lambda>c. c \<in> set ascii_digits) s
     then Some (seconds (foldl (\<lambda>n c. 10 * n + digit_value c) 0 s), None) else None)"

definition demo_message :: "string \<Rightarrow> string \<Rightarrow> string \<Rightarrow> jdict" where
  "demo_message i t stamp =
    [(''id'', JStr i), (''type'', JStr t), (''timestamp'', JStr stamp), (''text'', JStr '' oi '')]"

definition demo_history :: "jdict list" where
  "demo_history =
    [demo_message ''m2'' ''chat'' ''30'', demo_message ''m1'' ''image'' ''20'',
     demo_message '' '' ''chat'' ''20'', demo_message ''m3'' ''sticker'' ''21'',
     demo_message ''m4'' ''chat'' ''9'', demo_message ''m5'' ''chat'' ''x'']"

lemma demo_run:
  "(case normalize_history demo_iso demo_history None (Some (seconds 10)) (seconds 40) JNull of
     Inl _ \<Rightarrow> False
   | Inr h \<Rightarrow> map nm_message_id (nh_messages h) = [''m1'', ''m2''] \<and>
       nh_exclusion_counts h = [(''missing_message_id'', 1), (''unknown_type'', 1),
         (''previous_cycle'', 1), (''invalid_timestamp'', 1)] \<and>
       nh_cycle_started_at h = seconds 20)"
  by code_simp

theorem history_conservation_witness:
  "\<exists>h. normalize_history demo_iso demo_history None (Some (seconds 10)) (seconds 40) JNull = Inr h \<and>
    length (nh_messages h) + sum_list (map snd (nh_exclusion_counts h)) = 6"
proof -
  obtain h where h: "normalize_history demo_iso demo_history None (Some (seconds 10)) (seconds 40) JNull = Inr h"
    using demo_run by (auto split: sum.splits)
  have "length demo_history = 6" by (simp add: demo_history_def)
  with history_conservation[OF h] h show ?thesis by simp
qed

text \<open>Every message kept for a cycle belongs to it: it comes from a raw message with a usable id, a
  supported type, visible, not deleted and not from a bot; its time is after the previous cycle's
  close and between the start and the close of this one, up to the clock skew; and the messages
  are in order of time and id.\<close>

theorem history_within_cycle:
  assumes "normalize_history fromiso raws start prev closing tstart = Inr h"
  shows "sorted (map message_order (nh_messages h)) \<and>
    (\<forall>m \<in> set (nh_messages h). \<exists>raw \<in> set raws. \<exists>t \<in> set SUPPORTED_HISTORY_TYPES.
      dict_get raw ''id'' = JStr (nm_message_id m) \<and> py_strip (nm_message_id m) \<noteq> [] \<and>
      dict_get raw ''type'' = JStr t \<and> dict_get raw ''visible'' \<noteq> JBool False \<and>
      dict_get raw ''isFromBot'' \<noteq> JBool True \<and>
      message_time fromiso raw = Some (nm_timestamp m) \<and>
      (\<forall>p. prev = Some p \<longrightarrow> p < nm_timestamp m) \<and>
      nh_cycle_started_at h - CLOCK_SKEW \<le> nm_timestamp m \<and> nm_timestamp m \<le> closing + CLOCK_SKEW)"
proof -
  obtain ms where loop: "normalize_loop (judge_message fromiso (nh_cycle_started_at h) prev closing) raws [] [] [] =
      Inr (ms, nh_warnings h, nh_exclusion_counts h)" and ms: "nh_messages h = sort_key message_order ms"
    by (rule normalize_history_loop[OF assms])
  have "\<exists>raw \<in> set raws. \<exists>t \<in> set SUPPORTED_HISTORY_TYPES.
      dict_get raw ''id'' = JStr (nm_message_id m) \<and> py_strip (nm_message_id m) \<noteq> [] \<and>
      dict_get raw ''type'' = JStr t \<and> dict_get raw ''visible'' \<noteq> JBool False \<and>
      dict_get raw ''isFromBot'' \<noteq> JBool True \<and>
      message_time fromiso raw = Some (nm_timestamp m) \<and>
      (\<forall>p. prev = Some p \<longrightarrow> p < nm_timestamp m) \<and>
      nh_cycle_started_at h - CLOCK_SKEW \<le> nm_timestamp m \<and> nm_timestamp m \<le> closing + CLOCK_SKEW"
    if "m \<in> set (nh_messages h)" for m
  proof -
    have "m \<in> set ms" using that ms by simp
    then obtain raw where raw: "raw \<in> set raws"
      "judge_message fromiso (nh_cycle_started_at h) prev closing raw = Inr (Keep m)"
      using normalize_loop_spec[OF loop] by auto
    from judge_keep[OF raw(2)] raw(1) show ?thesis by blast
  qed
  then show ?thesis by (simp add: ms sorted_sort_key)
qed

theorem history_within_cycle_witness:
  "\<exists>h. normalize_history demo_iso demo_history None (Some (seconds 10)) (seconds 40) JNull = Inr h \<and>
    (\<forall>m \<in> set (nh_messages h). seconds 10 < nm_timestamp m \<and> nm_timestamp m \<le> seconds 45)"
proof -
  obtain h where h: "normalize_history demo_iso demo_history None (Some (seconds 10)) (seconds 40) JNull = Inr h"
    using demo_run by (auto split: sum.splits)
  have "seconds 40 + CLOCK_SKEW = seconds 45" by (simp add: CLOCK_SKEW_def seconds_def)
  with history_within_cycle[OF h] h show ?thesis by fastforce
qed

text \<open>Without a recorded opening event the inferred start of a cycle never lies after its close
  (up to the clock skew), and when it is taken from the ticket or from the first message it lies
  after the previous cycle's close, so the cycles of a conversation do not overlap.\<close>

theorem inferred_start_bounds:
  assumes "infer_cycle_start fromiso raws None tstart prev closing = Inr (s, strategy)"
    and "\<forall>p. prev = Some p \<longrightarrow> p < closing"
  shows "s \<le> closing + CLOCK_SKEW \<and>
    (strategy \<noteq> ''digisac_ticket_open_event'' \<longrightarrow> (\<forall>p. prev = Some p \<longrightarrow> p < s)) \<and>
    strategy \<in> {''digisac_ticket_open_event'', ''digisac_ticket_started_at'',
      ''first_unassociated_message'', ''empty_cycle_at_close''}"
proof -
  have skew: "(0::int) \<le> CLOCK_SKEW" by (simp add: CLOCK_SKEW_def)
  obtain opens valid where scan: "scan_history fromiso prev closing raws = Inr (opens, valid)"
    using assms(1) by (auto simp: infer_cycle_start_def split: sum.splits)
  note b = scan_history_bounds[OF scan]
  show ?thesis
  proof (cases opens)
    case (Cons t ts)
    then have "s = fold max ts t" "strategy = ''digisac_ticket_open_event''"
      using assms(1) scan by (simp_all add: infer_cycle_start_def)
    then show ?thesis using b fold_max_mem[of ts t] Cons by auto
  next
    case Nil
    have fallback: ?thesis
      if "(case valid of v # vs \<Rightarrow> Inr (fold min vs v, ''first_unassociated_message'')
        | [] \<Rightarrow> Inr (closing, ''empty_cycle_at_close'')) = (Inr (s, strategy) :: py_error + time \<times> string)"
    proof (cases valid)
      case Nil
      then show ?thesis using that assms(2) skew by auto
    next
      case (Cons v vs)
      then have "s = fold min vs v" "strategy = ''first_unassociated_message''" using that by auto
      moreover have "s \<in> set valid" using calculation(1) fold_min_mem[of vs v] Cons by simp
      ultimately show ?thesis using b by auto
    qed
    show ?thesis
    proof (cases "parse_timestamp fromiso tstart")
      case None
      then show ?thesis using assms(1) scan Nil fallback by (simp add: infer_cycle_start_def)
    next
      case (Some ts)
      show ?thesis
      proof (cases "ts \<le> closing \<and> (case prev of None \<Rightarrow> True | Some p \<Rightarrow> ts > p)")
        case True
        then show ?thesis
          using assms(1) scan Nil Some skew by (auto simp: infer_cycle_start_def)
      next
        case False
        show ?thesis
          by (rule fallback)
            (use assms(1) scan Nil Some in \<open>simp only: infer_cycle_start_def option.case sum.case
              prod.case list.case if_not_P[OF False]\<close>)
      qed
    qed
  qed
qed

theorem inferred_start_bounds_witness:
  "\<exists>s strategy. infer_cycle_start demo_iso demo_history None JNull (Some (seconds 10)) (seconds 40) =
      Inr (s, strategy) \<and> seconds 10 < s"
proof -
  let ?r = "infer_cycle_start demo_iso demo_history None JNull (Some (seconds 10)) (seconds 40)"
  have "(case ?r of Inl _ \<Rightarrow> False | Inr (s, strategy) \<Rightarrow> strategy \<noteq> ''digisac_ticket_open_event'')"
    by code_simp
  then obtain s strategy where r: "?r = Inr (s, strategy)" "strategy \<noteq> ''digisac_ticket_open_event''"
    by (auto split: sum.splits)
  have "\<forall>p. Some (seconds 10) = Some p \<longrightarrow> p < seconds 40" by (simp add: seconds_def)
  from inferred_start_bounds[OF r(1) this] r show ?thesis by auto
qed

lemma apply_media_state_id [simp]:
  "nm_message_id (fst (apply_media_state mx st m)) = nm_message_id m"
  by (auto simp: apply_media_state_def Let_def split: option.split content_status.split)

lemma apply_media_states_fst:
  "fst (apply_media_states mx states ms) =
    map (\<lambda>m. if needs_media m then fst (apply_media_state mx (states (nm_message_id m)) m) else m) ms"
  by (induction ms) (auto split: prod.splits media_need.splits)

lemma apply_media_states_pending:
  "fst (snd (apply_media_states mx states ms)) =
    map nm_message_id (filter (\<lambda>m. needs_media m \<and>
      snd (apply_media_state mx (states (nm_message_id m)) m) = Await) ms)"
  by (induction ms) (auto split: prod.splits media_need.splits)

lemma apply_media_states_blocked:
  "snd (snd (apply_media_states mx states ms)) =
    map nm_message_id (filter (\<lambda>m. needs_media m \<and>
      snd (apply_media_state mx (states (nm_message_id m)) m) = Block) ms)"
  by (induction ms) (auto split: prod.splits media_need.splits)

text \<open>The merge of media states decides each audio or image message of a cycle once: a message is
  awaited when its extraction is missing, in progress, retryable or completed without text, it
  blocks exactly when the extraction failed with its attempts used up, and when nothing is awaited
  or blocked every media message carries the stripped, non-empty text of a completed extraction.\<close>

theorem media_merge_decides:
  assumes "apply_media_states mx states ms = (output, pending, blocked)"
  shows "map nm_message_id output = map nm_message_id ms \<and>
    (\<forall>m \<in> set ms. \<not> needs_media m \<longrightarrow> m \<in> set output) \<and>
    set blocked = {nm_message_id m |m. m \<in> set ms \<and> needs_media m \<and>
      (\<exists>st. states (nm_message_id m) = Some st \<and> ms_status st = Failed \<and> mx \<le> ms_attempt_count st)} \<and>
    set pending \<inter> set blocked = {} \<and>
    (pending = [] \<and> blocked = [] \<longrightarrow>
      (\<forall>m \<in> set ms. needs_media m \<longrightarrow>
        (\<exists>st text. states (nm_message_id m) = Some st \<and> ms_status st = Completed \<and>
          ms_text st = Some text \<and> py_strip text \<noteq> [] \<and>
          m\<lparr>nm_media_status := Some ''completed'', nm_content := py_strip text\<rparr> \<in> set output)))"
proof -
  let ?need = "\<lambda>m. snd (apply_media_state mx (states (nm_message_id m)) m)"
  let ?out = "\<lambda>m. if needs_media m then fst (apply_media_state mx (states (nm_message_id m)) m) else m"
  have out: "output = map ?out ms"
    using apply_media_states_fst[of mx states ms] assms by simp
  have pend: "pending = map nm_message_id (filter (\<lambda>m. needs_media m \<and> ?need m = Await) ms)"
    using apply_media_states_pending[of mx states ms] assms by simp
  have blk: "blocked = map nm_message_id (filter (\<lambda>m. needs_media m \<and> ?need m = Block) ms)"
    using apply_media_states_blocked[of mx states ms] assms by simp
  have block: "?need m = Block \<longleftrightarrow>
      (\<exists>st. states (nm_message_id m) = Some st \<and> ms_status st = Failed \<and> mx \<le> ms_attempt_count st)" for m
    by (auto simp: apply_media_state_def Let_def split: option.split content_status.split)
  have need_same: "?need m = ?need m'" if "nm_message_id m = nm_message_id m'" for m m'
    using that by (auto simp: apply_media_state_def Let_def split: option.split content_status.split)
  have ready: "\<exists>st text. states (nm_message_id m) = Some st \<and> ms_status st = Completed \<and>
          ms_text st = Some text \<and> py_strip text \<noteq> [] \<and>
          fst (apply_media_state mx (states (nm_message_id m)) m) =
            m\<lparr>nm_media_status := Some ''completed'', nm_content := py_strip text\<rparr>"
    if "?need m \<noteq> Await" "?need m \<noteq> Block" for m
    using that by (auto simp: apply_media_state_def Let_def status_text_def
        split: option.splits content_status.splits if_splits)
  have 1: "map nm_message_id output = map nm_message_id ms" by (simp add: out)
  have 2: "\<forall>m \<in> set ms. \<not> needs_media m \<longrightarrow> m \<in> set output"
  proof (intro ballI impI)
    fix m assume "m \<in> set ms" "\<not> needs_media m"
    then have "?out m \<in> ?out ` set ms" "?out m = m" by simp_all
    then show "m \<in> set output" by (simp only: out set_map)
  qed
  have 3: "set blocked = {nm_message_id m |m. m \<in> set ms \<and> needs_media m \<and>
      (\<exists>st. states (nm_message_id m) = Some st \<and> ms_status st = Failed \<and> mx \<le> ms_attempt_count st)}"
    unfolding blk block by auto
  have 4: "set pending \<inter> set blocked = {}"
  proof -
    have False if i: "i \<in> set pending" "i \<in> set blocked" for i
    proof -
      obtain m where m: "i = nm_message_id m" "?need m = Await" using i(1) unfolding pend by auto
      obtain m' where m': "i = nm_message_id m'" "?need m' = Block" using i(2) unfolding blk by auto
      show False using need_same[of m m'] m m' by simp
    qed
    then show ?thesis by blast
  qed
  have 5: "pending = [] \<and> blocked = [] \<longrightarrow>
      (\<forall>m \<in> set ms. needs_media m \<longrightarrow>
        (\<exists>st text. states (nm_message_id m) = Some st \<and> ms_status st = Completed \<and>
          ms_text st = Some text \<and> py_strip text \<noteq> [] \<and>
          m\<lparr>nm_media_status := Some ''completed'', nm_content := py_strip text\<rparr> \<in> set output))"
  proof (intro impI ballI)
    fix m assume none: "pending = [] \<and> blocked = []" and m: "m \<in> set ms" "needs_media m"
    then have "?need m \<noteq> Await" "?need m \<noteq> Block"
      using pend blk by (auto simp: filter_empty_conv)
    from ready[OF this] obtain st body where r: "states (nm_message_id m) = Some st"
      "ms_status st = Completed" "ms_text st = Some body" "py_strip body \<noteq> []"
      "?out m = m\<lparr>nm_media_status := Some ''completed'', nm_content := py_strip body\<rparr>"
      using m(2) by auto
    have "?out m \<in> ?out ` set ms" using m(1) by (rule imageI)
    then have "?out m \<in> set output" by (simp only: out set_map)
    with r show "\<exists>st text. states (nm_message_id m) = Some st \<and> ms_status st = Completed \<and>
          ms_text st = Some text \<and> py_strip text \<noteq> [] \<and>
          m\<lparr>nm_media_status := Some ''completed'', nm_content := py_strip text\<rparr> \<in> set output"
      by metis
  qed
  from 1 2 3 4 5 show ?thesis by (intro conjI)
qed

definition demo_media :: "norm_message list" where
  "demo_media = [build_message (demo_message ''m1'' ''image'' ''20'') ''m1'' ''image'' 20]"

theorem media_merge_decides_witness:
  "snd (snd (apply_media_states 3 [''m1'' \<mapsto> \<lparr>ms_status = Failed, ms_text = None, ms_attempt_count = 3\<rparr>]
    demo_media)) = [''m1''] \<and>
   set (fst (snd (apply_media_states 3 [''m1'' \<mapsto> \<lparr>ms_status = Failed, ms_text = None, ms_attempt_count = 3\<rparr>]
    demo_media))) \<inter> {''m1''} = {}"
proof -
  let ?st = "[''m1'' \<mapsto> \<lparr>ms_status = Failed, ms_text = None, ms_attempt_count = 3\<rparr>]"
  let ?r = "apply_media_states 3 ?st demo_media"
  have b: "snd (snd ?r) = [''m1'']" by code_simp
  have "?r = (fst ?r, fst (snd ?r), snd (snd ?r))" by simp
  from media_merge_decides[OF this] have "set (fst (snd ?r)) \<inter> set (snd (snd ?r)) = {}" by blast
  with b show ?thesis by simp
qed

lemma chunk_loop_spec:
  "concat (chunk_loop limit ms current tokens) = current @ ms \<and> [] \<notin> set (chunk_loop limit ms current tokens)"
  by (induction limit ms current tokens rule: chunk_loop.induct) auto

definition chunk_cost :: "norm_message list \<Rightarrow> nat" where
  "chunk_cost c = sum_list (map message_cost c)"

lemma chunk_cost_simps [simp]:
  "chunk_cost [] = 0" "chunk_cost (m # ms) = message_cost m + chunk_cost ms"
  "chunk_cost (ms @ ns) = chunk_cost ms + chunk_cost ns"
  by (simp_all add: chunk_cost_def)

definition fits :: "int \<Rightarrow> norm_message list \<Rightarrow> bool" where
  "fits limit c \<longleftrightarrow> length c \<le> 1 \<or> int (chunk_cost c) \<le> limit"

lemma chunk_loop_cost:
  assumes "tokens = chunk_cost current" and "fits limit current"
  shows "list_all (fits limit) (chunk_loop limit ms current tokens)"
  using assms
proof (induction ms arbitrary: current tokens)
  case (Cons m ms)
  show ?case
  proof (cases "current \<noteq> [] \<and> int (tokens + message_cost m) > limit")
    case True
    have "list_all (fits limit) (chunk_loop limit ms [m] (message_cost m))"
      by (rule Cons.IH) (simp_all add: fits_def)
    then show ?thesis using True Cons.prems(2) by simp
  next
    case False
    have "fits limit (current @ [m])"
      using False Cons.prems(1) by (auto simp: fits_def)
    then have "list_all (fits limit) (chunk_loop limit ms (current @ [m]) (tokens + message_cost m))"
      by (intro Cons.IH) (simp_all add: Cons.prems(1))
    then show ?thesis by (simp only: chunk_loop.simps if_not_P[OF False])
  qed
qed simp

fun greedy :: "int \<Rightarrow> norm_message list list \<Rightarrow> bool" where
  "greedy limit (c # d # cs) \<longleftrightarrow>
    limit < int (chunk_cost c + message_cost (hd d)) \<and> greedy limit (d # cs)"
| "greedy limit _ \<longleftrightarrow> True"

lemma chunk_loop_hd:
  "current \<noteq> [] \<Longrightarrow> \<exists>c cs. chunk_loop limit ms current tokens = c # cs \<and> hd c = hd current"
proof (induction ms arbitrary: current tokens)
  case (Cons m ms)
  then show ?case using Cons.IH[of "current @ [m]" "tokens + message_cost m"] by simp
qed simp

lemma chunk_loop_greedy:
  assumes "tokens = chunk_cost current"
  shows "greedy limit (chunk_loop limit ms current tokens)"
  using assms
proof (induction ms arbitrary: current tokens)
  case (Cons m ms)
  show ?case
  proof (cases "current \<noteq> [] \<and> int (tokens + message_cost m) > limit")
    case True
    obtain c cs where c: "chunk_loop limit ms [m] (message_cost m) = c # cs" "hd c = m"
      using chunk_loop_hd[of "[m]" limit ms "message_cost m"] by auto
    have "greedy limit (chunk_loop limit ms [m] (message_cost m))" by (rule Cons.IH) simp
    then show ?thesis using c True Cons.prems by simp
  next
    case False
    have "greedy limit (chunk_loop limit ms (current @ [m]) (tokens + message_cost m))"
      by (rule Cons.IH) (simp add: Cons.prems)
    then show ?thesis by (simp only: chunk_loop.simps if_not_P[OF False])
  qed
qed simp

text \<open>Chunking for the model loses nothing and reorders nothing: the chunks concatenate to the
  messages, none is empty, a chunk exceeds the token limit only when a single message does, and a
  chunk is closed only when the next message would not have fitted.\<close>

theorem chunks_partition:
  "concat (chunk_messages ms limit) = ms \<and> [] \<notin> set (chunk_messages ms limit) \<and>
    (\<forall>c \<in> set (chunk_messages ms limit). length c = 1 \<or> int (chunk_cost c) \<le> limit) \<and>
    greedy limit (chunk_messages ms limit)"
proof -
  have ne: "[] \<notin> set (chunk_messages ms limit)" "concat (chunk_messages ms limit) = ms"
    using chunk_loop_spec[of limit ms "[]" 0] by (simp_all add: chunk_messages_def)
  have "length c = 1 \<or> int (chunk_cost c) \<le> limit" if "c \<in> set (chunk_messages ms limit)" for c
  proof -
    have "fits limit c"
      using chunk_loop_cost[of 0 "[]" limit ms] that
      by (simp add: chunk_messages_def list_all_iff fits_def)
    moreover have "c \<noteq> []" using that ne(1) by auto
    ultimately show ?thesis by (cases c) (auto simp: fits_def)
  qed
  moreover have "greedy limit (chunk_messages ms limit)"
    using chunk_loop_greedy[of 0 "[]" limit ms] by (simp add: chunk_messages_def)
  ultimately show ?thesis using ne by blast
qed

theorem chunks_partition_witness:
  "concat (chunk_messages demo_media 10) = demo_media"
  using chunks_partition by blast

end
