(* ===== verification/Request_Provider.thy ===== *)
theory Request_Provider
  imports Provider_Coordination Py_Json
begin

text \<open>
  The write boundary to the external request provider
  (\<open>src/core/acessorias_request_provider.py\<close>): the request payload, the outcomes, and the adapter that
  posts a request under the rate limiter and classifies what came back.  The HTTP session is the
  parameter \<open>post\<close>, which acts on the outside world and returns a reply: a response (its status, its
  body when that is a JSON object, and the delay of its \<open>Retry-After\<close> header) or one of the transport
  exceptions the code tells apart.  Settings are arguments.
\<close>

section \<open>Payload\<close>

definition SAFE_DEPARTMENT_ID :: "string \<Rightarrow> bool" where
  "SAFE_DEPARTMENT_ID s \<longleftrightarrow> s \<noteq> [] \<and> list_all (\<lambda>c. c \<in> set ascii_digits) s"

definition sol_char :: "char \<Rightarrow> bool" where
  "sol_char c \<longleftrightarrow> \<not> py_isspace c \<and> 32 \<le> (of_char c :: nat) \<and> c \<noteq> CHR 0x7F"

definition SAFE_SOL_ID :: "string \<Rightarrow> bool" where
  "SAFE_SOL_ID s \<longleftrightarrow> 1 \<le> length s \<and> length s \<le> 160 \<and> list_all sol_char s"

record request_payload =
  rp_subject :: string
  rp_company :: string
  rp_department :: string
  rp_description :: string

definition request_form :: "request_payload \<Rightarrow> (string \<times> string) list" where
  "request_form p =
    [(''assunto'', rp_subject p), (''empresa'', rp_company p), (''departamento'', rp_department p),
     (''prioridade'', ''2''), (''descricao'', rp_description p), (''tipo'', ''I'')]"

definition REQUEST_FIELDS :: "string list" where
  "REQUEST_FIELDS =
    [''assunto'', ''empresa'', ''departamento'', ''prioridade'', ''descricao'', ''tipo'']"

definition payload_metadata :: "request_payload \<Rightarrow> jdict" where
  "payload_metadata p =
    [(''fields'', JList (map JStr REQUEST_FIELDS)),
     (''subject_length'', JInt (int (length (rp_subject p)))),
     (''description_length'', JInt (int (length (rp_description p)))),
     (''company_external_id'', JStr (rp_company p)),
     (''department_external_id'', JStr (rp_department p)),
     (''priority'', JInt 2), (''type'', JStr ''I'')]"

text \<open>The texts the callers pass; the code's tests that they are text hold by type.\<close>

definition build_request_payload ::
  "string \<Rightarrow> string \<Rightarrow> string option \<Rightarrow> string \<Rightarrow> string \<Rightarrow> py_error + request_payload" where
  "build_request_payload title description protocol company_external_id department_external_id =
    (if py_strip title = [] then Inl (ValueError ''classification title is required'')
     else
       let normalized_title = py_strip title;
           normalized_protocol = (case protocol of None \<Rightarrow> [] | Some p \<Rightarrow> py_strip p);
           subject_source =
             (if normalized_protocol \<noteq> [] then ''['' @ normalized_protocol @ ''] - '' @ normalized_title
              else normalized_title);
           subject = take 100 subject_source;
           company = py_strip company_external_id;
           department = py_strip department_external_id
       in if subject = [] then Inl (ValueError ''classification title is required'')
          else if company = [] \<or> list_ex py_isspace company
            then Inl (ValueError ''company identifier is invalid'')
          else if \<not> SAFE_DEPARTMENT_ID department
            then Inl (ValueError ''department identifier must be numeric'')
          else Inr \<lparr>rp_subject = subject, rp_company = company, rp_department = department,
                 rp_description = description\<rparr>)"

section \<open>Outcomes\<close>

datatype op_state =
    Not_Started | Attempting | Op_Completed | Definitive_Failure | Op_Retryable
  | Reconciliation_Required

record request_outcome =
  ro_state :: op_state
  ro_category :: string
  ro_solid_id :: "string option"
  ro_provider_status :: "int option"

definition category_char :: "char \<Rightarrow> bool" where
  "category_char c \<longleftrightarrow> c \<in> set (ascii_lower_letters @ ascii_digits @ ''_:-'')"

definition safe_category :: "string \<Rightarrow> string" where
  "safe_category value =
    (let normalized = take 120 (strip_underscores (sub_runs category_char False (py_casefold value)))
     in if normalized = [] then ''provider_error'' else normalized)"

definition outcome_success :: "string \<Rightarrow> int option \<Rightarrow> py_error + request_outcome" where
  "outcome_success solid_id provider_status =
    (let value = py_strip solid_id
     in if \<not> SAFE_SOL_ID value then Inl (ValueError ''provider id is invalid'')
        else Inr \<lparr>ro_state = Op_Completed, ro_category = ''provider_success'',
               ro_solid_id = Some value, ro_provider_status = provider_status\<rparr>)"

definition outcome_of :: "op_state \<Rightarrow> string \<Rightarrow> int option \<Rightarrow> request_outcome" where
  "outcome_of state category provider_status =
    \<lparr>ro_state = state, ro_category = safe_category category, ro_solid_id = None,
     ro_provider_status = provider_status\<rparr>"

definition definitive :: "string \<Rightarrow> int option \<Rightarrow> request_outcome" where
  "definitive = outcome_of Definitive_Failure"

definition retryable :: "string \<Rightarrow> int option \<Rightarrow> request_outcome" where
  "retryable = outcome_of Op_Retryable"

definition reconciliation :: "string \<Rightarrow> int option \<Rightarrow> request_outcome" where
  "reconciliation = outcome_of Reconciliation_Required"

section \<open>Replies\<close>

datatype post_reply =
    Response int "jdict option" "rat option"
  | Pre_Send_Error
  | Post_Timeout
  | Post_Connection_Error
  | Other_Request_Error

definition provider_id_text :: "jvalue \<Rightarrow> string option" where
  "provider_id_text v =
    (case v of
       JStr s \<Rightarrow> Some s
     | JInt n \<Rightarrow> Some (int_text n)
     | JBool b \<Rightarrow> Some (if b then ''True'' else ''False'')
     | _ \<Rightarrow> None)"

datatype verdict = Final request_outcome | Retry string "int option" "rat option"

definition judge_status :: "int \<Rightarrow> jdict option \<Rightarrow> rat option \<Rightarrow> verdict" where
  "judge_status status body retry_after =
    (if status = 429 then Final (reconciliation ''uncertain_rate_limit'' (Some status))
     else if status \<in> set [408, 425] then Retry ''safe_transient_rejection'' (Some status) retry_after
     else if status \<in> set [401, 403]
       then Final (definitive ''authentication_or_permission'' (Some status))
     else if status \<ge> 500 then Final (reconciliation ''uncertain_5xx'' (Some status))
     else if (case body of None \<Rightarrow> False | Some b \<Rightarrow> dict_has b ''Erro'' \<or> dict_has b ''erro'')
       then Final (definitive ''provider_error'' (Some status))
     else if status \<ge> 400 then Final (definitive ''provider_rejection'' (Some status))
     else Final (reconciliation ''missing_id'' (Some status)))"

definition judge_response :: "int \<Rightarrow> jdict option \<Rightarrow> rat option \<Rightarrow> verdict" where
  "judge_response status body retry_after =
    (case (case body of None \<Rightarrow> None | Some b \<Rightarrow> provider_id_text (dict_get b ''id'')) of
       Some t \<Rightarrow>
         (if py_strip t \<noteq> []
          then (case outcome_success t (Some status) of
                  Inr outcome \<Rightarrow> Final outcome
                | Inl _ \<Rightarrow> Final (reconciliation ''invalid_provider_id'' (Some status)))
          else judge_status status body retry_after)
     | None \<Rightarrow> judge_status status body retry_after)"

fun judge_reply :: "post_reply \<Rightarrow> verdict" where
  "judge_reply (Response status body retry_after) = judge_response status body retry_after"
| "judge_reply Pre_Send_Error = Retry ''pre_send_connection'' None None"
| "judge_reply Post_Timeout = Final (reconciliation ''timeout_after_send'' None)"
| "judge_reply Post_Connection_Error = Final (reconciliation ''uncertain_transport'' None)"
| "judge_reply Other_Request_Error = Final (reconciliation ''uncertain_transport'' None)"

section \<open>Adapter\<close>

record request_adapter =
  ad_token :: "string option"
  ad_max_attempts :: nat
  ad_retry_base_seconds :: rat
  ad_retry_max_delay_seconds :: rat
  ad_retry_provider_margin_seconds :: rat

text \<open>The checks of the constructor; the base URL and the limiter's shared key are left out.\<close>

definition new_adapter ::
  "string option \<Rightarrow> rat \<Rightarrow> int \<Rightarrow> rat \<Rightarrow> rat \<Rightarrow> rat \<Rightarrow> int \<Rightarrow> py_error + request_adapter \<times> limiter" where
  "new_adapter token timeout_seconds max_attempts retry_base retry_max margin rate_limit =
    (if timeout_seconds \<le> 0 \<or> max_attempts \<le> 0
     then Inl (ValueError ''Request timeout and attempts must be positive'')
     else if retry_base < 0 \<or> retry_max < retry_base
     then Inl (ValueError ''Request retry limits are invalid'')
     else case new_limiter rate_limit of
       Inl e \<Rightarrow> Inl e
     | Inr lmt \<Rightarrow>
         Inr (\<lparr>ad_token = token, ad_max_attempts = nat max_attempts,
               ad_retry_base_seconds = retry_base, ad_retry_max_delay_seconds = retry_max,
               ad_retry_provider_margin_seconds = margin\<rparr>, lmt))"

definition adapter_retry_delay :: "request_adapter \<Rightarrow> nat \<Rightarrow> rat option \<Rightarrow> rat" where
  "adapter_retry_delay a attempt provider_delay =
    (let local_delay =
       min (ad_retry_base_seconds a * 2 ^ (attempt - 1)) (ad_retry_max_delay_seconds a)
     in case provider_delay of
          None \<Rightarrow> local_delay
        | Some d \<Rightarrow> max local_delay (d + ad_retry_provider_margin_seconds a))"

text \<open>The loop over the attempts; \<open>left\<close> counts the attempts that remain.  The result is \<open>None\<close> when
  the limiter never admits the request.\<close>

fun create_loop ::
  "request_adapter \<Rightarrow> ('w \<Rightarrow> rat \<times> 'w) \<Rightarrow> (rat \<Rightarrow> 'w \<Rightarrow> 'w) \<Rightarrow>
   ((string \<times> string) list \<Rightarrow> 'w \<Rightarrow> post_reply \<times> 'w) \<Rightarrow> (string \<times> string) list \<Rightarrow>
   nat \<Rightarrow> limiter \<Rightarrow> 'w \<Rightarrow> (request_outcome \<times> limiter \<times> 'w) option" where
  "create_loop a clock sleep post form 0 lmt w =
     Some (retryable ''bounded_retry_exhausted'' None, lmt, w)"
| "create_loop a clock sleep post form (Suc left) lmt w =
     (case before_request clock sleep lmt w of
        None \<Rightarrow> None
      | Some (lim1, w1) \<Rightarrow>
         (case post form w1 of
            (reply, w2) \<Rightarrow>
              (case judge_reply reply of
                 Final outcome \<Rightarrow> Some (outcome, lim1, w2)
               | Retry category status delay \<Rightarrow>
                   (if left > 0
                    then create_loop a clock sleep post form left lim1
                      (sleep (adapter_retry_delay a (ad_max_attempts a - left) delay) w2)
                    else Some (retryable category status, lim1, w2)))))"

definition create_request ::
  "request_adapter \<Rightarrow> ('w \<Rightarrow> rat \<times> 'w) \<Rightarrow> (rat \<Rightarrow> 'w \<Rightarrow> 'w) \<Rightarrow>
   ((string \<times> string) list \<Rightarrow> 'w \<Rightarrow> post_reply \<times> 'w) \<Rightarrow> request_payload \<Rightarrow> limiter \<Rightarrow> 'w \<Rightarrow>
   (request_outcome \<times> limiter \<times> 'w) option" where
  "create_request a clock sleep post payload lmt w =
    (if (case ad_token a of None \<Rightarrow> True | Some t \<Rightarrow> py_strip t = [])
     then Some (definitive ''missing_credentials'' None, lmt, w)
     else create_loop a clock sleep post (request_form payload) (ad_max_attempts a) lmt w)"

section \<open>Lemmas\<close>

lemma safe_category_chars: "list_all category_char (safe_category v)"
proof -
  have u: "category_char CHR ''_''" by code_simp
  have "category_char c" if "c \<in> set (take 120 (strip_underscores (sub_runs category_char False (py_casefold v))))" for c
  proof -
    have "c \<in> set (strip_underscores (sub_runs category_char False (py_casefold v)))"
      using that by (rule in_set_takeD)
    then have "c \<in> set (sub_runs category_char False (py_casefold v))"
      by (rule subsetD[OF set_strip_underscores])
    then have "category_char c \<or> c = CHR ''_''" by (rule set_sub_runs)
    then show ?thesis using u by auto
  qed
  moreover have "list_all category_char ''provider_error''" by code_simp
  ultimately show ?thesis by (auto simp: safe_category_def Let_def list_all_iff)
qed

lemma safe_category_length: "1 \<le> length (safe_category v) \<and> length (safe_category v) \<le> 120"
  by (auto simp: safe_category_def Let_def Suc_le_eq)

text \<open>A world that also records the replies.\<close>

definition logged ::
  "((string \<times> string) list \<Rightarrow> 'w \<Rightarrow> post_reply \<times> 'w) \<Rightarrow>
   (string \<times> string) list \<Rightarrow> 'w \<times> post_reply list \<Rightarrow> post_reply \<times> 'w \<times> post_reply list" where
  "logged post form w = (case post form (fst w) of (reply, w') \<Rightarrow> (reply, w', snd w @ [reply]))"

definition lift_clock :: "('w \<Rightarrow> rat \<times> 'w) \<Rightarrow> 'w \<times> post_reply list \<Rightarrow> rat \<times> 'w \<times> post_reply list" where
  "lift_clock clock w = (case clock (fst w) of (t, w') \<Rightarrow> (t, w', snd w))"

definition lift_sleep :: "(rat \<Rightarrow> 'w \<Rightarrow> 'w) \<Rightarrow> rat \<Rightarrow> 'w \<times> post_reply list \<Rightarrow> 'w \<times> post_reply list" where
  "lift_sleep sleep d w = (sleep d (fst w), snd w)"

lemma lift_clock_ok: "clock_ok clock sleep tm \<Longrightarrow> clock_ok (lift_clock clock) (lift_sleep sleep) (tm \<circ> fst)"
  by (auto simp: clock_ok_def lift_clock_def lift_sleep_def split: prod.split) (metis fst_conv snd_conv)+

lemma lift_before_request:
  assumes "before_request (lift_clock clock) (lift_sleep sleep) lmt v = Some y"
  shows "snd (snd y) = snd v"
proof -
  define c where "c = lift_clock clock"
  define s where "s = lift_sleep sleep"
  have "c = lift_clock clock \<Longrightarrow> s = lift_sleep sleep \<Longrightarrow> snd (snd y) = snd v"
  proof (rule before_request.raw_induct[where P = "\<lambda>c s lmt v y. c = lift_clock clock \<longrightarrow> s = lift_sleep sleep \<longrightarrow> snd (snd y) = snd v",
        rule_format, of c s lmt v y])
    show "before_request c s lmt v = Some y" using assms by (simp add: c_def s_def)
  next
    fix rec c s lmt v y
    assume IH: "\<And>c s lmt v y. rec c s lmt v = Some y \<Longrightarrow> c = lift_clock clock \<Longrightarrow>
        s = lift_sleep sleep \<Longrightarrow> snd (snd y) = snd v"
      and step: "(let (now, w1) = c v; requests = expire now (lim_requests lmt)
        in if length requests < lim_limit lmt
           then Some (lmt\<lparr>lim_requests := requests @ [now]\<rparr>, w1)
           else rec c s (lmt\<lparr>lim_requests := requests\<rparr>)
                 (s (max 0 (60 - (now - hd requests))) w1)) = Some y"
      and eq: "c = lift_clock clock" "s = lift_sleep sleep"
    obtain now w1 where w1: "c v = (now, w1)" by (cases "c v")
    then have "snd w1 = snd v" using eq(1) by (auto simp: lift_clock_def split: prod.splits)
    then show "snd (snd y) = snd v"
      using step w1 eq IH by (auto simp: Let_def lift_sleep_def split: if_splits)
  qed
  then show ?thesis by (simp add: c_def s_def)
qed

text \<open>\<open>judge_reply\<close> asks for another attempt.\<close>

definition safe_to_repeat :: "post_reply \<Rightarrow> bool" where
  "safe_to_repeat r \<longleftrightarrow> (case judge_reply r of Final _ \<Rightarrow> False | Retry _ _ _ \<Rightarrow> True)"

definition outcome_for :: "post_reply \<Rightarrow> request_outcome" where
  "outcome_for r = (case judge_reply r of Final out \<Rightarrow> out | Retry c s _ \<Rightarrow> retryable c s)"

lemma logged_run: "post form w = (reply, w') \<Longrightarrow> logged post form (w, lg) = (reply, w', lg @ [reply])"
  by (simp add: logged_def)

lemma lift_sleep_run: "lift_sleep sleep d (w, lg) = (sleep d w, lg)"
  by (simp add: lift_sleep_def)

lemma create_loop_log:
  assumes ok: "clock_ok clock sleep tm" and "limiter_ok lmt" and "0 < n"
  shows "\<exists>lmt' w' retried final_reply.
    create_loop a (lift_clock clock) (lift_sleep sleep) (logged post) form n lmt (w, lg) =
      Some (outcome_for final_reply, lmt', w', lg @ retried @ [final_reply]) \<and>
    length retried < n \<and> list_all safe_to_repeat retried"
  using assms(2-)
proof (induction n arbitrary: lmt w lg)
  case (Suc left)
  obtain lmt1 v1 where adm: "before_request (lift_clock clock) (lift_sleep sleep) lmt (w, lg) = Some (lmt1, v1)"
    "limiter_ok lmt1"
    using before_request_ok[of "lift_clock clock" "lift_sleep sleep" "tm \<circ> fst" lmt "(w, lg)",
        OF lift_clock_ok[OF ok] Suc.prems(1)] by blast
  obtain w1 where v1: "v1 = (w1, lg)" using lift_before_request[OF adm(1)] by (cases v1) simp
  obtain reply w2 where reply: "post form w1 = (reply, w2)" by fastforce
  note run = adm(1) v1 reply
  show ?case
  proof (cases "judge_reply reply")
    case (Final out)
    then show ?thesis using run
      by (intro exI[of _ lmt1] exI[of _ w2] exI[of _ "[]"] exI[of _ reply])
        (simp add: logged_run outcome_for_def)
  next
    case (Retry c s d)
    show ?thesis
    proof (cases "left > 0")
      case False
      then show ?thesis using run Retry
        by (intro exI[of _ lmt1] exI[of _ w2] exI[of _ "[]"] exI[of _ reply])
          (simp add: logged_run outcome_for_def)
    next
      case True
      let ?w3 = "sleep (adapter_retry_delay a (ad_max_attempts a - left) d) w2"
      obtain lmt' w' retried final_reply where rec:
        "create_loop a (lift_clock clock) (lift_sleep sleep) (logged post) form left lmt1 (?w3, lg @ [reply]) =
          Some (outcome_for final_reply, lmt', w', (lg @ [reply]) @ retried @ [final_reply])"
        "length retried < left" "list_all safe_to_repeat retried"
        using Suc.IH[OF adm(2) True, of ?w3 "lg @ [reply]"] by blast
      moreover have s: "safe_to_repeat reply" using Retry by (simp add: safe_to_repeat_def)
      ultimately show ?thesis using run Retry True
        by (intro exI[of _ lmt'] exI[of _ w'] exI[of _ "reply # retried"] exI[of _ final_reply])
          (simp add: logged_run lift_sleep_run s)
    qed
  qed
qed simp

lemma new_adapter_ok:
  "new_adapter token timeout attempts base mx margin rate = Inr (a, lmt) \<Longrightarrow>
    limiter_ok lmt \<and> 0 < ad_max_attempts a \<and> ad_token a = token \<and> ad_max_attempts a = nat attempts"
  by (auto simp: new_adapter_def new_limiter_def limiter_ok_def split: if_splits sum.splits)

section \<open>Properties\<close>


definition demo_adapter :: "request_adapter \<times> limiter" where
  "demo_adapter =
    (\<lparr>ad_token = Some ''t'', ad_max_attempts = 3, ad_retry_base_seconds = 1,
      ad_retry_max_delay_seconds = 8, ad_retry_provider_margin_seconds = 1\<rparr>,
     \<lparr>lim_limit = 5, lim_requests = []\<rparr>)"

definition demo_post :: "(string \<times> string) list \<Rightarrow> rat \<Rightarrow> post_reply \<times> rat" where
  "demo_post form w = (if w < 1 then Response 425 None None else Response 200 (Some [(''id'', JInt 77)]) None, w)"

definition demo_payload :: request_payload where
  "demo_payload = \<lparr>rp_subject = ''Guia'', rp_company = ''c4'', rp_department = ''12'', rp_description = ''d''\<rparr>"


text \<open>The outcome is conservative: a completed outcome carries a safe, non-empty provider id that
  came in the reply, a retryable one only follows a reply that proves nothing was created, and a
  timeout, a connection error, a 429 and a 5xx without an id always require reconciliation.\<close>

theorem outcome_conservative:
  "case ro_state (outcome_for r) of
     Op_Completed \<Rightarrow> \<exists>status body delay t i. r = Response status (Some body) delay \<and>
       provider_id_text (dict_get body ''id'') = Some t \<and> i = py_strip t \<and>
       ro_solid_id (outcome_for r) = Some i \<and> SAFE_SOL_ID i
   | Op_Retryable \<Rightarrow> r = Pre_Send_Error \<or>
       (\<exists>status body delay. r = Response status body delay \<and> status \<in> {408, 425})
   | Definitive_Failure \<Rightarrow> \<exists>status body delay. r = Response status body delay \<and>
       status < 500 \<and> status \<notin> {408, 425, 429}
   | Reconciliation_Required \<Rightarrow> ro_solid_id (outcome_for r) = None
   | _ \<Rightarrow> False"
  by (cases r) (auto simp: outcome_for_def judge_response_def judge_status_def outcome_success_def
      reconciliation_def definitive_def retryable_def outcome_of_def Let_def
      split: option.splits if_splits sum.splits)

text \<open>A request payload is built exactly when the title is not blank, the company id is one token
  and the department id is a decimal number; its subject is then the title with the protocol in
  front, cut to 100 characters and never empty, and the description is passed on unchanged.\<close>

theorem request_payload_built:
  "case build_request_payload title description protocol company department of
     Inl _ \<Rightarrow> py_strip title = [] \<or> py_strip company = [] \<or> list_ex py_isspace (py_strip company) \<or>
       \<not> SAFE_DEPARTMENT_ID (py_strip department)
   | Inr p \<Rightarrow> py_strip title \<noteq> [] \<and> py_strip company \<noteq> [] \<and>
       \<not> list_ex py_isspace (py_strip company) \<and> SAFE_DEPARTMENT_ID (rp_department p) \<and>
       rp_company p = py_strip company \<and> rp_department p = py_strip department \<and>
       rp_description p = description \<and> rp_subject p \<noteq> [] \<and> length (rp_subject p) \<le> 100 \<and>
       rp_subject p = take 100 (case protocol of
           None \<Rightarrow> py_strip title
         | Some q \<Rightarrow> (if py_strip q = [] then py_strip title
             else ''['' @ py_strip q @ ''] - '' @ py_strip title))"
  by (auto simp: build_request_payload_def Let_def split: option.split)

theorem request_payload_built_witness:
  "\<exists>p. build_request_payload '' Guia '' ''d'' (Some ''9'') ''c1'' ''12'' = Inr p \<and>
    rp_subject p = ''[9] - Guia''"
proof -
  have "(case build_request_payload '' Guia '' ''d'' (Some ''9'') ''c1'' ''12'' of Inl _ \<Rightarrow> False | Inr _ \<Rightarrow> True)"
    by code_simp
  then obtain p where p: "build_request_payload '' Guia '' ''d'' (Some ''9'') ''c1'' ''12'' = Inr p"
    by (auto split: sum.splits)
  have "py_strip '' Guia '' = ''Guia''" "py_strip ''9'' = ''9''" by code_simp+
  with p request_payload_built[where title = "'' Guia ''" and description = "''d''" and
      protocol = "Some ''9''" and company = "''c1''" and department = "''12''"] show ?thesis by simp
qed

text \<open>The adapter's own back-off formula is the shared one of the provider clients, so its delays
  have the same bounds.\<close>

theorem adapter_delay_is_retry_delay:
  "adapter_retry_delay a attempt delay =
    retry_delay (int attempt) (ad_retry_base_seconds a) (ad_retry_max_delay_seconds a)
      (ad_retry_provider_margin_seconds a) delay"
proof -
  have "nat (max 0 (int attempt - 1)) = attempt - 1" by linarith
  then show ?thesis by (simp add: adapter_retry_delay_def retry_delay_def)
qed

text \<open>Whatever text an error carries, the category stored for it satisfies the table's constraint:
  one to 120 characters, all lower-case letters, digits, underscores, colons or hyphens.\<close>

theorem stored_category_safe:
  "list_all category_char (safe_category v) \<and> 1 \<le> length (safe_category v) \<and>
    length (safe_category v) \<le> 120"
  using safe_category_chars safe_category_length by blast

end
