(* ===== verification/Directory_Tables.thy ===== *)
theory Directory_Tables
  imports Py_Json Conversation_Cycles
begin

text \<open>
  The tables that several components read: the provider directory (companies, departments, their
  relations and contacts), the DigiSac contacts, the ticket assignment history, the
  classifications and the department mapping snapshots of a cycle.
\<close>

record company =
  co_id :: int
  co_external_id :: string
  co_is_present :: bool
  co_is_active :: "bool option"

record department =
  de_id :: int
  de_external_id :: string
  de_is_present :: bool
  de_is_active :: bool

record company_department =
  rel_company_id :: int
  rel_department_id :: int
  rel_is_present :: bool
  rel_is_active :: bool

record directory_contact =
  dk_id :: int
  dk_company_id :: int
  dk_normalized_mobile :: "string option"
  dk_normalized_email :: "string option"
  dk_is_present :: bool
  dk_is_active :: bool

record digisac_contact =
  dc_id :: int
  dc_external_id :: string
  dc_normalized_number :: "string option"
  dc_normalized_email :: "string option"
  dc_is_group :: "bool option"

record ticket_assignment =
  ta_id :: int
  ta_conversation_id :: string
  ta_department_id :: "string option"
  ta_event_timestamp :: time

record directory_db =
  dir_companies :: "company list"
  dir_departments :: "department list"
  dir_company_departments :: "company_department list"
  dir_contacts :: "directory_contact list"
  dir_digisac_contacts :: "digisac_contact list"
  dir_digisac_departments :: "string list"
  dir_assignments :: "ticket_assignment list"

record classification =
  cl_id :: int
  cl_confidence :: jvalue
  cl_title :: "string option"
  cl_description :: "string option"

text \<open>The facts a mapping evaluation stores as JSON; a key the code has not set yet is \<open>None\<close>.\<close>

record mapping_validation =
  va_assignment_history_id :: "int option"
  va_cycle_started_at :: "time option"
  va_ticket_closed_at :: "time option"
  va_identity_resolution_id :: "int option"
  va_identity_link_id :: "int option"
  va_company_id :: "int option"
  va_rule_present :: bool
  va_target_department_available :: bool
  va_company_available :: bool
  va_relationship_available :: bool
  va_digisac_department_present :: "bool option"

record department_mapping =
  dm_id :: int
  dm_cycle_id :: int
  dm_evaluation_key :: string
  dm_rule_id :: "int option"
  dm_rule_version :: "int option"
  dm_digisac_department_external_id :: "string option"
  dm_department_external_id :: "string option"
  dm_company_id :: "int option"
  dm_state :: string
  dm_reason :: string
  dm_validation :: mapping_validation
  dm_evaluated_at :: time

text \<open>\<open>is_active IS TRUE\<close> and \<open>is_active is not False\<close> on a column that may be null.\<close>

definition is_true :: "bool option \<Rightarrow> bool" where
  "is_true b \<longleftrightarrow> b = Some True"

definition not_false :: "bool option \<Rightarrow> bool" where
  "not_false b \<longleftrightarrow> b \<noteq> Some False"

end
