(* ===== verification/Request_Operations.thy ===== *)
theory Request_Operations
  imports Request_Provider Directory_Tables
begin

text \<open>
  Durable creation of external requests (\<open>src/core/acessorias_requests.py\<close>): the operation row of a
  cycle, its claim, the confidence gate, the marker set before the POST, the recorded outcome and the
  manual reconciliation.  Each \<open>_..._sync\<close> function of the code is one transaction on the state
  \<open>request_db\<close>; the check constraints of the migrations are \<open>op_check\<close>, and a statement that breaks one
  is an error that leaves the tables as they were.  The cycles, classifications, department mappings
  and the company directory are tables this component reads.  The SHA-256 fingerprint of the payload
  is the parameter \<open>digest\<close>.
\<close>

section \<open>Confidence gate\<close>

datatype confidence_state = Allowed | Below_Threshold | Invalid

record confidence_decision =
  rc_state :: confidence_state
  rc_reason :: string
  rc_score_10 :: "rat option"

definition REQUEST_CONFIDENCE_MINIMUM :: rat where
  "REQUEST_CONFIDENCE_MINIMUM = 5 / 10"

definition invalid_confidence :: confidence_decision where
  "invalid_confidence = \<lparr>rc_state = Invalid, rc_reason = ''confidence_invalid'', rc_score_10 = None\<rparr>"

definition evaluate_finite :: "rat \<Rightarrow> confidence_decision" where
  "evaluate_finite normalized =
    (if \<not> (0 \<le> normalized \<and> normalized \<le> 1) then invalid_confidence
     else if normalized < REQUEST_CONFIDENCE_MINIMUM
     then \<lparr>rc_state = Below_Threshold, rc_reason = ''confidence_below_threshold'',
           rc_score_10 = Some (normalized * 10)\<rparr>
     else \<lparr>rc_state = Allowed, rc_reason = ''confidence_accepted'',
           rc_score_10 = Some (normalized * 10)\<rparr>)"

definition evaluate_request_confidence :: "jvalue \<Rightarrow> confidence_decision" where
  "evaluate_request_confidence value =
    (case value of
       JInt n \<Rightarrow> evaluate_finite (of_int n)
     | JFloat r \<Rightarrow> evaluate_finite r
     | _ \<Rightarrow> invalid_confidence)"

definition confidence_state_text :: "confidence_state \<Rightarrow> string" where
  "confidence_state_text s =
    (case s of Allowed \<Rightarrow> ''allowed'' | Below_Threshold \<Rightarrow> ''below_threshold'' | Invalid \<Rightarrow> ''invalid'')"

definition confidence_gate_metadata :: "confidence_decision \<Rightarrow> jdict" where
  "confidence_gate_metadata d =
    [(''scale'', JStr ''0_10''), (''threshold'', JFloat 5),
     (''decision'', JStr (confidence_state_text (rc_state d)))] @
    (case rc_score_10 d of None \<Rightarrow> [] | Some s \<Rightarrow> [(''score'', JFloat s)])"

section \<open>Safe texts\<close>

definition operation_key_char :: "char \<Rightarrow> bool" where
  "operation_key_char c \<longleftrightarrow>
    c \<in> set (ascii_lower_letters @ ascii_upper_letters @ ascii_digits @ ''_.:@-'')"

definition SAFE_REASON :: "string \<Rightarrow> bool" where
  "SAFE_REASON s \<longleftrightarrow> 1 \<le> length s \<and> length s \<le> 120 \<and> list_all category_char s"

definition SAFE_OPERATION_KEY :: "string \<Rightarrow> bool" where
  "SAFE_OPERATION_KEY s \<longleftrightarrow> 1 \<le> length s \<and> length s \<le> 240 \<and> list_all operation_key_char s"

definition safe_reason :: "string \<Rightarrow> py_error + string" where
  "safe_reason value =
    (let normalized = py_casefold (py_strip value)
     in if SAFE_REASON normalized then Inr normalized
        else Inl (ValueError ''reason must contain only safe operational characters''))"

definition safe_operation_key :: "string \<Rightarrow> py_error + string" where
  "safe_operation_key value =
    (let normalized = py_strip value
     in if SAFE_OPERATION_KEY normalized then Inr normalized
        else Inl (ValueError ''operation_key is invalid''))"

definition safe_actor :: "string option \<Rightarrow> py_error + string option" where
  "safe_actor value =
    (case value of
       None \<Rightarrow> Inr None
     | Some v \<Rightarrow>
        (let normalized = py_strip v
         in if 160 < length normalized \<or> \<not> SAFE_OPERATION_KEY normalized
            then Inl (ValueError ''actor is invalid'') else Inr (Some normalized)))"

text \<open>\<open>fallback\<close> is the text built from the prefix, the process and the task.\<close>

definition claim_owner :: "string option \<Rightarrow> string \<Rightarrow> py_error + string" where
  "claim_owner value fallback =
    (let candidate = (case value of None \<Rightarrow> fallback | Some v \<Rightarrow> if v = [] then fallback else v);
         normalized = take 160 (map (\<lambda>c. if operation_key_char c then c else CHR ''-'') candidate)
     in if normalized = [] then Inl (ValueError ''claim owner is invalid'') else Inr normalized)"

section \<open>Tables\<close>

record request_operation =
  op_id :: int
  op_source_cycle_id :: int
  op_source_classification_id :: "int option"
  op_conversation_id :: string
  op_company_id :: "int option"
  op_company_external_id :: "string option"
  op_department_mapping_id :: "int option"
  op_department_external_id :: "string option"
  op_payload_fingerprint :: "string option"
  op_payload_metadata :: jdict
  op_state :: op_state
  op_attempt_count :: int
  op_claim_owner :: "string option"
  op_claim_expires_at :: "time option"
  op_post_started_at :: "time option"
  op_first_attempt_at :: "time option"
  op_last_attempt_at :: "time option"
  op_completed_at :: "time option"
  op_sol_id :: "string option"
  op_last_provider_status :: "int option"
  op_failure_category :: "string option"
  op_failure_message :: "string option"
  op_reconciliation :: jdict
  op_preparation_recovery :: jdict
  op_created_at :: time
  op_updated_at :: time

datatype reconciliation_action = Record_Solid | Release_Retry

record reconciliation_audit =
  ra_operation_id :: int
  ra_operation_key :: string
  ra_action :: reconciliation_action
  ra_sol_id :: "string option"
  ra_reason :: string
  ra_actor :: "string option"
  ra_verified_remote_absence :: bool

record request_db =
  rd_cycles :: "cycle list"
  rd_classifications :: "classification list"
  rd_mappings :: "department_mapping list"
  rd_companies :: "company list"
  rd_departments :: "department list"
  rd_company_departments :: "company_department list"
  rd_operations :: "request_operation list"
  rd_audits :: "reconciliation_audit list"
  rd_next_operation_id :: int

section \<open>Constraints\<close>

definition hex_char :: "char \<Rightarrow> bool" where
  "hex_char c \<longleftrightarrow> c \<in> set (ascii_digits @ ''abcdef'')"

definition opt_all :: "('a \<Rightarrow> bool) \<Rightarrow> 'a option \<Rightarrow> bool" where
  "opt_all P x = (case x of None \<Rightarrow> True | Some v \<Rightarrow> P v)"

lemma opt_all_simps [simp]: "opt_all P None" "opt_all P (Some v) = P v"
  by (simp_all add: opt_all_def)

definition op_check :: "request_operation \<Rightarrow> bool" where
  "op_check o' \<longleftrightarrow>
    btrim (op_conversation_id o') \<noteq> [] \<and>
    opt_all (\<lambda>s. btrim s \<noteq> []) (op_company_external_id o') \<and>
    opt_all (\<lambda>s. btrim s \<noteq> []) (op_department_external_id o') \<and>
    opt_all (\<lambda>s. length s = 64 \<and> list_all hex_char s) (op_payload_fingerprint o') \<and>
    0 \<le> op_attempt_count o' \<and>
    opt_all (\<lambda>s. 1 \<le> length s \<and> length s \<le> 160 \<and> list_all operation_key_char s) (op_claim_owner o') \<and>
    opt_all (\<lambda>s. btrim s \<noteq> []) (op_sol_id o') \<and>
    opt_all (\<lambda>s. 1 \<le> length s \<and> length s \<le> 120 \<and> list_all category_char s) (op_failure_category o') \<and>
    opt_all (\<lambda>s. 1 \<le> length s \<and> length s \<le> 240 \<and> list_all category_char s) (op_failure_message o') \<and>
    (op_state o' = Op_Completed \<longrightarrow> op_sol_id o' \<noteq> None \<and> op_completed_at o' \<noteq> None)"

definition operation_violation :: py_error where
  "operation_violation = CheckViolation ''acessorias_request_operations''"

definition write_operations ::
  "request_operation list \<Rightarrow> 'a \<Rightarrow> request_db \<Rightarrow> (py_error + 'a) \<times> request_db" where
  "write_operations rows x db =
    (if list_all op_check rows then (Inr x, db\<lparr>rd_operations := rows\<rparr>)
     else (Inl operation_violation, db))"

text \<open>\<open>UPDATE ... WHERE ... RETURNING *\<close> for a condition that fixes the row's id.\<close>

definition update_returning ::
  "(request_operation \<Rightarrow> bool) \<Rightarrow> (request_operation \<Rightarrow> request_operation) \<Rightarrow> request_db \<Rightarrow>
   (py_error + request_operation option) \<times> request_db" where
  "update_returning P f db =
    write_operations (update_where P f (rd_operations db)) (map_option f (find P (rd_operations db))) db"

definition unavailable :: py_error where
  "unavailable = RuntimeError ''Request operation is unavailable''"

definition operation_by_id :: "int \<Rightarrow> request_db \<Rightarrow> py_error + request_operation" where
  "operation_by_id i db =
    (case lookup_by op_id i (rd_operations db) of None \<Rightarrow> Inl unavailable | Some o' \<Rightarrow> Inr o')"

section \<open>Ensuring the operation\<close>

definition cycle_snapshot :: "string \<Rightarrow> request_db \<Rightarrow> cycle option" where
  "cycle_snapshot public_id db = lookup_by cy_public_id public_id (rd_cycles db)"

definition cycle_classification :: "cycle \<Rightarrow> request_db \<Rightarrow> classification option" where
  "cycle_classification c db =
    (case cy_classification_id c of
       None \<Rightarrow> None
     | Some i \<Rightarrow> lookup_by cl_id i (rd_classifications db))"

definition classification_confidence :: "classification option \<Rightarrow> jvalue" where
  "classification_confidence k = (case k of None \<Rightarrow> JNull | Some c \<Rightarrow> cl_confidence c)"

definition mapping_snapshot :: "int \<Rightarrow> request_db \<Rightarrow> department_mapping option" where
  "mapping_snapshot cycle_id db =
    fetchone (select_limit 1 (\<lambda>m. - dm_id m)
      (\<lambda>m. dm_cycle_id m = cycle_id \<and> dm_evaluation_key m = ''default'') (rd_mappings db))"

record request_facts =
  fa_company_id :: int
  fa_company_external_id :: string
  fa_department_mapping_id :: int
  fa_department_external_id :: string

definition active_company :: "int \<Rightarrow> request_db \<Rightarrow> company option" where
  "active_company i db =
    find (\<lambda>c. co_id c = i \<and> co_is_present c \<and> is_true (co_is_active c)) (rd_companies db)"

definition company_has_department :: "int \<Rightarrow> string \<Rightarrow> request_db \<Rightarrow> bool" where
  "company_has_department i department_id db \<longleftrightarrow>
    list_ex (\<lambda>r. rel_company_id r = i \<and> rel_is_present r \<and> rel_is_active r \<and>
      list_ex (\<lambda>d. de_id d = rel_department_id r \<and> de_external_id d = department_id \<and>
        de_is_present d \<and> de_is_active d) (rd_departments db)) (rd_company_departments db)"

definition payload_error_reason :: "string \<Rightarrow> string" where
  "payload_error_reason message =
    (if py_contains message ''department'' then ''department_identifier_invalid''
     else if py_contains message ''description'' then ''classification_description_missing''
     else ''classification_title_missing'')"

type_synonym operation_verdict =
  "op_state \<times> string option \<times> request_facts option \<times> request_payload option"

definition refused :: "string \<Rightarrow> operation_verdict" where
  "refused reason = (Definitive_Failure, Some reason, None, None)"

definition operation_state :: "cycle \<Rightarrow> department_mapping option \<Rightarrow> request_db \<Rightarrow> operation_verdict" where
  "operation_state cycle mapping db =
    (let classification = cycle_classification cycle db;
         confidence = evaluate_request_confidence (classification_confidence classification)
     in if cy_status cycle \<notin> set [Cycle_Completed, Completed_With_Warnings]
        then refused ''cycle_not_eligible''
        else if cy_classification_id cycle = None then refused ''classification_missing''
        else if rc_state confidence \<noteq> Allowed then refused (rc_reason confidence)
        else case Option.bind classification cl_title of
          None \<Rightarrow> refused ''classification_title_missing''
        | Some title \<Rightarrow>
        (if py_strip title = [] then refused ''classification_title_missing''
         else case Option.bind classification cl_description of
           None \<Rightarrow> refused ''classification_description_missing''
         | Some description \<Rightarrow>
         (case mapping of
            None \<Rightarrow> refused ''mapping_missing''
          | Some m \<Rightarrow>
          (if dm_state m \<noteq> ''resolved''
           then refused (safe_category
             (if dm_reason m = [] then ''mapping_unresolved'' else dm_reason m))
           else case (dm_company_id m, dm_department_external_id m) of
             (Some company_id, Some department_id) \<Rightarrow>
               (case active_company company_id db of
                  None \<Rightarrow> refused ''company_unavailable''
                | Some company \<Rightarrow>
                   (if \<not> company_has_department company_id department_id db
                    then refused ''company_department_unavailable''
                    else case build_request_payload title description (cy_protocol cycle)
                        (co_external_id company) department_id of
                      Inl (ValueError message) \<Rightarrow> refused (payload_error_reason message)
                    | Inl _ \<Rightarrow> refused ''classification_title_missing''
                    | Inr payload \<Rightarrow>
                        (Not_Started, None,
                         Some \<lparr>fa_company_id = company_id,
                           fa_company_external_id = co_external_id company,
                           fa_department_mapping_id = dm_id m,
                           fa_department_external_id = department_id\<rparr>,
                         Some payload)))
           | _ \<Rightarrow> refused ''mapping_facts_missing''))))"

definition new_operation ::
  "(request_payload \<Rightarrow> string) \<Rightarrow> time \<Rightarrow> cycle \<Rightarrow> request_db \<Rightarrow> request_operation" where
  "new_operation digest now cycle db =
    (let mapping = mapping_snapshot (cy_id cycle) db
     in case operation_state cycle mapping db of
          (state, reason, facts, payload) \<Rightarrow>
            \<lparr>op_id = rd_next_operation_id db, op_source_cycle_id = cy_id cycle,
             op_source_classification_id = cy_classification_id cycle,
             op_conversation_id = cy_conversation_id cycle,
             op_company_id = map_option fa_company_id facts,
             op_company_external_id = map_option fa_company_external_id facts,
             op_department_mapping_id = map_option dm_id mapping,
             op_department_external_id = map_option fa_department_external_id facts,
             op_payload_fingerprint = map_option digest payload,
             op_payload_metadata =
               (let metadata = (case payload of None \<Rightarrow> [] | Some p \<Rightarrow> payload_metadata p)
                in if cy_classification_id cycle = None then metadata
                   else dict_set metadata ''confidence_gate'' (JObj (confidence_gate_metadata
                     (evaluate_request_confidence
                       (classification_confidence (cycle_classification cycle db)))))),
             op_state = state, op_attempt_count = 0, op_claim_owner = None,
             op_claim_expires_at = None, op_post_started_at = None, op_first_attempt_at = None,
             op_last_attempt_at = None, op_completed_at = None, op_sol_id = None,
             op_last_provider_status = None, op_failure_category = reason,
             op_failure_message = reason, op_reconciliation = [], op_preparation_recovery = [],
             op_created_at = now, op_updated_at = now\<rparr>)"

definition ensure_operation ::
  "(request_payload \<Rightarrow> string) \<Rightarrow> time \<Rightarrow> string \<Rightarrow> request_db \<Rightarrow>
   (py_error + request_operation) \<times> request_db" where
  "ensure_operation digest now cycle_public_id db =
    (case cycle_snapshot cycle_public_id db of
       None \<Rightarrow> (Inl (LookupError ''conversation cycle not found''), db)
     | Some cycle \<Rightarrow>
        (let new = new_operation digest now cycle db
         in if \<not> op_check new then (Inl operation_violation, db)
            else case lookup_by op_source_cycle_id (cy_id cycle) (rd_operations db) of
              Some existing \<Rightarrow> (Inr existing, db)
            | None \<Rightarrow>
                (Inr new, db\<lparr>rd_operations := rd_operations db @ [new],
                             rd_next_operation_id := rd_next_operation_id db + 1\<rparr>)))"

section \<open>Claim, gate and outcome\<close>

definition expired_attempt :: "time \<Rightarrow> int \<Rightarrow> request_operation \<Rightarrow> bool" where
  "expired_attempt now i o' \<longleftrightarrow>
    op_id o' = i \<and> op_state o' = Attempting \<and>
    (case op_claim_expires_at o' of None \<Rightarrow> False | Some t \<Rightarrow> t \<le> now)"

definition release_claim :: "time \<Rightarrow> op_state \<Rightarrow> string \<Rightarrow> request_operation \<Rightarrow> request_operation" where
  "release_claim now state category o' =
    o'\<lparr>op_state := state, op_failure_category := Some category, op_failure_message := Some category,
       op_claim_owner := None, op_claim_expires_at := None, op_updated_at := now\<rparr>"

definition recover_stale :: "time \<Rightarrow> request_operation \<Rightarrow> request_operation" where
  "recover_stale now o' =
    (if op_post_started_at o' = None then release_claim now Op_Retryable ''crash_before_post'' o'
     else release_claim now Reconciliation_Required ''claim_expired_after_post_start'' o')"

definition operation_claimable :: "int \<Rightarrow> request_operation \<Rightarrow> bool" where
  "operation_claimable i o' \<longleftrightarrow> op_id o' = i \<and> op_state o' \<in> set [Not_Started, Op_Retryable]"

definition claimed_operation :: "time \<Rightarrow> string \<Rightarrow> int \<Rightarrow> request_operation \<Rightarrow> request_operation" where
  "claimed_operation now owner lease_seconds o' =
    o'\<lparr>op_state := Attempting, op_claim_owner := Some owner,
       op_claim_expires_at := Some (now + seconds lease_seconds), op_updated_at := now\<rparr>"

definition claim_operation ::
  "time \<Rightarrow> int \<Rightarrow> string \<Rightarrow> int \<Rightarrow> request_db \<Rightarrow> (py_error + request_operation option) \<times> request_db" where
  "claim_operation now i owner lease_seconds db =
    (let recovered = update_where (expired_attempt now i) (recover_stale now) (rd_operations db);
         res = update_returning (operation_claimable i) (claimed_operation now owner lease_seconds)
           (db\<lparr>rd_operations := recovered\<rparr>)
     in case res of
          (Inl e, _) \<Rightarrow> (Inl e, db)
        | (Inr o', db') \<Rightarrow> (Inr o', db'))"

text \<open>The facts of the payload; \<open>None\<close> stands for any exception of the loading.\<close>

definition load_payload :: "int \<Rightarrow> request_db \<Rightarrow> request_payload option" where
  "load_payload i db =
    (case lookup_by op_id i (rd_operations db) of
       None \<Rightarrow> None
     | Some o' \<Rightarrow>
        (case (lookup_by cy_id (op_source_cycle_id o') (rd_cycles db),
               Option.bind (op_source_classification_id o')
                 (\<lambda>k. lookup_by cl_id k (rd_classifications db))) of
           (Some cycle, Some k) \<Rightarrow>
             (case (cl_title k, cl_description k, op_company_external_id o',
                    op_department_external_id o') of
                (Some title, Some description, Some company, Some department) \<Rightarrow>
                  (case build_request_payload title description (cy_protocol cycle) company department of
                     Inl _ \<Rightarrow> None
                   | Inr p \<Rightarrow> Some p)
              | _ \<Rightarrow> None)
         | _ \<Rightarrow> None))"

definition operation_confidence :: "request_operation \<Rightarrow> request_db \<Rightarrow> confidence_decision" where
  "operation_confidence o' db =
    evaluate_request_confidence (classification_confidence
      (Option.bind (op_source_classification_id o') (\<lambda>k. lookup_by cl_id k (rd_classifications db))))"

definition request_confidence_for_operation :: "int \<Rightarrow> request_db \<Rightarrow> confidence_decision" where
  "request_confidence_for_operation i db =
    (case lookup_by op_id i (rd_operations db) of
       None \<Rightarrow> evaluate_request_confidence JNull
     | Some o' \<Rightarrow> operation_confidence o' db)"

definition held_by :: "int \<Rightarrow> string \<Rightarrow> request_operation \<Rightarrow> bool" where
  "held_by i owner o' \<longleftrightarrow> op_id o' = i \<and> op_state o' = Attempting \<and> op_claim_owner o' = Some owner"

definition confidence_blocked ::
  "time \<Rightarrow> confidence_decision \<Rightarrow> request_operation \<Rightarrow> request_operation" where
  "confidence_blocked now decision o' =
    (release_claim now Definitive_Failure (rc_reason decision) o')
      \<lparr>op_payload_metadata := dict_set (op_payload_metadata o') ''confidence_gate''
         (JObj (confidence_gate_metadata decision))\<rparr>"

definition finish_confidence_blocked ::
  "time \<Rightarrow> int \<Rightarrow> string \<Rightarrow> confidence_decision \<Rightarrow> request_db \<Rightarrow>
   (py_error + request_operation) \<times> request_db" where
  "finish_confidence_blocked now i owner decision db =
    (case update_returning (\<lambda>o'. held_by i owner o' \<and> op_post_started_at o' = None)
        (confidence_blocked now decision) db of
       (Inl e, db') \<Rightarrow> (Inl e, db')
     | (Inr (Some o'), db') \<Rightarrow> (Inr o', db')
     | (Inr None, db') \<Rightarrow> (operation_by_id i db', db'))"

definition refresh_payload_metadata ::
  "(request_payload \<Rightarrow> string) \<Rightarrow> time \<Rightarrow> int \<Rightarrow> string \<Rightarrow> request_payload \<Rightarrow> confidence_decision \<Rightarrow>
   request_db \<Rightarrow> (py_error + bool) \<times> request_db" where
  "refresh_payload_metadata digest now i owner payload decision db =
    (case update_returning (\<lambda>o'. held_by i owner o' \<and> op_post_started_at o' = None)
        (\<lambda>o'. o'\<lparr>op_payload_fingerprint := Some (digest payload),
               op_payload_metadata := payload_metadata payload @
                 [(''confidence_gate'', JObj (confidence_gate_metadata decision))],
               op_updated_at := now\<rparr>) db of
       (Inl e, db') \<Rightarrow> (Inl e, db')
     | (Inr res, db') \<Rightarrow> (Inr (res \<noteq> None), db'))"

definition post_started :: "time \<Rightarrow> request_operation \<Rightarrow> request_operation" where
  "post_started now o' =
    o'\<lparr>op_post_started_at := Some now, op_attempt_count := op_attempt_count o' + 1,
       op_first_attempt_at := Some (coalesce (op_first_attempt_at o') now),
       op_last_attempt_at := Some now, op_failure_category := None, op_failure_message := None,
       op_updated_at := now\<rparr>"

definition mark_post_started ::
  "time \<Rightarrow> int \<Rightarrow> string \<Rightarrow> request_db \<Rightarrow> (py_error + bool) \<times> request_db" where
  "mark_post_started now i owner db =
    (case find (held_by i owner) (rd_operations db) of
       None \<Rightarrow> (Inr False, db)
     | Some o' \<Rightarrow>
        (let decision = operation_confidence o' db
         in if rc_state decision \<noteq> Allowed
            then (case update_returning (\<lambda>o'. held_by i owner o' \<and> op_post_started_at o' = None)
                     (confidence_blocked now decision) db of
                    (Inl e, db') \<Rightarrow> (Inl e, db')
                  | (Inr _, db') \<Rightarrow> (Inr False, db'))
            else (case update_returning (held_by i owner) (post_started now) db of
                    (Inl e, db') \<Rightarrow> (Inl e, db')
                  | (Inr res, db') \<Rightarrow> (Inr (res \<noteq> None), db'))))"

definition finished_operation :: "time \<Rightarrow> request_outcome \<Rightarrow> request_operation \<Rightarrow> request_operation" where
  "finished_operation now outcome o' =
    (let category = (if ro_state outcome = Op_Completed then None else Some (ro_category outcome))
     in o'\<lparr>op_state := ro_state outcome, op_sol_id := ro_solid_id outcome,
           op_last_provider_status := ro_provider_status outcome,
           op_failure_category := category, op_failure_message := category,
           op_completed_at := (if ro_state outcome = Op_Completed then Some now else None),
           op_claim_owner := None, op_claim_expires_at := None,
           op_reconciliation :=
             (if ro_state outcome = Reconciliation_Required
              then [(''required'', JBool True), (''category'', JStr (ro_category outcome))]
              else op_reconciliation o'),
           op_updated_at := now\<rparr>)"

definition finish_operation ::
  "time \<Rightarrow> int \<Rightarrow> string \<Rightarrow> request_outcome \<Rightarrow> request_db \<Rightarrow>
   (py_error + request_operation) \<times> request_db" where
  "finish_operation now i owner outcome db =
    (if ro_state outcome \<notin> set [Op_Completed, Definitive_Failure, Op_Retryable, Reconciliation_Required]
     then (Inl (ValueError ''unsupported Request outcome''), db)
     else if ro_state outcome = Op_Completed \<and> coalesce (ro_solid_id outcome) [] = []
     then (Inl (ValueError ''completed Request outcome requires SolID''), db)
     else case update_returning (held_by i owner) (finished_operation now outcome) db of
       (Inl e, db') \<Rightarrow> (Inl e, db')
     | (Inr (Some o'), db') \<Rightarrow> (Inr o', db')
     | (Inr None, db') \<Rightarrow> (operation_by_id i db', db'))"

definition get_operation_for_cycle :: "string \<Rightarrow> request_db \<Rightarrow> request_operation option" where
  "get_operation_for_cycle cycle_public_id db =
    (case cycle_snapshot cycle_public_id db of
       None \<Rightarrow> None
     | Some cycle \<Rightarrow> lookup_by op_source_cycle_id (cy_id cycle) (rd_operations db))"

section \<open>Preparation recovery\<close>

definition unattempted_mapping_failure :: "request_operation \<Rightarrow> bool" where
  "unattempted_mapping_failure o' \<longleftrightarrow>
    op_state o' = Definitive_Failure \<and> op_failure_category o' = Some ''mapping_missing'' \<and>
    op_post_started_at o' = None \<and> op_sol_id o' = None \<and> op_attempt_count o' = 0 \<and>
    op_first_attempt_at o' = None \<and> op_last_attempt_at o' = None"

definition claim_mapping_missing_recovery ::
  "time \<Rightarrow> string \<Rightarrow> string \<Rightarrow> int \<Rightarrow> request_db \<Rightarrow> (py_error + request_operation option) \<times> request_db" where
  "claim_mapping_missing_recovery now cycle_public_id owner lease_seconds db =
    (case get_operation_for_cycle cycle_public_id db of
       None \<Rightarrow> (Inr None, db)
     | Some o' \<Rightarrow>
        (if \<not> (unattempted_mapping_failure o' \<and> op_reconciliation o' = []) then (Inr None, db)
         else if op_claim_owner o' \<noteq> None \<and> in_future now (op_claim_expires_at o') \<and>
           op_claim_owner o' \<noteq> Some owner then (Inr None, db)
         else update_returning (\<lambda>r. op_id r = op_id o' \<and> unattempted_mapping_failure r)
           (\<lambda>r. r\<lparr>op_claim_owner := Some owner,
                 op_claim_expires_at := Some (now + seconds lease_seconds),
                 op_updated_at := now\<rparr>) db))"

definition recovery_json :: "string \<Rightarrow> string \<Rightarrow> string \<Rightarrow> jdict" where
  "recovery_json status stage reason =
    [(''source'', JStr ''internal_preparation_recovery''), (''status'', JStr status),
     (''stage'', JStr stage), (''reason'', JStr reason)]"

definition claim_lost :: py_error where
  "claim_lost = RuntimeError ''preparation recovery claim was lost''"

definition record_preparation_recovery_blocked ::
  "time \<Rightarrow> int \<Rightarrow> string \<Rightarrow> string \<Rightarrow> string \<Rightarrow> request_db \<Rightarrow>
   (py_error + request_operation) \<times> request_db" where
  "record_preparation_recovery_blocked now i owner stage reason db =
    (case update_returning
        (\<lambda>o'. op_id o' = i \<and> op_state o' = Definitive_Failure \<and>
          op_failure_category o' = Some ''mapping_missing'' \<and> op_claim_owner o' = Some owner \<and>
          op_post_started_at o' = None \<and> op_sol_id o' = None)
        (\<lambda>o'. o'\<lparr>op_claim_owner := None, op_claim_expires_at := None,
          op_preparation_recovery :=
            recovery_json ''blocked'' (safe_category stage) (safe_category reason),
          op_updated_at := now\<rparr>) db of
       (Inl e, db') \<Rightarrow> (Inl e, db')
     | (Inr (Some o'), db') \<Rightarrow> (Inr o', db')
     | (Inr None, db') \<Rightarrow> (Inl claim_lost, db'))"

definition reopen_prepared_operation ::
  "(request_payload \<Rightarrow> string) \<Rightarrow> time \<Rightarrow> int \<Rightarrow> string \<Rightarrow> string \<Rightarrow> request_db \<Rightarrow>
   (py_error + request_operation) \<times> request_db" where
  "reopen_prepared_operation digest now i owner cycle_public_id db =
    (case cycle_snapshot cycle_public_id db of
       None \<Rightarrow> (Inl (LookupError ''conversation cycle not found''), db)
     | Some cycle \<Rightarrow>
        (case operation_state cycle (mapping_snapshot (cy_id cycle) db) db of
           (Not_Started, reason, Some facts, Some payload) \<Rightarrow>
             (case update_returning
                 (\<lambda>o'. op_id o' = i \<and> unattempted_mapping_failure o' \<and> op_claim_owner o' = Some owner)
                 (\<lambda>o'. o'\<lparr>op_company_id := Some (fa_company_id facts),
                   op_company_external_id := Some (fa_company_external_id facts),
                   op_department_mapping_id := Some (fa_department_mapping_id facts),
                   op_department_external_id := Some (fa_department_external_id facts),
                   op_payload_fingerprint := Some (digest payload),
                   op_payload_metadata := payload_metadata payload,
                   op_state := Not_Started, op_failure_category := None,
                   op_failure_message := None,
                   op_preparation_recovery :=
                     recovery_json ''prepared'' ''ready'' ''mapping_missing_recovered'',
                   op_updated_at := now\<rparr>) db of
                (Inl e, db') \<Rightarrow> (Inl e, db')
              | (Inr (Some o'), db') \<Rightarrow> (Inr o', db')
              | (Inr None, db') \<Rightarrow> (Inl claim_lost, db'))
         | (_, reason, _, _) \<Rightarrow>
             (Inl (AcessoriasRequestError
               (safe_category (case reason of None \<Rightarrow> ''preparation_not_ready''
                 | Some r \<Rightarrow> (if r = [] then ''preparation_not_ready'' else r)))
               ''prepared Request facts are not valid''), db)))"

section \<open>Creating the request\<close>

text \<open>What \<open>provider.create_request\<close> does: it returns an outcome or raises.  \<open>setup_ok\<close> says whether the
  adapter can be constructed, \<open>now k\<close> is the database clock of the \<open>k\<close>-th transaction of the call.\<close>

datatype provider_answer = Answered request_outcome | Raised

type_synonym 'w provider = "request_payload \<Rightarrow> 'w \<Rightarrow> provider_answer \<times> 'w"

definition finish_with ::
  "time \<Rightarrow> int \<Rightarrow> string \<Rightarrow> request_outcome \<Rightarrow> request_db \<Rightarrow>
   (py_error + request_operation option) \<times> request_db" where
  "finish_with now i owner outcome db =
    (case finish_operation now i owner outcome db of
       (Inl e, db') \<Rightarrow> (Inl e, db')
     | (Inr o', db') \<Rightarrow> (Inr (Some o'), db'))"

definition answer_outcome :: "provider_answer \<Rightarrow> request_outcome" where
  "answer_outcome answer =
    (case answer of Answered outcome \<Rightarrow> outcome | Raised \<Rightarrow> reconciliation ''provider_exception'' None)"

definition deliver ::
  "(request_payload \<Rightarrow> string) \<Rightarrow> bool \<Rightarrow> 'w provider \<Rightarrow> (nat \<Rightarrow> time) \<Rightarrow> string \<Rightarrow> int \<Rightarrow> string \<Rightarrow>
   request_db \<Rightarrow> 'w \<Rightarrow> (py_error + request_operation option) \<times> request_db \<times> 'w" where
  "deliver digest setup_ok provider now cycle_public_id i owner db w =
    (case load_payload i db of
       None \<Rightarrow>
         (case finish_with (now 2) i owner (retryable ''payload_load_failed'' None) db of
            (res, db') \<Rightarrow> (res, db', w))
     | Some payload \<Rightarrow>
        (let confidence = request_confidence_for_operation i db
         in if rc_state confidence \<noteq> Allowed
            then (case finish_confidence_blocked (now 2) i owner confidence db of
                    (Inl e, db') \<Rightarrow> (Inl e, db', w)
                  | (Inr o', db') \<Rightarrow> (Inr (Some o'), db', w))
            else case refresh_payload_metadata digest (now 2) i owner payload confidence db of
              (Inl e, db1) \<Rightarrow> (Inl e, db1, w)
            | (Inr _, db1) \<Rightarrow>
                (if \<not> setup_ok
                 then (case finish_with (now 3) i owner (retryable ''provider_setup_failed'' None) db1 of
                         (res, db') \<Rightarrow> (res, db', w))
                 else case mark_post_started (now 3) i owner db1 of
                   (Inl e, db2) \<Rightarrow> (Inl e, db2, w)
                 | (Inr False, db2) \<Rightarrow> (Inr (get_operation_for_cycle cycle_public_id db2), db2, w)
                 | (Inr True, db2) \<Rightarrow>
                     (case provider payload w of
                        (answer, w') \<Rightarrow>
                          (case finish_with (now 4) i owner (answer_outcome answer) db2 of
                             (res, db') \<Rightarrow> (res, db', w'))))))"

definition create_request_for_cycle ::
  "(request_payload \<Rightarrow> string) \<Rightarrow> bool \<Rightarrow> 'w provider \<Rightarrow> (nat \<Rightarrow> time) \<Rightarrow> int \<Rightarrow> string \<Rightarrow>
   string option \<Rightarrow> string \<Rightarrow> request_db \<Rightarrow> 'w \<Rightarrow>
   (py_error + request_operation option) \<times> request_db \<times> 'w" where
  "create_request_for_cycle digest setup_ok provider now lease_seconds fallback owner cycle_public_id db w =
    (case ensure_operation digest (now 0) cycle_public_id db of
       (Inl e, db1) \<Rightarrow> (Inl e, db1, w)
     | (Inr operation, db1) \<Rightarrow>
        (if op_state operation \<notin> set [Not_Started, Op_Retryable] then (Inr (Some operation), db1, w)
         else case claim_owner owner fallback of
           Inl e \<Rightarrow> (Inl e, db1, w)
         | Inr o' \<Rightarrow>
            (case claim_operation (now 1) (op_id operation) o' lease_seconds db1 of
               (Inl e, db2) \<Rightarrow> (Inl e, db2, w)
             | (Inr None, db2) \<Rightarrow>
                 (case operation_by_id (op_id operation) db2 of
                    Inl e \<Rightarrow> (Inl e, db2, w)
                  | Inr r \<Rightarrow> (Inr (Some r), db2, w))
             | (Inr (Some _), db2) \<Rightarrow>
                 deliver digest setup_ok provider now cycle_public_id (op_id operation) o' db2 w)))"

section \<open>Reconciliation\<close>

definition conflict :: "string \<Rightarrow> py_error" where
  "conflict message = AcessoriasRequestError ''reconciliation_conflict'' message"

definition reconciled ::
  "time \<Rightarrow> reconciliation_action \<Rightarrow> string option \<Rightarrow> string \<Rightarrow> string \<Rightarrow> request_operation \<Rightarrow>
   request_operation" where
  "reconciled now action solid key reason o' =
    (case action of
       Record_Solid \<Rightarrow>
         o'\<lparr>op_state := Op_Completed, op_sol_id := solid,
            op_completed_at := Some (coalesce (op_completed_at o') now),
            op_failure_category := None, op_failure_message := None,
            op_claim_owner := None, op_claim_expires_at := None,
            op_reconciliation :=
              [(''source'', JStr ''manual_db''), (''action'', JStr ''record_solid''),
               (''operation_key'', JStr key), (''reason'', JStr reason)],
            op_updated_at := now\<rparr>
     | Release_Retry \<Rightarrow>
         (release_claim now Op_Retryable ''released_after_remote_absence'' o')
           \<lparr>op_reconciliation :=
              [(''source'', JStr ''manual_db''), (''action'', JStr ''release_retry''),
               (''operation_key'', JStr key), (''reason'', JStr reason)]\<rparr>)"

definition reconciliation_allowed ::
  "reconciliation_action \<Rightarrow> string option \<Rightarrow> request_operation \<Rightarrow> py_error + unit" where
  "reconciliation_allowed action solid o' =
    (case action of
       Record_Solid \<Rightarrow>
         (if op_state o' \<notin> set [Reconciliation_Required, Op_Completed]
          then Inl (AcessoriasRequestError ''reconciliation_not_required''
            ''operation does not require reconciliation'')
          else if op_state o' = Op_Completed \<and> op_sol_id o' \<noteq> solid
          then Inl (conflict ''request reconciliation conflicts'')
          else Inr ())
     | Release_Retry \<Rightarrow>
         (if op_state o' \<noteq> Reconciliation_Required
          then Inl (conflict ''Request is not awaiting reconciliation'') else Inr ()))"

definition reconcile_tx ::
  "time \<Rightarrow> string \<Rightarrow> reconciliation_action \<Rightarrow> string option \<Rightarrow> string \<Rightarrow> string \<Rightarrow> string option \<Rightarrow>
   request_db \<Rightarrow> (py_error + request_operation) \<times> request_db" where
  "reconcile_tx now cycle_public_id action solid reason key actor db =
    (case get_operation_for_cycle cycle_public_id db of
       None \<Rightarrow> (Inl (LookupError ''Request operation not found''), db)
     | Some operation \<Rightarrow>
        (case find (\<lambda>a. ra_operation_key a = key) (rd_audits db) of
           Some audit \<Rightarrow>
             (if ra_operation_id audit \<noteq> op_id operation
              then (Inl (conflict ''request reconciliation conflicts''), db)
              else (Inr operation, db))
         | None \<Rightarrow>
            (case reconciliation_allowed action solid operation of
               Inl e \<Rightarrow> (Inl e, db)
             | Inr _ \<Rightarrow>
                (let audit = \<lparr>ra_operation_id = op_id operation, ra_operation_key = key,
                       ra_action = action, ra_sol_id = solid, ra_reason = reason, ra_actor = actor,
                       ra_verified_remote_absence = (action = Release_Retry)\<rparr>;
                     f = reconciled now action solid key reason
                 in case write_operations
                     (update_where (\<lambda>r. op_id r = op_id operation) f (rd_operations db)) ()
                     (db\<lparr>rd_audits := rd_audits db @ [audit]\<rparr>) of
                    (Inl e, _) \<Rightarrow> (Inl e, db)
                  | (Inr _, db') \<Rightarrow>
                      (case operation_by_id (op_id operation) db' of
                         Inl e \<Rightarrow> (Inl e, db)
                       | Inr r \<Rightarrow> (Inr r, db'))))))"

definition record_reconciliation ::
  "time \<Rightarrow> string \<Rightarrow> reconciliation_action \<Rightarrow> string option \<Rightarrow> string \<Rightarrow> string \<Rightarrow> string option \<Rightarrow> bool \<Rightarrow>
   request_db \<Rightarrow> (py_error + request_operation) \<times> request_db" where
  "record_reconciliation now cycle_public_id action solid_id reason operation_key actor proof_of_absence db =
    (case safe_reason reason of
       Inl e \<Rightarrow> (Inl e, db)
     | Inr reason' \<Rightarrow>
        (case safe_operation_key operation_key of
           Inl e \<Rightarrow> (Inl e, db)
         | Inr key' \<Rightarrow>
            (case safe_actor actor of
               Inl e \<Rightarrow> (Inl e, db)
             | Inr actor' \<Rightarrow>
                (case action of
                   Record_Solid \<Rightarrow>
                     (case solid_id of
                        None \<Rightarrow> (Inl (ValueError ''solid_id is required and must be safe''), db)
                      | Some s \<Rightarrow>
                         (if \<not> SAFE_SOL_ID (py_strip s)
                          then (Inl (ValueError ''solid_id is required and must be safe''), db)
                          else reconcile_tx now cycle_public_id action (Some (py_strip s)) reason' key'
                            actor' db))
                 | Release_Retry \<Rightarrow>
                     (if \<not> proof_of_absence
                      then (Inl (ValueError ''release requires explicit proof of remote absence''), db)
                      else reconcile_tx now cycle_public_id action None reason' key' actor' db)))))"

definition reconcile_request_operation ::
  "time \<Rightarrow> string \<Rightarrow> string \<Rightarrow> string \<Rightarrow> string \<Rightarrow> string option \<Rightarrow> request_db \<Rightarrow>
   (py_error + request_operation) \<times> request_db" where
  "reconcile_request_operation now cycle_public_id solid_id reason operation_key actor =
    record_reconciliation now cycle_public_id Record_Solid (Some solid_id) reason operation_key actor False"

definition release_request_operation ::
  "time \<Rightarrow> string \<Rightarrow> string \<Rightarrow> string \<Rightarrow> bool \<Rightarrow> string option \<Rightarrow> request_db \<Rightarrow>
   (py_error + request_operation) \<times> request_db" where
  "release_request_operation now cycle_public_id reason operation_key proof_of_absence actor =
    record_reconciliation now cycle_public_id Release_Retry None reason operation_key actor proof_of_absence"

end
