(* ===== verification/Request_Correctness.thy ===== *)
theory Request_Correctness
  imports Request_Operations
begin

text \<open>
  Correctness of the durable requests: the moves an operation row can make as an inductive relation,
  the transactions as one step function and what they refine, the invariant of the reachable tables,
  and the properties of the claim, the confidence gate, the delivery and the reconciliation.
\<close>

section \<open>Moves of one operation\<close>

text \<open>The Boolean says whether an operator proved that nothing was created remotely.\<close>

inductive row_move :: "bool \<Rightarrow> request_operation \<Rightarrow> request_operation \<Rightarrow> bool" where
  move_recover: "op_state r = Attempting \<Longrightarrow> row_move auth r (recover_stale now r)"
| move_claim: "op_state r = Not_Started \<or> op_state r = Op_Retryable \<Longrightarrow>
    row_move auth r (claimed_operation now owner lease r)"
| move_gate: "op_state r = Attempting \<Longrightarrow> op_post_started_at r = None \<Longrightarrow>
    row_move auth r (confidence_blocked now decision r)"
| move_refresh: "op_state r = Attempting \<Longrightarrow> op_post_started_at r = None \<Longrightarrow>
    row_move auth r (r\<lparr>op_payload_fingerprint := Some fp, op_payload_metadata := md, op_updated_at := now\<rparr>)"
| move_post: "op_state r = Attempting \<Longrightarrow> row_move auth r (post_started now r)"
| move_finish: "op_state r = Attempting \<Longrightarrow>
    ro_state outcome \<in> {Op_Completed, Definitive_Failure, Op_Retryable, Reconciliation_Required} \<Longrightarrow>
    row_move auth r (finished_operation now outcome r)"
| move_recovery_claim: "unattempted_mapping_failure r \<Longrightarrow>
    row_move auth r (r\<lparr>op_claim_owner := Some owner, op_claim_expires_at := Some t, op_updated_at := now\<rparr>)"
| move_recovery_blocked: "op_state r = Definitive_Failure \<Longrightarrow>
    row_move auth r (r\<lparr>op_claim_owner := None, op_claim_expires_at := None,
      op_preparation_recovery := js, op_updated_at := now\<rparr>)"
| move_reopen: "unattempted_mapping_failure r \<Longrightarrow>
    row_move auth r (r\<lparr>op_company_id := a, op_company_external_id := b,
      op_department_mapping_id := c, op_department_external_id := d, op_payload_fingerprint := fp,
      op_payload_metadata := md, op_state := Not_Started, op_failure_category := None,
      op_failure_message := None, op_preparation_recovery := js, op_updated_at := now\<rparr>)"
| move_record: "op_state r = Reconciliation_Required \<or> op_state r = Op_Completed \<and> op_sol_id r = solid \<Longrightarrow>
    row_move auth r (reconciled now Record_Solid solid key reason r)"
| move_release: "op_state r = Reconciliation_Required \<Longrightarrow>
    row_move True r (reconciled now Release_Retry None key reason r)"

inductive_cases row_moveE: "row_move auth r r'"

lemma reconciled_simps [simp]:
  "op_id (reconciled now action solid key reason r) = op_id r"
  "op_source_cycle_id (reconciled now action solid key reason r) = op_source_cycle_id r"
  "op_post_started_at (reconciled now action solid key reason r) = op_post_started_at r"
  "op_attempt_count (reconciled now action solid key reason r) = op_attempt_count r"
  "op_state (reconciled now Record_Solid solid key reason r) = Op_Completed"
  "op_state (reconciled now Release_Retry solid key reason r) = Op_Retryable"
  "op_sol_id (reconciled now Record_Solid solid key reason r) = solid"
  by (cases action; simp add: reconciled_def release_claim_def)+

lemma recover_stale_simps [simp]:
  "op_id (recover_stale now r) = op_id r"
  "op_source_cycle_id (recover_stale now r) = op_source_cycle_id r"
  "op_post_started_at (recover_stale now r) = op_post_started_at r"
  "op_attempt_count (recover_stale now r) = op_attempt_count r"
  "op_state (recover_stale now r) =
    (if op_post_started_at r = None then Op_Retryable else Reconciliation_Required)"
  by (simp_all add: recover_stale_def release_claim_def)

lemma claimed_operation_simps [simp]:
  "op_id (claimed_operation now owner lease r) = op_id r"
  "op_source_cycle_id (claimed_operation now owner lease r) = op_source_cycle_id r"
  "op_post_started_at (claimed_operation now owner lease r) = op_post_started_at r"
  "op_attempt_count (claimed_operation now owner lease r) = op_attempt_count r"
  "op_state (claimed_operation now owner lease r) = Attempting"
  "op_claim_owner (claimed_operation now owner lease r) = Some owner"
  "op_claim_expires_at (claimed_operation now owner lease r) = Some (now + seconds lease)"
  "op_source_classification_id (claimed_operation now owner lease r) = op_source_classification_id r"
  by (simp_all add: claimed_operation_def)

lemma confidence_blocked_simps [simp]:
  "op_id (confidence_blocked now d r) = op_id r"
  "op_source_cycle_id (confidence_blocked now d r) = op_source_cycle_id r"
  "op_post_started_at (confidence_blocked now d r) = op_post_started_at r"
  "op_attempt_count (confidence_blocked now d r) = op_attempt_count r"
  "op_state (confidence_blocked now d r) = Definitive_Failure"
  by (simp_all add: confidence_blocked_def release_claim_def)

lemma post_started_simps [simp]:
  "op_id (post_started now r) = op_id r"
  "op_source_cycle_id (post_started now r) = op_source_cycle_id r"
  "op_post_started_at (post_started now r) = Some now"
  "op_attempt_count (post_started now r) = op_attempt_count r + 1"
  "op_state (post_started now r) = op_state r"
  "op_claim_owner (post_started now r) = op_claim_owner r"
  "op_claim_expires_at (post_started now r) = op_claim_expires_at r"
  by (simp_all add: post_started_def)

lemma finished_operation_simps [simp]:
  "op_id (finished_operation now outcome r) = op_id r"
  "op_source_cycle_id (finished_operation now outcome r) = op_source_cycle_id r"
  "op_post_started_at (finished_operation now outcome r) = op_post_started_at r"
  "op_attempt_count (finished_operation now outcome r) = op_attempt_count r"
  "op_state (finished_operation now outcome r) = ro_state outcome"
  "op_sol_id (finished_operation now outcome r) = ro_solid_id outcome"
  by (simp_all add: finished_operation_def Let_def)

lemma row_move_ids: "row_move auth r r' \<Longrightarrow> op_id r' = op_id r \<and> op_source_cycle_id r' = op_source_cycle_id r"
  by (induction rule: row_move.induct) simp_all

lemma row_move_completed:
  "row_move auth r r' \<Longrightarrow> op_state r = Op_Completed \<Longrightarrow>
    op_state r' = Op_Completed \<and> op_sol_id r' = op_sol_id r"
  by (induction rule: row_move.induct) (simp_all add: unattempted_mapping_failure_def)

lemma row_move_attempts:
  "row_move auth r r' \<Longrightarrow> op_attempt_count r \<le> op_attempt_count r' \<and>
    (op_attempt_count r < op_attempt_count r' \<longrightarrow> op_state r = Attempting \<and> op_state r' = Attempting)"
  by (induction rule: row_move.induct) simp_all

lemma row_move_reconciliation:
  "row_move auth r r' \<Longrightarrow> op_state r = Reconciliation_Required \<Longrightarrow>
    op_state r' = Op_Completed \<or> auth \<and> op_state r' = Op_Retryable"
  by (induction rule: row_move.induct) (simp_all add: unattempted_mapping_failure_def)

text \<open>Facts that hold of every row: a claimed attempt has an owner and a deadline, the attempts are
  counted from the first POST, and an operation that has not started has no POST behind it.\<close>

definition row_ok :: "request_operation \<Rightarrow> bool" where
  "row_ok r \<longleftrightarrow>
    (op_state r = Attempting \<longrightarrow> op_claim_owner r \<noteq> None \<and> op_claim_expires_at r \<noteq> None) \<and>
    0 \<le> op_attempt_count r \<and> (op_attempt_count r = 0 \<longleftrightarrow> op_post_started_at r = None) \<and>
    (op_state r = Not_Started \<longrightarrow> op_post_started_at r = None)"

lemma row_move_ok: "row_move auth r r' \<Longrightarrow> row_ok r \<Longrightarrow> row_ok r'"
proof (induction rule: row_move.induct)
  case (move_finish r outcome auth now)
  then show ?case by (auto simp: row_ok_def)
qed (auto simp: row_ok_def unattempted_mapping_failure_def)

section \<open>Transactions as steps\<close>

text \<open>\<open>World w\<close> is whatever the other components write: it replaces the tables this component reads.\<close>

datatype request_event =
    Ensure string
  | Claim int string int
  | Block_Confidence int string confidence_decision
  | Refresh int string request_payload confidence_decision
  | Mark_Post int string
  | Finish int string request_outcome
  | Claim_Recovery string string int
  | Recovery_Blocked int string string string
  | Reopen int string string
  | Reconcile string reconciliation_action "string option" string string "string option" bool
  | World request_db

fun request_step :: "(request_payload \<Rightarrow> string) \<Rightarrow> time \<Rightarrow> request_event \<Rightarrow> request_db \<Rightarrow> request_db" where
  "request_step digest now (Ensure pid) db = snd (ensure_operation digest now pid db)"
| "request_step digest now (Claim i owner lease) db = snd (claim_operation now i owner lease db)"
| "request_step digest now (Block_Confidence i owner d) db =
     snd (finish_confidence_blocked now i owner d db)"
| "request_step digest now (Refresh i owner payload d) db =
     snd (refresh_payload_metadata digest now i owner payload d db)"
| "request_step digest now (Mark_Post i owner) db = snd (mark_post_started now i owner db)"
| "request_step digest now (Finish i owner outcome) db = snd (finish_operation now i owner outcome db)"
| "request_step digest now (Claim_Recovery pid owner lease) db =
     snd (claim_mapping_missing_recovery now pid owner lease db)"
| "request_step digest now (Recovery_Blocked i owner stage reason) db =
     snd (record_preparation_recovery_blocked now i owner stage reason db)"
| "request_step digest now (Reopen i owner pid) db =
     snd (reopen_prepared_operation digest now i owner pid db)"
| "request_step digest now (Reconcile pid action solid reason key actor absent) db =
     snd (record_reconciliation now pid action solid reason key actor absent db)"
| "request_step digest now (World w) db =
     db\<lparr>rd_cycles := rd_cycles w, rd_classifications := rd_classifications w,
        rd_mappings := rd_mappings w, rd_companies := rd_companies w,
        rd_departments := rd_departments w, rd_company_departments := rd_company_departments w\<rparr>"

definition empty_request_db :: request_db where
  "empty_request_db =
    \<lparr>rd_cycles = [], rd_classifications = [], rd_mappings = [], rd_companies = [],
     rd_departments = [], rd_company_departments = [], rd_operations = [], rd_audits = [],
     rd_next_operation_id = 1\<rparr>"

inductive request_reachable :: "(request_payload \<Rightarrow> string) \<Rightarrow> request_db \<Rightarrow> bool" for digest where
  request_empty: "request_reachable digest empty_request_db"
| request_next: "request_reachable digest db \<Longrightarrow> request_reachable digest (request_step digest now ev db)"

fun request_run ::
  "(request_payload \<Rightarrow> string) \<Rightarrow> (time \<times> request_event) list \<Rightarrow> request_db \<Rightarrow> request_db" where
  "request_run digest [] db = db"
| "request_run digest ((now, ev) # evs) db = request_run digest evs (request_step digest now ev db)"

text \<open>The one event that may send an operation back from reconciliation.\<close>

fun proves_absence :: "request_event \<Rightarrow> bool" where
  "proves_absence (Reconcile pid Release_Retry solid reason key actor absent) = absent"
| "proves_absence _ = False"

abbreviation moves :: "bool \<Rightarrow> request_operation list \<Rightarrow> request_operation list \<Rightarrow> bool" where
  "moves auth \<equiv> list_all2 ((row_move auth)\<^sup>*\<^sup>*)"

lemma moves_refl: "moves auth rows rows"
  by (simp add: list_all2_refl)

lemma moves_trans: "moves auth a b \<Longrightarrow> moves auth b c \<Longrightarrow> moves auth a c"
  by (rule list_all2_trans) (auto intro: rtranclp_trans)

lemma moves_update:
  "(\<And>r. r \<in> set rows \<Longrightarrow> P r \<Longrightarrow> row_move auth r (f r)) \<Longrightarrow> moves auth rows (update_where P f rows)"
  by (induction rows) auto

lemma update_returning_result:
  assumes "update_returning P f db = (res, db')"
  shows "(\<exists>e. res = Inl e) \<and> db' = db \<or>
    res = Inr (map_option f (find P (rd_operations db))) \<and>
    db' = db\<lparr>rd_operations := update_where P f (rd_operations db)\<rparr> \<and>
    list_all op_check (rd_operations db')"
  using assms by (auto simp: update_returning_def write_operations_def split: if_splits)

lemma update_returning_rows:
  assumes "update_returning P f db = (res, db')"
    and "\<And>r. r \<in> set (rd_operations db) \<Longrightarrow> P r \<Longrightarrow> row_move auth r (f r)"
  shows "moves auth (rd_operations db) (rd_operations db')"
  using update_returning_result[OF assms(1)] moves_refl moves_update[of "rd_operations db" P auth f, OF assms(2)]
  by auto

definition request_inv :: "request_db \<Rightarrow> bool" where
  "request_inv db \<longleftrightarrow>
    distinct (map op_id (rd_operations db)) \<and> distinct (map op_source_cycle_id (rd_operations db)) \<and>
    (\<forall>r \<in> set (rd_operations db). op_id r < rd_next_operation_id db) \<and>
    list_all row_ok (rd_operations db) \<and> list_all op_check (rd_operations db)"

text \<open>What a transaction does to the table of operations: it moves rows, or appends a new one.\<close>

definition rows_step :: "bool \<Rightarrow> request_db \<Rightarrow> request_db \<Rightarrow> bool" where
  "rows_step auth db db' \<longleftrightarrow>
    moves auth (rd_operations db) (rd_operations db') \<and>
      rd_next_operation_id db' = rd_next_operation_id db \<and>
      (list_all op_check (rd_operations db) \<longrightarrow> list_all op_check (rd_operations db')) \<or>
    (\<exists>new. rd_operations db' = rd_operations db @ [new] \<and> op_id new = rd_next_operation_id db \<and>
      rd_next_operation_id db' = rd_next_operation_id db + 1 \<and>
      op_source_cycle_id new \<notin> op_source_cycle_id ` set (rd_operations db) \<and>
      row_ok new \<and> op_check new \<and> op_state new \<in> {Not_Started, Definitive_Failure})"

lemma rows_step_same:
  "rd_operations db' = rd_operations db \<Longrightarrow> rd_next_operation_id db' = rd_next_operation_id db \<Longrightarrow>
    rows_step auth db db'"
  by (simp add: rows_step_def moves_refl)

lemma rows_step_refl [simp]: "rows_step auth db db"
  by (simp add: rows_step_same)

lemma rows_step_update:
  assumes "update_returning P f db = (res, db')"
    and "\<And>r. r \<in> set (rd_operations db) \<Longrightarrow> P r \<Longrightarrow> row_move auth r (f r)"
  shows "rows_step auth db db'"
  using update_returning_rows[OF assms] update_returning_result[OF assms(1)]
  by (auto simp: rows_step_def)

lemma operation_state_verdict: "fst (operation_state c m db) \<in> {Not_Started, Definitive_Failure}"
  by (auto simp: operation_state_def refused_def Let_def
      split: option.splits prod.splits sum.splits py_error.splits if_splits)

lemma new_operation_simps [simp]:
  "op_id (new_operation digest now c db) = rd_next_operation_id db"
  "op_source_cycle_id (new_operation digest now c db) = cy_id c"
  "op_attempt_count (new_operation digest now c db) = 0"
  "op_post_started_at (new_operation digest now c db) = None"
  "op_claim_owner (new_operation digest now c db) = None"
  "op_state (new_operation digest now c db) =
    fst (operation_state c (mapping_snapshot (cy_id c) db) db)"
  by (simp_all add: new_operation_def Let_def split: prod.split)

lemma ensure_rows: "rows_step auth db (snd (ensure_operation digest now pid db))"
proof (cases "cycle_snapshot pid db")
  case None
  then show ?thesis by (simp add: ensure_operation_def)
next
  case (Some c)
  let ?new = "new_operation digest now c db"
  have "row_ok ?new"
    using operation_state_verdict[of c "mapping_snapshot (cy_id c) db" db]
    by (auto simp: row_ok_def)
  then show ?thesis
    using Some operation_state_verdict[of c "mapping_snapshot (cy_id c) db" db]
    by (auto simp: ensure_operation_def Let_def rows_step_def lookup_by_None moves_refl split: option.split)
qed

lemma claim_rows: "rows_step auth db (snd (claim_operation now i owner lease db))"
proof -
  let ?rec = "update_where (expired_attempt now i) (recover_stale now) (rd_operations db)"
  obtain res db' where u: "update_returning (operation_claimable i) (claimed_operation now owner lease)
      (db\<lparr>rd_operations := ?rec\<rparr>) = (res, db')" by fastforce
  have "moves auth (rd_operations db) ?rec"
    by (rule moves_update) (simp add: expired_attempt_def move_recover)
  moreover have "moves auth ?rec (rd_operations db')"
    using update_returning_rows[OF u, of auth] by (auto simp: operation_claimable_def move_claim)
  ultimately have "moves auth (rd_operations db) (rd_operations db')" by (rule moves_trans)
  then show ?thesis
    using u update_returning_result[OF u]
    by (auto simp: claim_operation_def Let_def rows_step_def moves_refl)
qed

lemma mark_post_rows: "rows_step auth db (snd (mark_post_started now i owner db))"
proof (cases "find (held_by i owner) (rd_operations db)")
  case None
  then show ?thesis by (simp add: mark_post_started_def)
next
  case (Some r)
  let ?d = "operation_confidence r db"
  obtain res1 db1 where u1: "update_returning (\<lambda>r. held_by i owner r \<and> op_post_started_at r = None)
      (confidence_blocked now ?d) db = (res1, db1)" by fastforce
  obtain res2 db2 where u2: "update_returning (held_by i owner) (post_started now) db = (res2, db2)"
    by fastforce
  have "rows_step auth db db1"
    by (rule rows_step_update[OF u1]) (simp add: held_by_def move_gate)
  moreover have "rows_step auth db db2"
    by (rule rows_step_update[OF u2]) (simp add: held_by_def move_post)
  ultimately show ?thesis
    using Some u1 u2 by (cases res1; cases res2) (auto simp: mark_post_started_def Let_def)
qed

lemma finish_rows: "rows_step auth db (snd (finish_operation now i owner outcome db))"
proof (cases "ro_state outcome \<in> {Op_Completed, Definitive_Failure, Op_Retryable, Reconciliation_Required}")
  case True
  obtain res db' where u: "update_returning (held_by i owner) (finished_operation now outcome) db = (res, db')"
    by fastforce
  have "rows_step auth db db'"
    by (rule rows_step_update[OF u]) (use True in \<open>simp add: held_by_def move_finish\<close>)
  then show ?thesis
    using u by (auto simp: finish_operation_def split: sum.split option.split)
next
  case False
  then show ?thesis by (auto simp: finish_operation_def)
qed

lemma block_rows: "rows_step auth db (snd (finish_confidence_blocked now i owner d db))"
proof -
  obtain res db' where u: "update_returning (\<lambda>r. held_by i owner r \<and> op_post_started_at r = None)
      (confidence_blocked now d) db = (res, db')" by fastforce
  have "rows_step auth db db'"
    by (rule rows_step_update[OF u]) (simp add: held_by_def move_gate)
  then show ?thesis using u by (auto simp: finish_confidence_blocked_def split: sum.split option.split)
qed

lemma refresh_rows: "rows_step auth db (snd (refresh_payload_metadata digest now i owner payload d db))"
proof -
  let ?f = "\<lambda>r. r\<lparr>op_payload_fingerprint := Some (digest payload),
      op_payload_metadata := payload_metadata payload @
        [(''confidence_gate'', JObj (confidence_gate_metadata d))], op_updated_at := now\<rparr>"
  obtain res db' where u: "update_returning (\<lambda>r. held_by i owner r \<and> op_post_started_at r = None) ?f db = (res, db')"
    by fastforce
  have "rows_step auth db db'"
    by (rule rows_step_update[OF u]) (simp add: held_by_def move_refresh)
  then show ?thesis using u by (auto simp: refresh_payload_metadata_def split: sum.split)
qed

lemma claim_recovery_rows: "rows_step auth db (snd (claim_mapping_missing_recovery now pid owner lease db))"
proof (cases "get_operation_for_cycle pid db")
  case None
  then show ?thesis by (simp add: claim_mapping_missing_recovery_def)
next
  case (Some r0)
  let ?P = "\<lambda>r. op_id r = op_id r0 \<and> unattempted_mapping_failure r"
  let ?f = "\<lambda>r. r\<lparr>op_claim_owner := Some owner, op_claim_expires_at := Some (now + seconds lease),
      op_updated_at := now\<rparr>"
  obtain res db' where u: "update_returning ?P ?f db = (res, db')" by fastforce
  have "rows_step auth db db'"
    by (rule rows_step_update[OF u]) (simp add: move_recovery_claim)
  then show ?thesis using Some u by (auto simp: claim_mapping_missing_recovery_def)
qed

lemma recovery_blocked_rows:
  "rows_step auth db (snd (record_preparation_recovery_blocked now i owner stage reason db))"
proof -
  let ?P = "\<lambda>r. op_id r = i \<and> op_state r = Definitive_Failure \<and>
      op_failure_category r = Some ''mapping_missing'' \<and> op_claim_owner r = Some owner \<and>
      op_post_started_at r = None \<and> op_sol_id r = None"
  let ?f = "\<lambda>r. r\<lparr>op_claim_owner := None, op_claim_expires_at := None,
      op_preparation_recovery := recovery_json ''blocked'' (safe_category stage) (safe_category reason),
      op_updated_at := now\<rparr>"
  obtain res db' where u: "update_returning ?P ?f db = (res, db')" by fastforce
  have "rows_step auth db db'"
    by (rule rows_step_update[OF u]) (simp add: move_recovery_blocked)
  then show ?thesis
    using u by (auto simp: record_preparation_recovery_blocked_def split: sum.split option.split)
qed

lemma reopen_rows: "rows_step auth db (snd (reopen_prepared_operation digest now i owner pid db))"
proof (cases "cycle_snapshot pid db")
  case None
  then show ?thesis by (simp add: reopen_prepared_operation_def)
next
  case (Some c)
  obtain state reason facts payload where v: "operation_state c (mapping_snapshot (cy_id c) db) db =
      (state, reason, facts, payload)" by (metis prod_cases4)
  show ?thesis
  proof (cases "state = Not_Started \<and> facts \<noteq> None \<and> payload \<noteq> None")
    case False
    then have "snd (reopen_prepared_operation digest now i owner pid db) = db"
      using Some v by (auto simp: reopen_prepared_operation_def split: op_state.split option.split)
    then show ?thesis by simp
  next
    case True
    then obtain fa p where fp: "state = Not_Started" "facts = Some fa" "payload = Some p" by blast
    let ?P = "\<lambda>r. op_id r = i \<and> unattempted_mapping_failure r \<and> op_claim_owner r = Some owner"
    let ?f = "\<lambda>r. r\<lparr>op_company_id := Some (fa_company_id fa),
        op_company_external_id := Some (fa_company_external_id fa),
        op_department_mapping_id := Some (fa_department_mapping_id fa),
        op_department_external_id := Some (fa_department_external_id fa),
        op_payload_fingerprint := Some (digest p), op_payload_metadata := payload_metadata p,
        op_state := Not_Started, op_failure_category := None, op_failure_message := None,
        op_preparation_recovery := recovery_json ''prepared'' ''ready'' ''mapping_missing_recovered'',
        op_updated_at := now\<rparr>"
    obtain res db' where u: "update_returning ?P ?f db = (res, db')" by fastforce
    have "rows_step auth db db'"
      by (rule rows_step_update[OF u]) (simp add: move_reopen)
    then show ?thesis
      using Some v fp u by (auto simp: reopen_prepared_operation_def split: sum.split option.split)
  qed
qed

lemma get_operation_member:
  "get_operation_for_cycle pid db = Some r \<Longrightarrow> r \<in> set (rd_operations db)"
  using lookup_by_Some by (fastforce simp: get_operation_for_cycle_def split: option.splits)

lemma reconcile_tx_rows:
  assumes "distinct (map op_id (rd_operations db))"
    and "auth \<or> action = Record_Solid" and "action = Release_Retry \<longrightarrow> solid = None"
  shows "rows_step auth db (snd (reconcile_tx now pid action solid reason key actor db))"
proof (cases "get_operation_for_cycle pid db")
  case None
  then show ?thesis by (simp add: reconcile_tx_def)
next
  case (Some r)
  have r: "r \<in> set (rd_operations db)" using Some by (rule get_operation_member)
  show ?thesis
  proof (cases "find (\<lambda>a. ra_operation_key a = key) (rd_audits db) = None \<and>
      reconciliation_allowed action solid r = Inr ()")
    case False
    then have "snd (reconcile_tx now pid action solid reason key actor db) = db"
      using Some by (auto simp: reconcile_tx_def split: option.split sum.split)
    then show ?thesis by simp
  next
    case ok: True
    let ?rows = "update_where (\<lambda>x. op_id x = op_id r) (reconciled now action solid key reason) (rd_operations db)"
    have "row_move auth x (reconciled now action solid key reason x)"
      if x: "x \<in> set (rd_operations db)" "op_id x = op_id r" for x
    proof -
      have "x = r" using distinct_key_eq[OF assms(1) x(1) r] x(2) by simp
      then show ?thesis
        using ok assms(2,3)
        by (cases action) (auto simp: reconciliation_allowed_def intro: move_record move_release split: if_splits)
    qed
    then have mv: "moves auth (rd_operations db) ?rows" by (rule moves_update)
    have "snd (reconcile_tx now pid action solid reason key actor db) = db \<or>
      (rd_operations (snd (reconcile_tx now pid action solid reason key actor db)) = ?rows \<and>
       rd_next_operation_id (snd (reconcile_tx now pid action solid reason key actor db)) = rd_next_operation_id db \<and>
       list_all op_check ?rows)"
      using Some ok by (auto simp: reconcile_tx_def Let_def write_operations_def split: sum.split)
    then show ?thesis using mv by (auto simp: rows_step_def moves_refl)
  qed
qed

lemma record_reconciliation_rows:
  assumes "distinct (map op_id (rd_operations db))"
    and "proves_absence (Reconcile pid action solid reason key actor absent) = auth"
  shows "rows_step auth db (snd (record_reconciliation now pid action solid reason key actor absent db))"
proof (cases action)
  case Record_Solid
  then show ?thesis
    using reconcile_tx_rows[OF assms(1), of auth Record_Solid]
    by (auto simp: record_reconciliation_def split: sum.split option.split)
next
  case Release_Retry
  then show ?thesis
    using reconcile_tx_rows[OF assms(1), of auth Release_Retry None] assms(2)
    by (cases absent) (auto simp: record_reconciliation_def split: sum.split option.split)
qed

lemma step_rows:
  assumes "request_inv db"
  shows "rows_step (proves_absence ev) db (request_step digest now ev db)"
proof (cases ev)
  case (Reconcile pid action solid reason key actor absent)
  have "distinct (map op_id (rd_operations db))" using assms by (simp add: request_inv_def)
  from record_reconciliation_rows[OF this refl] show ?thesis using Reconcile by simp
next
  case (World w)
  then show ?thesis by (simp add: rows_step_same)
qed (simp_all add: ensure_rows claim_rows block_rows refresh_rows mark_post_rows finish_rows
    claim_recovery_rows recovery_blocked_rows reopen_rows)

section \<open>What the moves keep\<close>

lemma moves_map:
  assumes "moves auth rows rows'" and "\<And>r r'. row_move auth r r' \<Longrightarrow> f r' = f r"
  shows "map f rows' = map f rows"
  using assms(1)
proof (induction rule: list_all2_induct)
  case (Cons x xs y ys)
  have "f y = f x" using Cons(1) by (induction rule: rtranclp_induct) (simp_all add: assms(2))
  then show ?case using Cons by simp
qed simp

lemma moves_all:
  assumes "moves auth rows rows'" and "list_all Q rows" and "\<And>r r'. row_move auth r r' \<Longrightarrow> Q r \<Longrightarrow> Q r'"
  shows "list_all Q rows'"
  using assms(1,2)
proof (induction rule: list_all2_induct)
  case (Cons x xs y ys)
  have "Q y" using Cons(1) Cons.prems
    by (induction rule: rtranclp_induct) (auto intro: assms(3))
  then show ?case using Cons by simp
qed simp

lemma moves_row:
  assumes "moves auth rows rows'" and "distinct (map op_id rows)" and "r \<in> set rows"
    and "r' \<in> set rows'" and "op_id r' = op_id r"
  shows "(row_move auth)\<^sup>*\<^sup>* r r'"
proof -
  obtain i where i: "i < length rows" "rows ! i = r" using assms(3) by (auto simp: in_set_conv_nth)
  obtain j where j: "j < length rows'" "rows' ! j = r'" using assms(4) by (auto simp: in_set_conv_nth)
  have len: "length rows' = length rows" using assms(1) by (simp add: list_all2_lengthD)
  have m: "map op_id rows' = map op_id rows" using moves_map[OF assms(1)] row_move_ids by blast
  have "op_id (rows ! j) = op_id (rows' ! j)" using m j len by (metis nth_map)
  then have "i = j" using nth_eq_iff_index_eq[OF assms(2), of i j] i j len assms(5) by simp
  then show ?thesis using list_all2_nthD[OF assms(1) i(1)] i j by simp
qed

lemma request_step_inv:
  assumes inv: "request_inv db"
  shows "request_inv (request_step digest now ev db)"
proof -
  let ?db' = "request_step digest now ev db"
  from step_rows[OF inv, of ev digest now] consider
    (moved) "moves (proves_absence ev) (rd_operations db) (rd_operations ?db')"
      "rd_next_operation_id ?db' = rd_next_operation_id db"
      "list_all op_check (rd_operations db) \<longrightarrow> list_all op_check (rd_operations ?db')"
  | (new) new where "rd_operations ?db' = rd_operations db @ [new]" "op_id new = rd_next_operation_id db"
      "rd_next_operation_id ?db' = rd_next_operation_id db + 1"
      "op_source_cycle_id new \<notin> op_source_cycle_id ` set (rd_operations db)" "row_ok new" "op_check new"
    unfolding rows_step_def by blast
  then show ?thesis
  proof cases
    case moved
    have ids: "map op_id (rd_operations ?db') = map op_id (rd_operations db)"
      "map op_source_cycle_id (rd_operations ?db') = map op_source_cycle_id (rd_operations db)"
      using moves_map[OF moved(1)] row_move_ids by blast+
    have "op_id ` set (rd_operations ?db') = op_id ` set (rd_operations db)"
      using ids(1) by (metis set_map)
    then have "\<forall>i \<in> op_id ` set (rd_operations ?db'). i < rd_next_operation_id ?db'"
      using inv moved(2) by (simp add: request_inv_def)
    then have "\<forall>r \<in> set (rd_operations ?db'). op_id r < rd_next_operation_id ?db'" by simp
    moreover have "list_all row_ok (rd_operations ?db')"
      using moves_all[OF moved(1)] inv row_move_ok by (auto simp: request_inv_def)
    ultimately show ?thesis using inv ids moved(3) by (simp add: request_inv_def)
  next
    case new
    then show ?thesis using inv by (fastforce simp: request_inv_def)
  qed
qed

lemma request_inv_empty: "request_inv empty_request_db"
  by (simp add: request_inv_def empty_request_db_def)

lemma request_inv_reachable: "request_reachable digest db \<Longrightarrow> request_inv db"
  by (induction rule: request_reachable.induct) (simp_all add: request_inv_empty request_step_inv)

lemma request_run_inv: "request_inv db \<Longrightarrow> request_inv (request_run digest evs db)"
  by (induction digest evs db rule: request_run.induct) (simp_all add: request_step_inv)

lemma step_keeps_row:
  assumes inv: "request_inv db" and r: "r \<in> set (rd_operations db)"
  shows "\<exists>r' \<in> set (rd_operations (request_step digest now ev db)).
    op_id r' = op_id r \<and> (row_move (proves_absence ev))\<^sup>*\<^sup>* r r'"
proof -
  let ?db' = "request_step digest now ev db"
  from step_rows[OF inv, of ev digest now] consider
    (moved) "moves (proves_absence ev) (rd_operations db) (rd_operations ?db')"
  | (new) new where "rd_operations ?db' = rd_operations db @ [new]"
    unfolding rows_step_def by blast
  then show ?thesis
  proof cases
    case moved
    obtain i where i: "i < length (rd_operations db)" "rd_operations db ! i = r"
      using r by (auto simp: in_set_conv_nth)
    have "rd_operations ?db' ! i \<in> set (rd_operations ?db')"
      using i(1) list_all2_lengthD[OF moved] by simp
    moreover have mv: "(row_move (proves_absence ev))\<^sup>*\<^sup>* r (rd_operations ?db' ! i)"
      using list_all2_nthD[OF moved i(1)] i(2) by simp
    moreover have "op_id (rd_operations ?db' ! i) = op_id r"
      using mv by (induction rule: rtranclp_induct) (simp_all add: row_move_ids)
    ultimately show ?thesis by blast
  next
    case new
    then show ?thesis using r by auto
  qed
qed

lemma completed_moves:
  "(row_move auth)\<^sup>*\<^sup>* r r' \<Longrightarrow> op_state r = Op_Completed \<Longrightarrow>
    op_state r' = Op_Completed \<and> op_sol_id r' = op_sol_id r \<and> op_attempt_count r' = op_attempt_count r"
proof (induction rule: rtranclp_induct)
  case (step y z)
  then have y: "op_state y = Op_Completed" by simp
  then have "op_attempt_count z = op_attempt_count y"
    using row_move_attempts[OF step.hyps(2)] by auto
  then show ?case using row_move_completed[OF step.hyps(2) y] step by simp
qed simp

lemma uncertain_moves:
  "(row_move False)\<^sup>*\<^sup>* r r' \<Longrightarrow> op_state r \<in> {Reconciliation_Required, Op_Completed} \<Longrightarrow>
    op_state r' \<in> {Reconciliation_Required, Op_Completed} \<and> op_attempt_count r' = op_attempt_count r"
proof (induction rule: rtranclp_induct)
  case (step y z)
  then have y: "op_state y \<in> {Reconciliation_Required, Op_Completed}" by simp
  then have "op_state z \<in> {Reconciliation_Required, Op_Completed}"
    using row_move_reconciliation[OF step.hyps(2)] row_move_completed[OF step.hyps(2)] by auto
  moreover have "op_attempt_count z = op_attempt_count y"
    using row_move_attempts[OF step.hyps(2)] y by auto
  ultimately show ?case using step by simp
qed simp

section \<open>Properties of the state machine\<close>

text \<open>Whatever transactions run, in whatever order and whatever the rest of the system writes in
  between, a cycle has at most one request operation, a completed operation carries the provider's
  id and a completion time, an attempt in progress has an owner and a deadline, and an operation
  counts attempts exactly when a POST was started.\<close>

theorem request_reachable_inv:
  assumes "request_reachable digest db"
  shows "distinct (map op_source_cycle_id (rd_operations db)) \<and>
    (\<forall>r \<in> set (rd_operations db).
      (op_state r = Op_Completed \<longrightarrow> op_sol_id r \<noteq> None \<and> op_completed_at r \<noteq> None) \<and>
      (op_state r = Attempting \<longrightarrow> op_claim_owner r \<noteq> None \<and> op_claim_expires_at r \<noteq> None) \<and>
      (op_attempt_count r = 0 \<longleftrightarrow> op_post_started_at r = None) \<and>
      (op_state r = Not_Started \<longrightarrow> op_attempt_count r = 0))"
  using request_inv_reachable[OF assms]
  by (auto simp: request_inv_def list_all_iff row_ok_def op_check_def)

definition demo_cycle :: cycle where
  "demo_cycle = (new_cycle 1 ''u1'' ''conv'' 1 ''webhook'' 5)
     \<lparr>cy_status := Cycle_Completed, cy_classification_id := Some 7, cy_protocol := Some ''99''\<rparr>"

definition demo_world :: request_db where
  "demo_world = empty_request_db
     \<lparr>rd_cycles := [demo_cycle],
      rd_classifications := [\<lparr>cl_id = 7, cl_confidence = JFloat (9/10), cl_title = Some ''Guia'',
        cl_description = Some ''Cliente pediu guia.''\<rparr>],
      rd_mappings := [\<lparr>dm_id = 3, dm_cycle_id = 1, dm_evaluation_key = ''default'',
        dm_rule_id = Some 1, dm_rule_version = Some 1, dm_digisac_department_external_id = Some ''d1'',
        dm_department_external_id = Some ''12'', dm_company_id = Some 4, dm_state = ''resolved'',
        dm_reason = ''mapping_validated'',
        dm_validation = \<lparr>va_assignment_history_id = Some 1, va_cycle_started_at = Some 1,
          va_ticket_closed_at = Some 2, va_identity_resolution_id = Some 1, va_identity_link_id = Some 1,
          va_company_id = Some 4, va_rule_present = True, va_target_department_available = True,
          va_company_available = True, va_relationship_available = True,
          va_digisac_department_present = Some True\<rparr>,
        dm_evaluated_at = 3\<rparr>],
      rd_companies := [\<lparr>co_id = 4, co_external_id = ''c4'', co_is_present = True, co_is_active = Some True\<rparr>],
      rd_departments := [\<lparr>de_id = 6, de_external_id = ''12'', de_is_present = True, de_is_active = True\<rparr>],
      rd_company_departments := [\<lparr>rel_company_id = 4, rel_department_id = 6, rel_is_present = True,
        rel_is_active = True\<rparr>]\<rparr>"

definition demo_digest :: "request_payload \<Rightarrow> string" where
  "demo_digest p = replicate 64 CHR ''a''"

definition demo_ready :: request_db where
  "demo_ready = request_run demo_digest [(10, World demo_world), (11, Ensure ''u1'')] empty_request_db"

definition demo_posted :: request_db where
  "demo_posted = request_run demo_digest [(12, Claim 1 ''w1'' 60), (13, Mark_Post 1 ''w1'')] demo_ready"

definition demo_uncertain :: request_db where
  "demo_uncertain = request_run demo_digest
     [(14, Finish 1 ''w1'' (reconciliation ''timeout_after_send'' None))] demo_posted"

definition demo_done :: request_db where
  "demo_done = request_run demo_digest
     [(15, Reconcile ''u1'' Record_Solid (Some ''S1'') ''found'' ''k1'' None False)] demo_uncertain"

lemma request_reachable_run: "request_reachable digest db \<Longrightarrow> request_reachable digest (request_run digest evs db)"
  by (induction digest evs db rule: request_run.induct) (simp_all add: request_next)

lemma demo_reachable:
  "request_reachable demo_digest demo_ready" "request_reachable demo_digest demo_posted"
  "request_reachable demo_digest demo_uncertain" "request_reachable demo_digest demo_done"
  unfolding demo_ready_def demo_posted_def demo_uncertain_def demo_done_def
  by (intro request_reachable_run request_empty)+

lemma demo_states:
  "map op_state (rd_operations demo_ready) = [Not_Started]"
  "map (\<lambda>r. (op_state r, op_attempt_count r)) (rd_operations demo_posted) = [(Attempting, 1)]"
  "map (\<lambda>r. (op_state r, op_attempt_count r)) (rd_operations demo_uncertain) = [(Reconciliation_Required, 1)]"
  "map (\<lambda>r. (op_state r, op_sol_id r)) (rd_operations demo_done) = [(Op_Completed, Some ''S1'')]"
  by code_simp+

theorem request_reachable_inv_witness:
  "\<exists>r. rd_operations demo_done = [r] \<and> op_state r = Op_Completed \<and> op_completed_at r \<noteq> None"
proof -
  obtain r where "rd_operations demo_done = [r]" "op_state r = Op_Completed"
    using demo_states(4) by (cases "rd_operations demo_done") auto
  with request_reachable_inv[OF demo_reachable(4)] show ?thesis by auto
qed

text \<open>C2: A completed request is final: no later transaction changes its state, its provider id or its
  number of attempts, so the request is never posted again.\<close>

theorem completed_request_final:
  assumes "request_reachable digest db" and "r \<in> set (rd_operations db)" and "op_state r = Op_Completed"
  shows "\<exists>r' \<in> set (rd_operations (request_run digest evs db)). op_id r' = op_id r \<and>
    op_state r' = Op_Completed \<and> op_sol_id r' = op_sol_id r \<and> op_attempt_count r' = op_attempt_count r"
  using request_inv_reachable[OF assms(1)] assms(2,3)
proof (induction evs arbitrary: db r)
  case (Cons e evs)
  obtain now ev where e: "e = (now, ev)" by (cases e)
  obtain r1 where r1: "r1 \<in> set (rd_operations (request_step digest now ev db))" "op_id r1 = op_id r"
    "(row_move (proves_absence ev))\<^sup>*\<^sup>* r r1"
    using step_keeps_row[OF Cons.prems(1,2)] by blast
  note fin = completed_moves[OF r1(3) Cons.prems(3)]
  from Cons.IH[OF request_step_inv[OF Cons.prems(1)] r1(1)] fin
  show ?case using e r1(2) by auto
qed auto

theorem completed_request_final_witness:
  "\<exists>r' \<in> set (rd_operations (request_run demo_digest
      [(20, Claim 1 ''w2'' 60), (21, Ensure ''u1''), (22, Mark_Post 1 ''w2'')] demo_done)).
    op_state r' = Op_Completed \<and> op_sol_id r' = Some ''S1''"
proof -
  obtain r where r: "r \<in> set (rd_operations demo_done)" "op_state r = Op_Completed" "op_sol_id r = Some ''S1''"
    using demo_states(4) by auto
  have "\<exists>r' \<in> set (rd_operations (request_run demo_digest
      [(20, Claim 1 ''w2'' 60), (21, Ensure ''u1''), (22, Mark_Post 1 ''w2'')] demo_done)).
    op_id r' = op_id r \<and> op_state r' = Op_Completed \<and> op_sol_id r' = op_sol_id r \<and>
    op_attempt_count r' = op_attempt_count r"
    by (rule completed_request_final[OF demo_reachable(4) r(1,2)])
  then show ?thesis using r(3) by auto
qed

text \<open>C1: A request whose effect is uncertain is never posted again on its own: as long as no operator
  proves its absence at the provider, whatever else runs, it stays in reconciliation or becomes
  completed, and no further attempt is counted.\<close>

theorem uncertain_request_not_reposted:
  assumes "request_reachable digest db" and "r \<in> set (rd_operations db)"
    and "op_state r = Reconciliation_Required" and "\<forall>(now, ev) \<in> set evs. \<not> proves_absence ev"
  shows "\<exists>r' \<in> set (rd_operations (request_run digest evs db)). op_id r' = op_id r \<and>
    op_state r' \<in> {Reconciliation_Required, Op_Completed} \<and> op_attempt_count r' = op_attempt_count r"
proof -
  have "\<exists>r' \<in> set (rd_operations (request_run digest evs db)). op_id r' = op_id r \<and>
    op_state r' \<in> {Reconciliation_Required, Op_Completed} \<and> op_attempt_count r' = op_attempt_count r"
    if "request_inv db" "r \<in> set (rd_operations db)" "op_state r \<in> {Reconciliation_Required, Op_Completed}"
      "\<forall>(now, ev) \<in> set evs. \<not> proves_absence ev" for db r
    using that
  proof (induction evs arbitrary: db r)
    case (Cons e evs)
    obtain now ev where e: "e = (now, ev)" by (cases e)
    have no: "proves_absence ev = False" using Cons.prems(4) e by simp
    obtain r1 where r1: "r1 \<in> set (rd_operations (request_step digest now ev db))" "op_id r1 = op_id r"
      "(row_move False)\<^sup>*\<^sup>* r r1"
      using step_keeps_row[OF Cons.prems(1,2), of digest now ev] no by auto
    note un = uncertain_moves[OF r1(3) Cons.prems(3)]
    from Cons.IH[OF request_step_inv[OF Cons.prems(1)] r1(1)] un Cons.prems(4)
    show ?case using e r1(2) by auto
  qed auto
  then show ?thesis using request_inv_reachable[OF assms(1)] assms(2-4) by simp
qed

theorem uncertain_request_not_reposted_witness:
  "\<exists>r' \<in> set (rd_operations (request_run demo_digest
      [(20, Claim 1 ''w2'' 60), (21, Mark_Post 1 ''w2'')] demo_uncertain)). op_attempt_count r' = 1"
proof -
  obtain r where r: "r \<in> set (rd_operations demo_uncertain)" "op_state r = Reconciliation_Required"
    "op_attempt_count r = 1"
    using demo_states(3) by auto
  have "\<exists>r' \<in> set (rd_operations (request_run demo_digest
      [(20, Claim 1 ''w2'' 60), (21, Mark_Post 1 ''w2'')] demo_uncertain)). op_id r' = op_id r \<and>
    op_state r' \<in> {Reconciliation_Required, Op_Completed} \<and> op_attempt_count r' = op_attempt_count r"
    by (rule uncertain_request_not_reposted[OF demo_reachable(3) r(1,2)]) simp
  then show ?thesis using r(3) by auto
qed

section \<open>Transactions on one row\<close>

definition put_row :: "request_operation \<Rightarrow> request_operation \<Rightarrow> request_db \<Rightarrow> request_db" where
  "put_row r r' db = db\<lparr>rd_operations := map (\<lambda>x. if x = r then r' else x) (rd_operations db)\<rparr>"

definition ops_ok :: "request_db \<Rightarrow> bool" where
  "ops_ok db \<longleftrightarrow> distinct (map op_id (rd_operations db)) \<and> list_all op_check (rd_operations db)"

lemma inv_ops_ok: "request_inv db \<Longrightarrow> ops_ok db"
  by (simp add: request_inv_def ops_ok_def)

lemma update_where_one:
  assumes "distinct (map op_id rows)" and "r \<in> set rows" and "\<And>x. P x \<Longrightarrow> op_id x = op_id r"
  shows "update_where P f rows = (if P r then map (\<lambda>x. if x = r then f r else x) rows else rows)"
    and "find P rows = (if P r then Some r else None)"
proof -
  have one: "P x \<longleftrightarrow> x = r \<and> P r" if "x \<in> set rows" for x
    using distinct_key_eq[OF assms(1) that assms(2)] assms(3)[of x] by auto
  show "update_where P f rows = (if P r then map (\<lambda>x. if x = r then f r else x) rows else rows)"
  proof (cases "P r")
    case True
    then show ?thesis unfolding update_where_def using one by (auto intro!: map_cong)
  next
    case False
    then show ?thesis using one by (auto intro: update_where_none)
  qed
  show "find P rows = (if P r then Some r else None)"
  proof (cases "find P rows")
    case None
    then show ?thesis using assms(2) by (auto simp: find_None_iff)
  next
    case (Some x)
    then have "x \<in> set rows" "P x" using find_Some_member[OF Some] by simp_all
    then show ?thesis using Some one by auto
  qed
qed

lemma update_returning_one:
  assumes ok: "ops_ok db" and r: "r \<in> set (rd_operations db)" and P: "\<And>x. P x \<Longrightarrow> op_id x = op_id r"
  shows "update_returning P f db =
    (if P r then if op_check (f r) then (Inr (Some (f r)), put_row r (f r) db)
       else (Inl operation_violation, db)
     else (Inr None, db))"
proof -
  have d: "distinct (map op_id (rd_operations db))" and c: "list_all op_check (rd_operations db)"
    using ok by (simp_all add: ops_ok_def)
  note one = update_where_one[OF d r P]
  have "list_all op_check (map (\<lambda>x. if x = r then f r else x) (rd_operations db)) \<longleftrightarrow> op_check (f r)"
    using c r by (auto simp: list_all_iff)
  then show ?thesis using one c
    by (simp add: update_returning_def write_operations_def put_row_def)
qed

lemma put_row_ok:
  assumes "ops_ok db" and "r \<in> set (rd_operations db)" and "op_id r' = op_id r" and "op_check r'"
  shows "ops_ok (put_row r r' db) \<and> r' \<in> set (rd_operations (put_row r r' db))"
proof -
  have "map op_id (map (\<lambda>x. if x = r then r' else x) (rd_operations db)) = map op_id (rd_operations db)"
    using assms(3) by simp
  moreover have "r' \<in> set (map (\<lambda>x. if x = r then r' else x) (rd_operations db))"
    using assms(2) by (force simp: image_iff)
  ultimately show ?thesis
    using assms by (auto simp: put_row_def ops_ok_def list_all_iff simp del: map_map)
qed

lemma put_row_put:
  assumes "ops_ok db" and "r \<in> set (rd_operations db)" and "op_id r' = op_id r"
  shows "put_row r' r'' (put_row r r' db) = put_row r r'' db"
proof -
  have "x = r" if "x \<in> set (rd_operations db)" "x = r'" for x
    using that distinct_key_eq[of op_id "rd_operations db" x r] assms by (simp add: ops_ok_def)
  then show ?thesis by (auto simp: put_row_def intro!: map_cong)
qed

lemma lookup_put_row:
  assumes "ops_ok db" and "r \<in> set (rd_operations db)" and "op_id r' = op_id r"
  shows "lookup_by op_id (op_id r) (rd_operations (put_row r r' db)) = Some r'"
proof -
  have "map op_id (rd_operations (put_row r r' db)) = map op_id (rd_operations db)"
    using assms(3) by (simp add: put_row_def)
  then have "distinct (map op_id (rd_operations (put_row r r' db)))"
    using assms(1) by (simp add: ops_ok_def)
  moreover have "r' \<in> set (rd_operations (put_row r r' db))"
    using assms(2) by (force simp: put_row_def image_iff)
  ultimately show ?thesis using assms(3) by (simp add: lookup_by_unique)
qed

lemma lookup_row: "ops_ok db \<Longrightarrow> r \<in> set (rd_operations db) \<Longrightarrow> lookup_by op_id (op_id r) (rd_operations db) = Some r"
  by (simp add: ops_ok_def lookup_by_unique)

definition owner_ok :: "string \<Rightarrow> bool" where
  "owner_ok s \<longleftrightarrow> 1 \<le> length s \<and> length s \<le> 160 \<and> list_all operation_key_char s"

lemma list_all_take: "list_all P xs \<Longrightarrow> list_all P (take n xs)"
  by (metis append_take_drop_id list_all_append)

lemma claim_owner_ok: "claim_owner value fallback = Inr s \<Longrightarrow> owner_ok s"
proof -
  assume "claim_owner value fallback = Inr s"
  then obtain c where s: "s = take 160 (map (\<lambda>c. if operation_key_char c then c else CHR ''-'') c)" "s \<noteq> []"
    by (auto simp: claim_owner_def Let_def split: if_splits)
  have dash: "operation_key_char CHR ''-''" by code_simp
  have "list_all operation_key_char (map (\<lambda>c. if operation_key_char c then c else CHR ''-'') c)"
    using dash by (auto simp: list_all_iff)
  then have "list_all operation_key_char s" unfolding s(1) by (rule list_all_take)
  moreover have "length s \<le> 160" using s(1) by simp
  ultimately show ?thesis using s(2) by (simp add: owner_ok_def Suc_le_eq)
qed

lemma check_claimed: "op_check r \<Longrightarrow> owner_ok owner \<Longrightarrow> op_check (claimed_operation now owner lease r)"
  by (simp add: op_check_def claimed_operation_def owner_ok_def)

lemma check_recover: "op_check r \<Longrightarrow> op_check (recover_stale now r)"
proof -
  assume "op_check r"
  moreover have "list_all category_char ''crash_before_post''"
    "list_all category_char ''claim_expired_after_post_start''" by code_simp+
  ultimately show ?thesis by (simp add: op_check_def recover_stale_def release_claim_def)
qed

lemma recovered_row: "expired_attempt now i r \<Longrightarrow> op_id r = i \<and> op_state r = Attempting"
  by (simp add: expired_attempt_def)

section \<open>Claims\<close>

lemma claim_by_state:
  assumes "request_reachable digest db" and "r \<in> set (rd_operations db)" and "owner_ok owner"
  shows "claim_operation now (op_id r) owner lease db =
    (case op_state r of
       Not_Started \<Rightarrow> (Inr (Some (claimed_operation now owner lease r)),
         put_row r (claimed_operation now owner lease r) db)
     | Op_Retryable \<Rightarrow> (Inr (Some (claimed_operation now owner lease r)),
         put_row r (claimed_operation now owner lease r) db)
     | Attempting \<Rightarrow>
         (if in_future now (op_claim_expires_at r) then (Inr None, db)
          else if op_post_started_at r = None
          then (Inr (Some (claimed_operation now owner lease (recover_stale now r))),
            put_row r (claimed_operation now owner lease (recover_stale now r)) db)
          else (Inr None, put_row r (recover_stale now r) db))
     | _ \<Rightarrow> (Inr None, db))"
proof -
  have inv: "request_inv db" using assms(1) by (rule request_inv_reachable)
  then have ok: "ops_ok db" and d: "distinct (map op_id (rd_operations db))"
    using inv_ops_ok by (simp_all add: request_inv_def)
  have ch: "op_check r" and ro: "row_ok r"
    using inv assms(2) by (simp_all add: request_inv_def list_all_iff)
  have rec: "update_where (expired_attempt now (op_id r)) (recover_stale now) (rd_operations db) =
      (if expired_attempt now (op_id r) r
       then rd_operations (put_row r (recover_stale now r) db) else rd_operations db)"
    using update_where_one(1)[OF d assms(2), of "expired_attempt now (op_id r)"]
    by (simp add: expired_attempt_def put_row_def)
  show ?thesis
  proof (cases "expired_attempt now (op_id r) r")
    case True
    let ?r1 = "recover_stale now r" and ?db1 = "put_row r (recover_stale now r) db"
    have db1: "db\<lparr>rd_operations := rd_operations ?db1\<rparr> = ?db1" by (simp add: put_row_def)
    have ok1: "ops_ok ?db1" "?r1 \<in> set (rd_operations ?db1)"
      using put_row_ok[OF ok assms(2) _ check_recover[OF ch], of now] by simp_all
    have "update_returning (operation_claimable (op_id r)) (claimed_operation now owner lease) ?db1 =
        (if op_post_started_at r = None
         then (Inr (Some (claimed_operation now owner lease ?r1)), put_row ?r1 (claimed_operation now owner lease ?r1) ?db1)
         else (Inr None, ?db1))"
      using update_returning_one[OF ok1, of "operation_claimable (op_id r)" "claimed_operation now owner lease"]
        check_claimed[OF check_recover[OF ch] assms(3)]
      by (simp add: operation_claimable_def)
    moreover have "put_row ?r1 (claimed_operation now owner lease ?r1) ?db1 =
        put_row r (claimed_operation now owner lease ?r1) db"
      by (rule put_row_put[OF ok assms(2)]) simp
    moreover have "op_state r = Attempting" "\<not> in_future now (op_claim_expires_at r)"
      using True by (auto simp: expired_attempt_def in_future_def split: option.splits)
    ultimately show ?thesis
      using True by (simp add: claim_operation_def Let_def rec db1)
  next
    case False
    have live: "in_future now (op_claim_expires_at r)" if "op_state r = Attempting"
      using False ro that by (auto simp: expired_attempt_def row_ok_def in_future_def split: option.splits)
    have "update_returning (operation_claimable (op_id r)) (claimed_operation now owner lease) db =
        (if op_state r = Not_Started \<or> op_state r = Op_Retryable
         then (Inr (Some (claimed_operation now owner lease r)), put_row r (claimed_operation now owner lease r) db)
         else (Inr None, db))"
      using update_returning_one[OF ok assms(2), of "operation_claimable (op_id r)" "claimed_operation now owner lease"]
        check_claimed[OF ch assms(3)]
      by (simp add: operation_claimable_def)
    then show ?thesis
      using False live by (auto simp: claim_operation_def Let_def rec split: op_state.split)
  qed
qed

text \<open>A claim decides by the state of the operation: it takes one that has not started or may be
  retried; an attempt under a live lease is left alone; an expired attempt is taken over when no
  POST was started, and goes to reconciliation, unclaimed, when one was; every other operation is
  left alone.\<close>

theorem claim_operation_decides:
  assumes "request_reachable digest db" and "r \<in> set (rd_operations db)" and "owner_ok owner"
  shows "claim_operation now (op_id r) owner lease db =
    (case op_state r of
       Not_Started \<Rightarrow> (Inr (Some (claimed_operation now owner lease r)),
         put_row r (claimed_operation now owner lease r) db)
     | Op_Retryable \<Rightarrow> (Inr (Some (claimed_operation now owner lease r)),
         put_row r (claimed_operation now owner lease r) db)
     | Attempting \<Rightarrow>
         (if in_future now (op_claim_expires_at r) then (Inr None, db)
          else if op_post_started_at r = None
          then (Inr (Some (claimed_operation now owner lease (recover_stale now r))),
            put_row r (claimed_operation now owner lease (recover_stale now r)) db)
          else (Inr None, put_row r (recover_stale now r) db))
     | _ \<Rightarrow> (Inr None, db))"
  using assms by (rule claim_by_state)

theorem claim_operation_decides_witness:
  "\<exists>r \<in> set (rd_operations demo_posted).
    claim_operation 60000013 (op_id r) ''w2'' 60 demo_posted = (Inr None, put_row r (recover_stale 60000013 r) demo_posted)"
proof -
  have "map (\<lambda>r. (op_state r, op_post_started_at r, op_claim_expires_at r)) (rd_operations demo_posted) =
      [(Attempting, Some 13, Some 60000012)]" by code_simp
  then obtain r where r: "r \<in> set (rd_operations demo_posted)" "op_state r = Attempting"
    "op_post_started_at r = Some 13" "op_claim_expires_at r = Some 60000012" by auto
  have "owner_ok ''w2''" by code_simp
  from claim_operation_decides[OF demo_reachable(2) r(1) this, of 60000013 60] r show ?thesis
    by (intro bexI[OF _ r(1)]) (simp add: in_future_def)
qed

text \<open>A claim is exclusive for its lease: while it runs, no claim by anybody succeeds and none
  changes anything.\<close>

theorem claim_operation_exclusive:
  assumes "request_reachable digest db" and "r \<in> set (rd_operations db)" and "owner_ok owner"
    and "claim_operation t0 (op_id r) owner lease db = (Inr (Some c), db1)"
    and "t < t0 + seconds lease" and "owner_ok owner2"
  shows "claim_operation t (op_id r) owner2 lease2 db1 = (Inr None, db1)"
proof -
  have inv: "request_inv db" using assms(1) by (rule request_inv_reachable)
  have ok: "ops_ok db" using inv by (rule inv_ops_ok)
  have c: "\<exists>r0. c = claimed_operation t0 owner lease r0 \<and> op_id r0 = op_id r \<and> db1 = put_row r c db"
    using assms(4) claim_by_state[OF assms(1-3), of t0 lease]
    by (auto split: op_state.splits if_splits)
  then have ids: "op_id c = op_id r" and db1: "db1 = put_row r c db" and st: "op_state c = Attempting"
    and live: "in_future t (op_claim_expires_at c)"
    using assms(5) by (auto simp: in_future_def)
  have reach: "request_reachable digest db1"
    using request_next[OF assms(1), of t0 "Claim (op_id r) owner lease"] assms(4) by simp
  have "c \<in> set (rd_operations db1)" using assms(2) by (force simp: db1 put_row_def image_iff)
  from claim_by_state[OF reach this assms(6), of t lease2] st live ids
  show ?thesis by simp
qed

theorem claim_operation_exclusive_witness:
  "claim_operation 30000000 1 ''w2'' 60 (snd (claim_operation 12 1 ''w1'' 60 demo_ready)) =
    (Inr None, snd (claim_operation 12 1 ''w1'' 60 demo_ready))"
proof -
  let ?res = "claim_operation 12 1 ''w1'' 60 demo_ready"
  have "map op_id (rd_operations demo_ready) = [1]" by code_simp
  then obtain r where r: "r \<in> set (rd_operations demo_ready)" "op_id r = 1" by auto
  have "(case fst ?res of Inr (Some c) \<Rightarrow> True | _ \<Rightarrow> False)" by code_simp
  then obtain c where c: "claim_operation 12 (op_id r) ''w1'' 60 demo_ready = (Inr (Some c), snd ?res)"
    using r(2) by (cases ?res) (auto split: sum.splits option.splits)
  have w: "owner_ok ''w1''" "owner_ok ''w2''" by code_simp+
  have "(30000000::int) < 12 + seconds 60" by (simp add: seconds_def)
  from claim_operation_exclusive[OF demo_reachable(1) r(1) w(1) c this w(2), of 60] r(2)
  show ?thesis by simp
qed

text \<open>Only the owner of the claim can move an attempt: a worker whose claim was taken over finds
  that it cannot mark a POST as started or record an outcome, and changes nothing.\<close>

theorem stale_owner_cannot_finish:
  assumes "request_reachable digest db" and "r \<in> set (rd_operations db)"
    and "op_claim_owner r \<noteq> Some stale"
    and "ro_state outcome \<in> {Definitive_Failure, Op_Retryable, Reconciliation_Required}"
  shows "finish_operation now (op_id r) stale outcome db = (Inr r, db) \<and>
    mark_post_started now (op_id r) stale db = (Inr False, db)"
proof -
  have inv: "request_inv db" using assms(1) by (rule request_inv_reachable)
  have ok: "ops_ok db" using inv by (rule inv_ops_ok)
  then have d: "distinct (map op_id (rd_operations db))" by (simp add: ops_ok_def)
  have P: "op_id x = op_id r" if "held_by (op_id r) stale x" for x using that by (simp add: held_by_def)
  have no: "\<not> held_by (op_id r) stale r" using assms(3) by (simp add: held_by_def)
  have "update_returning (held_by (op_id r) stale) (finished_operation now outcome) db = (Inr None, db)"
    using update_returning_one[OF ok assms(2) P] no by simp
  moreover have "find (held_by (op_id r) stale) (rd_operations db) = None"
    using update_where_one(2)[OF d assms(2) P] no by simp
  ultimately show ?thesis
    using assms(4) lookup_row[OF ok assms(2)]
    by (auto simp: finish_operation_def mark_post_started_def operation_by_id_def)
qed

theorem stale_owner_cannot_finish_witness:
  "mark_post_started 50 1 ''w9'' demo_posted = (Inr False, demo_posted)"
proof -
  have "map (\<lambda>r. (op_id r, op_claim_owner r)) (rd_operations demo_posted) = [(1, Some ''w1'')]" by code_simp
  then obtain r where r: "r \<in> set (rd_operations demo_posted)" "op_id r = 1" "op_claim_owner r = Some ''w1''"
    by auto
  have "op_claim_owner r \<noteq> Some ''w9''" using r(3) by simp
  from stale_owner_cannot_finish[OF demo_reachable(2) r(1) this, of "retryable ''x'' None" 50] r(2)
  show ?thesis by (simp add: retryable_def outcome_of_def)
qed

section \<open>The confidence gate\<close>

lemma confidence_allowed:
  "rc_state (evaluate_request_confidence v) = Allowed \<longleftrightarrow>
    v = JInt 1 \<or> (\<exists>x. v = JFloat x \<and> 1 / 2 \<le> x \<and> x \<le> 1)"
proof -
  have "(of_int n :: rat) = 1" if "(1 / 2 :: rat) \<le> of_int n" "(of_int n :: rat) \<le> 1" for n :: int
  proof -
    have "n \<le> 1" using that(2) by simp
    moreover have "0 < (of_int n :: rat)" using that(1) by (rule order.strict_trans2[rotated]) simp
    then have "0 < n" by simp
    ultimately show ?thesis by simp
  qed
  then show ?thesis
    by (cases v) (auto simp: evaluate_request_confidence_def evaluate_finite_def invalid_confidence_def
        REQUEST_CONFIDENCE_MINIMUM_def not_less split: if_splits)
qed

text \<open>The gate passes exactly the persisted confidences from one half to one; everything else (null,
  text, Booleans, NaN and infinities, values outside the unit interval) is refused.\<close>

theorem confidence_allowed_iff:
  "rc_state (evaluate_request_confidence v) = Allowed \<longleftrightarrow>
    v = JInt 1 \<or> (\<exists>x. v = JFloat x \<and> 1 / 2 \<le> x \<and> x \<le> 1)"
  by (rule confidence_allowed)

lemma mark_post_result:
  assumes inv: "request_inv db" and "mark_post_started now i owner db = (Inr True, db')"
  shows "\<exists>r \<in> set (rd_operations db). held_by i owner r \<and>
    rc_state (operation_confidence r db) = Allowed \<and> db' = put_row r (post_started now r) db"
proof -
  have ok: "ops_ok db" using inv by (rule inv_ops_ok)
  obtain r where f: "find (held_by i owner) (rd_operations db) = Some r"
    using assms(2) by (auto simp: mark_post_started_def split: option.splits)
  then have r: "r \<in> set (rd_operations db)" "held_by i owner r" using find_Some_member[OF f] by simp_all
  then have P: "op_id x = op_id r" if "held_by i owner x" for x using that by (simp add: held_by_def)
  have al: "rc_state (operation_confidence r db) = Allowed"
    using assms(2) f by (auto simp: mark_post_started_def Let_def split: if_splits sum.splits prod.splits)
  then have "db' = put_row r (post_started now r) db"
    using assms(2) f update_returning_one[OF ok r(1) P, where P = "held_by i owner" and f = "post_started now"] r(2)
    by (auto simp: mark_post_started_def Let_def split: if_splits)
  then show ?thesis using r al by blast
qed

text \<open>A POST is started only through the gate: whenever the marker is set, the operation was held by
  that owner, the confidence of its classification at that very moment was at least one half, and
  the marker and one more attempt are recorded in the same transaction.\<close>

theorem post_requires_confidence:
  assumes "request_reachable digest db" and "mark_post_started now i owner db = (Inr True, db')"
  shows "\<exists>r \<in> set (rd_operations db). op_id r = i \<and> op_state r = Attempting \<and> op_claim_owner r = Some owner \<and>
    (\<exists>k c. op_source_classification_id r = Some k \<and>
      lookup_by cl_id k (rd_classifications db) = Some c \<and>
      (cl_confidence c = JInt 1 \<or> (\<exists>x. cl_confidence c = JFloat x \<and> 1 / 2 \<le> x \<and> x \<le> 1))) \<and>
    db' = put_row r (post_started now r) db \<and>
    op_post_started_at (post_started now r) = Some now \<and>
    op_attempt_count (post_started now r) = op_attempt_count r + 1"
proof -
  obtain r where r: "r \<in> set (rd_operations db)" "held_by i owner r"
    "rc_state (operation_confidence r db) = Allowed" "db' = put_row r (post_started now r) db"
    using mark_post_result[OF request_inv_reachable[OF assms(1)] assms(2)] by blast
  let ?c = "Option.bind (op_source_classification_id r) (\<lambda>k. lookup_by cl_id k (rd_classifications db))"
  have "classification_confidence ?c = JInt 1 \<or>
      (\<exists>x. classification_confidence ?c = JFloat x \<and> 1 / 2 \<le> x \<and> x \<le> 1)"
    using r(3) unfolding operation_confidence_def confidence_allowed .
  then obtain k c where "op_source_classification_id r = Some k"
    "lookup_by cl_id k (rd_classifications db) = Some c"
    "cl_confidence c = JInt 1 \<or> (\<exists>x. cl_confidence c = JFloat x \<and> 1 / 2 \<le> x \<and> x \<le> 1)"
    by (auto simp: classification_confidence_def split: option.splits bind_splits)
  then show ?thesis using r(1,2,4) by (auto simp: held_by_def intro!: bexI[of _ r])
qed

definition demo_claimed :: request_db where
  "demo_claimed = request_run demo_digest [(12, Claim 1 ''w1'' 60)] demo_ready"

theorem post_requires_confidence_witness:
  "\<exists>r \<in> set (rd_operations demo_claimed). op_claim_owner r = Some ''w1'' \<and>
    snd (mark_post_started 13 1 ''w1'' demo_claimed) = put_row r (post_started 13 r) demo_claimed"
proof -
  have reach: "request_reachable demo_digest demo_claimed"
    unfolding demo_claimed_def by (intro request_reachable_run demo_reachable)
  have "fst (mark_post_started 13 1 ''w1'' demo_claimed) = Inr True" by code_simp
  then have "mark_post_started 13 1 ''w1'' demo_claimed = (Inr True, snd (mark_post_started 13 1 ''w1'' demo_claimed))"
    by (simp add: prod_eq_iff)
  from post_requires_confidence[OF reach this] show ?thesis by blast
qed

end
