(* ===== verification/Request_Delivery.thy ===== *)
theory Request_Delivery
  imports Request_Correctness
begin

text \<open>
  The delivery of a request from end to end (\<open>create_request_for_cycle\<close>): the operation a cycle gets
  never violates the table's constraints, a delivery posts at most once and records what the
  provider answered, a replay has no effect, and what the code leaves behind after a crash.
\<close>

section \<open>The operation of a cycle\<close>

definition digest_ok :: "(request_payload \<Rightarrow> string) \<Rightarrow> bool" where
  "digest_ok digest \<longleftrightarrow> (\<forall>p. length (digest p) = 64 \<and> list_all hex_char (digest p))"

lemma built_identifiers:
  assumes "build_request_payload title description protocol company department = Inr p"
  shows "btrim company \<noteq> []" and "btrim department \<noteq> []"
proof -
  have "py_strip company \<noteq> []"
    using assms by (simp add: build_request_payload_def Let_def split: if_splits)
  then show "btrim company \<noteq> []" by (rule strip_nonblank)
  have "SAFE_DEPARTMENT_ID (py_strip department)"
    using assms by (simp add: build_request_payload_def Let_def split: if_splits)
  then have "py_strip department \<noteq> []" by (simp add: SAFE_DEPARTMENT_ID_def)
  then show "btrim department \<noteq> []" by (rule strip_nonblank)
qed

definition reason_ok :: "string \<Rightarrow> bool" where
  "reason_ok s \<longleftrightarrow> 1 \<le> length s \<and> length s \<le> 120 \<and> list_all category_char s"

lemma safe_category_reason [simp]: "reason_ok (safe_category v)"
  using safe_category_chars safe_category_length by (simp add: reason_ok_def)

lemma payload_reason [simp]: "reason_ok (payload_error_reason m)"
proof -
  have "reason_ok ''department_identifier_invalid''" "reason_ok ''classification_description_missing''"
    "reason_ok ''classification_title_missing''" by code_simp+
  then show ?thesis by (simp add: payload_error_reason_def)
qed

lemma gate_reason: "reason_ok (rc_reason (evaluate_request_confidence v))"
proof -
  have "reason_ok ''confidence_accepted''" "reason_ok ''confidence_below_threshold''"
    "reason_ok ''confidence_invalid''" by code_simp+
  then show ?thesis
    by (cases v) (simp_all add: evaluate_request_confidence_def evaluate_finite_def invalid_confidence_def)
qed

lemma reason_literals [simp]:
  "reason_ok ''cycle_not_eligible''" "reason_ok ''classification_missing''"
  "reason_ok ''classification_title_missing''" "reason_ok ''classification_description_missing''"
  "reason_ok ''mapping_missing''" "reason_ok ''company_unavailable''"
  "reason_ok ''company_department_unavailable''" "reason_ok ''mapping_facts_missing''"
  by code_simp+

definition verdict_ok :: "operation_verdict \<Rightarrow> bool" where
  "verdict_ok v = (case v of
     (state, reason, facts, payload) \<Rightarrow>
       opt_all reason_ok reason \<and>
       opt_all (\<lambda>f. btrim (fa_company_external_id f) \<noteq> [] \<and> btrim (fa_department_external_id f) \<noteq> []) facts)"

lemma verdict_ok_refused [simp]: "verdict_ok (refused r) = reason_ok r"
  by (simp add: verdict_ok_def refused_def)

lemma operation_state_ok: "verdict_ok (operation_state cycle mapping db)"
proof -
  have built: "verdict_ok (case build_request_payload title description protocol (co_external_id company) department of
      Inl (ValueError message) \<Rightarrow> refused (payload_error_reason message)
    | Inl _ \<Rightarrow> refused ''classification_title_missing''
    | Inr payload \<Rightarrow> (Not_Started, None,
        Some \<lparr>fa_company_id = i, fa_company_external_id = co_external_id company,
          fa_department_mapping_id = k, fa_department_external_id = department\<rparr>, Some payload))"
    for title description protocol company department i k
    using built_identifiers[of title description protocol "co_external_id company" department]
    by (auto simp: verdict_ok_def[of "(_, _)"] split: sum.split py_error.split)
  show ?thesis
    unfolding operation_state_def Let_def
    by (simp add: built gate_reason split: option.split if_split prod.split)
qed

lemma new_operation_check:
  assumes "digest_ok digest" and "btrim (cy_conversation_id cycle) \<noteq> []"
  shows "op_check (new_operation digest now cycle db)"
proof -
  obtain state reason facts payload where v:
    "operation_state cycle (mapping_snapshot (cy_id cycle) db) db = (state, reason, facts, payload)"
    by (metis prod_cases4)
  have "verdict_ok (state, reason, facts, payload)"
    using operation_state_ok[of cycle "mapping_snapshot (cy_id cycle) db" db] by (simp add: v)
  moreover have "state \<noteq> Op_Completed"
    using operation_state_verdict[of cycle "mapping_snapshot (cy_id cycle) db" db] by (auto simp: v)
  ultimately show ?thesis
    using assms unfolding new_operation_def Let_def v
    by (cases reason; cases facts; cases payload)
      (simp_all add: op_check_def verdict_ok_def digest_ok_def reason_ok_def)
qed

lemma ensure_existing:
  assumes "request_inv db" and "digest_ok digest"
    and "cycle_snapshot pid db = Some cycle" and "btrim (cy_conversation_id cycle) \<noteq> []"
    and "r \<in> set (rd_operations db)" and "op_source_cycle_id r = cy_id cycle"
  shows "ensure_operation digest now pid db = (Inr r, db)"
proof -
  have "lookup_by op_source_cycle_id (cy_id cycle) (rd_operations db) = Some r"
    using assms(1,5) unfolding assms(6)[symmetric] by (simp add: request_inv_def lookup_by_unique)
  then show ?thesis
    using new_operation_check[OF assms(2,4)] by (simp add: ensure_operation_def assms(3) Let_def)
qed

section \<open>Replays\<close>

text \<open>Creating the request again has no effect once the operation has left its two startable states:
  completed, refused, under reconciliation or being attempted, it is returned as it stands, nothing
  is written and the provider is not called.\<close>

theorem create_request_replay:
  assumes "request_reachable digest db" and "digest_ok digest"
    and "cycle_snapshot pid db = Some cycle" and "btrim (cy_conversation_id cycle) \<noteq> []"
    and "r \<in> set (rd_operations db)" and "op_source_cycle_id r = cy_id cycle"
    and "op_state r \<notin> {Not_Started, Op_Retryable}"
  shows "create_request_for_cycle digest setup_ok provider now lease fallback owner pid db w =
    (Inr (Some r), db, w)"
  using ensure_existing[OF request_inv_reachable[OF assms(1)] assms(2-6)] assms(7)
  by (simp add: create_request_for_cycle_def)

lemma demo_digest_ok: "digest_ok demo_digest"
proof -
  have "hex_char CHR ''a''" by code_simp
  then show ?thesis by (simp add: digest_ok_def demo_digest_def list_all_iff)
qed

text \<open>A provider that answers and counts its calls.\<close>

definition demo_provider :: "nat provider" where
  "demo_provider payload n =
    (Answered \<lparr>ro_state = Op_Completed, ro_category = ''provider_success'', ro_solid_id = Some ''S9'',
       ro_provider_status = Some 200\<rparr>, n + 1)"

theorem create_request_replay_witness:
  "\<exists>r. create_request_for_cycle demo_digest True demo_provider (\<lambda>k. 50 + int k) 60 ''f'' (Some ''w2'') ''u1'' demo_done 0 =
    (Inr (Some r), demo_done, 0) \<and> op_state r = Op_Completed"
proof -
  have "cycle_snapshot ''u1'' demo_done = Some demo_cycle" by code_simp
  moreover have "btrim (cy_conversation_id demo_cycle) \<noteq> []" by code_simp
  moreover have "map (\<lambda>r. (op_state r, op_source_cycle_id r)) (rd_operations demo_done) =
      [(Op_Completed, cy_id demo_cycle)]" by code_simp
  then obtain r where "r \<in> set (rd_operations demo_done)" "op_source_cycle_id r = cy_id demo_cycle"
    "op_state r = Op_Completed" by auto
  ultimately show ?thesis
    using create_request_replay[OF demo_reachable(4) demo_digest_ok] by fastforce
qed

text \<open>C37: An attempt left behind by a crashed worker is not taken up again by the one function that
  delivers requests: the recovery of expired claims sits behind the early return.  The claim alone
  would take the abandoned operation over (or send it to reconciliation); creating the request of
  its cycle returns it as it is, however long ago the lease expired.\<close>

theorem abandoned_attempt_not_recovered:
  assumes "request_reachable digest db" and "digest_ok digest"
    and "cycle_snapshot pid db = Some cycle" and "btrim (cy_conversation_id cycle) \<noteq> []"
    and "r \<in> set (rd_operations db)" and "op_source_cycle_id r = cy_id cycle"
    and "op_state r = Attempting" and "op_claim_expires_at r = Some deadline"
    and "deadline \<le> t" and "owner_ok o'"
  shows "create_request_for_cycle digest setup_ok provider now lease fallback owner pid db w =
      (Inr (Some r), db, w) \<and>
    claim_operation t (op_id r) o' lease db =
      (if op_post_started_at r = None
       then (Inr (Some (claimed_operation t o' lease (recover_stale t r))),
         put_row r (claimed_operation t o' lease (recover_stale t r)) db)
       else (Inr None, put_row r (recover_stale t r) db))"
proof -
  have "\<not> in_future t (op_claim_expires_at r)" using assms(8,9) by (simp add: in_future_def)
  then show ?thesis
    using ensure_existing[OF request_inv_reachable[OF assms(1)] assms(2-6)]
      claim_by_state[OF assms(1,5,10), of t lease] assms(7)
    by (simp add: create_request_for_cycle_def)
qed

theorem abandoned_attempt_not_recovered_witness:
  "\<exists>r. create_request_for_cycle demo_digest True demo_provider (\<lambda>k. 90000000 + int k) 60 ''f''
      (Some ''w2'') ''u1'' demo_claimed 0 = (Inr (Some r), demo_claimed, 0) \<and>
    fst (claim_operation 90000000 (op_id r) ''w2'' 60 demo_claimed) \<noteq> Inr None"
proof -
  have reach: "request_reachable demo_digest demo_claimed"
    unfolding demo_claimed_def by (intro request_reachable_run demo_reachable)
  have c: "cycle_snapshot ''u1'' demo_claimed = Some demo_cycle" by code_simp
  have b: "btrim (cy_conversation_id demo_cycle) \<noteq> []" by code_simp
  have o: "owner_ok ''w2''" by code_simp
  have "map (\<lambda>r. (op_state r, op_source_cycle_id r, op_claim_expires_at r, op_post_started_at r))
      (rd_operations demo_claimed) = [(Attempting, cy_id demo_cycle, Some 60000012, None)]" by code_simp
  then obtain r where r: "r \<in> set (rd_operations demo_claimed)" "op_source_cycle_id r = cy_id demo_cycle"
    "op_state r = Attempting" "op_claim_expires_at r = Some 60000012" "op_post_started_at r = None" by auto
  have "(60000012::int) \<le> 90000000" by simp
  from abandoned_attempt_not_recovered[OF reach demo_digest_ok c b r(1-4) this o,
      of True demo_provider "\<lambda>k. 90000000 + int k" 60 "''f''" "Some ''w2''" 0] r(5)
  show ?thesis by (intro exI[of _ r]) simp
qed

text \<open>C38: A held operation whose POST was started before cannot be refused by the confidence gate: both
  gate updates ask for an operation without a POST, so when the confidence of the classification is
  no longer enough, the operation stays attempting under its claim, nothing is written and no POST
  is started.\<close>

theorem gate_leaves_posted_operation:
  assumes "request_reachable digest db" and "r \<in> set (rd_operations db)"
    and "held_by (op_id r) o' r" and "op_post_started_at r \<noteq> None"
    and "rc_state (operation_confidence r db) \<noteq> Allowed"
  shows "finish_confidence_blocked now (op_id r) o' decision db = (Inr r, db) \<and>
    mark_post_started now (op_id r) o' db = (Inr False, db)"
proof -
  have ok: "ops_ok db" using assms(1) request_inv_reachable inv_ops_ok by blast
  then have d: "distinct (map op_id (rd_operations db))" by (simp add: ops_ok_def)
  let ?P = "\<lambda>x. held_by (op_id r) o' x \<and> op_post_started_at x = None"
  have P: "op_id x = op_id r" if "?P x" for x using that by (simp add: held_by_def)
  have Q: "op_id x = op_id r" if "held_by (op_id r) o' x" for x using that by (simp add: held_by_def)
  have none: "update_returning ?P f db = (Inr None, db)" for f
    using update_returning_one[OF ok assms(2), of ?P f, OF P] assms(4) by simp
  have "find (held_by (op_id r) o') (rd_operations db) = Some r"
    using update_where_one(2)[OF d assms(2), of "held_by (op_id r) o'", OF Q] assms(3) by simp
  then show ?thesis
    using none lookup_row[OF ok assms(2)] assms(5)
    by (simp add: finish_confidence_blocked_def mark_post_started_def operation_by_id_def Let_def)
qed

definition demo_regated :: request_db where
  "demo_regated = request_run demo_digest
     [(14, Finish 1 ''w1'' (retryable ''busy'' (Some 408))), (15, Claim 1 ''w1'' 60),
      (16, World (demo_world\<lparr>rd_classifications := [\<lparr>cl_id = 7, cl_confidence = JFloat (1/4),
        cl_title = Some ''Guia'', cl_description = Some ''Cliente pediu guia.''\<rparr>]\<rparr>))] demo_posted"

theorem gate_leaves_posted_operation_witness:
  "\<exists>r. finish_confidence_blocked 20 1 ''w1'' (evaluate_request_confidence (JFloat (1/4))) demo_regated =
      (Inr r, demo_regated) \<and> op_state r = Attempting \<and>
    mark_post_started 20 1 ''w1'' demo_regated = (Inr False, demo_regated)"
proof -
  have reach: "request_reachable demo_digest demo_regated"
    unfolding demo_regated_def by (intro request_reachable_run demo_reachable)
  have "map (\<lambda>r. (op_id r, op_state r, held_by 1 ''w1'' r, op_post_started_at r,
      rc_state (operation_confidence r demo_regated))) (rd_operations demo_regated) =
      [(1, Attempting, True, Some 13, Below_Threshold)]" by code_simp
  then obtain r where r: "r \<in> set (rd_operations demo_regated)" "op_id r = 1" "op_state r = Attempting"
    "held_by 1 ''w1'' r" "op_post_started_at r = Some 13"
    "rc_state (operation_confidence r demo_regated) = Below_Threshold" by auto
  show ?thesis
    using gate_leaves_posted_operation[OF reach r(1), of "''w1''" 20] r(2-6)
    by (intro exI[of _ r]) simp
qed

section \<open>A delivery\<close>

text \<open>What the adapter may answer: \<open>adapter_outcome_valid\<close> shows that every reply it judges is such an
  outcome.\<close>

definition outcome_valid :: "request_outcome \<Rightarrow> bool" where
  "outcome_valid out \<longleftrightarrow>
    ro_state out \<in> set [Op_Completed, Definitive_Failure, Op_Retryable, Reconciliation_Required] \<and>
    (ro_state out = Op_Completed \<longrightarrow> ro_solid_id out \<noteq> None) \<and>
    opt_all (\<lambda>s. btrim s \<noteq> []) (ro_solid_id out) \<and> reason_ok (ro_category out)"

lemma outcome_of_valid [simp]:
  "outcome_valid (retryable c s)" "outcome_valid (definitive c s)" "outcome_valid (reconciliation c s)"
  by (simp_all add: outcome_valid_def retryable_def definitive_def reconciliation_def outcome_of_def)

lemma sol_id_nonblank: "SAFE_SOL_ID s \<Longrightarrow> btrim s \<noteq> []"
proof
  assume s: "SAFE_SOL_ID s" and "btrim s = []"
  then have "\<forall>c \<in> set s. c = CHR '' ''" by (simp only: btrim_Nil_iff)
  moreover have "\<not> sol_char CHR '' ''" by code_simp
  ultimately show False using s by (cases s) (auto simp: SAFE_SOL_ID_def)
qed

lemma success_valid: "outcome_success i status = Inr out \<Longrightarrow> outcome_valid out"
proof -
  assume a: "outcome_success i status = Inr out"
  have "reason_ok ''provider_success''" by code_simp
  then show ?thesis
    using a sol_id_nonblank
    by (auto simp: outcome_success_def outcome_valid_def Let_def split: if_splits)
qed

lemma adapter_outcome_valid: "outcome_valid (outcome_for r)"
  by (cases r) (auto simp: outcome_for_def judge_response_def judge_status_def
      intro: success_valid split: option.split sum.split)

lemma update_put_row:
  assumes "ops_ok db" and "r \<in> set (rd_operations db)" and "op_id c = op_id r" and "op_check c"
    and "\<And>x. P x \<Longrightarrow> op_id x = op_id r" and "op_id (f c) = op_id r"
  shows "update_returning P f (put_row r c db) =
    (if P c then if op_check (f c) then (Inr (Some (f c)), put_row r (f c) db)
       else (Inl operation_violation, put_row r c db)
     else (Inr None, put_row r c db))"
proof -
  have ok: "ops_ok (put_row r c db)" "c \<in> set (rd_operations (put_row r c db))"
    using put_row_ok[OF assms(1-4)] by simp_all
  show ?thesis
    using update_returning_one[OF ok, of P f] assms(3,5) put_row_put[OF assms(1-3), of "f c"] by simp
qed

lemma find_put_row:
  assumes "ops_ok db" and "r \<in> set (rd_operations db)" and "op_id c = op_id r" and "op_check c"
    and "\<And>x. P x \<Longrightarrow> op_id x = op_id r"
  shows "find P (rd_operations (put_row r c db)) = (if P c then Some c else None)"
proof -
  have ok: "ops_ok (put_row r c db)" "c \<in> set (rd_operations (put_row r c db))"
    using put_row_ok[OF assms(1-4)] by simp_all
  then show ?thesis
    using update_where_one(2)[of "rd_operations (put_row r c db)" c P] assms(3,5) by (simp add: ops_ok_def)
qed

lemma check_refreshed:
  "op_check c \<Longrightarrow> digest_ok digest \<Longrightarrow>
    op_check (c\<lparr>op_payload_fingerprint := Some (digest p), op_payload_metadata := md, op_updated_at := now\<rparr>)"
  by (simp add: op_check_def digest_ok_def)

lemma check_posted: "op_check c \<Longrightarrow> op_check (post_started now c)"
  by (simp add: op_check_def post_started_def)

lemma check_finished: "op_check c \<Longrightarrow> outcome_valid out \<Longrightarrow> op_check (finished_operation now out c)"
  by (auto simp: op_check_def outcome_valid_def finished_operation_def reason_ok_def Let_def)

lemma refresh_held:
  assumes ok: "ops_ok db" "r \<in> set (rd_operations db)" and c: "op_id c = op_id r" "op_check c"
    and "held_by (op_id r) owner c" and dig: "digest_ok digest"
  shows "\<exists>b c'. refresh_payload_metadata digest now (op_id r) owner p d (put_row r c db) = (Inr b, put_row r c' db) \<and>
    op_id c' = op_id r \<and> op_check c' \<and> held_by (op_id r) owner c' \<and>
    op_attempt_count c' = op_attempt_count c \<and> op_first_attempt_at c' = op_first_attempt_at c \<and>
    op_source_classification_id c' = op_source_classification_id c"
proof -
  let ?P = "\<lambda>x. held_by (op_id r) owner x \<and> op_post_started_at x = None"
  let ?f = "\<lambda>x. x\<lparr>op_payload_fingerprint := Some (digest p),
      op_payload_metadata := payload_metadata p @
        [(''confidence_gate'', JObj (confidence_gate_metadata d))], op_updated_at := now\<rparr>"
  have P: "op_id x = op_id r" if "?P x" for x using that by (simp add: held_by_def)
  have id: "op_id (?f c) = op_id r" using c(1) by simp
  note upd = update_put_row[OF ok c, where P = ?P and f = ?f, OF P id]
  have "held_by (op_id r) owner (?f c)" using assms(5) by (simp add: held_by_def)
  then show ?thesis
    using upd check_refreshed[OF c(2) dig] c assms(5)
    by (cases "op_post_started_at c = None") (auto simp: refresh_payload_metadata_def)
qed

lemma mark_held:
  assumes ok: "ops_ok db" "r \<in> set (rd_operations db)" and c: "op_id c = op_id r" "op_check c"
    and h: "held_by (op_id r) owner c" and al: "rc_state (operation_confidence c (put_row r c db)) = Allowed"
  shows "mark_post_started now (op_id r) owner (put_row r c db) =
    (Inr True, put_row r (post_started now c) db)"
proof -
  have P: "op_id x = op_id r" if "held_by (op_id r) owner x" for x using that by (simp add: held_by_def)
  have id: "op_id (post_started now c) = op_id r" using c(1) by (simp add: post_started_def)
  have "find (held_by (op_id r) owner) (rd_operations (put_row r c db)) = Some c"
    using find_put_row[OF ok c, where P = "held_by (op_id r) owner", OF P] h by simp
  then show ?thesis
    using update_put_row[OF ok c, where P = "held_by (op_id r) owner" and f = "post_started now", OF P id]
      check_posted[OF c(2)] h al
    by (simp add: mark_post_started_def Let_def)
qed

lemma finish_held:
  assumes ok: "ops_ok db" "r \<in> set (rd_operations db)" and c: "op_id c = op_id r" "op_check c"
    and h: "held_by (op_id r) owner c" and out: "outcome_valid out"
  shows "finish_with now (op_id r) owner out (put_row r c db) =
    (Inr (Some (finished_operation now out c)), put_row r (finished_operation now out c) db)"
proof -
  have "btrim [] = []" by code_simp
  then have solid: "\<not> (ro_state out = Op_Completed \<and> coalesce (ro_solid_id out) [] = [])"
    using out by (auto simp: outcome_valid_def)
  have P: "op_id x = op_id r" if "held_by (op_id r) owner x" for x using that by (simp add: held_by_def)
  have id: "op_id (finished_operation now out c) = op_id r" using c(1) by (simp add: finished_operation_def Let_def)
  show ?thesis
    using update_put_row[OF ok c, where P = "held_by (op_id r) owner" and f = "finished_operation now out", OF P id]
      check_finished[OF c(2) out] h out solid
    by (simp add: finish_with_def finish_operation_def outcome_valid_def)
qed

lemma deliver_held:
  assumes ok: "ops_ok db" "r \<in> set (rd_operations db)" and c: "op_id c = op_id r" "op_check c"
    and h: "held_by (op_id r) owner c" and dig: "digest_ok digest"
    and load: "load_payload (op_id r) (put_row r c db) = Some payload"
    and al: "rc_state (operation_confidence c db) = Allowed"
    and out: "outcome_valid (answer_outcome (fst (provider payload w)))"
  shows "\<exists>c'. deliver digest True provider now pid (op_id r) owner (put_row r c db) w =
      (Inr (Some (finished_operation (now 4) (answer_outcome (fst (provider payload w))) (post_started (now 3) c'))),
       put_row r (finished_operation (now 4) (answer_outcome (fst (provider payload w))) (post_started (now 3) c')) db, snd (provider payload w)) \<and>
    op_id c' = op_id r \<and> op_attempt_count c' = op_attempt_count c"
proof -
  let ?d = "operation_confidence c db"
  have conf: "operation_confidence x (put_row r y db) = operation_confidence x db" for x y
    by (simp add: operation_confidence_def put_row_def)
  have "lookup_by op_id (op_id r) (rd_operations (put_row r c db)) = Some c"
    by (rule lookup_put_row[OF ok c(1)])
  then have rc: "request_confidence_for_operation (op_id r) (put_row r c db) = ?d"
    by (simp add: request_confidence_for_operation_def conf)
  obtain b c' where c': "refresh_payload_metadata digest (now 2) (op_id r) owner payload ?d (put_row r c db) =
      (Inr b, put_row r c' db)" "op_id c' = op_id r" "op_check c'" "held_by (op_id r) owner c'"
    "op_attempt_count c' = op_attempt_count c"
    "op_source_classification_id c' = op_source_classification_id c"
    using refresh_held[OF ok c h dig, of "now 2" payload ?d] by blast
  have "operation_confidence c' (put_row r c' db) = ?d"
    unfolding conf by (simp add: operation_confidence_def c'(6))
  then have m: "mark_post_started (now 3) (op_id r) owner (put_row r c' db) =
      (Inr True, put_row r (post_started (now 3) c') db)"
    using mark_held[OF ok c'(2-4), of "now 3"] al by simp
  have p: "op_id (post_started (now 3) c') = op_id r" "op_check (post_started (now 3) c')"
    "held_by (op_id r) owner (post_started (now 3) c')"
    using c'(2-4) by (simp_all add: check_posted, simp_all add: post_started_def held_by_def)
  show ?thesis
    using finish_held[OF ok p out, of "now 4"] c'(1,2,5) m rc al load
    by (intro exI[of _ c']) (simp add: deliver_def Let_def case_prod_unfold)
qed

lemma put_row_tables:
  "rd_cycles (put_row r c db) = rd_cycles db"
  "rd_classifications (put_row r c db) = rd_classifications db"
  by (simp_all add: put_row_def)

lemma load_payload_put:
  assumes "ops_ok db" and "r \<in> set (rd_operations db)" and "op_id c = op_id r"
    and "op_source_cycle_id c = op_source_cycle_id r"
    and "op_source_classification_id c = op_source_classification_id r"
    and "op_company_external_id c = op_company_external_id r"
    and "op_department_external_id c = op_department_external_id r"
  shows "load_payload (op_id r) (put_row r c db) = load_payload (op_id r) db"
  unfolding load_payload_def lookup_put_row[OF assms(1-3)] lookup_row[OF assms(1,2)] option.case
    put_row_tables assms(4-7) by (rule refl)

text \<open>C3: A delivery runs to its end and records what the provider answered: for an operation that may be
  started, whose payload loads and whose confidence passes the gate, the provider is called exactly
  once, and the operation ends, unclaimed, in the state and with the provider id and status of the
  answer (a provider that raises counts as uncertain), with one more attempt and the time of the
  POST; no other operation is touched.\<close>

theorem delivery_records_outcome:
  assumes "request_reachable digest db" and "digest_ok digest"
    and "cycle_snapshot pid db = Some cycle" and "btrim (cy_conversation_id cycle) \<noteq> []"
    and "r \<in> set (rd_operations db)" and "op_source_cycle_id r = cy_id cycle"
    and "op_state r \<in> {Not_Started, Op_Retryable}" and "claim_owner owner fallback = Inr o'"
    and "load_payload (op_id r) db = Some payload"
    and "rc_state (operation_confidence r db) = Allowed"
    and "answer = fst (provider payload w)" and "outcome_valid (answer_outcome answer)"
  shows "\<exists>r'. create_request_for_cycle digest True provider now lease fallback owner pid db w =
      (Inr (Some r'), put_row r r' db, snd (provider payload w)) \<and>
    op_id r' = op_id r \<and> op_state r' = ro_state (answer_outcome answer) \<and>
    op_sol_id r' = ro_solid_id (answer_outcome answer) \<and>
    op_last_provider_status r' = ro_provider_status (answer_outcome answer) \<and>
    op_claim_owner r' = None \<and> op_post_started_at r' = Some (now 3) \<and>
    op_attempt_count r' = op_attempt_count r + 1"
proof -
  have inv: "request_inv db" using assms(1) by (rule request_inv_reachable)
  have ok: "ops_ok db" using inv by (rule inv_ops_ok)
  have ch: "op_check r" using ok assms(5) by (simp add: ops_ok_def list_all_iff)
  have own: "owner_ok o'" using assms(8) by (rule claim_owner_ok)
  let ?c = "claimed_operation (now 1) o' lease r"
  have cl: "claim_operation (now 1) (op_id r) o' lease db = (Inr (Some ?c), put_row r ?c db)"
    using claim_by_state[OF assms(1,5) own, of "now 1" lease] assms(7) by auto
  have c: "op_id ?c = op_id r" "op_check ?c" "held_by (op_id r) o' ?c"
    using check_claimed[OF ch own] by (simp_all add: claimed_operation_def held_by_def)
  have load: "load_payload (op_id r) (put_row r ?c db) = Some payload"
    using load_payload_put[OF ok assms(5) c(1)] assms(9) by (simp add: claimed_operation_def)
  have al: "rc_state (operation_confidence ?c db) = Allowed"
    using assms(10) by (simp add: operation_confidence_def claimed_operation_def)
  obtain c' where "deliver digest True provider now pid (op_id r) o' (put_row r ?c db) w =
      (Inr (Some (finished_operation (now 4) (answer_outcome answer) (post_started (now 3) c'))),
       put_row r (finished_operation (now 4) (answer_outcome answer) (post_started (now 3) c')) db, snd (provider payload w))"
    "op_id c' = op_id r" "op_attempt_count c' = op_attempt_count r"
    using deliver_held[OF ok assms(5) c assms(2) load al, of provider w now pid] assms(11,12)
    by (auto simp: claimed_operation_def)
  then show ?thesis
    using ensure_existing[OF inv assms(2-6), of "now 0"] cl assms(7,8)
    by (intro exI[of _ "finished_operation (now 4) (answer_outcome answer) (post_started (now 3) c')"])
      (auto simp: create_request_for_cycle_def finished_operation_def post_started_def Let_def)
qed

theorem delivery_records_outcome_witness:
  "\<exists>r'. create_request_for_cycle demo_digest True demo_provider (\<lambda>k. 50 + int k) 60 ''f'' (Some ''w1'')
      ''u1'' demo_ready 0 = (Inr (Some r'), demo_ready\<lparr>rd_operations := [r']\<rparr>, 1) \<and>
    op_state r' = Op_Completed \<and> op_sol_id r' = Some ''S9'' \<and> op_attempt_count r' = 1"
proof -
  have c: "cycle_snapshot ''u1'' demo_ready = Some demo_cycle" by code_simp
  have b: "btrim (cy_conversation_id demo_cycle) \<noteq> []" by code_simp
  have "map (\<lambda>r. (op_id r, op_state r, op_source_cycle_id r, op_attempt_count r,
      rc_state (operation_confidence r demo_ready))) (rd_operations demo_ready) =
      [(1, Not_Started, cy_id demo_cycle, 0, Allowed)]" by code_simp
  then obtain r where r: "rd_operations demo_ready = [r]" "op_id r = 1" "op_state r = Not_Started"
    "op_source_cycle_id r = cy_id demo_cycle" "op_attempt_count r = 0"
    "rc_state (operation_confidence r demo_ready) = Allowed"
    by (cases "rd_operations demo_ready") auto
  have o: "claim_owner (Some ''w1'') ''f'' = Inr ''w1''" by code_simp
  have "load_payload 1 demo_ready \<noteq> None" by code_simp
  then obtain p where p: "load_payload (op_id r) demo_ready = Some p" using r(2) by auto
  have "reason_ok ''provider_success''" "btrim ''S9'' \<noteq> []" by code_simp+
  then have v: "outcome_valid (answer_outcome (fst (demo_provider p 0)))"
    by (simp add: demo_provider_def answer_outcome_def outcome_valid_def)
  have m: "r \<in> set (rd_operations demo_ready)" "op_state r \<in> {Not_Started, Op_Retryable}"
    using r(1,3) by simp_all
  have "\<exists>r'. create_request_for_cycle demo_digest True demo_provider (\<lambda>k. 50 + int k) 60 ''f'' (Some ''w1'')
      ''u1'' demo_ready 0 = (Inr (Some r'), put_row r r' demo_ready, snd (demo_provider p 0)) \<and>
    op_id r' = op_id r \<and> op_state r' = ro_state (answer_outcome (fst (demo_provider p 0))) \<and>
    op_sol_id r' = ro_solid_id (answer_outcome (fst (demo_provider p 0))) \<and>
    op_last_provider_status r' = ro_provider_status (answer_outcome (fst (demo_provider p 0))) \<and>
    op_claim_owner r' = None \<and> op_post_started_at r' = Some (50 + int 3) \<and>
    op_attempt_count r' = op_attempt_count r + 1"
    by (rule delivery_records_outcome[where payload = p and provider = demo_provider and w = 0
      and now = "\<lambda>k. 50 + int k", OF demo_reachable(1) demo_digest_ok c b m(1) r(4)
      m(2) o p r(6) refl v])
  then show ?thesis using r(1,5) by (auto simp: put_row_def demo_provider_def answer_outcome_def)
qed

end
