(* ===== verification/Identity_Resolution.thy ===== *)
theory Identity_Resolution
  imports Directory_Tables
begin

text \<open>
  Identity resolution (\<open>src/core/identity_resolution.py\<close>): matching of a DigiSac contact against the
  provider directory, candidate links, their confirmation and rejection with the transition log,
  the immutable identity outcome of a cycle, and the idempotent administrative commands.
  SHA-256 is the parameter \<open>sha\<close>; the fingerprint of a command is the parameter \<open>command_print\<close>.
  Every locked transaction returns the tables it leaves; an exception rolls them back.
\<close>

section \<open>Matching\<close>

record match_input =
  mi_contact_id :: int
  mi_normalized_number :: "string option"
  mi_normalized_email :: "string option"
  mi_is_group :: "bool option"

datatype evidence_type = Exact_Phone | Exact_Email | Brazil_Mobile_Variant

record match_evidence =
  me_contact_id :: int
  me_company_id :: int
  me_type :: evidence_type
  me_fingerprint :: string

definition digit :: "char \<Rightarrow> bool" where
  "digit c \<longleftrightarrow> c \<in> set ascii_digits"

definition is_ascii_digits :: "string \<Rightarrow> bool" where
  "is_ascii_digits value \<longleftrightarrow> value \<noteq> [] \<and> list_all digit value"

definition digit_number :: "char \<Rightarrow> nat" where
  "digit_number c = of_char c - 48"

definition two_digits :: "string \<Rightarrow> nat" where
  "two_digits s = digit_number (s ! 0) * 10 + digit_number (s ! 1)"

definition is_brazilian_mobile_variant :: "string \<Rightarrow> string \<Rightarrow> bool" where
  "is_brazilian_mobile_variant left right \<longleftrightarrow>
    (if \<not> is_ascii_digits left \<or> \<not> is_ascii_digits right then False
     else if \<not> py_startswith left ''55'' \<or> \<not> py_startswith right ''55'' then False
     else if length left \<notin> {12, 13} \<or> length right \<notin> {12, 13} then False
     else if length left = length right then False
     else
       (let short = (if length left < length right then left else right);
            long = (if length left < length right then right else left)
        in if length short \<noteq> 12 \<or> length long \<noteq> 13 then False
           else if take 2 (drop 2 short) \<noteq> take 2 (drop 2 long) then False
           else
             (let short_local = drop 4 short; long_local = drop 4 long;
                  ddd = two_digits (take 2 (drop 2 short))
              in 11 \<le> ddd \<and> ddd \<le> 99 \<and> short_local ! 0 \<in> set ''6789'' \<and>
                 py_startswith long_local ''9'' \<and> drop 1 long_local = short_local)))"

definition variant_fingerprint :: "(string \<Rightarrow> string) \<Rightarrow> string \<Rightarrow> string \<Rightarrow> string" where
  "variant_fingerprint sha left right =
    sha (if left \<le> right then left @ [CHR 0x1F] @ right else right @ [CHR 0x1F] @ left)"

definition nonempty :: "string option \<Rightarrow> bool" where
  "nonempty x \<longleftrightarrow> x \<noteq> None \<and> x \<noteq> Some []"

text \<open>A directory contact with the flags of its company, as the query joins them.\<close>

record directory_match =
  dx_contact :: directory_contact
  dx_company_is_present :: bool
  dx_company_is_active :: "bool option"

definition current_entry :: "directory_match \<Rightarrow> bool" where
  "current_entry x \<longleftrightarrow>
    dk_is_present (dx_contact x) \<and> dk_is_active (dx_contact x) \<and>
    dx_company_is_present x \<and> not_false (dx_company_is_active x)"

definition contact_matches ::
  "(string \<Rightarrow> string) \<Rightarrow> match_input \<Rightarrow> directory_match \<Rightarrow> match_evidence list" where
  "contact_matches sha d x =
    (let c = dx_contact x;
         found = (\<lambda>t f. [\<lparr>me_contact_id = dk_id c, me_company_id = dk_company_id c, me_type = t,
           me_fingerprint = f\<rparr>])
     in if \<not> current_entry x then []
        else
          (case mi_normalized_number d of
             None \<Rightarrow> []
           | Some n \<Rightarrow> (if n \<noteq> [] \<and> dk_normalized_mobile c = Some n
                         then found Exact_Phone (sha n) else [])) @
          (case mi_normalized_email d of
             None \<Rightarrow> []
           | Some e \<Rightarrow> (if e \<noteq> [] \<and> dk_normalized_email c = Some e
                         then found Exact_Email (sha e) else [])) @
          (case (mi_normalized_number d, dk_normalized_mobile c) of
             (Some n, Some m) \<Rightarrow>
               (if n \<noteq> [] \<and> m \<noteq> [] \<and> is_brazilian_mobile_variant n m
                then found Brazil_Mobile_Variant (variant_fingerprint sha n m) else [])
           | _ \<Rightarrow> []))"

definition match_identity ::
  "(string \<Rightarrow> string) \<Rightarrow> match_input \<Rightarrow> directory_match list \<Rightarrow> match_evidence list" where
  "match_identity sha d directory =
    (if mi_is_group d \<noteq> Some False then [] else concat (map (contact_matches sha d) directory))"

section \<open>Safe values\<close>

definition safe_value_char :: "char \<Rightarrow> bool" where
  "safe_value_char c \<longleftrightarrow> c \<in> set (ascii_lower_letters @ ascii_digits @ ''_.:@-'')"

definition reason_char :: "char \<Rightarrow> bool" where
  "reason_char c \<longleftrightarrow> c \<in> set (ascii_lower_letters @ ascii_digits @ ''_:-'')"

definition safe_value :: "string \<Rightarrow> py_error + string" where
  "safe_value value =
    (let normalized = py_lower (py_strip value)
     in if 1 \<le> length normalized \<and> length normalized \<le> 120 \<and> list_all safe_value_char normalized
        then Inr normalized else Inl (ValueError ''must be a safe nonblank value''))"

definition safe_reason_value :: "string \<Rightarrow> py_error + string" where
  "safe_reason_value value =
    (let normalized = py_lower (py_strip value)
     in if 1 \<le> length normalized \<and> length normalized \<le> 120 \<and> list_all reason_char normalized
        then Inr normalized else Inl (ValueError ''reason must be a safe nonblank category''))"

definition safe_opaque_reference :: "string \<Rightarrow> py_error + string" where
  "safe_opaque_reference value =
    (let normalized = py_strip value
     in if normalized = [] \<or> 200 < length normalized \<or>
          list_ex (\<lambda>c. (of_char c :: nat) < 32 \<or> (of_char c :: nat) = 127) normalized
        then Inl (ValueError ''must be a safe nonblank value'') else Inr normalized)"

section \<open>Tables\<close>

definition DEFAULT_RULE_VERSION :: string where
  "DEFAULT_RULE_VERSION = ''spec0009-v1.1''"

definition AUTOMATIC_SOURCE :: string where
  "AUTOMATIC_SOURCE = ''automatic''"

definition MANUAL_SOURCE :: string where
  "MANUAL_SOURCE = ''manual_db''"

definition ADMIN_SOURCE :: string where
  "ADMIN_SOURCE = ''admin_api''"

datatype link_state = Link_Candidate | Link_Confirmed | Link_Rejected

record identity_link =
  il_id :: int
  il_contact_id :: int
  il_company_id :: int
  il_state :: link_state
  il_source :: string
  il_confirmation_source :: "string option"
  il_confirmed_at :: "time option"
  il_confirmed_by :: "string option"
  il_rejection_reason :: "string option"
  il_created_at :: time
  il_updated_at :: time

text \<open>The keys are texts built from these parts; the ISO form of a time contains the only upper-case
  letter, so the texts determine the parts.\<close>

datatype transition_key =
    Candidate_Key int
  | Confirm_Key string int time
  | Reject_Key string int string time

record link_transition =
  lt_link_id :: int
  lt_from :: "link_state option"
  lt_to :: link_state
  lt_source :: string
  lt_reason :: string
  lt_key :: transition_key
  lt_confirmation_source :: "string option"
  lt_confirmed_at :: "time option"
  lt_confirmed_by :: "string option"

record evidence_row =
  ev_digisac_contact_id :: int
  ev_directory_contact_id :: int
  ev_company_id :: int
  ev_type :: evidence_type
  ev_fingerprint :: string
  ev_rule_version :: string
  ev_observed_at :: time

datatype resolution_state = Res_Confirmed | Res_Ambiguous | Res_Unresolved | Res_Conflict

record cycle_resolution =
  cr_id :: int
  cr_cycle_id :: int
  cr_contact_id :: int
  cr_state :: resolution_state
  cr_origin :: string
  cr_reason :: string
  cr_link_id :: "int option"
  cr_resolved_at :: time

datatype admin_operation = Admin_Confirm | Admin_Reject | Admin_Discovery

record admin_link_result =
  lr_contact_external_id :: string
  lr_company_external_id :: string
  lr_state :: link_state
  lr_source :: string
  lr_confirmation_source :: "string option"
  lr_confirmed_at :: "time option"
  lr_rejection_reason :: "string option"
  lr_created_at :: time
  lr_updated_at :: time

datatype discovery_state =
  Found_Confirmed | Found_Conflict | Found_Candidate | Found_Ambiguous | Found_Unresolved

record discovery_result =
  di_contact_id :: int
  di_state :: discovery_state
  di_company_ids :: "int list"
  di_link_ids :: "int list"
  di_evidence_count :: nat

record admin_discovery_result =
  dr_contact_external_id :: string
  dr_state :: discovery_state
  dr_matched_company_external_ids :: "string list"
  dr_links :: "admin_link_result list"
  dr_matched_company_count :: nat
  dr_evidence_count :: nat
  dr_observed_at :: time

datatype admin_result = Link_Result admin_link_result | Discovery_Result admin_discovery_result

record admin_command =
  ad_id :: int
  ad_key_hash :: string
  ad_operation :: admin_operation
  ad_contact_id :: int
  ad_company_id :: "int option"
  ad_request_fingerprint :: string
  ad_completed :: bool
  ad_result :: "admin_result option"

record identity_db =
  ib_links :: "identity_link list"
  ib_transitions :: "link_transition list"
  ib_evidence :: "evidence_row list"
  ib_resolutions :: "cycle_resolution list"
  ib_commands :: "admin_command list"
  ib_next_link :: int
  ib_next_resolution :: int
  ib_next_command :: int

definition empty_identity_db :: identity_db where
  "empty_identity_db =
    \<lparr>ib_links = [], ib_transitions = [], ib_evidence = [], ib_resolutions = [], ib_commands = [],
     ib_next_link = 1, ib_next_resolution = 1, ib_next_command = 1\<rparr>"

text \<open>The constraints of the links; \<open>identity_reachable_inv\<close> shows that no write can break them, so the
  operations below do not test them.  Those of the evidence can fail and are tested.\<close>

definition link_check :: "identity_link \<Rightarrow> bool" where
  "link_check l \<longleftrightarrow>
    (case il_state l of
       Link_Rejected \<Rightarrow>
         (case il_rejection_reason l of None \<Rightarrow> False
          | Some r \<Rightarrow> btrim r \<noteq> [] \<and> list_all reason_char r) \<and>
         il_confirmed_at l = None \<and> il_confirmation_source l = None
     | Link_Confirmed \<Rightarrow>
         il_rejection_reason l = None \<and> il_confirmed_at l \<noteq> None \<and>
         (il_confirmation_source l = Some MANUAL_SOURCE \<or> il_confirmation_source l = Some ADMIN_SOURCE)
     | Link_Candidate \<Rightarrow>
         il_rejection_reason l = None \<and> il_confirmed_at l = None \<and> il_confirmation_source l = None)"

definition rule_char :: "char \<Rightarrow> bool" where
  "rule_char c \<longleftrightarrow> c \<in> set (ascii_lower_letters @ ascii_digits @ ''_.:-'')"

definition hex_digit :: "char \<Rightarrow> bool" where
  "hex_digit c \<longleftrightarrow> c \<in> set (ascii_digits @ ''abcdef'')"

definition evidence_check :: "evidence_row \<Rightarrow> bool" where
  "evidence_check e \<longleftrightarrow>
    length (ev_fingerprint e) = 64 \<and> list_all hex_digit (ev_fingerprint e) \<and>
    ev_rule_version e \<noteq> [] \<and> list_all rule_char (ev_rule_version e)"

section \<open>Discovery\<close>

definition insert_transition :: "link_transition \<Rightarrow> identity_db \<Rightarrow> identity_db" where
  "insert_transition t db =
    (if lt_key t \<in> lt_key ` set (ib_transitions db) then db
     else db\<lparr>ib_transitions := ib_transitions db @ [t]\<rparr>)"

definition find_link :: "int \<Rightarrow> int \<Rightarrow> identity_db \<Rightarrow> identity_link option" where
  "find_link contact_id company_id db =
    find (\<lambda>l. il_contact_id l = contact_id \<and> il_company_id l = company_id) (ib_links db)"

definition insert_link :: "identity_link \<Rightarrow> identity_db \<Rightarrow> identity_db" where
  "insert_link l db = db\<lparr>ib_links := ib_links db @ [l], ib_next_link := ib_next_link db + 1\<rparr>"

definition candidate_link :: "time \<Rightarrow> int \<Rightarrow> int \<Rightarrow> int \<Rightarrow> identity_link" where
  "candidate_link now i contact_id company_id =
    \<lparr>il_id = i, il_contact_id = contact_id, il_company_id = company_id,
     il_state = Link_Candidate, il_source = AUTOMATIC_SOURCE, il_confirmation_source = None,
     il_confirmed_at = None, il_confirmed_by = None, il_rejection_reason = None,
     il_created_at = now, il_updated_at = now\<rparr>"

definition upsert_candidate_link :: "time \<Rightarrow> int \<Rightarrow> int \<Rightarrow> identity_db \<Rightarrow> int \<times> identity_db" where
  "upsert_candidate_link now contact_id company_id db =
    (case find_link contact_id company_id db of
       Some l \<Rightarrow> (il_id l, db)
     | None \<Rightarrow>
        (let i = ib_next_link db
         in (i, insert_transition
               \<lparr>lt_link_id = i, lt_from = None, lt_to = Link_Candidate, lt_source = AUTOMATIC_SOURCE,
                lt_reason = ''discovery'', lt_key = Candidate_Key i, lt_confirmation_source = None,
                lt_confirmed_at = None, lt_confirmed_by = None\<rparr>
               (insert_link (candidate_link now i contact_id company_id) db))))"

definition same_observation :: "evidence_row \<Rightarrow> evidence_row \<Rightarrow> bool" where
  "same_observation a b \<longleftrightarrow>
    ev_digisac_contact_id a = ev_digisac_contact_id b \<and>
    ev_directory_contact_id a = ev_directory_contact_id b \<and> ev_type a = ev_type b \<and>
    ev_fingerprint a = ev_fingerprint b \<and> ev_rule_version a = ev_rule_version b"

definition persist_evidence ::
  "int \<Rightarrow> match_evidence \<Rightarrow> string \<Rightarrow> time \<Rightarrow> identity_db \<Rightarrow> py_error + identity_db" where
  "persist_evidence contact_id evidence rule_version observed_at db =
    (let row = \<lparr>ev_digisac_contact_id = contact_id, ev_directory_contact_id = me_contact_id evidence,
           ev_company_id = me_company_id evidence, ev_type = me_type evidence,
           ev_fingerprint = me_fingerprint evidence, ev_rule_version = rule_version,
           ev_observed_at = observed_at\<rparr>
     in if \<not> evidence_check row then Inl (CheckViolation ''identity_match_evidence'')
        else if list_ex (same_observation row) (ib_evidence db)
        then Inr (db\<lparr>ib_evidence := update_where (same_observation row)
               (\<lambda>e. e\<lparr>ev_observed_at := observed_at\<rparr>) (ib_evidence db)\<rparr>)
        else Inr (db\<lparr>ib_evidence := ib_evidence db @ [row]\<rparr>))"

fun persist_matches ::
  "time \<Rightarrow> int \<Rightarrow> string \<Rightarrow> time \<Rightarrow> match_evidence list \<Rightarrow> identity_db \<Rightarrow> py_error + identity_db" where
  "persist_matches now contact_id rule_version observed_at [] db = Inr db"
| "persist_matches now contact_id rule_version observed_at (e # es) db =
    (case persist_evidence contact_id e rule_version observed_at db of
       Inl err \<Rightarrow> Inl err
     | Inr db1 \<Rightarrow>
         persist_matches now contact_id rule_version observed_at es
           (snd (upsert_candidate_link now contact_id (me_company_id e) db1)))"

definition load_directory_contacts :: "directory_db \<Rightarrow> directory_match list" where
  "load_directory_contacts dir =
    concat (map (\<lambda>c.
      map (\<lambda>k. \<lparr>dx_contact = c, dx_company_is_present = co_is_present k,
                dx_company_is_active = co_is_active k\<rparr>)
        (filter (\<lambda>k. co_id k = dk_company_id c) (dir_companies dir)))
      (filter (\<lambda>c. dk_normalized_mobile c \<noteq> None \<or> dk_normalized_email c \<noteq> None) (dir_contacts dir)))"

definition lock_contact :: "directory_db \<Rightarrow> int \<Rightarrow> py_error + digisac_contact" where
  "lock_contact dir contact_id =
    (case lookup_by dc_id contact_id (dir_digisac_contacts dir) of
       None \<Rightarrow> Inl (LookupError ''DigiSac contact not found'')
     | Some c \<Rightarrow> Inr c)"

definition match_input_of :: "digisac_contact \<Rightarrow> match_input" where
  "match_input_of c =
    \<lparr>mi_contact_id = dc_id c, mi_normalized_number = dc_normalized_number c,
     mi_normalized_email = dc_normalized_email c, mi_is_group = dc_is_group c\<rparr>"

definition current_links :: "int \<Rightarrow> identity_db \<Rightarrow> identity_link list" where
  "current_links contact_id db = sort_key il_id (filter (\<lambda>l. il_contact_id l = contact_id) (ib_links db))"

definition discovery_outcome :: "int \<Rightarrow> match_evidence list \<Rightarrow> identity_db \<Rightarrow> discovery_result" where
  "discovery_outcome contact_id matches db =
    (let company_ids = sort (remdups (map me_company_id matches));
         links = current_links contact_id db;
         confirmed = filter (\<lambda>l. il_state l = Link_Confirmed) links
     in case confirmed of
          [l] \<Rightarrow> \<lparr>di_contact_id = contact_id, di_state = Found_Confirmed,
                  di_company_ids = [il_company_id l], di_link_ids = [il_id l],
                  di_evidence_count = length matches\<rparr>
        | _ \<Rightarrow>
            \<lparr>di_contact_id = contact_id,
             di_state =
               (if confirmed \<noteq> [] then Found_Conflict
                else if length company_ids = 1 then Found_Candidate
                else if 1 < length company_ids then Found_Ambiguous
                else Found_Unresolved),
             di_company_ids = company_ids,
             di_link_ids = map il_id (filter (\<lambda>l. il_company_id l \<in> set company_ids) links),
             di_evidence_count = length matches\<rparr>)"

definition discover_locked ::
  "(string \<Rightarrow> string) \<Rightarrow> time \<Rightarrow> directory_db \<Rightarrow> int \<Rightarrow> string \<Rightarrow> time \<Rightarrow> identity_db \<Rightarrow>
   py_error + (discovery_result \<times> identity_db)" where
  "discover_locked sha now dir contact_id rule_version observed_at db =
    (case lock_contact dir contact_id of
       Inl e \<Rightarrow> Inl e
     | Inr contact \<Rightarrow>
        (let matches = match_identity sha (match_input_of contact) (load_directory_contacts dir)
         in case persist_matches now contact_id rule_version observed_at matches db of
              Inl e \<Rightarrow> Inl e
            | Inr db' \<Rightarrow> Inr (discovery_outcome contact_id matches db', db')))"

definition discover_identity ::
  "(string \<Rightarrow> string) \<Rightarrow> time \<Rightarrow> directory_db \<Rightarrow> int \<Rightarrow> string \<Rightarrow> time \<Rightarrow> identity_db \<Rightarrow>
   (py_error + discovery_result) \<times> identity_db" where
  "discover_identity sha now dir contact_id rule_version observed_at db =
    (case safe_value rule_version of
       Inl e \<Rightarrow> (Inl e, db)
     | Inr rule \<Rightarrow> transaction db (discover_locked sha now dir contact_id rule observed_at db))"

record batch_result =
  br_processed :: nat
  br_candidate :: nat
  br_ambiguous :: nat
  br_unresolved :: nat
  br_confirmed :: nat
  br_failed :: nat

definition count_discovery :: "(py_error + discovery_result) \<Rightarrow> batch_result \<Rightarrow> batch_result" where
  "count_discovery res b =
    (case res of
       Inl e \<Rightarrow> b\<lparr>br_failed := br_failed b + 1\<rparr>
     | Inr d \<Rightarrow>
        (let b' = b\<lparr>br_processed := br_processed b + 1\<rparr>
         in case di_state d of
              Found_Candidate \<Rightarrow> b'\<lparr>br_candidate := br_candidate b + 1\<rparr>
            | Found_Ambiguous \<Rightarrow> b'\<lparr>br_ambiguous := br_ambiguous b + 1\<rparr>
            | Found_Unresolved \<Rightarrow> b'\<lparr>br_unresolved := br_unresolved b + 1\<rparr>
            | Found_Confirmed \<Rightarrow> b'\<lparr>br_confirmed := br_confirmed b + 1\<rparr>
            | Found_Conflict \<Rightarrow> b'))"

text \<open>\<open>now i\<close> is the database clock of the transaction of contact \<open>i\<close>.\<close>

fun discover_contacts ::
  "(string \<Rightarrow> string) \<Rightarrow> (int \<Rightarrow> time) \<Rightarrow> directory_db \<Rightarrow> string \<Rightarrow> time \<Rightarrow> int list \<Rightarrow> batch_result \<Rightarrow> identity_db \<Rightarrow>
   batch_result \<times> identity_db" where
  "discover_contacts sha now dir rule observed_at [] b db = (b, db)"
| "discover_contacts sha now dir rule observed_at (i # is) b db =
    (case transaction db (discover_locked sha (now i) dir i rule observed_at db) of
       (res, db') \<Rightarrow> discover_contacts sha now dir rule observed_at is (count_discovery res b) db')"

definition discover_all_identities ::
  "(string \<Rightarrow> string) \<Rightarrow> (int \<Rightarrow> time) \<Rightarrow> directory_db \<Rightarrow> string \<Rightarrow> time \<Rightarrow> identity_db \<Rightarrow>
   (py_error + batch_result) \<times> identity_db" where
  "discover_all_identities sha now dir rule_version observed_at db =
    (case safe_value rule_version of
       Inl e \<Rightarrow> (Inl e, db)
     | Inr rule \<Rightarrow>
        (case discover_contacts sha now dir rule observed_at
           (sort (map dc_id (dir_digisac_contacts dir)))
           \<lparr>br_processed = 0, br_candidate = 0, br_ambiguous = 0, br_unresolved = 0,
            br_confirmed = 0, br_failed = 0\<rparr> db of
           (b, db') \<Rightarrow> (Inr b, db')))"

section \<open>The identity of a cycle\<close>

definition resolution_reason :: "resolution_state \<Rightarrow> nat \<Rightarrow> bool option \<Rightarrow> string" where
  "resolution_reason state company_count is_group =
    (if state = Res_Confirmed then ''confirmed_link''
     else if state = Res_Conflict then ''multiple_confirmed_links''
     else if state = Res_Ambiguous then ''multiple_candidate_companies''
     else if is_group \<noteq> Some False then ''group_contact''
     else if company_count = 1 then ''candidate_pending_confirmation''
     else ''no_candidate'')"

definition resolution_of :: "discovery_state \<Rightarrow> resolution_state" where
  "resolution_of d =
    (case d of
       Found_Confirmed \<Rightarrow> Res_Confirmed
     | Found_Conflict \<Rightarrow> Res_Conflict
     | Found_Ambiguous \<Rightarrow> Res_Ambiguous
     | Found_Candidate \<Rightarrow> Res_Unresolved
     | Found_Unresolved \<Rightarrow> Res_Unresolved)"

definition resolve_cycle_tx ::
  "(string \<Rightarrow> string) \<Rightarrow> time \<Rightarrow> directory_db \<Rightarrow> cycle \<Rightarrow> int \<Rightarrow> string \<Rightarrow> time \<Rightarrow> identity_db \<Rightarrow>
   py_error + (cycle_resolution \<times> identity_db)" where
  "resolve_cycle_tx sha now dir cycle contact_id rule timestamp db =
    (case lookup_by cr_cycle_id (cy_id cycle) (ib_resolutions db) of
       Some existing \<Rightarrow> Inr (existing, db)
     | None \<Rightarrow>
        (case discover_locked sha now dir contact_id rule timestamp db of
           Inl e \<Rightarrow> Inl e
         | Inr (discovery, db1) \<Rightarrow>
            (case lookup_by dc_id contact_id (dir_digisac_contacts dir) of
               None \<Rightarrow> Inl (LookupError ''DigiSac contact not found'')
             | Some contact \<Rightarrow>
                (let state = resolution_of (di_state discovery);
                     row = \<lparr>cr_id = ib_next_resolution db1, cr_cycle_id = cy_id cycle,
                       cr_contact_id = contact_id, cr_state = state, cr_origin = AUTOMATIC_SOURCE,
                       cr_reason = resolution_reason state (length (di_company_ids discovery))
                         (dc_is_group contact),
                       cr_link_id = (if state = Res_Confirmed then Some (hd (di_link_ids discovery)) else None),
                       cr_resolved_at = timestamp\<rparr>
                 in Inr (row, db1\<lparr>ib_resolutions := ib_resolutions db1 @ [row],
                                  ib_next_resolution := ib_next_resolution db1 + 1\<rparr>)))))"

definition resolve_cycle_identity ::
  "(string \<Rightarrow> string) \<Rightarrow> time \<Rightarrow> directory_db \<Rightarrow> cycle list \<Rightarrow> string \<Rightarrow> int \<Rightarrow> string \<Rightarrow> time \<Rightarrow>
   identity_db \<Rightarrow> (py_error + cycle_resolution) \<times> identity_db" where
  "resolve_cycle_identity sha now dir cycle_rows cycle_public_id contact_id rule_version timestamp db =
    (case safe_value rule_version of
       Inl e \<Rightarrow> (Inl e, db)
     | Inr rule \<Rightarrow>
        (case lookup_by cy_public_id cycle_public_id cycle_rows of
           None \<Rightarrow> (Inl (LookupError ''conversation cycle not found''), db)
         | Some cycle \<Rightarrow>
            transaction db (resolve_cycle_tx sha now dir cycle contact_id rule timestamp db)))"

definition get_cycle_identity_resolution ::
  "cycle list \<Rightarrow> string \<Rightarrow> identity_db \<Rightarrow> cycle_resolution option" where
  "get_cycle_identity_resolution cycle_rows cycle_public_id db =
    (case lookup_by cy_public_id cycle_public_id cycle_rows of
       None \<Rightarrow> None
     | Some cycle \<Rightarrow> lookup_by cr_cycle_id (cy_id cycle) (ib_resolutions db))"

definition list_identity_evidence :: "int \<Rightarrow> identity_db \<Rightarrow> evidence_row list" where
  "list_identity_evidence contact_id db =
    filter (\<lambda>e. ev_digisac_contact_id e = contact_id) (ib_evidence db)"

section \<open>Confirmation and rejection\<close>

definition confirm_transition ::
  "identity_link \<Rightarrow> link_state option \<Rightarrow> string \<Rightarrow> string \<Rightarrow> string \<Rightarrow> time \<Rightarrow> string option \<Rightarrow> link_transition" where
  "confirm_transition l from_state source confirmation_source reason confirmed_at confirmed_by =
    \<lparr>lt_link_id = il_id l, lt_from = from_state, lt_to = Link_Confirmed, lt_source = source,
     lt_reason = reason, lt_key = Confirm_Key source (il_id l) confirmed_at,
     lt_confirmation_source = Some confirmation_source, lt_confirmed_at = Some confirmed_at,
     lt_confirmed_by = confirmed_by\<rparr>"

definition confirmed_link ::
  "time \<Rightarrow> string \<Rightarrow> string \<Rightarrow> time \<Rightarrow> string option \<Rightarrow> identity_link \<Rightarrow> identity_link" where
  "confirmed_link now source confirmation_source confirmed_at confirmed_by l =
    l\<lparr>il_state := Link_Confirmed, il_source := source,
      il_confirmation_source := Some confirmation_source, il_confirmed_at := Some confirmed_at,
      il_confirmed_by := confirmed_by, il_rejection_reason := None, il_updated_at := now\<rparr>"

definition update_link :: "int \<Rightarrow> (identity_link \<Rightarrow> identity_link) \<Rightarrow> identity_db \<Rightarrow> identity_db" where
  "update_link i f db = db\<lparr>ib_links := update_where (\<lambda>l. il_id l = i) f (ib_links db)\<rparr>"

definition confirm_identity_link_locked ::
  "time \<Rightarrow> directory_db \<Rightarrow> int \<Rightarrow> int \<Rightarrow> time \<Rightarrow> string option \<Rightarrow> string \<Rightarrow> string \<Rightarrow> string \<Rightarrow> identity_db \<Rightarrow>
   py_error + (identity_link \<times> identity_db)" where
  "confirm_identity_link_locked now dir contact_id company_id confirmed_at confirmed_by source
      confirmation_source transition_reason db =
    (case lock_contact dir contact_id of
       Inl e \<Rightarrow> Inl e
     | Inr _ \<Rightarrow>
        (case lookup_by co_id company_id (dir_companies dir) of
           None \<Rightarrow> Inl (LookupError ''Acessorias company not found'')
         | Some company \<Rightarrow>
            (if \<not> co_is_present company \<or> co_is_active company = Some False
             then Inl (IdentityResolutionError ''directory_company_unavailable''
               ''Acessorias company is not currently available'')
             else if list_ex (\<lambda>l. il_contact_id l = contact_id \<and> il_state l = Link_Confirmed \<and>
               il_company_id l \<noteq> company_id) (ib_links db)
             then Inl (IdentityResolutionError ''conflicting_confirmation''
               ''a different company is already confirmed for this contact'')
             else case find_link contact_id company_id db of
               None \<Rightarrow>
                 (let l = confirmed_link now source confirmation_source confirmed_at confirmed_by
                        (candidate_link now (ib_next_link db) contact_id company_id)
                  in Inr (l, insert_transition
                       (confirm_transition l None source confirmation_source transition_reason
                         confirmed_at confirmed_by) (insert_link l db)))
             | Some existing \<Rightarrow>
                 (if il_state existing = Link_Confirmed then Inr (existing, db)
                  else
                    (let f = confirmed_link now source confirmation_source confirmed_at confirmed_by
                     in Inr (f existing, insert_transition
                          (confirm_transition existing (Some (il_state existing)) source
                            confirmation_source transition_reason confirmed_at confirmed_by)
                          (update_link (il_id existing) f db)))))))"

definition confirm_actor :: "string option \<Rightarrow> py_error + string option" where
  "confirm_actor confirmed_by =
    (case confirmed_by of
       None \<Rightarrow> Inr None
     | Some v \<Rightarrow> (case safe_value v of Inl e \<Rightarrow> Inl e | Inr s \<Rightarrow> Inr (Some s)))"

definition confirm_identity_link ::
  "time \<Rightarrow> directory_db \<Rightarrow> int \<Rightarrow> int \<Rightarrow> time option \<Rightarrow> string option \<Rightarrow> identity_db \<Rightarrow>
   (py_error + identity_link) \<times> identity_db" where
  "confirm_identity_link now dir contact_id company_id confirmed_at confirmed_by db =
    (case confirmed_at of
       None \<Rightarrow> (Inl (ValueError ''confirmed_at is required for manual confirmation''), db)
     | Some t \<Rightarrow>
        (case confirm_actor confirmed_by of
           Inl e \<Rightarrow> (Inl e, db)
         | Inr actor \<Rightarrow>
            transaction db (confirm_identity_link_locked now dir contact_id company_id t actor
              MANUAL_SOURCE MANUAL_SOURCE ''manual_confirmation'' db)))"

definition confirm_identity_by_external_ids ::
  "time \<Rightarrow> directory_db \<Rightarrow> string \<Rightarrow> string \<Rightarrow> time option \<Rightarrow> string option \<Rightarrow> identity_db \<Rightarrow>
   (py_error + identity_link) \<times> identity_db" where
  "confirm_identity_by_external_ids now dir contact_external_id company_external_id confirmed_at
      confirmed_by db =
    (case confirmed_at of
       None \<Rightarrow> (Inl (ValueError ''confirmed_at is required for manual confirmation''), db)
     | Some t \<Rightarrow>
        (case confirm_actor confirmed_by of
           Inl e \<Rightarrow> (Inl e, db)
         | Inr actor \<Rightarrow>
            (case (lookup_by dc_external_id contact_external_id (dir_digisac_contacts dir),
                   lookup_by co_external_id company_external_id (dir_companies dir)) of
               (Some contact, Some company) \<Rightarrow>
                 transaction db (confirm_identity_link_locked now dir (dc_id contact) (co_id company) t
                   actor MANUAL_SOURCE MANUAL_SOURCE ''manual_confirmation'' db)
             | _ \<Rightarrow> (Inl (LookupError ''identity confirmation records not found''), db))))"

definition rejected_link :: "time \<Rightarrow> string \<Rightarrow> string \<Rightarrow> identity_link \<Rightarrow> identity_link" where
  "rejected_link now source reason l =
    l\<lparr>il_state := Link_Rejected, il_source := source, il_confirmation_source := None,
      il_confirmed_at := None, il_confirmed_by := None, il_rejection_reason := Some reason,
      il_updated_at := now\<rparr>"

definition reject_identity_link_locked ::
  "time \<Rightarrow> directory_db \<Rightarrow> int \<Rightarrow> int \<Rightarrow> string \<Rightarrow> string \<Rightarrow> string option \<Rightarrow> bool \<Rightarrow> identity_db \<Rightarrow>
   py_error + (identity_link \<times> identity_db)" where
  "reject_identity_link_locked now dir contact_id company_id reason source actor
      append_same_state_transition db =
    (case lock_contact dir contact_id of
       Inl e \<Rightarrow> Inl e
     | Inr _ \<Rightarrow>
        (case find_link contact_id company_id db of
           None \<Rightarrow> Inl (LookupError ''identity link not found'')
         | Some existing \<Rightarrow>
            (if \<not> append_same_state_transition \<and> il_state existing = Link_Rejected \<and>
               il_rejection_reason existing = Some reason
             then Inr (existing, db)
             else
               (let f = rejected_link now source reason
                in Inr (f existing, insert_transition
                     \<lparr>lt_link_id = il_id existing, lt_from = Some (il_state existing),
                      lt_to = Link_Rejected, lt_source = source, lt_reason = reason,
                      lt_key = Reject_Key source (il_id existing) reason now,
                      lt_confirmation_source = None, lt_confirmed_at = None, lt_confirmed_by = actor\<rparr>
                     (update_link (il_id existing) f db))))))"

definition reject_identity_link ::
  "time \<Rightarrow> directory_db \<Rightarrow> int \<Rightarrow> int \<Rightarrow> string \<Rightarrow> identity_db \<Rightarrow> (py_error + identity_link) \<times> identity_db" where
  "reject_identity_link now dir contact_id company_id reason db =
    (case safe_reason_value reason of
       Inl e \<Rightarrow> (Inl e, db)
     | Inr r \<Rightarrow>
        transaction db (reject_identity_link_locked now dir contact_id company_id r MANUAL_SOURCE None
          False db))"

section \<open>Administrative commands\<close>

text \<open>\<open>command_print\<close> stands for the SHA-256 of the canonical JSON of the operation, the two external
  ids and the reason.\<close>

definition admin_command_replay :: "string \<Rightarrow> admin_command \<Rightarrow> py_error + admin_result" where
  "admin_command_replay request_fingerprint command =
    (let conflict = Inl (IdentityResolutionError ''incompatible_command''
           ''the administrative command key was already used for another command'')
     in if ad_request_fingerprint command \<noteq> request_fingerprint then conflict
        else if \<not> ad_completed command then conflict
        else case ad_result command of None \<Rightarrow> conflict | Some r \<Rightarrow> Inr r)"

definition admin_link_result_of :: "string \<Rightarrow> string \<Rightarrow> identity_link \<Rightarrow> admin_link_result" where
  "admin_link_result_of contact_external_id company_external_id l =
    \<lparr>lr_contact_external_id = contact_external_id, lr_company_external_id = company_external_id,
     lr_state = il_state l, lr_source = il_source l,
     lr_confirmation_source = il_confirmation_source l, lr_confirmed_at = il_confirmed_at l,
     lr_rejection_reason = il_rejection_reason l, lr_created_at = il_created_at l,
     lr_updated_at = il_updated_at l\<rparr>"

definition admin_discovery_result_of ::
  "directory_db \<Rightarrow> string \<Rightarrow> discovery_result \<Rightarrow> time \<Rightarrow> identity_db \<Rightarrow> admin_discovery_result" where
  "admin_discovery_result_of dir contact_external_id discovery observed_at db =
    (let company_rows = sort_key (\<lambda>k. (co_external_id k, co_id k))
           (filter (\<lambda>k. co_id k \<in> set (di_company_ids discovery)) (dir_companies dir));
         joined = concat (map (\<lambda>l. map (\<lambda>k. (k, l))
             (filter (\<lambda>k. co_id k = il_company_id l) (dir_companies dir)))
           (filter (\<lambda>l. il_id l \<in> set (di_link_ids discovery)) (ib_links db)))
     in \<lparr>dr_contact_external_id = contact_external_id, dr_state = di_state discovery,
         dr_matched_company_external_ids = map co_external_id company_rows,
         dr_links = map (\<lambda>(k, l). admin_link_result_of contact_external_id (co_external_id k) l)
           (sort_key (\<lambda>(k, l). (co_external_id k, il_id l)) joined),
         dr_matched_company_count = length (di_company_ids discovery),
         dr_evidence_count = di_evidence_count discovery, dr_observed_at = observed_at\<rparr>)"

definition run_admin_operation ::
  "(string \<Rightarrow> string) \<Rightarrow> time \<Rightarrow> time \<Rightarrow> directory_db \<Rightarrow> admin_operation \<Rightarrow> string \<Rightarrow> int \<Rightarrow>
   (string \<times> int) option \<Rightarrow> string \<Rightarrow> identity_db \<Rightarrow> py_error + (admin_result \<times> identity_db)" where
  "run_admin_operation sha now py_now dir operation contact_external_id contact_id company reason db =
    (case (operation, company) of
       (Admin_Discovery, _) \<Rightarrow>
         (case discover_locked sha now dir contact_id DEFAULT_RULE_VERSION py_now db of
            Inl e \<Rightarrow> Inl e
          | Inr (d, db') \<Rightarrow>
              Inr (Discovery_Result (admin_discovery_result_of dir contact_external_id d py_now db'), db'))
     | (Admin_Confirm, Some (company_external_id, company_id)) \<Rightarrow>
         (case confirm_identity_link_locked now dir contact_id company_id py_now (Some ''admin'')
             ADMIN_SOURCE ADMIN_SOURCE reason db of
            Inl e \<Rightarrow> Inl e
          | Inr (l, db') \<Rightarrow>
              Inr (Link_Result (admin_link_result_of contact_external_id company_external_id l), db'))
     | (Admin_Reject, Some (company_external_id, company_id)) \<Rightarrow>
         (case reject_identity_link_locked now dir contact_id company_id reason ADMIN_SOURCE
             (Some ''admin'') True db of
            Inl e \<Rightarrow> Inl e
          | Inr (l, db') \<Rightarrow>
              Inr (Link_Result (admin_link_result_of contact_external_id company_external_id l), db'))
     | (_, None) \<Rightarrow> Inl (RuntimeError ''identity link command requires a company''))"

text \<open>The company of a command: \<open>None\<close> for a discovery, otherwise it must exist.\<close>

definition command_company ::
  "directory_db \<Rightarrow> string option \<Rightarrow> py_error + (string \<times> int) option" where
  "command_company dir company_external_id =
    (case company_external_id of
       None \<Rightarrow> Inr None
     | Some e \<Rightarrow>
        (case lookup_by co_external_id e (dir_companies dir) of
           None \<Rightarrow> Inl (LookupError ''Acessorias company not found'')
         | Some k \<Rightarrow> Inr (Some (e, co_id k))))"

definition new_command ::
  "string \<Rightarrow> admin_operation \<Rightarrow> int \<Rightarrow> int option \<Rightarrow> string \<Rightarrow> identity_db \<Rightarrow> admin_command" where
  "new_command key_hash operation contact_id company_id request_fingerprint db =
    \<lparr>ad_id = ib_next_command db, ad_key_hash = key_hash, ad_operation = operation,
     ad_contact_id = contact_id, ad_company_id = company_id,
     ad_request_fingerprint = request_fingerprint, ad_completed = False, ad_result = None\<rparr>"

definition admin_command_tx ::
  "(string \<Rightarrow> string) \<Rightarrow> time \<Rightarrow> time \<Rightarrow> directory_db \<Rightarrow> admin_operation \<Rightarrow> string \<Rightarrow> string option \<Rightarrow>
   string \<Rightarrow> string \<Rightarrow> string \<Rightarrow> identity_db \<Rightarrow> py_error + ((bool \<times> admin_result) \<times> identity_db)" where
  "admin_command_tx sha now py_now dir operation contact_external_id company_external_id reason
      key_hash request_fingerprint db =
    (case lookup_by ad_key_hash key_hash (ib_commands db) of
       Some command \<Rightarrow>
         (case admin_command_replay request_fingerprint command of
            Inl e \<Rightarrow> Inl e
          | Inr r \<Rightarrow> Inr ((True, r), db))
     | None \<Rightarrow>
        (case lookup_by dc_external_id contact_external_id (dir_digisac_contacts dir) of
           None \<Rightarrow> Inl (LookupError ''DigiSac contact not found'')
         | Some contact \<Rightarrow>
            (case command_company dir company_external_id of
               Inl e \<Rightarrow> Inl e
             | Inr company \<Rightarrow>
                (if operation \<noteq> Admin_Discovery \<and> company = None
                 then Inl (RuntimeError ''identity link command requires a company'')
                 else
                   (let command = new_command key_hash operation (dc_id contact)
                          (map_option snd company) request_fingerprint db;
                        db1 = db\<lparr>ib_commands := ib_commands db @ [command],
                                ib_next_command := ib_next_command db + 1\<rparr>
                    in case run_admin_operation sha now py_now dir operation contact_external_id
                         (dc_id contact) company reason db1 of
                         Inl e \<Rightarrow> Inl e
                       | Inr (r, db2) \<Rightarrow>
                           Inr ((False, r),
                             db2\<lparr>ib_commands := update_where (\<lambda>c. ad_id c = ad_id command)
                               (\<lambda>c. c\<lparr>ad_completed := True, ad_result := Some r\<rparr>)
                               (ib_commands db2)\<rparr>))))))"

definition opt_safe_reference :: "string option \<Rightarrow> py_error + string option" where
  "opt_safe_reference x =
    (case x of None \<Rightarrow> Inr None
     | Some v \<Rightarrow> (case safe_opaque_reference v of Inl e \<Rightarrow> Inl e | Inr s \<Rightarrow> Inr (Some s)))"

definition execute_admin_identity_link_command ::
  "(string \<Rightarrow> string) \<Rightarrow> (admin_operation \<Rightarrow> string \<Rightarrow> string option \<Rightarrow> string \<Rightarrow> string) \<Rightarrow> time \<Rightarrow> time \<Rightarrow>
   directory_db \<Rightarrow> admin_operation \<Rightarrow> string \<Rightarrow> string option \<Rightarrow> string \<Rightarrow> string \<Rightarrow> identity_db \<Rightarrow>
   (py_error + bool \<times> admin_result) \<times> identity_db" where
  "execute_admin_identity_link_command sha command_print now py_now dir operation contact_external_id
      company_external_id reason idempotency_key db =
    (case (safe_opaque_reference contact_external_id, opt_safe_reference company_external_id,
           if operation = Admin_Discovery then Inr [] else safe_reason_value reason,
           safe_opaque_reference idempotency_key) of
       (Inl e, _, _, _) \<Rightarrow> (Inl e, db)
     | (_, Inl e, _, _) \<Rightarrow> (Inl e, db)
     | (_, _, Inl e, _) \<Rightarrow> (Inl e, db)
     | (_, _, _, Inl e) \<Rightarrow> (Inl e, db)
     | (Inr contact, Inr company, Inr r, Inr key) \<Rightarrow>
         transaction db (admin_command_tx sha now py_now dir operation contact company r (sha key)
           (command_print operation contact company r) db))"

definition confirm_identity_link_admin where
  "confirm_identity_link_admin sha command_print now py_now dir contact company =
    execute_admin_identity_link_command sha command_print now py_now dir Admin_Confirm contact (Some company)"

definition reject_identity_link_admin where
  "reject_identity_link_admin sha command_print now py_now dir contact company =
    execute_admin_identity_link_command sha command_print now py_now dir Admin_Reject contact (Some company)"

definition discover_identity_admin where
  "discover_identity_admin sha command_print now py_now dir contact =
    execute_admin_identity_link_command sha command_print now py_now dir Admin_Discovery contact None []"

end
