(* ===== verification/Identity_Correctness.thy ===== *)
theory Identity_Correctness
  imports Identity_Resolution
begin

text \<open>
  Correctness of identity resolution: what each transaction does to the link table as a step
  relation, the invariant of the reachable tables (one confirmed company per contact, the table
  constraints), the immutable outcome of a cycle, the idempotence of administrative commands and
  the exact form of the Brazilian mobile variant.
\<close>

section \<open>Steps of the link table\<close>

definition competing :: "int \<Rightarrow> int \<Rightarrow> identity_db \<Rightarrow> bool" where
  "competing contact_id company_id db \<longleftrightarrow>
    list_ex (\<lambda>l. il_contact_id l = contact_id \<and> il_state l = Link_Confirmed \<and>
      il_company_id l \<noteq> company_id) (ib_links db)"

inductive links_step :: "bool \<Rightarrow> identity_db \<Rightarrow> identity_db \<Rightarrow> bool" where
  links_same: "ib_links db' = ib_links db \<Longrightarrow> ib_next_link db' = ib_next_link db \<Longrightarrow> links_step manual db db'"
| links_candidate: "find_link contact company db = None \<Longrightarrow>
    ib_links db' = ib_links db @ [candidate_link now (ib_next_link db) contact company] \<Longrightarrow>
    ib_next_link db' = ib_next_link db + 1 \<Longrightarrow> links_step manual db db'"
| links_confirm_new: "find_link contact company db = None \<Longrightarrow> \<not> competing contact company db \<Longrightarrow>
    source = MANUAL_SOURCE \<or> source = ADMIN_SOURCE \<Longrightarrow>
    ib_links db' = ib_links db @ [confirmed_link now source source t actor
      (candidate_link now (ib_next_link db) contact company)] \<Longrightarrow>
    ib_next_link db' = ib_next_link db + 1 \<Longrightarrow> links_step True db db'"
| links_confirm: "l \<in> set (ib_links db) \<Longrightarrow> \<not> competing (il_contact_id l) (il_company_id l) db \<Longrightarrow>
    source = MANUAL_SOURCE \<or> source = ADMIN_SOURCE \<Longrightarrow>
    ib_links db' = update_where (\<lambda>x. il_id x = il_id l) (confirmed_link now source source t actor) (ib_links db) \<Longrightarrow>
    ib_next_link db' = ib_next_link db \<Longrightarrow> links_step True db db'"
| links_reject: "l \<in> set (ib_links db) \<Longrightarrow> btrim reason \<noteq> [] \<Longrightarrow> list_all reason_char reason \<Longrightarrow>
    ib_links db' = update_where (\<lambda>x. il_id x = il_id l) (rejected_link now source reason) (ib_links db) \<Longrightarrow>
    ib_next_link db' = ib_next_link db \<Longrightarrow> links_step True db db'"

inductive_cases links_stepE: "links_step manual db db'"

definition one_confirmed :: "identity_link list \<Rightarrow> bool" where
  "one_confirmed ls \<longleftrightarrow>
    (\<forall>l \<in> set ls. \<forall>m \<in> set ls. il_state l = Link_Confirmed \<and> il_state m = Link_Confirmed \<and>
      il_contact_id l = il_contact_id m \<longrightarrow> il_id l = il_id m)"

definition links_inv :: "identity_db \<Rightarrow> bool" where
  "links_inv db \<longleftrightarrow>
    distinct (map il_id (ib_links db)) \<and> (\<forall>l \<in> set (ib_links db). il_id l < ib_next_link db) \<and>
    distinct (map (\<lambda>l. (il_contact_id l, il_company_id l)) (ib_links db)) \<and>
    list_all link_check (ib_links db) \<and> one_confirmed (ib_links db)"

lemma link_simps [simp]:
  "il_id (candidate_link now i c k) = i" "il_contact_id (candidate_link now i c k) = c"
  "il_company_id (candidate_link now i c k) = k" "il_state (candidate_link now i c k) = Link_Candidate"
  "il_id (confirmed_link now s cs t a l) = il_id l"
  "il_contact_id (confirmed_link now s cs t a l) = il_contact_id l"
  "il_company_id (confirmed_link now s cs t a l) = il_company_id l"
  "il_state (confirmed_link now s cs t a l) = Link_Confirmed"
  "il_id (rejected_link now s r l) = il_id l" "il_contact_id (rejected_link now s r l) = il_contact_id l"
  "il_company_id (rejected_link now s r l) = il_company_id l"
  "il_state (rejected_link now s r l) = Link_Rejected"
  by (simp_all add: candidate_link_def confirmed_link_def rejected_link_def)

lemma link_checks:
  "link_check (candidate_link now i c k)"
  "source = MANUAL_SOURCE \<or> source = ADMIN_SOURCE \<Longrightarrow> link_check (confirmed_link now source source t a l)"
  "btrim r \<noteq> [] \<Longrightarrow> list_all reason_char r \<Longrightarrow> link_check (rejected_link now s r l)"
  by (auto simp: link_check_def candidate_link_def confirmed_link_def rejected_link_def)

lemma find_link_None:
  "find_link c k db = None \<longleftrightarrow> (c, k) \<notin> (\<lambda>l. (il_contact_id l, il_company_id l)) ` set (ib_links db)"
  by (auto simp: find_link_def find_None_iff)

lemma find_link_Some:
  "find_link c k db = Some l \<Longrightarrow> l \<in> set (ib_links db) \<and> il_contact_id l = c \<and> il_company_id l = k"
  unfolding find_link_def by (drule find_Some_member) simp

lemma one_confirmedD:
  "one_confirmed ls \<Longrightarrow> l \<in> set ls \<Longrightarrow> m \<in> set ls \<Longrightarrow> il_state l = Link_Confirmed \<Longrightarrow>
    il_state m = Link_Confirmed \<Longrightarrow> il_contact_id l = il_contact_id m \<Longrightarrow> il_id l = il_id m"
  unfolding one_confirmed_def by blast

lemma one_confirmedI:
  assumes "\<And>l m. l \<in> set ls \<Longrightarrow> m \<in> set ls \<Longrightarrow> il_state l = Link_Confirmed \<Longrightarrow>
    il_state m = Link_Confirmed \<Longrightarrow> il_contact_id l = il_contact_id m \<Longrightarrow> il_id l = il_id m"
  shows "one_confirmed ls"
  unfolding one_confirmed_def using assms by blast

lemma one_confirmed_append:
  assumes "one_confirmed ls" and "il_state l = Link_Confirmed \<Longrightarrow>
    \<forall>m \<in> set ls. il_state m = Link_Confirmed \<longrightarrow> il_contact_id m \<noteq> il_contact_id l"
  shows "one_confirmed (ls @ [l])"
proof (rule one_confirmedI)
  fix x y assume h: "x \<in> set (ls @ [l])" "y \<in> set (ls @ [l])" "il_state x = Link_Confirmed"
    "il_state y = Link_Confirmed" "il_contact_id x = il_contact_id y"
  then consider "x \<in> set ls" "y \<in> set ls" | "x = l" "y = l" | "x = l" "y \<in> set ls" | "y = l" "x \<in> set ls"
    by auto
  then show "il_id x = il_id y"
  proof cases
    case 1 then show ?thesis using one_confirmedD[OF assms(1)] h by blast
  next
    case 3 then show ?thesis using assms(2) h by metis
  next
    case 4 then show ?thesis using assms(2) h by metis
  qed simp
qed

lemma one_confirmed_reject:
  assumes "one_confirmed ls"
  shows "one_confirmed (update_where P (rejected_link now s r) ls)"
proof (rule one_confirmedI)
  have old: "z \<in> set ls" if z: "z \<in> set (update_where P (rejected_link now s r) ls)" "il_state z = Link_Confirmed" for z
    using z(1) by (rule update_whereE) (use z(2) in auto)
  fix x y assume "x \<in> set (update_where P (rejected_link now s r) ls)"
    "y \<in> set (update_where P (rejected_link now s r) ls)" "il_state x = Link_Confirmed"
    "il_state y = Link_Confirmed" "il_contact_id x = il_contact_id y"
  then show "il_id x = il_id y" using one_confirmedD[OF assms] old by blast
qed

lemma one_confirmed_confirm:
  assumes "one_confirmed ls" and "distinct (map il_id ls)" and "l \<in> set ls"
    and "\<forall>m \<in> set ls. il_state m = Link_Confirmed \<and> il_contact_id m = il_contact_id l \<longrightarrow> m = l"
  shows "one_confirmed (update_where (\<lambda>x. il_id x = il_id l) (confirmed_link now s cs t a) ls)"
proof (rule one_confirmedI)
  let ?u = "update_where (\<lambda>x. il_id x = il_id l) (confirmed_link now s cs t a) ls"
  have eq: "x = l" if "x \<in> set ls" "il_id x = il_id l" for x
    using distinct_key_eq[OF assms(2) that(1) assms(3) that(2)] .
  have old: "z = confirmed_link now s cs t a l \<or> z \<in> set ls \<and> z \<noteq> l" if z: "z \<in> set ?u" for z
  proof -
    obtain r where r: "r \<in> set ls" "z = (if il_id r = il_id l then confirmed_link now s cs t a r else r)"
      using z by (rule update_whereE)
    show ?thesis
    proof (cases "il_id r = il_id l")
      case True
      then have "r = l" by (rule eq[OF r(1)])
      then show ?thesis using r(2) by simp
    next
      case False
      then have "z = r" "r \<noteq> l" using r(2) by auto
      then show ?thesis using r(1) by simp
    qed
  qed
  fix x y assume h: "x \<in> set ?u" "y \<in> set ?u" "il_state x = Link_Confirmed"
    "il_state y = Link_Confirmed" "il_contact_id x = il_contact_id y"
  consider "x = y" | "x \<in> set ls" "y \<in> set ls"
    | "x = confirmed_link now s cs t a l" "y \<in> set ls" "y \<noteq> l"
    | "y = confirmed_link now s cs t a l" "x \<in> set ls" "x \<noteq> l"
    using old[OF h(1)] old[OF h(2)] by metis
  then show "il_id x = il_id y"
  proof cases
    case 2 then show ?thesis using one_confirmedD[OF assms(1)] h by blast
  next
    case 3
    have "il_contact_id y = il_contact_id l" using h(5) 3(1) by simp
    then show ?thesis using assms(4) 3(2,3) h(4) by blast
  next
    case 4
    have "il_contact_id x = il_contact_id l" using h(5) 4(1) by simp
    then show ?thesis using assms(4) 4(2,3) h(3) by blast
  qed simp
qed

lemma not_competing_pair:
  assumes "links_inv db" and "\<not> competing c k db" and "m \<in> set (ib_links db)"
    and "il_state m = Link_Confirmed" and "il_contact_id m = c"
  shows "find_link c k db = Some m"
proof -
  have k: "il_company_id m = k" using assms(2-5) by (auto simp: competing_def list_ex_iff)
  then have "find_link c k db \<noteq> None" using assms(3,5) by (auto simp: find_link_None)
  then obtain l where l: "find_link c k db = Some l" by blast
  have "l = m"
    using find_link_Some[OF l] assms(1,3,5) k
      distinct_key_eq[of "\<lambda>l. (il_contact_id l, il_company_id l)" "ib_links db" l m]
    by (simp add: links_inv_def)
  then show ?thesis using l by simp
qed

lemma links_step_inv: "links_step manual db db' \<Longrightarrow> links_inv db \<Longrightarrow> links_inv db'"
proof (induction rule: links_step.induct)
  case (links_candidate contact company db db' now manual)
  have "one_confirmed (ib_links db')"
    unfolding links_candidate.hyps(2)
    by (rule one_confirmed_append) (use links_candidate.prems in \<open>simp_all add: links_inv_def\<close>)
  then show ?case
    using links_candidate by (auto simp: links_inv_def find_link_None link_checks)
next
  case (links_confirm_new contact company db source db' now t actor)
  have "one_confirmed (ib_links db')"
    unfolding links_confirm_new.hyps(4)
  proof (rule one_confirmed_append)
    show "one_confirmed (ib_links db)" using links_confirm_new.prems by (simp add: links_inv_def)
    show "\<forall>m \<in> set (ib_links db). il_state m = Link_Confirmed \<longrightarrow>
        il_contact_id m \<noteq> il_contact_id (confirmed_link now source source t actor
          (candidate_link now (ib_next_link db) contact company))"
      using not_competing_pair[OF links_confirm_new.prems links_confirm_new.hyps(2)]
        links_confirm_new.hyps(1) by auto
  qed
  then show ?case
    using links_confirm_new by (auto simp: links_inv_def find_link_None link_checks)
next
  case (links_confirm l db source db' now t actor)
  have d: "distinct (map il_id (ib_links db))" using links_confirm.prems by (simp add: links_inv_def)
  have "m = l" if "m \<in> set (ib_links db)" "il_state m = Link_Confirmed" "il_contact_id m = il_contact_id l" for m
  proof -
    have "find_link (il_contact_id l) (il_company_id l) db = Some m"
      by (rule not_competing_pair[OF links_confirm.prems links_confirm.hyps(2) that])
    then have "il_contact_id m = il_contact_id l \<and> il_company_id m = il_company_id l"
      using find_link_Some by blast
    then show ?thesis
      using distinct_key_eq[of "\<lambda>l. (il_contact_id l, il_company_id l)" "ib_links db" m l]
        links_confirm.prems that(1) links_confirm.hyps(1) by (simp add: links_inv_def)
  qed
  then have "one_confirmed (ib_links db')"
    unfolding links_confirm.hyps(4)
    using one_confirmed_confirm[OF _ d links_confirm.hyps(1)] links_confirm.prems
    by (simp add: links_inv_def)
  moreover have "list_all link_check (ib_links db')"
    using links_confirm.prems link_checks(2)[OF links_confirm.hyps(3)]
    by (auto simp: links_confirm.hyps(4) links_inv_def list_all_iff set_update_where)
  ultimately show ?case
    using links_confirm.prems links_confirm.hyps(4,5)
    by (auto simp: links_inv_def map_update_where set_update_where)
next
  case (links_reject l db reason db' now source)
  have "one_confirmed (ib_links db')"
    unfolding links_reject.hyps(4) using links_reject.prems by (simp add: links_inv_def one_confirmed_reject)
  moreover have "list_all link_check (ib_links db')"
    using links_reject.prems link_checks(3)[OF links_reject.hyps(2,3)]
    by (auto simp: links_reject.hyps(4) links_inv_def list_all_iff set_update_where)
  ultimately show ?case
    using links_reject.prems links_reject.hyps(4,5)
    by (auto simp: links_inv_def map_update_where set_update_where)
qed (auto simp: links_inv_def)

section \<open>Operations as paths of steps\<close>

definition keys_distinct :: "identity_db \<Rightarrow> bool" where
  "keys_distinct db \<longleftrightarrow> distinct (map lt_key (ib_transitions db))"

text \<open>A path of steps that leaves the resolutions and the commands alone.\<close>

definition link_path :: "bool \<Rightarrow> identity_db \<Rightarrow> identity_db \<Rightarrow> bool" where
  "link_path manual db db' \<longleftrightarrow>
    (links_step manual)\<^sup>*\<^sup>* db db' \<and> ib_resolutions db' = ib_resolutions db \<and>
    ib_commands db' = ib_commands db \<and> ib_next_resolution db' = ib_next_resolution db \<and>
    ib_next_command db' = ib_next_command db \<and> (keys_distinct db \<longrightarrow> keys_distinct db')"

named_theorems link_paths

lemma link_path_refl [link_paths]: "link_path manual db db"
  by (simp add: link_path_def)

lemma link_path_trans: "link_path manual a b \<Longrightarrow> link_path manual b c \<Longrightarrow> link_path manual a c"
  by (auto simp: link_path_def)

lemma link_path_step:
  assumes "links_step manual db db'" and "ib_resolutions db' = ib_resolutions db"
    and "ib_commands db' = ib_commands db" and "ib_next_resolution db' = ib_next_resolution db"
    and "ib_next_command db' = ib_next_command db" and "keys_distinct db \<Longrightarrow> keys_distinct db'"
  shows "link_path manual db db'"
  using assms by (auto simp: link_path_def)

lemma links_step_manual: "links_step False db db' \<Longrightarrow> links_step True db db'"
proof (erule links_stepE)
  fix contact company now
  assume "find_link contact company db = None"
    "ib_links db' = ib_links db @ [candidate_link now (ib_next_link db) contact company]"
    "ib_next_link db' = ib_next_link db + 1"
  then show "links_step True db db'" by (rule links_candidate)
qed (auto intro: links_same)

lemma link_path_manual: "link_path False db db' \<Longrightarrow> link_path True db db'"
  using mono_rtranclp[of "links_step False" "links_step True"] links_step_manual
  unfolding link_path_def by blast

lemma insert_transition_simps [simp]:
  "ib_links (insert_transition t db) = ib_links db"
  "ib_next_link (insert_transition t db) = ib_next_link db"
  "ib_resolutions (insert_transition t db) = ib_resolutions db"
  "ib_commands (insert_transition t db) = ib_commands db"
  "ib_next_resolution (insert_transition t db) = ib_next_resolution db"
  "ib_next_command (insert_transition t db) = ib_next_command db"
  by (simp_all add: insert_transition_def)

lemma insert_transition_keys: "keys_distinct db \<Longrightarrow> keys_distinct (insert_transition t db)"
  by (simp add: keys_distinct_def insert_transition_def)

lemma insert_update_simps [simp]:
  "ib_links (insert_link l db) = ib_links db @ [l]" "ib_next_link (insert_link l db) = ib_next_link db + 1"
  "ib_resolutions (insert_link l db) = ib_resolutions db" "ib_commands (insert_link l db) = ib_commands db"
  "ib_next_resolution (insert_link l db) = ib_next_resolution db"
  "ib_next_command (insert_link l db) = ib_next_command db"
  "keys_distinct (insert_link l db) = keys_distinct db"
  "ib_links (update_link i f db) = update_where (\<lambda>x. il_id x = i) f (ib_links db)"
  "ib_next_link (update_link i f db) = ib_next_link db"
  "ib_resolutions (update_link i f db) = ib_resolutions db" "ib_commands (update_link i f db) = ib_commands db"
  "ib_next_resolution (update_link i f db) = ib_next_resolution db"
  "ib_next_command (update_link i f db) = ib_next_command db"
  "keys_distinct (update_link i f db) = keys_distinct db"
  by (simp_all add: insert_link_def update_link_def keys_distinct_def)

lemma upsert_candidate_path [link_paths]:
  "link_path False db (snd (upsert_candidate_link now contact company db))"
proof (cases "find_link contact company db")
  case None
  show ?thesis
  proof (rule link_path_step)
    show "links_step False db (snd (upsert_candidate_link now contact company db))"
      by (rule links_candidate[OF None]) (simp_all add: upsert_candidate_link_def None Let_def)
  qed (simp_all add: upsert_candidate_link_def None Let_def insert_transition_keys)
qed (simp add: upsert_candidate_link_def link_path_refl)

lemma persist_evidence_path:
  assumes "persist_evidence contact e rule t db = Inr db'"
  shows "link_path False db db' \<and> ib_links db' = ib_links db"
proof -
  obtain ev where "db' = db\<lparr>ib_evidence := ev\<rparr>"
    using assms unfolding persist_evidence_def Let_def by (auto split: if_splits)
  then show ?thesis
    by (auto intro!: link_path_step links_same simp: keys_distinct_def)
qed

lemma persist_matches_path:
  "persist_matches now contact rule t es db = Inr db' \<Longrightarrow> link_path False db db'"
proof (induction es arbitrary: db)
  case (Cons e es)
  obtain db1 where p: "persist_evidence contact e rule t db = Inr db1"
    using Cons.prems by (auto split: sum.splits)
  have "link_path False (snd (upsert_candidate_link now contact (me_company_id e) db1)) db'"
    using Cons.prems p by (intro Cons.IH) simp
  then show ?case
    using persist_evidence_path[OF p] upsert_candidate_path link_path_trans by blast
qed (simp add: link_path_refl)

lemma discover_locked_path:
  assumes "discover_locked sha now dir contact rule t db = Inr (d, db')"
  shows "link_path False db db'"
  using assms unfolding discover_locked_def
  by (auto simp: Let_def split: sum.splits intro: persist_matches_path)

lemma confirm_locked_path:
  assumes "confirm_identity_link_locked now dir contact company t actor source source reason db = Inr (l, db')"
    and s: "source = MANUAL_SOURCE \<or> source = ADMIN_SOURCE"
  shows "link_path True db db' \<and> l \<in> set (ib_links db') \<and> il_state l = Link_Confirmed \<and>
    il_contact_id l = contact \<and> il_company_id l = company"
proof -
  have nc: "\<not> competing contact company db"
    using assms(1) unfolding confirm_identity_link_locked_def competing_def
    by (auto simp: Let_def split: sum.splits option.splits if_splits)
  show ?thesis
  proof (cases "find_link contact company db")
    case None
    let ?l = "confirmed_link now source source t actor (candidate_link now (ib_next_link db) contact company)"
    have r: "l = ?l" "db' = insert_transition
        (confirm_transition ?l None source source reason t actor) (insert_link ?l db)"
      using assms(1) None unfolding confirm_identity_link_locked_def
      by (auto simp: Let_def split: sum.splits option.splits if_splits)
    have "links_step True db db'"
      by (rule links_confirm_new[OF None nc s]) (simp_all add: r(2))
    then show ?thesis by (auto intro!: link_path_step simp: r insert_transition_keys)
  next
    case (Some e)
    note e = find_link_Some[OF Some]
    show ?thesis
    proof (cases "il_state e = Link_Confirmed")
      case True
      then have "l = e" "db' = db" using assms(1) Some unfolding confirm_identity_link_locked_def
        by (auto simp: Let_def split: sum.splits option.splits if_splits)
      then show ?thesis using True e by (simp add: link_path_refl)
    next
      case False
      let ?f = "confirmed_link now source source t actor"
      have r: "l = ?f e" "db' = insert_transition
          (confirm_transition e (Some (il_state e)) source source reason t actor) (update_link (il_id e) ?f db)"
        using assms(1) Some False unfolding confirm_identity_link_locked_def
        by (auto simp: Let_def split: sum.splits option.splits if_splits)
      have "links_step True db db'"
        by (rule links_confirm[of e]) (use e nc s in \<open>simp_all add: r(2)\<close>)
      moreover have "?f e \<in> set (update_where (\<lambda>x. il_id x = il_id e) ?f (ib_links db))"
        by (rule update_where_changed) (use e in simp_all)
      ultimately show ?thesis
        using e by (auto intro!: link_path_step simp: r insert_transition_keys)
    qed
  qed
qed

lemma reject_locked_path:
  assumes "reject_identity_link_locked now dir contact company reason source actor same db = Inr (l, db')"
    and "btrim reason \<noteq> []" and "list_all reason_char reason"
  shows "link_path True db db'"
proof -
  obtain e where e: "find_link contact company db = Some e"
    using assms(1) unfolding reject_identity_link_locked_def by (auto split: sum.splits option.splits)
  consider "db' = db" | t where "db' = insert_transition t (update_link (il_id e) (rejected_link now source reason) db)"
    using assms(1) e unfolding reject_identity_link_locked_def
    by (auto simp: Let_def split: sum.splits if_splits)
  then show ?thesis
  proof cases
    case 2
    have "links_step True db db'"
      by (rule links_reject[of e]) (use find_link_Some[OF e] assms(2,3) in \<open>simp_all add: 2\<close>)
    then show ?thesis by (rule link_path_step) (simp_all add: 2 insert_transition_keys)
  qed (simp add: link_path_refl)
qed

lemma reason_char_solid: "reason_char c \<Longrightarrow> c \<noteq> CHR '' ''"
  by (auto simp: reason_char_def ascii_lower_letters_def ascii_digits_def)

lemma btrim_nonblank: "reason \<noteq> [] \<Longrightarrow> list_all reason_char reason \<Longrightarrow> btrim reason \<noteq> []"
  by (cases reason) (auto simp: btrim_def dropWhile_eq_Nil_conv dest: reason_char_solid)

lemma safe_reason_value_ok:
  assumes "safe_reason_value v = Inr r"
  shows "btrim r \<noteq> [] \<and> list_all reason_char r"
proof -
  have "r \<noteq> []" "list_all reason_char r"
    using assms unfolding safe_reason_value_def Let_def by (auto split: if_splits)
  then show ?thesis using btrim_nonblank by blast
qed

section \<open>Reachable tables\<close>

definition resolution_ok :: "identity_db \<Rightarrow> cycle_resolution \<Rightarrow> bool" where
  "resolution_ok db r \<longleftrightarrow>
    (cr_state r = Res_Confirmed \<longleftrightarrow> cr_link_id r \<noteq> None) \<and> cr_state r \<noteq> Res_Conflict \<and>
    (case cr_link_id r of None \<Rightarrow> True
     | Some i \<Rightarrow> \<exists>l \<in> set (ib_links db). il_id l = i \<and> il_contact_id l = cr_contact_id r)"

definition commands_inv :: "identity_db \<Rightarrow> bool" where
  "commands_inv db \<longleftrightarrow>
    distinct (map ad_key_hash (ib_commands db)) \<and> (\<forall>c \<in> set (ib_commands db). ad_id c < ib_next_command db) \<and>
    (\<forall>c \<in> set (ib_commands db). ad_completed c \<and> ad_result c \<noteq> None)"

definition identity_inv :: "identity_db \<Rightarrow> bool" where
  "identity_inv db \<longleftrightarrow>
    links_inv db \<and> keys_distinct db \<and> distinct (map cr_cycle_id (ib_resolutions db)) \<and>
    (\<forall>r \<in> set (ib_resolutions db). resolution_ok db r) \<and> commands_inv db"

lemma update_where_keeps:
  assumes "\<And>x. P x \<Longrightarrow> g (f x) = g x" and "r \<in> set t"
  shows "\<exists>r' \<in> set (update_where P f t). g r' = g r"
  using assms(2) update_where_changed[of r t P f] update_where_same[of r t P f] assms(1) by (cases "P r") auto

text \<open>What a link keeps for ever.\<close>

definition link_core :: "identity_link \<Rightarrow> int \<times> int \<times> int" where
  "link_core l = (il_id l, il_contact_id l, il_company_id l)"

lemma link_core_simps [simp]:
  "link_core (confirmed_link now s cs t a l) = link_core l" "link_core (rejected_link now s r l) = link_core l"
  by (simp_all add: link_core_def)

lemma links_step_keeps:
  assumes "links_step manual db db'" and "l \<in> set (ib_links db)"
  shows "\<exists>l' \<in> set (ib_links db'). link_core l' = link_core l"
  using assms(1)
proof cases
  case (links_confirm e source now t actor)
  show ?thesis
    unfolding links_confirm(5) by (rule update_where_keeps) (simp_all add: assms(2))
next
  case (links_reject e reason now source)
  show ?thesis
    unfolding links_reject(5) by (rule update_where_keeps) (simp_all add: assms(2))
qed (use assms(2) in auto)

lemma links_path_keeps:
  assumes "(links_step manual)\<^sup>*\<^sup>* db db'" and "l \<in> set (ib_links db)"
  shows "\<exists>l' \<in> set (ib_links db'). link_core l' = link_core l"
  using assms(1)
proof (induction rule: rtranclp_induct)
  case (step x y)
  then show ?case using links_step_keeps by metis
qed (use assms(2) in auto)

lemma links_path_inv: "(links_step manual)\<^sup>*\<^sup>* db db' \<Longrightarrow> links_inv db \<Longrightarrow> links_inv db'"
  by (induction rule: rtranclp_induct) (auto intro: links_step_inv)

lemma resolution_ok_path:
  assumes "(links_step manual)\<^sup>*\<^sup>* db db'" and "resolution_ok db r"
  shows "resolution_ok db' r"
proof (cases "cr_link_id r")
  case (Some i)
  then obtain l where l: "l \<in> set (ib_links db)" "il_id l = i" "il_contact_id l = cr_contact_id r"
    using assms(2) by (auto simp: resolution_ok_def)
  then obtain l' where "l' \<in> set (ib_links db')" "link_core l' = link_core l"
    using links_path_keeps[OF assms(1)] by blast
  then show ?thesis using assms(2) l Some by (auto simp: resolution_ok_def link_core_def)
qed (use assms(2) in \<open>simp add: resolution_ok_def\<close>)

lemma link_path_inv: "link_path manual db db' \<Longrightarrow> identity_inv db \<Longrightarrow> identity_inv db'"
  unfolding link_path_def identity_inv_def
  by (auto simp: commands_inv_def intro: links_path_inv resolution_ok_path)

datatype identity_op =
    Discover time directory_db int string time
  | Discover_All "int \<Rightarrow> time" directory_db string time
  | Resolve_Cycle time directory_db "cycle list" string int string time
  | Confirm time directory_db int int "time option" "string option"
  | Confirm_External time directory_db string string "time option" "string option"
  | Reject time directory_db int int string
  | Admin time time directory_db admin_operation string "string option" string string

fun identity_step ::
  "(string \<Rightarrow> string) \<Rightarrow> (admin_operation \<Rightarrow> string \<Rightarrow> string option \<Rightarrow> string \<Rightarrow> string) \<Rightarrow>
   identity_op \<Rightarrow> identity_db \<Rightarrow> identity_db" where
  "identity_step sha print (Discover now dir contact rule t) db = snd (discover_identity sha now dir contact rule t db)"
| "identity_step sha print (Discover_All now dir rule t) db = snd (discover_all_identities sha now dir rule t db)"
| "identity_step sha print (Resolve_Cycle now dir cycle_rows pid contact rule t) db =
    snd (resolve_cycle_identity sha now dir cycle_rows pid contact rule t db)"
| "identity_step sha print (Confirm now dir contact company t by) db =
    snd (confirm_identity_link now dir contact company t by db)"
| "identity_step sha print (Confirm_External now dir contact company t by) db =
    snd (confirm_identity_by_external_ids now dir contact company t by db)"
| "identity_step sha print (Reject now dir contact company reason) db =
    snd (reject_identity_link now dir contact company reason db)"
| "identity_step sha print (Admin now py_now dir operation contact company reason key) db =
    snd (execute_admin_identity_link_command sha print now py_now dir operation contact company reason key db)"

inductive identity_reachable ::
  "(string \<Rightarrow> string) \<Rightarrow> (admin_operation \<Rightarrow> string \<Rightarrow> string option \<Rightarrow> string \<Rightarrow> string) \<Rightarrow> identity_db \<Rightarrow> bool"
  for sha print where
  identity_start: "identity_reachable sha print empty_identity_db"
| identity_next: "identity_reachable sha print db \<Longrightarrow> identity_reachable sha print (identity_step sha print op db)"

lemma transaction_path:
  assumes "\<And>x db'. res = Inr (x, db') \<Longrightarrow> link_path manual db db'"
  shows "link_path manual db (snd (transaction db res))"
  using assms by (auto simp: transaction_def link_path_refl split: sum.splits)

lemma discover_path: "link_path False db (snd (discover_identity sha now dir contact rule t db))"
proof -
  have "link_path False db (snd (transaction db (discover_locked sha now dir contact r t db)))" for r
    by (rule transaction_path) (rule discover_locked_path)
  then show ?thesis
    unfolding discover_identity_def by (cases "safe_value rule") (simp_all add: link_path_refl)
qed

lemma discover_contacts_path: "link_path False db (snd (discover_contacts sha now dir rule t is b db))"
proof (induction "is" arbitrary: b db)
  case (Cons i "is")
  obtain res db1 where tx: "transaction db (discover_locked sha (now i) dir i rule t db) = (res, db1)"
    by (meson surj_pair)
  have "link_path False db (snd (transaction db (discover_locked sha (now i) dir i rule t db)))"
    by (rule transaction_path) (rule discover_locked_path)
  then have "link_path False db db1" by (simp add: tx)
  then show ?case using Cons.IH[of db1 "count_discovery res b"] by (simp add: tx link_path_trans)
qed (simp add: link_path_refl)

lemma discover_all_path: "link_path False db (snd (discover_all_identities sha now dir rule t db))"
proof (cases "safe_value rule")
  case (Inr r)
  show ?thesis
    using discover_contacts_path unfolding discover_all_identities_def Inr
    by (simp add: prod.case_eq_if)
qed (simp add: discover_all_identities_def link_path_refl)

lemma confirm_tx_path:
  "link_path True db (snd (transaction db (confirm_identity_link_locked now dir contact company t actor
    MANUAL_SOURCE MANUAL_SOURCE reason db)))"
  by (rule transaction_path) (use confirm_locked_path in blast)

lemma confirm_path: "link_path True db (snd (confirm_identity_link now dir contact company t by db))"
proof (cases t)
  case (Some u)
  then show ?thesis unfolding confirm_identity_link_def
    by (cases "confirm_actor by") (simp_all add: link_path_refl confirm_tx_path)
qed (simp add: confirm_identity_link_def link_path_refl)

lemma confirm_external_path:
  "link_path True db (snd (confirm_identity_by_external_ids now dir contact company t by db))"
proof (cases t)
  case (Some u)
  then show ?thesis unfolding confirm_identity_by_external_ids_def
    by (cases "confirm_actor by"; cases "lookup_by dc_external_id contact (dir_digisac_contacts dir)";
        cases "lookup_by co_external_id company (dir_companies dir)")
      (simp_all add: link_path_refl confirm_tx_path)
qed (simp add: confirm_identity_by_external_ids_def link_path_refl)

lemma reject_path: "link_path True db (snd (reject_identity_link now dir contact company reason db))"
proof (cases "safe_reason_value reason")
  case (Inr r)
  have "link_path True db (snd (transaction db (reject_identity_link_locked now dir contact company r
      MANUAL_SOURCE None False db)))"
    by (rule transaction_path) (use reject_locked_path safe_reason_value_ok[OF Inr] in blast)
  then show ?thesis by (simp add: reject_identity_link_def Inr)
qed (simp add: reject_identity_link_def link_path_refl)

section \<open>The outcome of a discovery\<close>

definition confirmed_for :: "int \<Rightarrow> identity_db \<Rightarrow> identity_link \<Rightarrow> bool" where
  "confirmed_for contact db l \<longleftrightarrow>
    l \<in> set (ib_links db) \<and> il_contact_id l = contact \<and> il_state l = Link_Confirmed"

lemma distinct_all_eq: "distinct xs \<Longrightarrow> (\<And>x y. x \<in> set xs \<Longrightarrow> y \<in> set xs \<Longrightarrow> x = y) \<Longrightarrow> x \<in> set xs \<Longrightarrow> xs = [x]"
proof (cases xs)
  case (Cons a ys)
  assume d: "distinct xs" and eq: "\<And>x y. x \<in> set xs \<Longrightarrow> y \<in> set xs \<Longrightarrow> x = y" and x: "x \<in> set xs"
  have "ys = []"
  proof (cases ys)
    case (Cons b zs)
    then have "a = b" using eq[of a b] \<open>xs = a # ys\<close> by simp
    then show ?thesis using d \<open>xs = a # ys\<close> Cons by simp
  qed simp
  then show ?thesis using x Cons by simp
qed simp

lemma confirmed_unique:
  assumes "links_inv db" and "confirmed_for c db l" and "confirmed_for c db m"
  shows "l = m"
proof -
  have "il_id l = il_id m"
    using one_confirmedD[of "ib_links db" l m] assms by (simp add: links_inv_def confirmed_for_def)
  then show ?thesis
    using distinct_key_eq[of il_id "ib_links db" l m] assms by (simp add: links_inv_def confirmed_for_def)
qed

lemma confirmed_current:
  assumes "links_inv db"
  shows "filter (\<lambda>l. il_state l = Link_Confirmed) (current_links c db) =
    (if \<exists>l. confirmed_for c db l then [THE l. confirmed_for c db l] else [])"
proof -
  let ?xs = "filter (\<lambda>l. il_state l = Link_Confirmed) (current_links c db)"
  have mem: "l \<in> set ?xs \<longleftrightarrow> confirmed_for c db l" for l
    by (auto simp: current_links_def confirmed_for_def)
  have d: "distinct ?xs"
    using assms by (auto simp: current_links_def links_inv_def distinct_map intro: distinct_filter)
  show ?thesis
  proof (cases "\<exists>l. confirmed_for c db l")
    case True
    then obtain l where l: "confirmed_for c db l" by blast
    have "?xs = [l]"
    proof (rule distinct_all_eq[OF d])
      show "x = y" if "x \<in> set ?xs" "y \<in> set ?xs" for x y
        using confirmed_unique[OF assms] that unfolding mem by blast
      show "l \<in> set ?xs" unfolding mem by (rule l)
    qed
    moreover have "(THE l. confirmed_for c db l) = l"
      using l confirmed_unique[OF assms] by blast
    ultimately show ?thesis using True by simp
  next
    case False
    have "?xs = []"
    proof (rule ccontr)
      assume "?xs \<noteq> []"
      then have "hd ?xs \<in> set ?xs" by (rule hd_in_set)
      then show False using False mem[of "hd ?xs"] by blast
    qed
    then show ?thesis using False by simp
  qed
qed

lemma discovery_outcome_confirmed:
  assumes "links_inv db" and "confirmed_for c db l"
  shows "discovery_outcome c es db =
    \<lparr>di_contact_id = c, di_state = Found_Confirmed, di_company_ids = [il_company_id l],
     di_link_ids = [il_id l], di_evidence_count = length es\<rparr>"
proof -
  have the: "(THE l. confirmed_for c db l) = l"
    using assms(2) confirmed_unique[OF assms(1)] by blast
  have "filter (\<lambda>l. il_state l = Link_Confirmed) (current_links c db) = [l]"
    unfolding confirmed_current[OF assms(1)] the using assms(2) by auto
  then show ?thesis unfolding discovery_outcome_def Let_def by simp
qed

lemma discovery_outcome_open:
  assumes "links_inv db" and "\<nexists>l. confirmed_for c db l"
  shows "di_state (discovery_outcome c es db) =
    (if length (remdups (map me_company_id es)) = 1 then Found_Candidate
     else if 1 < length (remdups (map me_company_id es)) then Found_Ambiguous else Found_Unresolved)"
proof -
  have "filter (\<lambda>l. il_state l = Link_Confirmed) (current_links c db) = []"
    using confirmed_current[OF assms(1)] assms(2) by simp
  then show ?thesis unfolding discovery_outcome_def Let_def by simp
qed

section \<open>Resolutions and commands keep the invariant\<close>

lemma resolve_tx_result:
  assumes "resolve_cycle_tx sha now dir cycle contact rule t db = Inr (row, db')"
    and "lookup_by cr_cycle_id (cy_id cycle) (ib_resolutions db) = None" and "links_inv db"
  obtains es db1 where "link_path False db db1" "links_inv db1"
    "db' = db1\<lparr>ib_resolutions := ib_resolutions db1 @ [row], ib_next_resolution := ib_next_resolution db1 + 1\<rparr>"
    "cr_cycle_id row = cy_id cycle" "cr_contact_id row = contact"
    "cr_state row = resolution_of (di_state (discovery_outcome contact es db1))"
    "cr_link_id row = (if cr_state row = Res_Confirmed
       then Some (hd (di_link_ids (discovery_outcome contact es db1))) else None)"
proof -
  obtain d db1 where d: "discover_locked sha now dir contact rule t db = Inr (d, db1)"
    using assms(1,2) unfolding resolve_cycle_tx_def by (auto split: sum.splits)
  obtain es where es: "d = discovery_outcome contact es db1"
    using d unfolding discover_locked_def by (auto simp: Let_def split: sum.splits)
  have path: "link_path False db db1" by (rule discover_locked_path[OF d])
  show thesis
  proof (rule that[OF path])
    have "(links_step False)\<^sup>*\<^sup>* db db1" using path by (simp add: link_path_def)
    then show "links_inv db1" using assms(3) by (rule links_path_inv)
  qed (use assms(1,2) d in \<open>auto simp: resolve_cycle_tx_def Let_def es split: option.splits\<close>)
qed

lemma resolution_ok_row:
  assumes "links_inv db" and "cr_contact_id row = contact"
    and "cr_state row = resolution_of (di_state (discovery_outcome contact es db))"
    and "cr_link_id row = (if cr_state row = Res_Confirmed
       then Some (hd (di_link_ids (discovery_outcome contact es db))) else None)"
  shows "resolution_ok db row"
proof (cases "\<exists>l. confirmed_for contact db l")
  case True
  then obtain l where l: "confirmed_for contact db l" by blast
  show ?thesis
    unfolding resolution_ok_def assms(3,4) discovery_outcome_confirmed[OF assms(1) l]
    using l assms(2) by (auto simp: resolution_of_def confirmed_for_def)
next
  case False
  show ?thesis
    unfolding resolution_ok_def assms(3,4) discovery_outcome_open[OF assms(1) False]
    by (simp add: resolution_of_def)
qed

lemma resolve_tx_inv:
  assumes "resolve_cycle_tx sha now dir cycle contact rule t db = Inr (row, db')" and "identity_inv db"
  shows "identity_inv db'"
proof (cases "lookup_by cr_cycle_id (cy_id cycle) (ib_resolutions db)")
  case (Some r)
  then show ?thesis using assms unfolding resolve_cycle_tx_def by simp
next
  case None
  have l: "links_inv db" using assms(2) by (simp add: identity_inv_def)
  obtain es db1 where r: "link_path False db db1" "links_inv db1"
    "db' = db1\<lparr>ib_resolutions := ib_resolutions db1 @ [row], ib_next_resolution := ib_next_resolution db1 + 1\<rparr>"
    "cr_cycle_id row = cy_id cycle" "cr_contact_id row = contact"
    "cr_state row = resolution_of (di_state (discovery_outcome contact es db1))"
    "cr_link_id row = (if cr_state row = Res_Confirmed
       then Some (hd (di_link_ids (discovery_outcome contact es db1))) else None)"
    by (rule resolve_tx_result[OF assms(1) None l])
  have inv: "identity_inv db1" by (rule link_path_inv[OF r(1) assms(2)])
  have new: "cy_id cycle \<notin> cr_cycle_id ` set (ib_resolutions db1)"
    using None r(1) by (simp add: lookup_by_None link_path_def)
  have ok: "resolution_ok db1 row" by (rule resolution_ok_row[OF r(2,5,6,7)])
  have links: "ib_links db' = ib_links db1" by (simp add: r(3))
  have same: "resolution_ok db' x = resolution_ok db1 x" for x unfolding resolution_ok_def links ..
  show ?thesis
    using inv new ok unfolding identity_inv_def same
    by (auto simp: r(3,4) links_inv_def keys_distinct_def commands_inv_def)
qed

lemma run_admin_path:
  assumes "run_admin_operation sha now py_now dir operation ce contact company reason db = Inr (r, db')"
    and "operation \<noteq> Admin_Discovery \<Longrightarrow> btrim reason \<noteq> [] \<and> list_all reason_char reason"
  shows "link_path True db db'"
proof (cases operation)
  case Admin_Discovery
  then obtain d where "discover_locked sha now dir contact DEFAULT_RULE_VERSION py_now db = Inr (d, db')"
    using assms(1) by (auto simp: run_admin_operation_def split: sum.splits)
  then show ?thesis by (rule discover_locked_path[THEN link_path_manual])
next
  case Admin_Confirm
  then obtain ke k l where "company = Some (ke, k)" "confirm_identity_link_locked now dir contact k py_now
      (Some ''admin'') ADMIN_SOURCE ADMIN_SOURCE reason db = Inr (l, db')"
    using assms(1) by (auto simp: run_admin_operation_def split: sum.splits option.splits)
  then show ?thesis using confirm_locked_path by blast
next
  case Admin_Reject
  then obtain ke k l where "company = Some (ke, k)" "reject_identity_link_locked now dir contact k reason
      ADMIN_SOURCE (Some ''admin'') True db = Inr (l, db')"
    using assms(1) by (auto simp: run_admin_operation_def split: sum.splits option.splits)
  then show ?thesis using reject_locked_path assms(2) Admin_Reject by blast
qed

lemma admin_tx_result:
  assumes "admin_command_tx sha now py_now dir operation ce ke reason key print db = Inr (out, db')"
    and "lookup_by ad_key_hash key (ib_commands db) = None"
    and "operation \<noteq> Admin_Discovery \<Longrightarrow> btrim reason \<noteq> [] \<and> list_all reason_char reason"
  obtains contact company r db2 where "out = (False, r)"
    "link_path True (db\<lparr>ib_commands := ib_commands db @ [new_command key operation contact company print db],
      ib_next_command := ib_next_command db + 1\<rparr>) db2"
    "db' = db2\<lparr>ib_commands := update_where (\<lambda>c. ad_id c = ib_next_command db)
      (\<lambda>c. c\<lparr>ad_completed := True, ad_result := Some r\<rparr>) (ib_commands db2)\<rparr>"
proof -
  obtain contact where c: "lookup_by dc_external_id ce (dir_digisac_contacts dir) = Some contact"
    using assms(1,2) unfolding admin_command_tx_def by (auto split: option.splits)
  obtain company where k: "command_company dir ke = Inr company"
    using assms(1,2) c unfolding admin_command_tx_def by (auto split: sum.splits)
  let ?cmd = "new_command key operation (dc_id contact) (map_option snd company) print db"
  let ?db1 = "db\<lparr>ib_commands := ib_commands db @ [?cmd], ib_next_command := ib_next_command db + 1\<rparr>"
  have "(case run_admin_operation sha now py_now dir operation ce (dc_id contact) company reason ?db1 of
      Inl e \<Rightarrow> Inl e
    | Inr (r, db2) \<Rightarrow> Inr ((False, r), db2\<lparr>ib_commands := update_where (\<lambda>c. ad_id c = ad_id ?cmd)
        (\<lambda>c. c\<lparr>ad_completed := True, ad_result := Some r\<rparr>) (ib_commands db2)\<rparr>)) = Inr (out, db')"
    using assms(1) unfolding admin_command_tx_def assms(2) c k
    by (auto simp: Let_def split: if_splits)
  then obtain r db2 where r: "run_admin_operation sha now py_now dir operation ce (dc_id contact) company reason ?db1 = Inr (r, db2)"
    "out = (False, r)" "db' = db2\<lparr>ib_commands := update_where (\<lambda>c. ad_id c = ad_id ?cmd)
        (\<lambda>c. c\<lparr>ad_completed := True, ad_result := Some r\<rparr>) (ib_commands db2)\<rparr>"
    by (auto split: sum.splits)
  have id: "ad_id ?cmd = ib_next_command db" by (simp add: new_command_def)
  show thesis
    by (rule that[OF r(2) run_admin_path[OF r(1) assms(3)]]) (simp_all add: r(3) id)
qed

lemma commands_inv_add:
  assumes "commands_inv db" and "key \<notin> ad_key_hash ` set (ib_commands db)"
    and "ib_commands db' = update_where (\<lambda>c. ad_id c = ib_next_command db)
      (\<lambda>c. c\<lparr>ad_completed := True, ad_result := Some r\<rparr>)
      (ib_commands db @ [new_command key operation contact company print db])"
    and "ib_next_command db' = ib_next_command db + 1"
  shows "ib_commands db' = ib_commands db @
      [(new_command key operation contact company print db)\<lparr>ad_completed := True, ad_result := Some r\<rparr>]"
    and "commands_inv db'"
proof -
  have "update_where (\<lambda>c. ad_id c = ib_next_command db) f (ib_commands db) = ib_commands db" for f
    by (rule update_where_none) (use assms(1) in \<open>auto simp: commands_inv_def\<close>)
  then show c: "ib_commands db' = ib_commands db @
      [(new_command key operation contact company print db)\<lparr>ad_completed := True, ad_result := Some r\<rparr>]"
    unfolding assms(3) by (simp add: update_where_def new_command_def)
  show "commands_inv db'"
    using assms(1,2) unfolding commands_inv_def c assms(4) by (auto simp: new_command_def)
qed

lemma admin_tx_inv:
  assumes "admin_command_tx sha now py_now dir operation ce ke reason key print db = Inr (out, db')"
    and "operation \<noteq> Admin_Discovery \<Longrightarrow> btrim reason \<noteq> [] \<and> list_all reason_char reason"
    and inv: "identity_inv db"
  shows "identity_inv db'"
proof (cases "lookup_by ad_key_hash key (ib_commands db)")
  case (Some c)
  then show ?thesis
    using assms(1,3) by (auto simp: admin_command_tx_def split: sum.splits)
next
  case None
  obtain contact company r db2 where
    p: "link_path True (db\<lparr>ib_commands := ib_commands db @ [new_command key operation contact company print db],
      ib_next_command := ib_next_command db + 1\<rparr>) db2" (is "link_path True ?db1 db2")
    and db': "db' = db2\<lparr>ib_commands := update_where (\<lambda>c. ad_id c = ib_next_command db)
      (\<lambda>c. c\<lparr>ad_completed := True, ad_result := Some r\<rparr>) (ib_commands db2)\<rparr>"
    by (rule admin_tx_result[OF assms(1) None assms(2)])
  have path: "(links_step True)\<^sup>*\<^sup>* ?db1 db2" and res: "ib_resolutions db2 = ib_resolutions db"
    and cmds: "ib_commands db2 = ib_commands db @ [new_command key operation contact company print db]"
    and nxt: "ib_next_command db2 = ib_next_command db + 1" and keys: "keys_distinct ?db1 \<longrightarrow> keys_distinct db2"
    using p by (simp_all add: link_path_def)
  have "links_inv ?db1" using inv by (simp add: identity_inv_def links_inv_def)
  then have l: "links_inv db2" by (rule links_path_inv[OF path])
  have k: "keys_distinct db2" using keys inv by (simp add: identity_inv_def keys_distinct_def)
  have links: "ib_links db' = ib_links db2" "ib_links ?db1 = ib_links db" by (simp_all add: db')
  have ok: "resolution_ok db' x" if "x \<in> set (ib_resolutions db')" for x
  proof -
    have "resolution_ok db x" using that inv by (simp add: identity_inv_def db' res)
    then have "resolution_ok ?db1 x" unfolding resolution_ok_def links(2) .
    then have "resolution_ok db2 x" by (rule resolution_ok_path[OF path])
    then show ?thesis unfolding resolution_ok_def links(1) .
  qed
  have "commands_inv db'"
    by (rule commands_inv_add(2)[of db key db' r])
      (use inv None in \<open>simp_all add: identity_inv_def lookup_by_None db' cmds nxt\<close>)
  then show ?thesis
    using l k ok inv by (auto simp: identity_inv_def links_inv_def keys_distinct_def db' res)
qed

lemma transaction_inv:
  assumes "\<And>x db'. res = Inr (x, db') \<Longrightarrow> identity_inv db'" and "identity_inv db"
  shows "identity_inv (snd (transaction db res))"
  by (rule transaction_keeps[where I = identity_inv]) (use assms in blast)+

lemma resolve_step_inv:
  assumes "identity_inv db"
  shows "identity_inv (snd (resolve_cycle_identity sha now dir cycle_rows pid contact rule t db))"
proof (cases "safe_value rule")
  case (Inr r)
  show ?thesis
  proof (cases "lookup_by cy_public_id pid cycle_rows")
    case (Some c)
    have "identity_inv (snd (transaction db (resolve_cycle_tx sha now dir c contact r t db)))"
      by (rule transaction_inv[OF resolve_tx_inv[OF _ assms] assms])
    then show ?thesis by (simp add: resolve_cycle_identity_def Inr Some)
  qed (use assms in \<open>simp add: resolve_cycle_identity_def Inr\<close>)
qed (use assms in \<open>simp add: resolve_cycle_identity_def\<close>)

lemma execute_admin_cases:
  obtains e where "execute_admin_identity_link_command sha print now py_now dir operation contact company
      reason key db = (Inl e, db)"
  | c k r h where "execute_admin_identity_link_command sha print now py_now dir operation contact company
      reason key db = transaction db (admin_command_tx sha now py_now dir operation c k r (sha h)
        (print operation c k r) db)"
    "safe_opaque_reference contact = Inr c" "opt_safe_reference company = Inr k"
    "(if operation = Admin_Discovery then Inr [] else safe_reason_value reason) = Inr r"
    "safe_opaque_reference key = Inr h"
proof (cases "safe_opaque_reference contact"; cases "opt_safe_reference company";
    cases "if operation = Admin_Discovery then Inr [] else safe_reason_value reason";
    cases "safe_opaque_reference key")
qed (auto simp: execute_admin_identity_link_command_def intro: that)

lemma admin_step_inv:
  assumes "identity_inv db"
  shows "identity_inv (snd (execute_admin_identity_link_command sha print now py_now dir operation contact
    company reason key db))"
proof (cases rule: execute_admin_cases[of sha print now py_now dir operation contact company reason key db])
  case (2 c k r h)
  have "operation \<noteq> Admin_Discovery \<Longrightarrow> btrim r \<noteq> [] \<and> list_all reason_char r"
    using 2(4) safe_reason_value_ok by simp
  then have "identity_inv (snd (transaction db (admin_command_tx sha now py_now dir operation c k r (sha h)
      (print operation c k r) db)))"
    by (intro transaction_inv assms) (rule admin_tx_inv[OF _ _ assms])
  then show ?thesis by (simp only: 2(1))
qed (use assms in simp)

lemma identity_step_inv: "identity_inv db \<Longrightarrow> identity_inv (identity_step sha print op db)"
proof (cases op)
  case (Admin now py_now dir operation contact company reason key)
  assume "identity_inv db"
  then show ?thesis using admin_step_inv Admin by simp
qed (simp_all add: resolve_step_inv link_path_inv[OF discover_path] link_path_inv[OF discover_all_path]
    link_path_inv[OF confirm_path] link_path_inv[OF confirm_external_path] link_path_inv[OF reject_path])

lemma identity_empty_inv: "identity_inv empty_identity_db"
  by (simp add: identity_inv_def links_inv_def keys_distinct_def commands_inv_def one_confirmed_def
      empty_identity_db_def)

lemma identity_reachable_invariant: "identity_reachable sha print db \<Longrightarrow> identity_inv db"
  by (induction rule: identity_reachable.induct) (simp_all add: identity_empty_inv identity_step_inv)

section \<open>Resolutions and commands are only added\<close>

definition only_added :: "identity_db \<Rightarrow> identity_db \<Rightarrow> bool" where
  "only_added db db' \<longleftrightarrow>
    (\<exists>rs. ib_resolutions db' = ib_resolutions db @ rs) \<and> (\<exists>cs. ib_commands db' = ib_commands db @ cs)"

lemma only_added_refl: "only_added db db"
  by (simp add: only_added_def)

lemma only_added_trans: "only_added a b \<Longrightarrow> only_added b c \<Longrightarrow> only_added a c"
  by (auto simp: only_added_def)

lemma only_added_path: "link_path manual db db' \<Longrightarrow> only_added db db'"
  by (simp add: only_added_def link_path_def)

lemma transaction_added:
  assumes "\<And>x db'. res = Inr (x, db') \<Longrightarrow> only_added db db'"
  shows "only_added db (snd (transaction db res))"
  using assms by (auto simp: transaction_def only_added_refl split: sum.splits)

lemma resolve_tx_added:
  assumes "resolve_cycle_tx sha now dir cycle contact rule t db = Inr (row, db')" and "links_inv db"
  shows "only_added db db'"
proof (cases "lookup_by cr_cycle_id (cy_id cycle) (ib_resolutions db)")
  case (Some r)
  then show ?thesis using assms by (simp add: resolve_cycle_tx_def only_added_refl)
next
  case None
  show ?thesis
    by (rule resolve_tx_result[OF assms(1) None assms(2)]) (simp add: only_added_def link_path_def)
qed

lemma admin_tx_added:
  assumes "admin_command_tx sha now py_now dir operation ce ke reason key print db = Inr (out, db')"
    and "operation \<noteq> Admin_Discovery \<Longrightarrow> btrim reason \<noteq> [] \<and> list_all reason_char reason"
    and "commands_inv db" and "lookup_by ad_key_hash key (ib_commands db) = None"
  obtains r c where "out = (False, r)" "ib_commands db' = ib_commands db @ [c]" "ad_key_hash c = key"
    "ad_request_fingerprint c = print" "ad_completed c" "ad_result c = Some r"
    "ib_resolutions db' = ib_resolutions db"
proof -
  obtain contact company r db2 where o: "out = (False, r)"
    and p: "link_path True (db\<lparr>ib_commands := ib_commands db @ [new_command key operation contact company print db],
      ib_next_command := ib_next_command db + 1\<rparr>) db2"
    and db': "db' = db2\<lparr>ib_commands := update_where (\<lambda>c. ad_id c = ib_next_command db)
      (\<lambda>c. c\<lparr>ad_completed := True, ad_result := Some r\<rparr>) (ib_commands db2)\<rparr>"
    by (rule admin_tx_result[OF assms(1) assms(4) assms(2)])
  have "ib_commands db' = ib_commands db @
      [(new_command key operation contact company print db)\<lparr>ad_completed := True, ad_result := Some r\<rparr>]"
    by (rule commands_inv_add(1)[OF assms(3)])
      (use p assms(4) in \<open>simp_all add: lookup_by_None db' link_path_def\<close>)
  then show thesis
    by (rule that[OF o]) (use p in \<open>simp_all add: new_command_def db' link_path_def\<close>)
qed

lemma resolve_step_added:
  assumes "links_inv db"
  shows "only_added db (snd (resolve_cycle_identity sha now dir cycle_rows pid contact rule t db))"
proof (cases "safe_value rule")
  case (Inr r)
  show ?thesis
  proof (cases "lookup_by cy_public_id pid cycle_rows")
    case (Some c)
    have "only_added db (snd (transaction db (resolve_cycle_tx sha now dir c contact r t db)))"
      by (rule transaction_added[OF resolve_tx_added[OF _ assms]])
    then show ?thesis by (simp add: resolve_cycle_identity_def Inr Some)
  qed (simp add: resolve_cycle_identity_def Inr only_added_refl)
qed (simp add: resolve_cycle_identity_def only_added_refl)

lemma admin_step_added:
  assumes "identity_inv db"
  shows "only_added db (snd (execute_admin_identity_link_command sha print now py_now dir operation contact
    company reason key db))"
proof (cases rule: execute_admin_cases[of sha print now py_now dir operation contact company reason key db])
  case (2 c k r h)
  have reason: "operation \<noteq> Admin_Discovery \<Longrightarrow> btrim r \<noteq> [] \<and> list_all reason_char r"
    using 2(4) safe_reason_value_ok by simp
  have cmds: "commands_inv db" using assms by (simp add: identity_inv_def)
  have "only_added db (snd (transaction db (admin_command_tx sha now py_now dir operation c k r (sha h)
      (print operation c k r) db)))"
  proof (rule transaction_added)
    fix x db'
    assume tx: "admin_command_tx sha now py_now dir operation c k r (sha h) (print operation c k r) db = Inr (x, db')"
    show "only_added db db'"
    proof (cases "lookup_by ad_key_hash (sha h) (ib_commands db)")
      case (Some cmd)
      then show ?thesis using tx by (auto simp: admin_command_tx_def only_added_refl split: sum.splits)
    next
      case None
      show ?thesis by (rule admin_tx_added[OF tx reason cmds None]) (auto simp: only_added_def)
    qed
  qed
  then show ?thesis by (simp only: 2(1))
qed (simp add: only_added_refl)

lemma identity_step_added:
  assumes "identity_inv db"
  shows "only_added db (identity_step sha print op db)"
proof (cases op)
  case (Admin now py_now dir operation contact company reason key)
  then show ?thesis using admin_step_added[OF assms] by simp
next
  case (Resolve_Cycle now dir cycle_rows pid contact rule t)
  then show ?thesis using resolve_step_added assms by (simp add: identity_inv_def)
qed (simp_all add: only_added_path[OF discover_path] only_added_path[OF discover_all_path]
    only_added_path[OF confirm_path] only_added_path[OF confirm_external_path] only_added_path[OF reject_path])

lemma candidate_steps_append:
  assumes "(links_step False)\<^sup>*\<^sup>* db db'"
  shows "\<exists>ls. ib_links db' = ib_links db @ ls \<and> list_all (\<lambda>l. il_state l = Link_Candidate) ls"
  using assms
proof (induction rule: rtranclp_induct)
  case (step x y)
  obtain ls where ls: "ib_links x = ib_links db @ ls" "list_all (\<lambda>l. il_state l = Link_Candidate) ls"
    using step.IH by blast
  from step.hyps(2) show ?case
  proof cases
    case (links_candidate contact company now)
    then show ?thesis
      using ls by (intro exI[of _ "ls @ [candidate_link now (ib_next_link x) contact company]"]) simp
  qed (use ls in auto)
qed simp

lemma link_path_append:
  "link_path False db db' \<Longrightarrow>
    \<exists>ls. ib_links db' = ib_links db @ ls \<and> list_all (\<lambda>l. il_state l = Link_Candidate) ls"
  by (simp add: candidate_steps_append link_path_def)

lemma resolve_links_append:
  assumes "links_inv db"
  shows "\<exists>ls. ib_links (snd (resolve_cycle_identity sha now dir cycle_rows pid contact rule t db)) =
    ib_links db @ ls \<and> list_all (\<lambda>l. il_state l = Link_Candidate) ls"
proof (cases "resolve_cycle_identity sha now dir cycle_rows pid contact rule t db")
  case (Pair out db')
  show ?thesis
  proof (cases "db' = db")
    case False
    then obtain r c row where tx: "resolve_cycle_tx sha now dir c contact r t db = Inr (row, db')"
      using Pair unfolding resolve_cycle_identity_def
      by (auto simp: transaction_def split: sum.splits option.splits)
    show ?thesis
    proof (cases "lookup_by cr_cycle_id (cy_id c) (ib_resolutions db)")
      case (Some x)
      then show ?thesis using tx False by (simp add: resolve_cycle_tx_def)
    next
      case None
      show ?thesis
        by (rule resolve_tx_result[OF tx None assms]) (use Pair in \<open>auto dest!: link_path_append\<close>)
    qed
  qed (simp add: Pair)
qed

definition links_kept :: "identity_db \<Rightarrow> identity_db \<Rightarrow> bool" where
  "links_kept db db' \<longleftrightarrow> (\<forall>l \<in> set (ib_links db). \<exists>l' \<in> set (ib_links db'). link_core l' = link_core l)"

lemma links_kept_refl: "links_kept db db"
  by (auto simp: links_kept_def)

lemma links_kept_path: "link_path manual db db' \<Longrightarrow> links_kept db db'"
  using links_path_keeps by (auto simp: links_kept_def link_path_def)

lemma links_kept_same: "links_kept db db' \<Longrightarrow> ib_links db'' = ib_links db' \<Longrightarrow> links_kept db db''"
  by (simp add: links_kept_def)

lemma resolve_step_links:
  assumes "links_inv db"
  shows "links_kept db (snd (resolve_cycle_identity sha now dir cycle_rows pid contact rule t db))"
proof -
  obtain ls where "ib_links (snd (resolve_cycle_identity sha now dir cycle_rows pid contact rule t db)) =
      ib_links db @ ls"
    using resolve_links_append[OF assms] by blast
  then show ?thesis by (auto simp: links_kept_def)
qed

lemma admin_step_links:
  "links_kept db (snd (execute_admin_identity_link_command sha print now py_now dir operation contact
    company reason key db))"
proof (cases rule: execute_admin_cases[of sha print now py_now dir operation contact company reason key db])
  case (2 c k r h)
  show ?thesis
  proof (cases "admin_command_tx sha now py_now dir operation c k r (sha h) (print operation c k r) db")
    case (Inl e)
    then show ?thesis unfolding 2(1) by (simp add: transaction_def links_kept_refl)
  next
    case (Inr p)
    obtain out db' where p: "p = (out, db')" by fastforce
    have tx: "admin_command_tx sha now py_now dir operation c k r (sha h) (print operation c k r) db = Inr (out, db')"
      using Inr p by simp
    have "links_kept db db'"
    proof (cases "lookup_by ad_key_hash (sha h) (ib_commands db)")
      case (Some cmd)
      then show ?thesis using tx by (auto simp: admin_command_tx_def links_kept_refl split: sum.splits)
    next
      case None
      have reason: "operation \<noteq> Admin_Discovery \<Longrightarrow> btrim r \<noteq> [] \<and> list_all reason_char r"
        using 2(4) safe_reason_value_ok by simp
      obtain contact' company' res db2 where
        path: "link_path True (db\<lparr>ib_commands := ib_commands db @
          [new_command (sha h) operation contact' company' (print operation c k r) db],
          ib_next_command := ib_next_command db + 1\<rparr>) db2"
        and db': "db' = db2\<lparr>ib_commands := update_where (\<lambda>c. ad_id c = ib_next_command db)
          (\<lambda>c. c\<lparr>ad_completed := True, ad_result := Some res\<rparr>) (ib_commands db2)\<rparr>"
        by (rule admin_tx_result[OF tx None reason])
      show ?thesis using links_kept_path[OF path] by (simp add: links_kept_def db')
    qed
    then show ?thesis unfolding 2(1) by (simp add: transaction_def Inr p)
  qed
qed (simp add: links_kept_refl)

lemma identity_step_links:
  assumes "identity_inv db"
  shows "links_kept db (identity_step sha print op db)"
proof (cases op)
  case (Admin now py_now dir operation contact company reason key)
  then show ?thesis using admin_step_links by simp
next
  case (Resolve_Cycle now dir cycle_rows pid contact rule t)
  then show ?thesis using resolve_step_links assms by (simp add: identity_inv_def)
qed (simp_all add: links_kept_path[OF discover_path] links_kept_path[OF discover_all_path]
    links_kept_path[OF confirm_path] links_kept_path[OF confirm_external_path] links_kept_path[OF reject_path])

interpretation resolutions: snapshot_table ib_resolutions cr_cycle_id "identity_step sha print" identity_inv
  for sha print
  by unfold_locales
    (use identity_step_added in \<open>simp_all add: identity_step_inv only_added_def, simp add: identity_inv_def\<close>)

interpretation commands: snapshot_table ib_commands ad_key_hash "identity_step sha print" identity_inv
  for sha print
  by unfold_locales
    (use identity_step_added in \<open>simp_all add: identity_step_inv only_added_def, simp add: identity_inv_def commands_inv_def\<close>)

section \<open>Properties\<close>

text \<open>C27: In every reachable state of the identity tables a contact has at most one confirmed company, a
  contact and a company have at most one link, every link satisfies the constraints of its state,
  the transition log has no two entries with one key, a cycle has at most one resolution, a
  confirmed resolution names a link of its contact and no resolution is a conflict, and every
  stored administrative command is completed with its result.\<close>
theorem identity_reachable_inv:
  assumes "identity_reachable sha print db"
  shows "(\<forall>l m. l \<in> set (ib_links db) \<and> m \<in> set (ib_links db) \<and> il_state l = Link_Confirmed \<and>
      il_state m = Link_Confirmed \<and> il_contact_id l = il_contact_id m \<longrightarrow> l = m) \<and>
    distinct (map (\<lambda>l. (il_contact_id l, il_company_id l)) (ib_links db)) \<and>
    list_all link_check (ib_links db) \<and> distinct (map lt_key (ib_transitions db)) \<and>
    distinct (map cr_cycle_id (ib_resolutions db)) \<and>
    list_all (resolution_ok db) (ib_resolutions db) \<and>
    distinct (map ad_key_hash (ib_commands db)) \<and>
    list_all (\<lambda>c. ad_completed c \<and> ad_result c \<noteq> None) (ib_commands db)"
proof -
  have inv: "identity_inv db" by (rule identity_reachable_invariant[OF assms])
  then have "links_inv db" by (simp add: identity_inv_def)
  then have "l = m" if "l \<in> set (ib_links db)" "m \<in> set (ib_links db)" "il_state l = Link_Confirmed"
    "il_state m = Link_Confirmed" "il_contact_id l = il_contact_id m" for l m
    using confirmed_unique[of db "il_contact_id m" l m] that by (simp add: confirmed_for_def)
  then show ?thesis
    using inv by (auto simp: identity_inv_def links_inv_def keys_distinct_def commands_inv_def list_all_iff)
qed

definition demo_directory :: directory_db where
  "demo_directory =
    \<lparr>dir_companies =
       [\<lparr>co_id = 7, co_external_id = ''77'', co_is_present = True, co_is_active = Some True\<rparr>,
        \<lparr>co_id = 8, co_external_id = ''88'', co_is_present = True, co_is_active = None\<rparr>],
     dir_departments = [], dir_company_departments = [],
     dir_contacts =
       [\<lparr>dk_id = 70, dk_company_id = 7, dk_normalized_mobile = Some ''5511987654321'',
         dk_normalized_email = None, dk_is_present = True, dk_is_active = True\<rparr>],
     dir_digisac_contacts =
       [\<lparr>dc_id = 1, dc_external_id = ''c1'', dc_normalized_number = Some ''551187654321'',
         dc_normalized_email = None, dc_is_group = Some False\<rparr>],
     dir_digisac_departments = [], dir_assignments = []\<rparr>"

definition demo_sha :: "string \<Rightarrow> string" where
  "demo_sha v = replicate 64 (CHR ''0'')"

definition demo_print :: "admin_operation \<Rightarrow> string \<Rightarrow> string option \<Rightarrow> string \<Rightarrow> string" where
  "demo_print operation contact company reason =
    (case operation of Admin_Confirm \<Rightarrow> ''confirm:'' | Admin_Reject \<Rightarrow> ''reject:'' | Admin_Discovery \<Rightarrow> ''discovery:'')
      @ contact @ reason"

text \<open>A discovery finds company 7 through the mobile variant; then it is confirmed.\<close>

definition demo_confirmed :: identity_db where
  "demo_confirmed = identity_step demo_sha demo_print (Confirm 20 demo_directory 1 7 (Some 20) None)
    (identity_step demo_sha demo_print (Discover 10 demo_directory 1 ''r1'' 10) empty_identity_db)"

lemma demo_identity_reachable: "identity_reachable demo_sha demo_print demo_confirmed"
  unfolding demo_confirmed_def by (intro identity_next identity_start)

theorem identity_reachable_inv_witness:
  "list_all link_check (ib_links demo_confirmed) \<and>
   distinct (map (\<lambda>l. (il_contact_id l, il_company_id l)) (ib_links demo_confirmed)) \<and>
   map il_state (ib_links demo_confirmed) = [Link_Confirmed]"
proof -
  have "map il_state (ib_links demo_confirmed) = [Link_Confirmed]" by code_simp
  then show ?thesis using identity_reachable_inv[OF demo_identity_reachable] by simp
qed

text \<open>Discovery, batch discovery and the resolution of a cycle never change, confirm or reject an
  existing link: they only add candidate links.\<close>
theorem discovery_only_adds_candidates:
  assumes "identity_reachable sha print db"
  shows "(\<exists>ls. ib_links (snd (discover_identity sha now dir contact rule t db)) = ib_links db @ ls \<and>
      list_all (\<lambda>l. il_state l = Link_Candidate) ls) \<and>
    (\<exists>ls. ib_links (snd (discover_all_identities sha nows dir rule t db)) = ib_links db @ ls \<and>
      list_all (\<lambda>l. il_state l = Link_Candidate) ls) \<and>
    (\<exists>ls. ib_links (snd (resolve_cycle_identity sha now dir cycle_rows pid contact rule t db)) =
      ib_links db @ ls \<and> list_all (\<lambda>l. il_state l = Link_Candidate) ls)"
proof -
  have "links_inv db" using identity_reachable_invariant[OF assms] by (simp add: identity_inv_def)
  then show ?thesis
    by (intro conjI link_path_append[OF discover_path] link_path_append[OF discover_all_path]
        resolve_links_append)
qed

theorem discovery_only_adds_candidates_witness:
  "\<exists>ls. ib_links (snd (discover_identity demo_sha 30 demo_directory 1 ''r1'' 30 demo_confirmed)) =
    ib_links demo_confirmed @ ls \<and> list_all (\<lambda>l. il_state l = Link_Candidate) ls"
  using discovery_only_adds_candidates[OF demo_identity_reachable] by blast

lemma resolve_identity_cases:
  assumes "resolve_cycle_identity sha now dir cycle_rows pid contact rule t db = (Inr row, db')"
  obtains r c where "lookup_by cy_public_id pid cycle_rows = Some c"
    "resolve_cycle_tx sha now dir c contact r t db = Inr (row, db')"
  using assms that unfolding resolve_cycle_identity_def
  by (auto simp: transaction_def split: sum.splits option.splits)

lemma confirmed_for_append:
  assumes "ib_links db' = ib_links db @ ls" and "list_all (\<lambda>l. il_state l = Link_Candidate) ls"
  shows "confirmed_for c db' l \<longleftrightarrow> confirmed_for c db l"
  using assms by (auto simp: confirmed_for_def list_all_iff)

text \<open>C28: The first resolution of a cycle is confirmed exactly when the contact has a confirmed link, and
  then it names that link; otherwise it names no link and is ambiguous or unresolved.\<close>
theorem cycle_identity_decides:
  assumes "identity_reachable sha print db"
    and "resolve_cycle_identity sha now dir cycle_rows pid contact rule t db = (Inr row, db')"
    and "get_cycle_identity_resolution cycle_rows pid db = None"
  shows "(\<forall>l. l \<in> set (ib_links db) \<and> il_contact_id l = contact \<and> il_state l = Link_Confirmed \<longrightarrow>
      cr_state row = Res_Confirmed \<and> cr_link_id row = Some (il_id l)) \<and>
    ((\<nexists>l. l \<in> set (ib_links db) \<and> il_contact_id l = contact \<and> il_state l = Link_Confirmed) \<longrightarrow>
      cr_link_id row = None \<and> (cr_state row = Res_Ambiguous \<or> cr_state row = Res_Unresolved))"
proof -
  have inv: "links_inv db" using identity_reachable_invariant[OF assms(1)] by (simp add: identity_inv_def)
  obtain r c where c: "lookup_by cy_public_id pid cycle_rows = Some c"
    and tx: "resolve_cycle_tx sha now dir c contact r t db = Inr (row, db')"
    by (rule resolve_identity_cases[OF assms(2)])
  have none: "lookup_by cr_cycle_id (cy_id c) (ib_resolutions db) = None"
    using assms(3) c by (simp add: get_cycle_identity_resolution_def)
  obtain es db1 where r: "link_path False db db1" "links_inv db1"
    "cr_state row = resolution_of (di_state (discovery_outcome contact es db1))"
    "cr_link_id row = (if cr_state row = Res_Confirmed
       then Some (hd (di_link_ids (discovery_outcome contact es db1))) else None)"
    by (rule resolve_tx_result[OF tx none inv])
  have same: "confirmed_for contact db1 l \<longleftrightarrow> confirmed_for contact db l" for l
    using link_path_append[OF r(1)] confirmed_for_append by blast
  have "cr_state row = Res_Confirmed \<and> cr_link_id row = Some (il_id l)" if "confirmed_for contact db1 l" for l
    unfolding r(3,4) discovery_outcome_confirmed[OF r(2) that] by (simp add: resolution_of_def)
  moreover have "cr_link_id row = None \<and> (cr_state row = Res_Ambiguous \<or> cr_state row = Res_Unresolved)"
    if "\<nexists>l. confirmed_for contact db1 l"
    unfolding r(3,4) discovery_outcome_open[OF r(2) that] by (simp add: resolution_of_def)
  ultimately show ?thesis unfolding same unfolding confirmed_for_def by blast
qed

definition identity_cycles :: "cycle list" where
  "identity_cycles = [new_cycle 1 ''u1'' ''conv'' 1 ''webhook'' 5]"

definition demo_resolution :: "(py_error + cycle_resolution) \<times> identity_db" where
  "demo_resolution =
    resolve_cycle_identity demo_sha 40 demo_directory identity_cycles ''u1'' 1 ''r1'' 40 demo_confirmed"

definition demo_row :: cycle_resolution where
  "demo_row = \<lparr>cr_id = 1, cr_cycle_id = 1, cr_contact_id = 1, cr_state = Res_Confirmed,
    cr_origin = ''automatic'', cr_reason = ''confirmed_link'', cr_link_id = Some 1, cr_resolved_at = 40\<rparr>"

lemma demo_resolution_row:
  "resolve_cycle_identity demo_sha 40 demo_directory identity_cycles ''u1'' 1 ''r1'' 40 demo_confirmed =
    (Inr demo_row, snd demo_resolution)"
proof -
  have "fst demo_resolution = Inr demo_row" by code_simp
  then show ?thesis unfolding demo_resolution_def by (metis prod.collapse)
qed

theorem cycle_identity_decides_witness:
  "cr_state demo_row = Res_Confirmed \<and>
   cr_link_id demo_row = Some (il_id (hd (ib_links demo_confirmed)))"
proof -
  have none: "get_cycle_identity_resolution identity_cycles ''u1'' demo_confirmed = None" by code_simp
  have "hd (ib_links demo_confirmed) \<in> set (ib_links demo_confirmed)"
    by (rule hd_in_set) code_simp
  moreover have "il_contact_id (hd (ib_links demo_confirmed)) = 1" by code_simp
  moreover have "il_state (hd (ib_links demo_confirmed)) = Link_Confirmed" by code_simp
  ultimately show ?thesis
    using cycle_identity_decides[OF demo_identity_reachable demo_resolution_row none] by blast
qed

lemma resolution_stored:
  assumes "resolve_cycle_tx sha now dir c contact r t db = Inr (row, db')" and "links_inv db"
  shows "lookup_by cr_cycle_id (cy_id c) (ib_resolutions db') = Some row"
proof (cases "lookup_by cr_cycle_id (cy_id c) (ib_resolutions db)")
  case (Some x)
  then show ?thesis using assms by (simp add: resolve_cycle_tx_def)
next
  case None
  show ?thesis
    by (rule resolve_tx_result[OF assms(1) None assms(2)])
      (use None in \<open>simp add: lookup_by_append link_path_def\<close>)
qed

text \<open>The identity of a cycle is immutable: once it is resolved, whatever discoveries, confirmations,
  rejections and administrative commands run later, reading it gives the same row, and resolving it
  again, for whatever contact, rule, time and directory, gives that row and changes nothing.\<close>
theorem cycle_identity_immutable:
  assumes "identity_reachable sha print db"
    and "resolve_cycle_identity sha now dir cycle_rows pid contact rule t db = (Inr row, db')"
    and "safe_value rule2 = Inr r2"
  shows "get_cycle_identity_resolution cycle_rows pid (fold (identity_step sha print) ops db') = Some row \<and>
    resolve_cycle_identity sha now2 dir2 cycle_rows pid contact2 rule2 t2
        (fold (identity_step sha print) ops db') =
      (Inr row, fold (identity_step sha print) ops db')"
proof -
  have inv: "identity_inv db" by (rule identity_reachable_invariant[OF assms(1)])
  then have links: "links_inv db" by (simp add: identity_inv_def)
  obtain r c where c: "lookup_by cy_public_id pid cycle_rows = Some c"
    and tx: "resolve_cycle_tx sha now dir c contact r t db = Inr (row, db')"
    by (rule resolve_identity_cases[OF assms(2)])
  have "lookup_by cr_cycle_id (cy_id c) (ib_resolutions (fold (identity_step sha print) ops db')) = Some row"
    by (rule resolutions.lookup_kept[OF resolve_tx_inv[OF tx inv] resolution_stored[OF tx links]])
  then show ?thesis
    by (simp add: get_cycle_identity_resolution_def resolve_cycle_identity_def resolve_cycle_tx_def
        transaction_def c assms(3))
qed

theorem cycle_identity_immutable_witness:
  "get_cycle_identity_resolution identity_cycles ''u1''
     (identity_step demo_sha demo_print (Reject 50 demo_directory 1 7 ''wrong'') (snd demo_resolution)) =
   Some demo_row"
proof -
  have "safe_value ''r2'' = Inr ''r2''" by code_simp
  then show ?thesis
    using cycle_identity_immutable[OF demo_identity_reachable demo_resolution_row,
        of "''r2''" "''r2''" "[Reject 50 demo_directory 1 7 ''wrong'']"] by simp
qed

lemma admin_result_stored:
  assumes "identity_inv db"
    and "execute_admin_identity_link_command sha print now py_now dir operation contact company reason key db =
      (Inr (replayed, result), db')"
  obtains c k r h cmd where "safe_opaque_reference contact = Inr c" "opt_safe_reference company = Inr k"
    "(if operation = Admin_Discovery then Inr [] else safe_reason_value reason) = Inr r"
    "safe_opaque_reference key = Inr h" "lookup_by ad_key_hash (sha h) (ib_commands db') = Some cmd"
    "ad_request_fingerprint cmd = print operation c k r" "ad_completed cmd" "ad_result cmd = Some result"
    "replayed \<longleftrightarrow> lookup_by ad_key_hash (sha h) (ib_commands db) \<noteq> None"
proof (cases rule: execute_admin_cases[of sha print now py_now dir operation contact company reason key db])
  case (2 c k r h)
  have tx: "admin_command_tx sha now py_now dir operation c k r (sha h) (print operation c k r) db =
      Inr ((replayed, result), db')"
    using assms(2) unfolding 2(1) transaction_def by (auto split: sum.splits)
  show thesis
  proof (cases "lookup_by ad_key_hash (sha h) (ib_commands db)")
    case (Some cmd)
    then have cmd: "ad_request_fingerprint cmd = print operation c k r" "ad_completed cmd"
        "ad_result cmd = Some result" "db' = db" "replayed"
      using tx by (auto simp: admin_command_tx_def admin_command_replay_def Let_def
          split: if_splits option.splits sum.splits)
    show thesis by (rule that[OF 2(2-5) _ cmd(1-3)]) (use Some cmd in simp_all)
  next
    case None
    have reason: "operation \<noteq> Admin_Discovery \<Longrightarrow> btrim r \<noteq> [] \<and> list_all reason_char r"
      using 2(4) safe_reason_value_ok by simp
    have cmds: "commands_inv db" using assms(1) by (simp add: identity_inv_def)
    obtain cmd where cmd: "ib_commands db' = ib_commands db @ [cmd]" "ad_key_hash cmd = sha h"
      "ad_request_fingerprint cmd = print operation c k r" "ad_completed cmd" "ad_result cmd = Some result"
      "\<not> replayed"
      by (rule admin_tx_added[OF tx reason cmds None]) auto
    show thesis
      by (rule that[OF 2(2-5) _ cmd(3-5)]) (use None cmd in \<open>simp_all add: lookup_by_append\<close>)
  qed
qed (use assms(2) in simp)

definition command_values ::
  "admin_operation \<Rightarrow> string \<Rightarrow> string option \<Rightarrow> string \<Rightarrow> (string \<times> string option \<times> string) option" where
  "command_values operation contact company reason =
    (case (safe_opaque_reference contact, opt_safe_reference company,
           if operation = Admin_Discovery then Inr [] else safe_reason_value reason) of
       (Inr c, Inr k, Inr r) \<Rightarrow> Some (c, k, r)
     | _ \<Rightarrow> None)"

lemma command_values_Some:
  "command_values operation contact company reason = Some (c, k, r) \<longleftrightarrow>
    safe_opaque_reference contact = Inr c \<and> opt_safe_reference company = Inr k \<and>
    (if operation = Admin_Discovery then Inr [] else safe_reason_value reason) = Inr r"
  unfolding command_values_def
  by (cases "safe_opaque_reference contact"; cases "opt_safe_reference company";
      cases "if operation = Admin_Discovery then Inr [] else safe_reason_value reason") auto

lemma execute_on_stored:
  assumes "command_values operation contact company reason = Some (c, k, r)"
    and "safe_opaque_reference key = Inr h"
    and "lookup_by ad_key_hash (sha h) (ib_commands db) = Some cmd" and "ad_completed cmd"
    and "ad_result cmd = Some result"
  shows "execute_admin_identity_link_command sha print now py_now dir operation contact company reason key db =
    (if ad_request_fingerprint cmd = print operation c k r then Inr (True, result)
     else Inl (IdentityResolutionError ''incompatible_command''
       ''the administrative command key was already used for another command''), db)"
proof -
  have v: "safe_opaque_reference contact = Inr c" "opt_safe_reference company = Inr k"
    "(if operation = Admin_Discovery then Inr [] else safe_reason_value reason) = Inr r"
    using assms(1) unfolding command_values_Some by blast+
  show ?thesis
    unfolding execute_admin_identity_link_command_def v assms(2)
    using assms(3-5)
    by (simp add: transaction_def admin_command_tx_def admin_command_replay_def Let_def)
qed

text \<open>C29: Administrative commands are idempotent: after a command with some key returned a result,
  whatever runs later, the same command with that key returns that result as a replay and changes
  nothing, and a command with that key and another request is refused and changes nothing.\<close>
theorem admin_command_idempotent:
  assumes "identity_reachable sha print db"
    and "execute_admin_identity_link_command sha print now py_now dir operation contact company reason key db =
      (Inr (replayed, result), db')"
    and "command_values operation contact company reason = Some (c, k, r)"
    and "command_values operation2 contact2 company2 reason2 = Some (c2, k2, r2)"
  shows "execute_admin_identity_link_command sha print now2 py_now2 dir2 operation2 contact2 company2 reason2 key
      (fold (identity_step sha print) ops db') =
    (if print operation2 c2 k2 r2 = print operation c k r then Inr (True, result)
     else Inl (IdentityResolutionError ''incompatible_command''
       ''the administrative command key was already used for another command''),
     fold (identity_step sha print) ops db')"
proof -
  have inv: "identity_inv db" by (rule identity_reachable_invariant[OF assms(1)])
  obtain c' k' r' h cmd where s: "safe_opaque_reference contact = Inr c'" "opt_safe_reference company = Inr k'"
    "(if operation = Admin_Discovery then Inr [] else safe_reason_value reason) = Inr r'"
    "safe_opaque_reference key = Inr h" "lookup_by ad_key_hash (sha h) (ib_commands db') = Some cmd"
    "ad_request_fingerprint cmd = print operation c' k' r'" "ad_completed cmd" "ad_result cmd = Some result"
    by (rule admin_result_stored[OF inv assms(2)])
  have eq: "c' = c" "k' = k" "r' = r" using s(1-3) assms(3) unfolding command_values_Some by simp_all
  have inv': "identity_inv db'" using admin_step_inv[OF inv] assms(2) by (metis snd_conv)
  have kept: "lookup_by ad_key_hash (sha h) (ib_commands (fold (identity_step sha print) ops db')) = Some cmd"
    by (rule commands.lookup_kept[OF inv' s(5)])
  show ?thesis
    unfolding execute_on_stored[where sha = sha, OF assms(4) s(4) kept s(7,8)] s(6) eq by (simp add: eq_commute)
qed

definition demo_admin :: "(py_error + bool \<times> admin_result) \<times> identity_db" where
  "demo_admin = execute_admin_identity_link_command demo_sha demo_print 60 60 demo_directory Admin_Reject
    ''c1'' (Some ''77'') ''wrong'' ''k1'' demo_confirmed"

definition demo_admin_result :: admin_result where
  "demo_admin_result = Link_Result
    \<lparr>lr_contact_external_id = ''c1'', lr_company_external_id = ''77'', lr_state = Link_Rejected,
     lr_source = ''admin_api'', lr_confirmation_source = None, lr_confirmed_at = None,
     lr_rejection_reason = Some ''wrong'', lr_created_at = 10, lr_updated_at = 60\<rparr>"

theorem admin_command_idempotent_witness:
  "fst (execute_admin_identity_link_command demo_sha demo_print 90 90 demo_directory Admin_Reject
     ''c1'' (Some ''77'') ''wrong'' ''k1'' (snd demo_admin)) = Inr (True, demo_admin_result)"
proof -
  have "fst demo_admin = Inr (False, demo_admin_result)" by code_simp
  then have first: "execute_admin_identity_link_command demo_sha demo_print 60 60 demo_directory Admin_Reject
    ''c1'' (Some ''77'') ''wrong'' ''k1'' demo_confirmed = (Inr (False, demo_admin_result), snd demo_admin)"
    unfolding demo_admin_def by (metis prod.collapse)
  have v: "command_values Admin_Reject ''c1'' (Some ''77'') ''wrong'' = Some (''c1'', Some ''77'', ''wrong'')"
    by code_simp
  show ?thesis using admin_command_idempotent[OF demo_identity_reachable first v v, of 90 90 demo_directory "[]"] by simp
qed

section \<open>The Brazilian mobile variant\<close>

lemma split_2_2: "xs = take 2 xs @ take 2 (drop 2 xs) @ drop 4 xs"
proof -
  have "drop 4 xs = drop 2 (drop 2 xs)" by simp
  then show ?thesis by (simp only: append_take_drop_id)
qed

lemma digit_number_le: "digit c \<Longrightarrow> digit_number c \<le> 9"
  by (auto simp: digit_def ascii_digits_def digit_number_def)

lemma two_digits_le:
  assumes "length d = 2" and "list_all digit d"
  shows "two_digits d \<le> 99"
proof -
  have "digit (d ! 0)" "digit (d ! 1)" using assms by (simp_all add: list_all_length)
  then show ?thesis using digit_number_le[of "d ! 0"] digit_number_le[of "d ! 1"] by (simp add: two_digits_def)
qed

definition variant_pair :: "string \<Rightarrow> string \<Rightarrow> bool" where
  "variant_pair short long \<longleftrightarrow>
    (\<exists>ddd local. length ddd = 2 \<and> length local = 8 \<and> list_all digit (ddd @ local) \<and>
      11 \<le> two_digits ddd \<and> hd local \<in> set ''6789'' \<and>
      short = ''55'' @ ddd @ local \<and> long = ''55'' @ ddd @ ''9'' @ local)"

lemma variant_pair_iff:
  assumes "length short = 12" and "length long = 13"
  shows "variant_pair short long \<longleftrightarrow>
    list_all digit short \<and> list_all digit long \<and> take 2 short = ''55'' \<and> take 2 long = ''55'' \<and>
    take 2 (drop 2 short) = take 2 (drop 2 long) \<and> 11 \<le> two_digits (take 2 (drop 2 short)) \<and>
    drop 4 short ! 0 \<in> set ''6789'' \<and> take 1 (drop 4 long) = ''9'' \<and> drop 1 (drop 4 long) = drop 4 short"
    (is "_ \<longleftrightarrow> ?R")
proof
  assume ?R
  let ?d = "take 2 (drop 2 short)" and ?l = "drop 4 short"
  have "short = ''55'' @ ?d @ ?l" using split_2_2[of short] \<open>?R\<close> by simp
  moreover have "drop 4 long = ''9'' @ ?l"
    using append_take_drop_id[of 1 "drop 4 long"] \<open>?R\<close> by simp
  then have "long = ''55'' @ ?d @ ''9'' @ ?l" using split_2_2[of long] \<open>?R\<close> by simp
  moreover have "list_all digit (?d @ ?l)"
    using \<open>?R\<close> by (auto simp: list_all_iff dest: in_set_takeD in_set_dropD)
  moreover have "hd ?l = ?l ! 0" by (rule hd_conv_nth) (use assms in auto)
  moreover have "length ?d = 2" "length ?l = 8" using assms by simp_all
  ultimately show "variant_pair short long" unfolding variant_pair_def using \<open>?R\<close> by metis
next
  assume "variant_pair short long"
  then obtain d l where l: "length d = 2" "length l = 8" "list_all digit (d @ l)" "11 \<le> two_digits d"
    "hd l \<in> set ''6789''" "short = ''55'' @ d @ l" "long = ''55'' @ d @ ''9'' @ l"
    unfolding variant_pair_def by blast
  have "l ! 0 = hd l" using l(2) by (intro hd_conv_nth[symmetric]) auto
  then show ?R
    using l by (simp add: digit_def ascii_digits_def)
qed

lemma variant_ordered:
  assumes "length short = 12" and "length long = 13"
  shows "is_brazilian_mobile_variant short long \<longleftrightarrow> variant_pair short long"
    and "is_brazilian_mobile_variant long short \<longleftrightarrow> variant_pair short long"
proof -
  have le: "two_digits (take 2 (drop 2 short)) \<le> 99" if "list_all digit short"
    by (rule two_digits_le) (use that assms in \<open>auto simp: list_all_iff dest: in_set_takeD in_set_dropD\<close>)
  have ne: "short \<noteq> []" "long \<noteq> []" using assms by auto
  have lens: "length ''55'' = 2" "length ''9'' = 1" by simp_all
  show "is_brazilian_mobile_variant short long \<longleftrightarrow> variant_pair short long"
    unfolding variant_pair_iff[OF assms] is_brazilian_mobile_variant_def is_ascii_digits_def py_startswith_def Let_def lens
    using assms le ne by auto
  show "is_brazilian_mobile_variant long short \<longleftrightarrow> variant_pair short long"
    unfolding variant_pair_iff[OF assms] is_brazilian_mobile_variant_def is_ascii_digits_def py_startswith_def Let_def lens
    using assms le ne by auto
qed

lemma variant_lengths:
  assumes "is_brazilian_mobile_variant a b"
  shows "length a = 12 \<and> length b = 13 \<or> length a = 13 \<and> length b = 12"
  using assms unfolding is_brazilian_mobile_variant_def Let_def by (auto split: if_splits)

lemma variant_pair_lengths: "variant_pair short long \<Longrightarrow> length short = 12 \<and> length long = 13"
  by (auto simp: variant_pair_def)

text \<open>Two numbers match as Brazilian mobile variants exactly when one is 55, a two digit area code
  from 11, and an eight digit local number beginning with 6, 7, 8 or 9, and the other is the same with
  a 9 before the local number; so the relation is symmetric.\<close>
theorem brazilian_variant_exact:
  "is_brazilian_mobile_variant a b \<longleftrightarrow>
    (\<exists>ddd local. length ddd = 2 \<and> length local = 8 \<and> list_all digit (ddd @ local) \<and>
      11 \<le> two_digits ddd \<and> hd local \<in> set ''6789'' \<and>
      {a, b} = {''55'' @ ddd @ local, ''55'' @ ddd @ ''9'' @ local})"
proof -
  have "is_brazilian_mobile_variant a b \<longleftrightarrow> variant_pair a b \<or> variant_pair b a"
  proof
    assume v: "is_brazilian_mobile_variant a b"
    then show "variant_pair a b \<or> variant_pair b a"
      using variant_lengths[OF v] variant_ordered by metis
  next
    assume "variant_pair a b \<or> variant_pair b a"
    then show "is_brazilian_mobile_variant a b"
      using variant_pair_lengths variant_ordered by metis
  qed
  also have "\<dots> \<longleftrightarrow> (\<exists>ddd local. length ddd = 2 \<and> length local = 8 \<and> list_all digit (ddd @ local) \<and>
      11 \<le> two_digits ddd \<and> hd local \<in> set ''6789'' \<and>
      {a, b} = {''55'' @ ddd @ local, ''55'' @ ddd @ ''9'' @ local})"
    unfolding variant_pair_def doubleton_eq_iff by blast
  finally show ?thesis .
qed

text \<open>Confirming a rejected link again with the instant of its first confirmation changes the link and
  leaves no entry in the log: the key of the entry is taken.\<close>

definition demo_rejected :: identity_db where
  "demo_rejected = identity_step demo_sha demo_print (Reject 50 demo_directory 1 7 ''wrong'') demo_confirmed"

lemma reconfirmation_not_logged:
  "(let again = identity_step demo_sha demo_print (Confirm 70 demo_directory 1 7 (Some 20) None) demo_rejected
    in map il_state (ib_links demo_rejected) = [Link_Rejected] \<and> map il_state (ib_links again) = [Link_Confirmed] \<and>
       map lt_to (ib_transitions again) = [Link_Candidate, Link_Confirmed, Link_Rejected])"
  by code_simp

end
