(* ===== verification/Department_Mapping.thy ===== *)
theory Department_Mapping
  imports Identity_Correctness
begin

text \<open>
  Department mapping (\<open>src/core/department_mapping.py\<close>): the rules that map a DigiSac department to an
  Acessorias department, their versions and transition log, and the immutable mapping snapshots of a
  cycle.  The advisory lock makes each transaction atomic; \<open>sha\<close> is SHA-256.
\<close>

section \<open>Arguments\<close>

definition external_id :: "string \<Rightarrow> string \<Rightarrow> py_error + string" where
  "external_id value field =
    (let normalized = py_strip value
     in if normalized = [] \<or> 240 < length normalized \<or>
          list_ex (\<lambda>c. c \<in> {CHR 0x0D, CHR 0x0A, CHR 0x00}) normalized
        then Inl (ValueError (field @ '' must be a nonblank stable ID'')) else Inr normalized)"

definition mapping_reason :: "string \<Rightarrow> py_error + string" where
  "mapping_reason value =
    (let normalized = py_lower (py_strip value)
     in if 1 \<le> length normalized \<and> length normalized \<le> 120 \<and> list_all reason_char normalized
        then Inr normalized else Inl (ValueError ''reason must be a safe nonblank category''))"

definition mapping_actor :: "string option \<Rightarrow> py_error + string option" where
  "mapping_actor value =
    (case value of
       None \<Rightarrow> Inr None
     | Some v \<Rightarrow>
        (let normalized = py_lower (py_strip v)
         in if 1 \<le> length normalized \<and> length normalized \<le> 120 \<and> list_all safe_value_char normalized
            then Inr (Some normalized)
            else Inl (ValueError ''actor must be a safe administrative identity'')))"

definition operation_text :: "string \<Rightarrow> bool" where
  "operation_text s \<longleftrightarrow> 1 \<le> length s \<and> length s \<le> 240 \<and> list_all safe_value_char s"

definition mapping_operation :: "string option \<Rightarrow> py_error + string option" where
  "mapping_operation value =
    (case value of
       None \<Rightarrow> Inr None
     | Some v \<Rightarrow>
        (let normalized = py_lower (py_strip v)
         in if operation_text normalized then Inr (Some normalized)
            else Inl (ValueError ''operation_key must be a safe nonblank value'')))"

fun split_dots :: "string \<Rightarrow> string list" where
  "split_dots [] = [[]]"
| "split_dots (c # s) =
    (if c = CHR ''.'' then [] # split_dots s
     else case split_dots s of p # ps \<Rightarrow> (c # p) # ps | [] \<Rightarrow> [[c]])"

definition FORBIDDEN_METADATA_KEY_PARTS :: "string list" where
  "FORBIDDEN_METADATA_KEY_PARTS =
    [''body'', ''content'', ''email'', ''header'', ''name'', ''phone'', ''payload'', ''secret'', ''token'']"

definition metadata_key_ok :: "string \<Rightarrow> bool" where
  "metadata_key_ok key \<longleftrightarrow>
    1 \<le> length key \<and> length key \<le> 64 \<and> list_all rule_char key \<and>
    \<not> list_ex (\<lambda>part. part \<in> set FORBIDDEN_METADATA_KEY_PARTS) (split_dots key)"

fun metadata_value :: "jvalue \<Rightarrow> jvalue option" where
  "metadata_value JNull = Some JNull"
| "metadata_value (JBool b) = Some (JBool b)"
| "metadata_value (JInt n) = Some (JInt n)"
| "metadata_value (JStr s) =
    (if operation_text (py_lower (py_strip s)) then Some (JStr (py_lower (py_strip s))) else None)"
| "metadata_value _ = None"

fun sanitize_items :: "jdict \<Rightarrow> jdict \<Rightarrow> py_error + jdict" where
  "sanitize_items [] sanitized = Inr sanitized"
| "sanitize_items ((raw_key, value) # items) sanitized =
    (let key = py_lower (py_strip raw_key)
     in if \<not> metadata_key_ok key then Inl (ValueError ''metadata contains an unsafe key'')
        else case metadata_value value of
               None \<Rightarrow> Inl (ValueError ''metadata values must be safe scalar values'')
             | Some v \<Rightarrow> sanitize_items items (dict_set sanitized key v))"

definition sanitize_metadata :: "jdict option \<Rightarrow> py_error + jdict" where
  "sanitize_metadata metadata =
    (case metadata of None \<Rightarrow> Inr [] | Some items \<Rightarrow> sanitize_items items [])"

section \<open>Tables\<close>

datatype rule_state = Rule_Active | Rule_Inactive

record mapping_rule =
  ru_id :: int
  ru_digisac :: string
  ru_target :: string
  ru_version :: int
  ru_state :: rule_state
  ru_reason :: string
  ru_actor :: "string option"
  ru_metadata :: jdict
  ru_effective_at :: time
  ru_created_at :: time
  ru_updated_at :: time

record mapping_transition =
  mt_rule_id :: int
  mt_from :: "rule_state option"
  mt_to :: rule_state
  mt_reason :: string
  mt_key :: string
  mt_actor :: "string option"
  mt_created_at :: time

record mapping_db =
  md_rules :: "mapping_rule list"
  md_transitions :: "mapping_transition list"
  md_snapshots :: "department_mapping list"
  md_next_rule :: int
  md_next_snapshot :: int

definition empty_mapping_db :: mapping_db where
  "empty_mapping_db =
    \<lparr>md_rules = [], md_transitions = [], md_snapshots = [], md_next_rule = 1, md_next_snapshot = 1\<rparr>"

definition mapping_conflict :: "string \<Rightarrow> py_error" where
  "mapping_conflict message = DepartmentMappingError ''mapping_conflict'' message"

section \<open>Rules\<close>

text \<open>The only constraint a transition can break is that of its key.\<close>

definition write_transition ::
  "time \<Rightarrow> int \<Rightarrow> rule_state option \<Rightarrow> rule_state \<Rightarrow> string \<Rightarrow> string \<Rightarrow> string option \<Rightarrow> mapping_db \<Rightarrow>
   py_error + mapping_db" where
  "write_transition now rule_id from_state to_state reason operation_key actor db =
    (if \<not> operation_text operation_key then Inl (CheckViolation ''department_mapping_transitions'')
     else case lookup_by mt_key operation_key (md_transitions db) of
       None \<Rightarrow> Inr (db\<lparr>md_transitions := md_transitions db @
           [\<lparr>mt_rule_id = rule_id, mt_from = from_state, mt_to = to_state, mt_reason = reason,
             mt_key = operation_key, mt_actor = actor, mt_created_at = now\<rparr>]\<rparr>)
     | Some existing \<Rightarrow>
        (if (mt_rule_id existing, mt_to existing, mt_reason existing, mt_actor existing) \<noteq>
            (rule_id, to_state, reason, actor)
         then Inl (mapping_conflict ''department mapping operation conflicts'') else Inr db))"

definition active_rule :: "string \<Rightarrow> mapping_db \<Rightarrow> mapping_rule option" where
  "active_rule digisac_id db =
    find (\<lambda>r. ru_digisac r = digisac_id \<and> ru_state r = Rule_Active) (md_rules db)"

definition latest_rule :: "string \<Rightarrow> mapping_db \<Rightarrow> mapping_rule option" where
  "latest_rule digisac_id db =
    (case sort_key ru_version (filter (\<lambda>r. ru_digisac r = digisac_id) (md_rules db)) of
       [] \<Rightarrow> None
     | r # rs \<Rightarrow> Some (last (r # rs)))"

definition next_version :: "string \<Rightarrow> mapping_db \<Rightarrow> int" where
  "next_version digisac_id db =
    max_or_zero (map ru_version (filter (\<lambda>r. ru_digisac r = digisac_id) (md_rules db))) + 1"

definition new_rule ::
  "time \<Rightarrow> string \<Rightarrow> string \<Rightarrow> rule_state \<Rightarrow> string \<Rightarrow> string option \<Rightarrow> jdict \<Rightarrow> time \<Rightarrow> mapping_db \<Rightarrow> mapping_rule" where
  "new_rule now digisac_id target_id state reason actor metadata effective_at db =
    \<lparr>ru_id = md_next_rule db, ru_digisac = digisac_id, ru_target = target_id,
     ru_version = next_version digisac_id db, ru_state = state, ru_reason = reason, ru_actor = actor,
     ru_metadata = metadata, ru_effective_at = effective_at, ru_created_at = now, ru_updated_at = now\<rparr>"

definition insert_rule ::
  "time \<Rightarrow> string \<Rightarrow> string \<Rightarrow> rule_state \<Rightarrow> string \<Rightarrow> string \<Rightarrow> string option \<Rightarrow> jdict \<Rightarrow> time \<Rightarrow> mapping_db \<Rightarrow>
   py_error + (mapping_rule \<times> mapping_db)" where
  "insert_rule now digisac_id target_id state reason operation_key actor metadata effective_at db =
    (let row = new_rule now digisac_id target_id state reason actor metadata effective_at db
     in on_value (write_transition now (ru_id row) None state reason operation_key actor
          (db\<lparr>md_rules := md_rules db @ [row], md_next_rule := md_next_rule db + 1\<rparr>))
        (\<lambda>db'. Inr (row, db')))"

definition update_rule :: "int \<Rightarrow> (mapping_rule \<Rightarrow> mapping_rule) \<Rightarrow> mapping_db \<Rightarrow> mapping_db" where
  "update_rule i f db = db\<lparr>md_rules := update_where (\<lambda>r. ru_id r = i) f (md_rules db)\<rparr>"

definition replay_mapping ::
  "bool \<Rightarrow> string \<Rightarrow> string option \<Rightarrow> string \<Rightarrow> mapping_db \<Rightarrow> (py_error + mapping_rule) option" where
  "replay_mapping active reason target_id operation_key db =
    (case lookup_by mt_key operation_key (md_transitions db) of
       None \<Rightarrow> None
     | Some t \<Rightarrow>
        (case lookup_by ru_id (mt_rule_id t) (md_rules db) of
           None \<Rightarrow> None
         | Some r \<Rightarrow>
            Some (if mt_to t \<noteq> (if active then Rule_Active else Rule_Inactive) \<or> mt_reason t \<noteq> reason \<or>
                    (target_id \<noteq> None \<and> Some (ru_target r) \<noteq> target_id)
                  then Inl (mapping_conflict ''operation_key was already used for another mapping operation'')
                  else Inr r)))"

definition activate_mapping ::
  "time \<Rightarrow> string \<Rightarrow> string \<Rightarrow> string \<Rightarrow> string option \<Rightarrow> string \<Rightarrow> jdict \<Rightarrow> time \<Rightarrow> mapping_rule option \<Rightarrow>
   mapping_db \<Rightarrow> py_error + (mapping_rule \<times> mapping_db)" where
  "activate_mapping now digisac_id target_id reason actor operation_key metadata timestamp current db =
    (case current of
       None \<Rightarrow> insert_rule now digisac_id target_id Rule_Active reason operation_key actor metadata timestamp db
     | Some c \<Rightarrow>
        (if ru_target c = target_id
         then on_value (write_transition now (ru_id c) (Some Rule_Active) Rule_Active reason operation_key actor db)
           (\<lambda>db'. Inr (c, db'))
         else on_value (write_transition now (ru_id c) (Some Rule_Active) Rule_Inactive ''mapping_replaced''
             (operation_key @ '':deactivate'') actor
             (update_rule (ru_id c) (\<lambda>r. r\<lparr>ru_state := Rule_Inactive, ru_updated_at := now\<rparr>) db))
           (insert_rule now digisac_id target_id Rule_Active reason operation_key actor metadata timestamp)))"

definition inactivate_mapping ::
  "time \<Rightarrow> string \<Rightarrow> string \<Rightarrow> string \<Rightarrow> string option \<Rightarrow> string \<Rightarrow> jdict \<Rightarrow> time \<Rightarrow> mapping_rule option \<Rightarrow>
   mapping_db \<Rightarrow> py_error + (mapping_rule \<times> mapping_db)" where
  "inactivate_mapping now digisac_id target_id reason actor operation_key metadata timestamp current db =
    (case current of
       None \<Rightarrow>
        (case latest_rule digisac_id db of
           Some latest \<Rightarrow>
             on_value (write_transition now (ru_id latest) (Some Rule_Inactive) Rule_Inactive reason
               operation_key actor db) (\<lambda>db'. Inr (latest, db'))
         | None \<Rightarrow> insert_rule now digisac_id target_id Rule_Inactive reason operation_key actor metadata
             timestamp db)
     | Some c \<Rightarrow>
        (let f = \<lambda>r. r\<lparr>ru_state := Rule_Inactive, ru_reason := reason, ru_actor := actor,
                        ru_metadata := metadata, ru_updated_at := now\<rparr>
         in on_value (write_transition now (ru_id c) (Some Rule_Active) Rule_Inactive reason operation_key
              actor (update_rule (ru_id c) f db))
            (\<lambda>db'. case lookup_by ru_id (ru_id c) (md_rules db') of
               None \<Rightarrow> Inl (RuntimeError ''inactivated department mapping is unavailable'')
             | Some row \<Rightarrow> Inr (row, db'))))"

definition configure_target ::
  "bool \<Rightarrow> string option \<Rightarrow> mapping_rule option \<Rightarrow> py_error + string" where
  "configure_target active target current =
    (if \<not> active \<and> current \<noteq> None \<and> target \<noteq> None \<and> map_option ru_target current \<noteq> target
     then Inl (mapping_conflict ''requested inactivation targets a different active rule'')
     else case target of
       Some t \<Rightarrow> Inr t
     | None \<Rightarrow>
        (case current of
           None \<Rightarrow> Inl (ValueError ''acessorias_department_external_id is required without an active rule'')
         | Some c \<Rightarrow> Inr (ru_target c)))"

definition configure_new ::
  "time \<Rightarrow> directory_db \<Rightarrow> string \<Rightarrow> string option \<Rightarrow> bool \<Rightarrow> string \<Rightarrow> string option \<Rightarrow> string \<Rightarrow> jdict \<Rightarrow> time \<Rightarrow>
   mapping_db \<Rightarrow> py_error + (mapping_rule \<times> mapping_db)" where
  "configure_new now dir digisac_id target active reason actor operation_key metadata timestamp db =
    (if digisac_id \<notin> set (dir_digisac_departments dir)
     then Inl (LookupError ''DigiSac department not found'')
     else
       (let current = active_rule digisac_id db
        in on_value (configure_target active target current) (\<lambda>target_id.
             if lookup_by de_external_id target_id (dir_departments dir) = None
             then Inl (LookupError ''Acessorias department not found'')
             else if active
             then activate_mapping now digisac_id target_id reason actor operation_key metadata timestamp current db
             else inactivate_mapping now digisac_id target_id reason actor operation_key metadata timestamp
               current db)))"

definition derived_operation :: "(string \<Rightarrow> string) \<Rightarrow> bool \<Rightarrow> string \<Rightarrow> string option \<Rightarrow> string \<Rightarrow> string" where
  "derived_operation sha active digisac_id target reason =
    MANUAL_SOURCE @ '':'' @ sha (MANUAL_SOURCE @ ''|'' @ (if active then ''active'' else ''inactive'') @ ''|'' @
      digisac_id @ ''|'' @ coalesce target ''current'' @ ''|'' @ reason)"

definition configure_tx ::
  "(string \<Rightarrow> string) \<Rightarrow> time \<Rightarrow> directory_db \<Rightarrow> string \<Rightarrow> string option \<Rightarrow> bool \<Rightarrow> string \<Rightarrow> string option \<Rightarrow>
   string option \<Rightarrow> jdict \<Rightarrow> time \<Rightarrow> mapping_db \<Rightarrow> py_error + (mapping_rule \<times> mapping_db)" where
  "configure_tx sha now dir digisac_id target active reason actor operation metadata timestamp db =
    (let key = coalesce operation (derived_operation sha active digisac_id target reason)
     in case replay_mapping active reason target key db of
          Some (Inl e) \<Rightarrow> Inl e
        | Some (Inr r) \<Rightarrow> Inr (r, db)
        | None \<Rightarrow> configure_new now dir digisac_id target active reason actor key metadata timestamp db)"

definition opt_external_id :: "string option \<Rightarrow> string \<Rightarrow> py_error + string option" where
  "opt_external_id value field =
    (case value of None \<Rightarrow> Inr None | Some v \<Rightarrow> on_value (external_id v field) (\<lambda>s. Inr (Some s)))"

definition configure_department_mapping ::
  "(string \<Rightarrow> string) \<Rightarrow> time \<Rightarrow> directory_db \<Rightarrow> string \<Rightarrow> string option \<Rightarrow> bool \<Rightarrow> string \<Rightarrow> string option \<Rightarrow>
   string option \<Rightarrow> jdict option \<Rightarrow> time \<Rightarrow> mapping_db \<Rightarrow> (py_error + mapping_rule) \<times> mapping_db" where
  "configure_department_mapping sha now dir digisac target active reason actor operation_key metadata
      timestamp db =
    transaction db
      (on_value (external_id digisac ''digisac_department_external_id'') (\<lambda>digisac_id.
       on_value (opt_external_id target ''acessorias_department_external_id'') (\<lambda>target_id.
       on_value (mapping_reason reason) (\<lambda>safe_reason.
       on_value (mapping_actor actor) (\<lambda>safe_actor.
       on_value (sanitize_metadata metadata) (\<lambda>safe_metadata.
       on_value (mapping_operation operation_key) (\<lambda>operation.
         configure_tx sha now dir digisac_id target_id active safe_reason safe_actor operation safe_metadata
           timestamp db)))))))"

section \<open>Snapshots\<close>

definition nonblank_text :: "string option \<Rightarrow> bool" where
  "nonblank_text x \<longleftrightarrow> (case x of None \<Rightarrow> True | Some s \<Rightarrow> btrim s \<noteq> [])"

definition snapshot_check :: "department_mapping \<Rightarrow> bool" where
  "snapshot_check m \<longleftrightarrow>
    operation_text (dm_evaluation_key m) \<and> dm_state m \<in> {''resolved'', ''unresolved'', ''invalid''} \<and>
    1 \<le> length (dm_reason m) \<and> length (dm_reason m) \<le> 120 \<and> list_all reason_char (dm_reason m) \<and>
    (case dm_rule_version m of None \<Rightarrow> True | Some v \<Rightarrow> 0 < v) \<and>
    nonblank_text (dm_digisac_department_external_id m) \<and> nonblank_text (dm_department_external_id m) \<and>
    (dm_state m \<noteq> ''resolved'' \<or>
      dm_rule_id m \<noteq> None \<and> dm_rule_version m \<noteq> None \<and> dm_digisac_department_external_id m \<noteq> None \<and>
      dm_department_external_id m \<noteq> None \<and> dm_company_id m \<noteq> None)"

definition find_snapshot :: "int \<Rightarrow> string \<Rightarrow> mapping_db \<Rightarrow> department_mapping option" where
  "find_snapshot cycle_id key db =
    find (\<lambda>m. dm_cycle_id m = cycle_id \<and> dm_evaluation_key m = key) (md_snapshots db)"

text \<open>\<open>row\<close> is the row to insert but for its id, which the table gives.\<close>

definition persist_evaluation ::
  "department_mapping \<Rightarrow> mapping_db \<Rightarrow> py_error + (department_mapping \<times> mapping_db)" where
  "persist_evaluation row db =
    (if \<not> snapshot_check row then Inl (CheckViolation ''conversation_cycle_department_mappings'')
     else case find_snapshot (dm_cycle_id row) (dm_evaluation_key row) db of
       Some existing \<Rightarrow> Inr (existing, db)
     | None \<Rightarrow>
        (let stored = row\<lparr>dm_id := md_next_snapshot db\<rparr>
         in Inr (stored, db\<lparr>md_snapshots := md_snapshots db @ [stored],
                            md_next_snapshot := md_next_snapshot db + 1\<rparr>)))"

definition base_validation :: "cycle \<Rightarrow> mapping_validation" where
  "base_validation cycle =
    \<lparr>va_assignment_history_id = None, va_cycle_started_at = cy_cycle_started_at cycle,
     va_ticket_closed_at = cy_ticket_closed_at cycle, va_identity_resolution_id = None,
     va_identity_link_id = None, va_company_id = None, va_rule_present = False,
     va_target_department_available = False, va_company_available = False,
     va_relationship_available = False, va_digisac_department_present = None\<rparr>"

definition snapshot_row ::
  "cycle \<Rightarrow> string \<Rightarrow> time \<Rightarrow> mapping_rule option \<Rightarrow> string option \<Rightarrow> int option \<Rightarrow> string \<Rightarrow> string \<Rightarrow>
   mapping_validation \<Rightarrow> department_mapping" where
  "snapshot_row cycle key timestamp rule department_id company_id state reason validation =
    \<lparr>dm_id = 0, dm_cycle_id = cy_id cycle, dm_evaluation_key = key,
     dm_rule_id = map_option ru_id rule, dm_rule_version = map_option ru_version rule,
     dm_digisac_department_external_id = department_id,
     dm_department_external_id = map_option ru_target rule, dm_company_id = company_id,
     dm_state = state, dm_reason = reason, dm_validation = validation, dm_evaluated_at = timestamp\<rparr>"

definition cycle_boundary :: "cycle \<Rightarrow> (time \<times> time) option" where
  "cycle_boundary cycle =
    (case (cy_cycle_started_at cycle, cy_ticket_closed_at cycle) of
       (Some start, Some stop) \<Rightarrow> (if stop < start then None else Some (start, stop))
     | _ \<Rightarrow> None)"

definition cycle_assignment :: "directory_db \<Rightarrow> cycle \<Rightarrow> time \<Rightarrow> time \<Rightarrow> ticket_assignment option" where
  "cycle_assignment dir cycle start stop =
    (case sort_key (\<lambda>a. (ta_event_timestamp a, ta_id a))
       (filter (\<lambda>a. ta_conversation_id a = cy_conversation_id cycle \<and> ta_department_id a \<noteq> None \<and>
          start \<le> ta_event_timestamp a \<and> ta_event_timestamp a \<le> stop) (dir_assignments dir)) of
       [] \<Rightarrow> None
     | a # as \<Rightarrow> Some (last (a # as)))"

text \<open>The resolution of the cycle, left joined with the link it names.\<close>

definition cycle_identity :: "identity_db \<Rightarrow> cycle \<Rightarrow> (cycle_resolution \<times> int option) option" where
  "cycle_identity ident cycle =
    (case lookup_by cr_cycle_id (cy_id cycle) (ib_resolutions ident) of
       None \<Rightarrow> None
     | Some r \<Rightarrow>
        Some (r, case cr_link_id r of
                   None \<Rightarrow> None
                 | Some i \<Rightarrow> map_option il_company_id (lookup_by il_id i (ib_links ident))))"

definition confirmed_company :: "(cycle_resolution \<times> int option) option \<Rightarrow> int option" where
  "confirmed_company identity =
    (case identity of
       None \<Rightarrow> None
     | Some (r, company) \<Rightarrow>
        (if cr_state r \<noteq> Res_Confirmed \<or> cr_link_id r = None then None else company))"

definition target_available :: "directory_db \<Rightarrow> string \<Rightarrow> bool" where
  "target_available dir target_id =
    (case lookup_by de_external_id target_id (dir_departments dir) of
       None \<Rightarrow> False | Some d \<Rightarrow> de_is_present d \<and> de_is_active d)"

definition company_available :: "directory_db \<Rightarrow> int \<Rightarrow> bool" where
  "company_available dir company_id =
    (case lookup_by co_id company_id (dir_companies dir) of
       None \<Rightarrow> False | Some k \<Rightarrow> co_is_present k \<and> is_true (co_is_active k))"

definition relationship_available :: "directory_db \<Rightarrow> int \<Rightarrow> string \<Rightarrow> bool" where
  "relationship_available dir company_id target_id =
    (case fetchone (filter (\<lambda>r. rel_company_id r = company_id \<and>
         list_ex (\<lambda>d. de_id d = rel_department_id r \<and> de_external_id d = target_id) (dir_departments dir))
         (dir_company_departments dir)) of
       None \<Rightarrow> False | Some r \<Rightarrow> rel_is_present r \<and> rel_is_active r)"

definition decide_with_rule ::
  "directory_db \<Rightarrow> cycle \<Rightarrow> string \<Rightarrow> time \<Rightarrow> string \<Rightarrow> int \<Rightarrow> mapping_validation \<Rightarrow> mapping_rule \<Rightarrow> department_mapping" where
  "decide_with_rule dir cycle key timestamp department_id company_id validation rule =
    (let t = target_available dir (ru_target rule); c = company_available dir company_id;
         r = relationship_available dir company_id (ru_target rule);
         v = validation\<lparr>va_rule_present := True, va_target_department_available := t,
               va_company_available := c, va_relationship_available := r\<rparr>;
         row = snapshot_row cycle key timestamp (Some rule) (Some department_id) (Some company_id)
     in if \<not> t then row ''invalid'' ''acessorias_department_unavailable'' v
        else if \<not> c then row ''invalid'' ''company_unavailable'' v
        else if \<not> r then row ''invalid'' ''company_department_unavailable'' v
        else row ''resolved'' ''mapping_validated'' v)"

definition decide_mapping ::
  "directory_db \<Rightarrow> identity_db \<Rightarrow> mapping_db \<Rightarrow> cycle \<Rightarrow> string \<Rightarrow> time \<Rightarrow> department_mapping" where
  "decide_mapping dir ident db cycle key timestamp =
    (let row = snapshot_row cycle key timestamp None; v0 = base_validation cycle
     in case cycle_boundary cycle of
          None \<Rightarrow> row None None ''unresolved'' ''cycle_boundary_insufficient'' v0
        | Some (start, stop) \<Rightarrow>
           (case cycle_assignment dir cycle start stop of
              None \<Rightarrow> row None None ''unresolved'' ''current_department_missing'' v0
            | Some a \<Rightarrow>
               (let department_id = the (ta_department_id a);
                    present = department_id \<in> set (dir_digisac_departments dir);
                    v1 = v0\<lparr>va_assignment_history_id := Some (ta_id a),
                            va_digisac_department_present := Some present\<rparr>
                in if \<not> present
                   then row (Some department_id) None ''invalid'' ''digisac_department_unavailable'' v1
                   else
                     (let identity = cycle_identity ident cycle;
                          v2 = (case identity of None \<Rightarrow> v1
                                | Some (r, _) \<Rightarrow> v1\<lparr>va_identity_resolution_id := Some (cr_id r),
                                    va_identity_link_id := cr_link_id r\<rparr>)
                      in case confirmed_company identity of
                           None \<Rightarrow> row (Some department_id) None ''unresolved'' ''identity_not_confirmed'' v2
                         | Some company_id \<Rightarrow>
                            (let v3 = v2\<lparr>va_company_id := Some company_id\<rparr>
                             in case active_rule department_id db of
                                  None \<Rightarrow> row (Some department_id) (Some company_id) ''unresolved''
                                      ''mapping_rule_missing'' v3
                                | Some rule \<Rightarrow> decide_with_rule dir cycle key timestamp department_id
                                    company_id v3 rule)))))"

definition first_snapshot :: "int \<Rightarrow> mapping_db \<Rightarrow> department_mapping option" where
  "first_snapshot cycle_id db =
    fetchone (select_limit 1 dm_id (\<lambda>m. dm_cycle_id m = cycle_id) (md_snapshots db))"

definition existing_snapshot :: "int \<Rightarrow> string \<Rightarrow> mapping_db \<Rightarrow> department_mapping option" where
  "existing_snapshot cycle_id key db =
    (case find_snapshot cycle_id key db of
       Some m \<Rightarrow> Some m
     | None \<Rightarrow> (if key = ''default'' then first_snapshot cycle_id db else None))"

definition evaluate_tx ::
  "directory_db \<Rightarrow> identity_db \<Rightarrow> cycle list \<Rightarrow> string \<Rightarrow> string \<Rightarrow> time \<Rightarrow> mapping_db \<Rightarrow>
   py_error + (department_mapping \<times> mapping_db)" where
  "evaluate_tx dir ident cycle_rows public_id key timestamp db =
    (case lookup_by cy_public_id public_id cycle_rows of
       None \<Rightarrow> Inl (LookupError ''conversation cycle not found'')
     | Some cycle \<Rightarrow>
        (case existing_snapshot (cy_id cycle) key db of
           Some existing \<Rightarrow> Inr (existing, db)
         | None \<Rightarrow> persist_evaluation (decide_mapping dir ident db cycle key timestamp) db))"

definition evaluate_department_mapping ::
  "directory_db \<Rightarrow> identity_db \<Rightarrow> cycle list \<Rightarrow> string \<Rightarrow> string option \<Rightarrow> time \<Rightarrow> mapping_db \<Rightarrow>
   (py_error + department_mapping) \<times> mapping_db" where
  "evaluate_department_mapping dir ident cycle_rows cycle_public_id evaluation_key timestamp db =
    transaction db
      (on_value (external_id cycle_public_id ''cycle_public_id'') (\<lambda>public_id.
       on_value (mapping_operation evaluation_key) (\<lambda>key.
         evaluate_tx dir ident cycle_rows public_id (coalesce key ''default'') timestamp db)))"

definition get_cycle_department_mapping ::
  "cycle list \<Rightarrow> string \<Rightarrow> string option \<Rightarrow> mapping_db \<Rightarrow> py_error + department_mapping option" where
  "get_cycle_department_mapping cycle_rows cycle_public_id evaluation_key db =
    on_value (external_id cycle_public_id ''cycle_public_id'') (\<lambda>public_id.
    on_value (mapping_operation evaluation_key) (\<lambda>key.
      Inr (case lookup_by cy_public_id public_id cycle_rows of
             None \<Rightarrow> None
           | Some cycle \<Rightarrow> find_snapshot (cy_id cycle) (coalesce key ''default'') db)))"

end
