(* ===== verification/Mapping_Correctness.thy ===== *)
theory Mapping_Correctness
  imports Department_Mapping
begin

text \<open>
  Correctness of department mapping: the invariant of the rules and their log, the outcome of an
  evaluation as a chain of facts, the immutability of the snapshots of a cycle and the replay of a
  configuration.
\<close>

section \<open>Invariants of the tables\<close>

definition versions_of :: "string \<Rightarrow> mapping_db \<Rightarrow> int list" where
  "versions_of d db = map ru_version (filter (\<lambda>r. ru_digisac r = d) (md_rules db))"

definition rules_inv :: "mapping_db \<Rightarrow> bool" where
  "rules_inv db \<longleftrightarrow>
    distinct (map ru_id (md_rules db)) \<and> (\<forall>r \<in> set (md_rules db). ru_id r < md_next_rule db) \<and>
    (\<forall>r \<in> set (md_rules db). \<forall>s \<in> set (md_rules db). ru_state r = Rule_Active \<and> ru_state s = Rule_Active \<and>
      ru_digisac r = ru_digisac s \<longrightarrow> ru_id r = ru_id s) \<and>
    (\<forall>d. \<exists>n. versions_of d db = map int [1..<Suc n])"

lemma rules_inv_id:
  assumes "rules_inv db" and "r \<in> set (md_rules db)" and "s \<in> set (md_rules db)" and "ru_id r = ru_id s"
  shows "r = s"
proof -
  have "distinct (map ru_id (md_rules db))" using assms(1) unfolding rules_inv_def by blast
  then show ?thesis using assms(2-4) by (rule distinct_key_eq)
qed

definition log_inv :: "mapping_db \<Rightarrow> bool" where
  "log_inv db \<longleftrightarrow>
    distinct (map mt_key (md_transitions db)) \<and>
    (\<forall>t \<in> set (md_transitions db). mt_rule_id t \<in> ru_id ` set (md_rules db))"

definition snapshots_inv :: "mapping_db \<Rightarrow> bool" where
  "snapshots_inv db \<longleftrightarrow>
    distinct (map (\<lambda>m. (dm_cycle_id m, dm_evaluation_key m)) (md_snapshots db)) \<and>
    distinct (map dm_id (md_snapshots db)) \<and> (\<forall>m \<in> set (md_snapshots db). dm_id m < md_next_snapshot db) \<and>
    list_all snapshot_check (md_snapshots db)"

definition mapping_inv :: "mapping_db \<Rightarrow> bool" where
  "mapping_inv db \<longleftrightarrow> rules_inv db \<and> log_inv db \<and> snapshots_inv db"

text \<open>What a rule keeps for ever, and what a transaction of the rules may do.\<close>

definition rule_core :: "mapping_rule \<Rightarrow> int \<times> string \<times> string \<times> int" where
  "rule_core r = (ru_id r, ru_digisac r, ru_target r, ru_version r)"

definition rules_grow :: "mapping_db \<Rightarrow> mapping_db \<Rightarrow> bool" where
  "rules_grow db db' \<longleftrightarrow>
    (\<exists>cs. map rule_core (md_rules db') = map rule_core (md_rules db) @ cs) \<and>
    (\<exists>ts. md_transitions db' = md_transitions db @ ts) \<and>
    md_snapshots db' = md_snapshots db \<and> md_next_snapshot db' = md_next_snapshot db"

lemma rules_grow_refl: "rules_grow db db"
  by (simp add: rules_grow_def)

lemma rules_grow_trans: "rules_grow a b \<Longrightarrow> rules_grow b c \<Longrightarrow> rules_grow a c"
  by (auto simp: rules_grow_def)

lemma write_transition_result:
  assumes "write_transition now i from to reason key actor db = Inr db'"
  shows "md_rules db' = md_rules db" "md_next_rule db' = md_next_rule db"
    "rules_grow db db'" "operation_text key"
    "log_inv db \<Longrightarrow> i \<in> ru_id ` set (md_rules db) \<Longrightarrow> log_inv db'"
    "\<exists>t. lookup_by mt_key key (md_transitions db') = Some t \<and> mt_rule_id t = i \<and> mt_to t = to \<and>
      mt_reason t = reason"
proof -
  have ok: "operation_text key" using assms by (simp add: write_transition_def split: if_splits)
  consider (old) t where "db' = db" "lookup_by mt_key key (md_transitions db) = Some t"
      "mt_rule_id t = i" "mt_to t = to" "mt_reason t = reason"
    | (new) t where "db' = db\<lparr>md_transitions := md_transitions db @ [t]\<rparr>" "mt_key t = key" "mt_rule_id t = i"
      "mt_to t = to" "mt_reason t = reason" "lookup_by mt_key key (md_transitions db) = None"
    using assms ok unfolding write_transition_def
    by (cases "lookup_by mt_key key (md_transitions db)") (auto split: if_splits)
  note cases = this
  show "operation_text key" by (rule ok)
  show "md_rules db' = md_rules db" "md_next_rule db' = md_next_rule db" "rules_grow db db'"
    by (cases rule: cases; simp add: rules_grow_def)+
  show "\<exists>t. lookup_by mt_key key (md_transitions db') = Some t \<and> mt_rule_id t = i \<and> mt_to t = to \<and>
      mt_reason t = reason"
    by (cases rule: cases) (auto simp: lookup_by_append)
  show "log_inv db'" if "log_inv db" "i \<in> ru_id ` set (md_rules db)"
    by (cases rule: cases) (use that in \<open>auto simp: log_inv_def lookup_by_None\<close>)
qed

definition deactivates :: "(mapping_rule \<Rightarrow> mapping_rule) \<Rightarrow> bool" where
  "deactivates f \<longleftrightarrow> (\<forall>r. rule_core (f r) = rule_core r \<and> ru_state (f r) = Rule_Inactive)"

lemma core_map_update:
  assumes "\<And>r. rule_core (f r) = rule_core r"
  shows "map rule_core (update_where P f rs) = map rule_core rs"
  by (rule map_update_where) (simp add: assms)

lemma ids_of_core: "ru_id ` set rs = fst ` set (map rule_core rs)"
  by (auto simp: rule_core_def image_iff)

lemma versions_of_core:
  "versions_of d db = map (\<lambda>(_, _, _, v). v) (filter (\<lambda>(_, e, _, _). e = d) (map rule_core (md_rules db)))"
  by (simp add: versions_of_def rule_core_def filter_map comp_def)

lemma update_rule_simps [simp]:
  "md_rules (update_rule i f db) = update_where (\<lambda>r. ru_id r = i) f (md_rules db)"
  "md_next_rule (update_rule i f db) = md_next_rule db"
  "md_transitions (update_rule i f db) = md_transitions db"
  "md_snapshots (update_rule i f db) = md_snapshots db"
  "md_next_snapshot (update_rule i f db) = md_next_snapshot db"
  by (simp_all add: update_rule_def)

lemma deactivate_result:
  assumes "deactivates f"
  shows "rules_grow db (update_rule i f db)"
    and "rules_inv db \<Longrightarrow> rules_inv (update_rule i f db)"
    and "log_inv db \<Longrightarrow> log_inv (update_rule i f db)"
proof -
  let ?db = "update_rule i f db"
  have core: "map rule_core (md_rules ?db) = map rule_core (md_rules db)"
    using assms by (simp add: core_map_update deactivates_def)
  show "rules_grow db ?db" using core by (simp add: rules_grow_def)
  show "log_inv ?db" if "log_inv db"
    using that core by (simp add: log_inv_def ids_of_core)
  assume inv: "rules_inv db"
  have ids: "map ru_id (md_rules ?db) = map ru_id (md_rules db)"
    using core by (metis (no_types, lifting) fst_conv list.map_comp comp_def map_eq_conv rule_core_def)
  have old: "r \<in> set (md_rules db)" if "r \<in> set (md_rules ?db)" "ru_state r = Rule_Active" for r
  proof -
    have "r \<in> set (update_where (\<lambda>r. ru_id r = i) f (md_rules db))" using that(1) by simp
    then obtain q where q: "q \<in> set (md_rules db)" "r = (if ru_id q = i then f q else q)"
      by (rule update_whereE)
    have "ru_state (f q) = Rule_Inactive" using assms by (simp add: deactivates_def)
    then show ?thesis using q that(2) by (cases "ru_id q = i") auto
  qed
  have bound: "ru_id r < md_next_rule db" if "r \<in> set (md_rules ?db)" for r
  proof -
    have "ru_id r \<in> set (map ru_id (md_rules ?db))" using that by simp
    then show ?thesis using inv unfolding ids by (auto simp: rules_inv_def)
  qed
  show "rules_inv ?db"
    unfolding rules_inv_def
  proof (intro conjI ballI impI allI)
    show "distinct (map ru_id (md_rules ?db))" unfolding ids using inv by (simp add: rules_inv_def)
    show "ru_id r < md_next_rule ?db" if "r \<in> set (md_rules ?db)" for r using bound[OF that] by simp
    show "\<exists>n. versions_of d ?db = map int [1..<Suc n]" for d
      using inv unfolding versions_of_core core by (simp add: rules_inv_def versions_of_core)
    show "ru_id r = ru_id s" if "r \<in> set (md_rules ?db)" "s \<in> set (md_rules ?db)"
      "ru_state r = Rule_Active \<and> ru_state s = Rule_Active \<and> ru_digisac r = ru_digisac s" for r s
      using inv old that unfolding rules_inv_def by blast
  qed
qed

lemma active_rule_Some:
  "active_rule d db = Some c \<Longrightarrow> c \<in> set (md_rules db) \<and> ru_digisac c = d \<and> ru_state c = Rule_Active"
  unfolding active_rule_def by (drule find_Some_member) simp

lemma active_rule_None:
  "active_rule d db = None \<longleftrightarrow> (\<forall>r \<in> set (md_rules db). ru_digisac r = d \<longrightarrow> ru_state r = Rule_Inactive)"
  unfolding active_rule_def find_None_iff by (metis rule_state.exhaust rule_state.distinct(1))

lemma active_rule_iff:
  assumes "rules_inv db"
  shows "active_rule d db = Some c \<longleftrightarrow> c \<in> set (md_rules db) \<and> ru_digisac c = d \<and> ru_state c = Rule_Active"
proof
  assume c: "c \<in> set (md_rules db) \<and> ru_digisac c = d \<and> ru_state c = Rule_Active"
  then have "active_rule d db \<noteq> None" unfolding active_rule_None by auto
  then obtain b where b: "active_rule d db = Some b" by blast
  have "ru_digisac b = ru_digisac c" "ru_state b = Rule_Active" "b \<in> set (md_rules db)"
    using active_rule_Some[OF b] c by simp_all
  then have "ru_id b = ru_id c" using c assms unfolding rules_inv_def by blast
  then have "b = c"
    using rules_inv_id[OF assms] active_rule_Some[OF b] c by blast
  then show "active_rule d db = Some c" using b by simp
qed (rule active_rule_Some)

lemma deactivated_none:
  assumes "rules_inv db" and "active_rule d db = Some c" and "deactivates f"
  shows "active_rule d (update_rule (ru_id c) f db) = None"
proof (rule ccontr)
  assume "active_rule d (update_rule (ru_id c) f db) \<noteq> None"
  then obtain b where "active_rule d (update_rule (ru_id c) f db) = Some b" by blast
  then have b: "b \<in> set (update_where (\<lambda>r. ru_id r = ru_id c) f (md_rules db))" "ru_digisac b = d"
    "ru_state b = Rule_Active" using active_rule_Some by force+
  obtain q where q: "q \<in> set (md_rules db)" "b = (if ru_id q = ru_id c then f q else q)"
    using b(1) by (rule update_whereE)
  show False
  proof (cases "ru_id q = ru_id c")
    case True
    then show False using q b(3) assms(3) by (simp add: deactivates_def)
  next
    case False
    then have "q = b" using q(2) by simp
    then have "active_rule d db = Some q" using q(1) b active_rule_iff[OF assms(1)] by simp
    then show False using assms(2) False by simp
  qed
qed

lemma next_version_value:
  assumes "versions_of d db = map int [1..<Suc n]"
  shows "next_version d db = int n + 1"
  using max_or_zero_upt[of n] assms by (simp add: next_version_def flip: versions_of_def)

lemma append_rule_inv:
  assumes inv: "rules_inv db" and row: "row = new_rule now d target st reason actor metadata t db"
    and free: "st = Rule_Active \<Longrightarrow> active_rule d db = None"
    and rules: "md_rules db' = md_rules db @ [row]" and nxt: "md_next_rule db' = md_next_rule db + 1"
  shows "rules_inv db'"
proof -
  have simps: "ru_id row = md_next_rule db" "ru_digisac row = d" "ru_state row = st"
    "ru_version row = next_version d db"
    by (simp_all add: row new_rule_def)
  have fresh: "ru_id r \<noteq> md_next_rule db" if "r \<in> set (md_rules db)" for r
    using inv that by (auto simp: rules_inv_def)
  have free': "ru_state r = Rule_Inactive" if "r \<in> set (md_rules db)" "ru_digisac r = d" "st = Rule_Active" for r
    using free that unfolding active_rule_None by blast
  show ?thesis
    unfolding rules_inv_def
  proof (intro conjI ballI impI allI)
    show "distinct (map ru_id (md_rules db'))"
    proof -
      have "distinct (map ru_id (md_rules db))" using inv by (simp add: rules_inv_def)
      moreover have "md_next_rule db \<notin> ru_id ` set (md_rules db)" using fresh by force
      ultimately show ?thesis by (simp add: rules simps)
    qed
    show "ru_id r < md_next_rule db'" if "r \<in> set (md_rules db')" for r
    proof -
      have "\<forall>r \<in> set (md_rules db). ru_id r < md_next_rule db" using inv by (simp add: rules_inv_def)
      then show ?thesis using that by (auto simp: rules nxt simps)
    qed
    show "ru_id r = ru_id s" if rs: "r \<in> set (md_rules db')" "s \<in> set (md_rules db')"
      "ru_state r = Rule_Active \<and> ru_state s = Rule_Active \<and> ru_digisac r = ru_digisac s" for r s
    proof -
      consider "r \<in> set (md_rules db)" "s \<in> set (md_rules db)" | "r = row" "s = row"
        | "r = row" "s \<in> set (md_rules db)" | "s = row" "r \<in> set (md_rules db)"
        using rs(1,2) by (auto simp: rules)
      then show ?thesis
      proof cases
        case 1 then show ?thesis using inv rs(3) unfolding rules_inv_def by blast
      next
        case 3
        then have "ru_state s = Rule_Inactive" using free'[of s] rs(3) simps by simp
        then show ?thesis using rs(3) by simp
      next
        case 4
        then have "ru_state r = Rule_Inactive" using free'[of r] rs(3) simps by simp
        then show ?thesis using rs(3) by simp
      qed simp
    qed
    show "\<exists>n. versions_of e db' = map int [1..<Suc n]" for e
    proof -
      obtain n where n: "versions_of e db = map int [1..<Suc n]" using inv unfolding rules_inv_def by blast
      show ?thesis
      proof (cases "e = d")
        case True
        then have "versions_of e db' = versions_of e db @ [int n + 1]"
          using next_version_value[OF n] by (simp add: versions_of_def rules simps)
        then show ?thesis using n by (intro exI[of _ "Suc n"]) simp
      next
        case False
        then have same: "versions_of e db' = versions_of e db" by (simp add: versions_of_def rules simps)
        show ?thesis unfolding same using n by (rule exI)
      qed
    qed
  qed
qed

lemma insert_rule_result:
  assumes "insert_rule now d target st reason key actor metadata t db = Inr (row, db')"
  shows "row = new_rule now d target st reason actor metadata t db" "md_rules db' = md_rules db @ [row]"
    "rules_grow db db'" "operation_text key"
    "rules_inv db \<Longrightarrow> (st = Rule_Active \<Longrightarrow> active_rule d db = None) \<Longrightarrow> rules_inv db'"
    "log_inv db \<Longrightarrow> log_inv db'"
    "\<exists>t. lookup_by mt_key key (md_transitions db') = Some t \<and> mt_rule_id t = ru_id row \<and> mt_to t = st \<and>
      mt_reason t = reason"
proof -
  let ?row = "new_rule now d target st reason actor metadata t db"
  let ?db = "db\<lparr>md_rules := md_rules db @ [?row], md_next_rule := md_next_rule db + 1\<rparr>"
  have row: "row = ?row" and w: "write_transition now (ru_id ?row) None st reason key actor ?db = Inr db'"
    using assms by (auto simp: insert_rule_def Let_def elim!: on_value_InrE)
  note w' = write_transition_result[OF w]
  show "row = ?row" by (rule row)
  show "md_rules db' = md_rules db @ [row]" using w'(1) row by simp
  then show "rules_inv db'" if "rules_inv db" "st = Rule_Active \<Longrightarrow> active_rule d db = None"
    using append_rule_inv[OF that(1) row that(2)] w'(2) by simp
  show "rules_grow db db'" using rules_grow_trans[OF _ w'(3), of db] by (simp add: rules_grow_def)
  show "operation_text key" by (rule w'(4))
  show "log_inv db'" if "log_inv db"
    by (rule w'(5)) (use that in \<open>auto simp: log_inv_def\<close>)
  show "\<exists>t. lookup_by mt_key key (md_transitions db') = Some t \<and> mt_rule_id t = ru_id row \<and> mt_to t = st \<and>
      mt_reason t = reason" using w'(6) row by simp
qed

definition wanted_state :: "bool \<Rightarrow> rule_state" where
  "wanted_state active = (if active then Rule_Active else Rule_Inactive)"

text \<open>What a configuration that is not a replay leaves.\<close>

definition configured ::
  "string \<Rightarrow> string \<Rightarrow> bool \<Rightarrow> string \<Rightarrow> string \<Rightarrow> mapping_db \<Rightarrow> mapping_rule \<Rightarrow> mapping_db \<Rightarrow> bool" where
  "configured d key active reason target db row db' \<longleftrightarrow>
    rules_grow db db' \<and> rules_inv db' \<and> log_inv db' \<and>
    row \<in> set (md_rules db') \<and> ru_digisac row = d \<and> ru_state row = wanted_state active \<and>
    (\<exists>t. lookup_by mt_key key (md_transitions db') = Some t \<and> mt_rule_id t = ru_id row \<and>
      mt_to t = wanted_state active \<and> mt_reason t = reason) \<and>
    (active \<longrightarrow> ru_target row = target) \<and> (\<not> active \<longrightarrow> active_rule d db' = None) \<and>
    (\<forall>e. e \<noteq> d \<longrightarrow> active_rule e db' = active_rule e db)"

lemma write_configured:
  assumes "write_transition now (ru_id row) from (wanted_state active) reason key actor db = Inr db'"
    and "rules_inv db" and "log_inv db" and "row \<in> set (md_rules db)" and "ru_digisac row = d"
    and "ru_state row = wanted_state active" and "active \<Longrightarrow> ru_target row = target"
    and "\<not> active \<Longrightarrow> active_rule d db = None"
  shows "configured d key active reason target db row db'"
proof -
  note w = write_transition_result[OF assms(1)]
  have inv: "rules_inv db'" using assms(2) unfolding rules_inv_def versions_of_def w(1,2) .
  have act: "active_rule e db' = active_rule e db" for e by (simp add: active_rule_def w(1))
  have log: "log_inv db'" by (rule w(5)[OF assms(3)]) (rule imageI[OF assms(4)])
  show ?thesis
    unfolding configured_def act w(1)
  proof (intro conjI impI allI)
    show "\<exists>t. lookup_by mt_key key (md_transitions db') = Some t \<and> mt_rule_id t = ru_id row \<and>
      mt_to t = wanted_state active \<and> mt_reason t = reason" by (rule w(6))
  qed (use w(3) inv log assms(4-8) in simp_all)
qed

lemma updated_id:
  assumes "deactivates f" and "c \<in> set (md_rules db)"
  shows "ru_id c \<in> ru_id ` set (md_rules (update_rule i f db))"
proof -
  have core: "rule_core (f r) = rule_core r" for r using assms(1) by (simp add: deactivates_def)
  have "ru_id c \<in> ru_id ` set (md_rules db)" using assms(2) by (rule imageI)
  then show ?thesis unfolding ids_of_core update_rule_simps core_map_update[OF core] .
qed

lemma find_update_where:
  "(\<And>x. x \<in> set xs \<Longrightarrow> Q x \<Longrightarrow> \<not> P x \<and> \<not> P (f x)) \<Longrightarrow> find P (update_where Q f xs) = find P xs"
  by (induction xs) auto

lemma active_rule_update:
  assumes "rules_inv db" and "c \<in> set (md_rules db)" and "ru_digisac c \<noteq> e" and "deactivates f"
  shows "active_rule e (update_rule (ru_id c) f db) = active_rule e db"
proof -
  have "ru_digisac x \<noteq> e" if "x \<in> set (md_rules db)" "ru_id x = ru_id c" for x
    using rules_inv_id[OF assms(1) that(1) assms(2) that(2)] assms(3) by simp
  moreover have "ru_digisac (f x) = ru_digisac x" for x
    using assms(4) unfolding deactivates_def rule_core_def by (metis Pair_inject)
  ultimately show ?thesis
    unfolding active_rule_def update_rule_simps by (intro find_update_where) simp
qed

lemma find_append: "find P (xs @ [x]) = (case find P xs of None \<Rightarrow> (if P x then Some x else None) | Some y \<Rightarrow> Some y)"
  by (induction xs) auto

lemma active_rule_append:
  "md_rules db' = md_rules db @ [row] \<Longrightarrow> ru_digisac row \<noteq> e \<Longrightarrow> active_rule e db' = active_rule e db"
  by (simp add: active_rule_def find_append split: option.splits)

lemma insert_configured:
  assumes "insert_rule now d target (wanted_state active) reason key actor metadata t db = Inr (row, db')"
    and "rules_inv db" and "log_inv db" and "active_rule d db = None"
  shows "configured d key active reason target db row db'"
proof -
  note r = insert_rule_result[OF assms(1)]
  have simps: "ru_digisac row = d" "ru_state row = wanted_state active" "ru_target row = target"
    using r(1) by (simp_all add: new_rule_def)
  have inv: "rules_inv db'" using r(5)[OF assms(2)] assms(4) by blast
  have none: "active_rule d db' = None" if "\<not> active"
    using assms(4) that simps unfolding active_rule_None r(2) by (simp add: wanted_state_def)
  show ?thesis
    unfolding configured_def
  proof (intro conjI impI allI)
    show "\<exists>t. lookup_by mt_key key (md_transitions db') = Some t \<and> mt_rule_id t = ru_id row \<and>
      mt_to t = wanted_state active \<and> mt_reason t = reason" by (rule r(7))
    show "active_rule e db' = active_rule e db" if "e \<noteq> d" for e
      using active_rule_append[OF r(2)] that simps(1) by simp
    show "row \<in> set (md_rules db')" by (simp add: r(2))
    show "log_inv db'" by (rule r(6)[OF assms(3)])
  qed (use r(3) inv none simps in simp_all)
qed

lemma configured_after:
  assumes "configured d key active reason target mid row db'" and "rules_grow db mid"
    and "\<And>e. e \<noteq> d \<Longrightarrow> active_rule e mid = active_rule e db"
  shows "configured d key active reason target db row db'"
  using assms rules_grow_trans[OF assms(2)] unfolding configured_def by simp

lemma activate_configured:
  assumes "activate_mapping now d target reason actor key metadata t (active_rule d db) db = Inr (row, db')"
    and "rules_inv db" and "log_inv db"
  shows "configured d key True reason target db row db'"
proof (cases "active_rule d db")
  case None
  then show ?thesis
    using assms insert_configured[where active = True] by (simp add: activate_mapping_def wanted_state_def)
next
  case (Some c)
  note c = active_rule_Some[OF Some]
  show ?thesis
  proof (cases "ru_target c = target")
    case True
    then have "write_transition now (ru_id c) (Some Rule_Active) (wanted_state True) reason key actor db = Inr db'"
      "row = c"
      using assms(1) Some by (auto simp: activate_mapping_def wanted_state_def elim!: on_value_InrE)
    then show ?thesis using write_configured[where active = True] assms(2,3) c True
      by (simp add: wanted_state_def)
  next
    case False
    let ?f = "\<lambda>r. r\<lparr>ru_state := Rule_Inactive, ru_updated_at := now\<rparr>"
    have f: "deactivates ?f" by (simp add: deactivates_def rule_core_def)
    let ?upd = "update_rule (ru_id c) ?f db"
    obtain mid where w: "write_transition now (ru_id c) (Some Rule_Active) Rule_Inactive ''mapping_replaced''
        (key @ '':deactivate'') actor ?upd = Inr mid"
      and ins: "insert_rule now d target Rule_Active reason key actor metadata t mid = Inr (row, db')"
      using assms(1) Some False by (auto simp: activate_mapping_def elim!: on_value_InrE)
    note w' = write_transition_result[OF w] and d' = deactivate_result[OF f, of db "ru_id c"]
    have act: "active_rule e mid = active_rule e ?upd" for e by (simp add: active_rule_def w'(1))
    have inv: "rules_inv mid"
      using d'(2)[OF assms(2)] unfolding rules_inv_def versions_of_def w'(1,2) .
    have "ru_id c \<in> ru_id ` set (md_rules ?upd)"
      by (rule updated_id[OF f]) (use c in simp)
    then have log: "log_inv mid" using w'(5) d'(3)[OF assms(3)] by blast
    have none: "active_rule d mid = None" unfolding act by (rule deactivated_none[OF assms(2) Some f])
    show ?thesis
    proof (rule configured_after)
      show "configured d key True reason target mid row db'"
        using insert_configured[where active = True, OF _ inv log none] ins by (simp add: wanted_state_def)
      show "rules_grow db mid" using d'(1) w'(3) rules_grow_trans by blast
      show "active_rule e mid = active_rule e db" if "e \<noteq> d" for e
        unfolding act by (rule active_rule_update[OF assms(2) _ _ f]) (use c that in simp_all)
    qed
  qed
qed

lemma latest_rule_Some: "latest_rule d db = Some r \<Longrightarrow> r \<in> set (md_rules db) \<and> ru_digisac r = d"
proof -
  assume "latest_rule d db = Some r"
  then obtain x xs where x: "sort_key ru_version (filter (\<lambda>r. ru_digisac r = d) (md_rules db)) = x # xs"
    "r = last (x # xs)"
    by (auto simp: latest_rule_def split: list.splits)
  then have "r \<in> set (sort_key ru_version (filter (\<lambda>r. ru_digisac r = d) (md_rules db)))"
    using last_in_set[of "x # xs"] by simp
  then show ?thesis by simp
qed

lemma inactivate_configured:
  assumes "inactivate_mapping now d target reason actor key metadata t (active_rule d db) db = Inr (row, db')"
    and "rules_inv db" and "log_inv db"
  shows "configured d key False reason target db row db'"
proof (cases "active_rule d db")
  case None
  show ?thesis
  proof (cases "latest_rule d db")
    case None
    then show ?thesis
      using assms \<open>active_rule d db = None\<close> insert_configured[where active = False]
      by (simp add: inactivate_mapping_def wanted_state_def)
  next
    case (Some l)
    then have w: "write_transition now (ru_id l) (Some Rule_Inactive) (wanted_state False) reason key actor db = Inr db'"
      "row = l"
      using assms(1) None by (auto simp: inactivate_mapping_def wanted_state_def elim!: on_value_InrE)
    have l: "l \<in> set (md_rules db)" "ru_digisac l = d" using latest_rule_Some[OF Some] by simp_all
    then have "ru_state l = Rule_Inactive" using None unfolding active_rule_None by blast
    then show ?thesis
      using write_configured[where active = False, OF w(1) assms(2,3) l] w(2) None by (simp add: wanted_state_def)
  qed
next
  case (Some c)
  note c = active_rule_Some[OF Some]
  let ?f = "\<lambda>r. r\<lparr>ru_state := Rule_Inactive, ru_reason := reason, ru_actor := actor,
      ru_metadata := metadata, ru_updated_at := now\<rparr>"
  have f: "deactivates ?f" by (simp add: deactivates_def rule_core_def)
  let ?upd = "update_rule (ru_id c) ?f db"
  note d' = deactivate_result[OF f, of db "ru_id c"]
  have w: "write_transition now (ru_id c) (Some Rule_Active) (wanted_state False) reason key actor ?upd = Inr db'"
    and row: "lookup_by ru_id (ru_id c) (md_rules db') = Some row"
    using assms(1) Some by (auto simp: inactivate_mapping_def wanted_state_def Let_def elim!: on_value_InrE split: option.splits)
  have rules: "md_rules db' = md_rules ?upd" by (rule write_transition_result(1)[OF w])
  have inv: "rules_inv ?upd" by (rule d'(2)[OF assms(2)])
  have cl: "lookup_by ru_id (ru_id c) (md_rules ?upd) = Some row" using row unfolding rules .
  have idr: "ru_id row = ru_id c" and mem: "row \<in> set (md_rules ?upd)" using lookup_by_Some[OF cl] by simp_all
  have "row \<in> set (update_where (\<lambda>r. ru_id r = ru_id c) ?f (md_rules db))" using mem by simp
  then obtain q where q: "q \<in> set (md_rules db)" "row = (if ru_id q = ru_id c then ?f q else q)"
    by (rule update_whereE)
  have "ru_id q = ru_id c"
  proof (rule ccontr)
    assume ne: "ru_id q \<noteq> ru_id c"
    then have "row = q" using q(2) by simp
    then show False using idr ne by simp
  qed
  then have "q = c" using rules_inv_id[OF assms(2) q(1)] c by blast
  then have row': "row = ?f c" using q(2) by simp
  have none: "active_rule d ?upd = None" by (rule deactivated_none[OF assms(2) Some f])
  have "configured d key False reason target ?upd row db'"
  proof (rule write_configured[where active = False])
    show "write_transition now (ru_id row) (Some Rule_Active) (wanted_state False) reason key actor ?upd = Inr db'"
      using w idr by simp
    show "rules_inv ?upd" by (rule inv)
    show "log_inv ?upd" by (rule d'(3)[OF assms(3)])
    show "row \<in> set (md_rules ?upd)" by (rule mem)
    show "ru_digisac row = d" using c by (simp add: row')
    show "ru_state row = wanted_state False" by (simp add: row' wanted_state_def)
    show "active_rule d ?upd = None" by (rule none)
  qed simp
  then show ?thesis
  proof (rule configured_after[OF _ d'(1)])
    show "active_rule e ?upd = active_rule e db" if "e \<noteq> d" for e
      by (rule active_rule_update[OF assms(2) _ _ f]) (use c that in simp_all)
  qed
qed

lemma configure_new_configured:
  assumes "configure_new now dir d target active reason actor key metadata t db = Inr (row, db')"
    and "rules_inv db" and "log_inv db"
  obtains target_id where "configured d key active reason target_id db row db'"
    "configure_target active target (active_rule d db) = Inr target_id" "d \<in> set (dir_digisac_departments dir)"
proof -
  have d: "d \<in> set (dir_digisac_departments dir)"
    using assms(1) by (simp add: configure_new_def split: if_splits)
  obtain target_id where t: "configure_target active target (active_rule d db) = Inr target_id"
    and run: "(if active
      then activate_mapping now d target_id reason actor key metadata t (active_rule d db) db
      else inactivate_mapping now d target_id reason actor key metadata t (active_rule d db) db) = Inr (row, db')"
    using assms(1) by (auto simp: configure_new_def Let_def split: if_splits elim!: on_value_InrE)
  have "configured d key active reason target_id db row db'"
    using run activate_configured[OF _ assms(2,3)] inactivate_configured[OF _ assms(2,3)] by (cases active) simp_all
  then show thesis using that t d by blast
qed

section \<open>Reachable tables\<close>

datatype mapping_op =
    Configure time directory_db string "string option" bool string "string option" "string option"
      "jdict option" time
  | Evaluate directory_db identity_db "cycle list" string "string option" time

fun mapping_step :: "(string \<Rightarrow> string) \<Rightarrow> mapping_op \<Rightarrow> mapping_db \<Rightarrow> mapping_db" where
  "mapping_step sha (Configure now dir d target active reason actor key metadata t) db =
    snd (configure_department_mapping sha now dir d target active reason actor key metadata t db)"
| "mapping_step sha (Evaluate dir ident cycle_rows pid key t) db =
    snd (evaluate_department_mapping dir ident cycle_rows pid key t db)"

inductive mapping_reachable :: "(string \<Rightarrow> string) \<Rightarrow> mapping_db \<Rightarrow> bool" for sha where
  mapping_start: "mapping_reachable sha empty_mapping_db"
| mapping_next: "mapping_reachable sha db \<Longrightarrow> mapping_reachable sha (mapping_step sha op db)"

definition configure_values ::
  "string \<Rightarrow> string option \<Rightarrow> string \<Rightarrow> string option \<Rightarrow> string option \<Rightarrow> jdict option \<Rightarrow>
   py_error + (string \<times> string option \<times> string \<times> string option \<times> string option \<times> jdict)" where
  "configure_values digisac target reason actor operation_key metadata =
      (on_value (external_id digisac ''digisac_department_external_id'') (\<lambda>d.
       on_value (opt_external_id target ''acessorias_department_external_id'') (\<lambda>t.
       on_value (mapping_reason reason) (\<lambda>r.
       on_value (mapping_actor actor) (\<lambda>a.
       on_value (sanitize_metadata metadata) (\<lambda>m.
       on_value (mapping_operation operation_key) (\<lambda>k. Inr (d, t, r, a, k, m))))))))"

lemma configure_by_values:
  "configure_department_mapping sha now dir digisac target active reason actor key metadata t db =
    transaction db (on_value (configure_values digisac target reason actor key metadata)
      (\<lambda>(d, tg, r, a, k, m). configure_tx sha now dir d tg active r a k m t db))"
  unfolding configure_department_mapping_def configure_values_def
  by (cases "external_id digisac ''digisac_department_external_id''";
      cases "opt_external_id target ''acessorias_department_external_id''"; cases "mapping_reason reason";
      cases "mapping_actor actor"; cases "sanitize_metadata metadata"; cases "mapping_operation key") simp_all

lemma configure_cases:
  obtains e where "configure_department_mapping sha now dir digisac target active reason actor key metadata t db =
      (Inl e, db)"
  | d tg r a k m row where "configure_values digisac target reason actor key metadata = Inr (d, tg, r, a, k, m)"
      "configure_department_mapping sha now dir digisac target active reason actor key metadata t db = (Inr row, db)"
      "replay_mapping active r tg (coalesce k (derived_operation sha active d tg r)) db = Some (Inr row)"
  | d tg r a k m row db' where "configure_values digisac target reason actor key metadata = Inr (d, tg, r, a, k, m)"
      "configure_department_mapping sha now dir digisac target active reason actor key metadata t db = (Inr row, db')"
      "replay_mapping active r tg (coalesce k (derived_operation sha active d tg r)) db = None"
      "configure_new now dir d tg active r a (coalesce k (derived_operation sha active d tg r)) m t db = Inr (row, db')"
proof (cases "configure_values digisac target reason actor key metadata")
  case (Inl e)
  show thesis by (rule that(1)[of e]) (simp add: configure_by_values Inl transaction_def)
next
  case (Inr v)
  obtain d tg r a k m where v: "v = (d, tg, r, a, k, m)" by (metis prod_cases6)
  let ?key = "coalesce k (derived_operation sha active d tg r)"
  show thesis
  proof (cases "replay_mapping active r tg ?key db")
    case None
    show thesis
    proof (cases "configure_new now dir d tg active r a ?key m t db")
      case (Inl e)
      show thesis
        by (rule that(1)[of e]) (simp add: configure_by_values Inr v transaction_def configure_tx_def Let_def None Inl)
    next
      case new: (Inr p)
      obtain row db' where p: "p = (row, db')" by fastforce
      show thesis
        by (rule that(3)[OF Inr[unfolded v] _ None new[unfolded p]])
          (simp add: configure_by_values Inr v transaction_def configure_tx_def Let_def None new p)
    qed
  next
    case (Some out)
    show thesis
    proof (cases out)
      case (Inl e)
      show thesis
        by (rule that(1)[of e]) (simp add: configure_by_values Inr v transaction_def configure_tx_def Let_def Some Inl)
    next
      case row: (Inr row)
      show thesis
        by (rule that(2)[OF Inr[unfolded v] _ Some[unfolded row]])
          (simp add: configure_by_values Inr v transaction_def configure_tx_def Let_def Some row)
    qed
  qed
qed

lemma snapshot_check_id: "snapshot_check (m\<lparr>dm_id := i\<rparr>) = snapshot_check m"
  by (simp add: snapshot_check_def)

lemma snapshot_row_keys [simp]:
  "dm_cycle_id (snapshot_row cycle key t rule d k s r v) = cy_id cycle"
  "dm_evaluation_key (snapshot_row cycle key t rule d k s r v) = key"
  "dm_state (snapshot_row cycle key t rule d k s r v) = s" "dm_reason (snapshot_row cycle key t rule d k s r v) = r"
  by (simp_all add: snapshot_row_def)

lemma decide_mapping_keys:
  "dm_cycle_id (decide_mapping dir ident db cycle key t) = cy_id cycle"
  "dm_evaluation_key (decide_mapping dir ident db cycle key t) = key"
  unfolding decide_mapping_def decide_with_rule_def Let_def by (simp_all split: option.splits prod.splits)

lemma evaluate_cases:
  obtains e where "evaluate_department_mapping dir ident cycle_rows pid key t db = (Inl e, db)"
  | p k cycle m where "external_id pid ''cycle_public_id'' = Inr p" "mapping_operation key = Inr k"
      "lookup_by cy_public_id p cycle_rows = Some cycle"
      "existing_snapshot (cy_id cycle) (coalesce k ''default'') db = Some m"
      "evaluate_department_mapping dir ident cycle_rows pid key t db = (Inr m, db)"
  | p k cycle m where "external_id pid ''cycle_public_id'' = Inr p" "mapping_operation key = Inr k"
      "lookup_by cy_public_id p cycle_rows = Some cycle"
      "existing_snapshot (cy_id cycle) (coalesce k ''default'') db = None"
      "m = (decide_mapping dir ident db cycle (coalesce k ''default'') t)\<lparr>dm_id := md_next_snapshot db\<rparr>"
      "snapshot_check m"
      "evaluate_department_mapping dir ident cycle_rows pid key t db =
        (Inr m, db\<lparr>md_snapshots := md_snapshots db @ [m], md_next_snapshot := md_next_snapshot db + 1\<rparr>)"
proof (cases "external_id pid ''cycle_public_id''")
  case (Inl e)
  show thesis by (rule that(1)[of e]) (simp add: evaluate_department_mapping_def Inl transaction_def)
next
  case p: (Inr p)
  show thesis
  proof (cases "mapping_operation key")
    case (Inl e)
    show thesis by (rule that(1)[of e]) (simp add: evaluate_department_mapping_def p Inl transaction_def)
  next
    case k: (Inr k)
    let ?key = "coalesce k ''default''"
    show thesis
    proof (cases "lookup_by cy_public_id p cycle_rows")
      case None
      show thesis by (rule that(1)) (simp add: evaluate_department_mapping_def p k evaluate_tx_def None transaction_def)
    next
      case c: (Some cycle)
      show thesis
      proof (cases "existing_snapshot (cy_id cycle) ?key db")
        case (Some m)
        show thesis
          by (rule that(2)[OF p k c Some]) (simp add: evaluate_department_mapping_def p k evaluate_tx_def c Some transaction_def)
      next
        case None
        let ?row = "decide_mapping dir ident db cycle ?key t"
        have find: "find_snapshot (cy_id cycle) ?key db = None"
          using None by (auto simp: existing_snapshot_def split: option.splits)
        show thesis
        proof (cases "snapshot_check ?row")
          case False
          show thesis
            by (rule that(1)) (simp add: evaluate_department_mapping_def p k evaluate_tx_def c None
                persist_evaluation_def False transaction_def)
        next
          case True
          then have check: "snapshot_check (?row\<lparr>dm_id := md_next_snapshot db\<rparr>)" by (simp add: snapshot_check_id)
          show thesis
            by (rule that(3)[OF p k c None refl check]) (simp add: evaluate_department_mapping_def p k
                evaluate_tx_def c None persist_evaluation_def True decide_mapping_keys find transaction_def Let_def)
        qed
      qed
    qed
  qed
qed

lemma existing_none_fresh:
  assumes "existing_snapshot c key db = None"
  shows "(c, key) \<notin> (\<lambda>m. (dm_cycle_id m, dm_evaluation_key m)) ` set (md_snapshots db)"
proof -
  have "find_snapshot c key db = None" using assms by (auto simp: existing_snapshot_def split: option.splits)
  then show ?thesis by (auto simp: find_snapshot_def find_None_iff)
qed

lemma snapshots_inv_same:
  "md_snapshots db' = md_snapshots db \<Longrightarrow> md_next_snapshot db' = md_next_snapshot db \<Longrightarrow>
    snapshots_inv db \<Longrightarrow> snapshots_inv db'"
  by (simp add: snapshots_inv_def)

lemma rules_inv_same:
  "md_rules db' = md_rules db \<Longrightarrow> md_next_rule db' = md_next_rule db \<Longrightarrow> rules_inv db \<Longrightarrow> rules_inv db'"
  unfolding rules_inv_def versions_of_def by metis

lemma mapping_step_inv:
  assumes inv: "mapping_inv db"
  shows "mapping_inv (mapping_step sha op db)"
proof (cases op)
  case (Configure now dir digisac target active reason actor key metadata t)
  have r: "rules_inv db" and l: "log_inv db" and s: "snapshots_inv db" using inv by (simp_all add: mapping_inv_def)
  show ?thesis
  proof (cases rule: configure_cases[of sha now dir digisac target active reason actor key metadata t db])
    case (3 d tg rr a k m row db')
    obtain target_id where c: "configured d (coalesce k (derived_operation sha active d tg rr)) active rr target_id db row db'"
      by (rule configure_new_configured[OF 3(4) r l])
    have "snapshots_inv db'"
      by (rule snapshots_inv_same[OF _ _ s]) (use c in \<open>simp_all add: configured_def rules_grow_def\<close>)
    then show ?thesis using c Configure 3(2) by (simp add: mapping_inv_def configured_def)
  qed (use inv Configure in simp_all)
next
  case (Evaluate dir ident cycle_rows pid key t)
  show ?thesis
  proof (cases rule: evaluate_cases[of dir ident cycle_rows pid key t db])
    case (3 p k cycle m)
    let ?db = "db\<lparr>md_snapshots := md_snapshots db @ [m], md_next_snapshot := md_next_snapshot db + 1\<rparr>"
    have keys: "dm_cycle_id m = cy_id cycle" "dm_evaluation_key m = coalesce k ''default''"
      "dm_id m = md_next_snapshot db"
      by (simp_all add: 3(5) decide_mapping_keys)
    have s: "snapshots_inv db" using inv by (simp add: mapping_inv_def)
    have "snapshots_inv ?db"
      using s existing_none_fresh[OF 3(4)] 3(6) unfolding snapshots_inv_def
      by (auto simp: keys)
    moreover have "rules_inv ?db" by (rule rules_inv_same[of _ db]) (use inv in \<open>simp_all add: mapping_inv_def\<close>)
    moreover have "log_inv ?db" using inv by (simp add: mapping_inv_def log_inv_def)
    ultimately show ?thesis using Evaluate 3(7) by (simp add: mapping_inv_def)
  qed (use inv Evaluate in simp_all)
qed

lemma mapping_step_appends:
  assumes inv: "mapping_inv db"
  shows "(\<exists>ss. md_snapshots (mapping_step sha op db) = md_snapshots db @ ss) \<and>
    (\<exists>ts. md_transitions (mapping_step sha op db) = md_transitions db @ ts) \<and>
    (\<exists>cs. map rule_core (md_rules (mapping_step sha op db)) = map rule_core (md_rules db) @ cs)"
proof (cases op)
  case (Configure now dir digisac target active reason actor key metadata t)
  have r: "rules_inv db" and l: "log_inv db" using inv by (simp_all add: mapping_inv_def)
  show ?thesis
  proof (cases rule: configure_cases[of sha now dir digisac target active reason actor key metadata t db])
    case (3 d tg rr a k m row db')
    obtain target_id where c: "configured d (coalesce k (derived_operation sha active d tg rr)) active rr target_id db row db'"
      by (rule configure_new_configured[OF 3(4) r l])
    then show ?thesis using Configure 3(2) by (simp add: configured_def rules_grow_def)
  qed (use Configure in simp_all)
next
  case (Evaluate dir ident cycle_rows pid key t)
  show ?thesis
    by (cases rule: evaluate_cases[of dir ident cycle_rows pid key t db]) (use Evaluate in simp_all)
qed

lemma mapping_empty_inv: "mapping_inv empty_mapping_db"
proof -
  have "\<exists>n. [] = map int [1..<Suc n]" by (rule exI[of _ 0]) simp
  then show ?thesis
    by (simp add: mapping_inv_def rules_inv_def log_inv_def snapshots_inv_def empty_mapping_db_def versions_of_def)
qed

lemma mapping_reachable_invariant: "mapping_reachable sha db \<Longrightarrow> mapping_inv db"
  by (induction rule: mapping_reachable.induct) (simp_all add: mapping_empty_inv mapping_step_inv)

interpretation mapping_snapshots: snapshot_table md_snapshots "\<lambda>m. (dm_cycle_id m, dm_evaluation_key m)"
    "mapping_step sha" mapping_inv for sha
  by unfold_locales
    (use mapping_step_appends in \<open>simp_all add: mapping_step_inv, simp add: mapping_inv_def snapshots_inv_def\<close>)

interpretation mapping_log: snapshot_table md_transitions mt_key "mapping_step sha" mapping_inv for sha
  by unfold_locales
    (use mapping_step_appends in \<open>simp_all add: mapping_step_inv, simp add: mapping_inv_def log_inv_def\<close>)

lemma cores_kept:
  "mapping_inv db \<Longrightarrow> \<exists>cs. map rule_core (md_rules (fold (mapping_step sha) ops db)) = map rule_core (md_rules db) @ cs"
proof (induction ops arbitrary: db)
  case (Cons x ops)
  obtain cs where cs: "map rule_core (md_rules (mapping_step sha x db)) = map rule_core (md_rules db) @ cs"
    using mapping_step_appends[OF Cons.prems] by blast
  obtain ds where "map rule_core (md_rules (fold (mapping_step sha) ops (mapping_step sha x db))) =
      map rule_core (md_rules (mapping_step sha x db)) @ ds"
    using Cons.IH[OF mapping_step_inv[OF Cons.prems]] by blast
  then show ?case using cs by (intro exI[of _ "cs @ ds"]) simp
qed simp

section \<open>Facts of an evaluation\<close>

lemma sorted_le_last: "sorted (map k zs) \<Longrightarrow> x \<in> set zs \<Longrightarrow> k x \<le> k (last zs)"
  by (induction zs) auto

lemma last_sorted_max:
  assumes "sort_key k xs = y # ys" and "x \<in> set xs"
  shows "k x \<le> k (last (y # ys))"
proof (rule sorted_le_last)
  show "sorted (map k (y # ys))" using sorted_sort_key[of k xs] assms(1) by simp
  show "x \<in> set (y # ys)" using assms by (metis set_sort)
qed

definition assigned_within :: "directory_db \<Rightarrow> cycle \<Rightarrow> time \<Rightarrow> time \<Rightarrow> ticket_assignment \<Rightarrow> bool" where
  "assigned_within dir cycle start stop a \<longleftrightarrow>
    a \<in> set (dir_assignments dir) \<and> ta_conversation_id a = cy_conversation_id cycle \<and>
    ta_department_id a \<noteq> None \<and> start \<le> ta_event_timestamp a \<and> ta_event_timestamp a \<le> stop"

lemma cycle_assignment_latest:
  assumes "cycle_assignment dir cycle start stop = Some a"
  shows "assigned_within dir cycle start stop a"
    and "assigned_within dir cycle start stop b \<Longrightarrow>
      (ta_event_timestamp b, ta_id b) \<le> (ta_event_timestamp a, ta_id a)"
proof -
  let ?xs = "filter (\<lambda>a. ta_conversation_id a = cy_conversation_id cycle \<and> ta_department_id a \<noteq> None \<and>
      start \<le> ta_event_timestamp a \<and> ta_event_timestamp a \<le> stop) (dir_assignments dir)"
  let ?k = "\<lambda>a. (ta_event_timestamp a, ta_id a)"
  obtain y ys where y: "sort_key ?k ?xs = y # ys" "a = last (y # ys)"
    using assms by (auto simp: cycle_assignment_def split: list.splits)
  have "last (y # ys) \<in> set (sort_key ?k ?xs)" unfolding y(1) by simp
  then have "a \<in> set ?xs" unfolding y(2) set_sort .
  then show "assigned_within dir cycle start stop a" by (simp add: assigned_within_def)
  assume "assigned_within dir cycle start stop b"
  then have "b \<in> set ?xs" by (simp add: assigned_within_def)
  then show "?k b \<le> ?k a" using last_sorted_max[OF y(1)] y(2) by simp
qed

text \<open>The chain of facts a resolved mapping rests on.\<close>

definition mapping_facts ::
  "directory_db \<Rightarrow> identity_db \<Rightarrow> mapping_db \<Rightarrow> cycle \<Rightarrow> string \<Rightarrow> int \<Rightarrow> mapping_rule \<Rightarrow> bool" where
  "mapping_facts dir ident db cycle d company rule \<longleftrightarrow>
    (\<exists>start stop a. cycle_boundary cycle = Some (start, stop) \<and>
      cycle_assignment dir cycle start stop = Some a \<and> ta_department_id a = Some d) \<and>
    d \<in> set (dir_digisac_departments dir) \<and> confirmed_company (cycle_identity ident cycle) = Some company \<and>
    active_rule d db = Some rule \<and> target_available dir (ru_target rule) \<and> company_available dir company \<and>
    relationship_available dir company (ru_target rule)"

lemma decide_with_rule_state:
  "dm_state (decide_with_rule dir cycle key t d k v rule) = ''resolved'' \<longleftrightarrow>
    target_available dir (ru_target rule) \<and> company_available dir k \<and> relationship_available dir k (ru_target rule)"
  by (simp add: decide_with_rule_def Let_def)

lemma decide_with_rule_fields:
  "dm_rule_id (decide_with_rule dir cycle key t d k v rule) = Some (ru_id rule)"
  "dm_rule_version (decide_with_rule dir cycle key t d k v rule) = Some (ru_version rule)"
  "dm_digisac_department_external_id (decide_with_rule dir cycle key t d k v rule) = Some d"
  "dm_department_external_id (decide_with_rule dir cycle key t d k v rule) = Some (ru_target rule)"
  "dm_company_id (decide_with_rule dir cycle key t d k v rule) = Some k"
  by (simp_all add: decide_with_rule_def Let_def snapshot_row_def)

text \<open>Either a fact is missing and the mapping is not resolved, or all are there and the rule decides.\<close>

lemma decide_mapping_cases:
  obtains (stop) "dm_state (decide_mapping dir ident db cycle key t) \<in> {''unresolved'', ''invalid''}"
      "\<nexists>d k rule. mapping_facts dir ident db cycle d k rule"
  | (rule) d k rule v where "decide_mapping dir ident db cycle key t = decide_with_rule dir cycle key t d k v rule"
      "\<And>d' k' rule'. mapping_facts dir ident db cycle d' k' rule' \<longleftrightarrow> d' = d \<and> k' = k \<and> rule' = rule \<and>
        target_available dir (ru_target rule) \<and> company_available dir k \<and>
        relationship_available dir k (ru_target rule)"
proof (cases "cycle_boundary cycle")
  case None
  show thesis by (rule stop) (simp_all add: decide_mapping_def mapping_facts_def Let_def None)
next
  case b: (Some b)
  obtain start stop' where bb: "b = (start, stop')" by fastforce
  show thesis
  proof (cases "cycle_assignment dir cycle start stop'")
    case None
    show thesis by (rule stop) (simp_all add: decide_mapping_def mapping_facts_def Let_def b bb None)
  next
    case a: (Some a)
    then obtain d where d: "ta_department_id a = Some d"
      using cycle_assignment_latest(1)[OF a] by (auto simp: assigned_within_def)
    show thesis
    proof (cases "d \<in> set (dir_digisac_departments dir)")
      case False
      show thesis by (rule stop) (use False in \<open>simp_all add: decide_mapping_def mapping_facts_def Let_def b bb a d\<close>)
    next
      case present: True
      show thesis
      proof (cases "confirmed_company (cycle_identity ident cycle)")
        case None
        show thesis
          by (rule stop) (use present None in \<open>simp_all add: decide_mapping_def mapping_facts_def Let_def b bb a d\<close>)
      next
        case k: (Some k)
        show thesis
        proof (cases "active_rule d db")
          case None
          show thesis
            by (rule stop) (use present None in \<open>simp_all add: decide_mapping_def mapping_facts_def Let_def b bb a d k\<close>)
        next
          case r: (Some rule)
          show thesis
            by (rule rule) (use present in \<open>auto simp: decide_mapping_def mapping_facts_def Let_def b bb a d k r\<close>)
        qed
      qed
    qed
  qed
qed

section \<open>Properties\<close>

text \<open>C25: In every reachable state of the mapping tables a DigiSac department has at most one active
  rule, the rules of a department are numbered 1, 2, ... without gaps, an operation key is logged at
  most once, a cycle has at most one snapshot for a key, and every snapshot satisfies its
  constraints, those of a resolved mapping included.\<close>
theorem mapping_reachable_inv:
  assumes "mapping_reachable sha db"
  shows "(\<forall>r s. r \<in> set (md_rules db) \<and> s \<in> set (md_rules db) \<and> ru_state r = Rule_Active \<and>
      ru_state s = Rule_Active \<and> ru_digisac r = ru_digisac s \<longrightarrow> r = s) \<and>
    (\<forall>d. \<exists>n. map ru_version (filter (\<lambda>r. ru_digisac r = d) (md_rules db)) = map int [1..<Suc n]) \<and>
    distinct (map mt_key (md_transitions db)) \<and>
    distinct (map (\<lambda>m. (dm_cycle_id m, dm_evaluation_key m)) (md_snapshots db)) \<and>
    list_all snapshot_check (md_snapshots db)"
proof -
  have inv: "rules_inv db" "log_inv db" "snapshots_inv db"
    using mapping_reachable_invariant[OF assms] by (simp_all add: mapping_inv_def)
  have one: "r = s" if "r \<in> set (md_rules db)" "s \<in> set (md_rules db)" "ru_state r = Rule_Active"
    "ru_state s = Rule_Active" "ru_digisac r = ru_digisac s" for r s
  proof -
    have "ru_id r = ru_id s" using inv(1) that unfolding rules_inv_def by blast
    then show ?thesis using rules_inv_id[OF inv(1) that(1,2)] by blast
  qed
  have "\<forall>d. \<exists>n. map ru_version (filter (\<lambda>r. ru_digisac r = d) (md_rules db)) = map int [1..<Suc n]"
    using inv(1) unfolding rules_inv_def versions_of_def by blast
  then show ?thesis using one inv(2,3) unfolding log_inv_def snapshots_inv_def by blast
qed

definition mapping_directory :: directory_db where
  "mapping_directory =
    demo_directory\<lparr>dir_departments :=
        [\<lparr>de_id = 1, de_external_id = ''11'', de_is_present = True, de_is_active = True\<rparr>,
         \<lparr>de_id = 2, de_external_id = ''12'', de_is_present = True, de_is_active = True\<rparr>],
      dir_company_departments :=
        [\<lparr>rel_company_id = 7, rel_department_id = 2, rel_is_present = True, rel_is_active = True\<rparr>],
      dir_digisac_departments := [''A'', ''B''],
      dir_assignments :=
        [\<lparr>ta_id = 1, ta_conversation_id = ''conv'', ta_department_id = Some ''B'', ta_event_timestamp = 10\<rparr>,
         \<lparr>ta_id = 2, ta_conversation_id = ''conv'', ta_department_id = Some ''A'', ta_event_timestamp = 20\<rparr>]\<rparr>"

definition mapping_sha :: "string \<Rightarrow> string" where
  "mapping_sha v = replicate 63 (CHR ''0'') @ (if py_contains v ''|12|'' then ''2'' else ''1'')"

definition configured_first :: "(py_error + mapping_rule) \<times> mapping_db" where
  "configured_first = configure_department_mapping mapping_sha 10 mapping_directory ''A'' (Some ''11'') True
    ''setup'' None None None 10 empty_mapping_db"

definition demo_rule :: "int \<Rightarrow> string \<Rightarrow> rule_state \<Rightarrow> time \<Rightarrow> time \<Rightarrow> mapping_rule" where
  "demo_rule i target state t u =
    \<lparr>ru_id = i, ru_digisac = ''A'', ru_target = target, ru_version = i, ru_state = state, ru_reason = ''setup'',
     ru_actor = None, ru_metadata = [], ru_effective_at = t, ru_created_at = t, ru_updated_at = u\<rparr>"

definition replaced_op :: mapping_op where
  "replaced_op = Configure 20 mapping_directory ''A'' (Some ''12'') True ''setup'' None None None 20"

definition configured_both :: mapping_db where
  "configured_both = mapping_step mapping_sha replaced_op (snd configured_first)"

lemma configured_first_run:
  "configure_department_mapping mapping_sha 10 mapping_directory ''A'' (Some ''11'') True ''setup'' None None None 10
     empty_mapping_db = (Inr (demo_rule 1 ''11'' Rule_Active 10 10), snd configured_first)"
proof -
  have "fst configured_first = Inr (demo_rule 1 ''11'' Rule_Active 10 10)" by code_simp
  then show ?thesis unfolding configured_first_def by (metis prod.collapse)
qed

lemma configured_both_reachable: "mapping_reachable mapping_sha configured_both"
proof -
  have "snd configured_first = mapping_step mapping_sha
      (Configure 10 mapping_directory ''A'' (Some ''11'') True ''setup'' None None None 10) empty_mapping_db"
    by (simp add: configured_first_def)
  then show ?thesis unfolding configured_both_def by (metis mapping_start mapping_next)
qed

theorem mapping_reachable_inv_witness:
  "distinct (map mt_key (md_transitions configured_both)) \<and>
   map ru_state (md_rules configured_both) = [Rule_Inactive, Rule_Active]"
proof -
  have "map ru_state (md_rules configured_both) = [Rule_Inactive, Rule_Active]" by code_simp
  then show ?thesis using mapping_reachable_inv[OF configured_both_reachable] by blast
qed


definition mapping_cycles :: "cycle list" where
  "mapping_cycles = [(new_cycle 1 ''u1'' ''conv'' 1 ''webhook'' 5)
     \<lparr>cy_cycle_started_at := Some 5, cy_ticket_closed_at := Some 50\<rparr>]"

definition demo_evaluation :: "(py_error + department_mapping) \<times> mapping_db" where
  "demo_evaluation = evaluate_department_mapping mapping_directory (snd demo_resolution) mapping_cycles ''u1''
    None 60 configured_both"

definition demo_mapping :: department_mapping where
  "demo_mapping = hd (md_snapshots (snd demo_evaluation))"

lemma demo_evaluation_run:
  "evaluate_department_mapping mapping_directory (snd demo_resolution) mapping_cycles ''u1'' None 60 configured_both =
    (Inr demo_mapping, snd demo_evaluation)"
proof -
  have "fst demo_evaluation = Inr demo_mapping" by code_simp
  then show ?thesis unfolding demo_evaluation_def by (metis prod.collapse)
qed


lemma find_snapshot_lookup:
  "find_snapshot c key db = Some m \<longleftrightarrow>
    lookup_by (\<lambda>m. (dm_cycle_id m, dm_evaluation_key m)) (c, key) (md_snapshots db) = Some m"
  by (simp add: find_snapshot_def lookup_by_def)

lemma first_snapshot_iff:
  assumes "snapshots_inv db"
  shows "first_snapshot c db = Some m \<longleftrightarrow>
    m \<in> set (md_snapshots db) \<and> dm_cycle_id m = c \<and>
    (\<forall>s \<in> set (md_snapshots db). dm_cycle_id s = c \<longrightarrow> dm_id m \<le> dm_id s)"
proof
  assume "first_snapshot c db = Some m"
  then show "m \<in> set (md_snapshots db) \<and> dm_cycle_id m = c \<and>
    (\<forall>s \<in> set (md_snapshots db). dm_cycle_id s = c \<longrightarrow> dm_id m \<le> dm_id s)"
    using select_limit_1_min[of dm_id "\<lambda>m. dm_cycle_id m = c" "md_snapshots db" m]
    unfolding first_snapshot_def by blast
next
  assume m: "m \<in> set (md_snapshots db) \<and> dm_cycle_id m = c \<and>
    (\<forall>s \<in> set (md_snapshots db). dm_cycle_id s = c \<longrightarrow> dm_id m \<le> dm_id s)"
  then have "select_limit 1 dm_id (\<lambda>m. dm_cycle_id m = c) (md_snapshots db) \<noteq> []" by auto
  then obtain x xs where "select_limit 1 dm_id (\<lambda>m. dm_cycle_id m = c) (md_snapshots db) = x # xs"
    by (meson neq_Nil_conv)
  then have f: "fetchone (select_limit 1 dm_id (\<lambda>m. dm_cycle_id m = c) (md_snapshots db)) = Some x" by simp
  have "dm_id x = dm_id m"
  proof (rule order_antisym)
    show "dm_id x \<le> dm_id m" by (rule select_limit_1_min(3)[OF f]) (use m in blast)+
    show "dm_id m \<le> dm_id x" using select_limit_1_min(1,2)[OF f] m by blast
  qed
  then have "x = m"
    using distinct_key_eq[of dm_id "md_snapshots db" x m] select_limit_1_min(1)[OF f] m assms
    by (simp add: snapshots_inv_def)
  then show "first_snapshot c db = Some m" using f by (simp add: first_snapshot_def)
qed

text \<open>A cycle whose first snapshot answers the default key keeps that answer.\<close>

definition default_answer :: "int \<Rightarrow> department_mapping \<Rightarrow> mapping_db \<Rightarrow> bool" where
  "default_answer c m db \<longleftrightarrow> find_snapshot c ''default'' db = None \<and> first_snapshot c db = Some m"

lemma default_answer_step:
  assumes inv: "mapping_inv db" and ans: "default_answer c m db"
  shows "default_answer c m (mapping_step sha op db)"
proof (cases op)
  case (Configure now dir digisac target active reason actor key metadata t)
  have r: "rules_inv db" and l: "log_inv db" using inv by (simp_all add: mapping_inv_def)
  have "md_snapshots (mapping_step sha op db) = md_snapshots db"
  proof (cases rule: configure_cases[of sha now dir digisac target active reason actor key metadata t db])
    case (3 d tg rr a k mm row db')
    obtain target_id where "configured d (coalesce k (derived_operation sha active d tg rr)) active rr target_id db row db'"
      by (rule configure_new_configured[OF 3(4) r l])
    then show ?thesis using Configure 3(2) by (simp add: configured_def rules_grow_def)
  qed (use Configure in simp_all)
  then show ?thesis using ans by (simp add: default_answer_def find_snapshot_def first_snapshot_def)
next
  case (Evaluate dir ident cycle_rows pid key t)
  have s: "snapshots_inv db" and s': "snapshots_inv (mapping_step sha op db)"
    using inv mapping_step_inv[OF inv] by (simp_all add: mapping_inv_def)
  show ?thesis
  proof (cases rule: evaluate_cases[of dir ident cycle_rows pid key t db])
    case (3 p k cycle n)
    have new: "md_snapshots (mapping_step sha op db) = md_snapshots db @ [n]" using Evaluate 3(7) by simp
    have keys: "dm_cycle_id n = cy_id cycle" "dm_evaluation_key n = coalesce k ''default''"
      "dm_id n = md_next_snapshot db" by (simp_all add: 3(5) decide_mapping_keys)
    have other: "\<not> (dm_cycle_id n = c \<and> dm_evaluation_key n = ''default'')"
      using 3(4) ans unfolding keys by (auto simp: existing_snapshot_def default_answer_def)
    have m: "m \<in> set (md_snapshots db) \<and> dm_cycle_id m = c \<and>
        (\<forall>s \<in> set (md_snapshots db). dm_cycle_id s = c \<longrightarrow> dm_id m \<le> dm_id s)"
      using ans first_snapshot_iff[OF s] by (simp add: default_answer_def)
    have "dm_id m < md_next_snapshot db" using m s by (simp add: snapshots_inv_def)
    then have "first_snapshot c (mapping_step sha op db) = Some m"
      unfolding first_snapshot_iff[OF s'] new using m keys(3) by auto
    moreover have "find_snapshot c ''default'' (mapping_step sha op db) = None"
      using ans other by (simp add: default_answer_def find_snapshot_def new find_append)
    ultimately show ?thesis by (simp add: default_answer_def)
  qed (use ans Evaluate in simp_all)
qed

lemma default_answer_run:
  "mapping_inv db \<Longrightarrow> default_answer c m db \<Longrightarrow> default_answer c m (fold (mapping_step sha) ops db)"
  by (induction ops arbitrary: db) (simp_all add: default_answer_step mapping_step_inv)

lemma existing_kept:
  assumes inv: "mapping_inv db" and ex: "existing_snapshot c key db = Some m"
  shows "existing_snapshot c key (fold (mapping_step sha) ops db) = Some m"
proof (cases "find_snapshot c key db")
  case (Some n)
  then have "find_snapshot c key (fold (mapping_step sha) ops db) = Some n"
    using mapping_snapshots.lookup_kept[OF inv] unfolding find_snapshot_lookup by blast
  then show ?thesis using ex Some by (simp add: existing_snapshot_def)
next
  case None
  then have "key = ''default''" "default_answer c m db"
    using ex by (simp_all add: existing_snapshot_def default_answer_def split: if_splits)
  then show ?thesis
    using default_answer_run[OF inv, of c m sha ops] by (simp add: existing_snapshot_def default_answer_def)
qed

lemma evaluate_existing:
  assumes "external_id pid ''cycle_public_id'' = Inr p" and "mapping_operation key = Inr k"
    and "lookup_by cy_public_id p cycle_rows = Some cycle"
    and "existing_snapshot (cy_id cycle) (coalesce k ''default'') db = Some m"
  shows "evaluate_department_mapping dir ident cycle_rows pid key t db = (Inr m, db)"
  using assms by (simp add: evaluate_department_mapping_def evaluate_tx_def transaction_def)

text \<open>The mapping of a cycle is immutable: once an evaluation with some key returned a snapshot,
  whatever configurations and evaluations run later, evaluating with that key again, for whatever
  directory, identities and time, returns that snapshot and changes nothing.\<close>
theorem evaluation_immutable:
  assumes "mapping_reachable sha db"
    and "evaluate_department_mapping dir ident cycle_rows pid key t db = (Inr m, db')"
  shows "evaluate_department_mapping dir2 ident2 cycle_rows pid key t2 (fold (mapping_step sha) ops db') =
    (Inr m, fold (mapping_step sha) ops db')"
proof -
  have inv: "mapping_inv db" by (rule mapping_reachable_invariant[OF assms(1)])
  have inv': "mapping_inv db'"
    using mapping_step_inv[OF inv, of sha "Evaluate dir ident cycle_rows pid key t"] assms(2) by simp
  obtain p k cycle where p: "external_id pid ''cycle_public_id'' = Inr p" "mapping_operation key = Inr k"
    "lookup_by cy_public_id p cycle_rows = Some cycle"
    and ex: "existing_snapshot (cy_id cycle) (coalesce k ''default'') db' = Some m"
  proof (cases rule: evaluate_cases[of dir ident cycle_rows pid key t db])
    case (2 p k cycle n)
    show thesis by (rule that[OF 2(1-3)]) (use 2(4,5) assms(2) in simp)
  next
    case (3 p k cycle n)
    have "find_snapshot (cy_id cycle) (coalesce k ''default'') db = None"
      using 3(4) by (auto simp: existing_snapshot_def split: option.splits)
    then have "find_snapshot (cy_id cycle) (coalesce k ''default'') db' = Some n"
      using 3(7) assms(2) by (auto simp: find_snapshot_def find_append 3(5) decide_mapping_keys)
    then show thesis using that[OF 3(1-3)] 3(7) assms(2) by (simp add: existing_snapshot_def)
  qed (use assms(2) in simp)
  show ?thesis by (rule evaluate_existing[OF p existing_kept[OF inv' ex]])
qed

theorem evaluation_immutable_witness:
  "evaluate_department_mapping demo_directory empty_identity_db mapping_cycles ''u1'' None 99
     (mapping_step mapping_sha (Evaluate mapping_directory empty_identity_db mapping_cycles ''u1'' (Some ''again'') 70)
       (snd demo_evaluation)) =
   (Inr demo_mapping,
    mapping_step mapping_sha (Evaluate mapping_directory empty_identity_db mapping_cycles ''u1'' (Some ''again'') 70)
       (snd demo_evaluation))"
  using evaluation_immutable[OF configured_both_reachable demo_evaluation_run,
      of demo_directory empty_identity_db 99
        "[Evaluate mapping_directory empty_identity_db mapping_cycles ''u1'' (Some ''again'') 70]"]
  by simp

text \<open>A configuration that is not a replay does what it says: activating leaves the returned rule as
  the active rule of the department, with the requested target, deactivating leaves no active rule,
  and the active rules of the other departments stay as they were.\<close>
theorem configuration_decides:
  assumes "mapping_reachable sha db"
    and "configure_department_mapping sha now dir digisac target active reason actor key metadata t db = (Inr row, db')"
    and "db' \<noteq> db"
  shows "active_rule (py_strip digisac) db' = (if active then Some row else None) \<and>
    ru_digisac row = py_strip digisac \<and> (active \<and> target \<noteq> None \<longrightarrow> ru_target row = py_strip (the target)) \<and>
    (\<forall>e. e \<noteq> py_strip digisac \<longrightarrow> active_rule e db' = active_rule e db)"
proof (cases rule: configure_cases[of sha now dir digisac target active reason actor key metadata t db])
  case (3 d tg r a k m row' db'')
  have inv: "rules_inv db" "log_inv db" using mapping_reachable_invariant[OF assms(1)] by (simp_all add: mapping_inv_def)
  have eq: "row' = row" "db'' = db'" using 3(2) assms(2) by simp_all
  obtain target_id where c: "configured d (coalesce k (derived_operation sha active d tg r)) active r target_id db row db'"
    and tgt: "configure_target active tg (active_rule d db) = Inr target_id"
    by (rule configure_new_configured[OF 3(4)[unfolded eq] inv])
  have d: "d = py_strip digisac" and tg: "tg = map_option py_strip target"
    using 3(1) unfolding configure_values_def
    by (auto simp: external_id_def opt_external_id_def Let_def split: if_splits option.splits elim!: on_value_InrE)
  have "active_rule d db' = Some row" if active
    using c that active_rule_iff[of db' d row] by (simp add: configured_def wanted_state_def)
  moreover have "ru_target row = py_strip (the target)" if "active" "target \<noteq> None"
    using c tgt that tg by (auto simp: configured_def configure_target_def)
  ultimately show ?thesis using c unfolding d configured_def by simp
qed (use assms in simp_all)

theorem configuration_decides_witness:
  "active_rule ''A'' (snd configured_first) = Some (demo_rule 1 ''11'' Rule_Active 10 10)"
proof -
  have "snd configured_first \<noteq> empty_mapping_db"
  proof
    assume "snd configured_first = empty_mapping_db"
    moreover have "length (md_rules (snd configured_first)) = 1" by code_simp
    ultimately show False by (simp add: empty_mapping_db_def)
  qed
  moreover have "py_strip ''A'' = ''A''" by code_simp
  ultimately show ?thesis
    using configuration_decides[OF mapping_start configured_first_run] by simp
qed

text \<open>The log entry and the rule that answer a replay.\<close>

definition logged_for :: "string \<Rightarrow> bool \<Rightarrow> string \<Rightarrow> mapping_rule \<Rightarrow> mapping_db \<Rightarrow> bool" where
  "logged_for key active reason row db \<longleftrightarrow>
    row \<in> set (md_rules db) \<and>
    (\<exists>t. lookup_by mt_key key (md_transitions db) = Some t \<and> mt_rule_id t = ru_id row \<and>
      mt_to t = wanted_state active \<and> mt_reason t = reason)"

lemma replay_logged:
  assumes "replay_mapping active reason tg key db = Some (Inr row)"
  shows "logged_for key active reason row db"
proof -
  obtain t where t: "lookup_by mt_key key (md_transitions db) = Some t"
    "lookup_by ru_id (mt_rule_id t) (md_rules db) = Some row" "mt_to t = wanted_state active" "mt_reason t = reason"
    using assms by (auto simp: replay_mapping_def wanted_state_def split: option.splits if_splits)
  then show ?thesis using lookup_by_Some[OF t(2)] by (auto simp: logged_for_def)
qed

lemma configure_logged:
  assumes "mapping_inv db"
    and "configure_department_mapping sha now dir digisac target active reason actor key metadata t db = (Inr row, db')"
  obtains d tg r a k m where "configure_values digisac target reason actor key metadata = Inr (d, tg, r, a, k, m)"
    "logged_for (coalesce k (derived_operation sha active d tg r)) active r row db'" "mapping_inv db'"
proof -
  have inv': "mapping_inv db'"
    using mapping_step_inv[OF assms(1), of sha "Configure now dir digisac target active reason actor key metadata t"]
      assms(2) by simp
  have inv: "rules_inv db" "log_inv db" using assms(1) by (simp_all add: mapping_inv_def)
  show thesis
  proof (cases rule: configure_cases[of sha now dir digisac target active reason actor key metadata t db])
    case (2 d tg r a k m row')
    then show thesis using replay_logged that[OF 2(1) _ inv'] assms(2) by simp
  next
    case (3 d tg r a k m row' db'')
    have eq: "row' = row" "db'' = db'" using 3(2) assms(2) by simp_all
    obtain target_id where "configured d (coalesce k (derived_operation sha active d tg r)) active r target_id db row db'"
      by (rule configure_new_configured[OF 3(4)[unfolded eq] inv])
    then show thesis by (intro that[OF 3(1) _ inv']) (simp add: configured_def logged_for_def)
  qed (use assms(2) in simp)
qed

lemma logged_kept:
  assumes inv: "mapping_inv db" and lg: "logged_for key active reason row db"
  obtains row' where "logged_for key active reason row' (fold (mapping_step sha) ops db)"
    "rule_core row' = rule_core row"
    "lookup_by ru_id (ru_id row) (md_rules (fold (mapping_step sha) ops db)) = Some row'"
proof -
  let ?s = "fold (mapping_step sha) ops db"
  obtain t where t: "lookup_by mt_key key (md_transitions db) = Some t" "mt_rule_id t = ru_id row"
    "mt_to t = wanted_state active" "mt_reason t = reason" and row: "row \<in> set (md_rules db)"
    using lg by (auto simp: logged_for_def)
  have t': "lookup_by mt_key key (md_transitions ?s) = Some t" by (rule mapping_log.lookup_kept[OF inv t(1)])
  obtain cs where "map rule_core (md_rules ?s) = map rule_core (md_rules db) @ cs" using cores_kept[OF inv] by blast
  then have "set (map rule_core (md_rules ?s)) = set (map rule_core (md_rules db) @ cs)" by (rule arg_cong)
  moreover have "rule_core row \<in> set (map rule_core (md_rules db) @ cs)" using row by simp
  ultimately have "rule_core row \<in> set (map rule_core (md_rules ?s))" by blast
  then obtain row' where row': "row' \<in> set (md_rules ?s)" "rule_core row' = rule_core row" by auto
  then have id: "ru_id row' = ru_id row" by (simp add: rule_core_def)
  have "rules_inv ?s" using mapping_log.run_inv[OF inv] by (simp add: mapping_inv_def)
  then have "distinct (map ru_id (md_rules ?s))" unfolding rules_inv_def by blast
  then have lk: "lookup_by ru_id (ru_id row) (md_rules ?s) = Some row'"
    using row'(1) id by (simp add: lookup_by_unique)
  have "logged_for key active reason row' ?s"
    using t' t row'(1) id by (auto simp: logged_for_def)
  then show thesis by (rule that[OF _ row'(2) lk])
qed

lemma logged_replays:
  assumes "logged_for key active reason row db" and "rules_inv db" and "tg = None \<or> tg = Some (ru_target row)"
  shows "replay_mapping active reason tg key db = Some (Inr row)"
proof -
  obtain t where t: "lookup_by mt_key key (md_transitions db) = Some t" "mt_rule_id t = ru_id row"
    "mt_to t = wanted_state active" "mt_reason t = reason" and row: "row \<in> set (md_rules db)"
    using assms(1) by (auto simp: logged_for_def)
  have "distinct (map ru_id (md_rules db))" using assms(2) unfolding rules_inv_def by blast
  then have "lookup_by ru_id (ru_id row) (md_rules db) = Some row" using row by (simp add: lookup_by_unique)
  then show ?thesis using t assms(3) by (auto simp: replay_mapping_def wanted_state_def)
qed

lemma configure_replays:
  assumes "configure_values digisac target reason actor key metadata = Inr (d, tg, r, a, k, m)"
    and "replay_mapping active r tg (coalesce k (derived_operation sha active d tg r)) db = Some (Inr row)"
  shows "configure_department_mapping sha now dir digisac target active reason actor key metadata t db = (Inr row, db)"
  by (simp add: configure_by_values assms transaction_def configure_tx_def Let_def)

lemma configure_values_target:
  "configure_values digisac target reason actor key metadata = Inr (d, tg, r, a, k, m) \<Longrightarrow> tg = map_option py_strip target"
  unfolding configure_values_def
  by (auto simp: external_id_def opt_external_id_def Let_def split: if_splits option.splits elim!: on_value_InrE)

text \<open>Configurations are idempotent: after one returned a rule, whatever runs later, the same call
  changes nothing and returns that rule as it is then.  So the rule is also returned, and not
  activated again, when another configuration replaced it in between.\<close>
theorem configuration_replay:
  assumes "mapping_reachable sha db"
    and "configure_department_mapping sha now dir digisac target active reason actor key metadata t db = (Inr row, db')"
    and "target = None \<or> map_option py_strip target = Some (ru_target row)"
  shows "\<exists>row'. configure_department_mapping sha now2 dir2 digisac target active reason actor key metadata t2
      (fold (mapping_step sha) ops db') = (Inr row', fold (mapping_step sha) ops db') \<and>
    lookup_by ru_id (ru_id row) (md_rules (fold (mapping_step sha) ops db')) = Some row' \<and>
    rule_core row' = rule_core row"
proof -
  let ?s = "fold (mapping_step sha) ops db'"
  obtain d tg r a k m where v: "configure_values digisac target reason actor key metadata = Inr (d, tg, r, a, k, m)"
    and lg: "logged_for (coalesce k (derived_operation sha active d tg r)) active r row db'" and inv: "mapping_inv db'"
    by (rule configure_logged[OF mapping_reachable_invariant[OF assms(1)] assms(2)])
  obtain row' where row': "logged_for (coalesce k (derived_operation sha active d tg r)) active r row' ?s"
    "rule_core row' = rule_core row" "lookup_by ru_id (ru_id row) (md_rules ?s) = Some row'"
    by (rule logged_kept[OF inv lg])
  have rules: "rules_inv ?s" using mapping_log.run_inv[OF inv] by (simp add: mapping_inv_def)
  have "tg = None \<or> tg = Some (ru_target row')"
    using assms(3) configure_values_target[OF v] row'(2) by (auto simp: rule_core_def)
  then show ?thesis
    using configure_replays[OF v logged_replays[OF row'(1) rules]] row'(2,3) by blast
qed

theorem configuration_replay_witness:
  "fst (configure_department_mapping mapping_sha 30 mapping_directory ''A'' (Some ''11'') True ''setup'' None None
     None 30 configured_both) = Inr (demo_rule 1 ''11'' Rule_Inactive 10 20)"
proof -
  have strip: "map_option py_strip (Some ''11'') = Some (ru_target (demo_rule 1 ''11'' Rule_Active 10 10))" by code_simp
  have "lookup_by ru_id (ru_id (demo_rule 1 ''11'' Rule_Active 10 10)) (md_rules configured_both) =
      Some (demo_rule 1 ''11'' Rule_Inactive 10 20)" by code_simp
  then show ?thesis
    using configuration_replay[OF mapping_start configured_first_run disjI2[OF strip],
        of 30 mapping_directory 30 "[replaced_op]"]
    by (auto simp: configured_both_def)
qed

text \<open>An operation key answers for whatever department: configuring another department with the key
  of an earlier configuration (same reason and state, no other target) returns the rule of the first
  department and configures nothing.\<close>
theorem operation_key_crosses_departments:
  assumes "mapping_reachable sha db"
    and "configure_department_mapping sha now dir digisac target active reason actor (Some key) metadata t db = (Inr row, db')"
    and "target = None \<or> map_option py_strip target = Some (ru_target row)"
    and "external_id digisac2 ''digisac_department_external_id'' = Inr d2"
  shows "configure_department_mapping sha now2 dir2 digisac2 target active reason actor (Some key) metadata t2 db' =
    (Inr row, db')"
proof -
  obtain d tg r a k m where v: "configure_values digisac target reason actor (Some key) metadata = Inr (d, tg, r, a, k, m)"
    and lg: "logged_for (coalesce k (derived_operation sha active d tg r)) active r row db'" and inv: "mapping_inv db'"
    by (rule configure_logged[OF mapping_reachable_invariant[OF assms(1)] assms(2)])
  obtain kk where k: "k = Some kk"
    using v unfolding configure_values_def by (auto simp: mapping_operation_def Let_def split: if_splits elim!: on_value_InrE)
  have v2: "configure_values digisac2 target reason actor (Some key) metadata = Inr (d2, tg, r, a, k, m)"
    using v assms(4) unfolding configure_values_def by (auto elim!: on_value_InrE)
  have "tg = None \<or> tg = Some (ru_target row)" using assms(3) configure_values_target[OF v] by auto
  then have "replay_mapping active r tg (coalesce k (derived_operation sha active d2 tg r)) db' = Some (Inr row)"
    using logged_replays[of _ active r row db' tg] lg inv by (simp add: k mapping_inv_def)
  then show ?thesis by (rule configure_replays[OF v2])
qed

definition configured_key :: "(py_error + mapping_rule) \<times> mapping_db" where
  "configured_key = configure_department_mapping mapping_sha 10 mapping_directory ''A'' (Some ''11'') True
    ''setup'' None (Some ''op-1'') None 10 empty_mapping_db"

theorem operation_key_crosses_departments_witness:
  "configure_department_mapping mapping_sha 20 mapping_directory ''B'' (Some ''11'') True ''setup'' None
     (Some ''op-1'') None 20 (snd configured_key) = (Inr (demo_rule 1 ''11'' Rule_Active 10 10), snd configured_key)"
proof -
  have "fst configured_key = Inr (demo_rule 1 ''11'' Rule_Active 10 10)" by code_simp
  then have run: "configure_department_mapping mapping_sha 10 mapping_directory ''A'' (Some ''11'') True ''setup'' None
      (Some ''op-1'') None 10 empty_mapping_db = (Inr (demo_rule 1 ''11'' Rule_Active 10 10), snd configured_key)"
    unfolding configured_key_def by (metis prod.collapse)
  have strip: "map_option py_strip (Some ''11'') = Some (ru_target (demo_rule 1 ''11'' Rule_Active 10 10))" by code_simp
  have "external_id ''B'' ''digisac_department_external_id'' = Inr ''B''" by code_simp
  then show ?thesis
    using operation_key_crosses_departments[OF mapping_start run disjI2[OF strip]] by simp
qed

end
