(* ===== verification/Request_Pipeline.thy ===== *)
theory Request_Pipeline
  imports Request_Delivery Mapping_Correctness
begin

text \<open>
  The composition of the components that turn a finished cycle into a request: the preparation of a
  cycle (\<open>src/core/acessorias_preparation.py\<close>), the recovery of a request refused for want of a mapping
  and the worker's preparation and creation step, on one state that joins the request, identity,
  mapping and directory tables.  The invariant of the joint state is that a request is only ever made
  for a company that the identity of its cycle confirmed.
\<close>

section \<open>The joint state\<close>

record pipeline_db =
  pl_requests :: request_db
  pl_identity :: identity_db
  pl_mapping :: mapping_db
  pl_directory :: directory_db

text \<open>The request component reads the snapshots that the mapping component writes.\<close>

definition with_mapping :: "mapping_db \<Rightarrow> pipeline_db \<Rightarrow> pipeline_db" where
  "with_mapping mdb p =
    p\<lparr>pl_mapping := mdb, pl_requests := (pl_requests p)\<lparr>rd_mappings := md_snapshots mdb\<rparr>\<rparr>"

definition resolve_in ::
  "(string \<Rightarrow> string) \<Rightarrow> time \<Rightarrow> time \<Rightarrow> string \<Rightarrow> int \<Rightarrow> pipeline_db \<Rightarrow> (py_error + cycle_resolution) \<times> pipeline_db" where
  "resolve_in sha now timestamp cycle_public_id contact_id p =
    (case resolve_cycle_identity sha now (pl_directory p) (rd_cycles (pl_requests p)) cycle_public_id contact_id
        DEFAULT_RULE_VERSION timestamp (pl_identity p) of
       (res, idb) \<Rightarrow> (res, p\<lparr>pl_identity := idb\<rparr>))"

definition evaluate_in ::
  "string \<Rightarrow> string option \<Rightarrow> time \<Rightarrow> pipeline_db \<Rightarrow> (py_error + department_mapping) \<times> pipeline_db" where
  "evaluate_in cycle_public_id key timestamp p =
    (case evaluate_department_mapping (pl_directory p) (pl_identity p) (rd_cycles (pl_requests p))
        cycle_public_id key timestamp (pl_mapping p) of
       (res, mdb) \<Rightarrow> (res, with_mapping mdb p))"

section \<open>Preparation\<close>

record preparation =
  pr_ready :: bool
  pr_stage :: string
  pr_reason :: string
  pr_identity :: "cycle_resolution option"
  pr_mapping :: "department_mapping option"

definition not_ready ::
  "string \<Rightarrow> string \<Rightarrow> cycle_resolution option \<Rightarrow> department_mapping option \<Rightarrow> preparation" where
  "not_ready stage reason identity mapping =
    \<lparr>pr_ready = False, pr_stage = stage, pr_reason = reason, pr_identity = identity, pr_mapping = mapping\<rparr>"

text \<open>\<open>x or d\<close> on texts.\<close>

definition or_text :: "string \<Rightarrow> string \<Rightarrow> string" where
  "or_text x d = (if x = [] then d else x)"

definition resolution_text :: "resolution_state \<Rightarrow> string" where
  "resolution_text s =
    (case s of Res_Confirmed \<Rightarrow> ''confirmed'' | Res_Ambiguous \<Rightarrow> ''ambiguous''
     | Res_Unresolved \<Rightarrow> ''unresolved'' | Res_Conflict \<Rightarrow> ''conflict'')"

definition load_cycle_contact :: "string \<Rightarrow> pipeline_db \<Rightarrow> (cycle \<times> digisac_contact option) option" where
  "load_cycle_contact cycle_public_id p =
    (case lookup_by cy_public_id cycle_public_id (rd_cycles (pl_requests p)) of
       None \<Rightarrow> None
     | Some cycle \<Rightarrow>
        Some (cycle, Option.bind (cy_contact_external_id cycle)
          (\<lambda>e. lookup_by dc_external_id e (dir_digisac_contacts (pl_directory p)))))"

definition prepare_mapping ::
  "time \<Rightarrow> string \<Rightarrow> cycle_resolution \<Rightarrow> pipeline_db \<Rightarrow> (py_error + preparation) \<times> pipeline_db" where
  "prepare_mapping timestamp cycle_public_id identity p =
    (case evaluate_in cycle_public_id None timestamp p of
       (Inl e, p') \<Rightarrow> (Inl e, p')
     | (Inr mapping, p') \<Rightarrow>
        (if dm_state mapping \<noteq> ''resolved''
         then (Inr (not_ready ''mapping'' (or_text (dm_reason mapping) ''mapping_unresolved'')
                (Some identity) (Some mapping)), p')
         else (Inr \<lparr>pr_ready = True, pr_stage = ''ready'', pr_reason = ''prepared'',
                 pr_identity = Some identity, pr_mapping = Some mapping\<rparr>, p')))"

text \<open>\<open>now\<close> gives the clocks of the transactions.\<close>

definition prepare_cycle_for_request ::
  "(string \<Rightarrow> string) \<Rightarrow> (nat \<Rightarrow> time) \<Rightarrow> string \<Rightarrow> pipeline_db \<Rightarrow> (py_error + preparation) \<times> pipeline_db" where
  "prepare_cycle_for_request sha now cycle_public_id p =
    (case load_cycle_contact cycle_public_id p of
       None \<Rightarrow> (Inl (LookupError ''conversation cycle not found''), p)
     | Some (cycle, contact) \<Rightarrow>
        (if cy_status cycle \<notin> set [Cycle_Completed, Completed_With_Warnings]
         then (Inr (not_ready ''cycle'' ''cycle_not_terminal'' None None), p)
         else case cy_contact_external_id cycle of
           None \<Rightarrow> (Inr (not_ready ''identity'' ''canonical_contact_missing'' None None), p)
         | Some external \<Rightarrow>
            (if py_strip external = []
             then (Inr (not_ready ''identity'' ''canonical_contact_missing'' None None), p)
             else case contact of
               None \<Rightarrow> (Inr (not_ready ''identity'' ''canonical_contact_unavailable'' None None), p)
             | Some c \<Rightarrow>
                (case resolve_in sha (now 10) (now 11) cycle_public_id (dc_id c) p of
                   (Inl e, p1) \<Rightarrow> (Inl e, p1)
                 | (Inr identity, p1) \<Rightarrow>
                    (if cr_contact_id identity \<noteq> dc_id c
                     then (Inr (not_ready ''identity'' ''contact_provenance_mismatch'' None None), p1)
                     else if cr_state identity \<noteq> Res_Confirmed
                     then (Inr (not_ready ''identity''
                       (or_text (cr_reason identity) (resolution_text (cr_state identity))) (Some identity) None), p1)
                     else prepare_mapping (now 12) cycle_public_id identity p1)))))"

section \<open>Preparation and creation\<close>

definition on_requests :: "(request_db \<Rightarrow> 'a \<times> request_db) \<Rightarrow> pipeline_db \<Rightarrow> 'a \<times> pipeline_db" where
  "on_requests f p = (case f (pl_requests p) of (res, db) \<Rightarrow> (res, p\<lparr>pl_requests := db\<rparr>))"

definition create_in ::
  "(request_payload \<Rightarrow> string) \<Rightarrow> bool \<Rightarrow> 'w provider \<Rightarrow> (nat \<Rightarrow> time) \<Rightarrow> int \<Rightarrow> string \<Rightarrow> string option \<Rightarrow>
   string \<Rightarrow> pipeline_db \<Rightarrow> 'w \<Rightarrow> (py_error + request_operation option) \<times> pipeline_db \<times> 'w" where
  "create_in digest setup_ok provider now lease_seconds fallback owner cycle_public_id p w =
    (case create_request_for_cycle digest setup_ok provider now lease_seconds fallback owner cycle_public_id
        (pl_requests p) w of
       (res, db, w') \<Rightarrow> (res, p\<lparr>pl_requests := db\<rparr>, w'))"

text \<open>The worker's \<open>_prepare_and_create_request\<close>.\<close>

definition prepare_and_create_request ::
  "(string \<Rightarrow> string) \<Rightarrow> (request_payload \<Rightarrow> string) \<Rightarrow> bool \<Rightarrow> 'w provider \<Rightarrow> (nat \<Rightarrow> time) \<Rightarrow> int \<Rightarrow> string \<Rightarrow>
   string \<Rightarrow> pipeline_db \<Rightarrow> 'w \<Rightarrow> (py_error + request_operation option) \<times> pipeline_db \<times> 'w" where
  "prepare_and_create_request sha digest setup_ok provider now lease_seconds fallback cycle_id p w =
    (case prepare_cycle_for_request sha now cycle_id p of
       (Inl e, p') \<Rightarrow> (Inl e, p', w)
     | (Inr preparation, p') \<Rightarrow>
        (if \<not> pr_ready preparation then (Inr None, p', w)
         else create_in digest setup_ok provider now lease_seconds fallback None cycle_id p' w))"

definition recover_mapping_missing_request ::
  "(string \<Rightarrow> string) \<Rightarrow> (request_payload \<Rightarrow> string) \<Rightarrow> bool \<Rightarrow> 'w provider \<Rightarrow> (nat \<Rightarrow> time) \<Rightarrow> int \<Rightarrow> string \<Rightarrow>
   string option \<Rightarrow> string \<Rightarrow> pipeline_db \<Rightarrow> 'w \<Rightarrow> (py_error + request_operation option) \<times> pipeline_db \<times> 'w" where
  "recover_mapping_missing_request sha digest setup_ok provider now lease_seconds fallback owner
      cycle_public_id p w =
    (case claim_owner owner fallback of
       Inl e \<Rightarrow> (Inl e, p, w)
     | Inr o' \<Rightarrow>
        (case on_requests (claim_mapping_missing_recovery (now 5) cycle_public_id o' lease_seconds) p of
           (Inl e, p1) \<Rightarrow> (Inl e, p1, w)
         | (Inr None, p1) \<Rightarrow> (Inr (get_operation_for_cycle cycle_public_id (pl_requests p1)), p1, w)
         | (Inr (Some claimed), p1) \<Rightarrow>
            (case prepare_cycle_for_request sha now cycle_public_id p1 of
               (Inl e, p2) \<Rightarrow> (Inl e, p2, w)
             | (Inr preparation, p2) \<Rightarrow>
                (if \<not> pr_ready preparation
                 then (case on_requests (record_preparation_recovery_blocked (now 6) (op_id claimed) o'
                         (pr_stage preparation) (pr_reason preparation)) p2 of
                         (Inl e, p3) \<Rightarrow> (Inl e, p3, w)
                       | (Inr r, p3) \<Rightarrow> (Inr (Some r), p3, w))
                 else (case on_requests (reopen_prepared_operation digest (now 6) (op_id claimed) o'
                           cycle_public_id) p2 of
                         (Inl e, p3) \<Rightarrow> (Inl e, p3, w)
                       | (Inr _, p3) \<Rightarrow>
                           create_in digest setup_ok provider now lease_seconds fallback
                             (Some o') cycle_public_id p3 w)))))"

section \<open>Companies come from confirmed identities\<close>

definition company_backed :: "identity_db \<Rightarrow> int \<Rightarrow> int \<Rightarrow> bool" where
  "company_backed ident cycle_id company \<longleftrightarrow>
    (\<exists>r \<in> set (ib_resolutions ident). \<exists>l \<in> set (ib_links ident).
      cr_cycle_id r = cycle_id \<and> cr_state r = Res_Confirmed \<and> cr_link_id r = Some (il_id l) \<and>
      il_contact_id l = cr_contact_id r \<and> il_company_id l = company)"

lemma company_backed_kept:
  assumes "company_backed ident c k" and "links_kept ident ident'"
    and "\<exists>rs. ib_resolutions ident' = ib_resolutions ident @ rs"
  shows "company_backed ident' c k"
proof -
  obtain r l where r: "r \<in> set (ib_resolutions ident)" "cr_cycle_id r = c" "cr_state r = Res_Confirmed"
    "cr_link_id r = Some (il_id l)" "il_contact_id l = cr_contact_id r" "il_company_id l = k" "l \<in> set (ib_links ident)"
    using assms(1) unfolding company_backed_def by blast
  obtain l' where l': "l' \<in> set (ib_links ident')" "link_core l' = link_core l"
    using assms(2) r(7) unfolding links_kept_def by blast
  have "r \<in> set (ib_resolutions ident')" using assms(3) r(1) by auto
  moreover have "cr_link_id r = Some (il_id l')" "il_contact_id l' = cr_contact_id r" "il_company_id l' = k"
    using r l'(2) by (simp_all add: link_core_def)
  ultimately show ?thesis using r(2,3) l'(1) unfolding company_backed_def by blast
qed

lemma confirmed_company_backed:
  assumes inv: "identity_inv ident" and k: "confirmed_company (cycle_identity ident cycle) = Some k"
  shows "company_backed ident (cy_id cycle) k"
proof -
  obtain r co where ci: "cycle_identity ident cycle = Some (r, co)"
    using k by (cases "cycle_identity ident cycle") (auto simp: confirmed_company_def)
  then obtain i where r: "lookup_by cr_cycle_id (cy_id cycle) (ib_resolutions ident) = Some r"
    "cr_state r = Res_Confirmed" "cr_link_id r = Some i" "map_option il_company_id (lookup_by il_id i (ib_links ident)) = Some k"
    using k by (auto simp: cycle_identity_def confirmed_company_def split: option.splits if_splits)
  obtain l where l: "lookup_by il_id i (ib_links ident) = Some l" "il_company_id l = k" using r(4) by blast
  have rr: "r \<in> set (ib_resolutions ident)" "cr_cycle_id r = cy_id cycle" using lookup_by_Some[OF r(1)] by simp_all
  have ll: "l \<in> set (ib_links ident)" "il_id l = i" using lookup_by_Some[OF l(1)] by simp_all
  have "resolution_ok ident r" using inv rr(1) by (simp add: identity_inv_def)
  then obtain l' where l': "l' \<in> set (ib_links ident)" "il_id l' = i" "il_contact_id l' = cr_contact_id r"
    using r(3) by (auto simp: resolution_ok_def)
  have "distinct (map il_id (ib_links ident))" using inv by (simp add: identity_inv_def links_inv_def)
  then have "l' = l" using distinct_key_eq[of il_id "ib_links ident" l' l] l'(1,2) ll by simp
  then show ?thesis using rr r(2,3) ll l(2) l'(3) unfolding company_backed_def by blast
qed

lemma decide_mapping_company:
  assumes "dm_company_id (decide_mapping dir ident db cycle key t) = Some k"
  shows "confirmed_company (cycle_identity ident cycle) = Some k"
  using assms unfolding decide_mapping_def decide_with_rule_def Let_def
  by (simp add: snapshot_row_def split: option.splits prod.splits if_splits)

lemma new_snapshot_backed:
  assumes "identity_inv ident"
    and "evaluate_department_mapping dir ident cycle_rows pid key t db = (res, db')"
    and "m \<in> set (md_snapshots db')" and "m \<notin> set (md_snapshots db)" and "dm_company_id m = Some k"
  shows "company_backed ident (dm_cycle_id m) k"
proof (cases rule: evaluate_cases[of dir ident cycle_rows pid key t db])
  case (3 p ky cycle n)
  have "m = n" using 3(7) assms(2-4) by auto
  then show ?thesis
    using decide_mapping_company confirmed_company_backed[OF assms(1)] assms(5)
    by (simp add: 3(5) decide_mapping_keys)
qed (use assms in simp_all)

section \<open>What a request transaction does to the companies\<close>

definition op_core :: "request_operation \<Rightarrow> int \<times> int \<times> int option" where
  "op_core r = (op_id r, op_source_cycle_id r, op_company_id r)"

definition op_cores :: "request_db \<Rightarrow> (int \<times> int \<times> int option) list" where
  "op_cores db = map op_core (rd_operations db)"

definition cores_same :: "request_db \<Rightarrow> request_db \<Rightarrow> bool" where
  "cores_same db db' \<longleftrightarrow> op_cores db' = op_cores db \<and> rd_mappings db' = rd_mappings db"

named_theorems cores

lemma cores_same_refl [simp]: "cores_same db db"
  by (simp add: cores_same_def)

lemma cores_same_trans: "cores_same a b \<Longrightarrow> cores_same b c \<Longrightarrow> cores_same a c"
  by (simp add: cores_same_def)

lemma cores_same_update:
  assumes "update_returning P f db = (res, db')" and "\<And>r. P r \<Longrightarrow> op_core (f r) = op_core r"
  shows "cores_same db db'"
proof -
  have "map op_core (update_where P f (rd_operations db)) = map op_core (rd_operations db)"
    by (rule map_update_where) (rule assms(2))
  then show ?thesis using update_returning_result[OF assms(1)] by (auto simp: cores_same_def op_cores_def)
qed

lemma op_core_simps [simp]:
  "op_core (recover_stale now r) = op_core r" "op_core (claimed_operation now owner lease r) = op_core r"
  "op_core (confidence_blocked now d r) = op_core r" "op_core (post_started now r) = op_core r"
  "op_core (finished_operation now outcome r) = op_core r"
  "op_core (reconciled now action solid key reason r) = op_core r"
  by (simp_all add: op_core_def recover_stale_def release_claim_def claimed_operation_def confidence_blocked_def
      post_started_def finished_operation_def reconciled_def Let_def split: reconciliation_action.split)

lemma claim_cores [cores]: "cores_same db (snd (claim_operation now i owner lease db))"
proof -
  let ?rec = "update_where (expired_attempt now i) (recover_stale now) (rd_operations db)"
  obtain res db' where u: "update_returning (operation_claimable i) (claimed_operation now owner lease)
      (db\<lparr>rd_operations := ?rec\<rparr>) = (res, db')" by fastforce
  have "cores_same (db\<lparr>rd_operations := ?rec\<rparr>) db'" by (rule cores_same_update[OF u]) simp
  then have "cores_same db db'"
    by (simp add: cores_same_def op_cores_def map_update_where)
  then show ?thesis
    using u update_returning_result[OF u] by (auto simp: claim_operation_def Let_def)
qed

lemma mark_post_cores [cores]: "cores_same db (snd (mark_post_started now i owner db))"
proof (cases "find (held_by i owner) (rd_operations db)")
  case (Some r)
  obtain res1 db1 where u1: "update_returning (\<lambda>r. held_by i owner r \<and> op_post_started_at r = None)
      (confidence_blocked now (operation_confidence r db)) db = (res1, db1)" by fastforce
  obtain res2 db2 where u2: "update_returning (held_by i owner) (post_started now) db = (res2, db2)" by fastforce
  have "cores_same db db1" "cores_same db db2"
    using cores_same_update[OF u1] cores_same_update[OF u2] by simp_all
  then show ?thesis using Some u1 u2 by (cases res1; cases res2) (auto simp: mark_post_started_def Let_def)
qed (simp add: mark_post_started_def)

lemma finish_cores [cores]: "cores_same db (snd (finish_operation now i owner outcome db))"
proof -
  obtain res db' where u: "update_returning (held_by i owner) (finished_operation now outcome) db = (res, db')"
    by fastforce
  have "cores_same db db'" by (rule cores_same_update[OF u]) simp
  then show ?thesis using u by (auto simp: finish_operation_def split: sum.split option.split)
qed

lemma block_cores [cores]: "cores_same db (snd (finish_confidence_blocked now i owner d db))"
proof -
  obtain res db' where u: "update_returning (\<lambda>r. held_by i owner r \<and> op_post_started_at r = None)
      (confidence_blocked now d) db = (res, db')" by fastforce
  have "cores_same db db'" by (rule cores_same_update[OF u]) simp
  then show ?thesis using u by (auto simp: finish_confidence_blocked_def split: sum.split option.split)
qed

lemma refresh_cores [cores]: "cores_same db (snd (refresh_payload_metadata digest now i owner payload d db))"
proof -
  let ?f = "\<lambda>r. r\<lparr>op_payload_fingerprint := Some (digest payload),
      op_payload_metadata := payload_metadata payload @
        [(''confidence_gate'', JObj (confidence_gate_metadata d))], op_updated_at := now\<rparr>"
  obtain res db' where u: "update_returning (\<lambda>r. held_by i owner r \<and> op_post_started_at r = None) ?f db = (res, db')"
    by fastforce
  have "cores_same db db'" by (rule cores_same_update[OF u]) (simp add: op_core_def)
  then show ?thesis using u by (auto simp: refresh_payload_metadata_def split: sum.split)
qed

lemma claim_recovery_cores [cores]:
  "cores_same db (snd (claim_mapping_missing_recovery now pid owner lease db))"
proof (cases "get_operation_for_cycle pid db")
  case (Some r0)
  obtain res db' where u: "update_returning (\<lambda>r. op_id r = op_id r0 \<and> unattempted_mapping_failure r)
      (\<lambda>r. r\<lparr>op_claim_owner := Some owner, op_claim_expires_at := Some (now + seconds lease),
        op_updated_at := now\<rparr>) db = (res, db')" by fastforce
  have "cores_same db db'" by (rule cores_same_update[OF u]) (simp add: op_core_def)
  then show ?thesis using Some u by (auto simp: claim_mapping_missing_recovery_def)
qed (simp add: claim_mapping_missing_recovery_def)

lemma recovery_blocked_cores [cores]:
  "cores_same db (snd (record_preparation_recovery_blocked now i owner stage reason db))"
proof -
  obtain res db' where u: "update_returning
      (\<lambda>o'. op_id o' = i \<and> op_state o' = Definitive_Failure \<and>
          op_failure_category o' = Some ''mapping_missing'' \<and> op_claim_owner o' = Some owner \<and>
          op_post_started_at o' = None \<and> op_sol_id o' = None)
      (\<lambda>o'. o'\<lparr>op_claim_owner := None, op_claim_expires_at := None,
          op_preparation_recovery := recovery_json ''blocked'' (safe_category stage) (safe_category reason),
          op_updated_at := now\<rparr>) db = (res, db')" by fastforce
  have "cores_same db db'" by (rule cores_same_update[OF u]) (simp add: op_core_def)
  then show ?thesis using u by (auto simp: record_preparation_recovery_blocked_def split: sum.split option.split)
qed

lemma reconcile_tx_cores: "cores_same db (snd (reconcile_tx now pid action solid reason key actor db))"
  by (auto simp: reconcile_tx_def write_operations_def cores_same_def op_cores_def Let_def map_update_where
      split: option.split sum.split)

lemma reconciliation_cores [cores]:
  "cores_same db (snd (record_reconciliation now pid action solid reason key actor absent db))"
  using reconcile_tx_cores
  by (cases action) (auto simp: record_reconciliation_def split: sum.split option.split)

text \<open>Only the verdict on a cycle sets a company, that of the cycle's resolved mapping.\<close>

lemma operation_state_company:
  assumes "operation_state cycle mapping db = (state, reason, Some facts, payload)"
  shows "\<exists>m. mapping = Some m \<and> dm_company_id m = Some (fa_company_id facts) \<and> dm_state m = ''resolved''"
  using assms unfolding operation_state_def refused_def Let_def
  by (auto split: if_splits option.splits sum.splits py_error.splits)

lemma mapping_snapshot_member:
  assumes "mapping_snapshot c db = Some m"
  shows "m \<in> set (rd_mappings db) \<and> dm_cycle_id m = c \<and> dm_evaluation_key m = ''default''"
proof -
  have f: "fetchone (select_limit 1 (\<lambda>m. - dm_id m)
      (\<lambda>m. dm_cycle_id m = c \<and> dm_evaluation_key m = ''default'') (rd_mappings db)) = Some m"
    using assms by (simp add: mapping_snapshot_def)
  show ?thesis using select_limit_1_min(1)[OF f] select_limit_1_min(2)[OF f] by blast
qed

definition companies_backed :: "identity_db \<Rightarrow> request_db \<Rightarrow> bool" where
  "companies_backed ident db \<longleftrightarrow>
    (\<forall>m \<in> set (rd_mappings db). \<forall>k. dm_company_id m = Some k \<longrightarrow> company_backed ident (dm_cycle_id m) k) \<and>
    (\<forall>(i, c, ko) \<in> set (op_cores db). \<forall>k. ko = Some k \<longrightarrow> company_backed ident c k)"

lemma backed_cores: "cores_same db db' \<Longrightarrow> companies_backed ident db \<Longrightarrow> companies_backed ident db'"
  by (simp add: cores_same_def companies_backed_def)

lemma verdict_backed:
  assumes "companies_backed ident db"
    and "operation_state cycle (mapping_snapshot (cy_id cycle) db) db = (state, reason, Some facts, payload)"
  shows "company_backed ident (cy_id cycle) (fa_company_id facts)"
proof -
  obtain m where m: "mapping_snapshot (cy_id cycle) db = Some m" "dm_company_id m = Some (fa_company_id facts)"
    using operation_state_company[OF assms(2)] by blast
  have mem: "m \<in> set (rd_mappings db)" "dm_cycle_id m = cy_id cycle" using mapping_snapshot_member[OF m(1)] by simp_all
  have "\<forall>m \<in> set (rd_mappings db). \<forall>k. dm_company_id m = Some k \<longrightarrow> company_backed ident (dm_cycle_id m) k"
    using assms(1) unfolding companies_backed_def by (rule conjunct1)
  then show ?thesis using mem m(2) by metis
qed

lemma ensure_backed:
  assumes "companies_backed ident db"
  shows "companies_backed ident (snd (ensure_operation digest now pid db))"
proof (cases "cycle_snapshot pid db")
  case (Some cycle)
  let ?new = "new_operation digest now cycle db"
  obtain state reason facts payload where v: "operation_state cycle (mapping_snapshot (cy_id cycle) db) db =
      (state, reason, facts, payload)" by (metis prod_cases4)
  have core: "op_core ?new = (rd_next_operation_id db, cy_id cycle, map_option fa_company_id facts)"
    by (simp add: op_core_def new_operation_def Let_def v)
  have new: "company_backed ident (cy_id cycle) k" if k: "map_option fa_company_id facts = Some k" for k
  proof -
    obtain f where f: "facts = Some f" "fa_company_id f = k" using k by blast
    show ?thesis using verdict_backed[OF assms v[unfolded f(1)]] f(2) by simp
  qed
  have "snd (ensure_operation digest now pid db) = db \<or>
    rd_mappings (snd (ensure_operation digest now pid db)) = rd_mappings db \<and>
    op_cores (snd (ensure_operation digest now pid db)) = op_cores db @ [op_core ?new]"
    using Some by (simp add: ensure_operation_def Let_def op_cores_def split: option.split)
  then show ?thesis
  proof
    assume e: "rd_mappings (snd (ensure_operation digest now pid db)) = rd_mappings db \<and>
      op_cores (snd (ensure_operation digest now pid db)) = op_cores db @ [op_core ?new]"
    have "\<forall>(i, c, ko) \<in> set (op_cores db @ [op_core ?new]). \<forall>k. ko = Some k \<longrightarrow> company_backed ident c k"
      using assms new unfolding companies_backed_def core by auto
    then show ?thesis using assms e unfolding companies_backed_def by simp
  qed (use assms in simp)
qed (use assms in \<open>simp add: ensure_operation_def\<close>)

lemma reopen_backed:
  assumes b: "companies_backed ident db"
    and own: "\<And>cycle r. cycle_snapshot pid db = Some cycle \<Longrightarrow> r \<in> set (rd_operations db) \<Longrightarrow> op_id r = i \<Longrightarrow>
      op_source_cycle_id r = cy_id cycle"
  shows "companies_backed ident (snd (reopen_prepared_operation digest now i owner pid db))"
proof (cases "cycle_snapshot pid db")
  case (Some cycle)
  obtain state reason facts payload where v: "operation_state cycle (mapping_snapshot (cy_id cycle) db) db =
      (state, reason, facts, payload)" by (metis prod_cases4)
  show ?thesis
  proof (cases "state = Not_Started \<and> facts \<noteq> None \<and> payload \<noteq> None")
    case False
    then have "snd (reopen_prepared_operation digest now i owner pid db) = db"
      using Some v by (auto simp: reopen_prepared_operation_def split: op_state.split option.split)
    then show ?thesis using b by simp
  next
    case True
    then obtain fa pl where fp: "state = Not_Started" "facts = Some fa" "payload = Some pl" by blast
    let ?P = "\<lambda>r. op_id r = i \<and> unattempted_mapping_failure r \<and> op_claim_owner r = Some owner"
    let ?f = "\<lambda>r. r\<lparr>op_company_id := Some (fa_company_id fa),
        op_company_external_id := Some (fa_company_external_id fa),
        op_department_mapping_id := Some (fa_department_mapping_id fa),
        op_department_external_id := Some (fa_department_external_id fa),
        op_payload_fingerprint := Some (digest pl), op_payload_metadata := payload_metadata pl,
        op_state := Not_Started, op_failure_category := None, op_failure_message := None,
        op_preparation_recovery := recovery_json ''prepared'' ''ready'' ''mapping_missing_recovered'',
        op_updated_at := now\<rparr>"
    obtain res db' where u: "update_returning ?P ?f db = (res, db')" by fastforce
    have run: "snd (reopen_prepared_operation digest now i owner pid db) = db'"
      using Some v fp u by (auto simp: reopen_prepared_operation_def split: sum.split option.split)
    have fact: "company_backed ident (cy_id cycle) (fa_company_id fa)"
      by (rule verdict_backed[OF b v[unfolded fp(2)]])
    have old: "company_backed ident (op_source_cycle_id r) k"
      if "r \<in> set (rd_operations db)" "op_company_id r = Some k" for r k
    proof -
      have "op_core r \<in> set (op_cores db)" using that(1) by (simp add: op_cores_def)
      then show ?thesis using b that(2) unfolding companies_backed_def op_core_def by fastforce
    qed
    have "company_backed ident (op_source_cycle_id r') k"
      if r': "r' \<in> set (update_where ?P ?f (rd_operations db))" "op_company_id r' = Some k" for r' k
    proof -
      obtain r where r: "r \<in> set (rd_operations db)" "r' = (if ?P r then ?f r else r)"
        using r'(1) by (rule update_whereE)
      show ?thesis
      proof (cases "?P r")
        case True
        then have "op_source_cycle_id r' = cy_id cycle" "k = fa_company_id fa"
          using own[OF Some r(1)] r(2) r'(2) by simp_all
        then show ?thesis using fact by simp
      next
        case False
        then have "r' = r" using r(2) by (simp only: if_False)
        then show ?thesis using old[OF r(1)] r'(2) by simp
      qed
    qed
    then have "companies_backed ident (db\<lparr>rd_operations := update_where ?P ?f (rd_operations db)\<rparr>)"
      using b by (auto simp: companies_backed_def op_cores_def op_core_def)
    then show ?thesis unfolding run using update_returning_result[OF u] b by auto
  qed
qed (use b in \<open>simp add: reopen_prepared_operation_def\<close>)

section \<open>The joint invariant\<close>

definition pipeline_inv :: "pipeline_db \<Rightarrow> bool" where
  "pipeline_inv p \<longleftrightarrow>
    identity_inv (pl_identity p) \<and> mapping_inv (pl_mapping p) \<and>
    rd_mappings (pl_requests p) = md_snapshots (pl_mapping p) \<and>
    companies_backed (pl_identity p) (pl_requests p)"

text \<open>A reopening is only run on the operation of the cycle it names, as the recovery does.\<close>

fun own_event :: "request_event \<Rightarrow> request_db \<Rightarrow> bool" where
  "own_event (Reopen i owner pid) db \<longleftrightarrow>
    (case cycle_snapshot pid db of None \<Rightarrow> True
     | Some cycle \<Rightarrow> list_all (\<lambda>r. op_id r = i \<longrightarrow> op_source_cycle_id r = cy_id cycle) (rd_operations db))"
| "own_event (World w) db \<longleftrightarrow> rd_mappings w = rd_mappings db"
| "own_event _ db \<longleftrightarrow> True"

datatype pipeline_op =
    Identity_Op identity_op
  | Configure_Op time directory_db string "string option" bool string "string option" "string option"
      "jdict option" time
  | Evaluate_Op string "string option" time
  | Request_Op time request_event
  | Directory_Op directory_db

fun pipeline_step ::
  "(string \<Rightarrow> string) \<Rightarrow> (admin_operation \<Rightarrow> string \<Rightarrow> string option \<Rightarrow> string \<Rightarrow> string) \<Rightarrow>
   (request_payload \<Rightarrow> string) \<Rightarrow> pipeline_op \<Rightarrow> pipeline_db \<Rightarrow> pipeline_db" where
  "pipeline_step sha print digest (Identity_Op x) p = p\<lparr>pl_identity := identity_step sha print x (pl_identity p)\<rparr>"
| "pipeline_step sha print digest (Configure_Op now dir d target active reason actor key metadata t) p =
    with_mapping (mapping_step sha (Configure now dir d target active reason actor key metadata t) (pl_mapping p)) p"
| "pipeline_step sha print digest (Evaluate_Op pid key t) p = snd (evaluate_in pid key t p)"
| "pipeline_step sha print digest (Request_Op now ev) p =
    (if own_event ev (pl_requests p) then p\<lparr>pl_requests := request_step digest now ev (pl_requests p)\<rparr> else p)"
| "pipeline_step sha print digest (Directory_Op dir) p = p\<lparr>pl_directory := dir\<rparr>"

definition empty_pipeline :: pipeline_db where
  "empty_pipeline =
    \<lparr>pl_requests = empty_request_db, pl_identity = empty_identity_db, pl_mapping = empty_mapping_db,
     pl_directory = \<lparr>dir_companies = [], dir_departments = [], dir_company_departments = [], dir_contacts = [],
       dir_digisac_contacts = [], dir_digisac_departments = [], dir_assignments = []\<rparr>\<rparr>"

inductive pipeline_reachable ::
  "(string \<Rightarrow> string) \<Rightarrow> (admin_operation \<Rightarrow> string \<Rightarrow> string option \<Rightarrow> string \<Rightarrow> string) \<Rightarrow>
   (request_payload \<Rightarrow> string) \<Rightarrow> pipeline_db \<Rightarrow> bool"
  for sha print digest where
  pipeline_start: "pipeline_reachable sha print digest empty_pipeline"
| pipeline_next: "pipeline_reachable sha print digest p \<Longrightarrow>
    pipeline_reachable sha print digest (pipeline_step sha print digest op p)"

lemma companies_backed_identity:
  assumes "companies_backed ident db" and "links_kept ident ident'"
    and "\<exists>rs. ib_resolutions ident' = ib_resolutions ident @ rs"
  shows "companies_backed ident' db"
  using assms(1) company_backed_kept[OF _ assms(2,3)] unfolding companies_backed_def by fast

lemma request_event_backed:
  assumes "companies_backed ident db" and "own_event ev db"
  shows "companies_backed ident (request_step digest now ev db)"
    and "rd_mappings (request_step digest now ev db) = rd_mappings db"
proof -
  have keep: "companies_backed ident (request_step digest now ev db) \<and>
      rd_mappings (request_step digest now ev db) = rd_mappings db"
    if "cores_same db (request_step digest now ev db)"
    using backed_cores[OF that assms(1)] that by (simp add: cores_same_def)
  have "companies_backed ident (request_step digest now ev db) \<and>
      rd_mappings (request_step digest now ev db) = rd_mappings db"
  proof (cases ev)
    case (Ensure pid)
    have "rd_mappings (snd (ensure_operation digest now pid db)) = rd_mappings db"
      by (simp add: ensure_operation_def Let_def split: option.split)
    then show ?thesis using ensure_backed[OF assms(1)] Ensure by simp
  next
    case (Reopen i owner pid)
    have own: "op_source_cycle_id r = cy_id cycle"
      if "cycle_snapshot pid db = Some cycle" "r \<in> set (rd_operations db)" "op_id r = i" for cycle r
      using assms(2) that Reopen by (simp add: list_all_iff)
    have "rd_mappings (snd (reopen_prepared_operation digest now i owner pid db)) = rd_mappings db"
      unfolding reopen_prepared_operation_def
      by (auto simp: update_returning_def write_operations_def
          split: option.split prod.split op_state.split sum.split)
    then show ?thesis using reopen_backed[OF assms(1) own] Reopen by simp
  next
    case (World w)
    then show ?thesis using assms by (simp add: companies_backed_def op_cores_def)
  qed (use keep cores in simp_all)
  then show "companies_backed ident (request_step digest now ev db)"
    "rd_mappings (request_step digest now ev db) = rd_mappings db" by simp_all
qed

lemma evaluate_in_inv:
  assumes inv: "pipeline_inv p"
  shows "pipeline_inv (snd (evaluate_in pid key t p))"
proof -
  obtain res mdb where run: "evaluate_department_mapping (pl_directory p) (pl_identity p)
      (rd_cycles (pl_requests p)) pid key t (pl_mapping p) = (res, mdb)" by fastforce
  have ident: "identity_inv (pl_identity p)" and b: "companies_backed (pl_identity p) (pl_requests p)"
    and sync: "rd_mappings (pl_requests p) = md_snapshots (pl_mapping p)"
    using inv by (simp_all add: pipeline_inv_def)
  have m: "mapping_inv mdb"
    using mapping_step_inv[of "pl_mapping p" "\<lambda>s. s" "Evaluate (pl_directory p) (pl_identity p)
      (rd_cycles (pl_requests p)) pid key t"] inv by (simp add: pipeline_inv_def run)
  have "company_backed (pl_identity p) (dm_cycle_id x) k"
    if "x \<in> set (md_snapshots mdb)" "dm_company_id x = Some k" for x k
  proof (cases "x \<in> set (md_snapshots (pl_mapping p))")
    case True
    then have "x \<in> set (rd_mappings (pl_requests p))" by (simp only: sync)
    then show ?thesis using b that(2) unfolding companies_backed_def by fast
  next
    case False
    show ?thesis by (rule new_snapshot_backed[OF ident run that(1) False that(2)])
  qed
  then have "companies_backed (pl_identity p) ((pl_requests p)\<lparr>rd_mappings := md_snapshots mdb\<rparr>)"
    using b by (auto simp: companies_backed_def op_cores_def)
  then show ?thesis
    using ident m by (simp add: evaluate_in_def run pipeline_inv_def with_mapping_def)
qed

lemma configure_snapshots:
  assumes "mapping_inv db"
  shows "md_snapshots (mapping_step sha (Configure now dir d target active reason actor key metadata t) db) =
    md_snapshots db"
proof (cases rule: configure_cases[of sha now dir d target active reason actor key metadata t db])
  case (3 dd tg rr a k m row db')
  have r: "rules_inv db" "log_inv db" using assms by (simp_all add: mapping_inv_def)
  obtain target_id where "configured dd (coalesce k (derived_operation sha active dd tg rr)) active rr target_id db row db'"
    by (rule configure_new_configured[OF 3(4) r])
  then show ?thesis using 3(2) by (simp add: configured_def rules_grow_def)
qed simp_all

lemma pipeline_step_inv:
  assumes inv: "pipeline_inv p"
  shows "pipeline_inv (pipeline_step sha print digest op p)"
proof (cases op)
  case (Identity_Op x)
  have i: "identity_inv (pl_identity p)" and b: "companies_backed (pl_identity p) (pl_requests p)"
    using inv by (simp_all add: pipeline_inv_def)
  have "companies_backed (identity_step sha print x (pl_identity p)) (pl_requests p)"
    by (rule companies_backed_identity[OF b identity_step_links[OF i] resolutions.step_appends[OF i]])
  then show ?thesis using inv Identity_Op by (simp add: pipeline_inv_def identity_step_inv)
next
  case (Configure_Op now dir d target active reason actor key metadata t)
  let ?mdb = "mapping_step sha (Configure now dir d target active reason actor key metadata t) (pl_mapping p)"
  have m: "mapping_inv (pl_mapping p)" using inv by (simp add: pipeline_inv_def)
  have mi: "mapping_inv ?mdb" by (rule mapping_step_inv[OF m])
  have s: "md_snapshots ?mdb = md_snapshots (pl_mapping p)" by (rule configure_snapshots[OF m])
  have "pipeline_inv (with_mapping mdb p)"
    if "mapping_inv mdb" "md_snapshots mdb = md_snapshots (pl_mapping p)" for mdb
    using that inv by (simp add: pipeline_inv_def with_mapping_def companies_backed_def op_cores_def)
  from this[OF mi s] show ?thesis unfolding Configure_Op pipeline_step.simps .
next
  case (Evaluate_Op pid key t)
  then show ?thesis using evaluate_in_inv[OF inv] by simp
next
  case (Request_Op now ev)
  then show ?thesis
    using inv request_event_backed[of "pl_identity p" "pl_requests p" ev digest now]
    by (simp add: pipeline_inv_def)
next
  case (Directory_Op dir)
  then show ?thesis using inv by (simp add: pipeline_inv_def)
qed

lemma empty_pipeline_inv: "pipeline_inv empty_pipeline"
  using identity_empty_inv mapping_empty_inv
  by (simp add: pipeline_inv_def empty_pipeline_def empty_mapping_db_def empty_request_db_def
      companies_backed_def op_cores_def)

lemma pipeline_reachable_invariant:
  assumes "pipeline_reachable sha print digest p"
  shows "pipeline_inv p"
  using assms by induction (simp_all add: empty_pipeline_inv pipeline_step_inv)


section \<open>What a ready preparation rests on\<close>

lemma prepared_steps:
  assumes "prepare_cycle_for_request sha now pid p = (Inr pr, p')" and "pr_ready pr"
  obtains cycle e c x m p1 where "lookup_by cy_public_id pid (rd_cycles (pl_requests p)) = Some cycle"
    "cy_status cycle \<in> set [Cycle_Completed, Completed_With_Warnings]"
    "cy_contact_external_id cycle = Some e"
    "lookup_by dc_external_id e (dir_digisac_contacts (pl_directory p)) = Some c"
    "resolve_in sha (now 10) (now 11) pid (dc_id c) p = (Inr x, p1)" "cr_contact_id x = dc_id c"
    "cr_state x = Res_Confirmed" "evaluate_in pid None (now 12) p1 = (Inr m, p')" "dm_state m = ''resolved''"
    "pr_identity pr = Some x" "pr_mapping pr = Some m"
  using assms that unfolding prepare_cycle_for_request_def prepare_mapping_def load_cycle_contact_def not_ready_def
  by (auto split: option.splits if_splits sum.splits prod.splits)

lemma resolve_in_step:
  assumes "resolve_in sha n1 n2 pid contact p = (res, p1)"
  shows "p1 = pipeline_step sha print digest (Identity_Op
      (Resolve_Cycle n1 (pl_directory p) (rd_cycles (pl_requests p)) pid contact DEFAULT_RULE_VERSION n2)) p"
  using assms by (auto simp: resolve_in_def split: prod.splits)

lemma resolve_in_tables:
  assumes "resolve_in sha n1 n2 pid contact p = (res, p1)"
  shows "pl_requests p1 = pl_requests p" "pl_directory p1 = pl_directory p" "pl_mapping p1 = pl_mapping p"
  using assms by (auto simp: resolve_in_def split: prod.splits)

lemma resolve_in_row:
  assumes "resolve_in sha n1 n2 pid contact p = (Inr x, p1)" and "pipeline_inv p"
    and "lookup_by cy_public_id pid (rd_cycles (pl_requests p)) = Some cycle"
  shows "lookup_by cr_cycle_id (cy_id cycle) (ib_resolutions (pl_identity p1)) = Some x"
proof -
  have run: "resolve_cycle_identity sha n1 (pl_directory p) (rd_cycles (pl_requests p)) pid contact
      DEFAULT_RULE_VERSION n2 (pl_identity p) = (Inr x, pl_identity p1)"
    using assms(1) by (auto simp: resolve_in_def split: prod.splits)
  obtain r c where rc: "lookup_by cy_public_id pid (rd_cycles (pl_requests p)) = Some c"
    "resolve_cycle_tx sha n1 (pl_directory p) c contact r n2 (pl_identity p) = Inr (x, pl_identity p1)"
    by (rule resolve_identity_cases[OF run])
  have "links_inv (pl_identity p)" using assms(2) by (simp add: pipeline_inv_def identity_inv_def)
  from resolution_stored[OF rc(2) this] show ?thesis using rc(1) assms(3) by simp
qed

text \<open>The snapshot an evaluation answers is stored, belongs to the cycle and satisfies the table's checks.\<close>

lemma evaluate_in_row:
  assumes "evaluate_in pid key t p = (Inr m, p')" and "pipeline_inv p"
    and "lookup_by cy_public_id (py_strip pid) (rd_cycles (pl_requests p)) = Some cycle"
  shows "m \<in> set (rd_mappings (pl_requests p'))" "dm_cycle_id m = cy_id cycle" "snapshot_check m"
    "pl_identity p' = pl_identity p"
proof -
  have run: "evaluate_department_mapping (pl_directory p) (pl_identity p) (rd_cycles (pl_requests p)) pid key t
      (pl_mapping p) = (Inr m, pl_mapping p')"
    and tab: "rd_mappings (pl_requests p') = md_snapshots (pl_mapping p')"
    and ident: "pl_identity p' = pl_identity p"
    using assms(1) by (auto simp: evaluate_in_def with_mapping_def split: prod.splits)
  have inv: "snapshots_inv (pl_mapping p)" using assms(2) by (simp add: pipeline_inv_def mapping_inv_def)
  have "m \<in> set (md_snapshots (pl_mapping p')) \<and> dm_cycle_id m = cy_id cycle \<and> snapshot_check m"
  proof (cases rule: evaluate_cases[of "pl_directory p" "pl_identity p" "rd_cycles (pl_requests p)" pid key t
        "pl_mapping p"])
    case (2 q k c m')
    have same: "m' = m" "pl_mapping p' = pl_mapping p" using run 2(5) by auto
    have q: "q = py_strip pid" using 2(1) by (simp add: external_id_def Let_def split: if_splits)
    have "m \<in> set (md_snapshots (pl_mapping p)) \<and> dm_cycle_id m = cy_id c"
      using 2(4) first_snapshot_iff[OF inv] unfolding same(1) existing_snapshot_def find_snapshot_lookup
      by (auto split: option.splits if_splits dest: lookup_by_Some simp: find_snapshot_lookup)
    then show ?thesis using 2(3) assms(3) q same(2) inv by (simp add: snapshots_inv_def list_all_iff)
  next
    case (3 q k c m')
    have same: "m' = m" "md_snapshots (pl_mapping p') = md_snapshots (pl_mapping p) @ [m]"
      using run 3(7) by (auto dest!: arg_cong[where f = md_snapshots])
    have q: "q = py_strip pid" using 3(1) by (simp add: external_id_def Let_def split: if_splits)
    have "c = cycle" using 3(3) assms(3) q by simp
    then show ?thesis using same 3(5,6) by (auto simp: decide_mapping_keys)
  qed (use run in simp)
  then show "m \<in> set (rd_mappings (pl_requests p'))" "dm_cycle_id m = cy_id cycle" "snapshot_check m"
    "pl_identity p' = pl_identity p" using tab ident by simp_all
qed

text \<open>C15: A preparation that answers ready rests on the whole chain: the cycle is finished, its contact is
  known, the recorded identity of the cycle is a confirmed link of that contact, and the mapping
  snapshot is stored for this cycle, resolved, and names the company of that link.\<close>
theorem prepared_request_grounded:
  assumes "pipeline_reachable sha print digest p"
    and "prepare_cycle_for_request sha now pid p = (Inr pr, p')" and "pr_ready pr" and "py_strip pid = pid"
  shows "\<exists>cycle c x l m.
    lookup_by cy_public_id pid (rd_cycles (pl_requests p)) = Some cycle \<and>
    (cy_status cycle = Cycle_Completed \<or> cy_status cycle = Completed_With_Warnings) \<and>
    cy_contact_external_id cycle = Some (dc_external_id c) \<and> c \<in> set (dir_digisac_contacts (pl_directory p)) \<and>
    pr_identity pr = Some x \<and> x \<in> set (ib_resolutions (pl_identity p')) \<and> cr_cycle_id x = cy_id cycle \<and>
    cr_state x = Res_Confirmed \<and> cr_contact_id x = dc_id c \<and>
    l \<in> set (ib_links (pl_identity p')) \<and> cr_link_id x = Some (il_id l) \<and> il_contact_id l = dc_id c \<and>
    pr_mapping pr = Some m \<and> m \<in> set (rd_mappings (pl_requests p')) \<and> dm_cycle_id m = cy_id cycle \<and>
    dm_state m = ''resolved'' \<and> dm_company_id m = Some (il_company_id l) \<and>
    dm_department_external_id m \<noteq> None"
proof -
  obtain cycle e c x m p1 where s: "lookup_by cy_public_id pid (rd_cycles (pl_requests p)) = Some cycle"
    "cy_status cycle \<in> set [Cycle_Completed, Completed_With_Warnings]"
    "cy_contact_external_id cycle = Some e"
    "lookup_by dc_external_id e (dir_digisac_contacts (pl_directory p)) = Some c"
    "resolve_in sha (now 10) (now 11) pid (dc_id c) p = (Inr x, p1)" "cr_contact_id x = dc_id c"
    "cr_state x = Res_Confirmed" "evaluate_in pid None (now 12) p1 = (Inr m, p')" "dm_state m = ''resolved''"
    "pr_identity pr = Some x" "pr_mapping pr = Some m"
    by (rule prepared_steps[OF assms(2,3)])
  have inv: "pipeline_inv p" by (rule pipeline_reachable_invariant[OF assms(1)])
  have inv1: "pipeline_inv p1"
    unfolding resolve_in_step[OF s(5), of print digest] by (rule pipeline_step_inv[OF inv])
  have inv': "pipeline_inv p'" using evaluate_in_inv[OF inv1, of pid None "now 12"] s(8) by simp
  have cyc: "lookup_by cy_public_id (py_strip pid) (rd_cycles (pl_requests p1)) = Some cycle"
    using s(1) assms(4) by (simp add: resolve_in_tables[OF s(5)])
  note ev = evaluate_in_row[OF s(8) inv1 cyc]
  have row: "lookup_by cr_cycle_id (cy_id cycle) (ib_resolutions (pl_identity p')) = Some x"
    using resolve_in_row[OF s(5) inv s(1)] ev(4) by simp
  have x: "x \<in> set (ib_resolutions (pl_identity p'))" "cr_cycle_id x = cy_id cycle"
    using lookup_by_Some[OF row] by simp_all
  obtain k where k: "dm_company_id m = Some k" and d: "dm_department_external_id m \<noteq> None"
    using ev(3) s(9) by (auto simp: snapshot_check_def)
  have "company_backed (pl_identity p') (dm_cycle_id m) k"
    using inv' ev(1) k unfolding pipeline_inv_def companies_backed_def by blast
  then obtain y l where y: "y \<in> set (ib_resolutions (pl_identity p'))" "cr_cycle_id y = cy_id cycle"
    "cr_link_id y = Some (il_id l)" "il_contact_id l = cr_contact_id y" "il_company_id l = k"
    "l \<in> set (ib_links (pl_identity p'))"
    unfolding company_backed_def ev(2) by blast
  have "distinct (map cr_cycle_id (ib_resolutions (pl_identity p')))"
    using inv' by (simp add: pipeline_inv_def identity_inv_def)
  then have "y = x" using distinct_key_eq[of cr_cycle_id _ y x] x y(1,2) by simp
  then show ?thesis using s ev x y k d lookup_by_Some[OF s(4)] by auto
qed

definition pipeline_world :: request_db where
  "pipeline_world = empty_request_db
     \<lparr>rd_cycles := [(new_cycle 1 ''u1'' ''conv'' 1 ''webhook'' 5)
         \<lparr>cy_status := Cycle_Completed, cy_classification_id := Some 7, cy_protocol := Some ''99'',
          cy_contact_external_id := Some ''c1'', cy_cycle_started_at := Some 5, cy_ticket_closed_at := Some 50\<rparr>],
      rd_classifications := [\<lparr>cl_id = 7, cl_confidence = JFloat (9/10), cl_title = Some ''Guia'',
        cl_description = Some ''Cliente pediu guia.''\<rparr>],
      rd_companies := dir_companies mapping_directory, rd_departments := dir_departments mapping_directory,
      rd_company_departments := dir_company_departments mapping_directory\<rparr>"

definition demo_before :: pipeline_db where
  "demo_before =
    pipeline_step demo_sha demo_print demo_digest (Request_Op 40 (World pipeline_world))
     (pipeline_step demo_sha demo_print demo_digest (Directory_Op mapping_directory)
      (pipeline_step demo_sha demo_print demo_digest
        (Configure_Op 30 mapping_directory ''A'' (Some ''12'') True ''setup'' None None None 30)
       (pipeline_step demo_sha demo_print demo_digest (Identity_Op (Confirm 20 demo_directory 1 7 (Some 20) None))
        (pipeline_step demo_sha demo_print demo_digest (Identity_Op (Discover 10 demo_directory 1 ''r1'' 10))
          empty_pipeline))))"

lemma demo_before_reachable: "pipeline_reachable demo_sha demo_print demo_digest demo_before"
  unfolding demo_before_def by (intro pipeline_next pipeline_start)

definition demo_preparation :: "(py_error + preparation) \<times> pipeline_db" where
  "demo_preparation = prepare_cycle_for_request demo_sha (\<lambda>_. 60) ''u1'' demo_before"

definition demo_prepared :: preparation where
  "demo_prepared = (case fst demo_preparation of Inr pr \<Rightarrow> pr | Inl _ \<Rightarrow> not_ready [] [] None None)"

lemma demo_preparation_run:
  "prepare_cycle_for_request demo_sha (\<lambda>_. 60) ''u1'' demo_before = (Inr demo_prepared, snd demo_preparation)"
  "pr_ready demo_prepared" "map_option dm_company_id (pr_mapping demo_prepared) = Some (Some 7)"
proof -
  show ready: "pr_ready demo_prepared" by code_simp
  show "map_option dm_company_id (pr_mapping demo_prepared) = Some (Some 7)" by code_simp
  obtain pr where "fst demo_preparation = Inr pr"
    using ready by (cases "fst demo_preparation") (simp_all add: demo_prepared_def not_ready_def)
  then have "fst demo_preparation = Inr demo_prepared" by (simp add: demo_prepared_def)
  then show "prepare_cycle_for_request demo_sha (\<lambda>_. 60) ''u1'' demo_before = (Inr demo_prepared, snd demo_preparation)"
    unfolding demo_preparation_def by (metis prod.collapse)
qed

theorem prepared_request_grounded_witness:
  "\<exists>l. l \<in> set (ib_links (pl_identity (snd demo_preparation))) \<and> il_contact_id l = 1 \<and> il_company_id l = 7"
proof -
  have strip: "py_strip ''u1'' = ''u1''" by code_simp
  have c: "map dc_id (dir_digisac_contacts (pl_directory demo_before)) = [1]" by code_simp
  show ?thesis
    using prepared_request_grounded[OF demo_before_reachable demo_preparation_run(1,2) strip]
      demo_preparation_run(3) c by auto
qed

definition demo_requested :: pipeline_db where
  "demo_requested = pipeline_step demo_sha demo_print demo_digest (Request_Op 70 (Ensure ''u1''))
    (pipeline_step demo_sha demo_print demo_digest (Evaluate_Op ''u1'' None 60)
     (pipeline_step demo_sha demo_print demo_digest (Identity_Op
       (Resolve_Cycle 50 mapping_directory (rd_cycles pipeline_world) ''u1'' 1 DEFAULT_RULE_VERSION 50)) demo_before))"


end
