(* ===== verification/Digisac_Client.thy ===== *)
theory Digisac_Client
  imports Finalization
begin

text \<open>
  The client of the DigiSac service (\<open>src/core/digisac_client.py\<close>): requests with bounded retries, the
  conversion of a contact, the pages of the contact directory and the paginated history of a ticket.
  The HTTP session, the sleep and the random jitter are the fields of \<open>digisac_session\<close>, functions on a
  world \<open>'w\<close>; the session adds the base address, the credentials and the timeout.
\<close>

section \<open>Requests\<close>

text \<open>A reply holds its status, the seconds its Retry-After header asks for, when it has a readable one, and
  its decoded body, when that is JSON.\<close>

datatype digisac_reply =
    Http_Timeout
  | Http_Connection_Error
  | Http_Other_Error
  | Http_Reply int "rat option" "jvalue option"

record 'w digisac_session =
  ds_get :: "string \<Rightarrow> (string \<times> string) list \<Rightarrow> 'w \<Rightarrow> digisac_reply \<times> 'w"
  ds_sleep :: "rat \<Rightarrow> 'w \<Rightarrow> 'w"
  ds_uniform :: "rat \<Rightarrow> 'w \<Rightarrow> rat \<times> 'w"
  ds_max_attempts :: int
  ds_retry_base :: rat

definition TRANSIENT_HTTP_STATUSES :: "int list" where
  "TRANSIENT_HTTP_STATUSES = [408, 425, 429, 500, 502, 503, 504]"

definition response_error :: "string \<Rightarrow> py_error" where
  "response_error = DigisacClientError ''invalid_response''"

text \<open>The credentials are checked when the client is made.\<close>

definition new_digisac_client :: "string \<Rightarrow> 'w digisac_session \<Rightarrow> py_error + 'w digisac_session" where
  "new_digisac_client api_key session =
    (if api_key = []
     then Inl (DigisacClientError ''credentials_missing'' ''DigiSac credentials are not configured'')
     else Inr session)"

definition digisac_retry_delay ::
  "'w digisac_session \<Rightarrow> int \<Rightarrow> rat option \<Rightarrow> 'w \<Rightarrow> rat \<times> 'w" where
  "digisac_retry_delay s attempt retry_after w =
    (case retry_after of
       Some r \<Rightarrow> (max 0 (min r 60), w)
     | None \<Rightarrow>
        (let base = ds_retry_base s * 2 ^ nat (max 0 (attempt - 1))
         in case ds_uniform s (min (base * (1/4)) 1) w of (j, w') \<Rightarrow> (base + j, w')))"

definition digisac_pause :: "'w digisac_session \<Rightarrow> int \<Rightarrow> rat option \<Rightarrow> 'w \<Rightarrow> 'w" where
  "digisac_pause s attempt retry_after w =
    (case digisac_retry_delay s attempt retry_after w of (d, w') \<Rightarrow> ds_sleep s d w')"

text \<open>What a reply that is not transient gives.\<close>

definition read_body :: "int \<Rightarrow> jvalue option \<Rightarrow> py_error + jdict" where
  "read_body status body =
    (if 400 \<le> status \<and> status < 600
     then Inl (DigisacClientError (if status \<in> set [401, 403] then ''authentication'' else ''permanent'')
       (''DigiSac permanent HTTP '' @ int_text status))
     else case body of
       None \<Rightarrow> Inl (response_error ''DigiSac response is not valid JSON'')
     | Some (JObj d) \<Rightarrow> Inr d
     | Some _ \<Rightarrow> Inl (response_error ''DigiSac response must be a JSON object''))"

text \<open>The loop over the attempts; \<open>n\<close> of them are left.\<close>

fun get_json_loop ::
  "'w digisac_session \<Rightarrow> string \<Rightarrow> (string \<times> string) list \<Rightarrow> nat \<Rightarrow> int \<Rightarrow> 'w \<Rightarrow> (py_error + jdict) \<times> 'w" where
  "get_json_loop s path params 0 attempt w =
    (Inl (DigisacClientError ''provider'' ''DigiSac request attempts exhausted''), w)"
| "get_json_loop s path params (Suc n) attempt w =
    (case ds_get s path params w of
       (Http_Timeout, w') \<Rightarrow>
        (if ds_max_attempts s \<le> attempt
         then (Inl (DigisacClientError ''timeout''
           (''DigiSac request failed after '' @ int_text attempt @ '' attempts: Timeout'')), w')
         else get_json_loop s path params n (attempt + 1) (digisac_pause s attempt None w'))
     | (Http_Connection_Error, w') \<Rightarrow>
        (if ds_max_attempts s \<le> attempt
         then (Inl (DigisacClientError ''connection''
           (''DigiSac request failed after '' @ int_text attempt @ '' attempts: ConnectionError'')), w')
         else get_json_loop s path params n (attempt + 1) (digisac_pause s attempt None w'))
     | (Http_Other_Error, w') \<Rightarrow> (Inl (RuntimeError ''request exception''), w')
     | (Http_Reply status retry_after body, w') \<Rightarrow>
        (if status \<in> set TRANSIENT_HTTP_STATUSES
         then (if ds_max_attempts s \<le> attempt
           then (Inl (DigisacClientError ''transient''
             (''DigiSac HTTP '' @ int_text status @ '' after '' @ int_text attempt @ '' attempts'')), w')
           else get_json_loop s path params n (attempt + 1) (digisac_pause s attempt retry_after w'))
         else (read_body status body, w')))"

definition get_json ::
  "'w digisac_session \<Rightarrow> string \<Rightarrow> (string \<times> string) list \<Rightarrow> 'w \<Rightarrow> (py_error + jdict) \<times> 'w" where
  "get_json s path params w = get_json_loop s path params (nat (ds_max_attempts s)) 1 w"

section \<open>Contacts\<close>

record digisac_contact_data =
  pc_external_id :: string
  pc_name :: "string option"
  pc_alternative_name :: "string option"
  pc_internal_name :: "string option"
  pc_raw_number :: "string option"
  pc_normalized_number :: "string option"
  pc_raw_email :: "string option"
  pc_normalized_email :: "string option"
  pc_is_group :: "bool option"
  pc_account_id :: "string option"
  pc_service_id :: "string option"
  pc_provider_created_at :: "time option"
  pc_provider_updated_at :: "time option"
  pc_provider_deleted_at :: "time option"

definition optional_contact_string :: "(jvalue \<Rightarrow> string) \<Rightarrow> jvalue \<Rightarrow> string option" where
  "optional_contact_string repr value =
    (if value = JNull then None
     else let normalized = py_str repr value
          in if py_strip normalized = [] then None else Some normalized)"

definition normalize_contact_number :: "(jvalue \<Rightarrow> string) \<Rightarrow> jvalue \<Rightarrow> string option \<times> string option" where
  "normalize_contact_number repr value =
    (case optional_contact_string repr value of
       None \<Rightarrow> (None, None)
     | Some raw \<Rightarrow>
        (let digits = filter (\<lambda>c. c \<in> set ascii_digits) raw
         in (Some raw, if digits = [] then None else Some digits)))"

definition normalize_contact_email :: "(jvalue \<Rightarrow> string) \<Rightarrow> jvalue \<Rightarrow> string option \<times> string option" where
  "normalize_contact_email repr value =
    (if value = JNull then (None, None)
     else let raw = py_str repr value
          in if py_strip raw = [] then (None, None) else (Some raw, Some (py_casefold (py_strip raw))))"

definition sub_dict :: "jvalue \<Rightarrow> jdict" where
  "sub_dict v = (case v of JObj d \<Rightarrow> d | _ \<Rightarrow> [])"

definition first_given :: "jvalue \<Rightarrow> jvalue \<Rightarrow> jvalue" where
  "first_given a b = (if a = JNull then b else a)"

definition normalize_contact ::
  "iso_parser \<Rightarrow> (jvalue \<Rightarrow> string) \<Rightarrow> jvalue \<Rightarrow> py_error + digisac_contact_data" where
  "normalize_contact fromiso repr value =
    (case value of
       JObj payload \<Rightarrow>
        (let data = sub_dict (dict_get payload ''data'');
             number = normalize_contact_number repr
               (first_given (dict_get payload ''number'') (dict_get data ''number''));
             email = normalize_contact_email repr
               (first_given (dict_get payload ''email'') (dict_get data ''email''))
         in case optional_contact_string repr (dict_get payload ''id'') of
              None \<Rightarrow> Inl (response_error ''DigiSac contact response has no contact id'')
            | Some external_id \<Rightarrow> Inr
               \<lparr>pc_external_id = external_id,
                pc_name = optional_contact_string repr (dict_get payload ''name''),
                pc_alternative_name = optional_contact_string repr (dict_get payload ''alternativeName''),
                pc_internal_name = optional_contact_string repr (dict_get payload ''internalName''),
                pc_raw_number = fst number, pc_normalized_number = snd number,
                pc_raw_email = fst email, pc_normalized_email = snd email,
                pc_is_group = bool_or_none (dict_get payload ''isGroup''),
                pc_account_id = optional_contact_string repr (dict_get payload ''accountId''),
                pc_service_id = optional_contact_string repr (dict_get payload ''serviceId''),
                pc_provider_created_at = parse_timestamp fromiso (dict_get payload ''createdAt''),
                pc_provider_updated_at = parse_timestamp fromiso (dict_get payload ''updatedAt''),
                pc_provider_deleted_at = parse_timestamp fromiso (dict_get payload ''deletedAt'')\<rparr>)
     | _ \<Rightarrow> Inl (response_error ''DigiSac contact response is not an object''))"

text \<open>\<open>urllib.parse.quote(text, safe='')\<close>.\<close>

definition hex_upper :: "nat \<Rightarrow> char" where
  "hex_upper n = ''0123456789ABCDEF'' ! n"

definition percent :: "nat \<Rightarrow> string" where
  "percent byte = [CHR ''%'', hex_upper (byte div 16), hex_upper (byte mod 16)]"

definition quote_char :: "char \<Rightarrow> string" where
  "quote_char c =
    (let n = of_char c :: nat
     in if c \<in> set (ascii_lower_letters @ ascii_upper_letters @ ascii_digits @ ''_.-~'') then [c]
        else if n < 128 then percent n
        else percent (192 + n div 64) @ percent (128 + n mod 64))"

definition quote_text :: "string \<Rightarrow> string" where
  "quote_text s = concat (map quote_char s)"

definition get_ticket :: "'w digisac_session \<Rightarrow> string \<Rightarrow> 'w \<Rightarrow> (py_error + jdict) \<times> 'w" where
  "get_ticket s conversation_id w = get_json s (''tickets/'' @ conversation_id) [] w"

definition contact_of_payload ::
  "iso_parser \<Rightarrow> (jvalue \<Rightarrow> string) \<Rightarrow> string \<Rightarrow> jdict \<Rightarrow> py_error + digisac_contact_data" where
  "contact_of_payload fromiso repr normalized_id payload =
    (let nested = dict_get payload ''data'';
         candidate = (if optional_contact_string repr (dict_get payload ''id'') = None \<and>
             (case nested of JObj _ \<Rightarrow> True | _ \<Rightarrow> False)
           then nested else JObj payload)
     in on_value (normalize_contact fromiso repr candidate) (\<lambda>contact.
          if pc_external_id contact \<noteq> normalized_id
          then Inl (response_error ''DigiSac contact response id mismatch'') else Inr contact))"

definition get_contact ::
  "iso_parser \<Rightarrow> (jvalue \<Rightarrow> string) \<Rightarrow> 'w digisac_session \<Rightarrow> string \<Rightarrow> 'w \<Rightarrow>
   (py_error + digisac_contact_data) \<times> 'w" where
  "get_contact fromiso repr s contact_id w =
    (let normalized_id = py_strip contact_id
     in if normalized_id = [] then (Inl (response_error ''DigiSac contact id is blank''), w)
        else case get_json s (''contacts/'' @ quote_text normalized_id) [] w of
          (Inl e, w') \<Rightarrow> (Inl e, w')
        | (Inr payload, w') \<Rightarrow> (contact_of_payload fromiso repr normalized_id payload, w'))"

section \<open>A page of the contact directory\<close>

record contact_page =
  cp_contacts :: "digisac_contact_data list"
  cp_total :: int
  cp_limit :: int
  cp_current_page :: int
  cp_last_page :: int

definition strict_int :: "jvalue \<Rightarrow> int option" where
  "strict_int v = (case v of JInt n \<Rightarrow> Some n | _ \<Rightarrow> None)"

fun normalize_contacts ::
  "iso_parser \<Rightarrow> (jvalue \<Rightarrow> string) \<Rightarrow> jvalue list \<Rightarrow> py_error + digisac_contact_data list" where
  "normalize_contacts fromiso repr [] = Inr []"
| "normalize_contacts fromiso repr (v # vs) =
    on_value (normalize_contact fromiso repr v) (\<lambda>c.
      on_value (normalize_contacts fromiso repr vs) (\<lambda>cs. Inr (c # cs)))"

definition page_error :: py_error where
  "page_error = response_error ''DigiSac contacts pagination has an invalid structure''"

definition page_bad :: "int \<Rightarrow> jvalue list \<Rightarrow> int \<Rightarrow> int \<Rightarrow> int \<Rightarrow> int \<Rightarrow> bool" where
  "page_bad page data all_count limit current_page last_page \<longleftrightarrow>
    all_count < 0 \<or> limit \<le> 0 \<or> current_page \<le> 0 \<or> last_page \<le> 0 \<or> current_page \<noteq> page \<or>
    last_page < current_page \<or> limit < int (length data) \<or>
    last_page \<noteq> max 1 ((all_count + limit - 1) div limit) \<or> (all_count = 0 \<and> data \<noteq> []) \<or> (0 < all_count \<and> data = [])"

definition contacts_page_of ::
  "iso_parser \<Rightarrow> (jvalue \<Rightarrow> string) \<Rightarrow> int \<Rightarrow> jdict \<Rightarrow> py_error + contact_page" where
  "contacts_page_of fromiso repr page payload =
    (case (strict_int (dict_get payload ''total''), strict_int (dict_get payload ''limit''),
           strict_int (dict_get payload ''currentPage''), strict_int (dict_get payload ''lastPage'')) of
       (Some all_count, Some limit, Some current_page, Some last_page) \<Rightarrow>
        (case dict_get payload ''data'' of
           JList data \<Rightarrow>
            (if page_bad page data all_count limit current_page last_page then Inl page_error
             else on_value (normalize_contacts fromiso repr data) (\<lambda>contacts.
               Inr \<lparr>cp_contacts = contacts, cp_total = all_count, cp_limit = limit,
                 cp_current_page = current_page, cp_last_page = last_page\<rparr>))
         | _ \<Rightarrow> Inl page_error)
     | _ \<Rightarrow> Inl page_error)"

definition get_contacts_page ::
  "iso_parser \<Rightarrow> (jvalue \<Rightarrow> string) \<Rightarrow> 'w digisac_session \<Rightarrow> int \<Rightarrow> int \<Rightarrow> 'w \<Rightarrow> (py_error + contact_page) \<times> 'w" where
  "get_contacts_page fromiso repr s page per_page w =
    (if page \<le> 0 \<or> per_page \<le> 0 then (Inl (ValueError ''Contacts pagination values must be positive''), w)
     else case get_json s ''contacts'' [(''perPage'', int_text per_page), (''page'', int_text page)] w of
       (Inl e, w') \<Rightarrow> (Inl e, w')
     | (Inr payload, w') \<Rightarrow> (contacts_page_of fromiso repr page payload, w'))"

section \<open>The history of a ticket\<close>

record digisac_history =
  dh_ticket :: jdict
  dh_messages :: "jdict list"
  dh_page_count :: nat
  dh_total :: int
  dh_duplicate_count :: nat
  dh_complete :: bool
  dh_reasons :: "string list"

record history_state =
  hs_page :: int
  hs_last_page :: int
  hs_total :: int
  hs_page_count :: nat
  hs_duplicates :: nat
  hs_by_id :: "(string \<times> jdict) list"
  hs_reasons :: "string list"

definition start_history :: history_state where
  "start_history = \<lparr>hs_page = 1, hs_last_page = 1, hs_total = 0, hs_page_count = 0, hs_duplicates = 0,
     hs_by_id = [], hs_reasons = []\<rparr>"

text \<open>\<open>isinstance(v, int)\<close> accepts a Boolean.\<close>

definition loose_int :: "jvalue \<Rightarrow> int option" where
  "loose_int v = (case v of JInt n \<Rightarrow> Some n | JBool b \<Rightarrow> Some (if b then 1 else 0) | _ \<Rightarrow> None)"

definition add_history_message :: "jvalue \<Rightarrow> history_state \<Rightarrow> history_state" where
  "add_history_message raw h =
    (case raw of
       JObj message \<Rightarrow>
        (case dict_get message ''id'' of
           JStr i \<Rightarrow>
            (if py_strip i = [] then h\<lparr>hs_reasons := hs_reasons h @ [''message_without_id'']\<rparr>
             else h\<lparr>hs_duplicates := hs_duplicates h + (if dict_has (hs_by_id h) i then 1 else 0),
                    hs_by_id := dict_set (hs_by_id h) i message\<rparr>)
         | _ \<Rightarrow> h\<lparr>hs_reasons := hs_reasons h @ [''message_without_id'']\<rparr>)
     | _ \<Rightarrow> h\<lparr>hs_reasons := hs_reasons h @ [''non_object_message'']\<rparr>)"

definition message_page_bad :: "int \<Rightarrow> int \<Rightarrow> int \<Rightarrow> int \<Rightarrow> bool" where
  "message_page_bad page current_page last_page all_count \<longleftrightarrow>
    current_page \<noteq> page \<or> last_page < current_page \<or> all_count < 0"

text \<open>Taking over the messages of a page that announces \<open>all_count\<close> messages on \<open>last_page\<close> pages.\<close>

definition read_history_page :: "jvalue list \<Rightarrow> int \<Rightarrow> int \<Rightarrow> history_state \<Rightarrow> history_state" where
  "read_history_page data all_count last_page h =
    (let h1 = h\<lparr>hs_reasons := hs_reasons h @
                 (if hs_page_count h \<noteq> 0 \<and> all_count \<noteq> hs_total h
                  then [''total_changed_during_pagination''] else []),
               hs_total := all_count, hs_last_page := last_page, hs_page_count := hs_page_count h + 1\<rparr>;
         h2 = fold add_history_message data h1
     in h2\<lparr>hs_page := hs_page h2 + 1\<rparr>)"

definition history_page :: "jdict \<Rightarrow> history_state \<Rightarrow> py_error + history_state" where
  "history_page payload h =
    (case (dict_get payload ''data'', loose_int (dict_get payload ''currentPage''),
           loose_int (dict_get payload ''lastPage''), loose_int (dict_get payload ''total'')) of
       (JList data, Some current_page, Some last_page, Some all_count) \<Rightarrow>
        (if message_page_bad (hs_page h) current_page last_page all_count
         then Inl (response_error ''DigiSac message pagination has an invalid structure'')
         else if data = [] \<and> current_page < last_page
         then Inl (response_error ''DigiSac returned an empty page before lastPage'')
         else Inr (read_history_page data all_count last_page h))
     | _ \<Rightarrow> Inl (response_error ''DigiSac message pagination has an invalid structure''))"

text \<open>The loop over the pages runs as long as the service announces more of them.\<close>

partial_function (option) history_loop ::
  "'w digisac_session \<Rightarrow> string \<Rightarrow> history_state \<Rightarrow> 'w \<Rightarrow> ((py_error + history_state) \<times> 'w) option" where
  "history_loop s conversation_id h w =
    (if hs_last_page h < hs_page h then Some (Inr h, w)
     else case get_json s ''messages''
         [(''where[ticketId]'', conversation_id), (''page'', int_text (hs_page h))] w of
       (Inl e, w') \<Rightarrow> Some (Inl e, w')
     | (Inr payload, w') \<Rightarrow>
        (case history_page payload h of
           Inl e \<Rightarrow> Some (Inl e, w')
         | Inr h' \<Rightarrow> history_loop s conversation_id h' w'))"

declare history_loop.simps [code]

text \<open>\<open>list(dict.fromkeys(xs))\<close> keeps the first of equal elements.\<close>

definition fromkeys :: "'a list \<Rightarrow> 'a list" where
  "fromkeys xs = rev (remdups (rev xs))"

definition history_result :: "jdict \<Rightarrow> history_state \<Rightarrow> digisac_history" where
  "history_result ticket h =
    (let messages = map snd (hs_by_id h);
         r1 = (case dict_get ticket ''lastMessageId'' of
                 JStr (c # i) \<Rightarrow>
                   (if dict_has (hs_by_id h) (c # i) then [] else [''last_message_id_missing''])
               | _ \<Rightarrow> if hs_total h \<noteq> 0 \<and> messages = [] then [''reported_total_without_messages''] else []);
         r2 = (if hs_total h \<noteq> int (length messages) then [''total_unique_count_mismatch''] else []);
         reasons = hs_reasons h @ r1 @ r2
     in \<lparr>dh_ticket = ticket, dh_messages = messages, dh_page_count = hs_page_count h, dh_total = hs_total h,
         dh_duplicate_count = hs_duplicates h, dh_complete = (reasons = []), dh_reasons = fromkeys reasons\<rparr>)"

definition get_ticket_history ::
  "'w digisac_session \<Rightarrow> string \<Rightarrow> 'w \<Rightarrow> ((py_error + digisac_history) \<times> 'w) option" where
  "get_ticket_history s conversation_id w =
    (case get_ticket s conversation_id w of
       (Inl e, w') \<Rightarrow> Some (Inl e, w')
     | (Inr ticket, w') \<Rightarrow>
        (case history_loop s conversation_id start_history w' of
           None \<Rightarrow> None
         | Some (Inl e, w'') \<Rightarrow> Some (Inl e, w'')
         | Some (Inr h, w'') \<Rightarrow> Some (Inr (history_result ticket h), w'')))"

section \<open>Requests are bounded\<close>

text \<open>A count of the requests sent: the session counts one for each, pauses count nothing.\<close>

definition counts_requests :: "'w digisac_session \<Rightarrow> ('w \<Rightarrow> nat) \<Rightarrow> bool" where
  "counts_requests s n \<longleftrightarrow>
    (\<forall>path params w. n (snd (ds_get s path params w)) = n w + 1) \<and>
    (\<forall>d w. n (ds_sleep s d w) = n w) \<and> (\<forall>b w. n (snd (ds_uniform s b w)) = n w)"

lemma counts_requestsD:
  assumes "counts_requests s n"
  shows "n (snd (ds_get s path params w)) = n w + 1" "n (ds_sleep s d w) = n w"
    "n (snd (ds_uniform s b w)) = n w"
  using assms by (simp_all add: counts_requests_def)

lemma counts_pause:
  assumes "counts_requests s n"
  shows "n (digisac_pause s attempt r w) = n w"
proof (cases r)
  case None
  obtain j w' where u: "ds_uniform s (min (ds_retry_base s * 2 ^ nat (max 0 (attempt - 1)) * (1/4)) 1) w = (j, w')"
    by fastforce
  then have "n w' = n w" using counts_requestsD(3)[OF assms] by (metis snd_conv)
  then show ?thesis
    using None u by (simp add: digisac_pause_def digisac_retry_delay_def Let_def counts_requestsD(2)[OF assms])
qed (simp add: digisac_pause_def digisac_retry_delay_def counts_requestsD(2)[OF assms])

lemma get_json_loop_count:
  assumes "counts_requests s c"
  shows "c (snd (get_json_loop s path params n attempt w)) \<le> c w + n"
proof (induction n arbitrary: attempt w)
  case (Suc n)
  have step: "c (snd (get_json_loop s path params n (attempt + 1) (digisac_pause s attempt r w'))) \<le> c w' + n" for r w'
    using Suc.IH[of "attempt + 1" "digisac_pause s attempt r w'"] counts_pause[OF assms, of attempt r w'] by simp
  obtain r w' where g: "ds_get s path params w = (r, w')" by fastforce
  have w': "c w' = c w + 1" using counts_requestsD(1)[OF assms, of path params w] g by simp
  note step = step[of _ w']
  show ?case using step[of None] step w' by (cases r) (simp_all add: g)
qed simp

lemma get_json_count:
  "counts_requests s c \<Longrightarrow> c (snd (get_json s path params w)) \<le> c w + nat (ds_max_attempts s)"
  by (simp add: get_json_def get_json_loop_count)

section \<open>Complete histories\<close>

definition history_ok :: "history_state \<Rightarrow> bool" where
  "history_ok h \<longleftrightarrow> distinct (map fst (hs_by_id h)) \<and>
    (\<forall>(i, m) \<in> set (hs_by_id h). dict_get m ''id'' = JStr i \<and> py_strip i \<noteq> [])"

lemma dict_set_keys: "fst ` set (dict_set d k v) = insert k (fst ` set d)"
  by (induction d k v rule: dict_set.induct) auto

lemma dict_set_distinct: "distinct (map fst d) \<Longrightarrow> distinct (map fst (dict_set d k v))"
  by (induction d k v rule: dict_set.induct) (auto simp: dict_set_keys)

lemma dict_set_entries: "distinct (map fst d) \<Longrightarrow> set (dict_set d k v) \<subseteq> insert (k, v) (set d)"
  by (induction d k v rule: dict_set.induct) auto

lemma dict_set_all:
  "\<forall>(i, m) \<in> set d. P i m \<Longrightarrow> P k v \<Longrightarrow> \<forall>(i, m) \<in> set (dict_set d k v). P i m"
  by (induction d k v rule: dict_set.induct) auto

lemma add_history_message_ok: "history_ok h \<Longrightarrow> history_ok (add_history_message raw h)"
  unfolding history_ok_def add_history_message_def
  by (auto split: jvalue.split simp: dict_set_distinct dest!: set_mp[OF dict_set_entries])

lemma add_history_message_page [simp]:
  "hs_page (add_history_message raw h) = hs_page h"
  "hs_last_page (add_history_message raw h) = hs_last_page h"
  by (simp_all add: add_history_message_def split: jvalue.split)

lemma fold_history_ok: "history_ok h \<Longrightarrow> history_ok (fold add_history_message data h)"
  by (induction data arbitrary: h) (simp_all add: add_history_message_ok)

lemma fold_history_page [simp]:
  "hs_page (fold add_history_message data h) = hs_page h"
  "hs_last_page (fold add_history_message data h) = hs_last_page h"
  by (induction data arbitrary: h) simp_all

lemma history_page_Inr:
  assumes "history_page payload h = Inr h'"
  obtains data n l where "loose_int (dict_get payload ''lastPage'') = Some l" "h' = read_history_page data n l h"
  using assms that unfolding history_page_def by (auto split: jvalue.splits option.splits if_splits)

lemma history_page_step:
  assumes "history_page payload h = Inr h'"
  shows "history_ok h \<Longrightarrow> history_ok h'" "hs_page h' = hs_page h + 1"
    "loose_int (dict_get payload ''lastPage'') = Some (hs_last_page h')"
proof -
  obtain data n l where l: "loose_int (dict_get payload ''lastPage'') = Some l"
    and h': "h' = read_history_page data n l h" by (rule history_page_Inr[OF assms])
  let ?h1 = "h\<lparr>hs_reasons := hs_reasons h @
               (if hs_page_count h \<noteq> 0 \<and> n \<noteq> hs_total h then [''total_changed_during_pagination''] else []),
             hs_total := n, hs_last_page := l, hs_page_count := hs_page_count h + 1\<rparr>"
  let ?h2 = "fold add_history_message data ?h1"
  have h2: "h' = ?h2\<lparr>hs_page := hs_page ?h2 + 1\<rparr>" by (simp only: h' read_history_page_def Let_def)
  show "history_ok h'" if "history_ok h"
  proof -
    have "history_ok ?h1" using that by (simp add: history_ok_def)
    then have "history_ok ?h2" by (rule fold_history_ok)
    then show ?thesis unfolding h2 by (simp add: history_ok_def)
  qed
  show "hs_page h' = hs_page h + 1" unfolding h2 by simp
  show "loose_int (dict_get payload ''lastPage'') = Some (hs_last_page h')" unfolding h2 l by simp
qed

lemma history_loop_ok:
  assumes ret: "history_loop s conversation_id h w = Some (Inr h', w')" and ok: "history_ok h"
  shows "history_ok h'"
proof -
  have "history_ok h \<longrightarrow> (\<forall>h' w'. r = (Inr h', w') \<longrightarrow> history_ok h')"
    if "history_loop s conversation_id h w = Some r" for r h w
  proof (rule history_loop.raw_induct[where P = "\<lambda>s c h w r. history_ok h \<longrightarrow>
        (\<forall>h' w'. r = (Inr h', w') \<longrightarrow> history_ok h')", OF _ that])
    fix loop s c h w r
    assume IH: "\<And>s c h w r. loop s c h w = Some r \<Longrightarrow> history_ok h \<longrightarrow>
        (\<forall>h' w'. r = (Inr h', w') \<longrightarrow> history_ok h')"
      and eq: "(if hs_last_page h < hs_page h then Some (Inr h, w)
        else case get_json s ''messages'' [(''where[ticketId]'', c), (''page'', int_text (hs_page h))] w of
          (Inl e, w') \<Rightarrow> Some (Inl e, w')
        | (Inr payload, w') \<Rightarrow> (case history_page payload h of
            Inl e \<Rightarrow> Some (Inl e, w') | Inr h' \<Rightarrow> loop s c h' w')) = Some r"
    obtain res w1 where g: "get_json s ''messages'' [(''where[ticketId]'', c), (''page'', int_text (hs_page h))] w =
        (res, w1)" by fastforce
    show "history_ok h \<longrightarrow> (\<forall>h' w'. r = (Inr h', w') \<longrightarrow> history_ok h')"
    proof (cases "hs_last_page h < hs_page h")
      case False
      show ?thesis
      proof (cases res)
        case (Inr payload)
        show ?thesis
        proof (cases "history_page payload h")
          case (Inr h1)
          then have "loop s c h1 w1 = Some r" using eq False g \<open>res = Inr payload\<close> by simp
          then show ?thesis using IH history_page_step(1)[OF Inr] by blast
        qed (use eq False g Inr in auto)
      qed (use eq False g in auto)
    qed (use eq in auto)
  qed
  then show ?thesis using assms by blast
qed

lemma fromkeys_Nil [simp]: "fromkeys xs = [] \<longleftrightarrow> xs = []"
  by (simp add: fromkeys_def)

lemma get_ticket_historyE:
  assumes "get_ticket_history s conversation_id w = Some (Inr r, w')"
  obtains ticket h w1 where "get_ticket s conversation_id w = (Inr ticket, w1)"
    "history_loop s conversation_id start_history w1 = Some (Inr h, w')" "r = history_result ticket h"
  using assms that unfolding get_ticket_history_def by (auto split: prod.splits sum.splits option.splits)

text \<open>C32: A history that is reported complete is exact: it holds as many messages as the service announced,
  every one with its own nonblank id and no id twice, and among them the last message the ticket names.\<close>
theorem complete_history_exact:
  assumes "get_ticket_history s conversation_id w = Some (Inr r, w')" and "dh_complete r"
  shows "int (length (dh_messages r)) = dh_total r \<and> dh_reasons r = [] \<and>
    distinct (map (\<lambda>m. dict_get m ''id'') (dh_messages r)) \<and>
    list_all (\<lambda>m. case dict_get m ''id'' of JStr i \<Rightarrow> py_strip i \<noteq> [] | _ \<Rightarrow> False) (dh_messages r) \<and>
    (\<forall>l. dict_get (dh_ticket r) ''lastMessageId'' = JStr l \<and> l \<noteq> [] \<longrightarrow>
      JStr l \<in> (\<lambda>m. dict_get m ''id'') ` set (dh_messages r))"
proof -
  obtain ticket h w1 where h: "history_loop s conversation_id start_history w1 = Some (Inr h, w')"
    and r: "r = history_result ticket h" by (rule get_ticket_historyE[OF assms(1)])
  have ok: "history_ok h" using history_loop_ok[OF h] by (simp add: history_ok_def start_history_def)
  have ids: "map (\<lambda>m. dict_get m ''id'') (dh_messages r) = map JStr (map fst (hs_by_id h))"
    using ok by (auto simp: r history_result_def Let_def history_ok_def)
  have m: "dh_messages r = map snd (hs_by_id h)" "dh_ticket r = ticket" "dh_total r = hs_total h"
    by (simp_all add: r history_result_def Let_def)
  have reasons: "dh_reasons r = []" "hs_total h = int (length (hs_by_id h))"
    and last: "(case dict_get ticket ''lastMessageId'' of
        JStr (c # i) \<Rightarrow> (if dict_has (hs_by_id h) (c # i) then [] else [''last_message_id_missing''])
      | _ \<Rightarrow> if hs_total h \<noteq> 0 \<and> map snd (hs_by_id h) = [] then [''reported_total_without_messages''] else []) = []"
    using assms(2) by (auto simp: r history_result_def Let_def fromkeys_def split: if_splits)
  have "distinct (map (\<lambda>m. dict_get m ''id'') (dh_messages r))" unfolding ids
    using ok by (simp add: history_ok_def distinct_map inj_on_def)
  moreover have "list_all (\<lambda>m. case dict_get m ''id'' of JStr i \<Rightarrow> py_strip i \<noteq> [] | _ \<Rightarrow> False) (dh_messages r)"
    using ok by (auto simp: m history_ok_def list_all_iff)
  moreover have "JStr l \<in> (\<lambda>m. dict_get m ''id'') ` set (dh_messages r)"
    if "dict_get (dh_ticket r) ''lastMessageId'' = JStr l" "l \<noteq> []" for l
  proof -
    have "dict_has (hs_by_id h) l" using last that by (cases l) (auto simp: m split: if_splits)
    then have "l \<in> set (map fst (hs_by_id h))" by (simp add: dict_has_def map_of_eq_None_iff)
    then have "JStr l \<in> set (map JStr (map fst (hs_by_id h)))" unfolding set_map by (rule imageI)
    then show ?thesis unfolding ids[symmetric] by simp
  qed
  moreover have "int (length (dh_messages r)) = dh_total r" by (simp add: m reasons)
  ultimately show ?thesis using reasons by blast
qed

section \<open>Histories end\<close>

text \<open>The service never announces more than \<open>n\<close> pages.\<close>

definition pages_bounded :: "'w digisac_session \<Rightarrow> int \<Rightarrow> bool" where
  "pages_bounded s n \<longleftrightarrow> (\<forall>path params w status ra d w' l.
    ds_get s path params w = (Http_Reply status ra (Some (JObj d)), w') \<longrightarrow>
    loose_int (dict_get d ''lastPage'') = Some l \<longrightarrow> l \<le> n)"

lemma read_body_Inr: "read_body status body = Inr d \<Longrightarrow> body = Some (JObj d)"
  by (auto simp: read_body_def split: option.splits jvalue.splits if_splits)

lemma get_json_loop_reply:
  assumes "get_json_loop s path params n attempt w = (Inr d, w')"
  shows "\<exists>w0 status ra. ds_get s path params w0 = (Http_Reply status ra (Some (JObj d)), w')"
  using assms
proof (induction n arbitrary: attempt w)
  case (Suc n)
  obtain r w1 where g: "ds_get s path params w = (r, w1)" by fastforce
  show ?case
  proof (cases r)
    case (Http_Reply status ra body)
    show ?thesis
    proof (cases "status \<in> set TRANSIENT_HTTP_STATUSES")
      case True
      then show ?thesis using Suc.IH Suc.prems g Http_Reply by (simp split: if_splits)
    next
      case False
      then have "read_body status body = Inr d" "w1 = w'" using Suc.prems g Http_Reply by simp_all
      then show ?thesis using g Http_Reply read_body_Inr by blast
    qed
  qed (use Suc.IH Suc.prems g in \<open>simp_all split: if_splits\<close>)
qed simp

lemma get_json_last_page:
  assumes "pages_bounded s n" and "get_json s path params w = (Inr d, w')"
    and "loose_int (dict_get d ''lastPage'') = Some l"
  shows "l \<le> n"
proof -
  obtain w0 status ra where "ds_get s path params w0 = (Http_Reply status ra (Some (JObj d)), w')"
    using get_json_loop_reply[OF assms(2)[unfolded get_json_def]] by blast
  then show ?thesis using assms(1,3) unfolding pages_bounded_def by blast
qed

lemma history_loop_returns:
  assumes "pages_bounded s n" and "counts_requests s c" and "hs_last_page h \<le> max 1 n" and "1 \<le> hs_page h"
  shows "\<exists>r w'. history_loop s conversation_id h w = Some (r, w') \<and>
    c w' \<le> c w + nat (max 1 n + 1 - hs_page h) * nat (ds_max_attempts s)"
  using assms(3,4)
proof (induction "nat (max 1 n + 1 - hs_page h)" arbitrary: h w)
  case (0 h w)
  then show ?case by (simp add: history_loop.simps)
next
  case (Suc k h w)
  let ?a = "nat (ds_max_attempts s)"
  obtain res w1 where g: "get_json s ''messages''
      [(''where[ticketId]'', conversation_id), (''page'', int_text (hs_page h))] w = (res, w1)" by fastforce
  have c1: "c w1 \<le> c w + ?a" using get_json_count[OF assms(2)] g by (metis snd_conv)
  have room: "c w1 \<le> c w + nat (max 1 n + 1 - hs_page h) * ?a"
    using c1 Suc.hyps(2) by (simp add: Suc.hyps(2)[symmetric])
  show ?case
  proof (cases "hs_last_page h < hs_page h")
    case True
    then show ?thesis by (simp add: history_loop.simps)
  next
    case more: False
    show ?thesis
    proof (cases res)
      case (Inl e)
      then show ?thesis using more g room by (subst history_loop.simps) simp
    next
      case payload: (Inr payload)
      show ?thesis
      proof (cases "history_page payload h")
        case (Inl e)
        then show ?thesis using more g room payload by (subst history_loop.simps) simp
      next
        case (Inr h')
        note st = history_page_step[OF Inr]
        have "hs_last_page h' \<le> max 1 n"
          using get_json_last_page[OF assms(1) _ st(3)] g payload by fastforce
        moreover have "k = nat (max 1 n + 1 - hs_page h')" using Suc.hyps(2) st(2) by simp
        ultimately obtain r w' where r: "history_loop s conversation_id h' w1 = Some (r, w')"
          "c w' \<le> c w1 + nat (max 1 n + 1 - hs_page h') * ?a"
          using Suc.hyps(1)[of h' w1] Suc.prems(2) st(2) by auto
        have "c w' \<le> c w + nat (max 1 n + 1 - hs_page h) * ?a"
          using r(2) c1 \<open>k = _\<close> by (simp add: Suc.hyps(2)[symmetric])
        then show ?thesis using more g payload Inr r(1) by (subst history_loop.simps) simp
      qed
    qed
  qed
qed

text \<open>Recovering the history of a ticket always ends, whatever the replies are, as long as the service
  never announces more than some number of pages, and it sends at most the configured attempts for the
  ticket and for each page.\<close>
theorem history_returns:
  assumes "pages_bounded s n" and "counts_requests s c"
  shows "\<exists>r w'. get_ticket_history s conversation_id w = Some (r, w') \<and>
    c w' \<le> c w + (1 + nat (max 1 n)) * nat (ds_max_attempts s)"
proof -
  obtain res w1 where t: "get_ticket s conversation_id w = (res, w1)" by fastforce
  have c1: "c w1 \<le> c w + nat (ds_max_attempts s)"
    using get_json_count[OF assms(2), of "''tickets/'' @ conversation_id" "[]" w] t
    unfolding get_ticket_def by simp
  show ?thesis
  proof (cases res)
    case (Inl e)
    then show ?thesis using t c1 by (simp add: get_ticket_history_def)
  next
    case (Inr ticket)
    obtain r w' where r: "history_loop s conversation_id start_history w1 = Some (r, w')"
      "c w' \<le> c w1 + nat (max 1 n) * nat (ds_max_attempts s)"
      using history_loop_returns[OF assms, of start_history conversation_id w1] by (auto simp: start_history_def)
    have "c w' \<le> c w + (1 + nat (max 1 n)) * nat (ds_max_attempts s)" using r(2) c1 by simp
    then show ?thesis using t Inr r(1) by (cases r) (simp_all add: get_ticket_history_def)
  qed
qed

text \<open>A service whose ticket names the second of two messages, one on each page.\<close>

definition demo_page :: "string \<Rightarrow> int \<Rightarrow> jvalue" where
  "demo_page i n = JObj [(''data'', JList [JObj [(''id'', JStr i)]]), (''currentPage'', JInt n),
     (''lastPage'', JInt 2), (''total'', JInt 2)]"

definition demo_get :: "string \<Rightarrow> (string \<times> string) list \<Rightarrow> nat \<Rightarrow> digisac_reply \<times> nat" where
  "demo_get path params w =
    ((if path \<noteq> ''messages'' then Http_Reply 200 None (Some (JObj [(''lastMessageId'', JStr ''m2'')]))
      else if params = [(''where[ticketId]'', ''t''), (''page'', ''1'')]
      then Http_Reply 200 None (Some (demo_page ''m1'' 1))
      else Http_Reply 200 None (Some (demo_page ''m2'' 2))), w + 1)"

definition demo_session :: "nat digisac_session" where
  "demo_session = \<lparr>ds_get = demo_get, ds_sleep = (\<lambda>_ w. w), ds_uniform = (\<lambda>_ w. (0, w)),
     ds_max_attempts = 3, ds_retry_base = 1\<rparr>"

definition demo_ticket_history :: digisac_history where
  "demo_ticket_history = history_result [(''lastMessageId'', JStr ''m2'')]
     \<lparr>hs_page = 3, hs_last_page = 2, hs_total = 2, hs_page_count = 2, hs_duplicates = 0,
      hs_by_id = [(''m1'', [(''id'', JStr ''m1'')]), (''m2'', [(''id'', JStr ''m2'')])], hs_reasons = []\<rparr>"

lemma demo_ticket_history_run: "get_ticket_history demo_session ''t'' 0 = Some (Inr demo_ticket_history, 3)"
  by code_simp

theorem complete_history_exact_witness:
  "length (dh_messages demo_ticket_history) = 2 \<and> dh_reasons demo_ticket_history = []"
proof -
  have "dh_complete demo_ticket_history" "dh_total demo_ticket_history = 2" by code_simp+
  then show ?thesis using complete_history_exact[OF demo_ticket_history_run] by simp
qed

theorem history_returns_witness:
  "\<exists>r w'. get_ticket_history demo_session ''t'' 0 = Some (r, w') \<and> w' \<le> 0 + (1 + 2) * 3"
proof -
  have "pages_bounded demo_session 2"
    unfolding pages_bounded_def
  proof (intro allI impI)
    fix path params w status ra d w' l
    assume g: "ds_get demo_session path params w = (Http_Reply status ra (Some (JObj d)), w')"
      and l: "loose_int (dict_get d ''lastPage'') = Some l"
    have "JObj d = JObj [(''lastMessageId'', JStr ''m2'')] \<or> JObj d = demo_page ''m1'' 1 \<or> JObj d = demo_page ''m2'' 2"
      using g unfolding demo_session_def demo_get_def by (simp split: if_splits)
    moreover have "loose_int (dict_get [(''lastMessageId'', JStr ''m2'')] ''lastPage'') = None" by code_simp
    ultimately show "l \<le> 2"
      using l unfolding demo_page_def by (auto simp: dict_get_def loose_int_def)
  qed
  moreover have "counts_requests demo_session (\<lambda>w. w)"
    by (simp add: counts_requests_def demo_session_def demo_get_def)
  ultimately have "\<exists>r w'. get_ticket_history demo_session ''t'' 0 = Some (r, w') \<and>
      w' \<le> 0 + (1 + nat (max 1 2)) * nat (ds_max_attempts demo_session)"
    by (rule history_returns)
  then obtain r w' where r: "get_ticket_history demo_session ''t'' 0 = Some (r, w')"
    "w' \<le> 0 + (1 + nat (max 1 2)) * nat (ds_max_attempts demo_session)" by (elim exE conjE)
  have "ds_max_attempts demo_session = 3" by (simp add: demo_session_def)
  then show ?thesis using r by auto
qed

end
