(* ===== verification/Contact_Repository.thy ===== *)
theory Contact_Repository
  imports Digisac_Client Directory_Tables Work_Interfaces
begin

text \<open>
  The durable identity of DigiSac contacts (\<open>src/core/digisac_contact_repository.py\<close>): the merge of an
  observed contact with the stored one by the provider's clock, the queue of hydrations with its leases,
  the worker step over it (\<open>digisac_contact_hydration.py\<close>) and the acquisition and publication of the whole
  directory (\<open>digisac_contact_backfill.py\<close>).  \<open>now\<close> is the clock of the database and \<open>py_now\<close> that of the
  process; the retry base of the settings is a duration in microseconds.
\<close>

section \<open>The tables\<close>

record contact_row = digisac_contact_data +
  kr_id :: int
  kr_last_seen_at :: time
  kr_last_source :: string
  kr_updated_at :: time

datatype hydration_status = Hydration_Pending | Hydration_Running | Hydration_Succeeded | Hydration_Failed

record hydration =
  hy_contact_id :: int
  hy_status :: hydration_status
  hy_attempt_count :: int
  hy_requested_at :: time
  hy_last_attempt_at :: "time option"
  hy_next_attempt_at :: "time option"
  hy_lease_until :: "time option"
  hy_completed_at :: "time option"
  hy_failure_category :: "string option"
  hy_failure_message :: "string option"

record contact_db =
  kd_contacts :: "contact_row list"
  kd_hydrations :: "hydration list"
  kd_next_contact :: int

definition empty_contact_db :: contact_db where
  "empty_contact_db = \<lparr>kd_contacts = [], kd_hydrations = [], kd_next_contact = 1\<rparr>"

definition digits_text :: "string option \<Rightarrow> bool" where
  "digits_text v = (case v of None \<Rightarrow> True | Some s \<Rightarrow> s \<noteq> [] \<and> list_all (\<lambda>c. c \<in> set ascii_digits) s)"

definition contact_check :: "contact_row \<Rightarrow> bool" where
  "contact_check r \<longleftrightarrow>
    btrim (pc_external_id r) \<noteq> [] \<and> digits_text (pc_normalized_number r) \<and> btrim (kr_last_source r) \<noteq> [] \<and>
    (case pc_normalized_email r of None \<Rightarrow> True | Some s \<Rightarrow> btrim s \<noteq> [])"

definition failure_category_char :: "char \<Rightarrow> bool" where
  "failure_category_char c \<longleftrightarrow> c \<in> set (ascii_lower_letters @ ascii_digits @ ''_:-'')"

definition hydration_check :: "hydration \<Rightarrow> bool" where
  "hydration_check h \<longleftrightarrow> 0 \<le> hy_attempt_count h \<and>
    (case hy_failure_category h of None \<Rightarrow> True
     | Some s \<Rightarrow> s \<noteq> [] \<and> list_all failure_category_char s)"

definition contact_violation :: py_error where
  "contact_violation = CheckViolation ''digisac_contacts''"

text \<open>The columns that other components read.\<close>

definition directory_row :: "contact_row \<Rightarrow> digisac_contact" where
  "directory_row r =
    \<lparr>dc_id = kr_id r, dc_external_id = pc_external_id r, dc_normalized_number = pc_normalized_number r,
     dc_normalized_email = pc_normalized_email r, dc_is_group = pc_is_group r\<rparr>"

section \<open>Merging an observation\<close>

definition observed_older :: "digisac_contact_data \<Rightarrow> time option \<Rightarrow> bool" where
  "observed_older c old =
    (case (old, pc_provider_updated_at c) of (Some o', Some n) \<Rightarrow> n < o' | _ \<Rightarrow> False)"

definition observed_unordered :: "digisac_contact_data \<Rightarrow> time option \<Rightarrow> bool" where
  "observed_unordered c old \<longleftrightarrow> old \<noteq> None \<and> pc_provider_updated_at c = None"

text \<open>One field of the loop over \<open>_CONTACT_PROVIDER_FIELDS\<close>.\<close>

definition merge_field :: "bool \<Rightarrow> bool \<Rightarrow> 'a option \<Rightarrow> 'a option \<Rightarrow> 'a option" where
  "merge_field older unordered incoming stored =
    (if incoming = None \<or> older \<or> (unordered \<and> stored \<noteq> None) then stored else incoming)"

text \<open>The fields one contact gives, filled up with those of another.\<close>

definition override_contact ::
  "digisac_contact_data \<Rightarrow> digisac_contact_data \<Rightarrow> digisac_contact_data" where
  "override_contact new old =
    \<lparr>pc_external_id = pc_external_id old, pc_name = coalesce_opt (pc_name new) (pc_name old),
     pc_alternative_name = coalesce_opt (pc_alternative_name new) (pc_alternative_name old),
     pc_internal_name = coalesce_opt (pc_internal_name new) (pc_internal_name old),
     pc_raw_number = coalesce_opt (pc_raw_number new) (pc_raw_number old),
     pc_normalized_number = coalesce_opt (pc_normalized_number new) (pc_normalized_number old),
     pc_raw_email = coalesce_opt (pc_raw_email new) (pc_raw_email old),
     pc_normalized_email = coalesce_opt (pc_normalized_email new) (pc_normalized_email old),
     pc_is_group = coalesce_opt (pc_is_group new) (pc_is_group old),
     pc_account_id = coalesce_opt (pc_account_id new) (pc_account_id old),
     pc_service_id = coalesce_opt (pc_service_id new) (pc_service_id old),
     pc_provider_created_at = coalesce_opt (pc_provider_created_at new) (pc_provider_created_at old),
     pc_provider_updated_at = coalesce_opt (pc_provider_updated_at new) (pc_provider_updated_at old),
     pc_provider_deleted_at = coalesce_opt (pc_provider_deleted_at new) (pc_provider_deleted_at old)\<rparr>"

definition merge_updated_at :: "time option \<Rightarrow> time option \<Rightarrow> time option \<Rightarrow> time option" where
  "merge_updated_at old new merged =
    (case old of
       Some o' \<Rightarrow>
         (case new of None \<Rightarrow> old | Some n \<Rightarrow> if n < o' then old else new)
     | None \<Rightarrow> (if new \<noteq> None then new else merged))"

definition merge_contact ::
  "digisac_contact_data \<Rightarrow> string \<Rightarrow> time \<Rightarrow> time \<Rightarrow> contact_row \<Rightarrow> contact_row" where
  "merge_contact c source observed now r =
    (let old = pc_provider_updated_at r; older = observed_older c old; unordered = observed_unordered c old
     in r\<lparr>pc_name := merge_field older unordered (pc_name c) (pc_name r),
          pc_alternative_name := merge_field older unordered (pc_alternative_name c) (pc_alternative_name r),
          pc_internal_name := merge_field older unordered (pc_internal_name c) (pc_internal_name r),
          pc_raw_number := merge_field older unordered (pc_raw_number c) (pc_raw_number r),
          pc_normalized_number := merge_field older unordered (pc_normalized_number c) (pc_normalized_number r),
          pc_raw_email := merge_field older unordered (pc_raw_email c) (pc_raw_email r),
          pc_normalized_email := merge_field older unordered (pc_normalized_email c) (pc_normalized_email r),
          pc_is_group := merge_field older unordered (pc_is_group c) (pc_is_group r),
          pc_account_id := merge_field older unordered (pc_account_id c) (pc_account_id r),
          pc_service_id := merge_field older unordered (pc_service_id c) (pc_service_id r),
          pc_provider_created_at := merge_field older unordered (pc_provider_created_at c) (pc_provider_created_at r),
          pc_provider_updated_at := merge_updated_at old (pc_provider_updated_at c)
            (merge_field older unordered (pc_provider_updated_at c) old),
          pc_provider_deleted_at := merge_field older unordered (pc_provider_deleted_at c) (pc_provider_deleted_at r),
          kr_last_seen_at := max (kr_last_seen_at r) observed,
          kr_last_source := (if older \<or> unordered then kr_last_source r else source),
          kr_updated_at := now\<rparr>)"

definition new_contact_row ::
  "digisac_contact_data \<Rightarrow> string \<Rightarrow> time \<Rightarrow> time \<Rightarrow> int \<Rightarrow> contact_row" where
  "new_contact_row c source observed now i =
    \<lparr>pc_external_id = pc_external_id c, pc_name = pc_name c, pc_alternative_name = pc_alternative_name c,
     pc_internal_name = pc_internal_name c, pc_raw_number = pc_raw_number c,
     pc_normalized_number = pc_normalized_number c, pc_raw_email = pc_raw_email c,
     pc_normalized_email = pc_normalized_email c, pc_is_group = pc_is_group c, pc_account_id = pc_account_id c,
     pc_service_id = pc_service_id c, pc_provider_created_at = pc_provider_created_at c,
     pc_provider_updated_at = pc_provider_updated_at c, pc_provider_deleted_at = pc_provider_deleted_at c,
     kr_id = i, kr_last_seen_at = observed, kr_last_source = source, kr_updated_at = now\<rparr>"

text \<open>A snapshot that a ticket event carries ends the hydration of its contact.\<close>

definition settle_hydration :: "time \<Rightarrow> hydration \<Rightarrow> hydration" where
  "settle_hydration now h =
    h\<lparr>hy_status := Hydration_Succeeded, hy_next_attempt_at := None, hy_lease_until := None,
      hy_completed_at := Some (coalesce (hy_completed_at h) now), hy_failure_category := None,
      hy_failure_message := None\<rparr>"

definition store_contact_row :: "contact_row \<Rightarrow> contact_db \<Rightarrow> contact_db" where
  "store_contact_row row db =
    (if lookup_by pc_external_id (pc_external_id row) (kd_contacts db) = None
     then db\<lparr>kd_contacts := kd_contacts db @ [row], kd_next_contact := kd_next_contact db + 1\<rparr>
     else db\<lparr>kd_contacts := update_where (\<lambda>r. kr_id r = kr_id row) (\<lambda>_. row) (kd_contacts db)\<rparr>)"

definition observed_row ::
  "time \<Rightarrow> digisac_contact_data \<Rightarrow> string \<Rightarrow> time \<Rightarrow> contact_db \<Rightarrow> contact_row" where
  "observed_row now contact source observed db =
    (case lookup_by pc_external_id (pc_external_id contact) (kd_contacts db) of
       None \<Rightarrow> new_contact_row contact source observed now (kd_next_contact db)
     | Some r \<Rightarrow> merge_contact contact source observed now r)"

definition upsert_contact_cursor ::
  "time \<Rightarrow> digisac_contact_data \<Rightarrow> string \<Rightarrow> time \<Rightarrow> contact_db \<Rightarrow> py_error + (contact_row \<times> contact_db)" where
  "upsert_contact_cursor now contact source observed db =
    (let row = observed_row now contact source observed db; db1 = store_contact_row row db
     in if \<not> contact_check row then Inl contact_violation
        else Inr (row,
          if source = ''ticket_webhook''
          then db1\<lparr>kd_hydrations :=
            update_where (\<lambda>h. hy_contact_id h = kr_id row) (settle_hydration now) (kd_hydrations db1)\<rparr>
          else db1))"

definition upsert_digisac_contact ::
  "time \<Rightarrow> time \<Rightarrow> digisac_contact_data \<Rightarrow> string \<Rightarrow> time option \<Rightarrow> contact_db \<Rightarrow>
   (py_error + contact_row) \<times> contact_db" where
  "upsert_digisac_contact now py_now contact source observed_at db =
    (let normalized_source = py_strip source
     in if normalized_source = [] then (Inl (ValueError ''contact source must not be blank''), db)
        else transaction db
          (upsert_contact_cursor now contact normalized_source (coalesce observed_at py_now) db))"

section \<open>Publishing a directory\<close>

text \<open>\<open>{contact.external_id: contact for contact in contacts}.values()\<close>: the position of the first, the value
  of the last.\<close>

definition unique_contacts :: "digisac_contact_data list \<Rightarrow> digisac_contact_data list" where
  "unique_contacts cs = map snd (fold (\<lambda>c d. dict_set d (pc_external_id c) c) cs [])"

fun publish_contacts ::
  "time \<Rightarrow> time \<Rightarrow> digisac_contact_data list \<Rightarrow> contact_db \<Rightarrow> py_error + contact_db" where
  "publish_contacts now observed [] db = Inr db"
| "publish_contacts now observed (c # cs) db =
    on_value (upsert_contact_cursor now c ''contacts_backfill'' observed db)
      (\<lambda>(_, db'). publish_contacts now observed cs db')"

definition publish_digisac_contact_backfill ::
  "time \<Rightarrow> time \<Rightarrow> digisac_contact_data list \<Rightarrow> time option \<Rightarrow> contact_db \<Rightarrow> (py_error + nat) \<times> contact_db" where
  "publish_digisac_contact_backfill now py_now cs observed_at db =
    transaction db (on_value (publish_contacts now (coalesce observed_at py_now) (unique_contacts cs) db)
      (\<lambda>db'. Inr (length (unique_contacts cs), db')))"

section \<open>Requests for hydration\<close>

datatype hydration_decision =
    Invalid_Contact | Requested | Pending_Duplicate | Running_Duplicate | Failed_Backoff_Preserved
  | Failed_Due | Succeeded_Current

definition contact_has_metadata :: "contact_row \<Rightarrow> bool" where
  "contact_has_metadata r \<longleftrightarrow> pc_provider_updated_at r \<noteq> None \<or> pc_provider_created_at r \<noteq> None"

definition placeholder :: "string \<Rightarrow> time \<Rightarrow> time \<Rightarrow> int \<Rightarrow> contact_row" where
  "placeholder external_id requested now i =
    \<lparr>pc_external_id = external_id, pc_name = None, pc_alternative_name = None, pc_internal_name = None,
     pc_raw_number = None, pc_normalized_number = None, pc_raw_email = None, pc_normalized_email = None,
     pc_is_group = None, pc_account_id = None, pc_service_id = None, pc_provider_created_at = None,
     pc_provider_updated_at = None, pc_provider_deleted_at = None, kr_id = i, kr_last_seen_at = requested,
     kr_last_source = ''message_reference'', kr_updated_at = now\<rparr>"

definition referenced_row :: "time \<Rightarrow> string \<Rightarrow> time \<Rightarrow> contact_db \<Rightarrow> contact_row" where
  "referenced_row now external_id requested db =
    (case lookup_by pc_external_id external_id (kd_contacts db) of
       None \<Rightarrow> placeholder external_id requested now (kd_next_contact db)
     | Some r \<Rightarrow> r\<lparr>kr_last_seen_at := max (kr_last_seen_at r) requested, kr_updated_at := now\<rparr>)"

definition new_hydration :: "int \<Rightarrow> time \<Rightarrow> hydration" where
  "new_hydration contact_id requested =
    \<lparr>hy_contact_id = contact_id, hy_status = Hydration_Pending, hy_attempt_count = 0, hy_requested_at = requested,
     hy_last_attempt_at = None, hy_next_attempt_at = None, hy_lease_until = None, hy_completed_at = None,
     hy_failure_category = None, hy_failure_message = None\<rparr>"

definition request_decision :: "time \<Rightarrow> contact_row \<Rightarrow> hydration option \<Rightarrow> hydration_decision" where
  "request_decision py_now contact state =
    (case state of
       Some h \<Rightarrow>
        (case hy_status h of
           Hydration_Pending \<Rightarrow> Pending_Duplicate
         | Hydration_Running \<Rightarrow> Running_Duplicate
         | Hydration_Succeeded \<Rightarrow> Succeeded_Current
         | Hydration_Failed \<Rightarrow>
            (if in_future py_now (hy_next_attempt_at h) then Failed_Backoff_Preserved else Failed_Due))
     | None \<Rightarrow> (if contact_has_metadata contact then Succeeded_Current else Requested))"

definition request_hydration ::
  "time \<Rightarrow> time \<Rightarrow> string \<Rightarrow> time option \<Rightarrow> contact_db \<Rightarrow> hydration_decision \<times> contact_db" where
  "request_hydration now py_now external_id requested_at db =
    (let normalized_id = py_strip external_id
     in if normalized_id = [] then (Invalid_Contact, db)
        else
         (let requested = coalesce requested_at py_now;
              contact = referenced_row now normalized_id requested db;
              db1 = store_contact_row contact db;
              decision = request_decision py_now contact
                (lookup_by hy_contact_id (kr_id contact) (kd_hydrations db1))
          in (decision,
              if decision = Requested
              then db1\<lparr>kd_hydrations := kd_hydrations db1 @ [new_hydration (kr_id contact) requested]\<rparr>
              else db1)))"

definition request_digisac_contact_hydration ::
  "time \<Rightarrow> time \<Rightarrow> string \<Rightarrow> time option \<Rightarrow> contact_db \<Rightarrow> bool \<times> contact_db" where
  "request_digisac_contact_hydration now py_now external_id requested_at db =
    (case request_hydration now py_now external_id requested_at db of (d, db') \<Rightarrow> (d = Requested, db'))"

section \<open>Claiming and reporting\<close>

definition hydration_claimable :: "time \<Rightarrow> hydration \<Rightarrow> bool" where
  "hydration_claimable now h \<longleftrightarrow>
    (hy_status h = Hydration_Pending \<or> hy_status h = Hydration_Failed) \<and> elapsed now (hy_next_attempt_at h) \<or>
    hy_status h = Hydration_Running \<and> hy_lease_until h \<noteq> None \<and> elapsed now (hy_lease_until h)"

definition hydration_order :: "hydration \<Rightarrow> time \<times> int" where
  "hydration_order h = (hy_requested_at h, hy_contact_id h)"

definition claimed_hydration :: "time \<Rightarrow> int \<Rightarrow> hydration \<Rightarrow> hydration" where
  "claimed_hydration now lease_seconds h =
    h\<lparr>hy_status := Hydration_Running, hy_attempt_count := hy_attempt_count h + 1,
      hy_last_attempt_at := Some now, hy_next_attempt_at := None,
      hy_lease_until := Some (now + seconds lease_seconds)\<rparr>"

text \<open>The rows of the join of hydrations and contacts.\<close>

definition joined_hydrations :: "contact_db \<Rightarrow> hydration list" where
  "joined_hydrations db =
    filter (\<lambda>h. lookup_by kr_id (hy_contact_id h) (kd_contacts db) \<noteq> None) (kd_hydrations db)"

definition claim_hydration_tx :: "time \<Rightarrow> int set \<Rightarrow> int \<Rightarrow> contact_db \<Rightarrow> hydration option \<times> contact_db" where
  "claim_hydration_tx now locked lease_seconds db =
    (case fetchone (select_limit 1 hydration_order (\<lambda>h. hydration_claimable now h \<and> hy_contact_id h \<notin> locked)
        (joined_hydrations db)) of
       None \<Rightarrow> (None, db)
     | Some h \<Rightarrow>
        (let h' = claimed_hydration now lease_seconds h
         in (Some h', db\<lparr>kd_hydrations :=
              update_where (\<lambda>x. hy_contact_id x = hy_contact_id h) (\<lambda>_. h') (kd_hydrations db)\<rparr>)))"

record hydration_claim =
  hc_contact_id :: int
  hc_external_id :: string
  hc_attempt_count :: int
  hc_lease_until :: time

definition claim_digisac_contact_hydration ::
  "time \<Rightarrow> int set \<Rightarrow> int \<Rightarrow> contact_db \<Rightarrow> (py_error + hydration_claim option) \<times> contact_db" where
  "claim_digisac_contact_hydration now locked lease_seconds db =
    (if lease_seconds \<le> 0 then (Inl (ValueError ''contact hydration lease must be positive''), db)
     else case claim_hydration_tx now locked lease_seconds db of
       (None, db') \<Rightarrow> (Inr None, db')
     | (Some h, db') \<Rightarrow>
        (Inr (map_option (\<lambda>r. \<lparr>hc_contact_id = hy_contact_id h, hc_external_id = pc_external_id r,
           hc_attempt_count = hy_attempt_count h, hc_lease_until = now + seconds lease_seconds\<rparr>)
           (lookup_by kr_id (hy_contact_id h) (kd_contacts db))), db'))"

text \<open>The row a worker holds: running, under the lease it was given.\<close>

definition held_hydration :: "string \<Rightarrow> time \<Rightarrow> contact_db \<Rightarrow> hydration \<Rightarrow> bool" where
  "held_hydration external_id expected db h \<longleftrightarrow>
    hy_status h = Hydration_Running \<and> hy_lease_until h = Some expected \<and>
    (case lookup_by kr_id (hy_contact_id h) (kd_contacts db) of
       None \<Rightarrow> False | Some r \<Rightarrow> pc_external_id r = external_id)"

definition succeeded_hydration :: "time \<Rightarrow> hydration \<Rightarrow> hydration" where
  "succeeded_hydration now h =
    h\<lparr>hy_status := Hydration_Succeeded, hy_next_attempt_at := None, hy_lease_until := None,
      hy_completed_at := Some now, hy_failure_category := None, hy_failure_message := None\<rparr>"

definition mark_hydration_success :: "time \<Rightarrow> string \<Rightarrow> time \<Rightarrow> contact_db \<Rightarrow> bool \<times> contact_db" where
  "mark_hydration_success now external_id expected db =
    (length (filter (held_hydration external_id expected db) (kd_hydrations db)) = 1,
     db\<lparr>kd_hydrations :=
       update_where (held_hydration external_id expected db) (succeeded_hydration now) (kd_hydrations db)\<rparr>)"

definition safe_failure_category :: "string \<Rightarrow> string" where
  "safe_failure_category category =
    (let safe = filter failure_category_char (py_lower category)
     in if take 80 safe = [] then ''unknown'' else take 80 safe)"

definition hydration_delay :: "time \<Rightarrow> int \<Rightarrow> time" where
  "hydration_delay retry_base attempt_count =
    min (seconds 60) (retry_base * 2 ^ nat (max 0 (attempt_count - 1)))"

definition failed_hydration :: "time option \<Rightarrow> string \<Rightarrow> hydration \<Rightarrow> hydration" where
  "failed_hydration next_attempt category h =
    h\<lparr>hy_status := Hydration_Failed, hy_next_attempt_at := next_attempt, hy_lease_until := None,
      hy_completed_at := None, hy_failure_category := Some category,
      hy_failure_message := Some (''contact hydration failed: '' @ category)\<rparr>"

definition mark_hydration_failure ::
  "time \<Rightarrow> time \<Rightarrow> int \<Rightarrow> string \<Rightarrow> string \<Rightarrow> bool \<Rightarrow> time \<Rightarrow> contact_db \<Rightarrow> bool \<times> contact_db" where
  "mark_hydration_failure py_now retry_base limit external_id category retryable expected db =
    (case find (held_hydration external_id expected db) (kd_hydrations db) of
       None \<Rightarrow> (False, db)
     | Some h \<Rightarrow>
        (let safe = safe_failure_category category;
             should_retry = retryable \<and> hy_attempt_count h < limit;
             next_attempt = (if should_retry
               then Some (py_now + hydration_delay retry_base (hy_attempt_count h)) else None)
         in (True, db\<lparr>kd_hydrations := update_where
               (\<lambda>x. hy_lease_until x = Some expected \<and>
                 (case lookup_by kr_id (hy_contact_id x) (kd_contacts db) of
                    None \<Rightarrow> False | Some r \<Rightarrow> pc_external_id r = external_id))
               (failed_hydration next_attempt safe) (kd_hydrations db)\<rparr>)))"

definition get_digisac_contact :: "string \<Rightarrow> contact_db \<Rightarrow> contact_row option" where
  "get_digisac_contact external_id db = lookup_by pc_external_id external_id (kd_contacts db)"

definition get_digisac_contact_hydration :: "string \<Rightarrow> contact_db \<Rightarrow> hydration option" where
  "get_digisac_contact_hydration external_id db =
    Option.bind (lookup_by pc_external_id external_id (kd_contacts db))
      (\<lambda>r. lookup_by hy_contact_id (kr_id r) (kd_hydrations db))"

section \<open>One round of the hydration worker\<close>

definition retryable_category :: "string \<Rightarrow> bool" where
  "retryable_category c \<longleftrightarrow> c \<in> set [''timeout'', ''connection'', ''transient'']"

text \<open>The category and the retry decision of an exception.\<close>

definition hydration_failure :: "py_error \<Rightarrow> string \<times> bool" where
  "hydration_failure e =
    (case e of DigisacClientError category _ \<Rightarrow> (category, retryable_category category)
     | _ \<Rightarrow> (''unexpected'', False))"

text \<open>The fetch and the upsert; \<open>clock\<close> numbers the readings of the clocks.\<close>

definition hydrate ::
  "(nat \<Rightarrow> time) \<Rightarrow> (string \<Rightarrow> 'w \<Rightarrow> (py_error + digisac_contact_data) \<times> 'w) \<Rightarrow> string \<Rightarrow> contact_db \<Rightarrow> 'w \<Rightarrow>
   (py_error + unit) \<times> contact_db \<times> 'w" where
  "hydrate clock fetch external_id db w =
    (case fetch external_id w of
       (Inl e, w') \<Rightarrow> (Inl e, db, w')
     | (Inr contact, w') \<Rightarrow>
        (case upsert_digisac_contact (clock 1) (clock 2) contact ''contact_hydration'' None db of
           (Inl e, db') \<Rightarrow> (Inl e, db', w')
         | (Inr _, db') \<Rightarrow> (Inr (), db', w')))"

definition process_one_contact_hydration ::
  "(nat \<Rightarrow> time) \<Rightarrow> int set \<Rightarrow> time \<Rightarrow> int \<Rightarrow> (string \<Rightarrow> 'w \<Rightarrow> (py_error + digisac_contact_data) \<times> 'w) \<Rightarrow> int \<Rightarrow>
   contact_db \<Rightarrow> 'w \<Rightarrow> (py_error + bool) \<times> contact_db \<times> 'w" where
  "process_one_contact_hydration clock locked retry_base limit fetch lease_seconds db w =
    (case claim_digisac_contact_hydration (clock 0) locked lease_seconds db of
       (Inl e, db1) \<Rightarrow> (Inl e, db1, w)
     | (Inr None, db1) \<Rightarrow> (Inr False, db1, w)
     | (Inr (Some claim), db1) \<Rightarrow>
        (case hydrate clock fetch (hc_external_id claim) db1 w of
           (Inl e, db2, w') \<Rightarrow>
             (case hydration_failure e of (category, retryable) \<Rightarrow>
               (Inr True, snd (mark_hydration_failure (clock 3) retry_base limit (hc_external_id claim) category
                 retryable (hc_lease_until claim) db2), w'))
         | (Inr _, db2, w') \<Rightarrow>
             (Inr True, snd (mark_hydration_success (clock 3) (hc_external_id claim) (hc_lease_until claim) db2), w')))"

end
