(* ===== verification/Contact_Correctness.thy ===== *)
theory Contact_Correctness
  imports Contact_Repository
begin

text \<open>
  What holds of the contact repository: the invariant of its two tables, the refinement of an abstract
  register of what is known about each contact, the convergence of observations that arrive in any
  order, exclusive claims of hydrations and the decisions about their requests and failures.
\<close>

section \<open>The invariant\<close>

definition hydration_ok :: "hydration \<Rightarrow> bool" where
  "hydration_ok h \<longleftrightarrow> hydration_check h \<and>
    (hy_status h = Hydration_Running \<longleftrightarrow> hy_lease_until h \<noteq> None) \<and>
    (hy_status h = Hydration_Succeeded \<longrightarrow> hy_completed_at h \<noteq> None \<and> hy_next_attempt_at h = None) \<and>
    (hy_status h = Hydration_Failed \<longrightarrow> hy_failure_category h \<noteq> None)"

definition contacts_inv :: "contact_db \<Rightarrow> bool" where
  "contacts_inv db \<longleftrightarrow>
    distinct (map pc_external_id (kd_contacts db)) \<and> distinct (map kr_id (kd_contacts db)) \<and>
    (\<forall>r \<in> set (kd_contacts db). kr_id r < kd_next_contact db \<and> contact_check r)"

definition hydrations_inv :: "contact_db \<Rightarrow> bool" where
  "hydrations_inv db \<longleftrightarrow>
    distinct (map hy_contact_id (kd_hydrations db)) \<and>
    (\<forall>h \<in> set (kd_hydrations db). hy_contact_id h \<in> kr_id ` set (kd_contacts db) \<and> hydration_ok h)"

definition contact_inv :: "contact_db \<Rightarrow> bool" where
  "contact_inv db \<longleftrightarrow> contacts_inv db \<and> hydrations_inv db"

datatype contact_op =
    Upsert time time digisac_contact_data string "time option"
  | Publish time time "digisac_contact_data list" "time option"
  | Reference time time string "time option"
  | Claim_Hydration time "int set" int
  | Report_Success time string time
  | Report_Failure time time int string string bool time

fun contact_step :: "contact_op \<Rightarrow> contact_db \<Rightarrow> contact_db" where
  "contact_step (Upsert now py_now c source observed) db = snd (upsert_digisac_contact now py_now c source observed db)"
| "contact_step (Publish now py_now cs observed) db = snd (publish_digisac_contact_backfill now py_now cs observed db)"
| "contact_step (Reference now py_now external_id requested) db = snd (request_hydration now py_now external_id requested db)"
| "contact_step (Claim_Hydration now locked lease) db = snd (claim_digisac_contact_hydration now locked lease db)"
| "contact_step (Report_Success now external_id expected) db = snd (mark_hydration_success now external_id expected db)"
| "contact_step (Report_Failure py_now retry_base limit external_id category retryable expected) db =
    snd (mark_hydration_failure py_now retry_base limit external_id category retryable expected db)"

inductive contact_reachable :: "contact_db \<Rightarrow> bool" where
  contact_start: "contact_reachable empty_contact_db"
| contact_next: "contact_reachable db \<Longrightarrow> contact_reachable (contact_step op db)"

lemma update_row_by_key:
  assumes "distinct (map key t)" and "r \<in> set t" and "key r' = key r"
  shows "set (update_where (\<lambda>x. key x = key r') (\<lambda>_. r') t) = insert r' (set t - {r})"
  using assms distinct_key_eq[OF assms(1), of _ r] by (auto simp: set_update_where)

text \<open>Storing a row: a new one at the end, or the changed one in place.\<close>

lemma store_new_row:
  assumes "contacts_inv db" and "lookup_by pc_external_id (pc_external_id row) (kd_contacts db) = None"
    and "kr_id row = kd_next_contact db" and "contact_check row"
  shows "contacts_inv (store_contact_row row db)"
    and "kr_id ` set (kd_contacts (store_contact_row row db)) = insert (kr_id row) (kr_id ` set (kd_contacts db))"
    and "kd_hydrations (store_contact_row row db) = kd_hydrations db"
  using assms by (fastforce simp: store_contact_row_def contacts_inv_def lookup_by_None)+

lemma store_old_row:
  assumes inv: "contacts_inv db" and r: "r \<in> set (kd_contacts db)"
    and same: "pc_external_id row = pc_external_id r" "kr_id row = kr_id r" and "contact_check row"
  shows "contacts_inv (store_contact_row row db)"
    and "kr_id ` set (kd_contacts (store_contact_row row db)) = kr_id ` set (kd_contacts db)"
    and "kd_hydrations (store_contact_row row db) = kd_hydrations db"
proof -
  have found: "lookup_by pc_external_id (pc_external_id row) (kd_contacts db) \<noteq> None"
    using r same(1) by (auto simp: lookup_by_None)
  have d: "distinct (map kr_id (kd_contacts db))" using inv by (simp add: contacts_inv_def)
  have rows: "kd_contacts (store_contact_row row db) =
      update_where (\<lambda>x. kr_id x = kr_id row) (\<lambda>_. row) (kd_contacts db)"
    "kd_next_contact (store_contact_row row db) = kd_next_contact db"
    unfolding store_contact_row_def if_not_P[OF found] by simp_all
  have only: "x = r" if "x \<in> set (kd_contacts db)" "kr_id x = kr_id row" for x
    using distinct_key_eq[OF d that(1) r] that(2) same(2) by simp
  have ids: "map kr_id (update_where (\<lambda>x. kr_id x = kr_id row) (\<lambda>_. row) (kd_contacts db)) = map kr_id (kd_contacts db)"
    by (rule map_update_where) simp
  have exts: "map pc_external_id (update_where (\<lambda>x. kr_id x = kr_id row) (\<lambda>_. row) (kd_contacts db)) =
      map pc_external_id (kd_contacts db)"
    by (rule map_update_where) (use only same(1) in blast)
  have "\<forall>x \<in> set (update_where (\<lambda>x. kr_id x = kr_id row) (\<lambda>_. row) (kd_contacts db)).
      kr_id x < kd_next_contact db \<and> contact_check x"
    using inv r same(2) assms(5) by (auto simp: contacts_inv_def set_update_where)
  then show "contacts_inv (store_contact_row row db)"
    using inv unfolding contacts_inv_def rows ids exts by blast
  show "kr_id ` set (kd_contacts (store_contact_row row db)) = kr_id ` set (kd_contacts db)"
    unfolding rows by (metis ids set_map)
  show "kd_hydrations (store_contact_row row db) = kd_hydrations db" by (simp add: store_contact_row_def)
qed

lemma merge_contact_keys [simp]:
  "pc_external_id (merge_contact c source observed now r) = pc_external_id r"
  "kr_id (merge_contact c source observed now r) = kr_id r"
  by (simp_all add: merge_contact_def Let_def)

lemma new_contact_row_keys [simp]:
  "pc_external_id (new_contact_row c source observed now i) = pc_external_id c"
  "kr_id (new_contact_row c source observed now i) = i"
  by (simp_all add: new_contact_row_def)

lemma observed_row_external [simp]: "pc_external_id (observed_row now c source observed db) = pc_external_id c"
  by (auto simp: observed_row_def split: option.split dest: lookup_by_Some)

lemma store_observed:
  assumes "contacts_inv db" and "contact_check (observed_row now c source observed db)"
  shows "contacts_inv (store_contact_row (observed_row now c source observed db) db)"
    and "kr_id ` set (kd_contacts db) \<subseteq> kr_id ` set (kd_contacts (store_contact_row (observed_row now c source observed db) db))"
    and "kd_hydrations (store_contact_row (observed_row now c source observed db) db) = kd_hydrations db"
proof -
  let ?row = "observed_row now c source observed db"
  have "contacts_inv (store_contact_row ?row db) \<and>
    kr_id ` set (kd_contacts db) \<subseteq> kr_id ` set (kd_contacts (store_contact_row ?row db)) \<and>
    kd_hydrations (store_contact_row ?row db) = kd_hydrations db"
  proof (cases "lookup_by pc_external_id (pc_external_id c) (kd_contacts db)")
    case None
    then have "kr_id ?row = kd_next_contact db" by (simp add: observed_row_def)
    then show ?thesis using store_new_row[OF assms(1) _ _ assms(2)] None by auto
  next
    case (Some r)
    then have "r \<in> set (kd_contacts db)" "pc_external_id r = pc_external_id c" by (auto dest: lookup_by_Some)
    moreover have "kr_id ?row = kr_id r" using Some by (simp add: observed_row_def)
    ultimately show ?thesis using store_old_row[OF assms(1) _ _ _ assms(2), of r] by simp
  qed
  then show "contacts_inv (store_contact_row ?row db)"
    "kr_id ` set (kd_contacts db) \<subseteq> kr_id ` set (kd_contacts (store_contact_row ?row db))"
    "kd_hydrations (store_contact_row ?row db) = kd_hydrations db" by simp_all
qed

lemma hydrations_inv_update:
  assumes h: "hydrations_inv db" and ids: "kr_id ` set (kd_contacts db) \<subseteq> kr_id ` set (kd_contacts db')"
    and rows: "kd_hydrations db' = update_where P f (kd_hydrations db)"
    and key: "\<And>h. hy_contact_id (f h) = hy_contact_id h"
    and ok: "\<And>h. h \<in> set (kd_hydrations db) \<Longrightarrow> P h \<Longrightarrow> hydration_ok (f h)"
  shows "hydrations_inv db'"
  unfolding hydrations_inv_def
proof (intro conjI ballI)
  have "map hy_contact_id (kd_hydrations db') = map hy_contact_id (kd_hydrations db)"
    unfolding rows by (rule map_update_where) (rule key)
  then show "distinct (map hy_contact_id (kd_hydrations db'))" using h by (simp add: hydrations_inv_def)
  fix x
  assume "x \<in> set (kd_hydrations db')"
  then obtain y where y: "y \<in> set (kd_hydrations db)" "x = (if P y then f y else y)"
    unfolding rows by (rule update_whereE)
  have hy: "hy_contact_id y \<in> kr_id ` set (kd_contacts db)" "hydration_ok y"
    using h y(1) unfolding hydrations_inv_def by blast+
  have "hy_contact_id x = hy_contact_id y" using y(2) key by simp
  then show "hy_contact_id x \<in> kr_id ` set (kd_contacts db')" using hy(1) ids by auto
  show "hydration_ok x" using y ok hy(2) by (cases "P y") simp_all
qed

lemma hydrations_inv_same:
  assumes h: "hydrations_inv db" and ids: "kr_id ` set (kd_contacts db) \<subseteq> kr_id ` set (kd_contacts db')"
    and rows: "kd_hydrations db' = kd_hydrations db"
  shows "hydrations_inv db'"
  by (rule hydrations_inv_update[OF h ids, of "\<lambda>_. False" "\<lambda>h. h"]) (simp_all add: rows update_where_none)

lemma settle_ok [simp]: "hydration_ok h \<Longrightarrow> hydration_ok (settle_hydration now h)"
  by (simp add: hydration_ok_def hydration_check_def settle_hydration_def)

lemma settle_id [simp]: "hy_contact_id (settle_hydration now h) = hy_contact_id h"
  by (simp add: settle_hydration_def)

lemma upsert_cursor_inv:
  assumes inv: "contact_inv db" and run: "upsert_contact_cursor now c source observed db = Inr (row, db')"
  shows "contact_inv db'"
proof -
  let ?row = "observed_row now c source observed db" and ?db1 = "store_contact_row (observed_row now c source observed db) db"
  have ok: "contact_check ?row" using run by (auto simp: upsert_contact_cursor_def Let_def split: if_splits)
  have c: "contacts_inv db" and h: "hydrations_inv db" using inv by (simp_all add: contact_inv_def)
  note st = store_observed[OF c ok]
  have h1: "hydrations_inv ?db1" by (rule hydrations_inv_same[OF h st(2,3)])
  show ?thesis
  proof (cases "source = ''ticket_webhook''")
    case True
    then have db': "db' = ?db1\<lparr>kd_hydrations :=
        update_where (\<lambda>h. hy_contact_id h = kr_id ?row) (settle_hydration now) (kd_hydrations ?db1)\<rparr>"
      using run ok True unfolding upsert_contact_cursor_def Let_def by auto
    have "hydrations_inv db'"
      by (rule hydrations_inv_update[OF h1, of db' "\<lambda>h. hy_contact_id h = kr_id ?row" "settle_hydration now"])
        (use h1 in \<open>auto simp: db' hydrations_inv_def\<close>)
    moreover have "contacts_inv db'" using st(1) by (simp add: db' contacts_inv_def)
    ultimately show ?thesis by (simp add: contact_inv_def)
  next
    case False
    then have "db' = ?db1" using run ok unfolding upsert_contact_cursor_def Let_def by auto
    then show ?thesis using st(1) h1 by (simp add: contact_inv_def)
  qed
qed

lemma publish_contacts_inv:
  "contact_inv db \<Longrightarrow> publish_contacts now observed cs db = Inr db' \<Longrightarrow> contact_inv db'"
proof (induction cs arbitrary: db)
  case (Cons c cs)
  obtain row db1 where u: "upsert_contact_cursor now c ''contacts_backfill'' observed db = Inr (row, db1)"
    "publish_contacts now observed cs db1 = Inr db'"
    using Cons.prems(2) by (auto simp: on_value_Inr)
  show ?case by (rule Cons.IH[OF upsert_cursor_inv[OF Cons.prems(1) u(1)] u(2)])
qed simp

lemma reference_inv:
  assumes inv: "contact_inv db"
  shows "contact_inv (snd (request_hydration now py_now external_id requested_at db))"
proof (cases "py_strip external_id = []")
  case True
  then show ?thesis using inv by (simp add: request_hydration_def)
next
  case False
  let ?e = "py_strip external_id" and ?t = "coalesce requested_at py_now"
  let ?row = "referenced_row now ?e ?t db"
  let ?db1 = "store_contact_row ?row db"
  have c: "contacts_inv db" and h: "hydrations_inv db" using inv by (simp_all add: contact_inv_def)
  have e: "btrim ?e \<noteq> []" using False strip_nonblank[of ?e] by (metis py_strip_idem)
  have st: "contacts_inv ?db1 \<and> kr_id ` set (kd_contacts db) \<subseteq> kr_id ` set (kd_contacts ?db1) \<and>
      kr_id ?row \<in> kr_id ` set (kd_contacts ?db1) \<and> kd_hydrations ?db1 = kd_hydrations db"
  proof (cases "lookup_by pc_external_id ?e (kd_contacts db)")
    case None
    have "btrim ''message_reference'' \<noteq> []" by code_simp
    then have "contact_check ?row" using None e by (simp add: referenced_row_def placeholder_def contact_check_def digits_text_def)
    moreover have "pc_external_id ?row = ?e" "kr_id ?row = kd_next_contact db"
      using None by (simp_all add: referenced_row_def placeholder_def)
    ultimately show ?thesis using store_new_row[OF c, of ?row] None by auto
  next
    case (Some r)
    have r: "r \<in> set (kd_contacts db)" "pc_external_id r = ?e" using lookup_by_Some[OF Some] by simp_all
    have row: "pc_external_id ?row = pc_external_id r" "kr_id ?row = kr_id r" "contact_check ?row = contact_check r"
      using Some by (simp_all add: referenced_row_def contact_check_def)
    have "contact_check ?row" using c r(1) row(3) by (simp add: contacts_inv_def)
    from store_old_row[OF c r(1) row(1,2) this] show ?thesis using r(1) row(2) by auto
  qed
  have h1: "hydrations_inv ?db1" using hydrations_inv_same[OF h] st by blast
  let ?d = "request_decision py_now ?row (lookup_by hy_contact_id (kr_id ?row) (kd_hydrations ?db1))"
  show ?thesis
  proof (cases "?d = Requested")
    case False
    then have "snd (request_hydration now py_now external_id requested_at db) = ?db1"
      using \<open>py_strip external_id \<noteq> []\<close> unfolding request_hydration_def Let_def by simp
    then show ?thesis using st h1 by (simp add: contact_inv_def)
  next
    case True
    then have none: "lookup_by hy_contact_id (kr_id ?row) (kd_hydrations ?db1) = None"
      by (auto simp: request_decision_def split: option.splits hydration_status.splits if_splits)
    let ?db2 = "?db1\<lparr>kd_hydrations := kd_hydrations ?db1 @ [new_hydration (kr_id ?row) ?t]\<rparr>"
    have run: "snd (request_hydration now py_now external_id requested_at db) = ?db2"
      using True \<open>py_strip external_id \<noteq> []\<close> unfolding request_hydration_def Let_def by simp
    have "hydration_ok (new_hydration (kr_id ?row) ?t)"
      by (simp add: hydration_ok_def hydration_check_def new_hydration_def)
    moreover have "hy_contact_id (new_hydration (kr_id ?row) ?t) = kr_id ?row" by (simp add: new_hydration_def)
    ultimately have "hydrations_inv ?db2"
      using h1 st none by (simp add: hydrations_inv_def lookup_by_None)
    moreover have "contacts_inv ?db2" using st by (simp add: contacts_inv_def)
    ultimately show ?thesis unfolding run by (simp add: contact_inv_def)
  qed
qed

lemma claim_hydration_cases:
  obtains "claim_hydration_tx now locked lease db = (None, db)"
      "\<And>h. h \<in> set (joined_hydrations db) \<Longrightarrow> hy_contact_id h \<notin> locked \<Longrightarrow> \<not> hydration_claimable now h"
  | h where "h \<in> set (joined_hydrations db)" "hydration_claimable now h" "hy_contact_id h \<notin> locked"
      "claim_hydration_tx now locked lease db = (Some (claimed_hydration now lease h),
        db\<lparr>kd_hydrations := update_where (\<lambda>x. hy_contact_id x = hy_contact_id h)
          (\<lambda>_. claimed_hydration now lease h) (kd_hydrations db)\<rparr>)"
proof (cases "fetchone (select_limit 1 hydration_order
    (\<lambda>h. hydration_claimable now h \<and> hy_contact_id h \<notin> locked) (joined_hydrations db))")
  case None
  have "claim_hydration_tx now locked lease db = (None, db)" unfolding claim_hydration_tx_def None by simp
  then show thesis by (rule that(1)) (use None in auto)
next
  case (Some h)
  show thesis
    by (rule that(2)[of h])
      (use Some select_limit_1_min(1,2)[OF Some] in \<open>simp_all add: claim_hydration_tx_def Let_def\<close>)
qed

lemma joined_in: "h \<in> set (joined_hydrations db) \<Longrightarrow> h \<in> set (kd_hydrations db)"
  by (simp add: joined_hydrations_def)

lemma claimed_ok: "hydration_ok h \<Longrightarrow> hydration_ok (claimed_hydration now lease h)"
  by (simp add: hydration_ok_def hydration_check_def claimed_hydration_def)

lemma claimed_id [simp]: "hy_contact_id (claimed_hydration now lease h) = hy_contact_id h"
  by (simp add: claimed_hydration_def)

lemma update_one_as_map:
  assumes "distinct (map key t)" and "r \<in> set t"
  shows "update_where (\<lambda>x. key x = key r) (\<lambda>_. f r) t = update_where (\<lambda>x. key x = key r) f t"
  using distinct_key_eq[OF assms(1) _ assms(2)] by (auto simp: update_where_def)

lemma hydrations_write_inv:
  assumes inv: "contact_inv db" and key: "\<And>h. hy_contact_id (f h) = hy_contact_id h"
    and ok: "\<And>h. hydration_ok h \<Longrightarrow> hydration_ok (f h)"
  shows "contact_inv (db\<lparr>kd_hydrations := update_where P f (kd_hydrations db)\<rparr>)"
proof -
  let ?db' = "db\<lparr>kd_hydrations := update_where P f (kd_hydrations db)\<rparr>"
  have h: "hydrations_inv db" using inv by (simp add: contact_inv_def)
  have "hydrations_inv ?db'"
    by (rule hydrations_inv_update[OF h, of ?db' P f]) (use h key ok in \<open>auto simp: hydrations_inv_def\<close>)
  then show ?thesis using inv by (simp add: contact_inv_def contacts_inv_def)
qed

lemma claim_tx_inv:
  assumes inv: "contact_inv db"
  shows "contact_inv (snd (claim_hydration_tx now locked lease db))"
proof (cases rule: claim_hydration_cases[of now locked lease db])
  case 1
  then show ?thesis using inv by simp
next
  case (2 h)
  have d: "distinct (map hy_contact_id (kd_hydrations db))"
    using inv by (simp add: contact_inv_def hydrations_inv_def)
  have "contact_inv (db\<lparr>kd_hydrations := update_where (\<lambda>x. hy_contact_id x = hy_contact_id h)
      (claimed_hydration now lease) (kd_hydrations db)\<rparr>)"
    by (rule hydrations_write_inv[OF inv claimed_id claimed_ok])
  then show ?thesis
    unfolding 2(4) snd_conv update_one_as_map[OF d joined_in[OF 2(1)], of "claimed_hydration now lease"] .
qed

lemma claim_contact_state:
  "snd (claim_digisac_contact_hydration now locked lease db) =
    (if lease \<le> 0 then db else snd (claim_hydration_tx now locked lease db))"
  by (auto simp: claim_digisac_contact_hydration_def split: prod.split option.split)

lemma safe_failure_category_ok:
  "safe_failure_category s \<noteq> [] \<and> list_all failure_category_char (safe_failure_category s)"
proof -
  have u: "list_all failure_category_char ''unknown''" by code_simp
  have "failure_category_char c" if "c \<in> set (take 80 (filter failure_category_char (py_lower s)))" for c
    using in_set_takeD[OF that] by simp
  then have "list_all failure_category_char (take 80 (filter failure_category_char (py_lower s)))"
    unfolding list_all_iff by blast
  moreover have "cs \<noteq> [] \<and> list_all failure_category_char cs"
    if "cs = (if ds = [] then ''unknown'' else ds)" "list_all failure_category_char ds" for cs ds
    using that u by (cases "ds = []") simp_all
  ultimately show ?thesis unfolding safe_failure_category_def Let_def by blast
qed

lemma failed_ok: "hydration_ok h \<Longrightarrow> hydration_ok (failed_hydration t (safe_failure_category s) h)"
  using safe_failure_category_ok[of s]
  by (simp add: hydration_ok_def hydration_check_def failed_hydration_def)

lemma succeeded_ok: "hydration_ok h \<Longrightarrow> hydration_ok (succeeded_hydration now h)"
  by (simp add: hydration_ok_def hydration_check_def succeeded_hydration_def)

lemma report_ids [simp]:
  "hy_contact_id (failed_hydration t s h) = hy_contact_id h"
  "hy_contact_id (succeeded_hydration now h) = hy_contact_id h"
  by (simp_all add: failed_hydration_def succeeded_hydration_def)

lemma contact_step_inv:
  assumes inv: "contact_inv db"
  shows "contact_inv (contact_step op db)"
proof (cases op)
  case (Upsert now py_now c source observed)
  have "contact_inv (snd (transaction db (upsert_contact_cursor now c s t db)))" for s t
    by (rule transaction_keeps[where I = contact_inv, OF inv]) (rule upsert_cursor_inv[OF inv])
  then show ?thesis using inv Upsert by (simp add: upsert_digisac_contact_def Let_def)
next
  case (Publish now py_now cs observed)
  have "contact_inv (snd (publish_digisac_contact_backfill now py_now cs observed db))"
    unfolding publish_digisac_contact_backfill_def
    by (rule transaction_keeps[where I = contact_inv, OF inv]) (auto simp: on_value_Inr intro: publish_contacts_inv[OF inv])
  then show ?thesis using Publish by simp
next
  case (Reference now py_now external_id requested)
  then show ?thesis using reference_inv[OF inv] by simp
next
  case (Claim_Hydration now locked lease)
  then show ?thesis using claim_tx_inv[OF inv] inv by (simp add: claim_contact_state)
next
  case (Report_Success now external_id expected)
  then show ?thesis using hydrations_write_inv[OF inv] by (simp add: mark_hydration_success_def succeeded_ok)
next
  case (Report_Failure py_now retry_base limit external_id category retryable expected)
  then show ?thesis using hydrations_write_inv[OF inv] inv
    by (simp add: mark_hydration_failure_def Let_def failed_ok split: option.split)
qed

lemma empty_contact_inv: "contact_inv empty_contact_db"
  by (simp add: contact_inv_def contacts_inv_def hydrations_inv_def empty_contact_db_def)

lemma contact_reachable_invariant: "contact_reachable db \<Longrightarrow> contact_inv db"
  by (induction rule: contact_reachable.induct) (simp_all add: empty_contact_inv contact_step_inv)

section \<open>Refinement of a register of contacts\<close>

text \<open>
  What is known of a contact, without the bookkeeping of the row.  A dated observation overrides what it
  gives, an undated one only fills gaps of a dated contact, an older one changes nothing.
\<close>

definition learn_contact :: "digisac_contact_data \<Rightarrow> digisac_contact_data \<Rightarrow> digisac_contact_data" where
  "learn_contact c old =
    (if observed_older c (pc_provider_updated_at old) then old
     else if observed_unordered c (pc_provider_updated_at old) then override_contact old c
     else override_contact c old)"

definition contact_data_check :: "digisac_contact_data \<Rightarrow> bool" where
  "contact_data_check d \<longleftrightarrow> btrim (pc_external_id d) \<noteq> [] \<and> digits_text (pc_normalized_number d) \<and>
    (case pc_normalized_email d of None \<Rightarrow> True | Some s \<Rightarrow> btrim s \<noteq> [])"

type_synonym contact_register = "string \<Rightarrow> digisac_contact_data option"

definition observe_contact :: "digisac_contact_data \<Rightarrow> contact_register \<Rightarrow> contact_register option" where
  "observe_contact c k =
    (let d = (case k (pc_external_id c) of None \<Rightarrow> c | Some old \<Rightarrow> (learn_contact c old))
     in if contact_data_check d then Some (k(pc_external_id c \<mapsto> d)) else None)"

fun observe_contacts :: "digisac_contact_data list \<Rightarrow> contact_register \<Rightarrow> contact_register option" where
  "observe_contacts [] k = Some k"
| "observe_contacts (c # cs) k = Option.bind (observe_contact c k) (observe_contacts cs)"

definition blank_contact :: "string \<Rightarrow> digisac_contact_data" where
  "blank_contact e =
    \<lparr>pc_external_id = e, pc_name = None, pc_alternative_name = None, pc_internal_name = None,
     pc_raw_number = None, pc_normalized_number = None, pc_raw_email = None, pc_normalized_email = None,
     pc_is_group = None, pc_account_id = None, pc_service_id = None, pc_provider_created_at = None,
     pc_provider_updated_at = None, pc_provider_deleted_at = None\<rparr>"

fun register_step :: "contact_op \<Rightarrow> contact_register \<Rightarrow> contact_register" where
  "register_step (Upsert now py_now c source observed) k =
    (if py_strip source = [] then k else coalesce (observe_contact c k) k)"
| "register_step (Publish now py_now cs observed) k = coalesce (observe_contacts (unique_contacts cs) k) k"
| "register_step (Reference now py_now external_id requested) k =
    (let e = py_strip external_id in if e = [] \<or> k e \<noteq> None then k else k(e \<mapsto> blank_contact e))"
| "register_step _ k = k"

definition contact_knowledge :: "contact_db \<Rightarrow> contact_register" where
  "contact_knowledge db e = map_option digisac_contact_data.truncate (lookup_by pc_external_id e (kd_contacts db))"

lemma lookup_replace:
  assumes "distinct (map k t)" and "distinct (map i t)" and "r \<in> set t" and "k row = k r" and "i row = i r"
  shows "lookup_by k e (update_where (\<lambda>x. i x = i row) (\<lambda>_. row) t) = (if e = k row then Some row else lookup_by k e t)"
  using assms
proof (induction t)
  case (Cons a t)
  show ?case
  proof (cases "a = r")
    case True
    have "i r \<notin> i ` set t" using Cons.prems(2) True by simp
    then have "i x \<noteq> i row" if "x \<in> set t" for x using Cons.prems(5) that by (metis image_eqI)
    then have "update_where (\<lambda>x. i x = i row) (\<lambda>_. row) t = t" by (rule update_where_none)
    then show ?thesis using True Cons.prems(4,5) by simp
  next
    case False
    then have r: "r \<in> set t" using Cons.prems(3) by simp
    have "i a \<notin> i ` set t" "k a \<notin> k ` set t" using Cons.prems(1,2) by simp_all
    then have "i a \<noteq> i row" "k a \<noteq> k row" using Cons.prems(4,5) r by (metis image_eqI)+
    then show ?thesis using Cons.IH[OF _ _ r Cons.prems(4,5)] Cons.prems(1,2) by (cases "e = k row") simp_all
  qed
qed simp

lemma lookup_store:
  assumes "contacts_inv db"
    and "\<And>r. lookup_by pc_external_id (pc_external_id row) (kd_contacts db) = Some r \<Longrightarrow> kr_id row = kr_id r"
  shows "lookup_by pc_external_id e (kd_contacts (store_contact_row row db)) =
    (if e = pc_external_id row then Some row else lookup_by pc_external_id e (kd_contacts db))"
proof (cases "lookup_by pc_external_id (pc_external_id row) (kd_contacts db)")
  case None
  then show ?thesis by (simp add: store_contact_row_def lookup_by_append split: option.split)
next
  case (Some r)
  have "r \<in> set (kd_contacts db)" "pc_external_id row = pc_external_id r" using lookup_by_Some[OF Some] by simp_all
  then show ?thesis
    using lookup_replace[of pc_external_id "kd_contacts db" kr_id r row e] assms(1) assms(2)[OF Some] Some
    by (simp add: store_contact_row_def contacts_inv_def)
qed

lemma knowledge_store:
  assumes "contacts_inv db"
    and "\<And>r. lookup_by pc_external_id (pc_external_id row) (kd_contacts db) = Some r \<Longrightarrow> kr_id row = kr_id r"
  shows "contact_knowledge (store_contact_row row db) =
    (contact_knowledge db)(pc_external_id row \<mapsto> digisac_contact_data.truncate row)"
  by (rule ext) (simp add: contact_knowledge_def lookup_store[OF assms])

lemma knowledge_hydrations [simp]:
  "contact_knowledge (db\<lparr>kd_hydrations := hs\<rparr>) = contact_knowledge db"
  by (rule ext) (simp add: contact_knowledge_def)

lemma truncate_data [simp]: "digisac_contact_data.truncate c = (c :: digisac_contact_data)"
  by (simp add: digisac_contact_data.defs)

lemma truncate_new: "digisac_contact_data.truncate (new_contact_row c source observed now i) = c"
  by (simp add: digisac_contact_data.defs new_contact_row_def)

lemma merge_field_cases:
  "merge_field True u x y = y" "merge_field False True x y = coalesce_opt y x"
  "merge_field False False x y = coalesce_opt x y"
  by (auto simp: merge_field_def coalesce_opt_def split: option.split)

lemma truncate_merge:
  assumes True: "pc_external_id c = pc_external_id r"
  shows "digisac_contact_data.truncate (merge_contact c source observed now r) =
    learn_contact c (digisac_contact_data.truncate r)"
proof -
  let ?old = "pc_provider_updated_at r"
  have u: "merge_updated_at ?old (pc_provider_updated_at c)
      (merge_field (observed_older c ?old) (observed_unordered c ?old) (pc_provider_updated_at c) ?old) =
    (if observed_older c ?old then ?old else coalesce_opt (pc_provider_updated_at c) ?old)"
    by (auto simp: merge_updated_at_def observed_older_def observed_unordered_def merge_field_def split: option.splits)
  consider "observed_older c ?old" | "\<not> observed_older c ?old" "observed_unordered c ?old"
    | "\<not> observed_older c ?old" "\<not> observed_unordered c ?old" by blast
  then show ?thesis
  proof cases
    case 1
    then show ?thesis using True u
      by (simp add: merge_contact_def learn_contact_def digisac_contact_data.defs Let_def merge_field_cases)
  next
    case 2
    then have "pc_provider_updated_at c = None" by (simp add: observed_unordered_def)
    then show ?thesis using True u 2
      by (simp add: merge_contact_def learn_contact_def override_contact_def digisac_contact_data.defs Let_def merge_field_cases)
  next
    case 3
    then show ?thesis using True u
      by (simp add: merge_contact_def learn_contact_def override_contact_def digisac_contact_data.defs Let_def merge_field_cases)
  qed
qed

lemma observed_row_known:
  "digisac_contact_data.truncate (observed_row now c source observed db) =
    (case contact_knowledge db (pc_external_id c) of None \<Rightarrow> c | Some old \<Rightarrow> learn_contact c old)"
proof (cases "lookup_by pc_external_id (pc_external_id c) (kd_contacts db)")
  case None
  then show ?thesis by (simp add: observed_row_def contact_knowledge_def truncate_new)
next
  case (Some r)
  then have "pc_external_id c = pc_external_id r" using lookup_by_Some by fastforce
  then show ?thesis using Some by (simp add: observed_row_def contact_knowledge_def truncate_merge)
qed

lemma contact_check_data:
  "contact_check r \<longleftrightarrow> contact_data_check (digisac_contact_data.truncate r) \<and> btrim (kr_last_source r) \<noteq> []"
  by (auto simp: contact_check_def contact_data_check_def digisac_contact_data.defs)

lemma observed_row_source:
  assumes "contacts_inv db" and "btrim source \<noteq> []"
  shows "btrim (kr_last_source (observed_row now c source observed db)) \<noteq> []"
proof (cases "lookup_by pc_external_id (pc_external_id c) (kd_contacts db)")
  case None
  then show ?thesis using assms(2) by (simp add: observed_row_def new_contact_row_def)
next
  case (Some r)
  then have "btrim (kr_last_source r) \<noteq> []"
    using assms(1) lookup_by_Some[OF Some] by (simp add: contacts_inv_def contact_check_def)
  then show ?thesis using Some assms(2) by (simp add: observed_row_def merge_contact_def Let_def)
qed

text \<open>An upsert is the observation of the register, its failures included.\<close>

lemma upsert_cursor_refines:
  assumes inv: "contacts_inv db" and "btrim source \<noteq> []"
  shows "case upsert_contact_cursor now c source observed db of
      Inl e \<Rightarrow> observe_contact c (contact_knowledge db) = None
    | Inr (row, db') \<Rightarrow> observe_contact c (contact_knowledge db) = Some (contact_knowledge db')"
proof -
  let ?row = "observed_row now c source observed db"
  have check: "contact_check ?row \<longleftrightarrow> contact_data_check (digisac_contact_data.truncate ?row)"
    using observed_row_source[OF assms] by (simp add: contact_check_data)
  have id: "kr_id ?row = kr_id r"
    if "lookup_by pc_external_id (pc_external_id ?row) (kd_contacts db) = Some r" for r
    using that unfolding observed_row_external by (simp add: observed_row_def)
  have know: "contact_knowledge (store_contact_row ?row db) =
      (contact_knowledge db)(pc_external_id c \<mapsto> digisac_contact_data.truncate ?row)"
    using knowledge_store[OF inv id] by simp
  have "observe_contact c (contact_knowledge db) =
    (if contact_check ?row then Some (contact_knowledge (store_contact_row ?row db)) else None)"
    unfolding observe_contact_def Let_def check know observed_row_known ..
  then show ?thesis by (simp add: upsert_contact_cursor_def Let_def)
qed

lemma publish_refines:
  "contact_inv db \<Longrightarrow> case publish_contacts now observed cs db of
      Inl e \<Rightarrow> observe_contacts cs (contact_knowledge db) = None
    | Inr db' \<Rightarrow> observe_contacts cs (contact_knowledge db) = Some (contact_knowledge db')"
proof (induction cs arbitrary: db)
  case (Cons c cs)
  have src: "btrim ''contacts_backfill'' \<noteq> []" by code_simp
  have inv: "contacts_inv db" using Cons.prems by (simp add: contact_inv_def)
  note up = upsert_cursor_refines[OF inv src, where now = now and c = c and observed = observed]
  show ?case
  proof (cases "upsert_contact_cursor now c ''contacts_backfill'' observed db")
    case (Inl e)
    then show ?thesis using up by simp
  next
    case (Inr p)
    obtain row db1 where p: "p = (row, db1)" by fastforce
    show ?thesis
      using up Cons.IH[OF upsert_cursor_inv[OF Cons.prems Inr[unfolded p]]]
      by (cases "publish_contacts now observed cs db1") (simp_all add: Inr p)
  qed
qed simp

lemma reference_refines:
  assumes inv: "contacts_inv db"
  shows "contact_knowledge (snd (request_hydration now py_now external_id requested_at db)) =
    register_step (Reference now py_now external_id requested_at) (contact_knowledge db)"
proof (cases "py_strip external_id = []")
  case True
  then show ?thesis by (simp add: request_hydration_def)
next
  case False
  let ?e = "py_strip external_id" and ?t = "coalesce requested_at py_now"
  let ?row = "referenced_row now ?e ?t db"
  have ext: "pc_external_id ?row = ?e"
    by (auto simp: referenced_row_def placeholder_def split: option.split dest: lookup_by_Some)
  have id: "kr_id ?row = kr_id r"
    if "lookup_by pc_external_id (pc_external_id ?row) (kd_contacts db) = Some r" for r
    using that unfolding ext by (simp add: referenced_row_def)
  have "contact_knowledge (store_contact_row ?row db) = (contact_knowledge db)(?e \<mapsto> digisac_contact_data.truncate ?row)"
    using knowledge_store[OF inv id] unfolding ext by simp
  moreover have "digisac_contact_data.truncate ?row =
      (case contact_knowledge db ?e of None \<Rightarrow> blank_contact ?e | Some d \<Rightarrow> d)"
    by (simp add: referenced_row_def contact_knowledge_def placeholder_def blank_contact_def digisac_contact_data.defs
        split: option.split)
  moreover have "contact_knowledge (snd (request_hydration now py_now external_id requested_at db)) =
      contact_knowledge (store_contact_row ?row db)"
    using False unfolding request_hydration_def Let_def by simp
  ultimately show ?thesis using False by (auto simp: Let_def split: option.split)
qed

lemma contacts_refine_step:
  assumes "contact_reachable db"
  shows "contact_knowledge (contact_step op db) = register_step op (contact_knowledge db)"
proof -
  have inv: "contact_inv db" and c: "contacts_inv db"
    using contact_reachable_invariant[OF assms] by (simp_all add: contact_inv_def)
  show ?thesis
  proof (cases op)
    case (Upsert now py_now c source observed)
    show ?thesis
    proof (cases "py_strip source = []")
      case False
      have "btrim (py_strip source) \<noteq> []" using False strip_nonblank by (metis py_strip_idem)
      from upsert_cursor_refines[OF \<open>contacts_inv db\<close> this, where now = now and c = c and observed = "coalesce observed py_now"]
      show ?thesis using False Upsert
        by (cases "upsert_contact_cursor now c (py_strip source) (coalesce observed py_now) db")
          (auto simp: upsert_digisac_contact_def Let_def)
    qed (simp add: Upsert upsert_digisac_contact_def)
  next
    case (Publish now py_now cs observed)
    show ?thesis
      using publish_refines[OF inv, where now = now and observed = "coalesce observed py_now" and cs = "unique_contacts cs"] Publish
      by (cases "publish_contacts now (coalesce observed py_now) (unique_contacts cs) db")
        (simp_all add: publish_digisac_contact_backfill_def)
  next
    case (Reference now py_now external_id requested)
    then show ?thesis using reference_refines[OF c] by (simp only: contact_step.simps)
  next
    case (Claim_Hydration now locked lease)
    then show ?thesis
      by (cases rule: claim_hydration_cases[of now locked lease db]) (simp_all add: claim_contact_state)
  qed (simp_all add: mark_hydration_success_def mark_hydration_failure_def Let_def split: option.split)
qed


section \<open>Observations in any order\<close>

text \<open>Two observations of one contact give the same fields.\<close>

definition same_fields :: "digisac_contact_data \<Rightarrow> digisac_contact_data \<Rightarrow> bool" where
  "same_fields c d \<longleftrightarrow> override_contact c d = c \<and> override_contact d c = d"

definition dated :: "digisac_contact_data \<Rightarrow> time" where
  "dated c = coalesce (pc_provider_updated_at c) 0"

lemma learn_dated:
  assumes "same_fields c old" and "pc_provider_updated_at c \<noteq> None" and "pc_provider_updated_at old \<noteq> None"
  shows "learn_contact c old = (if dated c < dated old then old else c)"
  using assms by (auto simp: learn_contact_def same_fields_def observed_older_def observed_unordered_def dated_def)

type_synonym observation = "time \<times> time \<times> digisac_contact_data \<times> string \<times> time option"

definition observation_data :: "observation \<Rightarrow> digisac_contact_data" where
  "observation_data x = (case x of (now, py_now, c, source, seen) \<Rightarrow> c)"

definition observation_ok :: "string \<Rightarrow> observation \<Rightarrow> bool" where
  "observation_ok e x = (case x of (now, py_now, c, source, seen) \<Rightarrow>
    pc_external_id c = e \<and> pc_provider_updated_at c \<noteq> None \<and> contact_data_check c \<and> py_strip source \<noteq> [])"

definition observe_all :: "observation list \<Rightarrow> contact_db \<Rightarrow> contact_db" where
  "observe_all xs db = fold (\<lambda>(now, py_now, c, source, seen). contact_step (Upsert now py_now c source seen)) xs db"

lemma observe_all_simps:
  "observe_all [] db = db"
  "observe_all ((now, py_now, c, source, seen) # xs) db =
    observe_all xs (contact_step (Upsert now py_now c source seen) db)"
  by (simp_all add: observe_all_def)

lemma observe_known:
  assumes "contact_reachable db" and "observation_ok e (now, py_now, c, source, seen)"
    and "contact_data_check (case contact_knowledge db e of None \<Rightarrow> c | Some old \<Rightarrow> learn_contact c old)"
  shows "contact_knowledge (contact_step (Upsert now py_now c source seen) db) e =
    Some (case contact_knowledge db e of None \<Rightarrow> c | Some old \<Rightarrow> learn_contact c old)"
proof -
  have ok: "pc_external_id c = e" "py_strip source \<noteq> []" using assms(2) by (simp_all add: observation_ok_def)
  let ?d = "case contact_knowledge db e of None \<Rightarrow> c | Some old \<Rightarrow> learn_contact c old"
  have "observe_contact c (contact_knowledge db) = Some ((contact_knowledge db)(e \<mapsto> ?d))"
    using assms(3) by (simp add: observe_contact_def ok(1))
  then show ?thesis
    using contacts_refine_step[OF assms(1), of "Upsert now py_now c source seen"] ok(2) by simp
qed

lemma observe_all_newest:
  assumes "contact_reachable db" and "contact_knowledge db e = Some old"
    and "contact_data_check old" and "pc_provider_updated_at old \<noteq> None"
    and "\<forall>x \<in> set xs. observation_ok e x"
    and "\<forall>c \<in> insert old (observation_data ` set xs). \<forall>d \<in> insert old (observation_data ` set xs). same_fields c d"
  shows "\<exists>m \<in> insert old (observation_data ` set xs). contact_knowledge (observe_all xs db) e = Some m \<and>
    (\<forall>d \<in> insert old (observation_data ` set xs). dated d \<le> dated m)"
  using assms
proof (induction xs arbitrary: db old)
  case Nil
  then show ?case by (simp add: observe_all_simps)
next
  case (Cons x xs)
  obtain now py_now c source seen where x: "x = (now, py_now, c, source, seen)" by (metis prod_cases5)
  have c: "observation_data x = c" by (simp add: x observation_data_def)
  have ok: "observation_ok e (now, py_now, c, source, seen)" using Cons.prems(5) x by simp
  have cd: "contact_data_check c" "pc_provider_updated_at c \<noteq> None" using ok by (simp_all add: observation_ok_def)
  have "same_fields c old" using Cons.prems(6) c by simp
  then have learn: "learn_contact c old = (if dated c < dated old then old else c)"
    by (rule learn_dated[OF _ cd(2) Cons.prems(4)])
  let ?db = "contact_step (Upsert now py_now c source seen) db" and ?m = "if dated c < dated old then old else c"
  have reach: "contact_reachable ?db" by (rule contact_next[OF Cons.prems(1)])
  have know: "contact_knowledge ?db e = Some ?m"
    using observe_known[OF Cons.prems(1) ok] Cons.prems(2,3) cd(1) learn by simp
  have m: "contact_data_check ?m" "pc_provider_updated_at ?m \<noteq> None"
    using Cons.prems(3,4) cd by simp_all
  have sub: "insert ?m (observation_data ` set xs) \<subseteq> insert old (observation_data ` set (x # xs))"
    using c by auto
  have "\<forall>a \<in> insert ?m (observation_data ` set xs). \<forall>b \<in> insert ?m (observation_data ` set xs). same_fields a b"
    using Cons.prems(6) sub by (meson subsetD)
  moreover have "\<forall>x \<in> set xs. observation_ok e x" using Cons.prems(5) by simp
  ultimately obtain n where n: "n \<in> insert ?m (observation_data ` set xs)"
    "contact_knowledge (observe_all xs ?db) e = Some n"
    "\<forall>d \<in> insert ?m (observation_data ` set xs). dated d \<le> dated n"
    using Cons.IH[OF reach know m] by blast
  have "dated old \<le> dated ?m" "dated c \<le> dated ?m" by simp_all
  moreover have "dated ?m \<le> dated n" using n(3) by blast
  ultimately have "dated old \<le> dated n" "dated c \<le> dated n" by (blast intro: order_trans)+
  then have "\<forall>d \<in> insert old (observation_data ` set (x # xs)). dated d \<le> dated n"
    using n(3) c by auto
  moreover have "contact_knowledge (observe_all (x # xs) db) e = Some n" using n(2) x by (simp add: observe_all_simps)
  moreover have "n \<in> insert old (observation_data ` set (x # xs))" using n(1) sub by blast
  ultimately show ?case by blast
qed

text \<open>C31: Observations of a contact converge: dated observations that give the same fields leave what the newest
  of them says, in whatever order they arrive and from whatever source.\<close>
theorem observations_converge:
  assumes "contact_reachable db" and "contact_knowledge db e = None" and "\<forall>x \<in> set xs. observation_ok e x"
    and "\<forall>x \<in> set xs. \<forall>y \<in> set xs. same_fields (observation_data x) (observation_data y)"
    and "newest \<in> observation_data ` set xs"
    and "\<forall>x \<in> set xs. observation_data x = newest \<or> dated (observation_data x) < dated newest"
  shows "contact_knowledge (observe_all xs db) e = Some newest"
proof (cases xs)
  case Nil
  then show ?thesis using assms(5) by simp
next
  case (Cons x ys)
  obtain now py_now c source seen where x: "x = (now, py_now, c, source, seen)" by (metis prod_cases5)
  have c: "observation_data x = c" by (simp add: x observation_data_def)
  have ok: "observation_ok e (now, py_now, c, source, seen)" using assms(3) x Cons by simp
  have cd: "contact_data_check c" "pc_provider_updated_at c \<noteq> None" using ok by (simp_all add: observation_ok_def)
  let ?db = "contact_step (Upsert now py_now c source seen) db"
  have know: "contact_knowledge ?db e = Some c" using observe_known[OF assms(1) ok] assms(2) cd(1) by simp
  have all: "insert c (observation_data ` set ys) = observation_data ` set xs" using Cons c by simp
  have "\<forall>a \<in> insert c (observation_data ` set ys). \<forall>b \<in> insert c (observation_data ` set ys). same_fields a b"
    unfolding all using assms(4) by blast
  moreover have "\<forall>y \<in> set ys. observation_ok e y" using assms(3) Cons by simp
  ultimately have "\<exists>m \<in> observation_data ` set xs. contact_knowledge (observe_all ys ?db) e = Some m \<and>
      (\<forall>d \<in> observation_data ` set xs. dated d \<le> dated m)"
    using observe_all_newest[OF contact_next[OF assms(1)] know cd, of ys] unfolding all by simp
  then obtain m where m: "m \<in> observation_data ` set xs"
    "contact_knowledge (observe_all ys ?db) e = Some m"
    "\<forall>d \<in> observation_data ` set xs. dated d \<le> dated m" by (elim bexE conjE)
  have "dated newest \<le> dated m" using m(3) assms(5) by blast
  moreover have "m = newest \<or> dated m < dated newest" using m(1) assms(6) by blast
  ultimately have "m = newest" by auto
  then show ?thesis using m(2) Cons x by (simp add: observe_all_simps)
qed

section \<open>Claims and decisions\<close>

lemma filter_update_key:
  assumes "\<And>x y. key x = key y \<Longrightarrow> P x = P y"
  shows "filter P (update_where (\<lambda>x. key x = key r) (\<lambda>_. r) t) = update_where (\<lambda>x. key x = key r) (\<lambda>_. r) (filter P t)"
proof (induction t)
  case (Cons a t)
  have "key a = key r \<Longrightarrow> P a = P r" by (rule assms)
  then show ?case using Cons.IH by simp
qed simp

lemma joined_update:
  "joined_hydrations (db\<lparr>kd_hydrations := update_where (\<lambda>x. hy_contact_id x = hy_contact_id r) (\<lambda>_. r) (kd_hydrations db)\<rparr>) =
    update_where (\<lambda>x. hy_contact_id x = hy_contact_id r) (\<lambda>_. r) (joined_hydrations db)"
  by (simp add: joined_hydrations_def filter_update_key)

definition hydration_claim_step ::
  "time \<Rightarrow> int set \<Rightarrow> string \<Rightarrow> int \<Rightarrow> contact_db \<Rightarrow> hydration option \<times> contact_db" where
  "hydration_claim_step now locked owner lease db = claim_hydration_tx now locked lease db"

interpretation hydration_work: leased_work joined_hydrations hy_contact_id hydration_claimable
  hydration_claim_step "\<lambda>_ _. True"
proof unfold_locales
  fix db db' now locked owner lease r
  assume d: "distinct (map hy_contact_id (joined_hydrations db))"
    and c: "hydration_claim_step now locked owner lease db = (Some r, db')"
  show "\<exists>r0 \<in> set (joined_hydrations db). hy_contact_id r0 = hy_contact_id r \<and> hydration_claimable now r0 \<and>
      hy_contact_id r0 \<notin> locked \<and>
      joined_hydrations db' = update_where (\<lambda>x. hy_contact_id x = hy_contact_id r) (\<lambda>_. r) (joined_hydrations db)"
  proof (cases rule: claim_hydration_cases[of now locked lease db])
    case 1
    then show ?thesis using c by (simp add: hydration_claim_step_def)
  next
    case (2 h)
    then have r: "r = claimed_hydration now lease h"
      and db': "db' = db\<lparr>kd_hydrations := update_where (\<lambda>x. hy_contact_id x = hy_contact_id r) (\<lambda>_. r) (kd_hydrations db)\<rparr>"
      using c by (auto simp: hydration_claim_step_def)
    show ?thesis unfolding db' joined_update using 2(1-3) r by (intro bexI[of _ h]) simp_all
  qed
  show "\<not> hydration_claimable t r" if "t < now + seconds lease" for t
  proof (cases rule: claim_hydration_cases[of now locked lease db])
    case 1
    then show ?thesis using c by (simp add: hydration_claim_step_def)
  next
    case (2 h)
    then have "r = claimed_hydration now lease h" using c by (simp add: hydration_claim_step_def)
    then show ?thesis using that by (simp add: hydration_claimable_def claimed_hydration_def)
  qed
next
  fix db db' now locked owner lease
  assume c: "hydration_claim_step now locked owner lease db = (None, db')"
  show "joined_hydrations db' = joined_hydrations db"
    using c by (cases rule: claim_hydration_cases[of now locked lease db]) (simp_all add: hydration_claim_step_def)
  show "\<not> hydration_claimable now r" if "r \<in> set (joined_hydrations db)" "hy_contact_id r \<notin> locked" for r
    using c that by (cases rule: claim_hydration_cases[of now locked lease db]) (simp_all add: hydration_claim_step_def)
qed

lemma joined_distinct: "contact_inv db \<Longrightarrow> distinct (map hy_contact_id (joined_hydrations db))"
  by (simp add: joined_hydrations_def contact_inv_def hydrations_inv_def distinct_map_filter)

text \<open>No two workers hydrate one contact at a time: whatever claims are made within a span that every lease
  outlasts, and whatever rows other transactions hold locked, the contacts handed out are distinct.\<close>
theorem hydration_claims_exclusive:
  assumes "contact_reachable db" and "claims_within t0 t1 reqs"
  shows "distinct (map hy_contact_id (fst (run_claims hydration_claim_step reqs db)))"
  by (rule hydration_work.claims_exclusive[OF joined_distinct[OF contact_reachable_invariant[OF assms(1)]] assms(2)])

text \<open>In every reachable state each DigiSac contact has one row and at most one hydration, a hydration has a
  lease exactly while it runs, a successful one has a completion time and no schedule, and a failed one
  names its category.\<close>
theorem contact_reachable_inv:
  assumes "contact_reachable db"
  shows "distinct (map pc_external_id (kd_contacts db)) \<and> distinct (map hy_contact_id (kd_hydrations db)) \<and>
    (\<forall>h \<in> set (kd_hydrations db).
      (\<exists>r \<in> set (kd_contacts db). kr_id r = hy_contact_id h) \<and> 0 \<le> hy_attempt_count h \<and>
      (hy_status h = Hydration_Running \<longleftrightarrow> hy_lease_until h \<noteq> None) \<and>
      (hy_status h = Hydration_Succeeded \<longrightarrow> hy_completed_at h \<noteq> None \<and> hy_next_attempt_at h = None) \<and>
      (hy_status h = Hydration_Failed \<longrightarrow> hy_failure_category h \<noteq> None))"
proof -
  have inv: "contacts_inv db" "hydrations_inv db"
    using contact_reachable_invariant[OF assms] by (simp_all add: contact_inv_def)
  have "hydration_ok h \<and> (\<exists>r \<in> set (kd_contacts db). kr_id r = hy_contact_id h)" if "h \<in> set (kd_hydrations db)" for h
    using inv(2) that unfolding hydrations_inv_def by (metis imageE)
  then show ?thesis
    using inv by (simp add: contacts_inv_def hydrations_inv_def hydration_ok_def hydration_check_def)
qed

text \<open>A reference to a contact never touches a hydration that exists, so it cannot shorten a backoff or take
  over a lease; it adds a pending hydration exactly when the contact has none and nothing dated is
  known of it.\<close>
theorem reference_preserves_hydrations:
  assumes "contact_reachable db" and "request_hydration now py_now external_id requested_at db = (decision, db')"
  shows "(decision = Requested \<longleftrightarrow> kd_hydrations db' \<noteq> kd_hydrations db) \<and>
    (\<exists>hs. kd_hydrations db' = kd_hydrations db @ hs \<and> length hs \<le> 1 \<and>
      (\<forall>h \<in> set hs. hy_status h = Hydration_Pending \<and> hy_attempt_count h = 0 \<and>
        hy_contact_id h \<notin> hy_contact_id ` set (kd_hydrations db)))"
proof (cases "py_strip external_id = []")
  case True
  then show ?thesis using assms(2) by (auto simp: request_hydration_def)
next
  case False
  let ?e = "py_strip external_id" and ?t = "coalesce requested_at py_now"
  let ?row = "referenced_row now ?e ?t db"
  let ?db1 = "store_contact_row ?row db"
  have rows: "kd_hydrations ?db1 = kd_hydrations db" by (simp add: store_contact_row_def)
  have d: "decision = request_decision py_now ?row (lookup_by hy_contact_id (kr_id ?row) (kd_hydrations db))"
    and db': "kd_hydrations db' = (if decision = Requested then kd_hydrations db @ [new_hydration (kr_id ?row) ?t]
      else kd_hydrations db)"
    using assms(2) False unfolding request_hydration_def Let_def rows by (auto simp: rows)
  show ?thesis
  proof (cases "decision = Requested")
    case True
    then have "lookup_by hy_contact_id (kr_id ?row) (kd_hydrations db) = None"
      unfolding d by (auto simp: request_decision_def split: option.splits hydration_status.splits if_splits)
    then show ?thesis using db' True by (simp add: lookup_by_None new_hydration_def)
  qed (use db' in simp)
qed

text \<open>A hydration that failed for good, because its error cannot be retried or its attempts are used up, is
  not at rest: it is left without a schedule, and a failed hydration without a schedule can be claimed
  at any time, so the worker takes it up again at once and without end.\<close>
theorem exhausted_hydration_reclaimed:
  assumes "contact_reachable db" and "h \<in> set (kd_hydrations db)" and "held_hydration external_id lease db h"
    and "\<not> retryable \<or> limit \<le> hy_attempt_count h"
  shows "\<exists>h' \<in> set (joined_hydrations (snd (mark_hydration_failure py_now retry_base limit external_id category
      retryable lease db))).
    hy_contact_id h' = hy_contact_id h \<and> hy_status h' = Hydration_Failed \<and> (\<forall>now. hydration_claimable now h')"
proof -
  have inv: "contacts_inv db" "hydrations_inv db"
    using contact_reachable_invariant[OF assms(1)] by (simp_all add: contact_inv_def)
  obtain r where r: "lookup_by kr_id (hy_contact_id h) (kd_contacts db) = Some r" "pc_external_id r = external_id"
    "hy_status h = Hydration_Running" "hy_lease_until h = Some lease"
    using assms(3) by (auto simp: held_hydration_def split: option.splits)
  have same: "x = h" if x: "x \<in> set (kd_hydrations db)" "held_hydration external_id lease db x" for x
  proof -
    obtain s where s: "lookup_by kr_id (hy_contact_id x) (kd_contacts db) = Some s" "pc_external_id s = external_id"
      using x(2) by (auto simp: held_hydration_def split: option.splits)
    have "s = r"
      using distinct_key_eq[of pc_external_id "kd_contacts db" s r] inv(1) lookup_by_Some[OF s(1)]
        lookup_by_Some[OF r(1)] s(2) r(2) by (simp add: contacts_inv_def)
    then have "hy_contact_id x = hy_contact_id h" using lookup_by_Some[OF s(1)] lookup_by_Some[OF r(1)] by simp
    then show ?thesis
      using distinct_key_eq[of hy_contact_id "kd_hydrations db" x h] inv(2) x(1) assms(2)
      by (simp add: hydrations_inv_def)
  qed
  have f: "find (held_hydration external_id lease db) (kd_hydrations db) = Some h"
  proof (cases "find (held_hydration external_id lease db) (kd_hydrations db)")
    case None
    then show ?thesis using assms(2,3) by (simp add: find_None_iff)
  next
    case (Some x)
    then show ?thesis using same find_Some_member[OF Some] by simp
  qed
  let ?P = "\<lambda>x. hy_lease_until x = Some lease \<and>
      (case lookup_by kr_id (hy_contact_id x) (kd_contacts db) of
         None \<Rightarrow> False | Some r \<Rightarrow> pc_external_id r = external_id)"
  let ?f = "failed_hydration None (safe_failure_category category)"
  have run: "snd (mark_hydration_failure py_now retry_base limit external_id category retryable lease db) =
      db\<lparr>kd_hydrations := update_where ?P ?f (kd_hydrations db)\<rparr>"
    using assms(4) unfolding mark_hydration_failure_def f by (auto simp: Let_def)
  have "?f h \<in> set (update_where ?P ?f (kd_hydrations db))"
    by (rule update_where_changed[OF assms(2)]) (use r in simp)
  then have "?f h \<in> set (joined_hydrations (db\<lparr>kd_hydrations := update_where ?P ?f (kd_hydrations db)\<rparr>))"
    using r(1) by (simp add: joined_hydrations_def)
  moreover have "hydration_claimable now (?f h)" for now
    by (simp add: hydration_claimable_def failed_hydration_def)
  ultimately show ?thesis unfolding run by (intro bexI[of _ "?f h"]) (simp_all add: failed_hydration_def)
qed

section \<open>Concrete runs\<close>

definition demo_contact :: "string \<Rightarrow> string \<Rightarrow> time \<Rightarrow> digisac_contact_data" where
  "demo_contact e n t = (blank_contact e)\<lparr>pc_name := Some n, pc_provider_updated_at := Some t\<rparr>"

definition demo_contacts :: contact_db where
  "demo_contacts = contact_step (Claim_Hydration 20 {} 60) (contact_step (Reference 10 10 ''c9'' None) empty_contact_db)"

lemma demo_contacts_reachable: "contact_reachable demo_contacts"
  unfolding demo_contacts_def by (intro contact_next contact_start)

lemma demo_contacts_rows:
  "map (\<lambda>h. (hy_status h, hy_lease_until h, hy_attempt_count h)) (kd_hydrations demo_contacts) =
    [(Hydration_Running, Some 60000020, 1)]"
  "map pc_external_id (kd_contacts demo_contacts) = [''c9'']"
  by code_simp+

theorem contact_reachable_inv_witness:
  "length (kd_hydrations demo_contacts) = 1 \<and> distinct (map pc_external_id (kd_contacts demo_contacts)) \<and>
   list_all (\<lambda>h. hy_lease_until h \<noteq> None) (kd_hydrations demo_contacts)"
proof -
  obtain h where h: "kd_hydrations demo_contacts = [h]" "hy_status h = Hydration_Running"
    using demo_contacts_rows(1) by (cases "kd_hydrations demo_contacts") auto
  then show ?thesis using contact_reachable_inv[OF demo_contacts_reachable] by simp
qed


definition demo_observations :: "observation list" where
  "demo_observations =
    [(30, 30, demo_contact ''c1'' ''new'' 9, ''ticket_webhook'', None),
     (31, 31, demo_contact ''c1'' ''old'' 4, ''contact_hydration'', None)]"

theorem observations_converge_witness:
  "contact_knowledge (observe_all demo_observations demo_contacts) ''c1'' = Some (demo_contact ''c1'' ''new'' 9)"
proof -
  have "contact_knowledge demo_contacts ''c1'' = None" by code_simp
  moreover have "\<forall>x \<in> set demo_observations. observation_ok ''c1'' x" by code_simp
  moreover have "\<forall>x \<in> set demo_observations. \<forall>y \<in> set demo_observations.
      same_fields (observation_data x) (observation_data y)" by code_simp
  moreover have "demo_contact ''c1'' ''new'' 9 \<in> observation_data ` set demo_observations"
    by (simp add: demo_observations_def observation_data_def)
  moreover have "\<forall>x \<in> set demo_observations. observation_data x = demo_contact ''c1'' ''new'' 9 \<or>
      dated (observation_data x) < dated (demo_contact ''c1'' ''new'' 9)" by code_simp
  ultimately show ?thesis by (rule observations_converge[OF demo_contacts_reachable])
qed

theorem hydration_claims_exclusive_witness:
  "distinct (map hy_contact_id (fst (run_claims hydration_claim_step
    [(60000020, {}, ''w1'', 60), (60000030, {}, ''w2'', 60)] demo_contacts)))"
proof -
  have "claims_within 60000020 60000031 [(60000020, {} :: int set, ''w1'', 60), (60000030, {}, ''w2'', 60)]"
    by (simp add: seconds_def)
  then show ?thesis by (rule hydration_claims_exclusive[OF demo_contacts_reachable])
qed

theorem reference_preserves_hydrations_witness:
  "length (kd_hydrations (snd (request_hydration 30 30 ''c9'' None demo_contacts))) = 1"
proof -
  have d: "fst (request_hydration 30 30 ''c9'' None demo_contacts) = Running_Duplicate" by code_simp
  have l: "length (kd_hydrations demo_contacts) = 1" by code_simp
  have "request_hydration 30 30 ''c9'' None demo_contacts =
      (fst (request_hydration 30 30 ''c9'' None demo_contacts), snd (request_hydration 30 30 ''c9'' None demo_contacts))"
    by simp
  from reference_preserves_hydrations[OF demo_contacts_reachable this] show ?thesis using d l by simp
qed

theorem exhausted_hydration_reclaimed_witness:
  "\<exists>h \<in> set (joined_hydrations (snd (mark_hydration_failure 30 1000000 3 ''c9'' ''permanent'' False 60000020 demo_contacts))).
    hy_status h = Hydration_Failed \<and> hydration_claimable 31 h"
proof -
  obtain h where h: "kd_hydrations demo_contacts = [h]" using demo_contacts_rows(1) by (cases "kd_hydrations demo_contacts") auto
  have "list_all (held_hydration ''c9'' 60000020 demo_contacts) (kd_hydrations demo_contacts)" by code_simp
  then have held: "held_hydration ''c9'' 60000020 demo_contacts h" using h by simp
  have mem: "h \<in> set (kd_hydrations demo_contacts)" using h by simp
  have "\<not> False \<or> (3::int) \<le> hy_attempt_count h" by simp
  from exhausted_hydration_reclaimed[OF demo_contacts_reachable mem held this]
  show ?thesis by blast
qed

end
