(* ===== verification/Contact_Backfill.thy ===== *)
theory Contact_Backfill
  imports Contact_Correctness
begin

text \<open>
  The backfill of all DigiSac contacts (\<open>src/core/digisac_contact_backfill.py\<close>): every page is fetched and
  validated before anything is stored, duplicates are merged, and the whole snapshot is published in one
  transaction.  The client is the function \<open>fetch\<close> from a page number and a page size.
\<close>

section \<open>The acquisition\<close>

definition merge_duplicate_contacts ::
  "digisac_contact_data \<Rightarrow> digisac_contact_data \<Rightarrow> digisac_contact_data" where
  "merge_duplicate_contacts existing incoming =
    (case (pc_provider_updated_at existing, pc_provider_updated_at incoming) of
       (Some e, Some i) \<Rightarrow>
         (if e < i then override_contact incoming existing else override_contact existing incoming)
     | (None, Some i) \<Rightarrow> override_contact incoming existing
     | _ \<Rightarrow> override_contact existing incoming)"

definition backfill_invalid :: "string \<Rightarrow> py_error" where
  "backfill_invalid = DigisacContactBackfillError ''invalid_response''"

definition validate_page :: "contact_page \<Rightarrow> int \<Rightarrow> int option \<Rightarrow> py_error option" where
  "validate_page p requested expected_total =
    (if cp_current_page p \<noteq> requested
     then Some (backfill_invalid ''DigiSac contacts page did not advance'')
     else if cp_last_page p < cp_current_page p
     then Some (backfill_invalid ''DigiSac contacts page metadata is inconsistent'')
     else if cp_total p < 0 \<or> cp_limit p \<le> 0 \<or> cp_last_page p \<le> 0
     then Some (backfill_invalid ''DigiSac contacts page metadata is invalid'')
     else if cp_last_page p \<noteq> max 1 ((cp_total p + cp_limit p - 1) div cp_limit p) \<or>
        cp_limit p < int (length (cp_contacts p)) \<or> (cp_total p = 0 \<and> cp_contacts p \<noteq> [])
     then Some (backfill_invalid ''DigiSac contacts page metadata is inconsistent'')
     else if expected_total \<noteq> None \<and> expected_total \<noteq> Some (cp_total p)
     then Some (backfill_invalid ''DigiSac contacts total changed during pagination'')
     else if 0 < cp_total p \<and> cp_contacts p = []
     then Some (backfill_invalid ''DigiSac returned an empty page before completion'')
     else if cp_current_page p < cp_last_page p \<and> cp_contacts p = []
     then Some (backfill_invalid ''DigiSac returned an empty intermediate page'')
     else None)"

record backfill_state =
  bf_page :: int
  bf_expected :: "(int \<times> int) option"
  bf_page_count :: nat
  bf_by_id :: "(string \<times> digisac_contact_data) list"
  bf_duplicates :: nat

record backfill_snapshot =
  bs_contacts :: "digisac_contact_data list"
  bs_page_count :: nat
  bs_duplicate_count :: nat
  bs_total :: int

definition start_backfill :: backfill_state where
  "start_backfill = \<lparr>bf_page = 1, bf_expected = None, bf_page_count = 0, bf_by_id = [], bf_duplicates = 0\<rparr>"

definition add_backfill_contact :: "digisac_contact_data \<Rightarrow> backfill_state \<Rightarrow> backfill_state" where
  "add_backfill_contact c st =
    (case map_of (bf_by_id st) (pc_external_id c) of
       None \<Rightarrow> st\<lparr>bf_by_id := dict_set (bf_by_id st) (pc_external_id c) c\<rparr>
     | Some existing \<Rightarrow>
        st\<lparr>bf_duplicates := bf_duplicates st + 1,
           bf_by_id := dict_set (bf_by_id st) (pc_external_id c) (merge_duplicate_contacts existing c)\<rparr>)"

definition read_backfill_page :: "contact_page \<Rightarrow> backfill_state \<Rightarrow> backfill_state" where
  "read_backfill_page p st =
    fold add_backfill_contact (cp_contacts p)
      (st\<lparr>bf_expected := (if bf_expected st = None then Some (cp_total p, cp_last_page p) else bf_expected st),
          bf_page_count := bf_page_count st + 1\<rparr>)"

text \<open>A page either ends the acquisition (\<open>True\<close>) or asks for the next one.\<close>

definition backfill_page :: "contact_page \<Rightarrow> backfill_state \<Rightarrow> py_error + (bool \<times> backfill_state)" where
  "backfill_page p st =
    (case validate_page p (bf_page st) (map_option fst (bf_expected st)) of
       Some e \<Rightarrow> Inl e
     | None \<Rightarrow>
        (if bf_expected st \<noteq> None \<and> map_option snd (bf_expected st) \<noteq> Some (cp_last_page p)
         then Inl (backfill_invalid ''DigiSac contacts lastPage changed during pagination'')
         else
          (let st1 = read_backfill_page p st
           in if cp_current_page p = cp_last_page p then Inr (True, st1)
              else if cp_last_page p < bf_page st + 1
              then Inl (backfill_invalid ''DigiSac contacts pagination did not terminate'')
              else Inr (False, st1\<lparr>bf_page := bf_page st + 1\<rparr>))))"

definition backfill_result :: "backfill_state \<Rightarrow> backfill_snapshot" where
  "backfill_result st =
    \<lparr>bs_contacts = map snd (bf_by_id st), bs_page_count = bf_page_count st,
     bs_duplicate_count = bf_duplicates st, bs_total = (case bf_expected st of None \<Rightarrow> 0 | Some (n, _) \<Rightarrow> n)\<rparr>"

definition backfill_error :: "py_error \<Rightarrow> py_error" where
  "backfill_error e =
    (case e of DigisacClientError c m \<Rightarrow> e
     | _ \<Rightarrow> DigisacContactBackfillError ''provider'' ''DigiSac contacts backfill request failed'')"

partial_function (option) acquire_loop ::
  "(int \<Rightarrow> int \<Rightarrow> 'w \<Rightarrow> (py_error + contact_page) \<times> 'w) \<Rightarrow> int \<Rightarrow> backfill_state \<Rightarrow> 'w \<Rightarrow>
   ((py_error + backfill_snapshot) \<times> 'w) option" where
  "acquire_loop fetch page_size st w =
    (case fetch (bf_page st) page_size w of
       (Inl e, w') \<Rightarrow> Some (Inl (backfill_error e), w')
     | (Inr page, w') \<Rightarrow>
        (case backfill_page page st of
           Inl e \<Rightarrow> Some (Inl e, w')
         | Inr (finished, st') \<Rightarrow>
            (if finished then Some (Inr (backfill_result st'), w') else acquire_loop fetch page_size st' w')))"

declare acquire_loop.simps [code]

definition acquire_contact_backfill ::
  "(int \<Rightarrow> int \<Rightarrow> 'w \<Rightarrow> (py_error + contact_page) \<times> 'w) \<Rightarrow> int \<Rightarrow> 'w \<Rightarrow>
   ((py_error + backfill_snapshot) \<times> 'w) option" where
  "acquire_contact_backfill fetch page_size w =
    (if page_size \<le> 0 then Some (Inl (ValueError ''Contacts backfill page size must be positive''), w)
     else acquire_loop fetch page_size start_backfill w)"

section \<open>The backfill\<close>

record backfill_summary =
  bm_page_count :: nat
  bm_acquired_count :: nat
  bm_duplicate_count :: nat
  bm_published_count :: nat

definition run_contact_backfill ::
  "time \<Rightarrow> time \<Rightarrow> (int \<Rightarrow> int \<Rightarrow> 'w \<Rightarrow> (py_error + contact_page) \<times> 'w) \<Rightarrow> int \<Rightarrow> contact_db \<Rightarrow> 'w \<Rightarrow>
   ((py_error + backfill_summary) \<times> contact_db \<times> 'w) option" where
  "run_contact_backfill now py_now fetch page_size db w =
    (case acquire_contact_backfill fetch page_size w of
       None \<Rightarrow> None
     | Some (Inl e, w') \<Rightarrow> Some (Inl e, db, w')
     | Some (Inr snapshot, w') \<Rightarrow>
        (case publish_digisac_contact_backfill now py_now (bs_contacts snapshot) None db of
           (Inl e, db') \<Rightarrow>
             Some (Inl (DigisacContactBackfillError ''persistence'' ''DigiSac contacts backfill publication failed''), db', w')
         | (Inr n, db') \<Rightarrow>
             Some (Inr \<lparr>bm_page_count = bs_page_count snapshot, bm_acquired_count = length (bs_contacts snapshot),
                bm_duplicate_count = bs_duplicate_count snapshot, bm_published_count = n\<rparr>, db', w')))"

section \<open>Termination and what is acquired\<close>

definition backfill_ok :: "backfill_state \<Rightarrow> bool" where
  "backfill_ok st \<longleftrightarrow> distinct (map fst (bf_by_id st)) \<and>
    (\<forall>(i, c) \<in> set (bf_by_id st). pc_external_id c = i)"

lemma override_external [simp]: "pc_external_id (override_contact a b) = pc_external_id b"
  by (simp add: override_contact_def)

lemma merge_duplicate_external:
  "pc_external_id a = i \<Longrightarrow> pc_external_id b = i \<Longrightarrow> pc_external_id (merge_duplicate_contacts a b) = i"
  by (simp add: merge_duplicate_contacts_def split: option.split)

lemma add_backfill_ok:
  assumes "backfill_ok st"
  shows "backfill_ok (add_backfill_contact c st)"
proof -
  have st: "distinct (map fst (bf_by_id st))" "\<forall>(i, d) \<in> set (bf_by_id st). pc_external_id d = i"
    using assms by (simp_all add: backfill_ok_def)
  have set: "backfill_ok (st\<lparr>bf_duplicates := n, bf_by_id := dict_set (bf_by_id st) (pc_external_id c) d\<rparr>)"
    if "pc_external_id d = pc_external_id c" for d n
    using dict_set_distinct[OF st(1)] dict_set_all[OF st(2), where k = "pc_external_id c" and v = d] that by (simp add: backfill_ok_def)
  show ?thesis
  proof (cases "map_of (bf_by_id st) (pc_external_id c)")
    case None
    then show ?thesis using set[of c "bf_duplicates st"] by (simp add: add_backfill_contact_def)
  next
    case (Some e)
    then have "pc_external_id e = pc_external_id c" using st(2) by (auto dest: map_of_SomeD)
    then show ?thesis using Some set[OF merge_duplicate_external] by (simp add: add_backfill_contact_def)
  qed
qed

lemma dict_set_length:
  "length (dict_set d k v) = length d + (if map_of d k = None then 1 else 0)"
  by (induction d k v rule: dict_set.induct) simp_all

definition acquired :: "backfill_state \<Rightarrow> nat" where
  "acquired st = length (bf_by_id st) + bf_duplicates st"

lemma add_backfill_fields:
  "bf_page (add_backfill_contact c st) = bf_page st" "bf_expected (add_backfill_contact c st) = bf_expected st"
  "bf_page_count (add_backfill_contact c st) = bf_page_count st"
  "acquired (add_backfill_contact c st) = acquired st + 1"
  by (simp_all add: add_backfill_contact_def acquired_def dict_set_length split: option.split)

lemma fold_backfill:
  "bf_page (fold add_backfill_contact cs st) = bf_page st"
  "bf_expected (fold add_backfill_contact cs st) = bf_expected st"
  "bf_page_count (fold add_backfill_contact cs st) = bf_page_count st"
  "acquired (fold add_backfill_contact cs st) = acquired st + length cs"
  "backfill_ok st \<Longrightarrow> backfill_ok (fold add_backfill_contact cs st)"
  by (induction cs arbitrary: st) (simp_all add: add_backfill_fields add_backfill_ok)
lemma read_backfill_fields:
  "bf_page (read_backfill_page p st) = bf_page st" "bf_page_count (read_backfill_page p st) = bf_page_count st + 1"
  "bf_expected (read_backfill_page p st) =
    (if bf_expected st = None then Some (cp_total p, cp_last_page p) else bf_expected st)"
  "acquired (read_backfill_page p st) = acquired st + length (cp_contacts p)"
  "backfill_ok st \<Longrightarrow> backfill_ok (read_backfill_page p st)"
proof -
  let ?st = "st\<lparr>bf_expected := (if bf_expected st = None then Some (cp_total p, cp_last_page p) else bf_expected st),
      bf_page_count := bf_page_count st + 1\<rparr>"
  show "bf_page (read_backfill_page p st) = bf_page st" "bf_page_count (read_backfill_page p st) = bf_page_count st + 1"
    "bf_expected (read_backfill_page p st) =
      (if bf_expected st = None then Some (cp_total p, cp_last_page p) else bf_expected st)"
    unfolding read_backfill_page_def fold_backfill(1-3) by simp_all
  have "acquired ?st = acquired st" by (simp only: acquired_def) simp
  then show "acquired (read_backfill_page p st) = acquired st + length (cp_contacts p)"
    unfolding read_backfill_page_def fold_backfill(4) by simp
  show "backfill_ok (read_backfill_page p st)" if "backfill_ok st"
    unfolding read_backfill_page_def by (rule fold_backfill(5)) (use that in \<open>simp add: backfill_ok_def\<close>)
qed

lemma backfill_pageE:
  assumes "backfill_page p st = Inr (finished, st')"
  obtains "validate_page p (bf_page st) (map_option fst (bf_expected st)) = None"
    "bf_expected st = None \<or> map_option snd (bf_expected st) = Some (cp_last_page p)"
    "finished \<longleftrightarrow> cp_current_page p = cp_last_page p"
    "st' = (if finished then read_backfill_page p st else (read_backfill_page p st)\<lparr>bf_page := bf_page st + 1\<rparr>)"
  using assms that unfolding backfill_page_def Let_def
  by (cases "bf_expected st") (auto split: option.splits if_splits)

lemma valid_page:
  assumes "validate_page p requested expected = None"
  shows "cp_current_page p = requested" "requested \<le> cp_last_page p"
    "cp_last_page p = max 1 ((cp_total p + cp_limit p - 1) div cp_limit p)"
    "expected = None \<or> expected = Some (cp_total p)"
  using assms by (auto simp: validate_page_def split: if_splits)

text \<open>What holds while the pages of one snapshot are read: the pages up to the current one are counted, and
  their number is fixed by the first.\<close>

definition backfill_inv :: "backfill_state \<Rightarrow> bool" where
  "backfill_inv st \<longleftrightarrow> backfill_ok st \<and> int (bf_page_count st) = bf_page st - 1 \<and>
    (bf_expected st = None \<longleftrightarrow> bf_page st = 1) \<and>
    (case bf_expected st of None \<Rightarrow> acquired st = 0 | Some (n, l) \<Rightarrow> bf_page st \<le> l)"

lemma backfill_page_more:
  assumes inv: "backfill_inv st" and run: "backfill_page p st = Inr (False, st')"
  shows "backfill_inv st'" "bf_page st' = bf_page st + 1" "\<exists>n. bf_expected st' = Some (n, cp_last_page p)"
    "bf_expected st \<noteq> None \<Longrightarrow> bf_expected st' = bf_expected st"
    "acquired st' = acquired st + length (cp_contacts p)"
proof -
  let ?x = "read_backfill_page p st"
  have x: "validate_page p (bf_page st) (map_option fst (bf_expected st)) = None"
    "bf_expected st = None \<or> map_option snd (bf_expected st) = Some (cp_last_page p)"
    "cp_current_page p \<noteq> cp_last_page p" "st' = ?x\<lparr>bf_page := bf_page st + 1\<rparr>"
    by (rule backfill_pageE[OF run], simp)+
  note v = valid_page[OF x(1)]
  have page: "bf_page st < cp_last_page p" using v(1,2) x(3) by simp
  have ok: "backfill_ok st" and one: "1 \<le> bf_page st" using inv by (auto simp: backfill_inv_def)
  have ok': "backfill_ok st'" using read_backfill_fields(5)[OF ok] by (simp add: x(4) backfill_ok_def)
  show p': "bf_page st' = bf_page st + 1" by (simp add: x(4))
  have ex: "bf_expected st' = (if bf_expected st = None then Some (cp_total p, cp_last_page p) else bf_expected st)"
    by (simp add: x(4) read_backfill_fields)
  show e: "\<exists>n. bf_expected st' = Some (n, cp_last_page p)" using x(2) ex by (cases "bf_expected st") auto
  show "bf_expected st \<noteq> None \<Longrightarrow> bf_expected st' = bf_expected st" using ex by simp
  show "acquired st' = acquired st + length (cp_contacts p)"
    using read_backfill_fields(4)[of p st] by (simp add: x(4) acquired_def)
  have "bf_page_count st' = bf_page_count st + 1" by (simp add: x(4) read_backfill_fields)
  then show "backfill_inv st'" using inv ok' p' e page one by (auto simp: backfill_inv_def)
qed

lemma acquire_loop_returns:
  assumes "backfill_inv st" and "bf_expected st = Some (n, l)"
  shows "\<exists>r. acquire_loop fetch page_size st w = Some r"
  using assms
proof (induction "nat (l - bf_page st)" arbitrary: st w rule: less_induct)
  case less
  obtain r w1 where f: "fetch (bf_page st) page_size w = (r, w1)" by fastforce
  show ?case
  proof (cases r)
    case (Inl e)
    then show ?thesis using f by (subst acquire_loop.simps) simp
  next
    case p: (Inr p)
    show ?thesis
    proof (cases "backfill_page p st")
      case (Inl e)
      then show ?thesis using f p by (subst acquire_loop.simps) simp
    next
      case (Inr res)
      obtain finished st' where res: "res = (finished, st')" by fastforce
      show ?thesis
      proof (cases finished)
        case True
        then show ?thesis using f p Inr res by (subst acquire_loop.simps) simp
      next
        case False
        then have run: "backfill_page p st = Inr (False, st')" using Inr res by simp
        note more = backfill_page_more[OF less.prems(1) run]
        have e: "bf_expected st' = Some (n, l)" using more(4) less.prems(2) by simp
        have "bf_page st' \<le> l" using more(1) e by (simp add: backfill_inv_def)
        then have "nat (l - bf_page st') < nat (l - bf_page st)" using more(2) by simp
        from less.hyps[OF this more(1) e] have "\<exists>r. acquire_loop fetch page_size st' w1 = Some r" .
        then show ?thesis using f p run by (subst acquire_loop.simps) simp
      qed
    qed
  qed
qed

lemma start_backfill_inv: "backfill_inv start_backfill"
  by (simp add: backfill_inv_def backfill_ok_def start_backfill_def acquired_def)

text \<open>The acquisition of the contact directory always ends, whatever the service answers: the first page fixes
  how many pages there are, and every page must be the one that was asked for.\<close>
theorem backfill_returns:
  "\<exists>r. acquire_contact_backfill fetch page_size w = Some r"
proof (cases "page_size \<le> 0")
  case True
  then show ?thesis by (simp add: acquire_contact_backfill_def)
next
  case False
  obtain r w1 where f: "fetch 1 page_size w = (r, w1)" by fastforce
  have page1: "bf_page start_backfill = 1" by (simp add: start_backfill_def)
  have "\<exists>r. acquire_loop fetch page_size start_backfill w = Some r"
  proof (cases r)
    case (Inl e)
    then show ?thesis using f page1 by (subst acquire_loop.simps) simp
  next
    case p: (Inr p)
    show ?thesis
    proof (cases "backfill_page p start_backfill")
      case (Inl e)
      then show ?thesis using f p page1 by (subst acquire_loop.simps) simp
    next
      case (Inr res)
      obtain finished st' where res: "res = (finished, st')" by fastforce
      show ?thesis
      proof (cases finished)
        case True
        then show ?thesis using f p Inr res page1 by (subst acquire_loop.simps) simp
      next
        case False
        then have run: "backfill_page p start_backfill = Inr (False, st')" using Inr res by simp
        obtain n where "bf_expected st' = Some (n, cp_last_page p)"
          using backfill_page_more(3)[OF start_backfill_inv run] by blast
        from acquire_loop_returns[OF backfill_page_more(1)[OF start_backfill_inv run] this]
        show ?thesis using f p run page1 by (subst acquire_loop.simps) simp
      qed
    qed
  qed
  then show ?thesis using False by (simp add: acquire_contact_backfill_def)
qed

definition known_ids :: "backfill_state \<Rightarrow> string set" where
  "known_ids st = fst ` set (bf_by_id st)"

lemma known_ids_add: "known_ids (add_backfill_contact c st) = insert (pc_external_id c) (known_ids st)"
  by (auto simp: known_ids_def add_backfill_contact_def dict_set_keys split: option.split)

lemma known_ids_read: "known_ids (read_backfill_page p st) = known_ids st \<union> pc_external_id ` set (cp_contacts p)"
proof -
  have "known_ids (fold add_backfill_contact cs st) = known_ids st \<union> pc_external_id ` set cs" for cs st
    by (induction cs arbitrary: st) (auto simp: known_ids_add)
  then show ?thesis by (simp add: read_backfill_page_def known_ids_def)
qed

text \<open>A client whose pages do not depend on when they are asked for.\<close>

definition stable_client :: "(int \<Rightarrow> contact_page) \<Rightarrow> (int \<Rightarrow> int \<Rightarrow> 'w \<Rightarrow> (py_error + contact_page) \<times> 'w) \<Rightarrow> bool" where
  "stable_client pages fetch \<longleftrightarrow> (\<forall>p n w. fst (fetch p n w) = Inr (pages p))"

definition page_lengths :: "(int \<Rightarrow> contact_page) \<Rightarrow> int \<Rightarrow> int \<Rightarrow> nat" where
  "page_lengths pages i l = sum_list (map (\<lambda>p. length (cp_contacts (pages p))) [i..l])"

definition page_ids :: "(int \<Rightarrow> contact_page) \<Rightarrow> int \<Rightarrow> int \<Rightarrow> string set" where
  "page_ids pages i l = (\<Union>p \<in> {i..l}. pc_external_id ` set (cp_contacts (pages p)))"

lemma page_lengths_rec: "i \<le> l \<Longrightarrow> page_lengths pages i l = length (cp_contacts (pages i)) + page_lengths pages (i + 1) l"
  by (simp add: page_lengths_def upto_rec1)

lemma page_ids_rec: "i \<le> l \<Longrightarrow> page_ids pages i l = pc_external_id ` set (cp_contacts (pages i)) \<union> page_ids pages (i + 1) l"
proof -
  assume "i \<le> l"
  then have "{i..l} = insert i {i + 1..l}" by auto
  then show ?thesis by (simp add: page_ids_def)
qed

definition snapshot_of :: "(int \<Rightarrow> contact_page) \<Rightarrow> backfill_state \<Rightarrow> backfill_snapshot \<Rightarrow> bool" where
  "snapshot_of pages st snapshot \<longleftrightarrow>
    (let l = int (bs_page_count snapshot) in
      bf_page st \<le> l \<and> cp_last_page (pages l) = l \<and>
      length (bs_contacts snapshot) + bs_duplicate_count snapshot = acquired st + page_lengths pages (bf_page st) l \<and>
      distinct (map pc_external_id (bs_contacts snapshot)) \<and>
      pc_external_id ` set (bs_contacts snapshot) = known_ids st \<union> page_ids pages (bf_page st) l)"

lemma backfill_result_ids:
  assumes "backfill_ok st"
  shows "map pc_external_id (bs_contacts (backfill_result st)) = map fst (bf_by_id st)"
  using assms by (auto simp: backfill_result_def backfill_ok_def)

lemma acquire_loop_snapshot:
  assumes client: "stable_client pages fetch" and ret: "acquire_loop fetch page_size st w = Some (Inr snapshot, w')"
    and inv: "backfill_inv st"
  shows "snapshot_of pages st snapshot"
proof -
  have "fetch = fetch' \<longrightarrow> backfill_inv st \<longrightarrow> (\<forall>x w'. r = (Inr x, w') \<longrightarrow> snapshot_of pages st x)"
    if "acquire_loop fetch' n st w = Some r" for fetch' n st w r
  proof (rule acquire_loop.raw_induct[where P = "\<lambda>fetch' n st w r. fetch = fetch' \<longrightarrow> backfill_inv st \<longrightarrow>
        (\<forall>x w'. r = (Inr x, w') \<longrightarrow> snapshot_of pages st x)", OF _ that], intro impI allI)
    fix loop fetch' n st w r x w'
    assume IH: "\<And>fetch' n st w r. loop fetch' n st w = Some r \<Longrightarrow> fetch = fetch' \<longrightarrow> backfill_inv st \<longrightarrow>
        (\<forall>x w'. r = (Inr x, w') \<longrightarrow> snapshot_of pages st x)"
      and eq: "(case fetch' (bf_page st) n w of
         (Inl e, w') \<Rightarrow> Some (Inl (backfill_error e), w')
       | (Inr page, w') \<Rightarrow> (case backfill_page page st of
           Inl e \<Rightarrow> Some (Inl e, w')
         | Inr (finished, st') \<Rightarrow> if finished then Some (Inr (backfill_result st'), w') else loop fetch' n st' w')) = Some r"
      and same: "fetch = fetch'" and inv: "backfill_inv st" and r: "r = (Inr x, w')"
    let ?p = "pages (bf_page st)"
    obtain w1 where f: "fetch' (bf_page st) n w = (Inr ?p, w1)"
      using client unfolding stable_client_def same by (metis prod.collapse)
    obtain finished st' where run: "backfill_page ?p st = Inr (finished, st')"
      and next_step: "(if finished then Some (Inr (backfill_result st'), w1) else loop fetch' n st' w1) = Some r"
      using eq f r by (auto split: sum.splits prod.splits)
    have ok: "backfill_ok st" using inv by (simp add: backfill_inv_def)
    show "snapshot_of pages st x"
    proof (cases finished)
      case True
      have fin: "validate_page ?p (bf_page st) (map_option fst (bf_expected st)) = None"
        "cp_current_page ?p = cp_last_page ?p" "st' = read_backfill_page ?p st"
        using True by (auto intro: backfill_pageE[OF run])
      have l: "cp_last_page ?p = bf_page st" using valid_page(1)[OF fin(1)] fin(2) by simp
      have x: "x = backfill_result st'" using next_step True r by simp
      have ok': "backfill_ok st'" using read_backfill_fields(5)[OF ok] fin(3) by simp
      have count: "int (bs_page_count x) = bf_page st"
        using inv by (simp add: x fin(3) backfill_result_def read_backfill_fields backfill_inv_def)
      have "length (bs_contacts x) + bs_duplicate_count x = acquired st + length (cp_contacts ?p)"
        using read_backfill_fields(4)[of ?p st] by (simp add: x fin(3) backfill_result_def acquired_def)
      moreover have "distinct (map pc_external_id (bs_contacts x))"
        unfolding x backfill_result_ids[OF ok'] using ok' by (simp add: backfill_ok_def)
      moreover have "pc_external_id ` set (bs_contacts x) = known_ids st'"
        unfolding x known_ids_def set_map[symmetric] backfill_result_ids[OF ok'] ..
      ultimately show ?thesis
        unfolding snapshot_of_def Let_def count by (simp add: l fin(3) known_ids_read page_lengths_def page_ids_def)
    next
      case False
      then have run': "backfill_page ?p st = Inr (False, st')" using run by simp
      note more = backfill_page_more[OF inv run']
      have st': "st' = (read_backfill_page ?p st)\<lparr>bf_page := bf_page st + 1\<rparr>"
        by (rule backfill_pageE[OF run']) simp
      have "loop fetch' n st' w1 = Some r" using next_step False by simp
      then have s: "snapshot_of pages st' x" using IH same more(1) r by blast
      have ids: "known_ids st' = known_ids st \<union> pc_external_id ` set (cp_contacts ?p)"
        using known_ids_read[of ?p st] by (simp add: st' known_ids_def)
      show ?thesis
        using s page_lengths_rec[of "bf_page st" "int (bs_page_count x)" pages]
          page_ids_rec[of "bf_page st" "int (bs_page_count x)" pages] more(2,5)
        unfolding snapshot_of_def Let_def ids by auto
    qed
  qed
  then show ?thesis using ret inv by blast
qed

text \<open>An acquired snapshot is what the pages hold: it has read every page up to the last one announced, the
  contacts kept and the duplicates counted add up to the entries of the pages, no contact occurs twice,
  and the contacts are exactly those on the pages.\<close>
theorem backfill_conserves:
  assumes "stable_client pages fetch" and "acquire_contact_backfill fetch page_size w = Some (Inr snapshot, w')"
  shows "cp_last_page (pages (int (bs_page_count snapshot))) = int (bs_page_count snapshot) \<and>
    length (bs_contacts snapshot) + bs_duplicate_count snapshot = page_lengths pages 1 (int (bs_page_count snapshot)) \<and>
    distinct (map pc_external_id (bs_contacts snapshot)) \<and>
    pc_external_id ` set (bs_contacts snapshot) = page_ids pages 1 (int (bs_page_count snapshot))"
proof -
  have "acquire_loop fetch page_size start_backfill w = Some (Inr snapshot, w')"
    using assms(2) by (simp add: acquire_contact_backfill_def split: if_splits)
  from acquire_loop_snapshot[OF assms(1) this start_backfill_inv] show ?thesis
    by (simp add: snapshot_of_def Let_def start_backfill_def acquired_def known_ids_def)
qed

text \<open>A backfill is all or nothing: if it fails, at whatever page or contact, the tables are untouched; if it
  succeeds, what is known afterwards is what was known before with every acquired contact observed.\<close>
theorem backfill_all_or_nothing:
  assumes "contact_reachable db"
    and "run_contact_backfill now py_now fetch page_size db w = Some (res, db', w')"
  shows "case res of
      Inl e \<Rightarrow> db' = db
    | Inr summary \<Rightarrow> \<exists>snapshot. acquire_contact_backfill fetch page_size w = Some (Inr snapshot, w') \<and>
        bm_acquired_count summary = length (bs_contacts snapshot) \<and>
        observe_contacts (unique_contacts (bs_contacts snapshot)) (contact_knowledge db) = Some (contact_knowledge db')"
proof -
  obtain r w1 where a: "acquire_contact_backfill fetch page_size w = Some (r, w1)"
    using assms(2) by (cases "acquire_contact_backfill fetch page_size w") (auto simp: run_contact_backfill_def)
  show ?thesis
  proof (cases r)
    case (Inl e)
    then show ?thesis using assms(2) a by (auto simp: run_contact_backfill_def)
  next
    case (Inr snapshot)
    let ?cs = "unique_contacts (bs_contacts snapshot)"
    show ?thesis
    proof (cases "publish_contacts now py_now ?cs db")
      case (Inl e)
      then show ?thesis using assms(2) a Inr
        by (auto simp: run_contact_backfill_def publish_digisac_contact_backfill_def)
    next
      case p: (Inr db1)
      then have "observe_contacts ?cs (contact_knowledge db) = Some (contact_knowledge db1)"
        using publish_refines[OF contact_reachable_invariant[OF assms(1)], where now = now and observed = py_now and cs = ?cs]
        by simp
      moreover have "db' = db1" "w' = w1" "\<exists>summary. res = Inr summary \<and> bm_acquired_count summary = length (bs_contacts snapshot)"
        using assms(2) a Inr p by (auto simp: run_contact_backfill_def publish_digisac_contact_backfill_def)
      ultimately show ?thesis using a Inr by auto
    qed
  qed
qed

section \<open>Concrete runs\<close>

text \<open>Two pages of one contact each, of a directory that announces four.\<close>

definition demo_pages :: "int \<Rightarrow> contact_page" where
  "demo_pages p = \<lparr>cp_contacts = [demo_contact (if p = 1 then ''c1'' else ''c2'') ''Ana'' 5], cp_total = 4,
     cp_limit = 2, cp_current_page = p, cp_last_page = 2\<rparr>"

definition demo_fetch :: "int \<Rightarrow> int \<Rightarrow> unit \<Rightarrow> (py_error + contact_page) \<times> unit" where
  "demo_fetch p n w = (Inr (demo_pages p), w)"

definition demo_snapshot :: backfill_snapshot where
  "demo_snapshot = \<lparr>bs_contacts = [demo_contact ''c1'' ''Ana'' 5, demo_contact ''c2'' ''Ana'' 5], bs_page_count = 2,
     bs_duplicate_count = 0, bs_total = 4\<rparr>"

lemma demo_acquisition: "acquire_contact_backfill demo_fetch 2 () = Some (Inr demo_snapshot, ())"
  by code_simp

theorem backfill_conserves_witness:
  "length (bs_contacts demo_snapshot) = page_lengths demo_pages 1 2 \<and> distinct (map pc_external_id (bs_contacts demo_snapshot))"
proof -
  have "stable_client demo_pages demo_fetch" by (simp add: stable_client_def demo_fetch_def)
  moreover have "bs_page_count demo_snapshot = 2" "bs_duplicate_count demo_snapshot = 0" by (simp_all add: demo_snapshot_def)
  ultimately show ?thesis using backfill_conserves[OF _ demo_acquisition, of demo_pages] by simp
qed

text \<open>A directory that announces more contacts than its pages hold is accepted as complete: only the size of
  each page is compared with the limit, and the entries are never counted against the announced total.\<close>
theorem short_backfill_accepted:
  "\<exists>snapshot. acquire_contact_backfill demo_fetch 2 () = Some (Inr snapshot, ()) \<and> bs_total snapshot = 4 \<and>
    length (bs_contacts snapshot) + bs_duplicate_count snapshot = 2"
  unfolding demo_acquisition by (simp add: demo_snapshot_def)

definition demo_backfill :: "((py_error + backfill_summary) \<times> contact_db \<times> unit) option" where
  "demo_backfill = run_contact_backfill 40 40 demo_fetch 2 demo_contacts ()"

theorem backfill_all_or_nothing_witness:
  "\<exists>summary db'. demo_backfill = Some (Inr summary, db', ()) \<and> bm_acquired_count summary = 2 \<and>
    contact_knowledge db' ''c1'' = Some (demo_contact ''c1'' ''Ana'' 5)"
proof -
  have ok: "case demo_backfill of Some (Inr s, db', w) \<Rightarrow> True | _ \<Rightarrow> False" by code_simp
  then obtain s db' where run: "demo_backfill = Some (Inr s, db', ())"
    by (auto split: option.splits sum.splits prod.splits) (metis sum.exhaust)
  from backfill_all_or_nothing[OF demo_contacts_reachable run[unfolded demo_backfill_def]]
  have "bm_acquired_count s = 2"
    "observe_contacts (unique_contacts (bs_contacts demo_snapshot)) (contact_knowledge demo_contacts) = Some (contact_knowledge db')"
    unfolding demo_acquisition by (simp_all add: demo_snapshot_def)
  moreover have "map_option (\<lambda>k. k ''c1'')
      (observe_contacts (unique_contacts (bs_contacts demo_snapshot)) (contact_knowledge demo_contacts)) =
    Some (Some (demo_contact ''c1'' ''Ana'' 5))" by code_simp
  ultimately show ?thesis using run by (intro exI[of _ s] exI[of _ db']) simp
qed

end
