(* ===== verification/Classification_Store.thy ===== *)
theory Classification_Store
  imports Directory_Tables Intent_Classification
begin

text \<open>
  The durable classifications (\<open>src/core/classification_repository.py\<close>, tables
  \<open>ia_classifications\<close> and \<open>classification_messages\<close>): the insertion of a classification with its
  ordered message associations, idempotent by key, the update of the protocol of a ticket and the
  existence queries.  \<open>uuid\<close> is the value of \<open>uuid7()\<close>; timestamps arrive parsed.  A value that the driver
  cannot store in a column and a broken constraint are \<open>CheckViolation\<close>, and the transaction leaves the
  tables as they were.  The review columns, which no modelled code writes, are left out.
\<close>

section \<open>State\<close>

record classification_row = classification +
  cf_public_id :: "string option"
  cf_conversation_id :: string
  cf_message_ids :: "string list"
  cf_created_at :: time
  cf_full_context :: string
  cf_message_count :: int
  cf_intent_type :: string
  cf_protocol :: "string option"
  cf_department :: "string list"
  cf_agent :: "string list"
  cf_model :: string
  cf_processing_time_ms :: int
  cf_prompt_version :: string
  cf_idempotency_key :: "string option"
  cf_updated_at :: time

record position_row =
  ps_classification_id :: int
  ps_message_id :: string
  ps_position :: nat
  ps_created_at :: time

record schema_capabilities =
  classification_identity_columns :: bool
  classification_idempotency_index :: bool
  classification_messages :: bool

record classification_db =
  cf_rows :: "classification_row list"
  cf_positions :: "position_row list"
  cf_next_id :: int
  cf_capabilities :: schema_capabilities

definition full_schema :: schema_capabilities where
  "full_schema = \<lparr>classification_identity_columns = True, classification_idempotency_index = True,
    classification_messages = True\<rparr>"

definition empty_classification_db :: classification_db where
  "empty_classification_db =
    \<lparr>cf_rows = [], cf_positions = [], cf_next_id = 1, cf_capabilities = full_schema\<rparr>"

text \<open>The keyword arguments of the insertion.\<close>

record classification_args =
  ca_conversation_id :: string
  ca_message_ids :: "string list"
  ca_created_at :: time
  ca_full_context :: string
  ca_message_count :: int
  ca_result :: jdict
  ca_model :: string
  ca_processing_time_ms :: int
  ca_prompt_version :: string
  ca_protocol :: "string option"
  ca_idempotency_key :: "string option"

section \<open>Constraints\<close>

definition classification_violation :: py_error where
  "classification_violation = CheckViolation ''ia_classifications''"

definition position_violation :: py_error where
  "position_violation = CheckViolation ''classification_messages''"

definition confidence_column :: "jvalue \<Rightarrow> bool" where
  "confidence_column v \<longleftrightarrow> v = JNull \<or> confidence_ok v"

definition classification_check :: "classification_row \<Rightarrow> bool" where
  "classification_check r \<longleftrightarrow>
    confidence_column (cl_confidence r) \<and> 0 \<le> cf_message_count r \<and> 0 \<le> cf_processing_time_ms r \<and>
    cf_intent_type r \<in> set VALID_INTENT_TYPES \<and> cf_created_at r \<le> cf_updated_at r \<and>
    btrim (cf_conversation_id r) \<noteq> [] \<and> btrim (cf_model r) \<noteq> [] \<and> nonblank_opt (cf_idempotency_key r)"

definition classifications_unique :: "classification_row list \<Rightarrow> bool" where
  "classifications_unique rows \<longleftrightarrow>
    distinct (map cl_id rows) \<and> unique_opt cf_public_id rows \<and> unique_opt cf_idempotency_key rows"

section \<open>Insertion\<close>

definition result_intent_type :: "jdict \<Rightarrow> string" where
  "result_intent_type result =
    (case normalize_intent_type (dict_get result ''intent_type'') of
       None \<Rightarrow> ''other''
     | Some intent_type \<Rightarrow> intent_type)"

fun nonblank_items :: "jvalue list \<Rightarrow> string list" where
  "nonblank_items [] = []"
| "nonblank_items (JStr s # items) =
    (if py_strip s = [] then nonblank_items items else py_strip s # nonblank_items items)"
| "nonblank_items (_ # items) = nonblank_items items"

definition structured_name_list :: "jdict \<Rightarrow> string \<Rightarrow> string list" where
  "structured_name_list result name =
    (case dict_get result name of JList items \<Rightarrow> nonblank_items items | _ \<Rightarrow> [])"

text \<open>A text column takes null and text.  The worker stores validated answers, whose title and description are
  text (\<open>Intent_Classification\<close>); for other values the model is on the safe side and refuses.\<close>

definition text_column :: "jvalue \<Rightarrow> py_error + string option" where
  "text_column v =
    (case v of JNull \<Rightarrow> Inr None | JStr s \<Rightarrow> Inr (Some s) | _ \<Rightarrow> Inl classification_violation)"

definition normalized_key :: "schema_capabilities \<Rightarrow> string option \<Rightarrow> string option" where
  "normalized_key caps key =
    (case key of
       None \<Rightarrow> None
     | Some k \<Rightarrow>
        (if classification_idempotency_index caps \<and> py_strip k \<noteq> [] then Some (py_strip k) else None))"

definition classification_of ::
  "int \<Rightarrow> string option \<Rightarrow> string option \<Rightarrow> string option \<Rightarrow> string option \<Rightarrow> classification_args \<Rightarrow>
   classification_row" where
  "classification_of i public_id key title description a =
    \<lparr>cl_id = i, cl_confidence = dict_get (ca_result a) ''confidence'', cl_title = title,
     cl_description = description, cf_public_id = public_id,
     cf_conversation_id = ca_conversation_id a, cf_message_ids = ca_message_ids a,
     cf_created_at = ca_created_at a, cf_full_context = ca_full_context a,
     cf_message_count = ca_message_count a, cf_intent_type = result_intent_type (ca_result a),
     cf_protocol = ca_protocol a, cf_department = structured_name_list (ca_result a) ''department'',
     cf_agent = structured_name_list (ca_result a) ''agent'', cf_model = ca_model a,
     cf_processing_time_ms = ca_processing_time_ms a, cf_prompt_version = ca_prompt_version a,
     cf_idempotency_key = key, cf_updated_at = ca_created_at a\<rparr>"

text \<open>The statement \<open>INSERT ... RETURNING id, public_id\<close>: check constraints come first, then the
  conflict on the key (which returns no row), then the other unique indexes.  The sequence of the ids
  advances in either case.\<close>

definition insert_row ::
  "classification_row \<Rightarrow> classification_db \<Rightarrow>
   py_error + (int \<times> string option) option \<times> classification_db" where
  "insert_row r db =
    (let db' = db\<lparr>cf_next_id := cf_next_id db + 1\<rparr>
     in if \<not> classification_check r then Inl classification_violation
        else if cf_idempotency_key r \<noteq> None \<and>
            cf_idempotency_key r \<in> cf_idempotency_key ` set (cf_rows db)
          then Inr (None, db')
        else if \<not> classifications_unique (cf_rows db @ [r]) then Inl classification_violation
        else Inr (Some (cl_id r, cf_public_id r), db'\<lparr>cf_rows := cf_rows db @ [r]\<rparr>))"

definition stored_identity :: "string option \<Rightarrow> classification_db \<Rightarrow> (int \<times> string option) option" where
  "stored_identity key db =
    (if key = None then None
     else map_option (\<lambda>r. (cl_id r, cf_public_id r)) (lookup_by cf_idempotency_key key (cf_rows db)))"

text \<open>The positions of the first occurrences.\<close>

fun positioned_ids :: "nat \<Rightarrow> string list \<Rightarrow> string list \<Rightarrow> (nat \<times> string) list" where
  "positioned_ids position seen [] = []"
| "positioned_ids position seen (m # ms) =
    (if m \<in> set seen then positioned_ids (Suc position) seen ms
     else (position, m) # positioned_ids (Suc position) (m # seen) ms)"

text \<open>\<open>ON CONFLICT (classification_id, message_id) DO NOTHING\<close> does not cover the unique position.\<close>

definition insert_position :: "position_row \<Rightarrow> position_row list \<Rightarrow> py_error + position_row list" where
  "insert_position p rows =
    (if btrim (ps_message_id p) = [] then Inl position_violation
     else if list_ex (\<lambda>x. ps_classification_id x = ps_classification_id p \<and>
         ps_message_id x = ps_message_id p) rows then Inr rows
     else if list_ex (\<lambda>x. ps_classification_id x = ps_classification_id p \<and>
         ps_position x = ps_position p) rows then Inl position_violation
     else Inr (rows @ [p]))"

fun insert_positions ::
  "int \<Rightarrow> time \<Rightarrow> (nat \<times> string) list \<Rightarrow> position_row list \<Rightarrow> py_error + position_row list" where
  "insert_positions i created [] rows = Inr rows"
| "insert_positions i created ((position, m) # ms) rows =
    on_value (insert_position \<lparr>ps_classification_id = i, ps_message_id = m, ps_position = position,
        ps_created_at = created\<rparr> rows)
      (insert_positions i created ms)"

definition store_positions ::
  "classification_args \<Rightarrow> int \<times> string option \<Rightarrow> classification_db \<Rightarrow>
   py_error + (int \<times> string option) \<times> classification_db" where
  "store_positions a identity db =
    (if \<not> classification_messages (cf_capabilities db) then Inr (identity, db)
     else on_value (insert_positions (fst identity) (ca_created_at a)
         (positioned_ids 0 [] (ca_message_ids a)) (cf_positions db))
       (\<lambda>rows. Inr (identity, db\<lparr>cf_positions := rows\<rparr>)))"

definition insert_classification_tx ::
  "string \<Rightarrow> classification_args \<Rightarrow> classification_db \<Rightarrow>
   py_error + (int \<times> string option) \<times> classification_db" where
  "insert_classification_tx uuid a db =
    (let caps = cf_capabilities db;
         identity = classification_identity_columns caps;
         key = (if identity then normalized_key caps (ca_idempotency_key a) else None);
         public_id = (if identity then Some uuid else None)
     in on_value (text_column (dict_get (ca_result a) ''title'')) (\<lambda>title.
        on_value (text_column (dict_get (ca_result a) ''description'')) (\<lambda>description.
        on_value (insert_row (classification_of (cf_next_id db) public_id key title description a) db)
          (\<lambda>(row, db').
            case (if row = None then stored_identity key db' else row) of
              None \<Rightarrow> Inl (RuntimeError ''PostgreSQL did not return a classification id'')
            | Some found \<Rightarrow> store_positions a found db'))))"

definition insert_classification ::
  "string \<Rightarrow> classification_args \<Rightarrow> classification_db \<Rightarrow>
   (py_error + int \<times> string option) \<times> classification_db" where
  "insert_classification uuid a db = transaction db (insert_classification_tx uuid a db)"

section \<open>Protocol and existence\<close>

definition update_analysis_protocol ::
  "time \<Rightarrow> string \<Rightarrow> string \<Rightarrow> classification_db \<Rightarrow> (py_error + bool) \<times> classification_db" where
  "update_analysis_protocol now conversation_id protocol db =
    (let matches = (\<lambda>r. cf_conversation_id r = conversation_id \<and> cf_protocol r \<noteq> Some protocol);
         rows = update_where matches (\<lambda>r. r\<lparr>cf_protocol := Some protocol, cf_updated_at := now\<rparr>) (cf_rows db)
     in if list_ex matches (cf_rows db)
        then (if list_all classification_check rows then (Inr True, db\<lparr>cf_rows := rows\<rparr>)
              else (Inl classification_violation, db))
        else (Inr (list_ex (\<lambda>r. cf_conversation_id r = conversation_id) (cf_rows db)), db))"

definition classification_exists :: "string \<Rightarrow> time \<Rightarrow> classification_db \<Rightarrow> bool" where
  "classification_exists conversation_id created_at db =
    list_ex (\<lambda>r. cf_conversation_id r = conversation_id \<and> cf_created_at r = created_at) (cf_rows db)"

definition ticket_has_classification :: "string \<Rightarrow> classification_db \<Rightarrow> bool" where
  "ticket_has_classification conversation_id db =
    list_ex (\<lambda>r. cf_conversation_id r = conversation_id) (cf_rows db)"

section \<open>Lemmas\<close>

lemma unique_opt_snoc:
  "unique_opt col (rows @ [r]) \<longleftrightarrow> unique_opt col rows \<and> (\<forall>x \<in> set rows. opt_differ (col r) (col x))"
proof (induction rows)
  case Nil
  then show ?case by (cases "col r") (simp_all add: unique_opt_def map_filter_simps)
next
  case (Cons a rows)
  then show ?case by (auto simp: unique_opt_Cons opt_differ_def)
qed

lemma positioned_ids_enumerate:
  "positioned_ids n seen ms =
    filter (\<lambda>(i, m). m \<notin> set seen \<and> m \<notin> set (take (i - n) ms)) (List.enumerate n ms)"
proof (induction n seen ms rule: positioned_ids.induct)
  case (2 position seen m ms)
  have step: "filter (\<lambda>(i, x). x \<notin> set (m # seen) \<and> x \<notin> set (take (i - Suc position) ms)) (List.enumerate (Suc position) ms) =
      filter (\<lambda>(i, x). x \<notin> set seen \<and> x \<notin> set (take (i - position) (m # ms))) (List.enumerate (Suc position) ms)"
    by (rule filter_cong) (auto simp: in_set_enumerate_eq Suc_diff_le Suc_le_eq take_Cons')
  have step2: "filter (\<lambda>(i, x). x \<notin> set seen \<and> x \<notin> set (take (i - Suc position) ms)) (List.enumerate (Suc position) ms) =
      filter (\<lambda>(i, x). x \<notin> set seen \<and> x \<notin> set (take (i - position) (m # ms))) (List.enumerate (Suc position) ms)"
    if "m \<in> set seen"
    by (rule filter_cong) (use that in \<open>auto simp: in_set_enumerate_eq Suc_le_eq take_Cons'\<close>)
  show ?case using 2 step step2 by (auto simp: enumerate_simps)
qed simp

lemma positioned_distinct:
  assumes "distinct ms"
  shows "positioned_ids 0 [] ms = List.enumerate 0 ms"
proof -
  have "m \<notin> set (take i ms)" if "(i, m) \<in> set (List.enumerate 0 ms)" for i m
  proof -
    have "i < length ms" "ms ! i = m" using that by (simp_all add: in_set_enumerate_eq)
    then show ?thesis using assms by (auto simp: in_set_conv_nth distinct_conv_nth)
  qed
  then show ?thesis unfolding positioned_ids_enumerate
    by (intro filter_True) auto
qed

lemma positioned_fst: "distinct (map fst (positioned_ids n seen ms))"
  by (simp add: positioned_ids_enumerate distinct_map_filter)

lemma positioned_snd: "distinct (map snd (positioned_ids n seen ms)) \<and>
    set (map snd (positioned_ids n seen ms)) = set ms - set seen"
  by (induction n seen ms rule: positioned_ids.induct) auto

definition has_message :: "int \<Rightarrow> string \<Rightarrow> position_row list \<Rightarrow> bool" where
  "has_message i m rows \<longleftrightarrow> list_ex (\<lambda>x. ps_classification_id x = i \<and> ps_message_id x = m) rows"

definition has_position :: "int \<Rightarrow> nat \<Rightarrow> position_row list \<Rightarrow> bool" where
  "has_position i p rows \<longleftrightarrow> list_ex (\<lambda>x. ps_classification_id x = i \<and> ps_position x = p) rows"

definition position_of :: "int \<Rightarrow> time \<Rightarrow> nat \<times> string \<Rightarrow> position_row" where
  "position_of i created pm = \<lparr>ps_classification_id = i, ps_message_id = snd pm,
    ps_position = fst pm, ps_created_at = created\<rparr>"

lemma has_append [simp]:
  "has_message i m (rows @ [position_of j c pm]) \<longleftrightarrow> has_message i m rows \<or> (j = i \<and> snd pm = m)"
  "has_position i p (rows @ [position_of j c pm]) \<longleftrightarrow> has_position i p rows \<or> (j = i \<and> fst pm = p)"
  by (auto simp: has_message_def has_position_def position_of_def)

lemma set_enumerate0: "set (List.enumerate 0 xs) = (\<lambda>i. (i, xs ! i)) ` {0..<length xs}"
proof -
  have "List.enumerate 0 xs = map (\<lambda>i. (i, xs ! i)) [0..<length xs]"
    by (rule nth_equalityI) (simp_all add: nth_enumerate_eq)
  then show ?thesis by simp
qed

lemma has_all:
  "list_ex (\<lambda>x. ps_classification_id x = i \<and> ps_message_id x = m) (map (position_of i c) xs) \<longleftrightarrow> m \<in> snd ` set xs"
  "list_ex (\<lambda>x. ps_classification_id x = i \<and> ps_position x = p) (map (position_of i c) xs) \<longleftrightarrow> p \<in> fst ` set xs"
  by (force simp: list_ex_iff position_of_def)+

lemma insert_positions_result:
  assumes "distinct (map fst ms)" and "distinct (map snd ms)" and "\<forall>pm \<in> set ms. btrim (snd pm) \<noteq> []"
  shows "insert_positions i c ms rows =
    (if \<exists>pm \<in> set ms. \<not> has_message i (snd pm) rows \<and> has_position i (fst pm) rows
     then Inl position_violation
     else Inr (rows @ map (position_of i c) (filter (\<lambda>pm. \<not> has_message i (snd pm) rows) ms)))"
  using assms
proof (induction ms arbitrary: rows)
  case (Cons pm ms)
  obtain p m where pm: "pm = (p, m)" by (cases pm)
  have ne: "btrim m \<noteq> []" using Cons.prems(3) pm by simp
  have ins: "insert_position \<lparr>ps_classification_id = i, ps_message_id = m, ps_position = p, ps_created_at = c\<rparr> rows =
      (if has_message i m rows then Inr rows else if has_position i p rows then Inl position_violation
       else Inr (rows @ [position_of i c pm]))"
    using ne pm by (simp add: insert_position_def has_message_def has_position_def position_of_def)
  show ?case
  proof (cases "has_message i m rows \<or> has_position i p rows")
    case True
    then show ?thesis using Cons ins pm by auto
  next
    case False
    have same: "has_message i (snd x) (rows @ [position_of i c pm]) \<longleftrightarrow> has_message i (snd x) rows"
      "has_position i (fst x) (rows @ [position_of i c pm]) \<longleftrightarrow> has_position i (fst x) rows"
      if "x \<in> set ms" for x
      using that Cons.prems(1,2) pm by force+
    have flt: "filter (\<lambda>x. \<not> has_message i (snd x) (rows @ [position_of i c pm])) ms =
        filter (\<lambda>x. \<not> has_message i (snd x) rows) ms"
      by (rule filter_cong) (simp_all only: same refl)
    show ?thesis using Cons.IH[of "rows @ [position_of i c pm]"] Cons.prems False ins pm same flt by auto
  qed
qed simp

section \<open>Invariant\<close>

definition positions_ok :: "classification_row list \<Rightarrow> position_row list \<Rightarrow> bool" where
  "positions_ok rows ps \<longleftrightarrow>
    distinct (map (\<lambda>p. (ps_classification_id p, ps_message_id p)) ps) \<and>
    distinct (map (\<lambda>p. (ps_classification_id p, ps_position p)) ps) \<and>
    ps_classification_id ` set ps \<subseteq> cl_id ` set rows"

definition classification_inv :: "classification_db \<Rightarrow> bool" where
  "classification_inv db \<longleftrightarrow>
    classifications_unique (cf_rows db) \<and> list_all classification_check (cf_rows db) \<and>
    (\<forall>r \<in> set (cf_rows db). cl_id r < cf_next_id db) \<and> positions_ok (cf_rows db) (cf_positions db)"

lemma insert_position_ok:
  assumes "insert_position p ps = Inr ps'" and "positions_ok rows ps"
    and "ps_classification_id p \<in> cl_id ` set rows"
  shows "positions_ok rows ps'"
proof (cases "ps' = ps")
  case False
  then have ps': "ps' = ps @ [p]"
    and new: "\<not> list_ex (\<lambda>x. ps_classification_id x = ps_classification_id p \<and> ps_message_id x = ps_message_id p) ps"
    "\<not> list_ex (\<lambda>x. ps_classification_id x = ps_classification_id p \<and> ps_position x = ps_position p) ps"
    using assms(1) by (simp_all add: insert_position_def split: if_splits)
  have "(ps_classification_id p, ps_message_id p) \<notin> (\<lambda>p. (ps_classification_id p, ps_message_id p)) ` set ps"
    using new(1) unfolding list_ex_iff by (metis (mono_tags, lifting) imageE prod.inject)
  moreover have "(ps_classification_id p, ps_position p) \<notin> (\<lambda>p. (ps_classification_id p, ps_position p)) ` set ps"
    using new(2) unfolding list_ex_iff by (metis (mono_tags, lifting) imageE prod.inject)
  ultimately show ?thesis
    using assms(2,3) unfolding ps' positions_ok_def distinct_map_append1 by simp
qed (use assms(2) in simp)

lemma insert_positions_ok:
  assumes "insert_positions i c ms ps = Inr ps'" and "positions_ok rows ps" and "i \<in> cl_id ` set rows"
  shows "positions_ok rows ps'"
  using assms
proof (induction ms arbitrary: ps)
  case (Cons pm ms)
  obtain p m where pm: "pm = (p, m)" by (cases pm)
  obtain ps1 where "insert_position \<lparr>ps_classification_id = i, ps_message_id = m, ps_position = p, ps_created_at = c\<rparr> ps = Inr ps1"
    and r: "insert_positions i c ms ps1 = Inr ps'"
    using Cons.prems(1) pm by (auto elim: on_value_InrE)
  then have "positions_ok rows ps1" using insert_position_ok[of _ ps ps1 rows] Cons.prems(2,3) by simp
  then show ?case using Cons.IH[OF r] Cons.prems(3) by simp
qed simp

text \<open>What a successful insertion does: it finds the row of the key or appends one, and then writes
  positions.\<close>

lemma insert_tx_cases:
  assumes "insert_classification_tx uuid a db = Inr (ident, db')"
  obtains (stored) key r where
      "classification_identity_columns (cf_capabilities db)"
      "normalized_key (cf_capabilities db) (ca_idempotency_key a) = Some key"
      "lookup_by cf_idempotency_key (Some key) (cf_rows db) = Some r" "ident = (cl_id r, cf_public_id r)"
      "store_positions a ident (db\<lparr>cf_next_id := cf_next_id db + 1\<rparr>) = Inr (ident, db')"
    | (fresh) title description key r where
      "r = classification_of (cf_next_id db)
         (if classification_identity_columns (cf_capabilities db) then Some uuid else None) key title description a"
      "key = (if classification_identity_columns (cf_capabilities db)
        then normalized_key (cf_capabilities db) (ca_idempotency_key a) else None)"
      "text_column (dict_get (ca_result a) ''title'') = Inr title"
      "text_column (dict_get (ca_result a) ''description'') = Inr description"
      "classification_check r" "classifications_unique (cf_rows db @ [r])"
      "key = None \<or> key \<notin> cf_idempotency_key ` set (cf_rows db)"
      "ident = (cl_id r, cf_public_id r)"
      "store_positions a ident (db\<lparr>cf_next_id := cf_next_id db + 1, cf_rows := cf_rows db @ [r]\<rparr>) = Inr (ident, db')"
proof -
  define caps where "caps = cf_capabilities db"
  define key where "key = (if classification_identity_columns caps
    then normalized_key caps (ca_idempotency_key a) else None)"
  define pid where "pid = (if classification_identity_columns caps then Some uuid else None)"
  obtain title description where td: "text_column (dict_get (ca_result a) ''title'') = Inr title"
    "text_column (dict_get (ca_result a) ''description'') = Inr description"
    using assms unfolding insert_classification_tx_def Let_def by (auto elim!: on_value_InrE)
  define r where "r = classification_of (cf_next_id db) pid key title description a"
  have keys: "cf_idempotency_key r = key" "cl_id r = cf_next_id db" by (simp_all add: r_def classification_of_def)
  obtain row db1 where ins: "insert_row r db = Inr (row, db1)"
    and rest: "(case (if row = None then stored_identity key db1 else row) of
        None \<Rightarrow> Inl (RuntimeError ''PostgreSQL did not return a classification id'')
      | Some found \<Rightarrow> store_positions a found db1) = Inr (ident, db')"
    using assms td
    unfolding insert_classification_tx_def Let_def caps_def[symmetric] key_def[symmetric] pid_def[symmetric]
    by (auto simp: r_def elim!: on_value_InrE)
  have store_same: "found = ident" if "store_positions a found db1 = Inr (ident, db')" for found
    using that by (auto simp: store_positions_def split: if_splits elim!: on_value_InrE)
  show thesis
  proof (cases row)
    case None
    then have chk: "key \<noteq> None" "key \<in> cf_idempotency_key ` set (cf_rows db)" "db1 = db\<lparr>cf_next_id := cf_next_id db + 1\<rparr>"
      using ins keys by (auto simp: insert_row_def Let_def split: if_splits)
    then obtain k where k: "key = Some k" "classification_identity_columns caps" "normalized_key caps (ca_idempotency_key a) = Some k"
      by (auto simp: key_def split: if_splits)
    obtain found where found: "lookup_by cf_idempotency_key key (cf_rows db) = Some found"
      using chk(2) by (cases "lookup_by cf_idempotency_key key (cf_rows db)") (auto simp: lookup_by_None)
    then have st: "store_positions a (cl_id found, cf_public_id found) db1 = Inr (ident, db')"
      using rest None chk by (simp add: stored_identity_def)
    then show thesis using stored[of k found] store_same[OF st] k found chk(3) caps_def by simp
  next
    case (Some ident0)
    then have chk: "classification_check r" "classifications_unique (cf_rows db @ [r])"
      "key = None \<or> key \<notin> cf_idempotency_key ` set (cf_rows db)" "ident0 = (cl_id r, cf_public_id r)"
      "db1 = db\<lparr>cf_next_id := cf_next_id db + 1, cf_rows := cf_rows db @ [r]\<rparr>"
      using ins keys by (auto simp: insert_row_def Let_def split: if_splits)
    have st: "store_positions a ident0 db1 = Inr (ident, db')" using rest Some by simp
    have fr: "r = classification_of (cf_next_id db)
         (if classification_identity_columns (cf_capabilities db) then Some uuid else None) key title description a"
      by (simp add: r_def pid_def caps_def)
    show thesis using fresh[OF fr _ td chk(1,2,3)] store_same[OF st] st chk(4,5) by (simp add: key_def caps_def)
  qed
qed

lemma store_positions_cases:
  assumes "store_positions a ident db = Inr (ident, db')"
  obtains ps where "db' = db\<lparr>cf_positions := ps\<rparr>"
    "ps = cf_positions db \<or> insert_positions (fst ident) (ca_created_at a) (positioned_ids 0 [] (ca_message_ids a)) (cf_positions db) = Inr ps"
proof (cases "classification_messages (cf_capabilities db)")
  case True
  then show thesis using assms that unfolding store_positions_def by (auto elim!: on_value_InrE)
next
  case False
  then have "db' = db\<lparr>cf_positions := cf_positions db\<rparr>" using assms by (simp add: store_positions_def)
  then show thesis using that by blast
qed

lemma insert_tx_inv:
  assumes "insert_classification_tx uuid a db = Inr (ident, db')" and inv: "classification_inv db"
  shows "classification_inv db'"
  using assms(1)
proof (cases rule: insert_tx_cases)
  case (stored key r)
  have r: "r \<in> set (cf_rows db)" using lookup_by_Some[OF stored(3)] by simp
  obtain ps where ps: "db' = db\<lparr>cf_next_id := cf_next_id db + 1, cf_positions := ps\<rparr>"
    "ps = cf_positions db \<or> insert_positions (fst ident) (ca_created_at a) (positioned_ids 0 [] (ca_message_ids a)) (cf_positions db) = Inr ps"
    using store_positions_cases[OF stored(5)] by auto
  have old: "positions_ok (cf_rows db) (cf_positions db)" using inv by (simp add: classification_inv_def)
  have "positions_ok (cf_rows db) ps"
    using ps(2) insert_positions_ok[OF _ old, of "fst ident"] r stored(4) old by auto
  then show ?thesis using inv ps(1) by (force simp: classification_inv_def)
next
  case (fresh title description key r)
  obtain ps where ps: "db' = db\<lparr>cf_next_id := cf_next_id db + 1, cf_rows := cf_rows db @ [r], cf_positions := ps\<rparr>"
    "ps = cf_positions db \<or> insert_positions (fst ident) (ca_created_at a) (positioned_ids 0 [] (ca_message_ids a)) (cf_positions db) = Inr ps"
    using store_positions_cases[OF fresh(9)] by auto
  have id: "cl_id r = cf_next_id db" using fresh(1) by (simp add: classification_of_def)
  have old: "positions_ok (cf_rows db @ [r]) (cf_positions db)"
    using inv by (auto simp: classification_inv_def positions_ok_def)
  have "positions_ok (cf_rows db @ [r]) ps"
    using ps(2) insert_positions_ok[OF _ old, of "fst ident"] fresh(8) old by auto
  then show ?thesis using inv ps(1) fresh(5,6) id by (force simp: classification_inv_def)
qed

lemma insert_classification_inv:
  "classification_inv db \<Longrightarrow> classification_inv (snd (insert_classification uuid a db))"
  unfolding insert_classification_def by (rule transaction_keeps) (auto intro: insert_tx_inv)

lemma protocol_update_same:
  "map cl_id (update_where P (\<lambda>r. r\<lparr>cf_protocol := p, cf_updated_at := u\<rparr>) rows) = map cl_id rows"
  "map cf_public_id (update_where P (\<lambda>r. r\<lparr>cf_protocol := p, cf_updated_at := u\<rparr>) rows) = map cf_public_id rows"
  "map cf_idempotency_key (update_where P (\<lambda>r. r\<lparr>cf_protocol := p, cf_updated_at := u\<rparr>) rows) =
    map cf_idempotency_key rows"
  by (simp_all add: map_update_where)

lemma map_filter_id: "List.map_filter f xs = List.map_filter id (map f xs)"
  by (induction xs) (simp_all add: map_filter_simps split: option.split)

lemma unique_opt_map: "map f rows = map g rows' \<Longrightarrow> unique_opt f rows = unique_opt g rows'"
  unfolding unique_opt_def map_filter_id[of f] map_filter_id[of g] by simp

lemma update_protocol_inv:
  assumes "classification_inv db"
  shows "classification_inv (snd (update_analysis_protocol now conv p db))"
proof -
  let ?P = "\<lambda>r. cf_conversation_id r = conv \<and> cf_protocol r \<noteq> Some p"
  let ?f = "\<lambda>r. r\<lparr>cf_protocol := Some p, cf_updated_at := now\<rparr>"
  let ?rows = "update_where ?P ?f (cf_rows db)"
  have ids: "cl_id ` set ?rows = cl_id ` set (cf_rows db)"
    using protocol_update_same(1)[where P = ?P and p = "Some p" and u = now and rows = "cf_rows db"] by (metis list.set_map)
  have "classifications_unique ?rows"
    using assms protocol_update_same[where P = ?P and p = "Some p" and u = now and rows = "cf_rows db"]
      unique_opt_map[OF protocol_update_same(2)[where P = ?P and p = "Some p" and u = now and rows = "cf_rows db"]]
      unique_opt_map[OF protocol_update_same(3)[where P = ?P and p = "Some p" and u = now and rows = "cf_rows db"]]
    by (simp add: classification_inv_def classifications_unique_def)
  moreover have "\<forall>r \<in> set ?rows. cl_id r < cf_next_id db"
    using assms by (auto simp: classification_inv_def elim!: update_whereE)
  moreover have "positions_ok ?rows (cf_positions db)"
    using assms unfolding classification_inv_def positions_ok_def ids by simp
  ultimately show ?thesis using assms
    by (simp add: update_analysis_protocol_def Let_def classification_inv_def)
qed

datatype classification_op = Op_Insert string classification_args | Op_Protocol time string string

fun classification_step :: "classification_op \<Rightarrow> classification_db \<Rightarrow> classification_db" where
  "classification_step (Op_Insert uuid a) db = snd (insert_classification uuid a db)"
| "classification_step (Op_Protocol now conv p) db = snd (update_analysis_protocol now conv p db)"

lemma classification_step_inv: "classification_inv db \<Longrightarrow> classification_inv (classification_step x db)"
  by (cases x) (simp_all add: insert_classification_inv update_protocol_inv)

lemma classification_inv_empty: "classification_inv empty_classification_db"
  by (simp add: classification_inv_def empty_classification_db_def classifications_unique_def
    positions_ok_def unique_opt_def map_filter_simps)

text \<open>The part of a classification that no operation rewrites.\<close>

definition fixed_part :: "classification_row \<Rightarrow> classification_row" where
  "fixed_part r = r\<lparr>cf_protocol := None, cf_updated_at := 0\<rparr>"

lemma fixed_part_simps [simp]:
  "cl_id (fixed_part r) = cl_id r" "cf_public_id (fixed_part r) = cf_public_id r"
  "cf_idempotency_key (fixed_part r) = cf_idempotency_key r"
  "cf_message_ids (fixed_part r) = cf_message_ids r"
  "cf_conversation_id (fixed_part r) = cf_conversation_id r"
  by (simp_all add: fixed_part_def)

lemma insert_rows:
  "\<exists>rs. cf_rows (snd (insert_classification uuid a db)) = cf_rows db @ rs"
proof (cases "insert_classification_tx uuid a db")
  case (Inr res)
  then obtain ident db' where tx: "insert_classification_tx uuid a db = Inr (ident, db')" by (cases res) simp
  then have "\<exists>rs. cf_rows db' = cf_rows db @ rs"
  proof (cases rule: insert_tx_cases)
    case (stored key r)
    obtain ps where "db' = db\<lparr>cf_next_id := cf_next_id db + 1\<rparr>\<lparr>cf_positions := ps\<rparr>"
      using store_positions_cases[OF stored(5)] by blast
    then show ?thesis by simp
  next
    case (fresh title description key r)
    obtain ps where "db' = db\<lparr>cf_next_id := cf_next_id db + 1, cf_rows := cf_rows db @ [r]\<rparr>\<lparr>cf_positions := ps\<rparr>"
      using store_positions_cases[OF fresh(9)] by blast
    then show ?thesis by simp
  qed
  then show ?thesis by (simp add: insert_classification_def tx)
qed (simp add: insert_classification_def)

interpretation classifications: snapshot_table "\<lambda>db. map fixed_part (cf_rows db)" cl_id
  classification_step classification_inv
proof
  show "classification_inv s \<Longrightarrow> classification_inv (classification_step x s)" for s x
    by (rule classification_step_inv)
  show "\<exists>rs. map fixed_part (cf_rows (classification_step x s)) = map fixed_part (cf_rows s) @ rs" for s x
  proof (cases x)
    case (Op_Insert uuid a)
    then show ?thesis using insert_rows[of uuid a s] by (auto simp: map_append)
  next
    case (Op_Protocol now conv p)
    then show ?thesis
      by (simp add: update_analysis_protocol_def Let_def map_update_where fixed_part_def)
  qed
  show "classification_inv s \<Longrightarrow> distinct (map cl_id (map fixed_part (cf_rows s)))" for s
    by (simp add: classification_inv_def classifications_unique_def comp_def)
qed

lemma unique_opt_lookup:
  "unique_opt col rows \<Longrightarrow> r \<in> set rows \<Longrightarrow> col r = Some k \<Longrightarrow> lookup_by col (Some k) rows = Some r"
  by (induction rows) (auto simp: unique_opt_Cons opt_differ_def)

definition inserts_as :: "string \<Rightarrow> classification_args \<Rightarrow> classification_db \<Rightarrow> bool" where
  "inserts_as key a db \<longleftrightarrow> classification_identity_columns (cf_capabilities db) \<and>
    normalized_key (cf_capabilities db) (ca_idempotency_key a) = Some key"

lemma insert_capabilities [simp]:
  "cf_capabilities (snd (insert_classification uuid a db)) = cf_capabilities db"
proof (cases "insert_classification_tx uuid a db")
  case (Inr res)
  then obtain ident db' where tx: "insert_classification_tx uuid a db = Inr (ident, db')" by (cases res) simp
  then have "cf_capabilities db' = cf_capabilities db"
    by (cases rule: insert_tx_cases) (auto elim: store_positions_cases)
  then show ?thesis by (simp add: insert_classification_def tx)
qed (simp add: insert_classification_def)

lemma run_capabilities: "cf_capabilities (fold classification_step ops db) = cf_capabilities db"
proof (induction ops arbitrary: db)
  case (Cons x ops)
  have "cf_capabilities (classification_step x db) = cf_capabilities db"
    by (cases x) (simp_all add: update_analysis_protocol_def Let_def)
  with Cons show ?case by simp
qed simp

text \<open>After an insertion the row of its key is in the table.\<close>

lemma insert_stores_key:
  assumes "classification_inv db" and "inserts_as key a db"
    and "insert_classification uuid a db = (Inr ident, db')"
  shows "\<exists>r \<in> set (cf_rows db'). cf_idempotency_key r = Some key \<and> ident = (cl_id r, cf_public_id r)"
proof -
  have tx: "insert_classification_tx uuid a db = Inr (ident, db')"
    using assms(3) by (cases "insert_classification_tx uuid a db") (auto simp: insert_classification_def)
  then show ?thesis
  proof (cases rule: insert_tx_cases)
    case (stored k r)
    then have "k = key" using assms(2) by (simp add: inserts_as_def)
    moreover have "cf_rows db' = cf_rows db" using store_positions_cases[OF stored(5)] by force
    ultimately show ?thesis using lookup_by_Some[OF stored(3)] stored(4) by auto
  next
    case (fresh title description k r)
    then have "k = Some key" using assms(2) by (simp add: inserts_as_def)
    moreover obtain ps where "db' = db\<lparr>cf_next_id := cf_next_id db + 1, cf_rows := cf_rows db @ [r]\<rparr>\<lparr>cf_positions := ps\<rparr>"
      using store_positions_cases[OF fresh(9)] by blast
    ultimately show ?thesis using fresh(1,8) by (simp add: classification_of_def)
  qed
qed

lemma insert_finds_key:
  assumes inv: "classification_inv db" and "inserts_as key a db"
    and r: "r \<in> set (cf_rows db)" "cf_idempotency_key r = Some key"
    and "insert_classification uuid a db = (Inr ident, db')"
  shows "ident = (cl_id r, cf_public_id r) \<and> cf_rows db' = cf_rows db"
proof -
  have look: "lookup_by cf_idempotency_key (Some key) (cf_rows db) = Some r"
    using unique_opt_lookup r inv by (auto simp: classification_inv_def classifications_unique_def)
  have tx: "insert_classification_tx uuid a db = Inr (ident, db')"
    using assms(5) by (cases "insert_classification_tx uuid a db") (auto simp: insert_classification_def)
  then show ?thesis
  proof (cases rule: insert_tx_cases)
    case (stored k r')
    have "cf_rows db' = cf_rows db" using store_positions_cases[OF stored(5)] by force
    then show ?thesis using stored look assms(2) by (simp add: inserts_as_def)
  next
    case (fresh title description k r')
    then show ?thesis using assms(2) r by (force simp: inserts_as_def)
  qed
qed

lemma row_kept_by_key:
  assumes "classification_inv db" and "r \<in> set (cf_rows db)" and "cf_idempotency_key r = Some key"
  shows "\<exists>r' \<in> set (cf_rows (fold classification_step ops db)).
    fixed_part r' = fixed_part r \<and> cf_idempotency_key r' = Some key"
proof -
  have "lookup_by cl_id (cl_id (fixed_part r)) (map fixed_part (cf_rows (fold classification_step ops db))) = Some (fixed_part r)"
    by (rule classifications.row_kept[OF assms(1)]) (use assms(2) in simp)
  then obtain r' where "r' \<in> set (cf_rows (fold classification_step ops db))" "fixed_part r' = fixed_part r"
    using lookup_by_Some by fastforce
  then show ?thesis using assms(3) fixed_part_simps(3) by metis
qed

section \<open>Properties\<close>

text \<open>C22: A cycle is classified once: after an insertion under an idempotency key has returned an identity, whatever
  is inserted and updated afterwards, another insertion under the key returns that identity and adds no
  classification, or fails and leaves the tables as they were; what the first one stored is kept.\<close>

theorem classified_once:
  assumes "classification_inv db" and "inserts_as key a db" and "inserts_as key b db"
    and "insert_classification uuid a db = (Inr ident, db1)"
  shows "let db2 = fold classification_step ops db1
    in case insert_classification uuid' b db2 of
        (Inl e, db3) \<Rightarrow> db3 = db2
      | (Inr ident', db3) \<Rightarrow> ident' = ident \<and> cf_rows db3 = cf_rows db2"
proof -
  define db2 where "db2 = fold classification_step ops db1"
  have inv1: "classification_inv db1"
    using insert_classification_inv[OF assms(1), of uuid a] assms(4) by simp
  then have inv2: "classification_inv db2" unfolding db2_def by (rule classifications.run_inv)
  have caps: "cf_capabilities db2 = cf_capabilities db"
    using run_capabilities[of ops db1] insert_capabilities[of uuid a db] assms(4) by (simp add: db2_def)
  then have b: "inserts_as key b db2" using assms(3) by (simp add: inserts_as_def)
  obtain r where r: "r \<in> set (cf_rows db1)" "cf_idempotency_key r = Some key" "ident = (cl_id r, cf_public_id r)"
    using insert_stores_key[OF assms(1,2,4)] by blast
  obtain r' where r': "r' \<in> set (cf_rows db2)" "fixed_part r' = fixed_part r" "cf_idempotency_key r' = Some key"
    using row_kept_by_key[OF inv1 r(1,2), of ops] unfolding db2_def by blast
  have ident: "ident = (cl_id r', cf_public_id r')" using r(3) r'(2) fixed_part_simps(1,2) by metis
  obtain res db3 where ins: "insert_classification uuid' b db2 = (res, db3)" by fastforce
  have "case insert_classification uuid' b db2 of
        (Inl e, db3) \<Rightarrow> db3 = db2
      | (Inr ident', db3) \<Rightarrow> ident' = ident \<and> cf_rows db3 = cf_rows db2"
  proof (cases res)
    case (Inl e)
    then have "db3 = db2" using ins by (cases "insert_classification_tx uuid' b db2") (auto simp: insert_classification_def)
    then show ?thesis using ins Inl by simp
  next
    case (Inr ident')
    then show ?thesis using insert_finds_key[OF inv2 b r'(1,3)] ins ident by simp
  qed
  then show ?thesis unfolding db2_def Let_def .
qed

definition storable :: "classification_args \<Rightarrow> bool" where
  "storable a \<longleftrightarrow> valid_answer (ca_result a) \<and> 0 \<le> ca_message_count a \<and> 0 \<le> ca_processing_time_ms a \<and>
    btrim (ca_conversation_id a) \<noteq> [] \<and> btrim (ca_model a) \<noteq> [] \<and>
    (\<forall>m \<in> set (ca_message_ids a). btrim m \<noteq> [])"

lemma normalized_key_nonblank: "normalized_key caps k = Some key \<Longrightarrow> btrim key \<noteq> []"
  by (auto simp: normalized_key_def dest: btrim_py_strip split: option.splits if_splits)

lemma storable_columns:
  assumes "storable a"
  obtains title description where
    "dict_get (ca_result a) ''title'' = JStr title" "dict_get (ca_result a) ''description'' = JStr description"
    "\<And>i pid key. nonblank_opt key \<Longrightarrow> classification_check (classification_of i pid key (Some title) (Some description) a)"
proof -
  have v: "valid_answer (ca_result a)" using assms by (simp add: storable_def)
  obtain title description where td: "dict_get (ca_result a) ''title'' = JStr title"
    "dict_get (ca_result a) ''description'' = JStr description"
    using v by (auto simp: valid_answer_def nonblank_text_def split: jvalue.splits)
  have "result_intent_type (ca_result a) \<in> set VALID_INTENT_TYPES"
    using normalize_intent_range[of "dict_get (ca_result a) ''intent_type''"]
    by (auto simp: result_intent_type_def VALID_INTENT_TYPES_def split: option.splits)
  then have "classification_check (classification_of i pid key (Some title) (Some description) a)"
    if "nonblank_opt key" for i pid key
    using assms that v
    by (simp add: classification_check_def classification_of_def storable_def confidence_column_def valid_answer_def)
  then show thesis using that td by blast
qed

lemma positioned_nonblank: "storable a \<Longrightarrow> \<forall>pm \<in> set (positioned_ids 0 [] (ca_message_ids a)). btrim (snd pm) \<noteq> []"
  using positioned_snd[of 0 "[]" "ca_message_ids a"] by (force simp: storable_def)

lemma no_position_yet:
  assumes "classification_inv db"
  shows "\<not> has_message (cf_next_id db) m (cf_positions db)" "\<not> has_position (cf_next_id db) p (cf_positions db)"
  using assms by (fastforce simp: classification_inv_def positions_ok_def has_message_def has_position_def list_ex_iff)+

lemma fresh_insert:
  assumes inv: "classification_inv db" and a: "inserts_as key a db" "storable a"
    and caps: "classification_messages (cf_capabilities db)"
    and new: "Some key \<notin> cf_idempotency_key ` set (cf_rows db)" "Some uuid \<notin> cf_public_id ` set (cf_rows db)"
    and title: "dict_get (ca_result a) ''title'' = JStr title"
      "dict_get (ca_result a) ''description'' = JStr description"
  shows "insert_classification uuid a db = (Inr (cf_next_id db, Some uuid), db
      \<lparr>cf_next_id := cf_next_id db + 1,
       cf_rows := cf_rows db @ [classification_of (cf_next_id db) (Some uuid) (Some key) (Some title) (Some description) a],
       cf_positions := cf_positions db @
         map (position_of (cf_next_id db) (ca_created_at a)) (positioned_ids 0 [] (ca_message_ids a))\<rparr>)"
proof -
  let ?r = "classification_of (cf_next_id db) (Some uuid) (Some key) (Some title) (Some description) a"
  have key: "btrim key \<noteq> []" using a(1) normalized_key_nonblank by (auto simp: inserts_as_def)
  have chk: "classification_check ?r"
    using storable_columns[OF a(2)] title key by (metis jvalue.inject(4) nonblank_opt_simps(2))
  have parts: "cl_id ?r = cf_next_id db" "cf_public_id ?r = Some uuid" "cf_idempotency_key ?r = Some key"
    by (simp_all add: classification_of_def)
  have "cf_next_id db \<notin> cl_id ` set (cf_rows db)" using inv by (auto simp: classification_inv_def)
  then have uniq: "classifications_unique (cf_rows db @ [?r])"
    using inv new parts
    by (auto simp: classification_inv_def classifications_unique_def unique_opt_snoc opt_differ_def)
  have row: "insert_row ?r db = Inr (Some (cf_next_id db, Some uuid),
      db\<lparr>cf_next_id := cf_next_id db + 1, cf_rows := cf_rows db @ [?r]\<rparr>)"
    using chk uniq parts new(1) by (simp add: insert_row_def Let_def)
  have pos: "insert_positions (cf_next_id db) (ca_created_at a) (positioned_ids 0 [] (ca_message_ids a)) (cf_positions db) =
      Inr (cf_positions db @ map (position_of (cf_next_id db) (ca_created_at a)) (positioned_ids 0 [] (ca_message_ids a)))"
    using insert_positions_result[OF positioned_fst conjunct1[OF positioned_snd] positioned_nonblank[OF a(2)]]
      no_position_yet[OF inv] by simp
  show ?thesis
    using a(1) row pos caps title
    by (simp add: insert_classification_def insert_classification_tx_def Let_def inserts_as_def text_column_def
      store_positions_def)
qed

text \<open>The first insertion under a key stores exactly one classification, with what the model answered, and
  one association per distinct message, at the position of its first occurrence.\<close>

theorem classification_recorded:
  assumes "classification_inv db" and "inserts_as key a db" and "storable a"
    and "classification_messages (cf_capabilities db)"
    and "Some key \<notin> cf_idempotency_key ` set (cf_rows db)" and "Some uuid \<notin> cf_public_id ` set (cf_rows db)"
  shows "\<exists>r ps db'. insert_classification uuid a db = (Inr (cf_next_id db, Some uuid), db') \<and>
    cf_rows db' = cf_rows db @ [r] \<and> cf_positions db' = cf_positions db @ ps \<and>
    cf_idempotency_key r = Some key \<and> cf_conversation_id r = ca_conversation_id a \<and>
    cl_confidence r = dict_get (ca_result a) ''confidence'' \<and>
    dict_get (ca_result a) ''title'' = JStr (the (cl_title r)) \<and>
    cf_intent_type r \<in> set VALID_INTENT_TYPES \<and>
    map ps_message_id ps = first_occurrences (ca_message_ids a) \<and>
    (\<forall>p \<in> set ps. ps_classification_id p = cf_next_id db \<and>
      ps_position p = length (takeWhile (\<lambda>m. m \<noteq> ps_message_id p) (ca_message_ids a)))"
proof -
  obtain title description where td: "dict_get (ca_result a) ''title'' = JStr title"
    "dict_get (ca_result a) ''description'' = JStr description"
    "\<And>i pid k. nonblank_opt k \<Longrightarrow> classification_check (classification_of i pid k (Some title) (Some description) a)"
    by (rule storable_columns[OF assms(3)]) (rule that)
  let ?r = "classification_of (cf_next_id db) (Some uuid) (Some key) (Some title) (Some description) a"
  let ?ps = "map (position_of (cf_next_id db) (ca_created_at a)) (positioned_ids 0 [] (ca_message_ids a))"
  have first: "fst pm = length (takeWhile (\<lambda>m. m \<noteq> snd pm) ms)" if "pm \<in> set (positioned_ids 0 [] ms)" for pm and ms :: "string list"
  proof -
    have pm: "fst pm < length ms" "ms ! fst pm = snd pm" "snd pm \<notin> set (take (fst pm) ms)"
      using that by (auto simp: positioned_ids_enumerate in_set_enumerate_eq)
    have "takeWhile (\<lambda>m. m \<noteq> snd pm) ms = take (fst pm) ms"
    proof (rule takeWhile_eq_take_P_nth)
      fix i assume "i < fst pm" "i < length ms"
      then have "ms ! i \<in> set (take (fst pm) ms)" by (force simp: in_set_conv_nth)
      then show "ms ! i \<noteq> snd pm" using pm(3) by auto
    qed (use pm in simp)
    then show ?thesis using pm(1) by simp
  qed
  have order: "map snd (positioned_ids n seen ms) = filter (\<lambda>m. m \<notin> set seen) (first_occurrences ms)"
    for n seen and ms :: "string list"
    by (induction n seen ms rule: positioned_ids.induct) (auto intro!: filter_cong)
  have "classification_check ?r"
    using td(3) normalized_key_nonblank assms(2) by (auto simp: inserts_as_def)
  then have "cf_intent_type ?r \<in> set VALID_INTENT_TYPES" by (simp add: classification_check_def)
  then show ?thesis
    using fresh_insert[OF assms td(1,2)] order[of 0 "[]" "ca_message_ids a"] first[of _ "ca_message_ids a"] td(1)
    by (intro exI[of _ ?r] exI[of _ ?ps])
      (auto simp: position_of_def comp_def, simp_all add: classification_of_def)
qed

lemma replay_insert:
  assumes inv: "classification_inv db" and b: "inserts_as key b db" "storable b"
    and caps: "classification_messages (cf_capabilities db)"
    and r: "r \<in> set (cf_rows db)" "cf_idempotency_key r = Some key"
  shows "insert_classification uuid b db =
    (case insert_positions (cl_id r) (ca_created_at b) (positioned_ids 0 [] (ca_message_ids b)) (cf_positions db) of
       Inl e \<Rightarrow> (Inl e, db)
     | Inr ps \<Rightarrow> (Inr (cl_id r, cf_public_id r), db\<lparr>cf_next_id := cf_next_id db + 1, cf_positions := ps\<rparr>))"
proof -
  obtain title description where td: "dict_get (ca_result b) ''title'' = JStr title"
    "dict_get (ca_result b) ''description'' = JStr description"
    "\<And>i pid k. nonblank_opt k \<Longrightarrow> classification_check (classification_of i pid k (Some title) (Some description) b)"
    by (rule storable_columns[OF b(2)]) (rule that)
  let ?r = "classification_of (cf_next_id db) (Some uuid) (Some key) (Some title) (Some description) b"
  have chk: "classification_check ?r" using td(3) normalized_key_nonblank b(1) by (auto simp: inserts_as_def)
  have "Some key \<in> cf_idempotency_key ` set (cf_rows db)" using r by force
  then have row: "insert_row ?r db = Inr (None, db\<lparr>cf_next_id := cf_next_id db + 1\<rparr>)"
    using chk by (simp add: insert_row_def Let_def classification_of_def)
  have look: "lookup_by cf_idempotency_key (Some key) (cf_rows db) = Some r"
    using unique_opt_lookup r inv by (auto simp: classification_inv_def classifications_unique_def)
  show ?thesis
    using b(1) row look caps td(1,2)
    by (simp add: insert_classification_def insert_classification_tx_def Let_def inserts_as_def text_column_def
      stored_identity_def store_positions_def on_value_def split: sum.split)
qed

text \<open>The associations of a stored classification do not follow a retry that recovered another history: when
  the cycle of a classification with the messages \<open>a\<close> is classified again over the messages \<open>b\<close>, the
  insertion fails as soon as a new message of \<open>b\<close> has a position that a message of \<open>a\<close> holds (the clause
  \<open>ON CONFLICT (classification_id, message_id)\<close> does not cover the unique positions), and succeeds otherwise.\<close>

theorem replay_position_conflict:
  assumes "classification_inv db" and "inserts_as key a db" and "inserts_as key b db"
    and "storable a" and "storable b" and "classification_messages (cf_capabilities db)"
    and "Some key \<notin> cf_idempotency_key ` set (cf_rows db)" and "Some uuid \<notin> cf_public_id ` set (cf_rows db)"
    and "distinct (ca_message_ids a)" and "distinct (ca_message_ids b)"
  shows "let (_, db1) = insert_classification uuid a db;
      (res, db2) = insert_classification uuid' b db1
    in (res = Inl position_violation \<and> db2 = db1) =
      (\<exists>i < length (ca_message_ids b). i < length (ca_message_ids a) \<and>
        ca_message_ids b ! i \<notin> set (ca_message_ids a)) \<and>
      (res = Inl position_violation \<or> res = Inr (cf_next_id db, Some uuid))"
proof -
  obtain title description where td: "dict_get (ca_result a) ''title'' = JStr title"
    "dict_get (ca_result a) ''description'' = JStr description"
    "\<And>i pid k. nonblank_opt k \<Longrightarrow> classification_check (classification_of i pid k (Some title) (Some description) a)"
    by (rule storable_columns[OF assms(4)]) (rule that)
  define i where "i = cf_next_id db"
  define r where "r = classification_of i (Some uuid) (Some key) (Some title) (Some description) a"
  define db1 where "db1 = snd (insert_classification uuid a db)"
  have ins: "insert_classification uuid a db = (Inr (i, Some uuid), db1)"
    and db1: "cf_rows db1 = cf_rows db @ [r]" "cf_capabilities db1 = cf_capabilities db"
      "cf_positions db1 = cf_positions db @ map (position_of i (ca_created_at a)) (List.enumerate 0 (ca_message_ids a))"
    using fresh_insert[OF assms(1,2,4,6,7,8) td(1,2)] positioned_distinct[OF assms(9)]
    by (simp_all add: db1_def r_def i_def)
  have inv1: "classification_inv db1"
    using insert_classification_inv[OF assms(1), of uuid a] by (simp add: db1_def)
  have b1: "inserts_as key b db1" "classification_messages (cf_capabilities db1)"
    using assms(3,6) db1(2) by (simp_all add: inserts_as_def)
  have r: "r \<in> set (cf_rows db1)" "cf_idempotency_key r = Some key" "cl_id r = i" "cf_public_id r = Some uuid"
    by (simp_all add: db1(1)) (simp_all add: r_def classification_of_def)
  have old: "\<not> list_ex (\<lambda>x. ps_classification_id x = i \<and> P x) (cf_positions db)" for P
    using assms(1) by (fastforce simp: i_def classification_inv_def positions_ok_def list_ex_iff)
  have has: "has_message i m (cf_positions db1) \<longleftrightarrow> m \<in> set (ca_message_ids a)"
    "has_position i p (cf_positions db1) \<longleftrightarrow> p < length (ca_message_ids a)" for m p
  proof -
    have "snd ` set (List.enumerate 0 (ca_message_ids a)) = set (ca_message_ids a)"
      "fst ` set (List.enumerate 0 (ca_message_ids a)) = {0..<length (ca_message_ids a)}"
      by (metis list.set_map map_snd_enumerate, metis add_0 list.set_map map_fst_enumerate set_upt)
    then show "has_message i m (cf_positions db1) \<longleftrightarrow> m \<in> set (ca_message_ids a)"
      "has_position i p (cf_positions db1) \<longleftrightarrow> p < length (ca_message_ids a)"
      using old[of "\<lambda>x. ps_message_id x = m"] old[of "\<lambda>x. ps_position x = p"]
      by (simp_all add: db1(3) has_all has_message_def has_position_def)
  qed
  have dist: "distinct (map fst (List.enumerate 0 (ca_message_ids b)))"
    "distinct (map snd (List.enumerate 0 (ca_message_ids b)))"
    "\<forall>pm \<in> set (List.enumerate 0 (ca_message_ids b)). btrim (snd pm) \<noteq> []"
    using positioned_fst[of 0 "[]" "ca_message_ids b"] positioned_snd[of 0 "[]" "ca_message_ids b"]
      positioned_nonblank[OF assms(5)] positioned_distinct[OF assms(10)] by simp_all
  define ps where "ps = insert_positions i (ca_created_at b) (List.enumerate 0 (ca_message_ids b)) (cf_positions db1)"
  have second: "insert_classification uuid' b db1 =
    (case ps of Inl e \<Rightarrow> (Inl e, db1)
     | Inr ps \<Rightarrow> (Inr (i, Some uuid), db1\<lparr>cf_next_id := cf_next_id db1 + 1, cf_positions := ps\<rparr>))"
    unfolding ps_def replay_insert[OF inv1 b1(1) assms(5) b1(2) r(1,2)] r(3,4) positioned_distinct[OF assms(10)]
    ..
  have conflict: "(\<exists>pm \<in> set (List.enumerate 0 (ca_message_ids b)). \<not> has_message i (snd pm) (cf_positions db1) \<and>
      has_position i (fst pm) (cf_positions db1)) \<longleftrightarrow>
    (\<exists>i < length (ca_message_ids b). i < length (ca_message_ids a) \<and> ca_message_ids b ! i \<notin> set (ca_message_ids a))"
    unfolding has set_enumerate0 by auto
  have ps: "ps = (if \<exists>i < length (ca_message_ids b). i < length (ca_message_ids a) \<and> ca_message_ids b ! i \<notin> set (ca_message_ids a)
     then Inl position_violation
     else Inr (cf_positions db1 @ map (position_of i (ca_created_at b))
       (filter (\<lambda>pm. \<not> has_message i (snd pm) (cf_positions db1)) (List.enumerate 0 (ca_message_ids b)))))"
    unfolding ps_def insert_positions_result[OF dist] conflict ..
  show ?thesis unfolding ins by (simp add: second ps i_def)
qed

subsection \<open>Witnesses\<close>

definition sample_answer :: jdict where
  "sample_answer = [(''intent_type'', JStr ''question''), (''confidence'', JInt 1), (''title'', JStr ''t''),
    (''description'', JStr ''d''), (''department'', JList [JStr ''Fiscal''])]"

definition sample_args :: "string list \<Rightarrow> classification_args" where
  "sample_args ms = \<lparr>ca_conversation_id = ''c'', ca_message_ids = ms, ca_created_at = 5, ca_full_context = ''x'',
    ca_message_count = 2, ca_result = sample_answer, ca_model = ''m'', ca_processing_time_ms = 3,
    ca_prompt_version = ''1'', ca_protocol = None, ca_idempotency_key = Some ''ia:cycle:u''\<rparr>"

lemma sample_storable: "storable (sample_args [''m1'', ''m2''])" "storable (sample_args [''m0'', ''m1''])"
  by code_simp+

lemma sample_inserts: "inserts_as ''ia:cycle:u'' (sample_args ms) empty_classification_db"
proof -
  have "py_strip ''ia:cycle:u'' = ''ia:cycle:u''" by code_simp
  then show ?thesis
    by (simp add: inserts_as_def normalized_key_def sample_args_def empty_classification_db_def full_schema_def)
qed

lemma empty_classification_facts:
  "classification_messages (cf_capabilities empty_classification_db)"
  "Some key \<notin> cf_idempotency_key ` set (cf_rows empty_classification_db)"
  "Some uuid \<notin> cf_public_id ` set (cf_rows empty_classification_db)"
  "cf_next_id empty_classification_db = 1"
  by (simp_all add: empty_classification_db_def full_schema_def)

theorem classification_recorded_witness:
  "fst (insert_classification ''u'' (sample_args [''m1'', ''m2'']) empty_classification_db) = Inr (1, Some ''u'')"
  using classification_recorded[OF classification_inv_empty sample_inserts sample_storable(1)
      empty_classification_facts(1-3), of "''u''"] empty_classification_facts(4) by auto

theorem replay_position_conflict_witness:
  "fst (insert_classification ''v'' (sample_args [''m0'', ''m1''])
    (snd (insert_classification ''u'' (sample_args [''m1'', ''m2'']) empty_classification_db))) = Inl position_violation"
proof -
  have ids: "ca_message_ids (sample_args ms) = ms" for ms by (simp add: sample_args_def)
  show ?thesis
    using replay_position_conflict[OF classification_inv_empty sample_inserts sample_inserts sample_storable
      empty_classification_facts(1-3), where uuid' = "''v''" and uuid = "''u''"]
    by (auto simp: ids split: prod.splits)
qed

theorem classified_once_witness:
  "let db1 = snd (insert_classification ''u'' (sample_args [''m1'', ''m2'']) empty_classification_db);
      db2 = fold classification_step [Op_Protocol 9 ''c'' ''p''] db1
    in case insert_classification ''v'' (sample_args [''m1'', ''m2'']) db2 of
        (Inl e, db3) \<Rightarrow> db3 = db2
      | (Inr ident', db3) \<Rightarrow> ident' = (1, Some ''u'') \<and> cf_rows db3 = cf_rows db2"
proof -
  obtain db1 where "insert_classification ''u'' (sample_args [''m1'', ''m2'']) empty_classification_db = (Inr (1, Some ''u''), db1)"
    using classification_recorded[OF classification_inv_empty sample_inserts sample_storable(1)
      empty_classification_facts(1-3), of "''u''"] empty_classification_facts(4) by auto
  from classified_once[OF classification_inv_empty sample_inserts sample_inserts this,
      where ops = "[Op_Protocol 9 ''c'' ''p'']" and uuid' = "''v''"] this
  show ?thesis by simp
qed

end
