(* ===== verification/Ticket_Directory.thy ===== *)
theory Ticket_Directory
  imports Directory_Tables Finalization
begin

text \<open>
  The assignment history of a ticket and the cache of the DigiSac directories
  (\<open>src/core/ticket_assignment_repository.py\<close>, \<open>src/core/digisac_directory_repository.py\<close>,
  \<open>src/core/digisac_directory.py\<close>).  The HTTP session is the parameter \<open>get\<close>, which answers the request of a
  page in a world \<open>'w\<close>, \<open>sleep\<close> passes the time between attempts, \<open>fromiso\<close> is
  \<open>datetime.fromisoformat\<close> (see \<open>Finalization\<close>) and \<open>now\<close> the clock.  The pages are fetched by a loop
  that the answers control, so it is a \<open>partial_function\<close>: below are a condition under which it returns and one
  under which it never does.
\<close>

section \<open>State\<close>

record assignment_row = ticket_assignment +
  ta_user_id :: "string option"
  ta_source_event_id :: "string option"
  ta_event_key :: string
  ta_transfer_count :: "int option"
  ta_created_at :: time

record event_key_row =
  ek_event_key :: string
  ek_conversation_id :: string
  ek_created_at :: time

record name_row =
  nr_id :: string
  nr_name :: string
  nr_source_updated_at :: "time option"
  nr_synced_at :: time

record sync_row =
  sy_resource :: string
  sy_last_attempt_at :: "time option"
  sy_last_success_at :: "time option"

record ticket_db =
  td_event_keys :: "event_key_row list"
  td_history :: "assignment_row list"
  td_departments :: "name_row list"
  td_users :: "name_row list"
  td_sync :: "sync_row list"
  td_next_id :: int

definition empty_ticket_db :: ticket_db where
  "empty_ticket_db = \<lparr>td_event_keys = [], td_history = [], td_departments = [], td_users = [],
    td_sync = [], td_next_id = 1\<rparr>"

section \<open>Recording an assignment\<close>

definition assignment_violation :: py_error where
  "assignment_violation = CheckViolation ''ticket_assignment_history''"

definition event_key_check :: "event_key_row \<Rightarrow> bool" where
  "event_key_check k \<longleftrightarrow> btrim (ek_event_key k) \<noteq> [] \<and> btrim (ek_conversation_id k) \<noteq> []"

definition assignment_check :: "assignment_row \<Rightarrow> bool" where
  "assignment_check r \<longleftrightarrow>
    btrim (ta_conversation_id r) \<noteq> [] \<and> btrim (ta_event_key r) \<noteq> [] \<and>
    (case ta_transfer_count r of None \<Rightarrow> True | Some n \<Rightarrow> 0 \<le> n)"

text \<open>\<open>ORDER BY event_timestamp DESC, id DESC LIMIT 1\<close>.\<close>

definition latest_assignment :: "string \<Rightarrow> assignment_row list \<Rightarrow> assignment_row option" where
  "latest_assignment conv rows =
    fetchone (select_limit 1 (\<lambda>r. (- ta_event_timestamp r, - ta_id r)) (\<lambda>r. ta_conversation_id r = conv) rows)"

definition new_assignment ::
  "int \<Rightarrow> string \<Rightarrow> string option \<Rightarrow> string option \<Rightarrow> time \<Rightarrow> string option \<Rightarrow> string \<Rightarrow> int option \<Rightarrow> time \<Rightarrow>
   assignment_row" where
  "new_assignment i conv department user event_timestamp source key transfers now =
    \<lparr>ta_id = i, ta_conversation_id = conv, ta_department_id = department, ta_event_timestamp = event_timestamp,
     ta_user_id = user, ta_source_event_id = source, ta_event_key = key, ta_transfer_count = transfers,
     ta_created_at = now\<rparr>"

definition insert_assignment :: "assignment_row \<Rightarrow> ticket_db \<Rightarrow> py_error + bool \<times> ticket_db" where
  "insert_assignment r db =
    (if \<not> assignment_check r then Inl assignment_violation
     else Inr (True, db\<lparr>td_next_id := td_next_id db + 1,
       td_history := (if ta_event_key r \<in> ta_event_key ` set (td_history db) then td_history db
         else td_history db @ [r])\<rparr>))"

definition record_assignment_tx ::
  "time \<Rightarrow> string \<Rightarrow> string option \<Rightarrow> string option \<Rightarrow> time \<Rightarrow> string option \<Rightarrow> string \<Rightarrow> int option \<Rightarrow> ticket_db \<Rightarrow>
   py_error + bool \<times> ticket_db" where
  "record_assignment_tx now conv department user event_timestamp source key transfers db =
    (let k = \<lparr>ek_event_key = key, ek_conversation_id = conv, ek_created_at = now\<rparr>;
         db' = db\<lparr>td_event_keys := td_event_keys db @ [k]\<rparr>
     in if \<not> event_key_check k then Inl assignment_violation
        else if key \<in> ek_event_key ` set (td_event_keys db) then Inr (False, db)
        else if map_option (\<lambda>p. (ta_department_id p, ta_user_id p)) (latest_assignment conv (td_history db)) =
            Some (department, user) then Inr (False, db')
        else insert_assignment
          (new_assignment (td_next_id db) conv department user event_timestamp source key transfers now) db')"

definition record_ticket_assignment ::
  "time \<Rightarrow> string \<Rightarrow> string option \<Rightarrow> string option \<Rightarrow> time \<Rightarrow> string option \<Rightarrow> string \<Rightarrow> int option \<Rightarrow> ticket_db \<Rightarrow>
   (py_error + bool) \<times> ticket_db" where
  "record_ticket_assignment now conv department user event_timestamp source key transfers db =
    (if department = None \<and> user = None then (Inr False, db)
     else transaction db (record_assignment_tx now conv department user event_timestamp source key transfers db))"

section \<open>Names\<close>

definition joined_name :: "string option \<Rightarrow> name_row list \<Rightarrow> string option" where
  "joined_name i rows = Option.bind i (\<lambda>i. map_option nr_name (lookup_by nr_id i rows))"

text \<open>The loop over one of the two columns: names in order without repetition, and the ids without a name.\<close>

fun collect_names ::
  "(string option \<times> string option) list \<Rightarrow> string list \<Rightarrow> string list \<Rightarrow> string list \<times> string list" where
  "collect_names [] names unresolved = (names, unresolved)"
| "collect_names ((i, name) # rows) names unresolved =
    (let normalized = (case name of None \<Rightarrow> [] | Some n \<Rightarrow> py_strip n)
     in if normalized \<noteq> []
        then collect_names rows (if normalized \<in> set names then names else names @ [normalized]) unresolved
        else case i of
          None \<Rightarrow> collect_names rows names unresolved
        | Some d \<Rightarrow>
            collect_names rows names
              (if d \<noteq> [] \<and> d \<notin> set unresolved then unresolved @ [d] else unresolved))"

definition assignments_of :: "string \<Rightarrow> ticket_db \<Rightarrow> assignment_row list" where
  "assignments_of conv db =
    sort_key (\<lambda>r. (ta_event_timestamp r, ta_id r)) (filter (\<lambda>r. ta_conversation_id r = conv) (td_history db))"

definition resolve_ticket_assignments ::
  "string \<Rightarrow> ticket_db \<Rightarrow> string list \<times> string list \<times> string list \<times> string list" where
  "resolve_ticket_assignments conv db =
    (let rows = assignments_of conv db;
         (departments, unresolved_departments) =
           collect_names (map (\<lambda>r. (ta_department_id r, joined_name (ta_department_id r) (td_departments db))) rows) [] [];
         (agents, unresolved_users) =
           collect_names (map (\<lambda>r. (ta_user_id r, joined_name (ta_user_id r) (td_users db))) rows) [] []
     in (departments, agents, unresolved_departments, unresolved_users))"

definition resolve_user_names :: "string list \<Rightarrow> ticket_db \<Rightarrow> string \<rightharpoonup> string" where
  "resolve_user_names user_ids db i =
    (if i \<in> set user_ids \<and> i \<noteq> []
     then Option.bind (lookup_by nr_id i (td_users db))
       (\<lambda>r. if py_strip (nr_name r) = [] then None else Some (py_strip (nr_name r)))
     else None)"

section \<open>The cache\<close>

definition unsupported_resource :: py_error where
  "unsupported_resource = ValueError ''Unsupported DigiSac directory resource''"

definition DIRECTORY_RESOURCES :: "string list" where
  "DIRECTORY_RESOURCES = [''departments'', ''users'']"

text \<open>\<open>_parse_timestamp\<close> of the database facade, which raises on a text that is no date.\<close>

definition parse_required :: "iso_parser \<Rightarrow> string \<Rightarrow> py_error + time" where
  "parse_required fromiso s =
    (case parse_timestamp fromiso (JStr s) of
       None \<Rightarrow> Inl (ValueError ''Invalid isoformat string'')
     | Some t \<Rightarrow> Inr t)"

fun directory_rows :: "iso_parser \<Rightarrow> time \<Rightarrow> jdict list \<Rightarrow> py_error + name_row list" where
  "directory_rows fromiso synced_at [] = Inr []"
| "directory_rows fromiso synced_at (entry # entries) =
    (case (dict_get entry ''id'', dict_get entry ''name'') of
       (JStr i, JStr name) \<Rightarrow>
        (if py_strip i = [] \<or> py_strip name = [] then directory_rows fromiso synced_at entries
         else on_value
           (case dict_get entry ''updatedAt'' of
              JStr s \<Rightarrow> (case parse_required fromiso s of Inl e \<Rightarrow> Inl e | Inr t \<Rightarrow> Inr (Some t))
            | _ \<Rightarrow> Inr None)
           (\<lambda>updated. on_value (directory_rows fromiso synced_at entries)
             (\<lambda>rows. Inr (\<lparr>nr_id = py_strip i, nr_name = py_strip name, nr_source_updated_at = updated,
               nr_synced_at = synced_at\<rparr> # rows))))
     | _ \<Rightarrow> directory_rows fromiso synced_at entries)"

definition upsert_name :: "name_row \<Rightarrow> name_row list \<Rightarrow> name_row list" where
  "upsert_name r rows =
    (if nr_id r \<in> nr_id ` set rows then update_where (\<lambda>x. nr_id x = nr_id r) (\<lambda>_. r) rows else rows @ [r])"

definition upsert_sync :: "string \<Rightarrow> (sync_row \<Rightarrow> sync_row) \<Rightarrow> sync_row list \<Rightarrow> sync_row list" where
  "upsert_sync resource f rows =
    (if resource \<in> sy_resource ` set rows then update_where (\<lambda>x. sy_resource x = resource) f rows
     else rows @ [f \<lparr>sy_resource = resource, sy_last_attempt_at = None, sy_last_success_at = None\<rparr>])"

definition upsert_digisac_directory ::
  "iso_parser \<Rightarrow> string \<Rightarrow> jdict list \<Rightarrow> time \<Rightarrow> ticket_db \<Rightarrow> (py_error + nat) \<times> ticket_db" where
  "upsert_digisac_directory fromiso resource entries synced_at db =
    (if resource \<notin> set DIRECTORY_RESOURCES then (Inl unsupported_resource, db)
     else case directory_rows fromiso synced_at entries of
       Inl e \<Rightarrow> (Inl e, db)
     | Inr rows \<Rightarrow>
        (let sync = upsert_sync resource
               (\<lambda>s. s\<lparr>sy_last_attempt_at := Some synced_at, sy_last_success_at := Some synced_at\<rparr>) (td_sync db)
         in (Inr (length rows),
             if resource = ''departments''
             then db\<lparr>td_departments := fold upsert_name rows (td_departments db), td_sync := sync\<rparr>
             else db\<lparr>td_users := fold upsert_name rows (td_users db), td_sync := sync\<rparr>)))"

definition mark_directory_sync_attempt ::
  "string \<Rightarrow> time \<Rightarrow> ticket_db \<Rightarrow> (py_error + unit) \<times> ticket_db" where
  "mark_directory_sync_attempt resource attempted_at db =
    (if resource \<notin> set DIRECTORY_RESOURCES
     then (Inl (CheckViolation ''digisac_directory_sync_state''), db)
     else (Inr (), db\<lparr>td_sync := upsert_sync resource (\<lambda>s. s\<lparr>sy_last_attempt_at := Some attempted_at\<rparr>) (td_sync db)\<rparr>))"

definition directory_refresh_is_due :: "time \<Rightarrow> int \<Rightarrow> ticket_db \<Rightarrow> bool" where
  "directory_refresh_is_due now cooldown_seconds db =
    list_ex (\<lambda>resource. case Option.bind (lookup_by sy_resource resource (td_sync db)) sy_last_attempt_at of
        None \<Rightarrow> True
      | Some t \<Rightarrow> t \<le> now - seconds cooldown_seconds) DIRECTORY_RESOURCES"

section \<open>Fetching\<close>

definition TRANSIENT_STATUSES :: "int list" where
  "TRANSIENT_STATUSES = [408, 425, 429, 500, 502, 503, 504]"

text \<open>What a request gives: a timeout, a connection error, or a response with its status and its decoded body
  (\<open>None\<close> when it is no JSON).\<close>

datatype page_response = Timed_Out | No_Connection | Answered int "jvalue option"

datatype fetch_error =
    Fetch_Timeout
  | Fetch_Connection
  | Transient_Directory int
  | Http_Error int
  | Bad_Response string
  | Not_Configured

definition fetch_transient :: "fetch_error \<Rightarrow> bool" where
  "fetch_transient e =
    (case e of Fetch_Timeout \<Rightarrow> True | Fetch_Connection \<Rightarrow> True | Transient_Directory s \<Rightarrow> True | _ \<Rightarrow> False)"

text \<open>A Python \<open>bool\<close> is an \<open>int\<close>.\<close>

definition page_number :: "jvalue \<Rightarrow> int option" where
  "page_number v = (case v of JInt n \<Rightarrow> Some n | JBool b \<Rightarrow> Some (if b then 1 else 0) | _ \<Rightarrow> None)"

fun object_items :: "jvalue list \<Rightarrow> jdict list" where
  "object_items [] = []"
| "object_items (JObj d # items) = d # object_items items"
| "object_items (_ # items) = object_items items"

definition read_directory_page :: "page_response \<Rightarrow> fetch_error + jdict list \<times> int \<times> int" where
  "read_directory_page response =
    (case response of
       Timed_Out \<Rightarrow> Inl Fetch_Timeout
     | No_Connection \<Rightarrow> Inl Fetch_Connection
     | Answered status body \<Rightarrow>
        (if status \<in> set TRANSIENT_STATUSES then Inl (Transient_Directory status)
         else if 400 \<le> status \<and> status < 600 then Inl (Http_Error status)
         else case body of
           None \<Rightarrow> Inl (Bad_Response ''not JSON'')
         | Some (JObj payload) \<Rightarrow>
            (case (dict_get payload ''data'', page_number (dict_get payload ''currentPage''),
                page_number (dict_get payload ''lastPage'')) of
               (JList items, Some current, Some last_page) \<Rightarrow> Inr (object_items items, current, last_page)
             | (JList items, _, _) \<Rightarrow> Inl (Bad_Response ''response has invalid pagination'')
             | _ \<Rightarrow> Inl (Bad_Response ''response is missing data list''))
         | Some _ \<Rightarrow> Inl (Bad_Response ''response must be an object'')))"

text \<open>\<open>remaining\<close> counts the attempts after this one.\<close>

fun fetch_directory_page ::
  "(int \<Rightarrow> 'w \<Rightarrow> page_response \<times> 'w) \<Rightarrow> (int \<Rightarrow> 'w \<Rightarrow> 'w) \<Rightarrow> nat \<Rightarrow> nat \<Rightarrow> int \<Rightarrow> 'w \<Rightarrow>
   (fetch_error + jdict list \<times> int \<times> int) \<times> 'w" where
  "fetch_directory_page get sleep remaining attempt page w =
    (case get page w of
       (response, w1) \<Rightarrow>
         (case (read_directory_page response, remaining) of
            (Inl e, Suc n) \<Rightarrow>
              (if fetch_transient e
               then fetch_directory_page get sleep n (Suc attempt) page (sleep (min (2 ^ (attempt - 1)) 4) w1)
               else (Inl e, w1))
          | (outcome, _) \<Rightarrow> (outcome, w1)))"

partial_function (option) fetch_pages ::
  "(int \<Rightarrow> 'w \<Rightarrow> page_response \<times> 'w) \<Rightarrow> (int \<Rightarrow> 'w \<Rightarrow> 'w) \<Rightarrow> nat \<Rightarrow> int \<Rightarrow> int \<Rightarrow> jdict list \<Rightarrow> 'w \<Rightarrow>
   ((fetch_error + jdict list) \<times> 'w) option" where
  "fetch_pages get sleep max_retries page last_page entries w =
    (if page \<le> last_page
     then (case fetch_directory_page get sleep (max_retries - 1) 1 page w of
             (Inl e, w') \<Rightarrow> Some (Inl e, w')
           | (Inr (items, current, raw_last), w') \<Rightarrow>
               fetch_pages get sleep max_retries (current + 1) (max raw_last current) (entries @ items) w')
     else Some (Inr entries, w))"

declare fetch_pages.simps [code]

text \<open>\<open>max(1, settings.digisac_directory_max_retries)\<close> attempts per page.\<close>

definition fetch_resource ::
  "bool \<Rightarrow> (int \<Rightarrow> 'w \<Rightarrow> page_response \<times> 'w) \<Rightarrow> (int \<Rightarrow> 'w \<Rightarrow> 'w) \<Rightarrow> int \<Rightarrow> 'w \<Rightarrow>
   ((fetch_error + jdict list) \<times> 'w) option" where
  "fetch_resource configured get sleep max_retries w =
    (if \<not> configured then Some (Inl Not_Configured, w)
     else fetch_pages get sleep (nat (max 1 max_retries)) 1 1 [] w)"

section \<open>Synchronization\<close>

text \<open>One resource; \<open>None\<close> is a fetch that does not return.  The clocks are \<open>attempted\<close> and \<open>synced\<close>.\<close>

definition sync_resource ::
  "iso_parser \<Rightarrow> (string \<Rightarrow> 'w \<Rightarrow> ((fetch_error + jdict list) \<times> 'w) option) \<Rightarrow> string \<Rightarrow> time \<Rightarrow> time \<Rightarrow>
   ticket_db \<Rightarrow> 'w \<Rightarrow> (bool \<times> ticket_db \<times> 'w) option" where
  "sync_resource fromiso fetch resource attempted synced db w =
    (let db1 = snd (mark_directory_sync_attempt resource attempted db)
     in case fetch resource w of
          None \<Rightarrow> None
        | Some (Inl e, w1) \<Rightarrow> Some (False, db1, w1)
        | Some (Inr entries, w1) \<Rightarrow>
            (case upsert_digisac_directory fromiso resource entries synced db1 of
               (Inl e, db2) \<Rightarrow> Some (False, db2, w1)
             | (Inr n, db2) \<Rightarrow> Some (True, db2, w1)))"

definition sync_digisac_directories ::
  "bool \<Rightarrow> iso_parser \<Rightarrow> (string \<Rightarrow> 'w \<Rightarrow> ((fetch_error + jdict list) \<times> 'w) option) \<Rightarrow> (nat \<Rightarrow> time) \<Rightarrow> int \<Rightarrow> bool \<Rightarrow>
   ticket_db \<Rightarrow> 'w \<Rightarrow> (bool \<times> ticket_db \<times> 'w) option" where
  "sync_digisac_directories configured fromiso fetch now cooldown_seconds force db w =
    (if \<not> configured then Some (False, db, w)
     else if \<not> force \<and> \<not> directory_refresh_is_due (now 0) cooldown_seconds db then Some (False, db, w)
     else case sync_resource fromiso fetch ''departments'' (now 1) (now 2) db w of
       None \<Rightarrow> None
     | Some (ok1, db1, w1) \<Rightarrow>
        (case sync_resource fromiso fetch ''users'' (now 3) (now 4) db1 w1 of
           None \<Rightarrow> None
         | Some (ok2, db2, w2) \<Rightarrow> Some (ok1 \<and> ok2, db2, w2)))"

text \<open>The worker's \<open>_resolve_assignment_names\<close>.\<close>

definition resolve_assignment_names ::
  "(ticket_db \<Rightarrow> 'w \<Rightarrow> (bool \<times> ticket_db \<times> 'w) option) \<Rightarrow> string \<Rightarrow> ticket_db \<Rightarrow> 'w \<Rightarrow>
   ((string list \<times> string list) \<times> ticket_db \<times> 'w) option" where
  "resolve_assignment_names sync conv db w =
    (case resolve_ticket_assignments conv db of
       (departments, agents, unresolved_departments, unresolved_users) \<Rightarrow>
        (if unresolved_departments \<noteq> [] \<or> unresolved_users \<noteq> []
         then (case sync db w of
                 None \<Rightarrow> None
               | Some (ok, db1, w1) \<Rightarrow>
                   (case resolve_ticket_assignments conv db1 of
                      (departments, agents, _, _) \<Rightarrow> Some ((departments, agents), db1, w1)))
         else Some ((departments, agents), db, w)))"

section \<open>Invariant\<close>

definition ticket_inv :: "ticket_db \<Rightarrow> bool" where
  "ticket_inv db \<longleftrightarrow>
    distinct (map ek_event_key (td_event_keys db)) \<and> distinct (map ta_event_key (td_history db)) \<and>
    ta_event_key ` set (td_history db) \<subseteq> ek_event_key ` set (td_event_keys db) \<and>
    distinct (map ta_id (td_history db)) \<and> (\<forall>r \<in> set (td_history db). ta_id r < td_next_id db) \<and>
    list_all event_key_check (td_event_keys db) \<and> list_all assignment_check (td_history db) \<and>
    distinct (map nr_id (td_departments db)) \<and> distinct (map nr_id (td_users db)) \<and>
    (\<forall>r \<in> set (td_departments db) \<union> set (td_users db). py_strip (nr_name r) \<noteq> []) \<and>
    distinct (map sy_resource (td_sync db)) \<and> sy_resource ` set (td_sync db) \<subseteq> set DIRECTORY_RESOURCES"

lemma ticket_inv_empty: "ticket_inv empty_ticket_db"
  by (simp add: ticket_inv_def empty_ticket_db_def)

datatype ticket_op =
    T_Record string "string option" "string option" time "string option" string "int option"
  | T_Upsert iso_parser string "jdict list"
  | T_Mark string

fun ticket_step :: "time \<Rightarrow> ticket_op \<Rightarrow> ticket_db \<Rightarrow> ticket_db" where
  "ticket_step now (T_Record conv department user event_at source key transfers) db =
    snd (record_ticket_assignment now conv department user event_at source key transfers db)"
| "ticket_step now (T_Upsert fromiso resource entries) db =
    snd (upsert_digisac_directory fromiso resource entries now db)"
| "ticket_step now (T_Mark resource) db = snd (mark_directory_sync_attempt resource now db)"

lemma record_tx_cases:
  assumes "record_assignment_tx now conv department user event_at source key transfers db = Inr (res, db')"
  obtains (seen) "key \<in> ek_event_key ` set (td_event_keys db)" "res = False" "db' = db"
    | (unchanged) k where "k = \<lparr>ek_event_key = key, ek_conversation_id = conv, ek_created_at = now\<rparr>"
        "event_key_check k" "key \<notin> ek_event_key ` set (td_event_keys db)" "res = False"
        "map_option (\<lambda>p. (ta_department_id p, ta_user_id p)) (latest_assignment conv (td_history db)) =
          Some (department, user)"
        "db' = db\<lparr>td_event_keys := td_event_keys db @ [k]\<rparr>"
    | (changed) k r where "k = \<lparr>ek_event_key = key, ek_conversation_id = conv, ek_created_at = now\<rparr>"
        "r = new_assignment (td_next_id db) conv department user event_at source key transfers now"
        "event_key_check k" "assignment_check r" "key \<notin> ek_event_key ` set (td_event_keys db)" "res = True"
        "map_option (\<lambda>p. (ta_department_id p, ta_user_id p)) (latest_assignment conv (td_history db)) \<noteq>
          Some (department, user)"
        "db' = db\<lparr>td_event_keys := td_event_keys db @ [k], td_next_id := td_next_id db + 1,
          td_history := (if key \<in> ta_event_key ` set (td_history db) then td_history db else td_history db @ [r])\<rparr>"
proof -
  let ?k = "\<lparr>ek_event_key = key, ek_conversation_id = conv, ek_created_at = now\<rparr>"
  let ?r = "new_assignment (td_next_id db) conv department user event_at source key transfers now"
  let ?prev = "map_option (\<lambda>p. (ta_department_id p, ta_user_id p)) (latest_assignment conv (td_history db))"
  have ok: "event_key_check ?k" using assms by (auto simp: record_assignment_tx_def Let_def split: if_splits)
  show thesis
  proof (cases "key \<in> ek_event_key ` set (td_event_keys db)")
    case True
    then have "res = False" "db' = db"
      using assms ok unfolding record_assignment_tx_def Let_def by simp_all
    then show thesis by (rule seen[OF True])
  next
    case new: False
    show thesis
    proof (cases "?prev = Some (department, user)")
      case True
      then have "res = False" "db' = db\<lparr>td_event_keys := td_event_keys db @ [?k]\<rparr>"
        using assms ok new unfolding record_assignment_tx_def Let_def if_P[OF True] by simp_all
      then show thesis by (intro unchanged[OF refl ok new _ True])
    next
      case False
      then have ins: "insert_assignment ?r (db\<lparr>td_event_keys := td_event_keys db @ [?k]\<rparr>) = Inr (res, db')"
        using assms ok new unfolding record_assignment_tx_def Let_def if_not_P[OF False] by simp
      then have chk: "assignment_check ?r" by (auto simp: insert_assignment_def split: if_splits)
      have key: "ta_event_key ?r = key" by (simp add: new_assignment_def)
      have "res = True" "db' = db\<lparr>td_event_keys := td_event_keys db @ [?k], td_next_id := td_next_id db + 1,
          td_history := (if key \<in> ta_event_key ` set (td_history db) then td_history db else td_history db @ [?r])\<rparr>"
        using ins chk key by (cases "key \<in> ta_event_key ` set (td_history db)"; simp add: insert_assignment_def)+
      then show thesis by (intro changed[OF refl refl ok chk new _ False])
    qed
  qed
qed

lemma record_tx_inv:
  assumes "record_assignment_tx now conv department user event_at source key transfers db = Inr (res, db')"
    and "ticket_inv db"
  shows "ticket_inv db'"
  using assms(1)
proof (cases rule: record_tx_cases)
  case seen
  then show ?thesis using assms(2) by simp
next
  case (unchanged k)
  then show ?thesis using assms(2) by (auto simp: ticket_inv_def)
next
  case (changed k r)
  have "key \<notin> ta_event_key ` set (td_history db)" using changed(5) assms(2) by (auto simp: ticket_inv_def)
  moreover have "ta_id r = td_next_id db" "ta_event_key r = key" using changed(2) by (simp_all add: new_assignment_def)
  moreover have "td_next_id db \<notin> ta_id ` set (td_history db)" using assms(2) by (auto simp: ticket_inv_def)
  ultimately show ?thesis using changed assms(2) by (force simp: ticket_inv_def)
qed

lemma record_inv:
  "ticket_inv db \<Longrightarrow> ticket_inv (snd (record_ticket_assignment now conv department user event_at source key transfers db))"
  unfolding record_ticket_assignment_def
  by (cases "department = None \<and> user = None")
    (auto intro!: transaction_keeps[where I = ticket_inv] intro: record_tx_inv)

lemma upsert_name_ids: "nr_id ` set (upsert_name r rows) = insert (nr_id r) (nr_id ` set rows)"
proof (cases "nr_id r \<in> nr_id ` set rows")
  case True
  then have "map nr_id (upsert_name r rows) = map nr_id rows" by (simp add: upsert_name_def map_update_where)
  then show ?thesis using True by (metis insert_absorb list.set_map)
qed (auto simp: upsert_name_def)

lemma upsert_name_distinct: "distinct (map nr_id rows) \<Longrightarrow> distinct (map nr_id (upsert_name r rows))"
  by (auto simp: upsert_name_def map_update_where)

lemma fold_upsert_name:
  assumes "distinct (map nr_id rows)" and "\<forall>r \<in> set rows \<union> set new. py_strip (nr_name r) \<noteq> []"
  shows "distinct (map nr_id (fold upsert_name new rows)) \<and>
    (\<forall>r \<in> set (fold upsert_name new rows). py_strip (nr_name r) \<noteq> []) \<and>
    nr_id ` set (fold upsert_name new rows) = nr_id ` set rows \<union> nr_id ` set new"
  using assms
proof (induction new arbitrary: rows)
  case (Cons r new)
  have "\<forall>x \<in> set (upsert_name r rows) \<union> set new. py_strip (nr_name x) \<noteq> []"
    using Cons.prems(2) by (auto simp: upsert_name_def split: if_splits elim!: update_whereE)
  from Cons.IH[OF upsert_name_distinct[OF Cons.prems(1)] this] show ?case
    by (simp add: upsert_name_ids)
qed simp

lemma directory_rows_named:
  "directory_rows fromiso synced_at entries = Inr rows \<Longrightarrow>
    \<forall>r \<in> set rows. py_strip (nr_name r) \<noteq> [] \<and> nr_synced_at r = synced_at"
proof (induction entries arbitrary: rows)
  case (Cons entry entries)
  then show ?case
    by (auto split: jvalue.splits if_splits sum.splits elim!: on_value_InrE)
qed simp

lemma upsert_sync_ok:
  assumes "\<And>s. sy_resource (f s) = sy_resource s" and "distinct (map sy_resource rows)"
  shows "distinct (map sy_resource (upsert_sync resource f rows))"
    "sy_resource ` set (upsert_sync resource f rows) = insert resource (sy_resource ` set rows)"
proof -
  have eq: "map sy_resource (update_where (\<lambda>x. sy_resource x = resource) f rows) = map sy_resource rows"
    using assms(1) by (simp add: map_update_where)
  then show "distinct (map sy_resource (upsert_sync resource f rows))"
    using assms by (auto simp: upsert_sync_def)
  have "sy_resource ` set (update_where (\<lambda>x. sy_resource x = resource) f rows) = sy_resource ` set rows"
    using eq by (metis list.set_map)
  then show "sy_resource ` set (upsert_sync resource f rows) = insert resource (sy_resource ` set rows)"
    using assms(1) by (auto simp: upsert_sync_def)
qed

lemma upsert_directory_inv:
  assumes "ticket_inv db"
  shows "ticket_inv (snd (upsert_digisac_directory fromiso resource entries synced_at db))"
proof (cases "resource \<in> set DIRECTORY_RESOURCES")
  case True
  show ?thesis
  proof (cases "directory_rows fromiso synced_at entries")
    case (Inr rows)
    let ?f = "\<lambda>s. s\<lparr>sy_last_attempt_at := Some synced_at, sy_last_success_at := Some synced_at\<rparr>"
    have sync: "distinct (map sy_resource (upsert_sync resource ?f (td_sync db)))"
      "sy_resource ` set (upsert_sync resource ?f (td_sync db)) \<subseteq> set DIRECTORY_RESOURCES"
      using upsert_sync_ok[of ?f "td_sync db" resource] assms True by (auto simp: ticket_inv_def)
    have named: "\<forall>r \<in> set rows. py_strip (nr_name r) \<noteq> []" using directory_rows_named[OF Inr] by blast
    have "\<forall>r \<in> set (td_departments db) \<union> set rows. py_strip (nr_name r) \<noteq> []"
      "\<forall>r \<in> set (td_users db) \<union> set rows. py_strip (nr_name r) \<noteq> []"
      using assms named by (auto simp: ticket_inv_def)
    then show ?thesis
      using fold_upsert_name[of "td_departments db" rows] fold_upsert_name[of "td_users db" rows] assms True Inr sync
      by (auto simp: upsert_digisac_directory_def ticket_inv_def Let_def)
  qed (use assms True in \<open>simp add: upsert_digisac_directory_def\<close>)
qed (use assms in \<open>simp add: upsert_digisac_directory_def\<close>)

lemma mark_attempt_inv:
  assumes "ticket_inv db"
  shows "ticket_inv (snd (mark_directory_sync_attempt resource attempted db))"
  using upsert_sync_ok[of "\<lambda>s. s\<lparr>sy_last_attempt_at := Some attempted\<rparr>" "td_sync db" resource] assms
  by (auto simp: mark_directory_sync_attempt_def ticket_inv_def)

lemma ticket_step_inv: "ticket_inv db \<Longrightarrow> ticket_inv (ticket_step now x db)"
  by (cases x) (simp_all add: record_inv upsert_directory_inv mark_attempt_inv)

section \<open>The history of a ticket\<close>

definition ticket_gate :: "time \<Rightarrow> ticket_op \<Rightarrow> ticket_db \<Rightarrow> string option \<times> ticket_db" where
  "ticket_gate now x db =
    (case x of
       T_Record conv department user event_at source key transfers \<Rightarrow>
         (case record_ticket_assignment now conv department user event_at source key transfers db of
            (res, db') \<Rightarrow> (if res = Inr True then Some key else None, db'))
     | _ \<Rightarrow> (None, ticket_step now x db))"

lemma ticket_gate_step: "snd (ticket_gate now x db) = ticket_step now x db"
  by (cases x) (simp_all add: ticket_gate_def split: prod.splits)

lemma ticket_step_keys:
  "\<exists>ks. td_event_keys (ticket_step now x db) = td_event_keys db @ ks"
proof (cases x)
  case (T_Record conv department user event_at source key transfers)
  show ?thesis
  proof (cases "department = None \<and> user = None")
    case False
    show ?thesis
    proof (cases "record_assignment_tx now conv department user event_at source key transfers db")
      case (Inr p)
      then obtain res db' where tx: "record_assignment_tx now conv department user event_at source key transfers db = Inr (res, db')"
        by (cases p) simp
      then have "\<exists>ks. td_event_keys db' = td_event_keys db @ ks" by (cases rule: record_tx_cases) simp_all
      then show ?thesis using T_Record tx False by (auto simp: record_ticket_assignment_def)
    qed (use T_Record False in \<open>auto simp: record_ticket_assignment_def\<close>)
  qed (use T_Record in \<open>simp add: record_ticket_assignment_def\<close>)
qed (auto simp: upsert_digisac_directory_def mark_directory_sync_attempt_def Let_def split: sum.splits)

lemma record_True:
  assumes "record_ticket_assignment now conv department user event_at source key transfers db = (Inr True, db')"
  shows "key \<notin> ek_event_key ` set (td_event_keys db) \<and> key \<in> ek_event_key ` set (td_event_keys db')"
proof -
  have "record_assignment_tx now conv department user event_at source key transfers db = Inr (True, db')"
    using assms by (cases "record_assignment_tx now conv department user event_at source key transfers db")
      (auto simp: record_ticket_assignment_def split: if_splits)
  then show ?thesis by (cases rule: record_tx_cases) simp_all
qed

interpretation assignment_events: event_gate ticket_gate
    "\<lambda>t k db. k \<in> ek_event_key ` set (td_event_keys db)" ticket_inv ttl for ttl
proof
  show "ticket_inv s \<Longrightarrow> ticket_gate now x s = (res, s') \<Longrightarrow> ticket_inv s'" for s now x res s'
    using ticket_step_inv[of s now x] ticket_gate_step[of now x s] by simp
  show "ticket_gate now x s = (Some k, s') \<Longrightarrow> k \<notin> ek_event_key ` set (td_event_keys s)" for s now x k s'
    by (auto simp: ticket_gate_def dest: record_True split: ticket_op.splits prod.splits if_splits)
  show "ticket_gate now x s = (Some k, s') \<Longrightarrow> k \<in> ek_event_key ` set (td_event_keys s')" for s now x k s'
    by (auto simp: ticket_gate_def dest: record_True split: ticket_op.splits prod.splits if_splits)
  show "ticket_gate now x s = (res, s') \<Longrightarrow> k \<in> ek_event_key ` set (td_event_keys s) \<Longrightarrow>
      k \<in> ek_event_key ` set (td_event_keys s')" for s now x res s' k
    using ticket_gate_step[of now x s] ticket_step_keys[of now x s] by auto
qed

text \<open>Redelivered assignment events count once: in any sequence of recordings and directory updates, whatever
  the rows on disk, the event keys whose recording is answered \<open>True\<close> are pairwise different.\<close>

theorem assignment_events_once:
  assumes "ticket_inv db" and "sorted (map fst ops)"
  shows "distinct (map snd (gate_run ticket_gate ops db))"
proof -
  have "snd (gate_run ticket_gate ops db ! i) \<noteq> snd (gate_run ticket_gate ops db ! j)"
    if ij: "i < j" "j < length (gate_run ticket_gate ops db)" for i j
  proof -
    obtain t k t' k' where at: "gate_run ticket_gate ops db ! i = (t, k)" "gate_run ticket_gate ops db ! j = (t', k')"
      by (cases "gate_run ticket_gate ops db ! i"; cases "gate_run ticket_gate ops db ! j") auto
    have "k = k' \<longrightarrow> t + (t' - t + 1) \<le> t'"
      using sorted_wrt_nth_less[OF assignment_events.acceptances_spaced[OF assms, of "t' - t + 1"] ij]
      unfolding at by simp
    then show ?thesis using at by auto
  qed
  then show ?thesis by (simp add: distinct_conv_nth) (metis nat_neq_iff)
qed

text \<open>What the history of a ticket is meant to hold: the changes of its department and user.\<close>

fun changes :: "'a option \<Rightarrow> ('t \<times> 'a) list \<Rightarrow> ('t \<times> 'a) list" where
  "changes previous [] = []"
| "changes previous ((t, a) # xs) =
    (if previous = Some a then changes previous xs else (t, a) # changes (Some a) xs)"

type_synonym assignment_event = "time \<times> string option \<times> string option \<times> string"

fun record_events :: "time \<Rightarrow> string \<Rightarrow> assignment_event list \<Rightarrow> ticket_db \<Rightarrow> ticket_db" where
  "record_events now conv [] db = db"
| "record_events now conv ((t, department, user, key) # es) db =
    record_events now conv es (snd (record_ticket_assignment now conv department user t None key None db))"

definition history_of :: "string \<Rightarrow> ticket_db \<Rightarrow> assignment_row list" where
  "history_of conv db = filter (\<lambda>r. ta_conversation_id r = conv) (td_history db)"

definition assigned :: "assignment_row \<Rightarrow> time \<times> string option \<times> string option" where
  "assigned r = (ta_event_timestamp r, ta_department_id r, ta_user_id r)"

definition last_assignment :: "string \<Rightarrow> ticket_db \<Rightarrow> assignment_row option" where
  "last_assignment conv db = (if history_of conv db = [] then None else Some (last (history_of conv db)))"

definition before :: "assignment_row \<Rightarrow> assignment_row \<Rightarrow> bool" where
  "before a b \<longleftrightarrow> ta_event_timestamp a \<le> ta_event_timestamp b \<and> ta_id a < ta_id b"

text \<open>When the rows of a ticket are in the order of their times, the latest is the last one.\<close>

lemma latest_is_last:
  assumes "ticket_inv db" and "sorted_wrt before (history_of conv db)"
  shows "latest_assignment conv (td_history db) = last_assignment conv db"
proof (cases "history_of conv db" rule: rev_cases)
  case Nil
  then have "select_limit 1 (\<lambda>r. (- ta_event_timestamp r, - ta_id r)) (\<lambda>r. ta_conversation_id r = conv) (td_history db) = []"
    by (auto simp: history_of_def filter_empty_conv)
  then show ?thesis using Nil by (simp add: latest_assignment_def last_assignment_def)
next
  case (snoc rs r)
  have mem: "s \<in> set (rs @ [r]) \<longleftrightarrow> s \<in> set (td_history db) \<and> ta_conversation_id s = conv" for s
    unfolding snoc[symmetric] history_of_def by auto
  have below: "ta_event_timestamp s \<le> ta_event_timestamp r \<and> ta_id s < ta_id r" if "s \<in> set rs" for s
    using assms(2) that unfolding snoc by (auto simp: sorted_wrt_append before_def)
  have "latest_assignment conv (td_history db) = Some r"
    unfolding latest_assignment_def
  proof (rule fetchone_select_limit_1)
    show "r \<in> set (td_history db)" "ta_conversation_id r = conv" using mem[of r] by simp_all
    fix s assume "s \<in> set (td_history db)" "ta_conversation_id s = conv" "s \<noteq> r"
    then have "s \<in> set rs" using mem[of s] by simp
    from below[OF this] show "(- ta_event_timestamp r, - ta_id r) < (- ta_event_timestamp s, - ta_id s)"
      by auto
  qed
  then show ?thesis by (simp add: last_assignment_def snoc)
qed

lemma in_order_snoc:
  assumes "sorted_wrt R xs" and "\<forall>x \<in> set xs. R x y"
  shows "sorted_wrt R (xs @ [y])"
  using assms by (simp add: sorted_wrt_append)

fun fresh_event :: "ticket_db \<Rightarrow> assignment_event \<Rightarrow> bool" where
  "fresh_event db (t, department, user, key) \<longleftrightarrow>
    btrim key \<noteq> [] \<and> (department \<noteq> None \<or> user \<noteq> None) \<and> key \<notin> ek_event_key ` set (td_event_keys db)"

definition event_key :: "assignment_event \<Rightarrow> string" where
  "event_key e = snd (snd (snd e))"

definition change_of :: "assignment_event \<Rightarrow> time \<times> string option \<times> string option" where
  "change_of e = (case e of (t, department, user, key) \<Rightarrow> (t, department, user))"

definition holder :: "assignment_row \<Rightarrow> string option \<times> string option" where
  "holder r = (ta_department_id r, ta_user_id r)"

lemma record_event_effect:
  assumes "ticket_inv db" and "sorted_wrt before (history_of conv db)" and "btrim conv \<noteq> []"
    and "fresh_event db (t, department, user, key)"
  shows "\<exists>k r db'. record_ticket_assignment now conv department user t None key None db =
      (Inr (map_option holder (last_assignment conv db) \<noteq> Some (department, user)), db') \<and>
    db' = (if map_option holder (last_assignment conv db) = Some (department, user)
      then db\<lparr>td_event_keys := td_event_keys db @ [k]\<rparr>
      else db\<lparr>td_event_keys := td_event_keys db @ [k], td_next_id := td_next_id db + 1,
        td_history := td_history db @ [r]\<rparr>) \<and>
    ek_event_key k = key \<and> ta_id r = td_next_id db \<and> ta_conversation_id r = conv \<and> assigned r = (t, department, user)"
proof -
  define k where "k = \<lparr>ek_event_key = key, ek_conversation_id = conv, ek_created_at = now\<rparr>"
  define r where "r = new_assignment (td_next_id db) conv department user t None key None now"
  have key: "btrim key \<noteq> []" "department \<noteq> None \<or> user \<noteq> None" "key \<notin> ek_event_key ` set (td_event_keys db)"
    using assms(4) by simp_all
  have latest: "latest_assignment conv (td_history db) = last_assignment conv db"
    by (rule latest_is_last[OF assms(1,2)])
  have ok: "event_key_check k" "assignment_check r"
    using key assms(3) by (simp_all add: event_key_check_def assignment_check_def k_def r_def new_assignment_def)
  have noh: "key \<notin> ta_event_key ` set (td_history db)" using key(3) assms(1) by (auto simp: ticket_inv_def)
  have parts: "ta_event_key r = key" "ta_id r = td_next_id db" "ta_conversation_id r = conv"
    "assigned r = (t, department, user)" "ek_event_key k = key"
    by (simp_all add: r_def new_assignment_def assigned_def k_def)
  let ?same = "map_option holder (last_assignment conv db) = Some (department, user)"
  have "record_assignment_tx now conv department user t None key None db =
      (if ?same then Inr (False, db\<lparr>td_event_keys := td_event_keys db @ [k]\<rparr>)
       else Inr (True, db\<lparr>td_event_keys := td_event_keys db @ [k], td_next_id := td_next_id db + 1,
         td_history := td_history db @ [r]\<rparr>))"
    using key(3) ok noh parts(1)
    unfolding record_assignment_tx_def Let_def latest k_def[symmetric] r_def[symmetric] insert_assignment_def
      holder_def[abs_def, symmetric]
    by simp
  moreover have nn: "\<not> (department = None \<and> user = None)" using key(2) by auto
  ultimately have "record_ticket_assignment now conv department user t None key None db =
      (Inr (\<not> ?same), if ?same then db\<lparr>td_event_keys := td_event_keys db @ [k]\<rparr>
      else db\<lparr>td_event_keys := td_event_keys db @ [k], td_next_id := td_next_id db + 1,
        td_history := td_history db @ [r]\<rparr>)"
    unfolding record_ticket_assignment_def if_not_P[OF nn] by (cases ?same) (simp_all del: map_option_eq_Some)
  then show ?thesis using parts by blast
qed

lemma history_grows:
  assumes "ticket_inv db" and "sorted_wrt before (history_of conv db)" and "btrim conv \<noteq> []"
    and "\<forall>r \<in> set (history_of conv db). \<forall>e \<in> set evs. ta_event_timestamp r \<le> fst e"
    and "sorted (map fst evs)" and "distinct (map event_key evs)" and "\<forall>e \<in> set evs. fresh_event db e"
  shows "map assigned (history_of conv (record_events now conv evs db)) = map assigned (history_of conv db) @
    changes (map_option holder (last_assignment conv db)) (map change_of evs)"
  using assms
proof (induction evs arbitrary: db)
  case (Cons e evs)
  obtain t department user key where e: "e = (t, department, user, key)" by (cases e)
  define same where "same \<longleftrightarrow> map_option holder (last_assignment conv db) = Some (department, user)"
  obtain k r db' where rec: "snd (record_ticket_assignment now conv department user t None key None db) = db'"
    and db': "db' = (if same then db\<lparr>td_event_keys := td_event_keys db @ [k]\<rparr>
      else db\<lparr>td_event_keys := td_event_keys db @ [k], td_next_id := td_next_id db + 1,
        td_history := td_history db @ [r]\<rparr>)"
    and parts: "ek_event_key k = key" "ta_id r = td_next_id db" "ta_conversation_id r = conv"
      "assigned r = (t, department, user)"
    using record_event_effect[OF Cons.prems(1-3), of t department user key now] Cons.prems(7) e
    unfolding same_def by (metis list.set_intros(1) snd_conv)
  have inv': "ticket_inv db'" unfolding rec[symmetric] by (rule record_inv[OF Cons.prems(1)])
  have h': "history_of conv db' = (if same then history_of conv db else history_of conv db @ [r])"
    using db' parts(3) by (simp add: history_of_def)
  have rt: "ta_event_timestamp r = t" "holder r = (department, user)" using parts(4) by (simp_all add: assigned_def holder_def)
  have "\<forall>x \<in> set (history_of conv db). before x r"
    using Cons.prems(1,4) e parts(2) rt by (auto simp: before_def history_of_def ticket_inv_def)
  then have sorted': "sorted_wrt before (history_of conv db')"
    unfolding h' using Cons.prems(2) by (simp add: sorted_wrt_append)
  have times': "\<forall>x \<in> set (history_of conv db'). \<forall>e \<in> set evs. ta_event_timestamp x \<le> fst e"
    unfolding h' using Cons.prems(4,5) e rt by auto
  have ks: "ek_event_key ` set (td_event_keys db') = insert key (ek_event_key ` set (td_event_keys db))"
    using db' parts(1) by simp
  have "fresh_event db' x" if x: "x \<in> set evs" for x
  proof -
    obtain t2 d2 u2 k2 where x2: "x = (t2, d2, u2, k2)" by (cases x)
    have "k2 \<noteq> key" using Cons.prems(6) x x2 e by (force simp: event_key_def)
    then show ?thesis using Cons.prems(7) x x2 ks by (metis fresh_event.simps insert_iff list.set_intros(2))
  qed
  then have IH: "map assigned (history_of conv (record_events now conv evs db')) = map assigned (history_of conv db') @
      changes (map_option holder (last_assignment conv db')) (map change_of evs)"
    using Cons.IH[OF inv' sorted' Cons.prems(3) times'] Cons.prems(5,6) by simp
  have last': "last_assignment conv db' = (if same then last_assignment conv db else Some r)"
    by (simp add: last_assignment_def h')
  have "record_events now conv (e # evs) db = record_events now conv evs db'" by (simp add: e rec)
  moreover have "changes (map_option holder (last_assignment conv db)) (map change_of (e # evs)) =
      (if same then changes (map_option holder (last_assignment conv db)) (map change_of evs)
       else (t, department, user) # changes (Some (department, user)) (map change_of evs))"
    unfolding same_def by (simp add: change_of_def e del: map_option_eq_Some)
  ultimately show ?case using IH h' last' rt parts(4) by (cases same) simp_all
qed simp


text \<open>An event that arrives late is compared with the latest row of the ticket, not with the row before its own
  time: when it names the department and user of the latest row it is dropped, although the ticket was assigned
  to somebody else at that time, and its key is spent, so that no redelivery records it.\<close>

theorem late_assignment_dropped:
  assumes "latest_assignment conv (td_history db) = Some p" and "(department, user) = holder p"
    and "department \<noteq> None \<or> user \<noteq> None" and "btrim key \<noteq> []" and "btrim conv \<noteq> []"
  shows "let (res, db') = record_ticket_assignment now conv department user t source key transfers db
    in res = Inr False \<and> td_history db' = td_history db \<and> key \<in> ek_event_key ` set (td_event_keys db')"
proof -
  have nn: "\<not> (department = None \<and> user = None)" using assms(3) by auto
  have "map_option (\<lambda>p. (ta_department_id p, ta_user_id p)) (latest_assignment conv (td_history db)) = Some (department, user)"
    using assms(1,2) by (simp add: holder_def)
  then have "record_assignment_tx now conv department user t source key transfers db = Inr (False,
      if key \<in> ek_event_key ` set (td_event_keys db) then db
      else db\<lparr>td_event_keys := td_event_keys db @ [\<lparr>ek_event_key = key, ek_conversation_id = conv, ek_created_at = now\<rparr>]\<rparr>)"
    using assms(4,5) unfolding record_assignment_tx_def Let_def event_key_check_def by auto
  then show ?thesis unfolding record_ticket_assignment_def if_not_P[OF nn] by auto
qed

section \<open>Names of a ticket\<close>

definition normalized_name :: "string option \<times> string option \<Rightarrow> string" where
  "normalized_name p = (case snd p of None \<Rightarrow> [] | Some n \<Rightarrow> py_strip n)"

definition names_of :: "(string option \<times> string option) list \<Rightarrow> string list" where
  "names_of rows = filter (\<lambda>n. n \<noteq> []) (map normalized_name rows)"

definition nameless_ids :: "(string option \<times> string option) list \<Rightarrow> string list" where
  "nameless_ids rows = List.map_filter (\<lambda>p. if normalized_name p = [] \<and> fst p \<noteq> Some [] then fst p else None) rows"

lemma keep_unseen:
  "filter (\<lambda>n. n \<notin> set ys) (first_occurrences (x # xs)) =
    (if x \<in> set ys then filter (\<lambda>n. n \<notin> set ys) (first_occurrences xs)
     else x # filter (\<lambda>n. n \<notin> set (ys @ [x])) (first_occurrences xs))"
  by (auto intro!: filter_cong)

lemma collect_names_result:
  "collect_names rows names unresolved =
    (names @ filter (\<lambda>n. n \<notin> set names) (first_occurrences (names_of rows)),
     unresolved @ filter (\<lambda>i. i \<notin> set unresolved) (first_occurrences (nameless_ids rows)))"
proof (induction rows arbitrary: names unresolved)
  case (Cons row rows)
  obtain i name where row: "row = (i, name)" by (cases row)
  have norm: "(case name of None \<Rightarrow> [] | Some n \<Rightarrow> py_strip n) = normalized_name row"
    by (simp add: normalized_name_def row)
  have step: "collect_names (row # rows) names unresolved =
      (if normalized_name row \<noteq> [] then collect_names rows
         (if normalized_name row \<in> set names then names else names @ [normalized_name row]) unresolved
       else case i of None \<Rightarrow> collect_names rows names unresolved
         | Some d \<Rightarrow> collect_names rows names
             (if d \<noteq> [] \<and> d \<notin> set unresolved then unresolved @ [d] else unresolved))"
    unfolding row collect_names.simps norm[unfolded row] Let_def ..
  have names: "names_of (row # rows) =
      (if normalized_name row = [] then names_of rows else normalized_name row # names_of rows)"
    by (simp add: names_of_def)
  have nameless: "nameless_ids (row # rows) =
      (if normalized_name row = [] \<and> i \<noteq> Some [] then
         (case i of None \<Rightarrow> nameless_ids rows | Some d \<Rightarrow> d # nameless_ids rows) else nameless_ids rows)"
    by (cases i) (simp_all add: nameless_ids_def map_filter_simps row)
  show ?case
  proof (cases "normalized_name row = []")
    case False
    then show ?thesis unfolding step names nameless if_not_P[OF False]
      using keep_unseen[of names "normalized_name row" "names_of rows"] by (simp add: Cons.IH)
  next
    case True
    show ?thesis
    proof (cases "i = None \<or> i = Some []")
      case True
      then show ?thesis using \<open>normalized_name row = []\<close> unfolding step names nameless by (auto simp: Cons.IH)
    next
      case False
      then obtain d where "i = Some d" "d \<noteq> []" by auto
      then show ?thesis using \<open>normalized_name row = []\<close> keep_unseen[of unresolved d "nameless_ids rows"]
        unfolding step names nameless by (simp add: Cons.IH)
    qed
  qed
qed (simp add: names_of_def nameless_ids_def map_filter_simps)

lemma nameless_member:
  "(Some d, name) \<in> set rows \<Longrightarrow> normalized_name (Some d, name) = [] \<Longrightarrow> d = [] \<or> d \<in> set (nameless_ids rows)"
  by (induction rows) (auto simp: nameless_ids_def map_filter_simps split: option.splits)

text \<open>The departments (and in the same way the agents) given to a cycle are the names of the assignments of
  its ticket in the order of their times, each once and never blank; an id is reported as unresolved exactly when an
  assignment names it and the directory has no name for it.\<close>

theorem resolved_names_exact:
  "\<exists>departments agents unresolved_departments unresolved_users.
    resolve_ticket_assignments conv db = (departments, agents, unresolved_departments, unresolved_users) \<and>
    (let rows = map (\<lambda>r. (ta_department_id r, joined_name (ta_department_id r) (td_departments db))) (assignments_of conv db)
     in departments = first_occurrences (names_of rows) \<and> unresolved_departments = first_occurrences (nameless_ids rows)) \<and>
    (let rows = map (\<lambda>r. (ta_user_id r, joined_name (ta_user_id r) (td_users db))) (assignments_of conv db)
     in agents = first_occurrences (names_of rows) \<and> unresolved_users = first_occurrences (nameless_ids rows)) \<and>
    distinct departments \<and> distinct agents \<and> [] \<notin> set departments \<union> set agents \<and>
    (\<forall>r \<in> set (td_history db). ta_conversation_id r = conv \<longrightarrow>
      (case ta_department_id r of None \<Rightarrow> True
       | Some d \<Rightarrow> d = [] \<or> d \<in> set unresolved_departments \<or>
          (\<exists>n. joined_name (Some d) (td_departments db) = Some n \<and> py_strip n \<in> set departments)))"
proof -
  let ?rows = "map (\<lambda>r. (ta_department_id r, joined_name (ta_department_id r) (td_departments db))) (assignments_of conv db)"
  have covered: "d = [] \<or> d \<in> set (nameless_ids ?rows) \<or>
      (\<exists>n. joined_name (Some d) (td_departments db) = Some n \<and> py_strip n \<in> set (names_of ?rows))"
    if r: "r \<in> set (td_history db)" "ta_conversation_id r = conv" "ta_department_id r = Some d" for r d
  proof -
    have mem: "(Some d, joined_name (Some d) (td_departments db)) \<in> set ?rows"
      using r by (force simp: assignments_of_def)
    show ?thesis
    proof (cases "normalized_name (Some d, joined_name (Some d) (td_departments db)) = []")
      case True
      then show ?thesis using nameless_member[OF mem] by blast
    next
      case False
      then have "normalized_name (Some d, joined_name (Some d) (td_departments db)) \<in> set (names_of ?rows)"
        using mem unfolding names_of_def by force
      then show ?thesis using False by (auto simp: normalized_name_def split: option.splits)
    qed
  qed
  have "[] \<notin> set (names_of rows)" for rows by (simp add: names_of_def)
  then show ?thesis
    using covered
    by (fastforce simp: resolve_ticket_assignments_def collect_names_result Let_def split: option.split)
qed

section \<open>The pages\<close>

lemma fetch_directory_page_answer:
  assumes "fetch_directory_page get sleep remaining attempt page w = (Inr r, w')"
  shows "\<exists>w0. read_directory_page (fst (get page w0)) = Inr r"
  using assms
proof (induction get sleep remaining attempt page w rule: fetch_directory_page.induct)
  case (1 get sleep remaining attempt page w)
  obtain response w1 where g: "get page w = (response, w1)" by fastforce
  show ?case
  proof (cases "read_directory_page response")
    case (Inl e)
    then show ?thesis using 1 g by (auto split: nat.splits if_splits)
  next
    case (Inr r')
    then show ?thesis using 1(2) g by (intro exI[of _ w]) (auto split: nat.splits)
  qed
qed

lemma fetch_pages_returns:
  assumes "\<And>page w items current last_page. read_directory_page (fst (get page w)) = Inr (items, current, last_page) \<Longrightarrow>
    page \<le> current \<and> last_page \<le> bound"
    and "last_page \<le> max bound (page - 1)"
  shows "\<exists>r w'. fetch_pages get sleep n page last_page entries w = Some (r, w')"
  using assms(2)
proof (induction "nat (bound + 1 - page)" arbitrary: page last_page entries w rule: less_induct)
  case less
  show ?case
  proof (cases "page \<le> last_page")
    case True
    obtain outcome w' where f: "fetch_directory_page get sleep (n - 1) 1 page w = (outcome, w')" by fastforce
    show ?thesis
    proof (cases outcome)
      case (Inl e)
      then show ?thesis using f True by (simp add: fetch_pages.simps[of get sleep n page])
    next
      case (Inr p)
      then obtain items current raw_last where p: "outcome = Inr (items, current, raw_last)" by (cases p) auto
      have b: "page \<le> current" "raw_last \<le> bound"
        using fetch_directory_page_answer[OF f[unfolded p]] assms(1) by blast+
      have "\<exists>r w''. fetch_pages get sleep n (current + 1) (max raw_last current) (entries @ items) w' = Some (r, w'')"
      proof (rule less.hyps)
        show "nat (bound + 1 - (current + 1)) < nat (bound + 1 - page)" using b True less.prems by auto
        show "max raw_last current \<le> max bound (current + 1 - 1)" using b by auto
      qed
      then show ?thesis using f True p by (simp add: fetch_pages.simps[of get sleep n page])
    qed
  qed (simp add: fetch_pages.simps[of get sleep n page])
qed

text \<open>The directory is fetched in finitely many requests, with a result or an error, when the service answers a
  page with its number and a bounded last page.\<close>

theorem directory_fetch_returns:
  assumes "\<And>page w items current last_page. read_directory_page (fst (get page w)) = Inr (items, current, last_page) \<Longrightarrow>
    page \<le> current \<and> last_page \<le> bound"
    and "1 \<le> bound"
  shows "\<exists>r w'. fetch_resource configured get sleep max_retries w = Some (r, w')"
  using fetch_pages_returns[of get bound 1 1] assms by (simp add: fetch_resource_def)


section \<open>The synchronization\<close>

definition known_kept :: "ticket_db \<Rightarrow> ticket_db \<Rightarrow> bool" where
  "known_kept db db' \<longleftrightarrow> td_history db' = td_history db \<and> td_event_keys db' = td_event_keys db \<and>
    nr_id ` set (td_departments db) \<subseteq> nr_id ` set (td_departments db') \<and>
    nr_id ` set (td_users db) \<subseteq> nr_id ` set (td_users db')"

lemma fold_upsert_ids: "nr_id ` set rows \<subseteq> nr_id ` set (fold upsert_name new rows)"
proof (induction new arbitrary: rows)
  case (Cons r new)
  show ?case using Cons[of "upsert_name r rows"] by (simp add: upsert_name_ids)
qed simp

lemma sync_resource_kept:
  assumes "sync_resource fromiso fetch resource attempted synced db w = Some (ok, db', w')"
  shows "known_kept db db' \<and> (resource = ''users'' \<longrightarrow> td_departments db' = td_departments db) \<and>
    (case fetch resource w of
       Some (Inl e, w1) \<Rightarrow> \<not> ok \<and> td_departments db' = td_departments db \<and> td_users db' = td_users db
     | _ \<Rightarrow> True)"
proof -
  have mark: "td_history (snd (mark_directory_sync_attempt resource attempted db)) = td_history db"
    "td_event_keys (snd (mark_directory_sync_attempt resource attempted db)) = td_event_keys db"
    "td_departments (snd (mark_directory_sync_attempt resource attempted db)) = td_departments db"
    "td_users (snd (mark_directory_sync_attempt resource attempted db)) = td_users db"
    by (simp_all add: mark_directory_sync_attempt_def)
  have kept: "nr_id x \<in> nr_id ` set (fold upsert_name new rows)" if "x \<in> set rows" for x new rows
    using fold_upsert_ids[of rows new] that by blast
  show ?thesis using assms mark
    by (auto simp: sync_resource_def upsert_digisac_directory_def known_kept_def Let_def kept
        split: option.splits sum.splits prod.splits if_splits)
qed

lemma known_kept_trans: "known_kept a b \<Longrightarrow> known_kept b c \<Longrightarrow> known_kept a c"
  unfolding known_kept_def by (metis subset_trans)

text \<open>A synchronization never forgets a name: whatever the service answers, every department and user known
  before is known afterwards and the assignments stay; when the departments cannot be fetched their table is as
  before and the result is \<open>False\<close>.\<close>

theorem sync_never_forgets:
  assumes "sync_digisac_directories configured fromiso fetch now cooldown force db w = Some (ok, db', w')"
  shows "td_history db' = td_history db \<and> nr_id ` set (td_departments db) \<subseteq> nr_id ` set (td_departments db') \<and>
    nr_id ` set (td_users db) \<subseteq> nr_id ` set (td_users db') \<and>
    (case fetch ''departments'' w of
       Some (Inl e, w1) \<Rightarrow> \<not> ok \<and> td_departments db' = td_departments db
     | _ \<Rightarrow> True)"
proof (cases "configured \<and> (force \<or> directory_refresh_is_due (now 0) cooldown db)")
  case False
  then have "ok = False \<and> db' = db" using assms by (auto simp: sync_digisac_directories_def split: if_splits)
  then show ?thesis by (auto split: option.split prod.split sum.split)
next
  case True
  then have run: "(case sync_resource fromiso fetch ''departments'' (now 1) (now 2) db w of
       None \<Rightarrow> None
     | Some (ok1, db1, w1) \<Rightarrow>
        (case sync_resource fromiso fetch ''users'' (now 3) (now 4) db1 w1 of
           None \<Rightarrow> None
         | Some (ok2, db2, w2) \<Rightarrow> Some (ok1 \<and> ok2, db2, w2))) = Some (ok, db', w')"
    using assms unfolding sync_digisac_directories_def by (simp split: if_splits)
  then obtain ok1 db1 w1 where
    s1: "sync_resource fromiso fetch ''departments'' (now 1) (now 2) db w = Some (ok1, db1, w1)"
    by (cases "sync_resource fromiso fetch ''departments'' (now 1) (now 2) db w") auto
  with run obtain ok2 where s2: "sync_resource fromiso fetch ''users'' (now 3) (now 4) db1 w1 = Some (ok2, db', w')"
    and ok: "ok = (ok1 \<and> ok2)"
    by (cases "sync_resource fromiso fetch ''users'' (now 3) (now 4) db1 w1") auto
  note k1 = sync_resource_kept[OF s1]
  note k2 = sync_resource_kept[OF s2]
  have "known_kept db db'" using known_kept_trans k1 k2 by blast
  moreover have "td_departments db' = td_departments db1" using k2 by simp
  ultimately show ?thesis using k1 ok
    by (auto simp: known_kept_def split: option.splits prod.splits sum.splits)
qed

subsection \<open>Witnesses\<close>

definition sample_events :: "assignment_event list" where
  "sample_events = [(1, Some ''d1'', None, ''k1''), (2, Some ''d1'', None, ''k2''), (3, Some ''d2'', Some ''u'', ''k3'')]"

lemma sample_events_fresh: "\<forall>e \<in> set sample_events. fresh_event empty_ticket_db e"
  by code_simp


theorem assignment_events_once_witness:
  "distinct (map snd (gate_run ticket_gate [(1, T_Record ''c'' (Some ''d'') None 1 None ''k'' None),
    (2, T_Mark ''users''), (3, T_Record ''c'' (Some ''e'') None 1 None ''k'' None)] empty_ticket_db))"
  by (rule assignment_events_once[OF ticket_inv_empty]) simp

definition sample_ticket :: ticket_db where
  "sample_ticket = record_events 9 ''c'' [(1, Some ''d1'', None, ''k1''), (5, Some ''d2'', None, ''k2'')] empty_ticket_db"

theorem late_assignment_dropped_witness:
  "td_history (snd (record_ticket_assignment 9 ''c'' (Some ''d2'') None 3 None ''k3'' None sample_ticket)) =
    td_history sample_ticket"
proof -
  have l: "map_option holder (latest_assignment ''c'' (td_history sample_ticket)) = Some (Some ''d2'', None)"
    by code_simp
  then obtain p where p: "latest_assignment ''c'' (td_history sample_ticket) = Some p" "(Some ''d2'', None) = holder p"
    by auto
  show ?thesis
    using late_assignment_dropped[OF p, where key = "''k3''" and now = 9 and t = 3 and source = None and transfers = None] by (auto simp: btrim_Nil_iff split: prod.splits)
qed

definition empty_page :: "int \<Rightarrow> int \<Rightarrow> page_response" where
  "empty_page current last_page = Answered 200 (Some (JObj [(''data'', JList []), (''currentPage'', JInt current),
    (''lastPage'', JInt last_page)]))"

lemma read_empty_page: "read_directory_page (empty_page current last_page) = Inr ([], current, last_page)"
  by (simp add: read_directory_page_def empty_page_def TRANSIENT_STATUSES_def dict_get_def page_number_def)

theorem directory_fetch_returns_witness:
  "\<exists>r w'. fetch_resource True (\<lambda>page w. (empty_page page 3, w)) (\<lambda>_ w. w) 2 () = Some (r, w')"
  by (rule directory_fetch_returns[of _ 3]) (simp_all add: read_empty_page)


theorem sync_never_forgets_witness:
  "let fetch = (\<lambda>resource w. if resource = ''departments'' then Some (Inl Fetch_Timeout, w) else Some (Inr [], w));
      res = sync_digisac_directories True (\<lambda>_. None) fetch int 60 True sample_ticket ()
    in map_option (\<lambda>(ok, db, w). (ok, td_departments db)) res = Some (False, td_departments sample_ticket)"
proof -
  define fetch :: "string \<Rightarrow> unit \<Rightarrow> ((fetch_error + jdict list) \<times> unit) option" where
    "fetch = (\<lambda>resource w. if resource = ''departments'' then Some (Inl Fetch_Timeout, w) else Some (Inr [], w))"
  obtain ok db w' where r: "sync_digisac_directories True (\<lambda>_. None) fetch int 60 True sample_ticket () = Some (ok, db, w')"
    by (cases "sync_digisac_directories True (\<lambda>_. None) fetch int 60 True sample_ticket ()")
      (auto simp: fetch_def sync_digisac_directories_def sync_resource_def split: option.splits prod.splits sum.splits)
  have "\<not> ok \<and> td_departments db = td_departments sample_ticket"
    using sync_never_forgets[OF r] by (simp add: fetch_def)
  then show ?thesis using r unfolding fetch_def by auto
qed

end
