(* ===== verification/Webhook_Ingest.thy ===== *)
theory Webhook_Ingest
  imports Cycle_Correctness Contact_Correctness Webhook_Events Ticket_Directory Intent_Classification
begin

text \<open>
  The webhook (\<open>src/api/middleware.py\<close>, \<open>src/api/webhook_adapter.py\<close>, the handler of
  \<open>POST /webhook/digisac\<close> in \<open>src/api/routes.py\<close> and \<open>src/utils/idempotency.py\<close>): the signature, the
  adaptation of a message and the whole handler over the cycles, the media reservations, the contacts, the
  assignments and the event ledger.  A delivery is a transition of the joint state; each call of the handler on a
  repository is the transaction of that component's theory, in the order of the code.

  Parameters: the decoders and encoders of the standard library (record \<open>codec\<close>), SHA-256 and HMAC, the clock
  of each call, and the settings.  Times count from the Unix epoch.  Logging is left out.
\<close>

section \<open>Parameters\<close>

record codec =
  cd_fromiso :: iso_parser
  cd_isoformat :: "time \<times> time option \<Rightarrow> string"
  cd_repr :: "jvalue \<Rightarrow> string"
  cd_dumps :: "jvalue \<Rightarrow> string"
  cd_sha :: "string \<Rightarrow> string"

record ingest_settings =
  is_audio_model :: string
  is_image_model :: string
  is_close_delay :: int

section \<open>Signature\<close>

definition remove_prefix :: "string \<Rightarrow> string \<Rightarrow> string" where
  "remove_prefix p s = (if py_startswith s p then drop (length p) s else s)"

text \<open>\<open>hmac\<close> is the hexadecimal HMAC-SHA256 of the body under the secret; \<open>None\<close> is acceptance, \<open>Inr\<close>
  the detail of a 401.  \<open>hmac.compare_digest\<close> refuses to compare text that is not ASCII (headers are Latin-1).\<close>

definition is_ascii :: "string \<Rightarrow> bool" where
  "is_ascii s = list_all (\<lambda>c. (of_char c :: nat) < 128) s"

definition verify_webhook_signature ::
  "(string \<Rightarrow> string \<Rightarrow> string) \<Rightarrow> string \<Rightarrow> string option \<Rightarrow> string \<Rightarrow> (py_error + string) option" where
  "verify_webhook_signature hmac secret signature body =
    (if secret = [] then None
     else case signature of
       None \<Rightarrow> Some (Inr ''Missing webhook signature'')
     | Some s \<Rightarrow>
        (if s = [] then Some (Inr ''Missing webhook signature'')
         else
          (let supplied = remove_prefix ''sha256='' s
           in if \<not> is_ascii supplied
              then Some (Inl (TypeError ''comparing strings with non-ASCII characters is not supported''))
              else if supplied = hmac secret body then None
              else Some (Inr ''Invalid webhook signature''))))"

section \<open>Adaptation\<close>

definition SUPPORTED_MESSAGE_TYPES :: "string list" where
  "SUPPORTED_MESSAGE_TYPES = [''chat'', ''document'', ''ptt'', ''audio'', ''voice'', ''image'']"

definition AUDIO_MESSAGE_TYPES :: "string list" where
  "AUDIO_MESSAGE_TYPES = [''ptt'', ''audio'', ''voice'']"

definition non_empty_string :: "(jvalue \<Rightarrow> string) \<Rightarrow> jvalue \<Rightarrow> string option" where
  "non_empty_string repr value =
    (if value = JNull then None
     else let normalized = py_strip (py_str repr value) in if normalized = [] then None else Some normalized)"

record adapted_message =
  am_conversation_id :: string
  am_message_id :: "string option"
  am_content :: string
  am_message_type :: string
  am_file :: "(string \<times> string option) list"
  am_sender_id :: "string option"
  am_is_from_me :: bool
  am_is_from_bot :: "bool option"
  am_origin :: "string option"
  am_user_id :: "string option"
  am_event :: string
  am_timestamp :: "(time \<times> time option) option"

definition text_value :: "string option \<Rightarrow> jvalue" where
  "text_value x = (case x of None \<Rightarrow> JNull | Some s \<Rightarrow> JStr s)"

definition adapted_file :: "(string \<times> string option) list \<Rightarrow> jvalue" where
  "adapted_file f = JObj (map (\<lambda>(k, v). (k, text_value v)) f)"

definition normalized_file :: "(jvalue \<Rightarrow> string) \<Rightarrow> jvalue \<Rightarrow> (string \<times> string option) list" where
  "normalized_file repr raw =
    (let d = sub_dict raw; field = (\<lambda>k. non_empty_string repr (dict_get d k))
     in [(''id'', field ''id''), (''name'', field ''name''), (''public_filename'', field ''publicFilename''),
         (''extension'', field ''extension''), (''mimetype'', field ''mimetype'')])"

definition adapter_timestamp :: "codec \<Rightarrow> jvalue \<Rightarrow> (time \<times> time option) option" where
  "adapter_timestamp cd value =
    (case value of JStr s \<Rightarrow> cd_fromiso cd (replace_Z s) | _ \<Rightarrow> None)"

definition adapt :: "codec \<Rightarrow> jdict \<Rightarrow> string + adapted_message" where
  "adapt cd payload =
    (let repr = cd_repr cd
     in case dict_get payload ''data'' of
       JObj data \<Rightarrow>
        (case dict_get data ''isFromMe'' of
           JBool is_from_me \<Rightarrow>
            (let message_type = coalesce (non_empty_string repr (dict_get data ''type'')) ''chat'';
                 content = (case dict_get data ''text'' of JStr t \<Rightarrow> py_strip t | _ \<Rightarrow> [])
             in if message_type \<notin> set SUPPORTED_MESSAGE_TYPES then Inl ''unsupported_message_type''
                else if message_type = ''chat'' \<and> content = [] then Inl ''empty_message_text''
                else case non_empty_string repr (dict_get data ''ticketId'') of
                  None \<Rightarrow> Inl ''missing_ticket_id''
                | Some conversation_id \<Rightarrow>
                   (let file = normalized_file repr (dict_get data ''file'')
                    in Inr \<lparr>am_conversation_id = conversation_id,
                      am_message_id = non_empty_string repr (dict_get data ''id''), am_content = content,
                      am_message_type = effective_message_type message_type (adapted_file file), am_file = file,
                      am_sender_id = non_empty_string repr (dict_get data ''contactId''),
                      am_is_from_me = is_from_me, am_is_from_bot = bool_or_none (dict_get data ''isFromBot''),
                      am_origin = str_or_none (dict_get data ''origin''),
                      am_user_id = non_empty_string repr (dict_get data ''userId''),
                      am_event = (case dict_get payload ''event'' of JStr e \<Rightarrow> e | _ \<Rightarrow> ''message.created''),
                      am_timestamp = adapter_timestamp cd (dict_get data ''timestamp'')\<rparr>))
         | _ \<Rightarrow> Inl ''missing_is_from_me'')
     | _ \<Rightarrow> Inl ''missing_or_invalid_data'')"

section \<open>Times, keys and counts of a ticket event\<close>

text \<open>\<open>datetime.fromtimestamp\<close> with the UTC zone: the years 1 to 9999, rounded half to even.\<close>

definition valid_instant :: "time \<Rightarrow> time option" where
  "valid_instant t = (if - 62135596800000000 \<le> t \<and> t < 253402300800000000 then Some t else None)"

definition from_timestamp :: "jvalue \<Rightarrow> time option" where
  "from_timestamp v =
    (case v of
       JInt n \<Rightarrow> valid_instant (seconds n)
     | JFloat r \<Rightarrow> valid_instant (round_half_even (r * 1000000))
     | _ \<Rightarrow> None)"

definition event_instant :: "codec \<Rightarrow> jvalue \<Rightarrow> time option" where
  "event_instant cd value =
    (case value of JStr s \<Rightarrow> parse_timestamp (cd_fromiso cd) (JStr s) | _ \<Rightarrow> from_timestamp value)"

fun first_instant :: "codec \<Rightarrow> jvalue list \<Rightarrow> time option" where
  "first_instant cd [] = None"
| "first_instant cd (v # vs) =
    (case event_instant cd v of None \<Rightarrow> first_instant cd vs | Some t \<Rightarrow> Some t)"

definition ticket_event_timestamp :: "codec \<Rightarrow> time \<Rightarrow> jdict \<Rightarrow> jdict \<Rightarrow> time \<times> bool" where
  "ticket_event_timestamp cd now payload data =
    (case first_instant cd [dict_get data ''timestamp'', dict_get data ''updatedAt'',
        dict_get payload ''timestamp'', dict_get payload ''createdAt''] of
       Some t \<Rightarrow> (t, True)
     | None \<Rightarrow> (now, False))"

text \<open>\<open>int(text)\<close>: an optional sign and decimal digits, single underscores between them, in white space.\<close>

fun digit_groups :: "bool \<Rightarrow> string \<Rightarrow> bool" where
  "digit_groups after_digit [] = after_digit"
| "digit_groups after_digit (c # s) =
    (if c \<in> set ascii_digits then digit_groups True s
     else c = CHR ''_'' \<and> after_digit \<and> s \<noteq> [] \<and> digit_groups False s)"

definition digits_value :: "string \<Rightarrow> int" where
  "digits_value s = foldl (\<lambda>n c. 10 * n + (of_char c - 48)) 0 (filter (\<lambda>c. c \<in> set ascii_digits) s)"

definition py_int :: "string \<Rightarrow> int option" where
  "py_int text =
    (let s = py_strip text;
         (sign, body) = (case s of c # rest \<Rightarrow> if c = CHR ''-'' then (- 1, rest)
           else if c = CHR ''+'' then (1, rest) else (1, s) | [] \<Rightarrow> (1, []))
     in if digit_groups False body then Some (sign * digits_value body) else None)"

definition ticket_transfer_count :: "jdict \<Rightarrow> int option" where
  "ticket_transfer_count data =
    (let direct = dict_get data ''ticketTransferCount'';
         value = (if direct = JNull then dict_get (sub_dict (dict_get data ''metrics'')) ''ticketTransferCount'' else direct)
     in case value of JInt n \<Rightarrow> Some n | JStr s \<Rightarrow> py_int s | _ \<Rightarrow> None)"

definition source_event_id :: "codec \<Rightarrow> jdict \<Rightarrow> string option" where
  "source_event_id cd payload =
    non_empty_string (cd_repr cd) (py_or (dict_get payload ''eventId'') (dict_get payload ''id''))"

definition json_protocol :: "codec \<Rightarrow> jvalue \<Rightarrow> string option" where
  "json_protocol cd value =
    (if value = JNull then None else normalize_protocol (Some (py_str (cd_repr cd) value)))"

definition utc_text :: "codec \<Rightarrow> time \<Rightarrow> string" where
  "utc_text cd t = cd_isoformat cd (t, Some 0)"

definition cycle_event_identity :: "codec \<Rightarrow> string \<Rightarrow> string \<Rightarrow> jdict \<Rightarrow> jdict \<Rightarrow> string" where
  "cycle_event_identity cd event ticket_id payload data =
    (case source_event_id cd payload of
       Some i \<Rightarrow> event @ '':'' @ ticket_id @ '':'' @ i
     | None \<Rightarrow>
        (case ticket_event_timestamp cd 0 payload data of
           (timestamp, has_source_timestamp) \<Rightarrow>
             cd_dumps cd (JList [JStr event, JStr ticket_id, dict_get data ''isOpen'',
               text_value (json_protocol cd (dict_get data ''protocol'')),
               (if has_source_timestamp then JStr (utc_text cd timestamp) else JNull),
               dict_get data ''lastMessageId'', dict_get data ''ticketTransferCount''])))"

definition cycle_event_key :: "codec \<Rightarrow> string \<Rightarrow> string \<Rightarrow> jdict \<Rightarrow> jdict \<Rightarrow> string" where
  "cycle_event_key cd event ticket_id payload data =
    cd_sha cd (cycle_event_identity cd event ticket_id payload data)"

definition assignment_event_key ::
  "codec \<Rightarrow> string \<Rightarrow> string option \<Rightarrow> string option \<Rightarrow> jdict \<Rightarrow> time \<times> bool \<Rightarrow> string" where
  "assignment_event_key cd ticket_id department user payload timing =
    cd_sha cd
      (case source_event_id cd payload of
         Some i \<Rightarrow> ''ticket.updated:'' @ ticket_id @ '':'' @ i
       | None \<Rightarrow>
          (if snd timing
           then cd_dumps cd (JList [JStr ticket_id, text_value department, text_value user,
             JStr (utc_text cd (fst timing))])
           else cd_dumps cd (JObj payload)))"

definition ticket_contact :: "codec \<Rightarrow> jdict \<Rightarrow> string option" where
  "ticket_contact cd data =
    (case dict_get data ''contact'' of
       JObj contact \<Rightarrow> non_empty_string (cd_repr cd) (dict_get contact ''id'')
     | _ \<Rightarrow> None)"

section \<open>The joint state\<close>

record ingest_db =
  in_cycles :: cycle_db
  in_media :: media_db
  in_contacts :: contact_db
  in_tickets :: ticket_db
  in_events :: ledger

definition empty_ingest_db :: ingest_db where
  "empty_ingest_db = \<lparr>in_cycles = empty_cycle_db,
    in_media = \<lparr>message_transcriptions = [], message_image_extractions = []\<rparr>,
    in_contacts = empty_contact_db, in_tickets = empty_ticket_db, in_events = []\<rparr>"

definition on_cycles :: "(cycle_db \<Rightarrow> 'a \<times> cycle_db) \<Rightarrow> ingest_db \<Rightarrow> 'a \<times> ingest_db" where
  "on_cycles f s = (case f (in_cycles s) of (res, db) \<Rightarrow> (res, s\<lparr>in_cycles := db\<rparr>))"

definition on_media :: "(media_db \<Rightarrow> 'a \<times> media_db) \<Rightarrow> ingest_db \<Rightarrow> 'a \<times> ingest_db" where
  "on_media f s = (case f (in_media s) of (res, db) \<Rightarrow> (res, s\<lparr>in_media := db\<rparr>))"

definition on_contacts :: "(contact_db \<Rightarrow> 'a \<times> contact_db) \<Rightarrow> ingest_db \<Rightarrow> 'a \<times> ingest_db" where
  "on_contacts f s = (case f (in_contacts s) of (res, db) \<Rightarrow> (res, s\<lparr>in_contacts := db\<rparr>))"

definition on_tickets :: "(ticket_db \<Rightarrow> 'a \<times> ticket_db) \<Rightarrow> ingest_db \<Rightarrow> 'a \<times> ingest_db" where
  "on_tickets f s = (case f (in_tickets s) of (res, db) \<Rightarrow> (res, s\<lparr>in_tickets := db\<rparr>))"

definition on_events :: "(ledger \<Rightarrow> 'a \<times> ledger) \<Rightarrow> ingest_db \<Rightarrow> 'a \<times> ingest_db" where
  "on_events f s = (case f (in_events s) of (res, l) \<Rightarrow> (res, s\<lparr>in_events := l\<rparr>))"

section \<open>The handler\<close>

text \<open>The answers, with the HTTP status of the code: 400, 200 for \<open>Ignored\<close> and \<open>Closure_Ignored\<close>, 202 for the
  others; an exception that the handler does not catch is a 500.\<close>

datatype reply =
    Unauthorized string
  | Bad_Request string
  | Server_Error py_error
  | Ignored string
  | Closure_Ignored string
  | Ticket_Opened string string string bool
  | Ticket_Updated string
  | Ticket_Closed string string bool
  | Duplicate string
  | Received string bool bool

definition capture_contact_snapshot ::
  "codec \<Rightarrow> (nat \<Rightarrow> time) \<Rightarrow> jdict \<Rightarrow> jdict \<Rightarrow> ingest_db \<Rightarrow> bool \<times> ingest_db" where
  "capture_contact_snapshot cd clk payload data s =
    (case dict_get data ''contact'' of
       JObj raw \<Rightarrow>
        (case normalize_contact (cd_fromiso cd) (cd_repr cd) (JObj raw) of
           Inl e \<Rightarrow> (False, s)
         | Inr contact \<Rightarrow>
            (case on_contacts (upsert_digisac_contact (clk 1) (clk 2) contact ''ticket_webhook''
                (Some (fst (ticket_event_timestamp cd (clk 0) payload data)))) s of
               (Inl e, s') \<Rightarrow> (False, s')
             | (Inr row, s') \<Rightarrow> (True, s')))
     | _ \<Rightarrow> (False, s))"

definition capture_ticket_assignment ::
  "codec \<Rightarrow> (nat \<Rightarrow> time) \<Rightarrow> jdict \<Rightarrow> jdict \<Rightarrow> string \<Rightarrow> ingest_db \<Rightarrow> bool \<times> ingest_db" where
  "capture_ticket_assignment cd clk payload data ticket_id s =
    (let department = non_empty_string (cd_repr cd) (dict_get data ''departmentId'');
         user = non_empty_string (cd_repr cd) (dict_get data ''userId'');
         timing = ticket_event_timestamp cd (clk 3) payload data
     in if department = None \<and> user = None then (False, s)
        else case on_tickets (record_ticket_assignment (clk 4) ticket_id department user (fst timing)
            (source_event_id cd payload) (assignment_event_key cd ticket_id department user payload timing)
            (ticket_transfer_count data)) s of
          (Inl e, s') \<Rightarrow> (False, s')
        | (Inr inserted, s') \<Rightarrow> (inserted, s'))"

definition open_ticket ::
  "codec \<Rightarrow> (nat \<Rightarrow> time) \<Rightarrow> string \<Rightarrow> string \<Rightarrow> string \<Rightarrow> jdict \<Rightarrow> jdict \<Rightarrow> string \<Rightarrow> ingest_db \<Rightarrow> reply \<times> ingest_db" where
  "open_ticket cd clk uuid event strategy payload data ticket_id s =
    (case on_cycles (create_open_cycle (clk 6) uuid ticket_id
        (fst (ticket_event_timestamp cd (clk 5) payload data)) (cycle_event_key cd event ticket_id payload data)
        strategy (ticket_contact cd data)) s of
       (Inl e, s') \<Rightarrow> (Server_Error e, s')
     | (Inr (c, created), s') \<Rightarrow>
         (Ticket_Opened (if event = ''ticket.created'' then ''ticket_created'' else ''ticket_reopened'')
           ticket_id (cy_public_id c) created, s'))"

definition pending_inference :: string where
  "pending_inference = ''pending_api_inference''"

definition close_ticket ::
  "codec \<Rightarrow> ingest_settings \<Rightarrow> (nat \<Rightarrow> time) \<Rightarrow> string \<Rightarrow> string \<Rightarrow> jdict \<Rightarrow> jdict \<Rightarrow> string \<Rightarrow> ingest_db \<Rightarrow> reply \<times> ingest_db" where
  "close_ticket cd st clk uuid event payload data ticket_id s =
    (case json_protocol cd (dict_get data ''protocol'') of
       None \<Rightarrow> (Closure_Ignored ticket_id, s)
     | Some protocol \<Rightarrow>
        (case on_cycles (close_cycle (clk 6) (is_close_delay st) uuid ticket_id protocol
            (fst (ticket_event_timestamp cd (clk 5) payload data)) (cycle_event_key cd event ticket_id payload data)
            pending_inference (ticket_contact cd data)) s of
           (Inl e, s') \<Rightarrow> (Server_Error e, s')
         | (Inr (c, created), s') \<Rightarrow> (Ticket_Closed ticket_id (cy_public_id c) created, s')))"

definition ticket_event ::
  "codec \<Rightarrow> ingest_settings \<Rightarrow> (nat \<Rightarrow> time) \<Rightarrow> string \<Rightarrow> string \<Rightarrow> jdict \<Rightarrow> jdict \<Rightarrow> ingest_db \<Rightarrow> reply \<times> ingest_db" where
  "ticket_event cd st clk uuid event payload data s =
    (case dict_get data ''id'' of
       JStr ticket_id \<Rightarrow>
        (if ticket_id = [] then (Ignored ''missing_ticket_id'', s)
         else
          (let s1 = snd (capture_contact_snapshot cd clk payload data s)
           in if event = ''ticket.created''
              then open_ticket cd clk uuid event ''ticket_created_event'' payload data ticket_id s1
              else
               (let s2 = snd (capture_ticket_assignment cd clk payload data ticket_id s1)
                in if dict_get data ''isOpen'' = JBool True
                   then open_ticket cd clk uuid event ''ticket_reopened_event'' payload data ticket_id s2
                   else if dict_get data ''isOpen'' \<noteq> JBool False then (Ticket_Updated ticket_id, s2)
                   else close_ticket cd st clk uuid event payload data ticket_id s2)))
     | _ \<Rightarrow> (Ignored ''missing_ticket_id'', s))"

text \<open>\<open>IdempotencyService.generate_event_id\<close> on the adapted message: the payload's own keys \<open>id\<close> and
  \<open>created_at\<close> stand in for a missing message id and timestamp.\<close>

definition event_id :: "codec \<Rightarrow> jdict \<Rightarrow> adapted_message \<Rightarrow> string" where
  "event_id cd payload m =
    cd_sha cd (cd_dumps cd (JObj
      [(''content'', JStr (am_content m)), (''conversation_id'', JStr (am_conversation_id m)),
       (''event'', JStr (am_event m)),
       (''message_id'', py_or (text_value (am_message_id m)) (dict_get payload ''id'')),
       (''timestamp'', py_or (text_value (map_option (cd_isoformat cd) (am_timestamp m)))
          (dict_get payload ''created_at''))]))"

definition enqueue_audio ::
  "ingest_settings \<Rightarrow> (nat \<Rightarrow> time) \<Rightarrow> adapted_message \<Rightarrow> ingest_db \<Rightarrow> (py_error + bool) \<times> ingest_db" where
  "enqueue_audio st clk m s =
    (case am_message_id m of
       None \<Rightarrow> (Inr False, s)
     | Some i \<Rightarrow>
        (if am_message_type m \<notin> set AUDIO_MESSAGE_TYPES then (Inr False, s)
         else on_media (reserve_transcription (clk 10) i (Some (am_conversation_id m)) (is_audio_model st)) s))"

definition enqueue_image ::
  "ingest_settings \<Rightarrow> (nat \<Rightarrow> time) \<Rightarrow> adapted_message \<Rightarrow> ingest_db \<Rightarrow> (py_error + bool) \<times> ingest_db" where
  "enqueue_image st clk m s =
    (case am_message_id m of
       None \<Rightarrow> (Inr False, s)
     | Some i \<Rightarrow>
        (if \<not> is_image_message (JStr (am_message_type m)) (adapted_file (am_file m)) then (Inr False, s)
         else on_media (reserve_image_extraction (clk 11) i (Some (am_conversation_id m)) (is_image_model st)) s))"

text \<open>A failure of the contact request is logged; \<open>requested_at\<close> is parsed again by the repository.\<close>

definition reference_sender :: "(nat \<Rightarrow> time) \<Rightarrow> adapted_message \<Rightarrow> ingest_db \<Rightarrow> ingest_db" where
  "reference_sender clk m s =
    (case am_sender_id m of
       None \<Rightarrow> s
     | Some sender \<Rightarrow> snd (on_contacts (request_hydration (clk 8) (clk 9) sender
         (map_option (\<lambda>(t, offset). t - coalesce offset 0) (am_timestamp m))) s))"

definition accept_message ::
  "codec \<Rightarrow> ingest_settings \<Rightarrow> (nat \<Rightarrow> time) \<Rightarrow> jdict \<Rightarrow> adapted_message \<Rightarrow> ingest_db \<Rightarrow> reply \<times> ingest_db" where
  "accept_message cd st clk payload m s =
    (case enqueue_audio st clk m (reference_sender clk m s) of
       (Inl e, s2) \<Rightarrow> (Server_Error e, s2)
     | (Inr audio, s2) \<Rightarrow>
        (case enqueue_image st clk m s2 of
           (Inl e, s3) \<Rightarrow> (Server_Error e, s3)
         | (Inr picture, s3) \<Rightarrow>
            (case on_events (try_mark_webhook_event (clk 12) (event_id cd payload m)) s3 of
               (Inl e, s4) \<Rightarrow> (Server_Error e, s4)
             | (Inr False, s4) \<Rightarrow> (Duplicate (am_conversation_id m), s4)
             | (Inr True, s4) \<Rightarrow> (Received (am_conversation_id m) audio picture, s4))))"

definition bot_reason :: "jdict \<Rightarrow> string" where
  "bot_reason data =
    (if dict_get data ''isFromBot'' = JBool True then ''is_from_bot'' else ''bot_origin_fallback'')"

definition message_event ::
  "codec \<Rightarrow> ingest_settings \<Rightarrow> (nat \<Rightarrow> time) \<Rightarrow> jdict \<Rightarrow> jdict \<Rightarrow> ingest_db \<Rightarrow> reply \<times> ingest_db" where
  "message_event cd st clk payload data s =
    (if is_bot_message (bool_or_none (dict_get data ''isFromBot'')) (str_or_none (dict_get data ''origin''))
     then (Ignored (bot_reason data), s)
     else case adapt cd payload of
       Inl reason \<Rightarrow> (Ignored reason, s)
     | Inr m \<Rightarrow> accept_message cd st clk payload m s)"

definition unhashable_event :: py_error where
  "unhashable_event = TypeError ''unhashable type''"

definition webhook_payload ::
  "codec \<Rightarrow> ingest_settings \<Rightarrow> (nat \<Rightarrow> time) \<Rightarrow> string \<Rightarrow> jdict \<Rightarrow> ingest_db \<Rightarrow> reply \<times> ingest_db" where
  "webhook_payload cd st clk uuid payload s =
    (case dict_get payload ''data'' of
       JObj data \<Rightarrow>
        (let event = dict_get payload ''event''
         in if \<not> hashable event then (Server_Error unhashable_event, s)
            else case event of
              JStr e \<Rightarrow>
               (if e = ''ticket.created'' \<or> e = ''ticket.updated'' then ticket_event cd st clk uuid e payload data s
                else if e = ''message.created'' \<or> e = ''message.updated'' then message_event cd st clk payload data s
                else (Ignored ''unsupported_event'', s))
            | _ \<Rightarrow> (Ignored ''unsupported_event'', s))
     | _ \<Rightarrow> (Bad_Request ''Malformed Digisac payload: 'data' must be an object'', s))"

text \<open>What \<open>json.loads\<close> makes of the body: bytes that are no text raise an error of their own, which
  \<open>parse_webhook_payload\<close> does not catch.\<close>

datatype parsed_body = Not_Text | Not_Json | Parsed jvalue

record request =
  rq_body :: string
  rq_signature :: "string option"

definition digisac_webhook ::
  "codec \<Rightarrow> (string \<Rightarrow> parsed_body) \<Rightarrow> (string \<Rightarrow> string \<Rightarrow> string) \<Rightarrow> string \<Rightarrow> ingest_settings \<Rightarrow> (nat \<Rightarrow> time) \<Rightarrow>
   string \<Rightarrow> request \<Rightarrow> ingest_db \<Rightarrow> reply \<times> ingest_db" where
  "digisac_webhook cd loads hmac secret st clk uuid r s =
    (case verify_webhook_signature hmac secret (rq_signature r) (rq_body r) of
       Some (Inl e) \<Rightarrow> (Server_Error e, s)
     | Some (Inr reason) \<Rightarrow> (Unauthorized reason, s)
     | None \<Rightarrow>
        (case loads (rq_body r) of
           Not_Text \<Rightarrow> (Server_Error (ValueError ''invalid start byte''), s)
         | Not_Json \<Rightarrow> (Bad_Request ''Invalid JSON payload'', s)
         | Parsed (JObj payload) \<Rightarrow> webhook_payload cd st clk uuid payload s
         | Parsed _ \<Rightarrow> (Bad_Request ''Webhook payload must be an object'', s)))"

section \<open>What a delivery touches\<close>

lemma on_simps [simp]:
  "on_cycles f s = (fst (f (in_cycles s)), s\<lparr>in_cycles := snd (f (in_cycles s))\<rparr>)"
  "on_media g s = (fst (g (in_media s)), s\<lparr>in_media := snd (g (in_media s))\<rparr>)"
  "on_contacts h s = (fst (h (in_contacts s)), s\<lparr>in_contacts := snd (h (in_contacts s))\<rparr>)"
  "on_tickets i s = (fst (i (in_tickets s)), s\<lparr>in_tickets := snd (i (in_tickets s))\<rparr>)"
  "on_events j s = (fst (j (in_events s)), s\<lparr>in_events := snd (j (in_events s))\<rparr>)"
  by (simp_all add: on_cycles_def on_media_def on_contacts_def on_tickets_def on_events_def split: prod.split)

lemma same_part [simp]:
  "s\<lparr>in_cycles := in_cycles s\<rparr> = s" "s\<lparr>in_contacts := in_contacts s\<rparr> = s" "s\<lparr>in_tickets := in_tickets s\<rparr> = s"
  "s\<lparr>in_media := in_media s\<rparr> = s" "s\<lparr>in_events := in_events s\<rparr> = s"
  by simp_all

lemma snapshot_frame:
  "\<exists>db. snd (capture_contact_snapshot cd clk payload data s) = s\<lparr>in_contacts := db\<rparr> \<and>
    (contact_inv (in_contacts s) \<longrightarrow> contact_inv db)"
proof -
  have step: "contact_inv (in_contacts s) \<longrightarrow>
      contact_inv (snd (upsert_digisac_contact now py_now contact source at' (in_contacts s)))"
    for now py_now contact source at'
    using contact_step_inv[of "in_contacts s" "Upsert now py_now contact source at'"] by simp
  have "snd (capture_contact_snapshot cd clk payload data s) = s \<or> (\<exists>contact at'.
      snd (capture_contact_snapshot cd clk payload data s) =
        s\<lparr>in_contacts := snd (upsert_digisac_contact (clk 1) (clk 2) contact ''ticket_webhook'' at' (in_contacts s))\<rparr>)"
    by (auto simp: capture_contact_snapshot_def split: jvalue.split sum.split)
  then show ?thesis
  proof (elim disjE exE)
    assume "snd (capture_contact_snapshot cd clk payload data s) = s"
    then show ?thesis by (intro exI[of _ "in_contacts s"]) simp
  next
    fix contact at'
    assume "snd (capture_contact_snapshot cd clk payload data s) =
        s\<lparr>in_contacts := snd (upsert_digisac_contact (clk 1) (clk 2) contact ''ticket_webhook'' at' (in_contacts s))\<rparr>"
    then show ?thesis using step by blast
  qed
qed

lemma assignment_frame:
  "\<exists>db. snd (capture_ticket_assignment cd clk payload data ticket_id s) = s\<lparr>in_tickets := db\<rparr> \<and>
    (ticket_inv (in_tickets s) \<longrightarrow> ticket_inv db)"
proof -
  have "snd (capture_ticket_assignment cd clk payload data ticket_id s) = s \<or>
    (\<exists>department user t source key n. snd (capture_ticket_assignment cd clk payload data ticket_id s) =
      s\<lparr>in_tickets := snd (record_ticket_assignment (clk 4) ticket_id department user t source key n (in_tickets s))\<rparr>)"
  proof (cases "non_empty_string (cd_repr cd) (dict_get data ''departmentId'') = None \<and>
      non_empty_string (cd_repr cd) (dict_get data ''userId'') = None")
    case True
    then have "snd (capture_ticket_assignment cd clk payload data ticket_id s) = s"
      unfolding capture_ticket_assignment_def Let_def by simp
    then show ?thesis ..
  next
    case False
    have "snd (capture_ticket_assignment cd clk payload data ticket_id s) =
      s\<lparr>in_tickets := snd (record_ticket_assignment (clk 4) ticket_id
        (non_empty_string (cd_repr cd) (dict_get data ''departmentId''))
        (non_empty_string (cd_repr cd) (dict_get data ''userId''))
        (fst (ticket_event_timestamp cd (clk 3) payload data)) (source_event_id cd payload)
        (assignment_event_key cd ticket_id (non_empty_string (cd_repr cd) (dict_get data ''departmentId''))
          (non_empty_string (cd_repr cd) (dict_get data ''userId'')) payload
          (ticket_event_timestamp cd (clk 3) payload data))
        (ticket_transfer_count data) (in_tickets s))\<rparr>"
      unfolding capture_ticket_assignment_def Let_def if_not_P[OF False] by (simp split: sum.split)
    then show ?thesis by blast
  qed
  then show ?thesis
  proof (elim disjE exE)
    assume "snd (capture_ticket_assignment cd clk payload data ticket_id s) = s"
    then show ?thesis by (intro exI[of _ "in_tickets s"]) simp
  next
    fix department user t source key n
    assume "snd (capture_ticket_assignment cd clk payload data ticket_id s) =
      s\<lparr>in_tickets := snd (record_ticket_assignment (clk 4) ticket_id department user t source key n (in_tickets s))\<rparr>"
    then show ?thesis using record_inv by blast
  qed
qed

lemma open_frame:
  "snd (open_ticket cd clk uuid event strategy payload data ticket_id s) =
    s\<lparr>in_cycles := cycle_step (clk 6) (Open_Ticket uuid ticket_id (fst (ticket_event_timestamp cd (clk 5) payload data))
      (cycle_event_key cd event ticket_id payload data) strategy (ticket_contact cd data)) (in_cycles s)\<rparr>"
  by (auto simp: open_ticket_def split: sum.split)

lemma close_frame:
  "snd (close_ticket cd st clk uuid event payload data ticket_id s) = s \<or>
    (\<exists>protocol. snd (close_ticket cd st clk uuid event payload data ticket_id s) =
      s\<lparr>in_cycles := cycle_step (clk 6) (Close_Ticket (is_close_delay st) uuid ticket_id protocol
        (fst (ticket_event_timestamp cd (clk 5) payload data)) (cycle_event_key cd event ticket_id payload data)
        pending_inference (ticket_contact cd data)) (in_cycles s)\<rparr>)"
  by (auto simp: close_ticket_def split: option.split sum.split)

definition cycles_moved :: "time \<Rightarrow> cycle_db \<Rightarrow> cycle_db \<Rightarrow> bool" where
  "cycles_moved now db db' \<longleftrightarrow> db' = db \<or> (\<exists>x. db' = cycle_step now x db)"

lemma ticket_frame:
  "\<exists>kdb tdb cdb. snd (ticket_event cd st clk uuid event payload data s) =
      s\<lparr>in_contacts := kdb, in_tickets := tdb, in_cycles := cdb\<rparr> \<and>
    (contact_inv (in_contacts s) \<longrightarrow> contact_inv kdb) \<and> (ticket_inv (in_tickets s) \<longrightarrow> ticket_inv tdb) \<and>
    cycles_moved (clk 6) (in_cycles s) cdb"
proof (cases "\<exists>t. dict_get data ''id'' = JStr t \<and> t \<noteq> []")
  case False
  then have "snd (ticket_event cd st clk uuid event payload data s) = s"
    by (auto simp: ticket_event_def split: jvalue.split)
  then show ?thesis
    by (intro exI[of _ "in_contacts s"] exI[of _ "in_tickets s"] exI[of _ "in_cycles s"]) (simp add: cycles_moved_def)
next
  case True
  then obtain t where t: "dict_get data ''id'' = JStr t" "t \<noteq> []" by blast
  define s1 where "s1 = snd (capture_contact_snapshot cd clk payload data s)"
  define s2 where "s2 = (if event = ''ticket.created'' then s1 else snd (capture_ticket_assignment cd clk payload data t s1))"
  define s3 where "s3 = snd (ticket_event cd st clk uuid event payload data s)"
  obtain kdb where k: "s1 = s\<lparr>in_contacts := kdb\<rparr>" "contact_inv (in_contacts s) \<longrightarrow> contact_inv kdb"
    unfolding s1_def using snapshot_frame by blast
  obtain tdb where tdb: "s2 = s1\<lparr>in_tickets := tdb\<rparr>" "ticket_inv (in_tickets s) \<longrightarrow> ticket_inv tdb"
  proof (cases "event = ''ticket.created''")
    case True
    then show thesis using that[of "in_tickets s1"] k(1) by (simp add: s2_def)
  next
    case False
    obtain db where "snd (capture_ticket_assignment cd clk payload data t s1) = s1\<lparr>in_tickets := db\<rparr>"
      "ticket_inv (in_tickets s1) \<longrightarrow> ticket_inv db"
      using assignment_frame by blast
    then show thesis using that[of db] k(1) False by (simp add: s2_def)
  qed
  have s3: "s3 = snd (if event = ''ticket.created'' then open_ticket cd clk uuid event ''ticket_created_event'' payload data t s2
      else if dict_get data ''isOpen'' = JBool True then open_ticket cd clk uuid event ''ticket_reopened_event'' payload data t s2
      else if dict_get data ''isOpen'' \<noteq> JBool False then (Ticket_Updated t, s2)
      else close_ticket cd st clk uuid event payload data t s2)"
    using t unfolding s3_def s2_def s1_def ticket_event_def by (simp add: Let_def)
  have "s3 = s2 \<or> (\<exists>x. s3 = s2\<lparr>in_cycles := cycle_step (clk 6) x (in_cycles s2)\<rparr>)"
  proof (cases "event = ''ticket.created'' \<or> dict_get data ''isOpen'' = JBool True")
    case True
    have "s3 = snd (open_ticket cd clk uuid event
        (if event = ''ticket.created'' then ''ticket_created_event'' else ''ticket_reopened_event'') payload data t s2)"
      using s3 True by (cases "event = ''ticket.created''") simp_all
    then show ?thesis unfolding open_frame by blast
  next
    case False
    show ?thesis
    proof (cases "dict_get data ''isOpen'' = JBool False")
      case True
      then have "s3 = snd (close_ticket cd st clk uuid event payload data t s2)" using s3 False by simp
      then show ?thesis using close_frame[of cd st clk uuid event payload data t s2] by metis
    next
      case closed: False
      then show ?thesis using s3 False by simp
    qed
  qed
  then obtain cdb where c: "s3 = s2\<lparr>in_cycles := cdb\<rparr>" "cycles_moved (clk 6) (in_cycles s2) cdb"
    unfolding cycles_moved_def by (metis same_part(1))
  have "s3 = s\<lparr>in_contacts := kdb, in_tickets := tdb, in_cycles := cdb\<rparr>" using c(1) tdb(1) k(1) by simp
  moreover have "in_cycles s2 = in_cycles s" using tdb(1) k(1) by simp
  ultimately show ?thesis using k(2) tdb(2) c(2) unfolding s3_def by metis
qed

text \<open>A message may be reserved, and its key is recorded in the ledger.\<close>

definition media_inv :: "media_db \<Rightarrow> bool" where
  "media_inv m \<longleftrightarrow> content_inv (message_transcriptions m) \<and> content_inv (message_image_extractions m)"

lemma reserve_media_inv:
  assumes "media_inv m"
  shows "media_inv (snd (reserve_transcription py_now i conv mdl m))"
    and "media_inv (snd (reserve_image_extraction py_now i conv mdl m))"
proof -
  obtain res rows where "reserve_content py_now i conv mdl False (message_transcriptions m) = (res, rows)" by fastforce
  moreover from this have "content_inv rows"
    using reserve_inv[of "message_transcriptions m" py_now i conv mdl False] assms by (simp add: media_inv_def)
  ultimately show "media_inv (snd (reserve_transcription py_now i conv mdl m))"
    using assms by (simp add: reserve_transcription_def on_content_table_def media_inv_def)
next
  obtain res rows where "reserve_content py_now i conv mdl False (message_image_extractions m) = (res, rows)" by fastforce
  moreover from this have "content_inv rows"
    using reserve_inv[of "message_image_extractions m" py_now i conv mdl False] assms by (simp add: media_inv_def)
  ultimately show "media_inv (snd (reserve_image_extraction py_now i conv mdl m))"
    using assms by (simp add: reserve_image_extraction_def on_content_table_def media_inv_def)
qed

lemma enqueue_frame:
  "\<exists>db. snd (enqueue_audio st clk m s) = s\<lparr>in_media := db\<rparr> \<and> (media_inv (in_media s) \<longrightarrow> media_inv db)"
  "\<exists>db. snd (enqueue_image st clk m s) = s\<lparr>in_media := db\<rparr> \<and> (media_inv (in_media s) \<longrightarrow> media_inv db)"
proof -
  have "snd (enqueue_audio st clk m s) = s \<or> (\<exists>i. snd (enqueue_audio st clk m s) =
      s\<lparr>in_media := snd (reserve_transcription (clk 10) i (Some (am_conversation_id m)) (is_audio_model st) (in_media s))\<rparr>)"
    by (auto simp: enqueue_audio_def split: option.split)
  then show "\<exists>db. snd (enqueue_audio st clk m s) = s\<lparr>in_media := db\<rparr> \<and> (media_inv (in_media s) \<longrightarrow> media_inv db)"
    by (metis reserve_media_inv(1) same_part(4))
  have "snd (enqueue_image st clk m s) = s \<or> (\<exists>i. snd (enqueue_image st clk m s) =
      s\<lparr>in_media := snd (reserve_image_extraction (clk 11) i (Some (am_conversation_id m)) (is_image_model st) (in_media s))\<rparr>)"
    by (auto simp: enqueue_image_def split: option.split)
  then show "\<exists>db. snd (enqueue_image st clk m s) = s\<lparr>in_media := db\<rparr> \<and> (media_inv (in_media s) \<longrightarrow> media_inv db)"
    by (metis reserve_media_inv(2) same_part(4))
qed

lemma reference_frame:
  "\<exists>db. reference_sender clk m s = s\<lparr>in_contacts := db\<rparr> \<and> (contact_inv (in_contacts s) \<longrightarrow> contact_inv db)"
proof (cases "am_sender_id m")
  case None
  then show ?thesis by (intro exI[of _ "in_contacts s"]) (simp add: reference_sender_def)
next
  case (Some sender)
  let ?r = "map_option (\<lambda>(t, offset). t - coalesce offset 0) (am_timestamp m)"
  have "contact_inv (in_contacts s) \<longrightarrow>
      contact_inv (snd (request_hydration (clk 8) (clk 9) sender ?r (in_contacts s)))"
    using contact_step_inv[of "in_contacts s" "Reference (clk 8) (clk 9) sender ?r"] by simp
  then show ?thesis using Some by (auto simp: reference_sender_def)
qed

definition answers :: "string \<Rightarrow> py_error + bool \<Rightarrow> reply \<Rightarrow> bool" where
  "answers conv res r =
    (case res of
       Inl e \<Rightarrow> r = Server_Error e
     | Inr new \<Rightarrow> (if new then \<exists>a p. r = Received conv a p else r = Duplicate conv))"

lemma answers_cases:
  "answers conv res r \<Longrightarrow> (\<exists>e. r = Server_Error e) \<or> (\<exists>c. r = Duplicate c) \<or> (\<exists>c a p. r = Received c a p)"
  by (cases res) (auto simp: answers_def split: if_splits)

lemma accept_frame:
  assumes "accept_message cd st clk payload m s = (r, s')"
  shows "\<exists>kdb mdb l. s' = s\<lparr>in_contacts := kdb, in_media := mdb, in_events := l\<rparr> \<and>
    (contact_inv (in_contacts s) \<longrightarrow> contact_inv kdb) \<and> (media_inv (in_media s) \<longrightarrow> media_inv mdb) \<and>
    (l = in_events s \<and> (\<exists>e. r = Server_Error e) \<or>
     (\<exists>res. try_mark_webhook_event (clk 12) (event_id cd payload m) (in_events s) = (res, l) \<and>
       answers (am_conversation_id m) res r))"
proof -
  obtain kdb where k: "reference_sender clk m s = s\<lparr>in_contacts := kdb\<rparr>" "contact_inv (in_contacts s) \<longrightarrow> contact_inv kdb"
    using reference_frame by blast
  let ?s1 = "s\<lparr>in_contacts := kdb\<rparr>"
  obtain a s2 where a: "enqueue_audio st clk m ?s1 = (a, s2)" by fastforce
  obtain mdb where m: "s2 = ?s1\<lparr>in_media := mdb\<rparr>" "media_inv (in_media s) \<longrightarrow> media_inv mdb"
    using enqueue_frame(1)[of st clk m ?s1] a by auto
  show ?thesis
  proof (cases a)
    case (Inl e)
    then have "r = Server_Error e" "s' = s2" using assms a k by (simp_all add: accept_message_def)
    then show ?thesis using m k(2) by (intro exI[of _ kdb] exI[of _ mdb] exI[of _ "in_events s"]) simp
  next
    case audio: (Inr audio)
    obtain p s3 where p: "enqueue_image st clk m s2 = (p, s3)" by fastforce
    obtain mdb2 where m2: "s3 = s2\<lparr>in_media := mdb2\<rparr>" "media_inv (in_media s) \<longrightarrow> media_inv mdb2"
      using enqueue_frame(2)[of st clk m s2] p m by auto
    show ?thesis
    proof (cases p)
      case (Inl e)
      then have "r = Server_Error e" "s' = s3" using assms a k p audio by (simp_all add: accept_message_def)
      then show ?thesis using m(1) m2 k(2) by (intro exI[of _ kdb] exI[of _ mdb2] exI[of _ "in_events s"]) simp
    next
      case picture: (Inr picture)
      obtain res l where l: "try_mark_webhook_event (clk 12) (event_id cd payload m) (in_events s) = (res, l)" by fastforce
      have "in_events s3 = in_events s" using m(1) m2(1) by simp
      then have "s' = s3\<lparr>in_events := l\<rparr>" "answers (am_conversation_id m) res r"
        using assms a k p audio picture l
        by (auto simp: accept_message_def answers_def split: sum.splits bool.splits)
      then show ?thesis using m(1) m2 k(2) l by (intro exI[of _ kdb] exI[of _ mdb2] exI[of _ l]) auto
    qed
  qed
qed

lemma message_frame:
  assumes "message_event cd st clk payload data s = (r, s')"
  shows "(s' = s \<and> (\<exists>reason. r = Ignored reason)) \<or>
    (\<exists>m. adapt cd payload = Inr m \<and> accept_message cd st clk payload m s = (r, s') \<and>
      \<not> is_bot_message (bool_or_none (dict_get data ''isFromBot'')) (str_or_none (dict_get data ''origin'')))"
  using assms by (auto simp: message_event_def split: if_splits sum.splits)

section \<open>Invariant\<close>

definition ingest_inv :: "ingest_db \<Rightarrow> bool" where
  "ingest_inv s \<longleftrightarrow> cycle_inv (in_cycles s) \<and> media_inv (in_media s) \<and> contact_inv (in_contacts s) \<and>
    ticket_inv (in_tickets s) \<and> ledger_wf (in_events s)"

lemma try_mark_step:
  "ledger_step now (Record_Event d) l = (if fst (try_mark_webhook_event now d l) = Inr True then Some d else None,
    snd (try_mark_webhook_event now d l))"
  by (cases "try_mark_webhook_event now d l") (auto split: sum.split bool.split)

lemma try_mark_wf: "ledger_wf l \<Longrightarrow> try_mark_webhook_event now d l = (res, l') \<Longrightarrow> ledger_wf l'"
  using ledger_step_wf[OF _ try_mark_step[of now d l]] by simp

lemma webhook_frame:
  assumes "webhook_payload cd st clk uuid payload s = (r, s')"
  obtains (ticket) data event where "dict_get payload ''data'' = JObj data" "dict_get payload ''event'' = JStr event"
      "event = ''ticket.created'' \<or> event = ''ticket.updated''"
      "ticket_event cd st clk uuid event payload data s = (r, s')"
    | (message) data event where "dict_get payload ''data'' = JObj data" "dict_get payload ''event'' = JStr event"
      "event = ''message.created'' \<or> event = ''message.updated''"
      "message_event cd st clk payload data s = (r, s')"
    | (refused) "s' = s" "(\<exists>e. r = Server_Error e) \<or> (\<exists>reason. r = Ignored reason) \<or> (\<exists>reason. r = Bad_Request reason)"
proof (cases "dict_get payload ''data''")
  case (JObj data)
  show thesis
  proof (cases "dict_get payload ''event''")
    case (JStr e)
    then show thesis
      using assms JObj ticket[OF JObj JStr] message[OF JObj JStr] refused
      by (auto simp: webhook_payload_def Let_def split: if_splits)
  qed (use assms JObj refused in \<open>auto simp: webhook_payload_def Let_def split: if_splits\<close>)
qed (use assms refused in \<open>auto simp: webhook_payload_def\<close>)

lemma webhook_inv:
  assumes "ingest_inv s"
  shows "ingest_inv (snd (webhook_payload cd st clk uuid payload s))"
proof -
  obtain r s' where w: "webhook_payload cd st clk uuid payload s = (r, s')" by fastforce
  then have "ingest_inv s'"
  proof (cases rule: webhook_frame)
    case (ticket data event)
    have moved: "cycles_moved (clk 6) (in_cycles s) cdb \<Longrightarrow> cycle_inv cdb" for cdb
      using assms cycle_step_inv by (auto simp: cycles_moved_def ingest_inv_def)
    show ?thesis using ticket_frame[of cd st clk uuid event payload data s] ticket(4) assms moved
      by (auto simp: ingest_inv_def)
  next
    case (message data event)
    from message_frame[OF message(4)] show ?thesis
    proof (elim disjE exE conjE)
      fix m assume "accept_message cd st clk payload m s = (r, s')"
      from accept_frame[OF this] show ?thesis using assms try_mark_wf by (auto simp: ingest_inv_def)
    qed (use assms in simp)
  next
    case refused
    then show ?thesis using assms by simp
  qed
  then show ?thesis using w by simp
qed

lemma ingest_inv_empty: "ingest_inv empty_ingest_db"
  by (simp add: ingest_inv_def empty_ingest_db_def cycle_inv_empty media_inv_def content_inv_def empty_contact_inv
    ticket_inv_empty ledger_wf_def)

section \<open>The webhook among the workers\<close>

text \<open>The database is shared with the workers and the operator commands: an operation is a delivery or one
  transaction of another process.  The time of an operation is the database time of its last transaction; a
  delivery may read other clocks before it.\<close>

datatype ingest_op =
    Delivery "nat \<Rightarrow> time" string jdict
  | Cycle_Work cycle_op
  | Transcription_Work media_op
  | Image_Work media_op
  | Contact_Work contact_op
  | Ticket_Work ticket_op
  | Ledger_Work ledger_op

text \<open>The key whose acceptance an answer reports.\<close>

definition accepted_event :: "codec \<Rightarrow> jdict \<Rightarrow> reply \<Rightarrow> string option" where
  "accepted_event cd payload r =
    (case r of
       Received _ _ _ \<Rightarrow> (case adapt cd payload of Inl _ \<Rightarrow> None | Inr m \<Rightarrow> Some (event_id cd payload m))
     | _ \<Rightarrow> None)"

fun ingest_gate :: "codec \<Rightarrow> ingest_settings \<Rightarrow> time \<Rightarrow> ingest_op \<Rightarrow> ingest_db \<Rightarrow> string option \<times> ingest_db" where
  "ingest_gate cd st now (Delivery clk uuid payload) s =
    (case webhook_payload cd st (clk(12 := now)) uuid payload s of (r, s') \<Rightarrow> (accepted_event cd payload r, s'))"
| "ingest_gate cd st now (Cycle_Work x) s = (None, s\<lparr>in_cycles := cycle_step now x (in_cycles s)\<rparr>)"
| "ingest_gate cd st now (Transcription_Work x) s = (None, s\<lparr>in_media := (in_media s)
    \<lparr>message_transcriptions := media_step now x (message_transcriptions (in_media s))\<rparr>\<rparr>)"
| "ingest_gate cd st now (Image_Work x) s = (None, s\<lparr>in_media := (in_media s)
    \<lparr>message_image_extractions := media_step now x (message_image_extractions (in_media s))\<rparr>\<rparr>)"
| "ingest_gate cd st now (Contact_Work x) s = (None, s\<lparr>in_contacts := contact_step x (in_contacts s)\<rparr>)"
| "ingest_gate cd st now (Ticket_Work x) s = (None, s\<lparr>in_tickets := ticket_step now x (in_tickets s)\<rparr>)"
| "ingest_gate cd st now (Ledger_Work x) s =
    (case ledger_step now x (in_events s) of (k, l) \<Rightarrow> (k, s\<lparr>in_events := l\<rparr>))"

inductive ingest_reachable :: "codec \<Rightarrow> ingest_settings \<Rightarrow> ingest_db \<Rightarrow> bool" for cd st where
  ingest_start: "ingest_reachable cd st empty_ingest_db"
| ingest_next: "ingest_reachable cd st s \<Longrightarrow> ingest_reachable cd st (snd (ingest_gate cd st now x s))"

text \<open>What a delivery does to the ledger: nothing, or the recording of its own key.\<close>

lemma webhook_ledger:
  assumes "webhook_payload cd st clk uuid payload s = (r, s')"
  shows "accepted_event cd payload r = None \<and> in_events s' = in_events s \<or>
    (\<exists>k. ledger_step (clk 12) (Record_Event k) (in_events s) = (accepted_event cd payload r, in_events s'))"
  using assms
proof (cases rule: webhook_frame)
  case (ticket data event)
  have "\<not> (\<exists>c a p. r = Received c a p)"
    using ticket(4) by (auto simp: ticket_event_def open_ticket_def close_ticket_def Let_def
      split: jvalue.splits if_splits option.splits sum.splits)
  moreover have "in_events s' = in_events s"
    using ticket_frame[of cd st clk uuid event payload data s] ticket(4) by auto
  ultimately show ?thesis by (auto simp: accepted_event_def split: reply.split)
next
  case (message data event)
  from message_frame[OF message(4)] show ?thesis
  proof (elim disjE exE conjE)
    fix m assume ad: "adapt cd payload = Inr m" and acc: "accept_message cd st clk payload m s = (r, s')"
    from accept_frame[OF acc] obtain l where l: "in_events s' = l" and
      c: "l = in_events s \<and> (\<exists>e. r = Server_Error e) \<or>
       (\<exists>res. try_mark_webhook_event (clk 12) (event_id cd payload m) (in_events s) = (res, l) \<and>
         answers (am_conversation_id m) res r)"
      by auto
    from c show ?thesis
    proof (elim disjE exE conjE)
      fix res assume res: "try_mark_webhook_event (clk 12) (event_id cd payload m) (in_events s) = (res, l)"
        and a: "answers (am_conversation_id m) res r"
      have "accepted_event cd payload r = (if res = Inr True then Some (event_id cd payload m) else None)"
        using a ad by (auto simp: accepted_event_def answers_def split: sum.splits if_splits)
      then have "ledger_step (clk 12) (Record_Event (event_id cd payload m)) (in_events s) =
          (accepted_event cd payload r, in_events s')"
        unfolding try_mark_step res l by simp
      then show ?thesis by blast
    qed (use l in \<open>auto simp: accepted_event_def\<close>)
  qed (auto simp: accepted_event_def)
qed (auto simp: accepted_event_def)

lemma ingest_gate_inv: "ingest_inv s \<Longrightarrow> ingest_inv (snd (ingest_gate cd st now x s))"
proof (cases x)
  case (Ledger_Work y)
  assume "ingest_inv s"
  then show ?thesis using Ledger_Work ledger_step_wf[of "in_events s" now y]
    by (cases "ledger_step now y (in_events s)") (simp add: ingest_inv_def)
next
  case (Delivery clk uuid payload)
  assume "ingest_inv s"
  then show ?thesis using Delivery webhook_inv[of s cd st "clk(12 := now)" uuid payload]
    by (cases "webhook_payload cd st (clk(12 := now)) uuid payload s") simp
qed (auto simp: ingest_inv_def media_inv_def cycle_step_inv contact_step_inv ticket_step_inv media_step_inv)

lemma ingest_gate_ledger:
  assumes "ingest_gate cd st now x s = (k, s')"
  shows "k = None \<and> in_events s' = in_events s \<or>
    (\<exists>y. ledger_step now y (in_events s) = (k, in_events s'))"
proof (cases x)
  case (Delivery clk uuid payload)
  then obtain r where r: "webhook_payload cd st (clk(12 := now)) uuid payload s = (r, s')" "k = accepted_event cd payload r"
    using assms by (auto split: prod.splits)
  show ?thesis using webhook_ledger[OF r(1)] unfolding r(2) by (simp del: ledger_step.simps) blast
next
  case (Ledger_Work y)
  then show ?thesis using assms by (auto split: prod.splits)
qed (use assms in auto)

text \<open>The webhook provides the contract of the ledger at the level of whole deliveries.\<close>

interpretation webhook_gate: event_gate "ingest_gate cd st" "\<lambda>t k s. event_active t k (in_events s)" ingest_inv
    "seconds 3600" for cd st
proof
  fix s now x k s' and t :: time
  assume inv: "ingest_inv s" and st: "ingest_gate cd st now x s = (Some k, s')"
  have wf: "ledger_wf (in_events s)" using inv by (simp add: ingest_inv_def)
  obtain y where y: "ledger_step now y (in_events s) = (Some k, in_events s')"
    using ingest_gate_ledger[OF st] by auto
  show "\<not> event_active now k (in_events s)" by (rule ledger_gate.accept_inactive[OF wf y])
  show "event_active t k (in_events s')" if "t < now + seconds 3600"
    by (rule ledger_gate.accept_activates[OF wf y that])
next
  fix s now x res s' and t :: time and k
  assume inv: "ingest_inv s" and st: "ingest_gate cd st now x s = (res, s')"
  show "ingest_inv s'" using ingest_gate_inv[OF inv, of cd st now x] st by simp
  assume t: "now \<le> t" "event_active t k (in_events s)"
  have wf: "ledger_wf (in_events s)" using inv by (simp add: ingest_inv_def)
  from ingest_gate_ledger[OF st] show "event_active t k (in_events s')"
    using ledger_gate.step_keeps[OF wf _ t] t(2) by auto
qed

section \<open>Properties\<close>

lemma ingest_gate_moves: "\<exists>t. cycles_moved t (in_cycles s) (in_cycles (snd (ingest_gate cd st now x s)))"
proof (cases x)
  case (Delivery clk uuid payload)
  obtain r s' where w: "webhook_payload cd st (clk(12 := now)) uuid payload s = (r, s')" by fastforce
  then have "\<exists>t. cycles_moved t (in_cycles s) (in_cycles s')"
  proof (cases rule: webhook_frame)
    case (ticket data event)
    show ?thesis using ticket_frame[of cd st "clk(12 := now)" uuid event payload data s] ticket(4) by auto
  next
    case (message data event)
    from message_frame[OF message(4)] show ?thesis
    proof (elim disjE exE conjE)
      fix m assume "accept_message cd st (clk(12 := now)) payload m s = (r, s')"
      from accept_frame[OF this] show ?thesis by (auto simp: cycles_moved_def)
    qed (simp add: cycles_moved_def)
  qed (simp add: cycles_moved_def)
  then show ?thesis using w Delivery by simp
next
  case (Ledger_Work y)
  then show ?thesis by (cases "ledger_step now y (in_events s)") (simp add: cycles_moved_def)
qed (auto simp: cycles_moved_def)

lemma ingest_cycles:
  "ingest_reachable cd st s \<Longrightarrow> cycle_reachable (in_cycles s) \<and> has_cycle_schema (in_cycles s)"
proof (induction rule: ingest_reachable.induct)
  case ingest_start
  show ?case by (simp add: empty_ingest_db_def cycle_empty) code_simp
next
  case (ingest_next s now x)
  then show ?case using ingest_gate_moves[of s cd st now x]
    by (auto simp: cycles_moved_def schema_step intro: cycle_next)
qed

lemma ingest_inv_reachable: "ingest_reachable cd st s \<Longrightarrow> ingest_inv s"
  by (induction rule: ingest_reachable.induct) (simp_all add: ingest_inv_empty ingest_gate_inv)

lemma reachable_tables:
  assumes "ingest_reachable cd st s"
  shows "distinct (map cy_conversation_id (filter (\<lambda>c. cy_ticket_closed_at c = None) (cycles (in_cycles s))))"
    and "unique_opt cy_open_event_key (cycles (in_cycles s)) \<and> unique_opt cy_close_event_key (cycles (in_cycles s))"
    and "distinct (map ct_message_id (message_transcriptions (in_media s))) \<and>
      distinct (map ct_message_id (message_image_extractions (in_media s)))"
    and "distinct (map ek_event_key (td_event_keys (in_tickets s))) \<and> distinct (map event_digest (in_events s))"
  using ingest_inv_reachable[OF assms]
  by (simp_all add: ingest_inv_def cycle_inv_def cycles_unique_def media_inv_def content_inv_def ticket_inv_def ledger_wf_def)


text \<open>C8: A message event is answered \<open>received\<close> at most once per hour: in any interleaving of deliveries and
  worker transactions (in the order of the database clock) two acceptances of the same event are an hour apart.\<close>

theorem messages_received_once:
  assumes "ingest_reachable cd st s" and "sorted (map fst ops)"
  shows "sorted_wrt (\<lambda>(t, k) (t', k'). k = k' \<longrightarrow> t + seconds 3600 \<le> t') (gate_run (ingest_gate cd st) ops s)"
  by (rule webhook_gate.acceptances_spaced[OF ingest_inv_reachable[OF assms(1)] assms(2)])

lemma webhook_parts:
  assumes "webhook_payload cd st clk uuid payload s = (r, s')"
  shows "(\<exists>reason. r = Bad_Request reason \<or> r = Ignored reason) \<Longrightarrow> s' = s"
    and "r = Duplicate conv \<or> r = Received conv a p \<Longrightarrow> in_cycles s' = in_cycles s \<and> in_tickets s' = in_tickets s"
    and "r = Ticket_Opened k conv pid b \<or> r = Ticket_Updated conv \<or> r = Ticket_Closed conv pid b \<or> r = Closure_Ignored conv
      \<Longrightarrow> in_media s' = in_media s \<and> in_events s' = in_events s"
    and "r \<noteq> Unauthorized reason"
proof -
  have all: "((\<exists>reason. r = Bad_Request reason \<or> r = Ignored reason) \<longrightarrow> s' = s) \<and>
    (r = Duplicate conv \<or> r = Received conv a p \<longrightarrow> in_cycles s' = in_cycles s \<and> in_tickets s' = in_tickets s) \<and>
    (r = Ticket_Opened k conv pid b \<or> r = Ticket_Updated conv \<or> r = Ticket_Closed conv pid b \<or> r = Closure_Ignored conv
      \<longrightarrow> in_media s' = in_media s \<and> in_events s' = in_events s) \<and> r \<noteq> Unauthorized reason"
    using assms
  proof (cases rule: webhook_frame)
    case (ticket data event)
    have "in_media s' = in_media s \<and> in_events s' = in_events s"
      using ticket_frame[of cd st clk uuid event payload data s] ticket(4) by auto
    moreover have "(\<exists>t. r = Ignored t) \<and> s' = s \<or> \<not> (\<exists>c a p t. r = Received c a p \<or> r = Duplicate c \<or> r = Unauthorized t \<or>
        r = Bad_Request t \<or> r = Ignored t)"
      using ticket(4) by (auto simp: ticket_event_def open_ticket_def close_ticket_def Let_def
        split: jvalue.splits if_splits option.splits sum.splits)
    ultimately show ?thesis by auto
  next
    case (message data event)
    from message_frame[OF message(4)] show ?thesis
    proof (elim disjE exE conjE)
      fix m assume "accept_message cd st clk payload m s = (r, s')"
      from accept_frame[OF this] obtain kdb mdb l where
        s': "s' = s\<lparr>in_contacts := kdb, in_media := mdb, in_events := l\<rparr>" and
        c: "(\<exists>e. r = Server_Error e) \<or> (\<exists>res. answers (am_conversation_id m) res r)"
        by blast
      from c have "(\<exists>e. r = Server_Error e) \<or> (\<exists>c. r = Duplicate c) \<or> (\<exists>c a p. r = Received c a p)"
        using answers_cases by blast
      with s' show ?thesis by auto
    qed auto
  qed auto
  show "(\<exists>reason. r = Bad_Request reason \<or> r = Ignored reason) \<Longrightarrow> s' = s"
    "r = Duplicate conv \<or> r = Received conv a p \<Longrightarrow> in_cycles s' = in_cycles s \<and> in_tickets s' = in_tickets s"
    "r = Ticket_Opened k conv pid b \<or> r = Ticket_Updated conv \<or> r = Ticket_Closed conv pid b \<or> r = Closure_Ignored conv
      \<Longrightarrow> in_media s' = in_media s \<and> in_events s' = in_events s" "r \<noteq> Unauthorized reason"
    using all by blast+
qed

lemma footprint:
  assumes "digisac_webhook cd loads hmac secret st clk uuid req s = (r, s')"
  shows "secret \<noteq> [] \<and> (\<forall>sig. rq_signature req = Some sig \<longrightarrow> sig = [] \<or> remove_prefix ''sha256='' sig \<noteq> hmac secret (rq_body req))
      \<longrightarrow> s' = s \<and> ((\<exists>reason. r = Unauthorized reason) \<or> (\<exists>e. r = Server_Error e))"
    and "(\<exists>reason. r = Unauthorized reason \<or> r = Bad_Request reason \<or> r = Ignored reason) \<longrightarrow> s' = s"
    and "(\<exists>conv a p. r = Duplicate conv \<or> r = Received conv a p) \<longrightarrow>
      in_cycles s' = in_cycles s \<and> in_tickets s' = in_tickets s"
    and "(\<exists>k conv pid b. r = Ticket_Opened k conv pid b \<or> r = Ticket_Updated conv \<or> r = Ticket_Closed conv pid b \<or>
      r = Closure_Ignored conv) \<longrightarrow> in_media s' = in_media s \<and> in_events s' = in_events s"
proof -
  consider (refused) "s' = s" "(\<exists>reason. r = Unauthorized reason \<or> r = Bad_Request reason) \<or> (\<exists>e. r = Server_Error e)"
    | (run) payload where "webhook_payload cd st clk uuid payload s = (r, s')"
    using assms by (auto simp: digisac_webhook_def split: option.splits sum.splits parsed_body.splits jvalue.splits)
  note c = this
  show "(\<exists>reason. r = Unauthorized reason \<or> r = Bad_Request reason \<or> r = Ignored reason) \<longrightarrow> s' = s"
    using c webhook_parts(1,4) by metis
  show "(\<exists>conv a p. r = Duplicate conv \<or> r = Received conv a p) \<longrightarrow>
      in_cycles s' = in_cycles s \<and> in_tickets s' = in_tickets s"
    using c webhook_parts(2) by metis
  show "(\<exists>k conv pid b. r = Ticket_Opened k conv pid b \<or> r = Ticket_Updated conv \<or> r = Ticket_Closed conv pid b \<or>
      r = Closure_Ignored conv) \<longrightarrow> in_media s' = in_media s \<and> in_events s' = in_events s"
    using c by (cases, auto dest: webhook_parts(3))
  show "secret \<noteq> [] \<and> (\<forall>sig. rq_signature req = Some sig \<longrightarrow> sig = [] \<or> remove_prefix ''sha256='' sig \<noteq> hmac secret (rq_body req))
      \<longrightarrow> s' = s \<and> ((\<exists>reason. r = Unauthorized reason) \<or> (\<exists>e. r = Server_Error e))"
    using assms by (auto simp: digisac_webhook_def verify_webhook_signature_def Let_def split: option.splits if_splits)
qed


section \<open>Ticket events\<close>

text \<open>The shapes of a payload that opens a ticket and of one that closes it.\<close>

definition opens_ticket :: "string \<Rightarrow> string \<Rightarrow> jdict \<Rightarrow> jdict \<Rightarrow> bool" where
  "opens_ticket event conv data payload \<longleftrightarrow>
    dict_get payload ''data'' = JObj data \<and> dict_get payload ''event'' = JStr event \<and>
    dict_get data ''id'' = JStr conv \<and> conv \<noteq> [] \<and>
    (event = ''ticket.created'' \<or> event = ''ticket.updated'' \<and> dict_get data ''isOpen'' = JBool True)"

definition closes_ticket :: "codec \<Rightarrow> string \<Rightarrow> string \<Rightarrow> jdict \<Rightarrow> jdict \<Rightarrow> bool" where
  "closes_ticket cd conv protocol data payload \<longleftrightarrow>
    dict_get payload ''data'' = JObj data \<and> dict_get payload ''event'' = JStr ''ticket.updated'' \<and>
    dict_get data ''id'' = JStr conv \<and> conv \<noteq> [] \<and> dict_get data ''isOpen'' = JBool False \<and>
    json_protocol cd (dict_get data ''protocol'') = Some protocol"

definition open_kind :: "string \<Rightarrow> string" where
  "open_kind event = (if event = ''ticket.created'' then ''ticket_created'' else ''ticket_reopened'')"

lemma captured_cycles:
  "in_cycles (snd (capture_contact_snapshot cd clk payload data s)) = in_cycles s"
  "in_cycles (snd (capture_ticket_assignment cd clk payload data conv s)) = in_cycles s"
  using snapshot_frame[of cd clk payload data s] assignment_frame[of cd clk payload data conv s] by auto

lemma opening_run:
  assumes "opens_ticket event conv data payload"
  obtains s2 strategy where "in_cycles s2 = in_cycles s" "btrim strategy \<noteq> []"
    "webhook_payload cd st clk uuid payload s = open_ticket cd clk uuid event strategy payload data conv s2"
proof (cases "event = ''ticket.created''")
  case True
  then show thesis
    using assms captured_cycles(1)
    by (intro that[of "snd (capture_contact_snapshot cd clk payload data s)" "''ticket_created_event''"])
      (simp_all add: opens_ticket_def webhook_payload_def ticket_event_def btrim_def Let_def)
next
  case False
  then show thesis
    using assms captured_cycles
    by (intro that[of "snd (capture_ticket_assignment cd clk payload data conv
        (snd (capture_contact_snapshot cd clk payload data s)))" "''ticket_reopened_event''"])
      (simp_all add: opens_ticket_def webhook_payload_def ticket_event_def btrim_def Let_def)
qed

lemma closing_run:
  assumes "closes_ticket cd conv protocol data payload"
  obtains s2 where "in_cycles s2 = in_cycles s"
    "webhook_payload cd st clk uuid payload s = close_ticket cd st clk uuid ''ticket.updated'' payload data conv s2"
  using assms captured_cycles
  by (intro that[of "snd (capture_ticket_assignment cd clk payload data conv
      (snd (capture_contact_snapshot cd clk payload data s)))"])
    (simp_all add: closes_ticket_def webhook_payload_def ticket_event_def Let_def)

text \<open>What the two kinds of event do to the cycles.\<close>

definition event_time :: "codec \<Rightarrow> (nat \<Rightarrow> time) \<Rightarrow> jdict \<Rightarrow> jdict \<Rightarrow> time" where
  "event_time cd clk payload data = fst (ticket_event_timestamp cd (clk 5) payload data)"

lemma opening_cycles:
  assumes "opens_ticket event conv data payload"
  obtains strategy where "btrim strategy \<noteq> []"
    "\<And>res db. create_open_cycle (clk 6) uuid conv (event_time cd clk payload data)
        (cycle_event_key cd event conv payload data) strategy (ticket_contact cd data) (in_cycles s) = (res, db) \<Longrightarrow>
      in_cycles (snd (webhook_payload cd st clk uuid payload s)) = db \<and>
      fst (webhook_payload cd st clk uuid payload s) = (case res of Inl e \<Rightarrow> Server_Error e
        | Inr (c, created) \<Rightarrow> Ticket_Opened (open_kind event) conv (cy_public_id c) created)"
proof -
  obtain s2 strategy where c: "in_cycles s2 = in_cycles s" "btrim strategy \<noteq> []"
    and w: "webhook_payload cd st clk uuid payload s = open_ticket cd clk uuid event strategy payload data conv s2"
    by (rule opening_run[OF assms])
  show thesis
    using c by (intro that[of strategy])
      (auto simp: w open_ticket_def open_kind_def event_time_def split: sum.split prod.split)
qed

lemma closing_cycles:
  assumes "closes_ticket cd conv protocol data payload"
    and "close_cycle (clk 6) (is_close_delay st) uuid conv protocol (event_time cd clk payload data)
        (cycle_event_key cd ''ticket.updated'' conv payload data) pending_inference (ticket_contact cd data)
        (in_cycles s) = (res, db)"
  shows "in_cycles (snd (webhook_payload cd st clk uuid payload s)) = db \<and>
      fst (webhook_payload cd st clk uuid payload s) = (case res of Inl e \<Rightarrow> Server_Error e
        | Inr (c, created) \<Rightarrow> Ticket_Closed conv (cy_public_id c) created)"
proof -
  obtain s2 where c: "in_cycles s2 = in_cycles s"
    and w: "webhook_payload cd st clk uuid payload s = close_ticket cd st clk uuid ''ticket.updated'' payload data conv s2"
    by (rule closing_run[OF assms(1)])
  have p: "json_protocol cd (dict_get data ''protocol'') = Some protocol" using assms(1) by (simp add: closes_ticket_def)
  show ?thesis using c p assms(2) by (auto simp: w close_ticket_def event_time_def split: sum.split prod.split)
qed

text \<open>Which event keys an operation adds to the table.\<close>

lemma commit_rows: "cycles (snd (commit_cycles rows x db)) \<in> {rows, cycles db}"
  by (simp add: commit_cycles_def)

lemma returned_db: "snd (return_cycle p b db) = db"
  by (simp add: return_cycle_def split: option.split)

lemma close_rows:
  "\<exists>P x contact. cycles (snd (close_cycle now delay uuid conv protocol closed_at key fallback value db)) \<in>
    {cycles db, update_where P (close_update now delay protocol closed_at key contact) (cycles db),
     cycles db @ [close_update now delay protocol closed_at key contact (new_cycle x uuid conv
       (next_sequence conv (cycles db)) fallback now)]}"
proof (cases "has_cycle_schema db")
  case True
  show ?thesis
  proof (cases "normalize_cycle_contact_external_id value")
    case (Inr contact)
    have run: "close_cycle now delay uuid conv protocol closed_at key fallback value db =
        close_cycle_tx now delay uuid conv protocol closed_at key fallback contact db"
      using True Inr by (simp add: close_cycle_def with_cycle_schema_def)
    show ?thesis
    proof (cases "find (\<lambda>c. cy_close_event_key c = Some key) (cycles db)")
      case (Some d)
      then show ?thesis by (simp add: run close_cycle_tx_def returned_db)
    next
      case none: None
      show ?thesis
      proof (cases "find_open_cycle conv (cycles db)")
        case None
        then have "cycles (snd (close_cycle now delay uuid conv protocol closed_at key fallback value db)) \<in>
            {cycles db, cycles db @ [close_update now delay protocol closed_at key contact
              (new_cycle (next_cycle_id db) uuid conv (next_sequence conv (cycles db)) fallback now)]}"
          using none by (auto simp: run close_cycle_tx_def returned_db insert_cycle_def commit_cycles_def)
        then show ?thesis by blast
      next
        case (Some e)
        then have "cycles (snd (close_cycle now delay uuid conv protocol closed_at key fallback value db)) \<in>
            {cycles db, update_where (\<lambda>c. cy_id c = cy_id e) (close_update now delay protocol closed_at key contact)
              (cycles db)}"
          using none by (auto simp: run close_cycle_tx_def returned_db commit_cycles_def)
        then show ?thesis by blast
      qed
    qed
  qed (simp add: close_cycle_def with_cycle_schema_def True)
qed (simp add: close_cycle_def with_cycle_schema_def)

lemma close_keys:
  assumes "db' = snd (close_cycle now delay uuid conv protocol closed_at key fallback value db)"
  shows "cy_open_event_key ` set (cycles db') \<subseteq> cy_open_event_key ` set (cycles db) \<union> {None}"
    and "cy_close_event_key ` set (cycles db') \<subseteq> cy_close_event_key ` set (cycles db) \<union> {Some key}"
proof -
  obtain P x contact where rows: "cycles db' \<in>
    {cycles db, update_where P (close_update now delay protocol closed_at key contact) (cycles db),
     cycles db @ [close_update now delay protocol closed_at key contact (new_cycle x uuid conv
       (next_sequence conv (cycles db)) fallback now)]}"
    using close_rows[of now delay uuid conv protocol closed_at key fallback "value" db] assms by metis
  have upd: "cy_open_event_key (close_update now delay protocol closed_at key contact (new_cycle x uuid conv n fallback now)) = None"
    "cy_open_event_key (close_update now delay protocol closed_at key contact c) = cy_open_event_key c"
    "cy_close_event_key (close_update now delay protocol closed_at key contact c) = Some key" for n c
    by (simp_all add: close_update_def new_cycle_def)
  show "cy_open_event_key ` set (cycles db') \<subseteq> cy_open_event_key ` set (cycles db) \<union> {None}"
    using rows by (auto simp: upd elim!: update_whereE split: if_splits)
  show "cy_close_event_key ` set (cycles db') \<subseteq> cy_close_event_key ` set (cycles db) \<union> {Some key}"
    using rows by (auto simp: upd elim!: update_whereE split: if_splits)
qed

text \<open>The decision of a ticket event, read off the theorems of the cycle repository.\<close>

definition usable_keys :: "codec \<Rightarrow> bool" where
  "usable_keys cd \<longleftrightarrow> (\<forall>x. btrim (cd_sha cd x) \<noteq> [])"

definition usable_contact :: "codec \<Rightarrow> jdict \<Rightarrow> bool" where
  "usable_contact cd data \<longleftrightarrow> (\<exists>c. normalize_cycle_contact_external_id (ticket_contact cd data) = Inr c)"

definition unused :: "string \<Rightarrow> ingest_db \<Rightarrow> bool" where
  "unused uuid s \<longleftrightarrow> uuid \<notin> cy_public_id ` set (cycles (in_cycles s))"

lemma opening_decides:
  assumes "ingest_reachable cd st s" and "usable_keys cd" and "opens_ticket event conv data payload"
    and "usable_contact cd data" and "unused uuid s"
    and "webhook_payload cd st clk uuid payload s = (r, s')" and key: "key = cycle_event_key cd event conv payload data"
  shows "case find (\<lambda>c. cy_open_event_key c = Some key) (cycles (in_cycles s)) of
      Some d \<Rightarrow> r = Ticket_Opened (open_kind event) conv (cy_public_id d) False \<and> in_cycles s' = in_cycles s
    | None \<Rightarrow>
       (case find_open_cycle conv (cycles (in_cycles s)) of
          Some e \<Rightarrow> r = Ticket_Opened (open_kind event) conv (cy_public_id e) False \<and>
            map cy_open_event_key (cycles (in_cycles s')) = map cy_open_event_key (cycles (in_cycles s)) \<and>
            map cy_close_event_key (cycles (in_cycles s')) = map cy_close_event_key (cycles (in_cycles s)) \<and>
            map cy_public_id (cycles (in_cycles s')) = map cy_public_id (cycles (in_cycles s)) \<and>
            find_open_cycle conv (cycles (in_cycles s')) \<noteq> None
        | None \<Rightarrow> r = Ticket_Opened (open_kind event) conv uuid True \<and>
            (\<exists>c. cycles (in_cycles s') = cycles (in_cycles s) @ [c] \<and> cy_conversation_id c = conv \<and>
              cy_status c = Cycle_Open \<and> cy_cycle_started_at c = Some (event_time cd clk payload data) \<and>
              cy_public_id c = uuid))"
proof -
  obtain contact where contact: "normalize_cycle_contact_external_id (ticket_contact cd data) = Inr contact"
    using assms(4) by (auto simp: usable_contact_def)
  have kb: "btrim key \<noteq> []" using assms(2) by (simp add: usable_keys_def key cycle_event_key_def)
  obtain strategy where sb: "btrim strategy \<noteq> []"
    and run: "\<And>res db. create_open_cycle (clk 6) uuid conv (event_time cd clk payload data)
        (cycle_event_key cd event conv payload data) strategy (ticket_contact cd data) (in_cycles s) = (res, db) \<Longrightarrow>
      in_cycles (snd (webhook_payload cd st clk uuid payload s)) = db \<and>
      fst (webhook_payload cd st clk uuid payload s) = (case res of Inl e \<Rightarrow> Server_Error e
        | Inr (c, created) \<Rightarrow> Ticket_Opened (open_kind event) conv (cy_public_id c) created)"
    by (rule opening_cycles[OF assms(3)]) (rule that)
  have reach: "cycle_reachable (in_cycles s)" "has_cycle_schema (in_cycles s)"
    using ingest_cycles[OF assms(1)] by simp_all
  note cases_ = open_ticket_cases[OF reach contact assms(5)[unfolded unused_def] kb sb, of "clk 6" conv
      "event_time cd clk payload data"]
  show ?thesis
  proof (cases "find (\<lambda>c. cy_open_event_key c = Some key) (cycles (in_cycles s))")
    case (Some d)
    then show ?thesis using cases_ run assms(6) by (simp add: key)
  next
    case dup: None
    show ?thesis
    proof (cases "find_open_cycle conv (cycles (in_cycles s))")
      case None
      then show ?thesis using dup cases_ run assms(6) by (auto simp: key)
    next
      case (Some e)
      let ?rows = "update_where (\<lambda>c. cy_id c = cy_id e) (with_contact (clk 6) contact) (cycles (in_cycles s))"
      have res: "r = Ticket_Opened (open_kind event) conv (cy_public_id e) False" "cycles (in_cycles s') = ?rows"
        using dup Some cases_ run assms(6) by (auto simp: key with_contact_def)
      have e: "e \<in> set (cycles (in_cycles s))" "cy_conversation_id e = conv" "cy_ticket_closed_at e = None"
        using Some by (auto simp: find_open_cycle_def find_Some_iff)
      have "with_contact (clk 6) contact e \<in> set ?rows" using e(1) by (auto simp: update_where_def)
      moreover have "cy_conversation_id (with_contact (clk 6) contact e) = conv"
        "cy_ticket_closed_at (with_contact (clk 6) contact e) = None"
        using e(2,3) by (simp_all add: with_contact_def)
      ultimately have "find_open_cycle conv ?rows \<noteq> None"
        unfolding find_open_cycle_def find_None_iff by blast
      then show ?thesis using res dup Some by (simp add: map_update_where with_contact_def)
    qed
  qed
qed

lemma closing_decides:
  assumes "ingest_reachable cd st s" and "usable_keys cd" and "closes_ticket cd conv protocol data payload"
    and "usable_contact cd data" and "unused uuid s"
    and "webhook_payload cd st clk uuid payload s = (r, s')"
    and key: "key = cycle_event_key cd ''ticket.updated'' conv payload data"
  shows "case find (\<lambda>c. cy_close_event_key c = Some key) (cycles (in_cycles s)) of
      Some d \<Rightarrow> r = Ticket_Closed conv (cy_public_id d) False \<and> in_cycles s' = in_cycles s
    | None \<Rightarrow> \<exists>c. r = Ticket_Closed conv (cy_public_id c) True \<and> c \<in> set (cycles (in_cycles s')) \<and>
        cy_conversation_id c = conv \<and> cy_status c = Cycle_Pending \<and>
        cy_ticket_closed_at c = Some (event_time cd clk payload data) \<and>
        cy_next_attempt_at c = Some (clk 6 + seconds (is_close_delay st)) \<and>
        find_open_cycle conv (cycles (in_cycles s')) = None \<and>
        (case find_open_cycle conv (cycles (in_cycles s)) of
           Some opened \<Rightarrow> cy_id c = cy_id opened \<and> length (cycles (in_cycles s')) = length (cycles (in_cycles s))
         | None \<Rightarrow> cy_public_id c = uuid \<and> cycles (in_cycles s') = cycles (in_cycles s) @ [c])"
    and "cy_open_event_key ` set (cycles (in_cycles s')) \<subseteq> cy_open_event_key ` set (cycles (in_cycles s)) \<union> {None}"
    and "cy_close_event_key ` set (cycles (in_cycles s')) \<subseteq> cy_close_event_key ` set (cycles (in_cycles s)) \<union> {Some key}"
proof -
  obtain contact where contact: "normalize_cycle_contact_external_id (ticket_contact cd data) = Inr contact"
    using assms(4) by (auto simp: usable_contact_def)
  have kb: "btrim key \<noteq> []" using assms(2) by (simp add: usable_keys_def key cycle_event_key_def)
  have pb: "btrim pending_inference \<noteq> []" by code_simp
  have reach: "cycle_reachable (in_cycles s)" "has_cycle_schema (in_cycles s)"
    using ingest_cycles[OF assms(1)] by simp_all
  obtain res db where call: "close_cycle (clk 6) (is_close_delay st) uuid conv protocol (event_time cd clk payload data)
      key pending_inference (ticket_contact cd data) (in_cycles s) = (res, db)" by fastforce
  have run: "in_cycles s' = db" "r = (case res of Inl e \<Rightarrow> Server_Error e
      | Inr (c, created) \<Rightarrow> Ticket_Closed conv (cy_public_id c) created)"
    using closing_cycles[OF assms(3) call[unfolded key]] assms(6) by simp_all
  note keys = close_keys[of db "clk 6" "is_close_delay st" uuid conv protocol "event_time cd clk payload data" key
    pending_inference "ticket_contact cd data" "in_cycles s"]
  show "cy_open_event_key ` set (cycles (in_cycles s')) \<subseteq> cy_open_event_key ` set (cycles (in_cycles s)) \<union> {None}"
    "cy_close_event_key ` set (cycles (in_cycles s')) \<subseteq> cy_close_event_key ` set (cycles (in_cycles s)) \<union> {Some key}"
    using keys call run(1) by simp_all
  note cases_ = close_ticket_cases[OF reach contact assms(5)[unfolded unused_def] kb pb, of "clk 6" "is_close_delay st"
      conv protocol "event_time cd clk payload data"]
  show "case find (\<lambda>c. cy_close_event_key c = Some key) (cycles (in_cycles s)) of
      Some d \<Rightarrow> r = Ticket_Closed conv (cy_public_id d) False \<and> in_cycles s' = in_cycles s
    | None \<Rightarrow> \<exists>c. r = Ticket_Closed conv (cy_public_id c) True \<and> c \<in> set (cycles (in_cycles s')) \<and>
        cy_conversation_id c = conv \<and> cy_status c = Cycle_Pending \<and>
        cy_ticket_closed_at c = Some (event_time cd clk payload data) \<and>
        cy_next_attempt_at c = Some (clk 6 + seconds (is_close_delay st)) \<and>
        find_open_cycle conv (cycles (in_cycles s')) = None \<and>
        (case find_open_cycle conv (cycles (in_cycles s)) of
           Some opened \<Rightarrow> cy_id c = cy_id opened \<and> length (cycles (in_cycles s')) = length (cycles (in_cycles s))
         | None \<Rightarrow> cy_public_id c = uuid \<and> cycles (in_cycles s') = cycles (in_cycles s) @ [c])"
  proof (cases "find (\<lambda>c. cy_close_event_key c = Some key) (cycles (in_cycles s))")
    case (Some d)
    then show ?thesis using cases_ run call by simp
  next
    case None
    then show ?thesis using cases_ run call by auto
  qed
qed

lemma delivery_reachable:
  "ingest_reachable cd st s \<Longrightarrow> webhook_payload cd st clk uuid payload s = (r, s') \<Longrightarrow> ingest_reachable cd st s'"
  using ingest_next[of cd st s "clk 12" "Delivery clk uuid payload"] by simp

lemma fresh_key:
  "Some key \<notin> f ` set rows \<Longrightarrow> find (\<lambda>c. f c = Some key) rows = None"
  by (force simp: find_None_iff)

lemma ghost_opened:
  assumes "ingest_reachable cd st s" and "usable_keys cd"
    and "opens_ticket event conv data payload" and "usable_contact cd data"
    and "closes_ticket cd conv protocol data2 payload2" and "usable_contact cd data2"
    and "Some (cycle_event_key cd event conv payload data) \<notin> cy_open_event_key ` set (cycles (in_cycles s))"
    and "Some (cycle_event_key cd ''ticket.updated'' conv payload2 data2) \<notin> cy_close_event_key ` set (cycles (in_cycles s))"
    and "find_open_cycle conv (cycles (in_cycles s)) = Some e"
    and "webhook_payload cd st clk1 uuid1 payload s = (r1, s1)" and "unused uuid1 s"
    and "webhook_payload cd st clk2 uuid2 payload2 s1 = (r2, s2)" and "unused uuid2 s1"
    and "webhook_payload cd st clk3 uuid3 payload s2 = (r3, s3)" and "unused uuid3 s2"
  shows "r1 = Ticket_Opened (open_kind event) conv (cy_public_id e) False"
    and "\<exists>pid. r2 = Ticket_Closed conv pid True"
    and "r3 = Ticket_Opened (open_kind event) conv uuid3 True"
    and "\<exists>ghost. cycles (in_cycles s3) = cycles (in_cycles s2) @ [ghost] \<and> cy_status ghost = Cycle_Open \<and>
      cy_conversation_id ghost = conv \<and> cy_cycle_started_at ghost = Some (event_time cd clk3 payload data)"
proof -
  let ?key = "cycle_event_key cd event conv payload data"
  let ?key2 = "cycle_event_key cd ''ticket.updated'' conv payload2 data2"
  note first = opening_decides[OF assms(1-4,11,10) refl, unfolded fresh_key[OF assms(7)] option.case assms(9)]
  show "r1 = Ticket_Opened (open_kind event) conv (cy_public_id e) False" using first by simp
  have reach1: "ingest_reachable cd st s1" by (rule delivery_reachable[OF assms(1,10)])
  have keys1: "Some ?key \<notin> cy_open_event_key ` set (cycles (in_cycles s1))"
    "Some ?key2 \<notin> cy_close_event_key ` set (cycles (in_cycles s1))"
    using first assms(7,8) by (simp_all flip: set_map)
  note second = closing_decides[OF reach1 assms(2,5,6,13,12) refl]
  obtain c :: cycle where c: "r2 = Ticket_Closed conv (cy_public_id c) True" "find_open_cycle conv (cycles (in_cycles s2)) = None"
    using second(1)[unfolded fresh_key[OF keys1(2)] option.case] by (elim exE conjE) (rule that)
  show "\<exists>pid. r2 = Ticket_Closed conv pid True" using c(1) by blast
  have reach2: "ingest_reachable cd st s2" by (rule delivery_reachable[OF reach1 assms(12)])
  have keys2: "Some ?key \<notin> cy_open_event_key ` set (cycles (in_cycles s2))" using second(2) keys1(1) by auto
  note third = opening_decides[OF reach2 assms(2-4,15,14) refl, unfolded fresh_key[OF keys2] option.case c(2)]
  show "r3 = Ticket_Opened (open_kind event) conv uuid3 True" using third by simp
  show "\<exists>ghost. cycles (in_cycles s3) = cycles (in_cycles s2) @ [ghost] \<and> cy_status ghost = Cycle_Open \<and>
      cy_conversation_id ghost = conv \<and> cy_cycle_started_at ghost = Some (event_time cd clk3 payload data)"
    using third by blast
qed

text \<open>C18: The opening of a ticket is not idempotent.  An \<open>isOpen\<close> event that reaches a conversation with an open
  cycle is attached to it and its key is stored nowhere; delivered again after the ticket was closed, the same event
  opens another cycle, which no ticket stands behind.\<close>

theorem redelivered_open_event_opens_ghost:
  assumes "ingest_reachable cd st s" and "usable_keys cd"
    and "opens_ticket event conv data payload" and "usable_contact cd data"
    and "closes_ticket cd conv protocol data2 payload2" and "usable_contact cd data2"
    and "Some (cycle_event_key cd event conv payload data) \<notin> cy_open_event_key ` set (cycles (in_cycles s))"
    and "Some (cycle_event_key cd ''ticket.updated'' conv payload2 data2) \<notin> cy_close_event_key ` set (cycles (in_cycles s))"
    and "find_open_cycle conv (cycles (in_cycles s)) = Some e"
    and "webhook_payload cd st clk1 uuid1 payload s = (r1, s1)" and "unused uuid1 s"
    and "webhook_payload cd st clk2 uuid2 payload2 s1 = (r2, s2)" and "unused uuid2 s1"
    and "webhook_payload cd st clk3 uuid3 payload s2 = (r3, s3)" and "unused uuid3 s2"
  shows "(r1 = Ticket_Opened (open_kind event) conv (cy_public_id e) False) \<and>
    (\<exists>pid. r2 = Ticket_Closed conv pid True) \<and>
    (r3 = Ticket_Opened (open_kind event) conv uuid3 True) \<and>
    (\<exists>ghost. cycles (in_cycles s3) = cycles (in_cycles s2) @ [ghost] \<and> cy_status ghost = Cycle_Open \<and>
      cy_conversation_id ghost = conv \<and> cy_cycle_started_at ghost = Some (event_time cd clk3 payload data))"
  using ghost_opened[OF assms] by blast

text \<open>One closed ticket can be analysed twice.  Any later update of the closed ticket (\<open>isOpen\<close> still false,
  another event) closes a new cycle of its own, which is pending for the finalization worker like the first.\<close>

theorem closed_ticket_update_pends_again:
  assumes "ingest_reachable cd st s" and "usable_keys cd"
    and "closes_ticket cd conv protocol data payload" and "usable_contact cd data"
    and "closes_ticket cd conv protocol2 data2 payload2" and "usable_contact cd data2"
    and "cycle_event_key cd ''ticket.updated'' conv payload2 data2 \<noteq> cycle_event_key cd ''ticket.updated'' conv payload data"
    and "Some (cycle_event_key cd ''ticket.updated'' conv payload data) \<notin> cy_close_event_key ` set (cycles (in_cycles s))"
    and "Some (cycle_event_key cd ''ticket.updated'' conv payload2 data2) \<notin> cy_close_event_key ` set (cycles (in_cycles s))"
    and "webhook_payload cd st clk1 uuid1 payload s = (r1, s1)" and "unused uuid1 s"
    and "webhook_payload cd st clk2 uuid2 payload2 s1 = (r2, s2)" and "unused uuid2 s1"
  shows "\<exists>c1 c2. r1 = Ticket_Closed conv (cy_public_id c1) True \<and> c1 \<in> set (cycles (in_cycles s1)) \<and>
    cy_status c1 = Cycle_Pending \<and> r2 = Ticket_Closed conv uuid2 True \<and>
    cycles (in_cycles s2) = cycles (in_cycles s1) @ [c2] \<and> cy_conversation_id c2 = conv \<and> cy_status c2 = Cycle_Pending"
proof -
  note first = closing_decides[OF assms(1-4,11,10) refl]
  have reach1: "ingest_reachable cd st s1" by (rule delivery_reachable[OF assms(1,10)])
  obtain c1 where c1: "r1 = Ticket_Closed conv (cy_public_id c1) True" "c1 \<in> set (cycles (in_cycles s1))"
    "cy_status c1 = Cycle_Pending" "find_open_cycle conv (cycles (in_cycles s1)) = None"
    using first(1)[unfolded fresh_key[OF assms(8)] option.case] by (elim exE conjE) (rule that)
  have "Some (cycle_event_key cd ''ticket.updated'' conv payload2 data2) \<notin> cy_close_event_key ` set (cycles (in_cycles s1))"
    using first(3) assms(7,9) by auto
  note second = closing_decides(1)[OF reach1 assms(2,5,6,13,12) refl, unfolded fresh_key[OF this] option.case c1(4)]
  show ?thesis using second c1 by blast
qed

fun ingest_run :: "codec \<Rightarrow> ingest_settings \<Rightarrow> (time \<times> ingest_op) list \<Rightarrow> ingest_db \<Rightarrow> ingest_db" where
  "ingest_run cd st [] s = s"
| "ingest_run cd st ((now, x) # ops) s = ingest_run cd st ops (snd (ingest_gate cd st now x s))"


lemma cycles_moved_run: "cycles_moved t db db' \<Longrightarrow> \<exists>ops. db' = cycle_run ops db"
  unfolding cycles_moved_def by (metis cycle_run.simps)

lemma cycle_run_append: "cycle_run (xs @ ys) db = cycle_run ys (cycle_run xs db)"
  by (induction xs db rule: cycle_run.induct) simp_all

lemma ingest_run_cycles: "\<exists>ops'. in_cycles (ingest_run cd st ops s) = cycle_run ops' (in_cycles s)"
proof (induction ops arbitrary: s)
  case Nil
  show ?case by (intro exI[of _ "[]"]) simp
next
  case (Cons a ops)
  obtain now x where a: "a = (now, x)" by fastforce
  obtain t where "cycles_moved t (in_cycles s) (in_cycles (snd (ingest_gate cd st now x s)))"
    using ingest_gate_moves by blast
  then obtain first where f: "in_cycles (snd (ingest_gate cd st now x s)) = cycle_run first (in_cycles s)"
    using cycles_moved_run by blast
  obtain rest where "in_cycles (ingest_run cd st ops (snd (ingest_gate cd st now x s))) =
      cycle_run rest (in_cycles (snd (ingest_gate cd st now x s)))"
    using Cons.IH by blast
  then have "in_cycles (ingest_run cd st (a # ops) s) = cycle_run (first @ rest) (in_cycles s)"
    unfolding a ingest_run.simps f cycle_run_append .
  then show ?case by blast
qed

lemma close_delivered_again:
  assumes "ingest_reachable cd st s" and "closes_ticket cd conv protocol data payload" and "usable_contact cd data"
    and "webhook_payload cd st clk1 uuid1 payload s = (Ticket_Closed conv pid created, s1)"
    and "s2 = ingest_run cd st ops s1"
  shows "fst (webhook_payload cd st clk2 uuid2 payload s2) = Ticket_Closed conv pid False"
    and "in_cycles (snd (webhook_payload cd st clk2 uuid2 payload s2)) = in_cycles s2"
proof -
  obtain contact where contact: "normalize_cycle_contact_external_id (ticket_contact cd data) = Inr contact"
    using assms(3) by (auto simp: usable_contact_def)
  let ?key = "cycle_event_key cd ''ticket.updated'' conv payload data"
  obtain res db where call: "close_cycle (clk1 6) (is_close_delay st) uuid1 conv protocol (event_time cd clk1 payload data)
      ?key pending_inference (ticket_contact cd data) (in_cycles s) = (res, db)" by fastforce
  have run: "in_cycles s1 = db" "Ticket_Closed conv pid created = (case res of Inl e \<Rightarrow> Server_Error e
      | Inr (c, created) \<Rightarrow> Ticket_Closed conv (cy_public_id c) created)"
    using closing_cycles[OF assms(2) call] assms(4) by simp_all
  then obtain c where c: "res = Inr (c, created)" "pid = cy_public_id c" by (auto split: sum.splits)
  obtain ops' where ops': "in_cycles s2 = cycle_run ops' db"
    using ingest_run_cycles[of cd st ops s1] assms(5) run(1) by auto
  have reach: "cycle_reachable (in_cycles s)" using ingest_cycles[OF assms(1)] by simp
  obtain d where d: "close_cycle (clk2 6) (is_close_delay st) uuid2 conv protocol (event_time cd clk2 payload data) ?key
      pending_inference (ticket_contact cd data) (in_cycles s2) = (Inr (d, False), in_cycles s2)" "cy_public_id d = pid"
    using close_event_again[OF reach call[unfolded c(1)] contact] unfolding ops' c(2) by blast
  show "fst (webhook_payload cd st clk2 uuid2 payload s2) = Ticket_Closed conv pid False"
    "in_cycles (snd (webhook_payload cd st clk2 uuid2 payload s2)) = in_cycles s2"
    using closing_cycles[OF assms(2) d(1)] d(2) by simp_all
qed

text \<open>C9: The same closing event never closes twice: after a delivery answered \<open>ticket_closed\<close>, and whatever
  deliveries and worker transactions follow, the same payload names the same cycle as already closed and changes no
  cycle.\<close>

theorem close_delivery_idempotent:
  assumes "ingest_reachable cd st s" and "closes_ticket cd conv protocol data payload" and "usable_contact cd data"
    and "webhook_payload cd st clk1 uuid1 payload s = (Ticket_Closed conv pid created, s1)"
    and "s2 = ingest_run cd st ops s1"
  shows "(fst (webhook_payload cd st clk2 uuid2 payload s2) = Ticket_Closed conv pid False) \<and>
    (in_cycles (snd (webhook_payload cd st clk2 uuid2 payload s2)) = in_cycles s2)"
  using close_delivered_again[OF assms] by blast

section \<open>A run\<close>

text \<open>A ticket that is created, updated while open, closed and updated once more; a message received twice.\<close>

definition sample_codec :: codec where
  "sample_codec = \<lparr>cd_fromiso = (\<lambda>_. None), cd_isoformat = (\<lambda>_. ''t''), cd_repr = (\<lambda>_. ''r''), cd_dumps = (\<lambda>_. ''0''),
    cd_sha = (\<lambda>s. replicate 63 (CHR ''a'') @ [if s = [] then CHR ''0'' else last s])\<rparr>"

definition sample_settings :: ingest_settings where
  "sample_settings = \<lparr>is_audio_model = ''whisper'', is_image_model = ''vision'', is_close_delay = 60\<rparr>"

definition sample_ticket_event :: "string \<Rightarrow> jdict \<Rightarrow> string \<Rightarrow> jdict" where
  "sample_ticket_event event data i = [(''event'', JStr event), (''eventId'', JStr i), (''data'', JObj data)]"

definition opened_data :: jdict where
  "opened_data = [(''id'', JStr ''conv''), (''isOpen'', JBool True)]"

definition closed_data :: jdict where
  "closed_data = [(''id'', JStr ''conv''), (''isOpen'', JBool False), (''protocol'', JStr ''p1'')]"

definition sample_message :: jdict where
  "sample_message = [(''event'', JStr ''message.created''), (''data'', JObj
    [(''id'', JStr ''m1''), (''ticketId'', JStr ''conv''), (''type'', JStr ''ptt''), (''isFromMe'', JBool False),
     (''text'', JStr ''''), (''contactId'', JStr ''c1'')])]"

definition sample_delivery :: "time \<Rightarrow> string \<Rightarrow> jdict \<Rightarrow> time \<times> ingest_op" where
  "sample_delivery t uuid payload = (t, Delivery (\<lambda>_. t) uuid payload)"

definition sample_opened :: ingest_db where
  "sample_opened = ingest_run sample_codec sample_settings
    [sample_delivery 10 ''u1'' (sample_ticket_event ''ticket.created'' opened_data ''1'')] empty_ingest_db"

definition sample_step :: "time \<Rightarrow> string \<Rightarrow> jdict \<Rightarrow> ingest_db \<Rightarrow> reply \<times> ingest_db" where
  "sample_step t uuid payload s = webhook_payload sample_codec sample_settings (\<lambda>_. t) uuid payload s"

definition sample_updated :: ingest_db where
  "sample_updated = snd (sample_step 20 ''u2'' (sample_ticket_event ''ticket.updated'' opened_data ''2'') sample_opened)"

definition sample_closed :: ingest_db where
  "sample_closed = snd (sample_step 30 ''u3'' (sample_ticket_event ''ticket.updated'' closed_data ''3'') sample_updated)"

lemma ingest_run_reachable: "ingest_reachable cd st s \<Longrightarrow> ingest_reachable cd st (ingest_run cd st ops s)"
  by (induction ops arbitrary: s) (simp_all add: ingest_next split_paired_all)

lemma sample_opened_reachable: "ingest_reachable sample_codec sample_settings sample_opened"
  unfolding sample_opened_def by (rule ingest_run_reachable[OF ingest_start])

lemma sample_keys: "usable_keys sample_codec"
  by (auto simp: usable_keys_def sample_codec_def btrim_Nil_iff)

lemma sample_shapes:
  "opens_ticket ''ticket.updated'' ''conv'' opened_data (sample_ticket_event ''ticket.updated'' opened_data i)"
  "closes_ticket sample_codec ''conv'' ''p1'' closed_data (sample_ticket_event ''ticket.updated'' closed_data i)"
  "usable_contact sample_codec opened_data" "usable_contact sample_codec closed_data"
proof -
  show "opens_ticket ''ticket.updated'' ''conv'' opened_data (sample_ticket_event ''ticket.updated'' opened_data i)"
    by (simp add: opens_ticket_def sample_ticket_event_def opened_data_def dict_get_def)
  have "json_protocol sample_codec (JStr ''p1'') = Some ''p1''" by code_simp
  then show "closes_ticket sample_codec ''conv'' ''p1'' closed_data (sample_ticket_event ''ticket.updated'' closed_data i)"
    by (simp add: closes_ticket_def sample_ticket_event_def closed_data_def dict_get_def)
  show "usable_contact sample_codec opened_data" "usable_contact sample_codec closed_data"
    by (simp_all add: usable_contact_def ticket_contact_def opened_data_def closed_data_def dict_get_def
      normalize_cycle_contact_external_id_def)
qed

lemma sample_facts:
  "Some (cycle_event_key sample_codec ''ticket.updated'' ''conv'' (sample_ticket_event ''ticket.updated'' opened_data ''2'')
    opened_data) \<notin> cy_open_event_key ` set (cycles (in_cycles sample_opened))"
  "Some (cycle_event_key sample_codec ''ticket.updated'' ''conv'' (sample_ticket_event ''ticket.updated'' closed_data ''3'')
    closed_data) \<notin> cy_close_event_key ` set (cycles (in_cycles sample_opened))"
  "Some (cycle_event_key sample_codec ''ticket.updated'' ''conv'' (sample_ticket_event ''ticket.updated'' closed_data ''4'')
    closed_data) \<notin> cy_close_event_key ` set (cycles (in_cycles sample_opened))"
  "cycle_event_key sample_codec ''ticket.updated'' ''conv'' (sample_ticket_event ''ticket.updated'' closed_data ''4'') closed_data \<noteq>
    cycle_event_key sample_codec ''ticket.updated'' ''conv'' (sample_ticket_event ''ticket.updated'' closed_data ''3'') closed_data"
  "find_open_cycle ''conv'' (cycles (in_cycles sample_opened)) \<noteq> None"
  "unused ''u2'' sample_opened" "unused ''u3'' sample_opened" "unused ''u3'' sample_updated" "unused ''u4'' sample_closed"
  by (code_simp, code_simp, code_simp, code_simp, code_simp, code_simp, code_simp, code_simp, code_simp)

lemma sample_steps:
  "webhook_payload sample_codec sample_settings (\<lambda>_. t) uuid payload s =
    (fst (sample_step t uuid payload s), snd (sample_step t uuid payload s))"
  by (simp add: sample_step_def)

theorem redelivered_open_event_opens_ghost_witness:
  "fst (sample_step 40 ''u4'' (sample_ticket_event ''ticket.updated'' opened_data ''2'') sample_closed) =
    Ticket_Opened ''ticket_reopened'' ''conv'' ''u4'' True"
proof -
  obtain e where e: "find_open_cycle ''conv'' (cycles (in_cycles sample_opened)) = Some e"
    using sample_facts(5) by blast
  show ?thesis
    using redelivered_open_event_opens_ghost[OF sample_opened_reachable sample_keys sample_shapes(1,3,2,4)
        sample_facts(1,2) e sample_steps sample_facts(6) sample_steps[of 30 "''u3''", folded sample_updated_def]
        _ sample_steps[of 40 "''u4''"]] sample_facts(8,9)
    by (simp add: sample_closed_def sample_updated_def open_kind_def)
qed

definition sample_closed_once :: ingest_db where
  "sample_closed_once = snd (sample_step 30 ''u3'' (sample_ticket_event ''ticket.updated'' closed_data ''3'') sample_opened)"

lemma sample_fresh_again: "unused ''u4'' sample_closed_once"
  by code_simp

theorem closed_ticket_update_pends_again_witness:
  "fst (sample_step 40 ''u4'' (sample_ticket_event ''ticket.updated'' closed_data ''4'') sample_closed_once) =
    Ticket_Closed ''conv'' ''u4'' True"
  using closed_ticket_update_pends_again[OF sample_opened_reachable sample_keys sample_shapes(2,4) sample_shapes(2,4)
      sample_facts(4,2,3) sample_steps sample_facts(7) sample_steps[of 40 "''u4''"]] sample_fresh_again
  by (auto simp: sample_closed_once_def)

theorem close_delivery_idempotent_witness:
  "fst (sample_step 90 ''u9'' (sample_ticket_event ''ticket.updated'' closed_data ''3'')
      (ingest_run sample_codec sample_settings [sample_delivery 50 ''u5'' (sample_ticket_event ''ticket.updated'' opened_data ''5'')]
        sample_closed_once)) = Ticket_Closed ''conv'' ''u1'' False"
proof -
  have r: "fst (sample_step 30 ''u3'' (sample_ticket_event ''ticket.updated'' closed_data ''3'') sample_opened) =
      Ticket_Closed ''conv'' ''u1'' True" by code_simp
  have d: "webhook_payload sample_codec sample_settings (\<lambda>_. 30) ''u3'' (sample_ticket_event ''ticket.updated'' closed_data ''3'')
      sample_opened = (Ticket_Closed ''conv'' ''u1'' True, sample_closed_once)"
    unfolding sample_steps r sample_closed_once_def ..
  show ?thesis
    unfolding sample_step_def by (rule close_delivery_idempotent[OF sample_opened_reachable sample_shapes(2,4) d refl, THEN conjunct1])
qed


definition sample_deliveries :: "(time \<times> ingest_op) list" where
  "sample_deliveries = [sample_delivery 50 ''u5'' sample_message, sample_delivery 51 ''u6'' sample_message,
    sample_delivery 3600000051 ''u7'' sample_message]"

lemma sample_received:
  "map fst (gate_run (ingest_gate sample_codec sample_settings) sample_deliveries sample_opened) = [50, 3600000051]"
  by code_simp

theorem messages_received_once_witness:
  "sorted_wrt (\<lambda>(t, k) (t', k'). k = k' \<longrightarrow> t + seconds 3600 \<le> t')
    (gate_run (ingest_gate sample_codec sample_settings) sample_deliveries sample_opened)"
  by (rule messages_received_once[OF sample_opened_reachable]) (simp add: sample_deliveries_def sample_delivery_def)

definition sample_request :: request where
  "sample_request = \<lparr>rq_body = ''body'', rq_signature = Some ''sha256=forged''\<rparr>"


end
