(* ===== verification/Cycle_Worker.thy ===== *)
theory Cycle_Worker
  imports Cycle_Correctness Finalization Digisac_Client Ticket_Directory Classification_Store
    Provider_Coordination Request_Pipeline
begin

text \<open>
  The finalization worker (\<open>src/workers/ia_worker.py\<close>): recovery of the history, admission and waiting for media,
  reduction and classification of the context, completion of the cycle with the request for it, failures with their
  retry schedule, the provider's retry window, and one round of the polling loop.

  The worker acts on the shared tables (\<open>worker_state\<close>, which also holds the two fields of the worker's own object)
  and on the outside world \<open>'w\<close>: the DigiSac service, the language model, the clock of \<open>time.time\<close> and the sleeps.
  A step gives \<open>None\<close> when it never returns; an exception is \<open>Inl\<close>, and what was committed before it stays.
  \<open>clk n\<close> is the time of the \<open>n\<close>-th clock reading or transaction of a round.

  Parameters: the language model with the fixed texts of the prompts around the given context, the JSON encoding of
  the snapshot, the rendering of the context (local time zone, characters beyond Latin-1), \<open>isoformat\<close>, the text of
  an exception, the HTTP session and the directory synchronization of \<open>Ticket_Directory\<close>.  Logging is left out.
\<close>

section \<open>State\<close>

type_synonym fingerprint = "(string \<times> string \<times> int) list"

record media_wait =
  mw_blocked :: bool
  mw_fingerprint :: fingerprint
  mw_next_check_at :: "time option"
  mw_updated_at :: time

record recovery_summary =
  rs_attempt_count :: int
  rs_page_count :: nat
  rs_total :: int
  rs_duplicate_count :: nat
  rs_complete :: bool

text \<open>The snapshot of a cycle whose history was recovered; the column is opaque JSON in the cycle table.\<close>

record snapshot =
  sn_cycle_id :: string
  sn_ticket_id :: string
  sn_protocol :: "string option"
  sn_cycle_started_at :: time
  sn_ticket_closed_at :: time
  sn_cycle_start_strategy :: string
  sn_departments :: "string list"
  sn_agents :: "string list"
  sn_messages :: "norm_message list"
  sn_warnings :: "history_warning list"
  sn_filter_summary :: counts
  sn_history_recovery :: recovery_summary
  sn_media_wait :: "media_wait option"

record worker_state =
  wd_cycles :: cycle_db
  wd_media :: media_db
  wd_tickets :: ticket_db
  wd_classifications :: classification_db
  wd_pipeline :: pipeline_db
  wd_blocked_until :: rat
  wd_resume_pending :: bool

datatype worker_error =
    Raised py_error
  | Assertion_Failed
  | Provider_Failed provider_exception
  | Transient_Provider transient_error
  | Window_Active rat

text \<open>A reply of the language model: an exception, or the text of the answer and whether it was cut at the limit.\<close>

datatype chat_reply = Chat_Failed provider_exception | Chat_Answer bool "string option"

datatype chat_request = Summarize string | Classify string

record reduction =
  rd_chunk :: nat
  rd_message_ids :: "string list"
  rd_summary :: string

record 'w worker =
  wk_api_key :: string
  wk_session :: "'w digisac_session"
  wk_sync :: "ticket_db \<Rightarrow> 'w \<Rightarrow> (bool \<times> ticket_db \<times> 'w) option"
  wk_chat :: "chat_request \<Rightarrow> 'w \<Rightarrow> chat_reply \<times> 'w"
  wk_time :: "'w \<Rightarrow> rat \<times> 'w"
  wk_sleep :: "rat \<Rightarrow> 'w \<Rightarrow> 'w"
  wk_fromiso :: iso_parser
  wk_iso :: "time \<Rightarrow> string"
  wk_repr :: "jvalue \<Rightarrow> string"
  wk_encode :: "snapshot \<Rightarrow> json"
  wk_decode :: "json \<Rightarrow> snapshot option"
  wk_reductions :: "reduction list \<Rightarrow> json"
  wk_render :: "bool \<Rightarrow> string \<Rightarrow> string option \<Rightarrow> string list \<Rightarrow> string list \<Rightarrow> norm_message list \<Rightarrow> string"
  wk_describe :: "worker_error \<Rightarrow> string \<times> string"
  wk_loads :: "string \<Rightarrow> jvalue option"
  wk_raw_decode :: "string \<Rightarrow> nat \<Rightarrow> jvalue option"
  wk_sha :: "string \<Rightarrow> string"
  wk_digest :: "request_payload \<Rightarrow> string"
  wk_setup_ok :: bool
  wk_provider :: "'w provider"
  wk_request_lease :: int
  wk_request_owner :: string
  wk_history_max_attempts :: int
  wk_history_retry_base :: rat
  wk_max_retries :: int
  wk_audio_model :: string
  wk_image_model :: string
  wk_recheck_seconds :: rat
  wk_safe_input_tokens :: int
  wk_chunk_tokens :: int
  wk_retry_base :: rat
  wk_retry_max_delay :: rat
  wk_retry_margin :: rat
  wk_model :: string
  wk_prompt_version :: string
  wk_lease_seconds :: int
  wk_poll_interval :: rat

section \<open>Steps\<close>

type_synonym ('a, 'w) run = "((worker_error + 'a) \<times> worker_state \<times> 'w) option"

definition and_then ::
  "('a, 'w) run \<Rightarrow> ('a \<Rightarrow> worker_state \<Rightarrow> 'w \<Rightarrow> ('b, 'w) run) \<Rightarrow> ('b, 'w) run" where
  "and_then m f =
    (case m of
       None \<Rightarrow> None
     | Some (Inl e, s, w) \<Rightarrow> Some (Inl e, s, w)
     | Some (Inr x, s, w) \<Rightarrow> f x s w)"

definition raised :: "py_error + 'a \<Rightarrow> worker_error + 'a" where
  "raised res = (case res of Inl e \<Rightarrow> Inl (Raised e) | Inr x \<Rightarrow> Inr x)"

definition in_cycles_of ::
  "(cycle_db \<Rightarrow> (py_error + 'a) \<times> cycle_db) \<Rightarrow> worker_state \<Rightarrow> 'w \<Rightarrow> ('a, 'w) run" where
  "in_cycles_of f s w = (case f (wd_cycles s) of (res, db) \<Rightarrow> Some (raised res, s\<lparr>wd_cycles := db\<rparr>, w))"

definition in_classifications_of ::
  "(classification_db \<Rightarrow> (py_error + 'a) \<times> classification_db) \<Rightarrow> worker_state \<Rightarrow> 'w \<Rightarrow> ('a, 'w) run" where
  "in_classifications_of f s w =
    (case f (wd_classifications s) of (res, db) \<Rightarrow> Some (raised res, s\<lparr>wd_classifications := db\<rparr>, w))"

fun py_join :: "string \<Rightarrow> string list \<Rightarrow> string" where
  "py_join sep [] = []"
| "py_join sep [x] = x"
| "py_join sep (x # y # xs) = x @ sep @ py_join sep (y # xs)"

section \<open>Recovery of the history\<close>

text \<open>\<open>n\<close> attempts are left and \<open>attempt\<close> is the number of this one; there is no pause after the last.\<close>

fun recover_loop ::
  "'w worker \<Rightarrow> 'w digisac_session \<Rightarrow> string \<Rightarrow> nat \<Rightarrow> nat \<Rightarrow> string list option \<Rightarrow> 'w \<Rightarrow>
   ((worker_error + digisac_history) \<times> 'w) option" where
  "recover_loop env client conv 0 attempt last_reasons w =
    Some (Inl (case last_reasons of
       None \<Rightarrow> Assertion_Failed
     | Some reasons \<Rightarrow>
         Raised (RuntimeError (''DigiSac history remained inconsistent: '' @ py_join '','' reasons))), w)"
| "recover_loop env client conv (Suc n) attempt last_reasons w =
    (case get_ticket_history client conv w of
       None \<Rightarrow> None
     | Some (Inl e, w1) \<Rightarrow> Some (Inl (Raised e), w1)
     | Some (Inr h, w1) \<Rightarrow>
        (if dh_complete h then Some (Inr h, w1)
         else recover_loop env client conv n (Suc attempt) (Some (dh_reasons h))
           (if n = 0 then w1 else wk_sleep env (wk_history_retry_base env * 2 ^ (attempt - 1)) w1)))"

definition recover_history ::
  "'w worker \<Rightarrow> string \<Rightarrow> 'w \<Rightarrow> ((worker_error + digisac_history) \<times> 'w) option" where
  "recover_history env conv w =
    (case new_digisac_client (wk_api_key env) (wk_session env) of
       Inl e \<Rightarrow> Some (Inl (Raised e), w)
     | Inr client \<Rightarrow> recover_loop env client conv (nat (wk_history_max_attempts env)) 1 None w)"

definition history_step :: "'w worker \<Rightarrow> string \<Rightarrow> worker_state \<Rightarrow> 'w \<Rightarrow> (digisac_history, 'w) run" where
  "history_step env conv s w =
    (case recover_history env conv w of None \<Rightarrow> None | Some (res, w') \<Rightarrow> Some (res, s, w'))"

definition names_step ::
  "'w worker \<Rightarrow> string \<Rightarrow> worker_state \<Rightarrow> 'w \<Rightarrow> (string list \<times> string list, 'w) run" where
  "names_step env conv s w =
    (case resolve_assignment_names (wk_sync env) conv (wd_tickets s) w of
       None \<Rightarrow> None
     | Some (names, db, w') \<Rightarrow> Some (Inr names, s\<lparr>wd_tickets := db\<rparr>, w'))"

definition membership :: "norm_message \<Rightarrow> history_message" where
  "membership m = \<lparr>hm_message_id = nm_message_id m, hm_type = nm_type m, hm_timestamp = nm_timestamp m\<rparr>"

text \<open>\<open>str(sender_id)\<close> of the messages an agent sent.\<close>

definition agent_sender :: "'w worker \<Rightarrow> norm_message \<Rightarrow> string option" where
  "agent_sender env m =
    (if nm_sender_type m = ''agent'' \<and> py_truthy (nm_sender_id m)
     then Some (py_str (wk_repr env) (nm_sender_id m)) else None)"

definition name_senders :: "'w worker \<Rightarrow> ticket_db \<Rightarrow> norm_message list \<Rightarrow> norm_message list" where
  "name_senders env tickets messages =
    (let ids = List.map_filter (agent_sender env) messages
     in map (\<lambda>m. case agent_sender env m of
          None \<Rightarrow> m
        | Some i \<Rightarrow> m\<lparr>nm_sender_name := resolve_user_names ids tickets i\<rparr>) messages)"

definition conflict_warning :: "string \<Rightarrow> history_warning" where
  "conflict_warning message_id = (''message_owned_by_other_cycle'', message_id, JNull)"

definition recovered_snapshot ::
  "cycle \<Rightarrow> time \<Rightarrow> digisac_history \<Rightarrow> normalized_history \<Rightarrow> string list \<times> string list \<Rightarrow> norm_message list \<Rightarrow>
   history_warning list \<Rightarrow> snapshot" where
  "recovered_snapshot c closed_at h normalized names messages warnings =
    \<lparr>sn_cycle_id = cy_public_id c, sn_ticket_id = cy_conversation_id c, sn_protocol = cy_protocol c,
     sn_cycle_started_at = nh_cycle_started_at normalized, sn_ticket_closed_at = closed_at,
     sn_cycle_start_strategy = nh_cycle_start_strategy normalized, sn_departments = fst names,
     sn_agents = snd names, sn_messages = messages, sn_warnings = warnings,
     sn_filter_summary = nh_exclusion_counts normalized,
     sn_history_recovery = \<lparr>rs_attempt_count = cy_history_recovery_attempt c + 1,
       rs_page_count = dh_page_count h, rs_total = dh_total h, rs_duplicate_count = dh_duplicate_count h,
       rs_complete = dh_complete h\<rparr>,
     sn_media_wait = None\<rparr>"

definition recover_stage ::
  "'w worker \<Rightarrow> (nat \<Rightarrow> time) \<Rightarrow> cycle \<Rightarrow> worker_state \<Rightarrow> 'w \<Rightarrow> (snapshot, 'w) run" where
  "recover_stage env clk c s w =
    (let cycle_id = cy_public_id c; conv = cy_conversation_id c
     in and_then (in_cycles_of (transition_cycle (clk 0) cycle_id ''recovering_messages''
          [Cycle_Pending, Retryable_Failure, Recovering_Messages]
          [F_history_recovery_attempt (cy_history_recovery_attempt c + 1), F_error_phase None, F_error_message None]) s w)
     (\<lambda>_ s w. and_then (history_step env conv s w)
     (\<lambda>h s w. case cy_ticket_closed_at c of
        None \<Rightarrow> Some (Inl (Raised (RuntimeError ''cycle does not have a valid close timestamp'')), s, w)
      | Some closed_at \<Rightarrow>
         (case get_previous_cycle conv (cy_sequence_number c) (wd_cycles s) of
            Inl e \<Rightarrow> Some (Inl (Raised e), s, w)
          | Inr previous \<Rightarrow>
             (case normalize_history (wk_fromiso env) (dh_messages h) (cy_cycle_started_at c)
                 (Option.bind previous cy_ticket_closed_at) closed_at (dict_get (dh_ticket h) ''startedAt'') of
                Inl e \<Rightarrow> Some (Inl (Raised e), s, w)
              | Inr normalized \<Rightarrow>
                  and_then (in_cycles_of (save_cycle_messages (clk 1) cycle_id (map membership (nh_messages normalized))) s w)
                  (\<lambda>(accepted, conflicts) s w. and_then (names_step env conv s w)
                  (\<lambda>names s w.
                    let messages = name_senders env (wd_tickets s)
                          (filter (\<lambda>m. nm_message_id m \<in> set accepted) (nh_messages normalized));
                        warnings = nh_warnings normalized @ map conflict_warning conflicts;
                        snapshot = recovered_snapshot c closed_at h normalized names messages warnings
                    in and_then (in_cycles_of (transition_cycle (clk 2) cycle_id ''building_context''
                         [Recovering_Messages]
                         [F_cycle_started_at (Some (nh_cycle_started_at normalized)),
                          F_cycle_start_strategy (nh_cycle_start_strategy normalized),
                          F_snapshot_json (Some (wk_encode env snapshot)),
                          F_warning_count (int (length warnings)),
                          F_history_page_count (int (dh_page_count h))]) s w)
                       (\<lambda>_ s w. Some (Inr snapshot, s, w))))))))) "

text \<open>A snapshot that an earlier round stored is used as it is: \<open>wk_decode\<close> gives the snapshot of a stored JSON object
  with a \<open>history_recovery\<close>, and \<open>None\<close> for everything else.\<close>

definition snapshot_stage ::
  "'w worker \<Rightarrow> (nat \<Rightarrow> time) \<Rightarrow> cycle \<Rightarrow> worker_state \<Rightarrow> 'w \<Rightarrow> (snapshot, 'w) run" where
  "snapshot_stage env clk c s w =
    (case Option.bind (cy_snapshot_json c) (wk_decode env) of
       None \<Rightarrow> recover_stage env clk c s w
     | Some snapshot \<Rightarrow> Some (Inr snapshot, s, w))"

section \<open>Media\<close>

text \<open>A state that needs no reservation: work that runs or is done, or has failed for good.\<close>

definition settled_media :: "int \<Rightarrow> content_state option \<Rightarrow> bool" where
  "settled_media max_retries st =
    (case st of
       None \<Rightarrow> False
     | Some x \<Rightarrow> cs_status x \<noteq> Failed \<or> max_retries \<le> cs_attempt_count x)"

text \<open>\<open>now n\<close> is the time of the \<open>n\<close>-th message.\<close>

fun ensure_media_jobs ::
  "'w worker \<Rightarrow> (nat \<Rightarrow> time) \<Rightarrow> string \<Rightarrow> norm_message list \<Rightarrow> (string \<rightharpoonup> content_state) \<Rightarrow> media_db \<Rightarrow>
   (py_error + unit) \<times> media_db" where
  "ensure_media_jobs env now conv [] states db = (Inr (), db)"
| "ensure_media_jobs env now conv (m # ms) states db =
    (if \<not> needs_media m \<or> settled_media (wk_max_retries env) (states (nm_message_id m))
     then ensure_media_jobs env (\<lambda>n. now (Suc n)) conv ms states db
     else case (if nm_type m \<in> set AUDIO_TYPES
         then reserve_transcription (now 0) (nm_message_id m) (Some conv) (wk_audio_model env) db
         else reserve_image_extraction (now 0) (nm_message_id m) (Some conv) (wk_image_model env) db) of
       (Inl e, db') \<Rightarrow> (Inl e, db')
     | (Inr reserved, db') \<Rightarrow> ensure_media_jobs env (\<lambda>n. now (Suc n)) conv ms states db')"

definition audio_ids :: "norm_message list \<Rightarrow> string list" where
  "audio_ids messages = map nm_message_id (filter (\<lambda>m. nm_type m \<in> set AUDIO_TYPES) messages)"

definition image_ids :: "norm_message list \<Rightarrow> string list" where
  "image_ids messages =
    map nm_message_id (filter (\<lambda>m. is_image_message (JStr (nm_type m)) (file_value (nm_file m))) messages)"

definition content_states :: "norm_message list \<Rightarrow> media_db \<Rightarrow> string \<rightharpoonup> content_state" where
  "content_states messages = get_content_states (audio_ids messages) (image_ids messages)"

definition media_state_of :: "content_state \<Rightarrow> media_state" where
  "media_state_of x = \<lparr>ms_status = cs_status x, ms_text = cs_text x, ms_attempt_count = cs_attempt_count x\<rparr>"

text \<open>\<open>min(candidates)\<close>; \<open>recheck\<close> is the configured number of seconds as a \<open>timedelta\<close>.\<close>

definition rat_seconds :: "rat \<Rightarrow> time" where
  "rat_seconds r = round_half_even (r * 1000000)"

definition next_media_check_at :: "time \<Rightarrow> time \<Rightarrow> string list \<Rightarrow> (string \<rightharpoonup> content_state) \<Rightarrow> time" where
  "next_media_check_at now recheck pending states =
    (let scheduled = (\<lambda>i. Option.bind (states i) cs_next_attempt_at);
         future = (\<lambda>i. case scheduled i of None \<Rightarrow> False | Some t \<Rightarrow> now < t);
         candidates = map (\<lambda>i. the (scheduled i)) (filter future pending);
         needs_fallback = list_ex (\<lambda>i. \<not> future i) pending
     in fold min candidates
          (if needs_fallback \<or> candidates = [] then now + recheck else hd candidates))"

definition media_wait_fingerprint :: "string list \<Rightarrow> (string \<rightharpoonup> content_state) \<Rightarrow> fingerprint" where
  "media_wait_fingerprint message_ids states =
    map (\<lambda>i. case states i of
        None \<Rightarrow> (i, ''missing'', 0)
      | Some x \<Rightarrow> (i, status_text (cs_status x), cs_attempt_count x)) (sort (remdups message_ids))"

definition blocked_message :: "string list \<Rightarrow> (string \<rightharpoonup> content_state) \<Rightarrow> string" where
  "blocked_message blocked states =
    ''media extraction requires intervention: '' @ py_join '',''
      (map (\<lambda>i. (case states i of None \<Rightarrow> ''media'' | Some x \<Rightarrow> cs_kind x) @ '':'' @ i) (sort (remdups blocked)))"

text \<open>What the media stage leaves: \<open>None\<close> when the cycle was parked, or the messages with their media.\<close>

definition media_stage ::
  "'w worker \<Rightarrow> (nat \<Rightarrow> time) \<Rightarrow> cycle \<Rightarrow> snapshot \<Rightarrow> worker_state \<Rightarrow> 'w \<Rightarrow> (norm_message list option, 'w) run" where
  "media_stage env clk c snapshot s w =
    (let messages = sn_messages snapshot; cycle_id = cy_public_id c
     in case ensure_media_jobs env (\<lambda>n. clk (1000 + n)) (cy_conversation_id c) messages (content_states messages (wd_media s)) (wd_media s) of
       (Inl e, media) \<Rightarrow> Some (Inl (Raised e), s\<lparr>wd_media := media\<rparr>, w)
     | (Inr _, media) \<Rightarrow>
        (let s = s\<lparr>wd_media := media\<rparr>; states = content_states messages media
         in case apply_media_states (wk_max_retries env) (\<lambda>i. map_option media_state_of (states i)) messages of
           (hydrated, pending, blocked) \<Rightarrow>
            (if blocked \<noteq> []
             then and_then (in_cycles_of (transition_cycle (clk 5) cycle_id ''media_blocked''
                 [Building_Context, Waiting_Media, Retryable_Failure]
                 [F_snapshot_json (Some (wk_encode env (snapshot\<lparr>sn_media_wait := Some
                    \<lparr>mw_blocked = True, mw_fingerprint = media_wait_fingerprint blocked states,
                     mw_next_check_at = None, mw_updated_at = clk 4\<rparr>\<rparr>))),
                  F_next_attempt_at None, F_enqueued_at None, F_lease_owner None, F_lease_expires_at None,
                  F_error_phase (Some ''media''), F_error_message (Some (blocked_message blocked states))]) s w)
               (\<lambda>_ s w. Some (Inr None, s, w))
             else if pending \<noteq> []
             then (let not_before = next_media_check_at (clk 4) (rat_seconds (wk_recheck_seconds env)) pending states
                   in and_then (in_cycles_of (transition_cycle (clk 5) cycle_id ''waiting_media''
                       [Building_Context, Waiting_Media, Retryable_Failure]
                       [F_snapshot_json (Some (wk_encode env (snapshot\<lparr>sn_media_wait := Some
                          \<lparr>mw_blocked = False, mw_fingerprint = media_wait_fingerprint pending states,
                           mw_next_check_at = Some not_before, mw_updated_at = clk 13\<rparr>\<rparr>))),
                        F_next_attempt_at (Some not_before), F_enqueued_at None, F_lease_owner None,
                        F_lease_expires_at None]) s w)
                     (\<lambda>_ s w. Some (Inr None, s, w)))
             else Some (Inr (Some hydrated), s, w))))"

section \<open>The provider's retry window\<close>

definition window_remaining :: "worker_state \<Rightarrow> rat \<Rightarrow> rat" where
  "window_remaining s now = max 0 (wd_blocked_until s - now)"

text \<open>The limit is extended and never shortened.\<close>

definition open_provider_window :: "rat \<Rightarrow> rat \<Rightarrow> worker_state \<Rightarrow> worker_state" where
  "open_provider_window delay now s =
    s\<lparr>wd_blocked_until := max (wd_blocked_until s) (now + delay), wd_resume_pending := True\<rparr>"

definition window_resumed :: "rat \<Rightarrow> worker_state \<Rightarrow> worker_state" where
  "window_resumed now s =
    (if window_remaining s now \<le> 0 \<and> wd_resume_pending s then s\<lparr>wd_resume_pending := False\<rparr> else s)"

definition pause_for_provider_window ::
  "'w worker \<Rightarrow> worker_state \<Rightarrow> 'w \<Rightarrow> bool \<times> worker_state \<times> 'w" where
  "pause_for_provider_window env s w =
    (case wk_time env w of
       (now, w1) \<Rightarrow>
        (if window_remaining s now \<le> 0
         then (case wk_time env w1 of (now2, w2) \<Rightarrow> (False, window_resumed now2 s, w2))
         else (True, s, wk_sleep env (min (window_remaining s now) 1) w1)))"

text \<open>A guarded request to the language model; the judgement of its exceptions is \<open>transient_provider_error\<close>.\<close>

definition ask ::
  "'w worker \<Rightarrow> chat_request \<Rightarrow> worker_state \<Rightarrow> 'w \<Rightarrow> (bool \<times> string option, 'w) run" where
  "ask env request s w =
    (case wk_time env w of
       (now, w1) \<Rightarrow>
        (if 0 < window_remaining s now then Some (Inl (Window_Active (window_remaining s now)), s, w1)
         else case wk_chat env request w1 of
           (Chat_Failed e, w2) \<Rightarrow>
             Some (Inl (case transient_provider_error e of None \<Rightarrow> Provider_Failed e | Some t \<Rightarrow> Transient_Provider t), s, w2)
         | (Chat_Answer truncated answer, w2) \<Rightarrow> Some (Inr (truncated, answer), s, w2)))"

section \<open>Context\<close>

definition newline :: string where
  "newline = [CHR 0x0A]"

definition chunk_text :: "'w worker \<Rightarrow> norm_message list \<Rightarrow> string" where
  "chunk_text env messages =
    py_join (newline @ newline)
      (map (\<lambda>m. wk_iso env (nm_timestamp m) @ '' '' @ nm_sender_type m @ '': '' @ nm_content m) messages)"

definition summarize_messages ::
  "'w worker \<Rightarrow> norm_message list \<Rightarrow> worker_state \<Rightarrow> 'w \<Rightarrow> (string, 'w) run" where
  "summarize_messages env messages s w =
    and_then (ask env (Summarize (chunk_text env messages)) s w)
      (\<lambda>(truncated, answer) s w.
        if truncated then Some (Inl (Raised (RuntimeError ''summary response exceeded the output limit'')), s, w)
        else case answer of
          None \<Rightarrow> Some (Inl (Raised (RuntimeError ''summary response is empty'')), s, w)
        | Some t \<Rightarrow>
           (if py_strip t = [] then Some (Inl (Raised (RuntimeError ''summary response is empty'')), s, w)
            else Some (Inr (py_strip t), s, w)))"

definition summary_block :: "reduction \<Rightarrow> string" where
  "summary_block r =
    ''BLOCO '' @ int_text (int (rd_chunk r)) @ '' ('' @ hd (rd_message_ids r) @ ''..'' @ last (rd_message_ids r) @ ''):'' @
      newline @ rd_summary r"

fun summarize_chunks ::
  "'w worker \<Rightarrow> nat \<Rightarrow> norm_message list list \<Rightarrow> worker_state \<Rightarrow> 'w \<Rightarrow> (reduction list, 'w) run" where
  "summarize_chunks env index [] s w = Some (Inr [], s, w)"
| "summarize_chunks env index (chunk # chunks) s w =
    and_then (summarize_messages env chunk s w)
      (\<lambda>summary s w. and_then (summarize_chunks env (Suc index) chunks s w)
        (\<lambda>rest s w. Some (Inr (\<lparr>rd_chunk = index, rd_message_ids = map nm_message_id chunk, rd_summary = summary\<rparr> # rest),
          s, w)))"

definition not_informed :: string where
  "not_informed = ''N'' @ [CHR 0xC3] @ ''O INFORMADO''"

definition reduced_context :: "cycle \<Rightarrow> reduction list \<Rightarrow> string" where
  "reduced_context c reductions =
    ''PROTOCOLO: '' @ (case cy_protocol c of None \<Rightarrow> not_informed | Some p \<Rightarrow> if p = [] then not_informed else p) @ newline @
    ''TICKET_ID: '' @ cy_conversation_id c @ newline @ newline @
    py_join (newline @ newline) (map summary_block reductions)"

definition within_budget :: "'w worker \<Rightarrow> string \<Rightarrow> bool" where
  "within_budget env context \<longleftrightarrow> int (estimate_tokens context) \<le> wk_safe_input_tokens env"

text \<open>The context for the model, reduced when it is too long.  The first transition has no expected status.\<close>

definition reduce_stage ::
  "'w worker \<Rightarrow> (nat \<Rightarrow> time) \<Rightarrow> cycle \<Rightarrow> snapshot \<Rightarrow> string \<Rightarrow> worker_state \<Rightarrow> 'w \<Rightarrow> (string \<times> reduction list, 'w) run" where
  "reduce_stage env clk c snapshot context s w =
    (if within_budget env context then Some (Inr (context, []), s, w)
     else and_then (in_cycles_of (transition_cycle (clk 6) (cy_public_id c) ''summarizing'' []
         [F_snapshot_json (Some (wk_encode env snapshot))]) s w)
       (\<lambda>_ s w. and_then (summarize_chunks env 1 (chunk_messages (sn_messages snapshot) (wk_chunk_tokens env)) s w)
       (\<lambda>reductions s w.
         if within_budget env (reduced_context c reductions) then Some (Inr (reduced_context c reductions, reductions), s, w)
         else Some (Inl (Raised (RuntimeError ''reduced context still exceeds safe input token limit'')), s, w))))"

section \<open>Classification\<close>

definition no_content_title :: string where
  "no_content_title = ''Sem conte'' @ [CHR 0xFA] @ ''do para an'' @ [CHR 0xE1] @ ''lise''"

definition no_messages_description :: string where
  "no_messages_description =
    ''O ciclo n'' @ [CHR 0xE3] @ ''o possui mensagens humanas classific'' @ [CHR 0xE1] @ ''veis.''"

definition no_text_description :: string where
  "no_text_description =
    ''O ciclo n'' @ [CHR 0xE3] @ ''o possui conte'' @ [CHR 0xFA] @ ''do textual para an'' @ [CHR 0xE1] @ ''lise.''"

definition neutral_result :: "string \<Rightarrow> jdict" where
  "neutral_result description =
    [(''intent_type'', JStr ''other''), (''confidence'', JFloat 0), (''title'', JStr no_content_title),
     (''description'', JStr description)]"

definition analyze ::
  "'w worker \<Rightarrow> string \<Rightarrow> worker_state \<Rightarrow> 'w \<Rightarrow> (jdict, 'w) run" where
  "analyze env context s w =
    (if py_strip context = [] then Some (Inr (neutral_result no_text_description), s, w)
     else and_then (ask env (Classify context) s w)
       (\<lambda>(truncated, answer) s w.
         if truncated then Some (Inl (Raised (RuntimeError ''Groq classification response exceeded the output token limit'')), s, w)
         else case answer of
           None \<Rightarrow> Some (Inl (Raised (RuntimeError ''Groq returned an empty classification response'')), s, w)
         | Some t \<Rightarrow>
            (if py_strip t = []
             then Some (Inl (Raised (RuntimeError ''Groq returned an empty classification response'')), s, w)
             else Some (raised (parse_result (wk_loads env) (wk_raw_decode env) t), s, w))))"

definition no_messages_warning :: history_warning where
  "no_messages_warning = (''no_classifiable_messages'', [], JNull)"

definition cycle_idempotency_key :: "cycle \<Rightarrow> string" where
  "cycle_idempotency_key c = ''ia:cycle:'' @ cy_public_id c"

definition final_result :: "snapshot \<Rightarrow> time \<Rightarrow> (time \<Rightarrow> string) \<Rightarrow> nat \<Rightarrow> jdict \<Rightarrow> jdict" where
  "final_result snapshot processed_at show_time n result =
    dict_set (dict_set (dict_set (dict_set result ''message_count'' (JInt (int n)))
      ''processed_at'' (JStr (show_time processed_at)))
      ''department'' (JList (map JStr (sn_departments snapshot)))) ''agent'' (JList (map JStr (sn_agents snapshot)))"

definition cycle_classification ::
  "'w worker \<Rightarrow> cycle \<Rightarrow> snapshot \<Rightarrow> string \<Rightarrow> time \<Rightarrow> int \<Rightarrow> jdict \<Rightarrow> classification_args" where
  "cycle_classification env c snapshot context processed_at ms result =
    \<lparr>ca_conversation_id = cy_conversation_id c, ca_message_ids = map nm_message_id (sn_messages snapshot),
     ca_created_at = processed_at, ca_full_context = context,
     ca_message_count = int (length (sn_messages snapshot)),
     ca_result = final_result snapshot processed_at (wk_iso env) (length (sn_messages snapshot)) result,
     ca_model = wk_model env, ca_processing_time_ms = ms, ca_prompt_version = wk_prompt_version env,
     ca_protocol = cy_protocol c, ca_idempotency_key = Some (cycle_idempotency_key c)\<rparr>"

text \<open>The classification is stored, then the cycle completed when it still is \<open>classifying\<close>.\<close>

definition complete_stage ::
  "'w worker \<Rightarrow> (nat \<Rightarrow> time) \<Rightarrow> int \<Rightarrow> string \<Rightarrow> cycle \<Rightarrow> snapshot \<Rightarrow> string \<Rightarrow> jdict \<Rightarrow> worker_state \<Rightarrow> 'w \<Rightarrow>
   (unit, 'w) run" where
  "complete_stage env clk ms uuid c snapshot context result s w =
    and_then (in_classifications_of
        (insert_classification uuid (cycle_classification env c snapshot context (clk 8) ms result)) s w)
      (\<lambda>identity s w.
        and_then (in_cycles_of (transition_cycle (clk 9) (cy_public_id c)
            (if sn_warnings snapshot = [] then ''completed'' else ''completed_with_warnings'') [Classifying]
            [F_classification_id (Some (fst identity)), F_snapshot_json (Some (wk_encode env snapshot)),
             F_warning_count (int (length (sn_warnings snapshot))), F_processing_time_ms (Some ms),
             F_completed_at (Some (clk 10)), F_next_attempt_at None, F_lease_owner None, F_lease_expires_at None]) s w)
          (\<lambda>_ s w. Some (Inr (), s, w)))"

definition classify_stage ::
  "'w worker \<Rightarrow> (nat \<Rightarrow> time) \<Rightarrow> int \<Rightarrow> string \<Rightarrow> cycle \<Rightarrow> snapshot \<Rightarrow> worker_state \<Rightarrow> 'w \<Rightarrow> (unit, 'w) run" where
  "classify_stage env clk ms uuid c snapshot s w =
    (let render = (\<lambda>names. wk_render env names (cy_conversation_id c) (cy_protocol c) (sn_departments snapshot)
          (sn_agents snapshot) (sn_messages snapshot))
     in and_then (reduce_stage env clk c snapshot (render False) s w)
     (\<lambda>(context, reductions) s w.
       and_then (in_cycles_of (transition_cycle (clk 7) (cy_public_id c) ''classifying'' []
           [F_snapshot_json (Some (wk_encode env snapshot)), F_rendered_context (Some (render True)),
            F_model_context (Some context), F_context_reduction_applied (\<not> within_budget env (render False)),
            F_context_reduction_json (wk_reductions env reductions),
            F_warning_count (int (length (sn_warnings snapshot)))]) s w)
       (\<lambda>_ s w.
         if sn_messages snapshot = []
         then complete_stage env clk ms uuid c
           (snapshot\<lparr>sn_warnings := sn_warnings snapshot @ [no_messages_warning]\<rparr>) context
           (neutral_result no_messages_description) s w
         else and_then (analyze env context s w)
           (\<lambda>result s w. complete_stage env clk ms uuid c snapshot context result s w))))"

section \<open>Request\<close>

text \<open>The tables of this state as the request component reads them.\<close>

definition pipeline_view :: "worker_state \<Rightarrow> pipeline_db" where
  "pipeline_view s =
    (let p = wd_pipeline s
     in p\<lparr>pl_requests := (pl_requests p)\<lparr>rd_cycles := cycles (wd_cycles s),
            rd_classifications := map classification.truncate (cf_rows (wd_classifications s))\<rparr>,
          pl_directory := (pl_directory p)\<lparr>dir_assignments := map ticket_assignment.truncate (td_history (wd_tickets s)),
            dir_digisac_departments := map nr_id (td_departments (wd_tickets s))\<rparr>\<rparr>)"

text \<open>Every exception of this step is caught and logged.\<close>

definition request_stage :: "'w worker \<Rightarrow> (nat \<Rightarrow> time) \<Rightarrow> cycle \<Rightarrow> worker_state \<Rightarrow> 'w \<Rightarrow> worker_state \<times> 'w" where
  "request_stage env clk c s w =
    (case prepare_and_create_request (wk_sha env) (wk_digest env) (wk_setup_ok env) (wk_provider env) (\<lambda>n. clk (100 + n))
        (wk_request_lease env) (wk_request_owner env) (cy_public_id c) (pipeline_view s) w of
       (res, p, w') \<Rightarrow> (s\<lparr>wd_pipeline := p\<rparr>, w'))"

section \<open>One cycle\<close>

definition process_cycle ::
  "'w worker \<Rightarrow> (nat \<Rightarrow> time) \<Rightarrow> int \<Rightarrow> string \<Rightarrow> cycle \<Rightarrow> worker_state \<Rightarrow> 'w \<Rightarrow> (unit, 'w) run" where
  "process_cycle env clk ms uuid c s w =
    and_then (snapshot_stage env clk c s w)
    (\<lambda>snapshot s w. and_then (media_stage env clk c snapshot s w)
    (\<lambda>ready s w. case ready of
       None \<Rightarrow> Some (Inr (), s, w)
     | Some hydrated \<Rightarrow>
         and_then (classify_stage env clk ms uuid c (snapshot\<lparr>sn_media_wait := None, sn_messages := hydrated\<rparr>) s w)
         (\<lambda>_ s w. case request_stage env clk c s w of (s', w') \<Rightarrow> Some (Inr (), s', w'))))"

section \<open>Failures\<close>

definition sanitized_error :: "'w worker \<Rightarrow> worker_error \<Rightarrow> string" where
  "sanitized_error env e = (case wk_describe env e of (name, text) \<Rightarrow> name @ '': '' @ take 500 text)"

definition status_name :: "cycle_status \<Rightarrow> string" where
  "status_name st = (case find (\<lambda>(n, x). x = st) cycle_status_names of None \<Rightarrow> [] | Some (n, _) \<Rightarrow> n)"

text \<open>The guard of the window changes nothing; a transient failure opens the window and counts a transient retry;
  every other failure uses up an attempt.  The transitions have no expected status.\<close>

definition record_cycle_failure ::
  "'w worker \<Rightarrow> (nat \<Rightarrow> time) \<Rightarrow> cycle \<Rightarrow> worker_error \<Rightarrow> worker_state \<Rightarrow> 'w \<Rightarrow> (unit, 'w) run" where
  "record_cycle_failure env clk c e s w =
    (case e of
       Window_Active remaining \<Rightarrow> Some (Inr (), s, w)
     | Transient_Provider t \<Rightarrow>
        (let attempt = cy_transient_retry_count c + 1;
             delay = retry_delay attempt (wk_retry_base env) (wk_retry_max_delay env) (wk_retry_margin env)
               (te_retry_after_seconds t);
             cooldown = provider_cooldown_delay (wk_retry_base env) (wk_retry_margin env) (te_retry_after_seconds t)
         in case wk_time env w of
              (now, w1) \<Rightarrow>
                and_then (in_cycles_of (transition_cycle (clk 11) (cy_public_id c) ''retryable_failure'' []
                    [F_transient_retry_count attempt, F_error_phase (Some (status_name (cy_status c))),
                     F_error_message (Some (sanitized_error env e)), F_next_attempt_at (Some (rat_seconds (now + delay))),
                     F_enqueued_at None, F_lease_owner None, F_lease_expires_at None])
                    (open_provider_window cooldown now s) w1)
                  (\<lambda>_ s w. Some (Inr (), s, w)))
     | _ \<Rightarrow>
        (let attempt = cy_attempt_count c + 1
         in and_then
              (if wk_max_retries env \<le> attempt
               then in_cycles_of (transition_cycle (clk 11) (cy_public_id c) ''failed'' []
                 [F_attempt_count attempt, F_error_phase (Some (status_name (cy_status c))),
                  F_error_message (Some (sanitized_error env e)), F_completed_at (Some (clk 12)),
                  F_next_attempt_at None, F_lease_owner None, F_lease_expires_at None]) s w
               else in_cycles_of (transition_cycle (clk 11) (cy_public_id c) ''retryable_failure'' []
                 [F_attempt_count attempt, F_error_phase (Some (status_name (cy_status c))),
                  F_error_message (Some (sanitized_error env e)),
                  F_next_attempt_at (Some (clk 12 + rat_seconds (wk_history_retry_base env * 2 ^ nat (attempt - 1)))),
                  F_enqueued_at None, F_lease_owner None, F_lease_expires_at None]) s w)
              (\<lambda>_ s w. Some (Inr (), s, w))))"

section \<open>One round of the loop\<close>

definition reconcile_cycles ::
  "'w worker \<Rightarrow> time \<Rightarrow> int set \<Rightarrow> worker_state \<Rightarrow> 'w \<Rightarrow> (cycle list, 'w) run" where
  "reconcile_cycles env now locked s w =
    in_cycles_of (wake_unblocked_media_cycles now locked (wk_max_retries env) 100 (wd_media s)) s w"

definition handle_cycle ::
  "'w worker \<Rightarrow> (nat \<Rightarrow> time) \<Rightarrow> int \<Rightarrow> string \<Rightarrow> cycle \<Rightarrow> worker_state \<Rightarrow> 'w \<Rightarrow> (unit, 'w) run" where
  "handle_cycle env clk ms uuid c s w =
    (case process_cycle env clk ms uuid c s w of
       None \<Rightarrow> None
     | Some (Inr x, s', w') \<Rightarrow> Some (Inr (), s', w')
     | Some (Inl e, s', w') \<Rightarrow> record_cycle_failure env clk c e s' w')"

text \<open>\<open>due\<close>: the interval between two reconciliations is over.  An exception outside of a cycle is logged and
  followed by a pause of one second.\<close>

definition poll_once ::
  "'w worker \<Rightarrow> (nat \<Rightarrow> time) \<Rightarrow> int \<Rightarrow> string \<Rightarrow> string \<Rightarrow> int set \<Rightarrow> bool \<Rightarrow> worker_state \<Rightarrow> 'w \<Rightarrow> (unit, 'w) run" where
  "poll_once env clk ms uuid owner locked due s w =
    (case pause_for_provider_window env s w of
       (True, s1, w1) \<Rightarrow> Some (Inr (), s1, w1)
     | (False, s1, w1) \<Rightarrow>
         (case and_then (if due then reconcile_cycles env (clk 20) locked s1 w1 else Some (Inr [], s1, w1))
            (\<lambda>_ s w. case wk_time env w of
               (now, w2) \<Rightarrow> and_then (in_cycles_of (claim_next_cycle (clk 21) locked owner (wk_lease_seconds env))
                   (window_resumed now s) w2)
                 (\<lambda>claimed s w. case claimed of
                    None \<Rightarrow> Some (Inr (), s, wk_sleep env (wk_poll_interval env) w)
                  | Some c \<Rightarrow> handle_cycle env clk ms uuid c s w)) of
            None \<Rightarrow> None
          | Some (Inr x, s', w') \<Rightarrow> Some (Inr (), s', w')
          | Some (Inl e, s', w') \<Rightarrow> Some (Inr (), s', wk_sleep env 1 w')))"

end
