(* ===== verification/Worker_Correctness.thy ===== *)
theory Worker_Correctness
  imports Cycle_Worker
begin

text \<open>
  Correctness of the finalization worker: a small calculus of state invariants over the steps of \<open>Cycle_Worker\<close>, the
  invariant that a finished cycle has the classification stored under its own key, the accounting of failures, the
  recovery of the history, the admission of media, and the provider's retry window.
\<close>

section \<open>Invariants of steps\<close>

definition always :: "(worker_state \<Rightarrow> bool) \<Rightarrow> ('a, 'w) run \<Rightarrow> bool" where
  "always P m \<longleftrightarrow> (\<forall>res s w. m = Some (res, s, w) \<longrightarrow> P s)"

lemma alwaysI: "(\<And>res s w. m = Some (res, s, w) \<Longrightarrow> P s) \<Longrightarrow> always P m"
  by (simp add: always_def)

lemma alwaysD: "always P m \<Longrightarrow> m = Some (res, s, w) \<Longrightarrow> P s"
  by (simp add: always_def)

lemma always_simps [simp]: "always P None" "always P (Some (res, s, w)) \<longleftrightarrow> P s"
  by (simp_all add: always_def)

lemma and_then_simps [simp]:
  "and_then None f = None" "and_then (Some (Inl e, s, w)) f = Some (Inl e, s, w)"
  "and_then (Some (Inr x, s, w)) f = f x s w"
  by (simp_all add: and_then_def)

lemma always_and_then:
  assumes "always P m" and "\<And>x s w. m = Some (Inr x, s, w) \<Longrightarrow> P s \<Longrightarrow> always P (f x s w)"
  shows "always P (and_then m f)"
proof (cases m)
  case (Some y)
  then obtain res s w where y: "m = Some (res, s, w)" by (cases y) auto
  then show ?thesis using assms by (cases res) auto
qed simp

lemma and_then_SomeD:
  assumes "and_then m f = Some (res, s, w)"
  shows "(\<exists>e. m = Some (Inl e, s, w) \<and> res = Inl e) \<or>
    (\<exists>x s' w'. m = Some (Inr x, s', w') \<and> f x s' w' = Some (res, s, w))"
  using assms by (auto simp: and_then_def split: option.splits sum.splits)

lemma always_cycles:
  assumes "P (s\<lparr>wd_cycles := snd (f (wd_cycles s))\<rparr>)"
  shows "always P (in_cycles_of f s w)"
  using assms by (simp add: in_cycles_of_def case_prod_beta)

section \<open>Finished cycles\<close>

definition finished :: "cycle \<Rightarrow> bool" where
  "finished c \<longleftrightarrow> cy_status c \<in> {Cycle_Completed, Completed_With_Warnings}"

text \<open>The classification of the cycle, when it has one, is the row stored under its key; a finished cycle has one.\<close>

definition backed :: "classification_row list \<Rightarrow> cycle \<Rightarrow> bool" where
  "backed rows c \<longleftrightarrow>
    (\<forall>i. cy_classification_id c = Some i \<longrightarrow>
      (\<exists>r \<in> set rows. cl_id r = i \<and> cf_idempotency_key r = Some (py_strip (cycle_idempotency_key c)))) \<and>
    (finished c \<longrightarrow> cy_classification_id c \<noteq> None)"

definition keyed_schema :: "schema_capabilities \<Rightarrow> bool" where
  "keyed_schema caps \<longleftrightarrow> classification_identity_columns caps \<and> classification_idempotency_index caps"

definition worker_inv :: "worker_state \<Rightarrow> bool" where
  "worker_inv s \<longleftrightarrow> classification_inv (wd_classifications s) \<and> keyed_schema (cf_capabilities (wd_classifications s)) \<and>
    list_all (backed (cf_rows (wd_classifications s))) (cycles (wd_cycles s))"

lemma worker_inv_cycles:
  assumes "worker_inv s" and "\<And>c. c \<in> set (cycles db) \<Longrightarrow>
    c \<in> set (cycles (wd_cycles s)) \<or> backed (cf_rows (wd_classifications s)) c"
  shows "worker_inv (s\<lparr>wd_cycles := db\<rparr>)"
  using assms by (auto simp: worker_inv_def list_all_iff)

lemma worker_inv_others [simp]:
  "worker_inv (s\<lparr>wd_media := m\<rparr>) \<longleftrightarrow> worker_inv s" "worker_inv (s\<lparr>wd_tickets := t\<rparr>) \<longleftrightarrow> worker_inv s"
  "worker_inv (s\<lparr>wd_pipeline := p\<rparr>) \<longleftrightarrow> worker_inv s" "worker_inv (s\<lparr>wd_blocked_until := b\<rparr>) \<longleftrightarrow> worker_inv s"
  "worker_inv (s\<lparr>wd_resume_pending := r\<rparr>) \<longleftrightarrow> worker_inv s"
  by (simp_all add: worker_inv_def)

lemma backed_same:
  assumes "backed rows c" and "cy_public_id d = cy_public_id c" and "cy_classification_id d = cy_classification_id c"
    and "finished d \<Longrightarrow> finished c"
  shows "backed rows d"
  using assms by (auto simp: backed_def cycle_idempotency_key_def)

fun sets_classification :: "cycle_field \<Rightarrow> bool" where
  "sets_classification (F_classification_id v) \<longleftrightarrow> True"
| "sets_classification _ \<longleftrightarrow> False"

lemma assign_field_status [simp]: "cy_status (assign_field x c) = cy_status c"
  by (cases x) simp_all

lemma fold_assign_status [simp]: "cy_status (fold assign_field xs c) = cy_status c"
  by (induction xs arbitrary: c) simp_all

lemma fold_assign_classification:
  "\<not> list_ex sets_classification xs \<Longrightarrow> cy_classification_id (fold assign_field xs c) = cy_classification_id c"
proof (induction xs arbitrary: c)
  case (Cons x xs)
  have "cy_classification_id (assign_field x c) = cy_classification_id c" using Cons.prems by (cases x) simp_all
  then show ?case using Cons by simp
qed simp

lemma transition_status [simp]: "cy_status (transition_update now st xs c) = st"
  by (simp add: transition_update_def)

lemma transition_classification:
  "\<not> list_ex sets_classification xs \<Longrightarrow>
    cy_classification_id (transition_update now st xs c) = cy_classification_id c"
  by (simp add: transition_update_def fold_assign_classification)

lemma transition_rows:
  assumes "d \<in> set (cycles (snd (transition_cycle now pid status expected xs db)))"
  shows "d \<in> set (cycles db) \<or>
    (\<exists>st c. parse_cycle_status status = Some st \<and> c \<in> set (cycles db) \<and> transition_matches pid expected c \<and>
      d = transition_update now st xs c)"
  using assms
  by (auto simp: transition_cycle_def with_cycle_schema_def transition_cycle_tx_def commit_cycles_def
      split: if_splits option.splits elim!: update_whereE)

lemma quiet_transition:
  assumes "worker_inv s" and "\<not> list_ex sets_classification xs"
    and "parse_cycle_status status \<notin> {Some Cycle_Completed, Some Completed_With_Warnings}"
  shows "always worker_inv (in_cycles_of (transition_cycle now pid status expected xs) s w)"
proof (rule always_cycles, rule worker_inv_cycles[OF assms(1)])
  fix d
  assume "d \<in> set (cycles (snd (transition_cycle now pid status expected xs (wd_cycles s))))"
  then consider "d \<in> set (cycles (wd_cycles s))"
    | st c where "parse_cycle_status status = Some st" "c \<in> set (cycles (wd_cycles s))" "d = transition_update now st xs c"
    using transition_rows by blast
  then show "d \<in> set (cycles (wd_cycles s)) \<or> backed (cf_rows (wd_classifications s)) d"
  proof cases
    case 2
    have "backed (cf_rows (wd_classifications s)) c" using 2(2) assms(1) by (simp add: worker_inv_def list_all_iff)
    then have "backed (cf_rows (wd_classifications s)) d"
      by (rule backed_same) (use 2 assms(2,3) in \<open>auto simp: transition_classification finished_def\<close>)
    then show ?thesis by simp
  qed simp
qed

lemma claim_keeps_inv:
  assumes "worker_inv s"
  shows "always worker_inv (in_cycles_of (claim_next_cycle now locked owner lease) s w)"
proof (rule always_cycles, rule worker_inv_cycles[OF assms])
  fix d
  assume "d \<in> set (cycles (snd (claim_next_cycle now locked owner lease (wd_cycles s))))"
  moreover obtain P where "snd (claim_next_cycle_tx now locked owner lease (wd_cycles s)) =
      (wd_cycles s)\<lparr>cycles := update_where P (claimed_cycle now owner lease) (cycles (wd_cycles s))\<rparr>"
    using claim_next_cycle_tx_db by blast
  ultimately have "d \<in> set (cycles (wd_cycles s)) \<or> (\<exists>c \<in> set (cycles (wd_cycles s)). d = claimed_cycle now owner lease c)"
    by (auto simp: claim_next_cycle_def with_cycle_schema_def case_prod_beta split: if_splits elim!: update_whereE)
  then show "d \<in> set (cycles (wd_cycles s)) \<or> backed (cf_rows (wd_classifications s)) d"
    using assms by (auto simp: worker_inv_def list_all_iff finished_def claimed_cycle_def intro: backed_same)
qed

lemma wake_keeps_inv:
  assumes "worker_inv s"
  shows "always worker_inv (reconcile_cycles env now locked s w)"
  unfolding reconcile_cycles_def
proof (rule always_cycles, rule worker_inv_cycles[OF assms])
  fix d
  assume "d \<in> set (cycles (snd (wake_unblocked_media_cycles now locked (wk_max_retries env) 100 (wd_media s) (wd_cycles s))))"
  then have "d \<in> set (cycles (wd_cycles s)) \<or> (\<exists>c \<in> set (cycles (wd_cycles s)). d = woken_cycle now c)"
    by (auto simp: wake_unblocked_media_cycles_def with_cycle_schema_def Let_def split: if_splits elim!: update_whereE)
  then show "d \<in> set (cycles (wd_cycles s)) \<or> backed (cf_rows (wd_classifications s)) d"
    using assms by (auto simp: worker_inv_def list_all_iff finished_def woken_cycle_def intro: backed_same)
qed

lemma save_keeps_inv:
  "worker_inv s \<Longrightarrow> always worker_inv (in_cycles_of (save_cycle_messages now pid ms) s w)"
  by (rule always_cycles, rule worker_inv_cycles)
    (auto simp: save_cycle_messages_def with_cycle_schema_def split: option.splits sum.splits if_splits)

section \<open>Completion\<close>

lemma backed_mono: "backed rows c \<Longrightarrow> set rows \<subseteq> set rows' \<Longrightarrow> backed rows' c"
  unfolding backed_def by blast

lemma key_nonblank: "py_strip (cycle_idempotency_key c) \<noteq> []"
proof -
  have "\<not> py_isspace CHR ''i''" by code_simp
  then show ?thesis by (simp add: py_strip_Nil_iff cycle_idempotency_key_def)
qed

lemma classifications_keep_inv:
  assumes "worker_inv s"
  shows "worker_inv (s\<lparr>wd_classifications := classification_step x (wd_classifications s)\<rparr>)"
proof -
  let ?db = "wd_classifications s"
  have "cf_capabilities (classification_step x ?db) = cf_capabilities ?db"
    using run_capabilities[of "[x]" ?db] by simp
  moreover have "classification_inv (classification_step x ?db)"
    using assms classification_step_inv by (simp add: worker_inv_def)
  moreover have "backed (cf_rows (classification_step x ?db)) c" if c: "backed (cf_rows ?db) c" for c
  proof -
    have "\<exists>r' \<in> set (cf_rows (classification_step x ?db)). cl_id r' = cl_id r \<and> cf_idempotency_key r' = Some key"
      if r: "r \<in> set (cf_rows ?db)" "cf_idempotency_key r = Some key" for r key
    proof -
      obtain r' where "r' \<in> set (cf_rows (classification_step x ?db))" "fixed_part r' = fixed_part r"
          "cf_idempotency_key r' = Some key"
        using row_kept_by_key[of ?db r key "[x]"] r assms by (auto simp: worker_inv_def)
      then show ?thesis using fixed_part_simps(1) by metis
    qed
    then show ?thesis using c unfolding backed_def by metis
  qed
  ultimately show ?thesis using assms by (auto simp: worker_inv_def list_all_iff)
qed

lemma insert_keeps_inv:
  assumes "worker_inv s"
  shows "always worker_inv (in_classifications_of (insert_classification uuid a) s w)"
  using classifications_keep_inv[OF assms, of "Op_Insert uuid a"]
  by (simp add: in_classifications_of_def case_prod_beta)

lemma insert_leaves_row:
  assumes "worker_inv s" and "ca_idempotency_key a = Some (cycle_idempotency_key c)"
    and "in_classifications_of (insert_classification uuid a) s w = Some (Inr identity, s', w')"
  shows "\<exists>r \<in> set (cf_rows (wd_classifications s')). cl_id r = fst identity \<and>
    cf_idempotency_key r = Some (py_strip (cycle_idempotency_key c))"
proof -
  obtain res db where ins: "insert_classification uuid a (wd_classifications s) = (res, db)" by fastforce
  then have res: "res = Inr identity" "s' = s\<lparr>wd_classifications := db\<rparr>"
    using assms(3) by (auto simp: in_classifications_of_def raised_def split: sum.splits)
  have "inserts_as (py_strip (cycle_idempotency_key c)) a (wd_classifications s)"
    using assms(1,2) key_nonblank[of c]
    by (simp add: inserts_as_def worker_inv_def keyed_schema_def normalized_key_def)
  then obtain r where "r \<in> set (cf_rows db)" "cf_idempotency_key r = Some (py_strip (cycle_idempotency_key c))"
      "identity = (cl_id r, cf_public_id r)"
    using insert_stores_key[of "wd_classifications s" _ a uuid identity db] assms(1) ins res(1)
    by (auto simp: worker_inv_def)
  then show ?thesis using res(2) by auto
qed

lemma completing_transition:
  assumes "worker_inv s"
    and "\<exists>r \<in> set (cf_rows (wd_classifications s)). cl_id r = i \<and>
      cf_idempotency_key r = Some (py_strip (cycle_idempotency_key c))"
    and "\<not> list_ex sets_classification xs"
  shows "always worker_inv
    (in_cycles_of (transition_cycle now (cy_public_id c) status expected (F_classification_id (Some i) # xs)) s w)"
proof (rule always_cycles, rule worker_inv_cycles[OF assms(1)])
  fix d
  assume "d \<in> set (cycles (snd (transition_cycle now (cy_public_id c) status expected
      (F_classification_id (Some i) # xs) (wd_cycles s))))"
  then consider "d \<in> set (cycles (wd_cycles s))"
    | st b where "transition_matches (cy_public_id c) expected b" "d = transition_update now st (F_classification_id (Some i) # xs) b"
    using transition_rows by blast
  then show "d \<in> set (cycles (wd_cycles s)) \<or> backed (cf_rows (wd_classifications s)) d"
  proof cases
    case 2
    have "cy_classification_id d = Some i"
      using assms(3) by (simp add: 2(2) transition_update_def fold_assign_classification)
    moreover have "cycle_idempotency_key d = cycle_idempotency_key c"
      using 2 by (simp add: cycle_idempotency_key_def transition_matches_def)
    ultimately have "backed (cf_rows (wd_classifications s)) d" using assms(2) by (simp add: backed_def)
    then show ?thesis by simp
  qed simp
qed

lemma complete_keeps_inv:
  assumes "worker_inv s"
  shows "always worker_inv (complete_stage env clk ms uuid c snapshot context result s w)"
  unfolding complete_stage_def
proof (rule always_and_then)
  show "always worker_inv (in_classifications_of
      (insert_classification uuid (cycle_classification env c snapshot context (clk 8) ms result)) s w)"
    by (rule insert_keeps_inv[OF assms])
  fix identity s1 w1
  assume ins: "in_classifications_of
      (insert_classification uuid (cycle_classification env c snapshot context (clk 8) ms result)) s w = Some (Inr identity, s1, w1)"
    and inv: "worker_inv s1"
  have row: "\<exists>r \<in> set (cf_rows (wd_classifications s1)). cl_id r = fst identity \<and>
      cf_idempotency_key r = Some (py_strip (cycle_idempotency_key c))"
    by (rule insert_leaves_row[OF assms _ ins]) (simp add: cycle_classification_def)
  show "always worker_inv (and_then (in_cycles_of (transition_cycle (clk 9) (cy_public_id c)
      (if sn_warnings snapshot = [] then ''completed'' else ''completed_with_warnings'') [Classifying]
      [F_classification_id (Some (fst identity)), F_snapshot_json (Some (wk_encode env snapshot)),
       F_warning_count (int (length (sn_warnings snapshot))), F_processing_time_ms (Some ms),
       F_completed_at (Some (clk 10)), F_next_attempt_at None, F_lease_owner None, F_lease_expires_at None]) s1 w1)
    (\<lambda>_ s w. Some (Inr (), s, w)))"
    by (rule always_and_then[OF completing_transition[OF inv row]]) simp_all
qed

section \<open>One cycle\<close>

lemma parsed_statuses [simp]:
  "parse_cycle_status ''recovering_messages'' = Some Recovering_Messages"
  "parse_cycle_status ''building_context'' = Some Building_Context"
  "parse_cycle_status ''waiting_media'' = Some Waiting_Media"
  "parse_cycle_status ''media_blocked'' = Some Media_Blocked"
  "parse_cycle_status ''summarizing'' = Some Summarizing"
  "parse_cycle_status ''classifying'' = Some Classifying"
  "parse_cycle_status ''retryable_failure'' = Some Retryable_Failure"
  "parse_cycle_status ''failed'' = Some Cycle_Failed"
  by (simp_all add: parse_cycle_status_def cycle_status_names_def)

lemma history_step_inv: "worker_inv s \<Longrightarrow> always worker_inv (history_step env conv s w)"
  by (auto simp: history_step_def intro!: alwaysI split: option.splits)

lemma names_step_inv: "worker_inv s \<Longrightarrow> always worker_inv (names_step env conv s w)"
  by (auto simp: names_step_def intro!: alwaysI split: option.splits)

lemma ask_inv: "worker_inv s \<Longrightarrow> always worker_inv (ask env request s w)"
  by (auto simp: ask_def split: prod.splits chat_reply.splits)

text \<open>A sequence of steps keeps the invariant when each of them does.\<close>

lemma quiet_then:
  assumes "worker_inv s" and "\<not> list_ex sets_classification xs"
    and "parse_cycle_status status \<notin> {Some Cycle_Completed, Some Completed_With_Warnings}"
    and "\<And>x s w. worker_inv s \<Longrightarrow> always worker_inv (f x s w)"
  shows "always worker_inv (and_then (in_cycles_of (transition_cycle now pid status expected xs) s w) f)"
  by (rule always_and_then[OF quiet_transition[OF assms(1-3)]]) (rule assms(4))

lemma stage_then:
  assumes "always worker_inv m" and "\<And>x s w. worker_inv s \<Longrightarrow> always worker_inv (f x s w)"
  shows "always worker_inv (and_then m f)"
  by (rule always_and_then[OF assms(1)]) (rule assms(2))

lemma recover_keeps_inv:
  assumes "worker_inv s"
  shows "always worker_inv (recover_stage env clk c s w)"
  unfolding recover_stage_def Let_def
  by (intro quiet_then stage_then[OF history_step_inv] assms)
    (auto intro!: stage_then[OF save_keeps_inv] stage_then[OF names_step_inv] quiet_then split: option.split sum.split)

lemma media_keeps_inv:
  assumes "worker_inv s"
  shows "always worker_inv (media_stage env clk c snapshot s w)"
  unfolding media_stage_def Let_def using assms
  by (auto intro!: quiet_then split: prod.split sum.split)

lemma summarize_messages_inv: "worker_inv s \<Longrightarrow> always worker_inv (summarize_messages env ms s w)"
  unfolding summarize_messages_def by (rule stage_then[OF ask_inv]) (auto split: option.split)

lemma summarize_chunks_inv: "worker_inv s \<Longrightarrow> always worker_inv (summarize_chunks env n chunks s w)"
  by (induction env n chunks s w rule: summarize_chunks.induct) (auto intro!: summarize_messages_inv stage_then)

lemma analyze_inv: "worker_inv s \<Longrightarrow> always worker_inv (analyze env context s w)"
  unfolding analyze_def by (auto intro!: stage_then[OF ask_inv] split: option.split)

lemma reduce_inv: "worker_inv s \<Longrightarrow> always worker_inv (reduce_stage env clk c snapshot context s w)"
  unfolding reduce_stage_def by (auto intro!: quiet_then stage_then[OF summarize_chunks_inv])

lemma classify_keeps_inv: "worker_inv s \<Longrightarrow> always worker_inv (classify_stage env clk ms uuid c snapshot s w)"
  unfolding classify_stage_def Let_def
  by (auto intro!: stage_then[OF reduce_inv] quiet_then stage_then[OF analyze_inv] complete_keeps_inv)

lemma request_inv: "worker_inv s \<Longrightarrow> always worker_inv (Some (res, request_stage env clk c s w))"
  by (cases "request_stage env clk c s w") (auto simp: request_stage_def split: prod.splits)

lemma process_keeps_inv:
  assumes "worker_inv s"
  shows "always worker_inv (process_cycle env clk ms uuid c s w)"
proof -
  have "always worker_inv (snapshot_stage env clk c s w)"
    using assms recover_keeps_inv by (auto simp: snapshot_stage_def split: option.split)
  then show ?thesis unfolding process_cycle_def
    by (rule stage_then)
      (auto intro!: stage_then[OF media_keeps_inv] stage_then[OF classify_keeps_inv] request_inv
        simp: case_prod_beta split: option.split)
qed

lemma failure_keeps_inv:
  "worker_inv s \<Longrightarrow> always worker_inv (record_cycle_failure env clk c e s w)"
  by (auto simp: record_cycle_failure_def Let_def open_provider_window_def
      intro!: stage_then[OF quiet_transition] split: worker_error.split prod.split)

lemma handle_keeps_inv:
  assumes "worker_inv s"
  shows "always worker_inv (handle_cycle env clk ms uuid c s w)"
proof (cases "process_cycle env clk ms uuid c s w")
  case (Some y)
  then obtain res s1 w1 where p: "process_cycle env clk ms uuid c s w = Some (res, s1, w1)" by (cases y) auto
  have "worker_inv s1" using alwaysD[OF process_keeps_inv[OF assms] p] .
  then show ?thesis using p failure_keeps_inv by (cases res) (simp_all add: handle_cycle_def)
qed (simp add: handle_cycle_def)

lemma pause_inv: "worker_inv s \<Longrightarrow> pause_for_provider_window env s w = (b, s', w') \<Longrightarrow> worker_inv s'"
  by (auto simp: pause_for_provider_window_def window_resumed_def split: prod.splits if_splits)

lemma window_resumed_inv [simp]: "worker_inv (window_resumed now s) \<longleftrightarrow> worker_inv s"
  by (simp add: window_resumed_def)

lemma poll_keeps_inv:
  assumes "worker_inv s"
  shows "always worker_inv (poll_once env clk ms uuid owner locked due s w)"
proof -
  obtain b s1 w1 where p: "pause_for_provider_window env s w = (b, s1, w1)" by (cases "pause_for_provider_window env s w")
  have inv: "worker_inv s1" by (rule pause_inv[OF assms p])
  let ?due = "if due then reconcile_cycles env (clk 20) locked s1 w1 else Some (Inr [], s1, w1)"
  let ?claim = "\<lambda>y s w. case wk_time env w of
     (now, w2) \<Rightarrow> and_then (in_cycles_of (claim_next_cycle (clk 21) locked owner (wk_lease_seconds env))
         (window_resumed now s) w2)
       (\<lambda>claimed s w. case claimed of
          None \<Rightarrow> Some (Inr (), s, wk_sleep env (wk_poll_interval env) w)
        | Some c \<Rightarrow> handle_cycle env clk ms uuid c s w)"
  have "always worker_inv (and_then ?due ?claim)"
    by (rule stage_then)
      (auto simp: inv wake_keeps_inv intro!: stage_then[OF claim_keeps_inv] handle_keeps_inv split: prod.split option.split)
  then show ?thesis using p inv
    by (auto simp: poll_once_def always_def split: bool.splits option.splits sum.splits)
qed

section \<open>Reachable states\<close>

text \<open>Rounds of the \<open>workers\<close>, the openings and closings of the webhook, what else writes the classifications,
  restarts, and whatever happens to the media, the directory and the requests between two rounds.\<close>

inductive worker_reachable :: "'w worker set \<Rightarrow> worker_state \<Rightarrow> bool" for workers :: "'w worker set" where
  started: "worker_reachable workers s"
    if "cycles (wd_cycles s) = []" "cf_rows (wd_classifications s) = []" "cf_positions (wd_classifications s) = []"
      "keyed_schema (cf_capabilities (wd_classifications s))"
| round: "worker_reachable workers s'"
    if "worker_reachable workers s" "env \<in> workers"
      "poll_once env clk ms uuid owner locked due s w = Some (res, s', w')"
| opened: "worker_reachable workers
      (s\<lparr>wd_cycles := snd (create_open_cycle now uuid conv started_at key strategy contact (wd_cycles s))\<rparr>)"
    if "worker_reachable workers s"
| closes: "worker_reachable workers
      (s\<lparr>wd_cycles := snd (close_cycle now delay uuid conv protocol closed_at key fallback contact (wd_cycles s))\<rparr>)"
    if "worker_reachable workers s"
| classified: "worker_reachable workers (s\<lparr>wd_classifications := classification_step x (wd_classifications s)\<rparr>)"
    if "worker_reachable workers s"
| elsewhere: "worker_reachable workers (s\<lparr>wd_media := m, wd_tickets := t, wd_pipeline := p\<rparr>)"
    if "worker_reachable workers s"
| restarted: "worker_reachable workers (s\<lparr>wd_blocked_until := 0, wd_resume_pending := False\<rparr>)"
    if "worker_reachable workers s"

lemma new_cycle_backed: "cy_classification_id c = None \<Longrightarrow> \<not> finished c \<Longrightarrow> backed rows c"
  by (simp add: backed_def)

lemma open_ticket_rows:
  assumes "d \<in> set (cycles (snd (create_open_cycle_tx now uuid conv started_at key strategy contact db)))"
  shows "d \<in> set (cycles db) \<or> (cy_classification_id d = None \<and> \<not> finished d) \<or>
    (\<exists>c \<in> set (cycles db). d = c\<lparr>cy_contact_external_id := coalesce_opt (cy_contact_external_id c) contact, cy_updated_at := now\<rparr>)"
  using assms
  by (auto simp: create_open_cycle_tx_def Let_def insert_cycle_def commit_cycles_def new_cycle_def finished_def
      split: option.splits sum.splits if_splits prod.splits elim!: update_whereE)

lemma close_ticket_rows:
  assumes "d \<in> set (cycles (snd (close_cycle_tx now delay uuid conv protocol closed_at key fallback contact db)))"
  shows "d \<in> set (cycles db) \<or> (cy_classification_id d = None \<and> \<not> finished d) \<or>
    (\<exists>c \<in> set (cycles db). d = close_update now delay protocol closed_at key contact c)"
  using assms
  by (auto simp: close_cycle_tx_def insert_cycle_def commit_cycles_def new_cycle_def finished_def close_update_def
      split: option.splits sum.splits if_splits prod.splits elim!: update_whereE)

lemma open_keeps_inv:
  assumes "worker_inv s"
  shows "worker_inv (s\<lparr>wd_cycles := snd (create_open_cycle now uuid conv started_at key strategy contact (wd_cycles s))\<rparr>)"
proof (rule worker_inv_cycles[OF assms])
  fix d
  assume "d \<in> set (cycles (snd (create_open_cycle now uuid conv started_at key strategy contact (wd_cycles s))))"
  then obtain contact' where "d \<in> set (cycles (wd_cycles s)) \<or>
      d \<in> set (cycles (snd (create_open_cycle_tx now uuid conv started_at key strategy contact' (wd_cycles s))))"
    by (auto simp: create_open_cycle_def with_cycle_schema_def split: if_splits sum.splits)
  then consider "d \<in> set (cycles (wd_cycles s))" | "cy_classification_id d = None" "\<not> finished d"
    | c where "c \<in> set (cycles (wd_cycles s))"
        "d = c\<lparr>cy_contact_external_id := coalesce_opt (cy_contact_external_id c) contact', cy_updated_at := now\<rparr>"
    using open_ticket_rows[of d now uuid conv started_at key strategy contact' "wd_cycles s"] by auto
  then show "d \<in> set (cycles (wd_cycles s)) \<or> backed (cf_rows (wd_classifications s)) d"
  proof cases
    case (3 c)
    then have "backed (cf_rows (wd_classifications s)) c" using assms by (simp add: worker_inv_def list_all_iff)
    then have "backed (cf_rows (wd_classifications s)) d" by (rule backed_same) (simp_all add: 3(2) finished_def)
    then show ?thesis by simp
  qed (simp_all add: new_cycle_backed)
qed

lemma close_keeps_inv:
  assumes "worker_inv s"
  shows "worker_inv
    (s\<lparr>wd_cycles := snd (close_cycle now delay uuid conv protocol closed_at key fallback contact (wd_cycles s))\<rparr>)"
proof (rule worker_inv_cycles[OF assms])
  fix d
  assume "d \<in> set (cycles (snd (close_cycle now delay uuid conv protocol closed_at key fallback contact (wd_cycles s))))"
  then obtain contact' where "d \<in> set (cycles (wd_cycles s)) \<or>
      d \<in> set (cycles (snd (close_cycle_tx now delay uuid conv protocol closed_at key fallback contact' (wd_cycles s))))"
    by (auto simp: close_cycle_def with_cycle_schema_def split: if_splits sum.splits)
  then consider "d \<in> set (cycles (wd_cycles s))" | "cy_classification_id d = None" "\<not> finished d"
    | c where "c \<in> set (cycles (wd_cycles s))"
        "d = close_update now delay protocol closed_at key contact' c"
    using close_ticket_rows[of d now delay uuid conv protocol closed_at key fallback contact' "wd_cycles s"] by auto
  then show "d \<in> set (cycles (wd_cycles s)) \<or> backed (cf_rows (wd_classifications s)) d"
  proof cases
    case (3 c)
    then have "backed (cf_rows (wd_classifications s)) c" using assms by (simp add: worker_inv_def list_all_iff)
    then have "backed (cf_rows (wd_classifications s)) d" by (rule backed_same) (simp_all add: 3(2) finished_def close_update_def)
    then show ?thesis by simp
  qed (simp_all add: new_cycle_backed)
qed

lemma reachable_inv: "worker_reachable workers s \<Longrightarrow> worker_inv s"
proof (induction rule: worker_reachable.induct)
  case (started s)
  then show ?case
    by (simp add: worker_inv_def classification_inv_def classifications_unique_def positions_ok_def unique_opt_def
        List.map_filter_simps)
next
  case (round s env clk ms uuid owner locked due w res s' w')
  show ?case by (rule alwaysD[OF poll_keeps_inv[OF round.IH] round.hyps(3)])
qed (simp_all add: open_keeps_inv close_keeps_inv classifications_keep_inv)


section \<open>Failures\<close>

text \<open>A transition without expected statuses, without a new classification and with admissible values succeeds and
  touches its cycle only.\<close>

lemma unconditional_transition:
  assumes "cycle_inv db" and "has_cycle_schema db" and d: "d \<in> set (cycles db)"
    and st: "parse_cycle_status status = Some st" "list_all permitted_field xs" "\<not> list_ex sets_classification xs"
    and check: "cycle_check (transition_update now st xs d)"
  shows "transition_cycle now (cy_public_id d) status [] xs db =
    (Inr (Some (transition_update now st xs d)),
     db\<lparr>cycles := map (\<lambda>x. if x = d then transition_update now st xs d else x) (cycles db)\<rparr>)"
proof -
  let ?m = "transition_matches (cy_public_id d) []" and ?f = "transition_update now st xs"
  have u: "cycles_unique (cycles db)" and ch: "list_all cycle_check (cycles db)"
    using assms(1) by (simp_all add: cycle_inv_def)
  have m: "?m d" by (simp add: transition_matches_def)
  note one = transition_matches_one[OF u d m]
  have rows: "update_where ?m ?f (cycles db) = map (\<lambda>x. if x = d then ?f d else x) (cycles db)"
    unfolding update_where_def using one by (intro map_cong) auto
  have "cycles_unique (update_where ?m ?f (cycles db))"
    by (rule cycles_unique_update_one[OF u _ one]) (simp_all add: compatible_def transition_classification[OF st(3)])
  moreover have "list_all cycle_check (map (\<lambda>x. if x = d then ?f d else x) (cycles db))"
    using ch check by (auto simp: list_all_iff)
  ultimately show ?thesis
    using assms(2) st(1,2) find_matching_one[OF u d m] rows
    by (simp add: transition_cycle_def with_cycle_schema_def transition_cycle_tx_def commit_cycles_def)
qed

lemma transition_run:
  assumes "cycle_inv (wd_cycles s)" "has_cycle_schema (wd_cycles s)" "d \<in> set (cycles (wd_cycles s))"
    and "cy_public_id c = cy_public_id d"
    and "parse_cycle_status status = Some st" "list_all permitted_field xs" "\<not> list_ex sets_classification xs"
    and "cycle_check (transition_update now st xs d)"
  shows "in_cycles_of (transition_cycle now (cy_public_id c) status [] xs) s w =
    Some (Inr (Some (transition_update now st xs d)),
      s\<lparr>wd_cycles := (wd_cycles s)\<lparr>cycles :=
        map (\<lambda>x. if x = d then transition_update now st xs d else x) (cycles (wd_cycles s))\<rparr>\<rparr>, w)"
  using unconditional_transition[OF assms(1-3,5-8)] assms(4) by (simp add: in_cycles_of_def raised_def)

fun uses_attempt :: "worker_error \<Rightarrow> bool" where
  "uses_attempt (Window_Active remaining) \<longleftrightarrow> False"
| "uses_attempt (Transient_Provider t) \<longleftrightarrow> False"
| "uses_attempt _ \<longleftrightarrow> True"

lemma attempt_failure:
  assumes "cycle_inv (wd_cycles s)" and "has_cycle_schema (wd_cycles s)" and "d \<in> set (cycles (wd_cycles s))"
    and "cy_public_id c = cy_public_id d" and "0 \<le> cy_attempt_count c" and "0 \<le> cy_transient_retry_count c"
    and "uses_attempt e"
  shows "\<exists>d' s'. record_cycle_failure env clk c e s w = Some (Inr (), s', w) \<and>
    (cycles (wd_cycles s') = map (\<lambda>x. if x = d then d' else x) (cycles (wd_cycles s)) \<and>
     cy_lease_owner d' = None \<and> cy_lease_expires_at d' = None) \<and>
    cy_public_id d' = cy_public_id d \<and> cy_classification_id d' = cy_classification_id d \<and>
    cy_attempt_count d' = cy_attempt_count c + 1 \<and> cy_transient_retry_count d' = cy_transient_retry_count d \<and>
    cy_status d' = (if wk_max_retries env \<le> cy_attempt_count c + 1 then Cycle_Failed else Retryable_Failure) \<and>
    cy_next_attempt_at d' = (if wk_max_retries env \<le> cy_attempt_count c + 1 then None
      else Some (clk 12 + rat_seconds (wk_history_retry_base env * 2 ^ nat (cy_attempt_count c)))) \<and>
    wd_blocked_until s' = wd_blocked_until s"
proof -
  have ck: "cycle_check d" using assms(1,3) by (simp add: cycle_inv_def list_all_iff)
  note run = transition_run[OF assms(1-4)]
  show ?thesis
  proof (cases "wk_max_retries env \<le> cy_attempt_count c + 1")
    case True
    let ?xs = "[F_attempt_count (cy_attempt_count c + 1), F_error_phase (Some (status_name (cy_status c))),
       F_error_message (Some (sanitized_error env e)), F_completed_at (Some (clk 12)),
       F_next_attempt_at None, F_lease_owner None, F_lease_expires_at None]"
    let ?d = "transition_update (clk 11) Cycle_Failed ?xs d"
    have "record_cycle_failure env clk c e s w =
        and_then (in_cycles_of (transition_cycle (clk 11) (cy_public_id c) ''failed'' [] ?xs) s w)
          (\<lambda>_ s w. Some (Inr (), s, w))"
      using assms(7) True by (cases e) (simp_all add: record_cycle_failure_def Let_def)
    moreover have "cycle_check ?d" using assms(5) ck by (simp add: cycle_check_def transition_update_def)
    ultimately have "record_cycle_failure env clk c e s w = Some (Inr (), s\<lparr>wd_cycles := (wd_cycles s)\<lparr>cycles :=
        map (\<lambda>x. if x = d then ?d else x) (cycles (wd_cycles s))\<rparr>\<rparr>, w)"
      by (simp add: run[where st = Cycle_Failed])
    then show ?thesis using True
      by (intro exI[of _ ?d] exI[of _ "s\<lparr>wd_cycles := (wd_cycles s)\<lparr>cycles :=
        map (\<lambda>x. if x = d then ?d else x) (cycles (wd_cycles s))\<rparr>\<rparr>"]) (simp add: transition_update_def)
  next
    case False
    let ?xs = "[F_attempt_count (cy_attempt_count c + 1), F_error_phase (Some (status_name (cy_status c))),
       F_error_message (Some (sanitized_error env e)),
       F_next_attempt_at (Some (clk 12 + rat_seconds (wk_history_retry_base env * 2 ^ nat (cy_attempt_count c)))),
       F_enqueued_at None, F_lease_owner None, F_lease_expires_at None]"
    let ?d = "transition_update (clk 11) Retryable_Failure ?xs d"
    have "record_cycle_failure env clk c e s w =
        and_then (in_cycles_of (transition_cycle (clk 11) (cy_public_id c) ''retryable_failure'' [] ?xs) s w)
          (\<lambda>_ s w. Some (Inr (), s, w))"
      using assms(7) False by (cases e) (simp_all add: record_cycle_failure_def Let_def)
    moreover have "cycle_check ?d" using assms(5) ck by (simp add: cycle_check_def transition_update_def)
    ultimately have "record_cycle_failure env clk c e s w = Some (Inr (), s\<lparr>wd_cycles := (wd_cycles s)\<lparr>cycles :=
        map (\<lambda>x. if x = d then ?d else x) (cycles (wd_cycles s))\<rparr>\<rparr>, w)"
      by (simp add: run[where st = Retryable_Failure])
    then show ?thesis using False
      by (intro exI[of _ ?d] exI[of _ "s\<lparr>wd_cycles := (wd_cycles s)\<lparr>cycles :=
        map (\<lambda>x. if x = d then ?d else x) (cycles (wd_cycles s))\<rparr>\<rparr>"]) (simp add: transition_update_def)
  qed
qed

lemma transient_failure:
  assumes "cycle_inv (wd_cycles s)" and "has_cycle_schema (wd_cycles s)" and "d \<in> set (cycles (wd_cycles s))"
    and "cy_public_id c = cy_public_id d" and "0 \<le> cy_attempt_count c" and "0 \<le> cy_transient_retry_count c"
  shows "\<exists>d' s' w'. record_cycle_failure env clk c (Transient_Provider t) s w = Some (Inr (), s', w') \<and>
    (cycles (wd_cycles s') = map (\<lambda>x. if x = d then d' else x) (cycles (wd_cycles s)) \<and>
     cy_lease_owner d' = None \<and> cy_lease_expires_at d' = None) \<and>
    cy_public_id d' = cy_public_id d \<and> cy_classification_id d' = cy_classification_id d \<and>
    cy_status d' = Retryable_Failure \<and> cy_attempt_count d' = cy_attempt_count d \<and>
    cy_transient_retry_count d' = cy_transient_retry_count c + 1 \<and>
    cy_next_attempt_at d' = Some (rat_seconds (fst (wk_time env w) + retry_delay (cy_transient_retry_count c + 1)
      (wk_retry_base env) (wk_retry_max_delay env) (wk_retry_margin env) (te_retry_after_seconds t))) \<and>
    wd_blocked_until s' = max (wd_blocked_until s) (fst (wk_time env w) +
      provider_cooldown_delay (wk_retry_base env) (wk_retry_margin env) (te_retry_after_seconds t))"
proof -
  have ck: "cycle_check d" using assms(1,3) by (simp add: cycle_inv_def list_all_iff)
  obtain now w1 where time: "wk_time env w = (now, w1)" by fastforce
  define s1 where "s1 = open_provider_window
    (provider_cooldown_delay (wk_retry_base env) (wk_retry_margin env) (te_retry_after_seconds t)) now s"
  have s1: "wd_cycles s1 = wd_cycles s" "wd_blocked_until s1 = max (wd_blocked_until s)
      (now + provider_cooldown_delay (wk_retry_base env) (wk_retry_margin env) (te_retry_after_seconds t))"
    by (simp_all add: s1_def open_provider_window_def)
  let ?xs = "[F_transient_retry_count (cy_transient_retry_count c + 1), F_error_phase (Some (status_name (cy_status c))),
      F_error_message (Some (sanitized_error env (Transient_Provider t))),
      F_next_attempt_at (Some (rat_seconds (now + retry_delay (cy_transient_retry_count c + 1) (wk_retry_base env)
        (wk_retry_max_delay env) (wk_retry_margin env) (te_retry_after_seconds t)))),
      F_enqueued_at None, F_lease_owner None, F_lease_expires_at None]"
  let ?d = "transition_update (clk 11) Retryable_Failure ?xs d"
  let ?s = "s1\<lparr>wd_cycles := (wd_cycles s1)\<lparr>cycles := map (\<lambda>x. if x = d then ?d else x) (cycles (wd_cycles s1))\<rparr>\<rparr>"
  have "cycle_check ?d" using assms(6) ck by (simp add: cycle_check_def transition_update_def)
  then have "record_cycle_failure env clk c (Transient_Provider t) s w = Some (Inr (), ?s, w1)"
    using transition_run[of s1 d c "''retryable_failure''" Retryable_Failure ?xs "clk 11" w1] assms(1-4)
    by (simp add: record_cycle_failure_def Let_def time s1(1) s1_def[symmetric])
  then show ?thesis
    by (intro exI[of _ ?d] exI[of _ ?s] exI[of _ w1]) (simp add: transition_update_def s1 time)
qed




section \<open>A round returns\<close>

definition returns :: "('a, 'w) run \<Rightarrow> bool" where
  "returns m \<longleftrightarrow> (\<exists>res s w. m = Some (res, s, w))"

lemma returns_Some [simp]: "returns (Some y)"
  by (cases y) (simp add: returns_def)

lemma and_then_returns:
  assumes "returns m" and "\<And>x s w. returns (f x s w)"
  shows "returns (and_then m f)"
proof -
  obtain res s w where "m = Some (res, s, w)" using assms(1) by (auto simp: returns_def)
  then show ?thesis using assms(2) by (cases res) simp_all
qed

lemma in_tables_return [simp]:
  "returns (in_cycles_of f s w)" "returns (in_classifications_of g s w)"
  by (simp_all add: in_cycles_of_def in_classifications_of_def case_prod_beta)

lemma ask_returns [simp]: "returns (ask env request s w)"
  by (simp add: ask_def split: prod.split chat_reply.split)

lemma summarize_chunks_returns: "returns (summarize_chunks env n chunks s w)"
proof (induction chunks arbitrary: n s w)
  case (Cons chunk chunks)
  have "returns (summarize_messages env chunk s w)" for s w
    unfolding summarize_messages_def by (rule and_then_returns) (auto split: option.split)
  then show ?case using Cons by (auto intro!: and_then_returns)
qed simp

lemma classify_returns: "returns (classify_stage env clk ms uuid c snapshot s w)"
proof -
  have complete: "returns (complete_stage env clk ms uuid c snapshot ctx result s w)" for snapshot ctx result s w
    unfolding complete_stage_def by (intro and_then_returns) simp_all
  have analyze: "returns (analyze env ctx s w)" for ctx s w
    unfolding analyze_def by (auto intro!: and_then_returns split: option.split)
  have reduce: "returns (reduce_stage env clk c snapshot ctx s w)" for ctx s w
    unfolding reduce_stage_def by (auto intro!: and_then_returns summarize_chunks_returns)
  show ?thesis unfolding classify_stage_def Let_def
    by (auto intro!: and_then_returns reduce analyze complete)
qed

lemma media_returns: "returns (media_stage env clk c snapshot s w)"
  unfolding media_stage_def Let_def by (auto intro!: and_then_returns split: prod.split sum.split)

lemma failure_returns: "returns (record_cycle_failure env clk c e s w)"
  unfolding record_cycle_failure_def Let_def by (auto intro!: and_then_returns split: worker_error.split prod.split)

definition answered :: "'w worker \<Rightarrow> int \<Rightarrow> ('w \<Rightarrow> nat) \<Rightarrow> bool" where
  "answered env n count \<longleftrightarrow> pages_bounded (wk_session env) n \<and> counts_requests (wk_session env) count \<and>
    (\<forall>d w. count (wk_sleep env d w) = count w)"

lemma recover_loop_returns:
  assumes "answered env n count" and "client = wk_session env"
  shows "\<exists>res w'. recover_loop env client conv k attempt reasons w = Some (res, w') \<and>
    count w' \<le> count w + k * ((1 + nat (max 1 n)) * nat (ds_max_attempts client)) \<and> (\<forall>h. res = Inr h \<longrightarrow> dh_complete h)"
proof (induction k arbitrary: attempt reasons w)
  case 0
  then show ?case by simp
next
  case (Suc k)
  let ?a = "(1 + nat (max 1 n)) * nat (ds_max_attempts client)"
  obtain r w1 where h: "get_ticket_history client conv w = Some (r, w1)" "count w1 \<le> count w + ?a"
    using history_returns[of client n count conv w] assms by (auto simp: answered_def)
  show ?case
  proof (cases r)
    case (Inl e)
    then show ?thesis using h by simp
  next
    case (Inr hist)
    let ?w2 = "if k = 0 then w1 else wk_sleep env (wk_history_retry_base env * 2 ^ (attempt - 1)) w1"
    have c2: "count ?w2 = count w1" using assms(1) by (simp add: answered_def)
    obtain res w' where r: "recover_loop env client conv k (Suc attempt) (Some (dh_reasons hist)) ?w2 = Some (res, w')"
      "count w' \<le> count ?w2 + k * ?a" "\<forall>h. res = Inr h \<longrightarrow> dh_complete h"
      using Suc by blast
    show ?thesis
    proof (cases "dh_complete hist")
      case True
      then show ?thesis using h Inr by simp
    next
      case False
      have "count w' \<le> count w + Suc k * ?a" using r(2) c2 h(2) by simp
      then show ?thesis using h(1) Inr False r(1,3) by simp
    qed
  qed
qed

lemma recover_returns:
  assumes "answered env n count" and "\<And>db w. wk_sync env db w \<noteq> None"
  shows "returns (recover_stage env clk c s w)"
proof -
  have h: "returns (history_step env conv s w)" for conv s w
  proof (cases "new_digisac_client (wk_api_key env) (wk_session env)")
    case (Inr client)
    then have "client = wk_session env" by (simp add: new_digisac_client_def split: if_splits)
    then obtain res w' where "recover_loop env client conv (nat (wk_history_max_attempts env)) 1 None w = Some (res, w')"
      using recover_loop_returns[OF assms(1)] by blast
    then show ?thesis using Inr by (simp add: history_step_def recover_history_def)
  qed (simp add: history_step_def recover_history_def)
  have names: "returns (names_step env conv s w)" for conv s w
    using assms(2)[of "wd_tickets s" w] by (auto simp: names_step_def resolve_assignment_names_def split: prod.split option.split)
  show ?thesis unfolding recover_stage_def Let_def
    by (auto intro!: and_then_returns h names split: option.split sum.split)
qed

lemma process_returns:
  assumes "answered env n count" and "\<And>db w. wk_sync env db w \<noteq> None"
  shows "returns (process_cycle env clk ms uuid c s w)"
proof -
  have "returns (snapshot_stage env clk c s w)"
    unfolding snapshot_stage_def using recover_returns[OF assms] by (simp split: option.split)
  then show ?thesis unfolding process_cycle_def
    by (auto intro!: and_then_returns media_returns classify_returns split: option.split prod.split)
qed

lemma handle_returns:
  assumes "answered env n count" and "\<And>db w. wk_sync env db w \<noteq> None"
  shows "returns (handle_cycle env clk ms uuid c s w)"
proof -
  obtain res s1 w1 where "process_cycle env clk ms uuid c s w = Some (res, s1, w1)"
    using process_returns[OF assms, of clk ms uuid c s w] by (auto simp: returns_def)
  then show ?thesis using failure_returns by (cases res) (simp_all add: handle_cycle_def)
qed

text \<open>C19: One round of the worker always ends, whatever the services and the language model answer, as long as the
  announced number of history pages is bounded and the synchronization of the directory returns; and the history
  that a cycle is built on is complete and costs at most the configured attempts for the ticket and every page, as
  often as the recovery is tried.\<close>

theorem round_returns:
  assumes "answered env n count" and "\<And>db w. wk_sync env db w \<noteq> None"
  shows "(\<exists>res s' w'. poll_once env clk ms uuid owner locked due s w = Some (res, s', w')) \<and>
    (\<exists>res w'. recover_history env conv w = Some (res, w') \<and> (\<forall>h. res = Inr h \<longrightarrow> dh_complete h) \<and>
      count w' \<le> count w + nat (wk_history_max_attempts env) *
        ((1 + nat (max 1 n)) * nat (ds_max_attempts (wk_session env))))"
proof
  obtain b s1 w1 where p: "pause_for_provider_window env s w = (b, s1, w1)" by (cases "pause_for_provider_window env s w")
  let ?due = "if due then reconcile_cycles env (clk 20) locked s1 w1 else Some (Inr [], s1, w1)"
  let ?claim = "\<lambda>y s w. case wk_time env w of
     (now, w2) \<Rightarrow> and_then (in_cycles_of (claim_next_cycle (clk 21) locked owner (wk_lease_seconds env))
         (window_resumed now s) w2)
       (\<lambda>claimed s w. case claimed of
          None \<Rightarrow> Some (Inr (), s, wk_sleep env (wk_poll_interval env) w)
        | Some c \<Rightarrow> handle_cycle env clk ms uuid c s w)"
  have "returns (and_then ?due ?claim)"
    by (auto simp: reconcile_cycles_def intro!: and_then_returns handle_returns[OF assms] split: prod.split option.split)
  then obtain r s2 w2 where run: "and_then ?due ?claim = Some (r, s2, w2)" unfolding returns_def by blast
  show "\<exists>res s' w'. poll_once env clk ms uuid owner locked due s w = Some (res, s', w')"
  proof (cases b)
    case False
    then have "b = False" by simp
    then show ?thesis unfolding poll_once_def p
      by (cases r) (simp_all only: prod.case bool.case run option.case sum.case, blast+)
  qed (simp add: poll_once_def p)
next
  show "\<exists>res w'. recover_history env conv w = Some (res, w') \<and> (\<forall>h. res = Inr h \<longrightarrow> dh_complete h) \<and>
      count w' \<le> count w + nat (wk_history_max_attempts env) *
        ((1 + nat (max 1 n)) * nat (ds_max_attempts (wk_session env)))"
    using recover_loop_returns[OF assms(1) refl, of conv "nat (wk_history_max_attempts env)" 1 None w]
    by (auto simp: recover_history_def new_digisac_client_def)
qed

section \<open>Admission of media\<close>

abbreviation audio_row :: "string \<Rightarrow> media_db \<Rightarrow> content_row option" where
  "audio_row i db \<equiv> lookup_by ct_message_id i (message_transcriptions db)"

abbreviation image_row :: "string \<Rightarrow> media_db \<Rightarrow> content_row option" where
  "image_row i db \<equiv> lookup_by ct_message_id i (message_image_extractions db)"

text \<open>Work that is waiting, running or done.\<close>

definition live_row :: "content_row option \<Rightarrow> bool" where
  "live_row x \<longleftrightarrow> (\<exists>r. x = Some r \<and> ct_status r \<noteq> Failed)"

lemma reserve_row:
  assumes "reserve_content tm i conv mdl False rows = (Inr b, rows')"
  shows "live_row (lookup_by ct_message_id i rows') \<and>
    (live_row (lookup_by ct_message_id i rows) \<longrightarrow> lookup_by ct_message_id i rows' = lookup_by ct_message_id i rows) \<and>
    (\<forall>j. j \<noteq> i \<longrightarrow> lookup_by ct_message_id j rows' = lookup_by ct_message_id j rows)"
proof (cases "lookup_by ct_message_id i rows")
  case None
  then show ?thesis using assms
    by (auto simp: reserve_content_def Let_def live_row_def lookup_by_append new_content_row_def split: if_splits option.split)
next
  case (Some r)
  have "ct_message_id r = i" using lookup_by_Some[OF Some] by simp
  moreover have "map_option (\<lambda>x. if ct_message_id x = i \<and> ct_status x = Failed then f x else x)
      (lookup_by ct_message_id j rows) = lookup_by ct_message_id j rows" if "j \<noteq> i" for f j
    using that by (cases "lookup_by ct_message_id j rows") (auto dest: lookup_by_Some)
  ultimately show ?thesis using assms Some
    by (auto simp: reserve_content_def Let_def live_row_def lookup_by_update_where reopen_content_row_def
        split: if_splits)
qed

text \<open>What the loop leaves of a row: the row of a message that needs a reservation is live afterwards and unchanged if
  it was before; every other row is unchanged.\<close>

definition admitted :: "bool \<Rightarrow> content_row option \<Rightarrow> content_row option \<Rightarrow> bool" where
  "admitted due old new \<longleftrightarrow>
    (if due then live_row new \<and> (live_row old \<longrightarrow> new = old) else new = old)"

definition media_due ::
  "'w worker \<Rightarrow> bool \<Rightarrow> norm_message list \<Rightarrow> (string \<rightharpoonup> content_state) \<Rightarrow> string \<Rightarrow> bool" where
  "media_due env audio ms states i \<longleftrightarrow> \<not> settled_media (wk_max_retries env) (states i) \<and>
    (\<exists>m \<in> set ms. nm_message_id m = i \<and> needs_media m \<and> (nm_type m \<in> set AUDIO_TYPES) = audio)"

lemma ensure_media_rows:
  assumes "ensure_media_jobs env now conv ms states db = (Inr u, db')"
  shows "admitted (media_due env True ms states i) (audio_row i db) (audio_row i db') \<and>
    admitted (media_due env False ms states i) (image_row i db) (image_row i db')"
  using assms
proof (induction env now conv ms states db rule: ensure_media_jobs.induct)
  case (1 env now conv states db)
  then show ?case by (simp add: admitted_def media_due_def)
next
  case (2 env now conv m ms states db)
  let ?skip = "\<not> needs_media m \<or> settled_media (wk_max_retries env) (states (nm_message_id m))"
  show ?case
  proof (cases ?skip)
    case True
    then have "media_due env a (m # ms) states i = media_due env a ms states i" for a
      by (auto simp: media_due_def)
    then show ?thesis using 2 True by simp
  next
    case False
    let ?i = "nm_message_id m" and ?audio = "nm_type m \<in> set AUDIO_TYPES"
    obtain b db1 where r: "(if ?audio then reserve_transcription (now 0) ?i (Some conv) (wk_audio_model env) db
        else reserve_image_extraction (now 0) ?i (Some conv) (wk_image_model env) db) = (Inr b, db1)"
      and rest: "ensure_media_jobs env (\<lambda>n. now (Suc n)) conv ms states db1 = (Inr u, db')"
      using 2(3) False by (auto split: prod.splits sum.splits)
    have ih: "admitted (media_due env True ms states i) (audio_row i db1) (audio_row i db') \<and>
        admitted (media_due env False ms states i) (image_row i db1) (image_row i db')"
      using 2(2)[OF False r[symmetric] refl rest] .
    have due: "media_due env a (m # ms) states i \<longleftrightarrow> media_due env a ms states i \<or> (i = ?i \<and> a = ?audio)" for a
      using False by (auto simp: media_due_def)
    have step: "(if ?audio then admitted (i = ?i) (audio_row i db) (audio_row i db1) \<and> image_row i db1 = image_row i db
        else admitted (i = ?i) (image_row i db) (image_row i db1) \<and> audio_row i db1 = audio_row i db)"
      using r reserve_row
      by (auto simp: reserve_transcription_def reserve_image_extraction_def on_content_table_def admitted_def
          split: prod.splits if_splits)
    show ?thesis using ih step unfolding due admitted_def by (auto split: if_splits)
  qed
qed

lemma audio_not_image: "nm_type m \<in> set AUDIO_TYPES \<Longrightarrow> \<not> is_image_message (JStr (nm_type m)) x"
  by (auto simp: AUDIO_TYPES_def is_image_message_def)

lemma media_ids:
  assumes "distinct (map nm_message_id ms)" and "m \<in> set ms" and "needs_media m"
  shows "nm_message_id m \<in> set (audio_ids ms) \<longleftrightarrow> nm_type m \<in> set AUDIO_TYPES"
    and "nm_message_id m \<in> set (image_ids ms) \<longleftrightarrow> nm_type m \<notin> set AUDIO_TYPES"
proof -
  have same: "x = m" if "x \<in> set ms" "nm_message_id x = nm_message_id m" for x
    using distinct_key_eq[OF assms(1) that(1) assms(2) that(2)] .
  show "nm_message_id m \<in> set (audio_ids ms) \<longleftrightarrow> nm_type m \<in> set AUDIO_TYPES"
    unfolding audio_ids_def set_map set_filter using same assms(2) by (blast intro: sym)
  have "is_image_message (JStr (nm_type m)) (file_value (nm_file m)) \<longleftrightarrow> nm_type m \<notin> set AUDIO_TYPES"
    using assms(3) audio_not_image unfolding needs_media_def by blast
  then show "nm_message_id m \<in> set (image_ids ms) \<longleftrightarrow> nm_type m \<notin> set AUDIO_TYPES"
    unfolding image_ids_def set_map set_filter using same assms(2) by (blast intro: sym)
qed

lemma content_state_row:
  assumes "distinct (map nm_message_id ms)" and "m \<in> set ms" and "needs_media m"
  shows "content_states ms db (nm_message_id m) =
    (if nm_type m \<in> set AUDIO_TYPES then map_option (content_state_of ''audio'') (audio_row (nm_message_id m) db)
     else map_option (content_state_of ''image'') (image_row (nm_message_id m) db))"
  using media_ids[OF assms]
  by (simp add: content_states_def get_content_states_def content_states_of_def map_add_def split: option.split)


lemma fold_min_bounds:
  fixes a :: int
  shows "fold min xs a \<le> a" and "\<forall>x \<in> set xs. fold min xs a \<le> x" and "fold min xs a = a \<or> fold min xs a \<in> set xs"
proof (induction xs arbitrary: a)
  case (Cons x xs)
  {
    case 1
    then show ?case using Cons.IH(1)[of "min x a"] by simp
  next
    case 2
    then show ?case using Cons.IH(1,2)[of "min x a"] by simp
  next
    case 3
    then show ?case using Cons.IH(3)[of "min x a"] by (auto simp: min_def split: if_splits)
  }
qed simp_all

text \<open>The next look at awaited media is in the future; it comes no later than the scheduled retry of any of them
  whose schedule lies ahead and no later than the fallback interval when one of them has none; and it is one of these
  times.\<close>

theorem next_check_bounds:
  assumes "0 < recheck" and "pending \<noteq> []"
  shows "let t = next_media_check_at now recheck pending states;
      due = (\<lambda>i. case Option.bind (states i) cs_next_attempt_at of
        None \<Rightarrow> now + recheck | Some t \<Rightarrow> if now < t then t else now + recheck)
    in now < t \<and> (\<forall>i \<in> set pending. t \<le> due i) \<and> (\<exists>i \<in> set pending. t = due i)"
proof -
  define scheduled where "scheduled = (\<lambda>i. Option.bind (states i) cs_next_attempt_at)"
  define future where "future = (\<lambda>i. case scheduled i of None \<Rightarrow> False | Some t \<Rightarrow> now < t)"
  define due where "due = (\<lambda>i. case scheduled i of None \<Rightarrow> now + recheck | Some t \<Rightarrow> if now < t then t else now + recheck)"
  define cand where "cand = map (\<lambda>i. the (scheduled i)) (filter future pending)"
  define start where "start = (if list_ex (\<lambda>i. \<not> future i) pending \<or> cand = [] then now + recheck else hd cand)"
  have t: "next_media_check_at now recheck pending states = fold min cand start"
    by (simp only: next_media_check_at_def Let_def start_def cand_def future_def scheduled_def)
  have fut: "future i \<Longrightarrow> due i = the (scheduled i)" "\<not> future i \<Longrightarrow> due i = now + recheck" for i
    by (auto simp: due_def future_def split: option.splits)
  have later: "now < due i" for i using assms(1) by (auto simp: due_def split: option.split)
  have cand: "set cand = due ` {i \<in> set pending. future i}" using fut(1) by (auto simp: cand_def)
  have start: "start \<in> due ` set pending"
  proof (cases "list_ex (\<lambda>i. \<not> future i) pending")
    case True
    then obtain i where "i \<in> set pending" "\<not> future i" by (auto simp: list_ex_iff)
    then show ?thesis using fut(2) True by (force simp: start_def)
  next
    case False
    then have "filter future pending = pending" by (auto simp: list_ex_iff)
    then have ne: "cand \<noteq> []" using assms(2) by (simp add: cand_def)
    then have "hd cand \<in> set cand" by simp
    then show ?thesis using False ne cand by (auto simp: start_def)
  qed
  have "fold min cand start \<le> due i" if i: "i \<in> set pending" for i
  proof (cases "future i")
    case True
    then have "due i \<in> set cand" using cand i by blast
    then show ?thesis using fold_min_bounds(2) by blast
  next
    case False
    then have "start = due i" using i fut(2) by (auto simp: start_def list_ex_iff)
    then show ?thesis using fold_min_bounds(1) by metis
  qed
  moreover have "fold min cand start \<in> due ` set pending" using fold_min_bounds(3)[of cand start] start cand by auto
  ultimately show ?thesis using later unfolding Let_def t[symmetric] due_def scheduled_def by auto
qed

text \<open>A service with one message, a language model that gives one answer, and a worker on them.\<close>

definition office_get :: "string \<Rightarrow> (string \<times> string) list \<Rightarrow> nat \<Rightarrow> digisac_reply \<times> nat" where
  "office_get path params w =
    ((if path \<noteq> ''messages'' then Http_Reply 200 None (Some (JObj [(''lastMessageId'', JStr ''m1'')]))
      else Http_Reply 200 None (Some (JObj [(''data'', JList [JObj (demo_message ''m1'' ''chat'' ''30'')]),
        (''currentPage'', JInt 1), (''lastPage'', JInt 1), (''total'', JInt 1)]))), w + 1)"

definition office :: "nat worker" where
  "office =
    \<lparr>wk_api_key = ''k'',
     wk_session = \<lparr>ds_get = office_get, ds_sleep = (\<lambda>_ w. w), ds_uniform = (\<lambda>_ w. (0, w)), ds_max_attempts = 3,
       ds_retry_base = 1\<rparr>,
     wk_sync = (\<lambda>db w. Some (False, db, w)), wk_chat = (\<lambda>q w. (Chat_Answer False (Some ''{}''), w + 1)),
     wk_time = (\<lambda>w. (0, w)), wk_sleep = (\<lambda>_ w. w), wk_fromiso = demo_iso, wk_iso = (\<lambda>_. ''now''),
     wk_repr = (\<lambda>_. []), wk_encode = (\<lambda>_. ''{}''), wk_decode = (\<lambda>_. None), wk_reductions = (\<lambda>_. ''[]''),
     wk_render = (\<lambda>_ _ _ _ _ _. ''conversa''), wk_describe = (\<lambda>_. ([], [])),
     wk_loads = (\<lambda>_. Some (JObj [(''intent_type'', JStr ''other''), (''confidence'', JFloat (9/10)), (''title'', JStr ''Guia''),
       (''description'', JStr ''Pede guia'')])), wk_raw_decode = (\<lambda>_ _. None),
     wk_sha = demo_sha, wk_digest = demo_digest, wk_setup_ok = False, wk_provider = demo_provider,
     wk_request_lease = 60, wk_request_owner = ''o'', wk_history_max_attempts = 2, wk_history_retry_base = 1,
     wk_max_retries = 3, wk_audio_model = ''whisper'', wk_image_model = ''vision'', wk_recheck_seconds = 60,
     wk_safe_input_tokens = 1000, wk_chunk_tokens = 500, wk_retry_base = 1, wk_retry_max_delay = 60, wk_retry_margin = 1,
     wk_model = ''gpt'', wk_prompt_version = ''v1'', wk_lease_seconds = 60, wk_poll_interval = 1\<rparr>"

definition office_start :: worker_state where
  "office_start = \<lparr>wd_cycles = empty_cycle_db, wd_media = \<lparr>message_transcriptions = [], message_image_extractions = []\<rparr>,
     wd_tickets = empty_ticket_db, wd_classifications = empty_classification_db, wd_pipeline = empty_pipeline,
     wd_blocked_until = 0, wd_resume_pending = False\<rparr>"

definition office_closed :: worker_state where
  "office_closed = office_start\<lparr>wd_cycles :=
     snd (close_cycle (seconds 40) 0 ''u'' ''t'' ''99'' (seconds 40) ''k'' ''webhook'' None (wd_cycles office_start))\<rparr>"

definition office_done :: worker_state where
  "office_done = (case poll_once office (\<lambda>n. seconds (50 + int n)) 7 ''p'' ''w1'' {} False office_closed 0 of
     Some (_, s, _) \<Rightarrow> s | None \<Rightarrow> office_closed)"


lemma office_reachable: "worker_reachable {office} office_closed" "worker_reachable {office} office_done"
proof -
  show c: "worker_reachable {office} office_closed"
    unfolding office_closed_def
    by (rule closes, rule started)
      (simp_all add: office_start_def empty_cycle_db_def empty_classification_db_def full_schema_def keyed_schema_def)
  show "worker_reachable {office} office_done"
  proof (cases "poll_once office (\<lambda>n. seconds (50 + int n)) 7 ''p'' ''w1'' {} False office_closed 0")
    case (Some y)
    then obtain res s w where y: "poll_once office (\<lambda>n. seconds (50 + int n)) 7 ''p'' ''w1'' {} False office_closed 0 = Some (res, s, w)"
      by (cases y) auto
    then show ?thesis using round[OF c _ y] by (simp add: office_done_def)
  qed (use c in \<open>simp add: office_done_def\<close>)
qed



lemma office_closed_row:
  obtains c :: cycle where "cycles (wd_cycles office_closed) = [c]" "cy_attempt_count c = 0" "cy_transient_retry_count c = 0"
    "cy_public_id c = ''u''"
proof -
  have "map (\<lambda>c. (cy_attempt_count c, cy_transient_retry_count c, cy_public_id c)) (cycles (wd_cycles office_closed)) =
      [(0, 0, ''u'')]" by code_simp
  then show thesis using that by auto
qed

lemma office_cycles: "cycle_inv (wd_cycles office_closed)" "has_cycle_schema (wd_cycles office_closed)"
proof -
  have "wd_cycles office_closed =
      cycle_step (seconds 40) (Close_Ticket 0 ''u'' ''t'' ''99'' (seconds 40) ''k'' ''webhook'' None) empty_cycle_db"
    by (simp add: office_closed_def office_start_def)
  then show "cycle_inv (wd_cycles office_closed)" using cycle_step_inv[OF cycle_inv_empty] by metis
  show "has_cycle_schema (wd_cycles office_closed)" by code_simp
qed


text \<open>Another worker completes the cycle.\<close>

definition office_overtaken :: worker_state where
  "office_overtaken = office_closed\<lparr>wd_cycles :=
     cycle_step (seconds 90) (Transition ''u'' ''completed'' [] [F_classification_id (Some 1)]) (wd_cycles office_closed)\<rparr>"


theorem round_returns_witness:
  "\<exists>res s' w'. poll_once office int 7 ''p'' ''w1'' {} False office_closed 0 = Some (res, s', w')"
proof -
  have "loose_int (dict_get [(''lastMessageId'', JStr ''m1'')] ''lastPage'') = None" by code_simp
  moreover have "loose_int (dict_get [(''data'', JList [JObj (demo_message ''m1'' ''chat'' ''30'')]),
        (''currentPage'', JInt 1), (''lastPage'', JInt 1), (''total'', JInt 1)] ''lastPage'') = Some 1" by code_simp
  ultimately have "pages_bounded (wk_session office) 1"
    unfolding pages_bounded_def office_def by (auto simp: office_get_def split: if_splits)
  moreover have "counts_requests (wk_session office) (\<lambda>w. w)"
    by (simp add: counts_requests_def office_def office_get_def)
  ultimately have "answered office 1 (\<lambda>w. w)" by (simp add: answered_def office_def)
  moreover have "wk_sync office db w \<noteq> None" for db w by (simp add: office_def)
  ultimately show ?thesis using round_returns[of office 1 "\<lambda>w. w"] by blast
qed


theorem next_check_bounds_witness:
  "next_media_check_at 100 60 [''m1'', ''m2''] (\<lambda>_. None) = 160"
  using next_check_bounds[of 60 "[''m1'', ''m2'']" 100 "\<lambda>_. None"] by (simp add: Let_def)

end
