(* ===== verification/Media_Workers.thy ===== *)
theory Media_Workers
  imports Durable_Media Provider_Coordination Py_Json
begin

text \<open>
  The workers of the two media queues (\<open>src/workers/audio_worker.py\<close>, \<open>src/workers/image_worker.py\<close>): from a message
  to the text of its audio or image, the judgement of failures, the report on the claimed row, and one round of the
  polling loop.  \<open>Durable_Media\<close> holds the queues.

  Parameters: the HTTP requests, \<open>ffmpeg\<close>, the transcription and vision services, the clock of \<open>time.time\<close> and the
  sleeps act on the outside world \<open>'w\<close>.  A reply carries what \<open>retry_after_seconds\<close> and \<open>retry_after_from_text\<close> read
  from it, and an exception of the vision service the numbers its text gives.  Texts that only logs show are left out.
\<close>

section \<open>Services\<close>

datatype media_kind = Audio | Picture

text \<open>\<open>hr_error\<close> is the text of the exception of \<open>raise_for_status\<close>, \<open>hr_json\<close> the outcome of \<open>response.json()\<close>.\<close>

record http_response =
  hr_status :: int
  hr_retry_after :: "rat option"
  hr_text_retry_after :: "rat option"
  hr_error :: string
  hr_json :: "string + jvalue"
  hr_content :: string
  hr_content_length :: "string option"

text \<open>A request ends with an exception (its text and the delay it asks for) or a reply.\<close>

datatype http_outcome =
    Timed_Out string "rat option"
  | Not_Connected string "rat option"
  | Request_Raised string
  | Replied http_response

datatype conversion = Conversion_Timeout | Conversion_Raised string | Converted int string

record vision_exception =
  ve_text :: string
  ve_status :: "int option"
  ve_named_transient :: bool
  ve_retry_after :: "rat option"
  ve_token_limit :: "(int \<times> int) option"
  ve_current_tpm :: "(int \<times> int \<times> int) option"

text \<open>An answer is a list of choices: whether a choice was truncated, and its text.\<close>

type_synonym vision_choice = "bool \<times> string option"

datatype vision_reply = Vision_Failed vision_exception | Vision_Answer "vision_choice list"

datatype media_error =
    Transient_Failure string string "rat option"
  | Conversion_Expired
  | Runtime_Failure string
  | Other_Failure string

record 'w media_worker =
  mw_owner :: string
  mw_digisac_api_key :: string
  mw_groq_api_key :: string
  mw_digisac_api_base_url :: string
  mw_lookup :: "string \<Rightarrow> 'w \<Rightarrow> http_outcome \<times> 'w"
  mw_download :: "string \<Rightarrow> 'w \<Rightarrow> http_outcome \<times> 'w"
  mw_ffmpeg :: "string \<Rightarrow> 'w \<Rightarrow> conversion \<times> 'w"
  mw_transcribe :: "'w \<Rightarrow> http_outcome \<times> 'w"
  mw_vision :: "int \<Rightarrow> 'w \<Rightarrow> vision_reply \<times> 'w"
  mw_vision_tokens :: int
  mw_image_max_bytes :: int
  mw_int :: "string \<Rightarrow> int option"
  mw_repr :: "jvalue \<Rightarrow> string"
  mw_time :: "'w \<Rightarrow> rat \<times> 'w"
  mw_sleep :: "rat \<Rightarrow> 'w \<Rightarrow> 'w"
  mw_lease_seconds :: int
  mw_poll_seconds :: rat
  mw_retry_base :: rat
  mw_retry_max_delay :: rat
  mw_retry_margin :: rat

type_synonym ('a, 'w) media_result = "(media_error + 'a) \<times> 'w"

definition and_next :: "('a, 'w) media_result \<Rightarrow> ('a \<Rightarrow> 'w \<Rightarrow> ('b, 'w) media_result) \<Rightarrow> ('b, 'w) media_result" where
  "and_next m f = (case m of (Inl e, w) \<Rightarrow> (Inl e, w) | (Inr x, w) \<Rightarrow> f x w)"

definition MEDIA_TRANSIENT_STATUSES :: "int list" where
  "MEDIA_TRANSIENT_STATUSES = [408, 425, 429, 500, 502, 503, 504]"

definition http_url :: "string \<Rightarrow> bool" where
  "http_url s \<longleftrightarrow> py_startswith s ''http://'' \<or> py_startswith s ''https://''"

definition message_url :: "'w media_worker \<Rightarrow> string \<Rightarrow> string" where
  "message_url env message_id =
    rev (dropWhile (\<lambda>c. c = CHR ''/'') (rev (mw_digisac_api_base_url env))) @ ''/messages/'' @ message_id"

section \<open>Audio\<close>

definition audio_status_error :: "http_response \<Rightarrow> string \<Rightarrow> media_error option" where
  "audio_status_error response operation =
    (if hr_status response \<in> set MEDIA_TRANSIENT_STATUSES
     then Some (Transient_Failure (operation @ '' returned transient HTTP '' @ int_text (hr_status response))
       (''http_'' @ int_text (hr_status response)) (coalesce_opt (hr_retry_after response) (hr_text_retry_after response)))
     else if 400 \<le> hr_status response \<and> hr_status response < 600
     then Some (Other_Failure (hr_error response))
     else None)"

text \<open>A request of \<open>transcribe_message\<close> with its status check; \<open>failed\<close> names the \<open>except\<close> clause around it.\<close>

definition audio_request :: "string \<Rightarrow> string \<Rightarrow> http_outcome \<times> 'w \<Rightarrow> (http_response, 'w) media_result" where
  "audio_request failed operation reply =
    (case reply of
       (Timed_Out text retry, w) \<Rightarrow> (Inl (Transient_Failure (failed @ '' (timeout)'') ''timeout'' retry), w)
     | (Not_Connected text retry, w) \<Rightarrow> (Inl (Transient_Failure (failed @ '' (connection)'') ''connection'' retry), w)
     | (Request_Raised text, w) \<Rightarrow> (Inl (Other_Failure text), w)
     | (Replied response, w) \<Rightarrow>
        (case audio_status_error response operation of Some e \<Rightarrow> (Inl e, w) | None \<Rightarrow> (Inr response, w)))"

fun first_url :: "string list \<Rightarrow> jdict \<Rightarrow> string option" where
  "first_url [] d = None"
| "first_url (k # ks) d =
    (case dict_get d k of
       JStr s \<Rightarrow> (if http_url s then Some s else first_url ks d)
     | _ \<Rightarrow> first_url ks d)"

fun find_audio_url :: "jvalue \<Rightarrow> string option"
  and find_in_values :: "jdict \<Rightarrow> string option"
  and find_in_items :: "jvalue list \<Rightarrow> string option" where
  "find_audio_url (JObj d) =
    (case first_url [''url'', ''publicUrl'', ''downloadUrl'', ''fileUrl''] d of
       Some u \<Rightarrow> Some u
     | None \<Rightarrow> find_in_values d)"
| "find_audio_url (JList vs) = find_in_items vs"
| "find_audio_url _ = None"
| "find_in_values [] = None"
| "find_in_values ((k, v) # d) = (case find_audio_url v of Some u \<Rightarrow> Some u | None \<Rightarrow> find_in_values d)"
| "find_in_items [] = None"
| "find_in_items (v # vs) = (case find_audio_url v of Some u \<Rightarrow> Some u | None \<Rightarrow> find_in_items vs)"

definition json_body :: "http_response \<Rightarrow> 'w \<Rightarrow> (jvalue, 'w) media_result" where
  "json_body response w =
    (case hr_json response of Inl text \<Rightarrow> (Inl (Other_Failure text), w) | Inr v \<Rightarrow> (Inr v, w))"

definition keys_missing :: "'w media_worker \<Rightarrow> string \<Rightarrow> media_error option" where
  "keys_missing env worker =
    (if mw_digisac_api_key env = []
     then Some (Runtime_Failure (''DIGISAC_API_KEY is required to run the '' @ worker @ '' worker''))
     else if mw_groq_api_key env = []
     then Some (Runtime_Failure (''GROQ_API_KEY is required to run the '' @ worker @ '' worker''))
     else None)"

definition convert_audio :: "'w media_worker \<Rightarrow> string \<Rightarrow> 'w \<Rightarrow> (unit, 'w) media_result" where
  "convert_audio env content w =
    (case mw_ffmpeg env content w of
       (Conversion_Timeout, w') \<Rightarrow> (Inl (Runtime_Failure ''ffmpeg conversion timed out''), w')
     | (Conversion_Raised text, w') \<Rightarrow> (Inl (Other_Failure text), w')
     | (Converted code stderr, w') \<Rightarrow>
        (if code = 0 then (Inr (), w')
         else let error = py_strip stderr
              in (Inl (Runtime_Failure (''ffmpeg conversion failed: '' @ drop (length error - 1000) error)), w')))"

text \<open>\<open>response.json().get("text")\<close> of the transcription.\<close>

definition transcribed_text :: "jvalue \<Rightarrow> media_error + string" where
  "transcribed_text v =
    (case v of
       JObj d \<Rightarrow>
        (case dict_get d ''text'' of
           JStr text \<Rightarrow> (if py_strip text = [] then Inl (Runtime_Failure ''Groq returned an empty transcription'')
                        else Inr (py_strip text))
         | _ \<Rightarrow> Inl (Runtime_Failure ''Groq returned an empty transcription''))
     | _ \<Rightarrow> Inl (Other_Failure ''object has no attribute get''))"

definition transcribe_message :: "'w media_worker \<Rightarrow> string \<Rightarrow> 'w \<Rightarrow> (string, 'w) media_result" where
  "transcribe_message env message_id w =
    (case keys_missing env ''audio'' of
       Some e \<Rightarrow> (Inl e, w)
     | None \<Rightarrow>
        and_next (audio_request ''DigiSac download failed'' ''DigiSac message lookup''
            (mw_lookup env (message_url env message_id) w))
        (\<lambda>metadata w. and_next (json_body metadata w)
        (\<lambda>payload w. case find_audio_url payload of
           None \<Rightarrow> (Inl (Runtime_Failure ''DigiSac response does not contain an audio file URL''), w)
         | Some url \<Rightarrow>
            and_next (audio_request ''DigiSac download failed'' ''audio download'' (mw_download env url w))
            (\<lambda>audio w. and_next (convert_audio env (hr_content audio) w)
            (\<lambda>_ w. and_next (audio_request ''Groq request failed'' ''Groq transcription'' (mw_transcribe env w))
            (\<lambda>response w. and_next (json_body response w)
            (\<lambda>v w. (transcribed_text v, w))))))))"

definition safe_audio_error :: "media_error \<Rightarrow> string" where
  "safe_audio_error e =
    (case e of
       Transient_Failure text category retry \<Rightarrow> ''transient_audio_failure:'' @ category
     | Conversion_Expired \<Rightarrow> ''audio_conversion_timeout''
     | Runtime_Failure text \<Rightarrow>
        (let lowered = py_lower text
         in if py_contains lowered ''does not contain'' then ''audio_file_missing''
            else if py_contains lowered ''ffmpeg conversion'' then ''audio_conversion_failed''
            else if py_contains lowered ''empty transcription'' then ''audio_transcription_empty''
            else ''audio_transcription_failed'')
     | Other_Failure text \<Rightarrow> ''audio_transcription_failed'')"

section \<open>Images\<close>

definition image_status_error :: "http_response \<Rightarrow> string \<Rightarrow> media_error option" where
  "image_status_error response operation =
    (if hr_status response \<in> set MEDIA_TRANSIENT_STATUSES
     then Some (Transient_Failure (operation @ '' returned transient HTTP '' @ int_text (hr_status response))
       ''transient_provider'' (hr_retry_after response))
     else if 400 \<le> hr_status response \<and> hr_status response < 600
     then Some (Other_Failure (hr_error response))
     else None)"

definition image_request :: "string \<Rightarrow> http_outcome \<times> 'w \<Rightarrow> (http_response, 'w) media_result" where
  "image_request operation reply =
    (case reply of
       (Timed_Out text retry, w) \<Rightarrow>
         (Inl (Transient_Failure (''DigiSac image download failed: '' @ text) ''transient_provider'' None), w)
     | (Not_Connected text retry, w) \<Rightarrow>
         (Inl (Transient_Failure (''DigiSac image download failed: '' @ text) ''transient_provider'' None), w)
     | (Request_Raised text, w) \<Rightarrow> (Inl (Other_Failure text), w)
     | (Replied response, w) \<Rightarrow>
        (case image_status_error response operation of Some e \<Rightarrow> (Inl e, w) | None \<Rightarrow> (Inr response, w)))"

text \<open>An empty dictionary counts as not found, except as the \<open>file\<close> of the outermost one.\<close>

fun file_info :: "jvalue \<Rightarrow> jdict option"
  and file_in_values :: "jdict \<Rightarrow> jdict option"
  and file_in_items :: "jvalue list \<Rightarrow> jdict option" where
  "file_info (JObj d) = (case dict_get d ''file'' of JObj f \<Rightarrow> Some f | _ \<Rightarrow> file_in_values d)"
| "file_info (JList vs) = file_in_items vs"
| "file_info _ = None"
| "file_in_values [] = None"
| "file_in_values ((k, v) # d) = (case file_info v of Some (x # f) \<Rightarrow> Some (x # f) | _ \<Rightarrow> file_in_values d)"
| "file_in_items [] = None"
| "file_in_items (v # vs) = (case file_info v of Some (x # f) \<Rightarrow> Some (x # f) | _ \<Rightarrow> file_in_items vs)"

definition image_source :: "'w media_worker \<Rightarrow> jvalue \<Rightarrow> media_error + string" where
  "image_source env payload =
    (let info = (case file_info payload of None \<Rightarrow> [] | Some f \<Rightarrow> f)
     in if info = [] then Inl (Runtime_Failure ''DigiSac response does not contain file metadata'')
        else let mimetype = dict_get info ''mimetype''
             in if \<not> (case mimetype of JStr m \<Rightarrow> py_startswith (py_lower m) ''image/'' | _ \<Rightarrow> False)
                then Inl (Runtime_Failure (''DigiSac file is not an image: mimetype='' @ mw_repr env mimetype))
                else case dict_get info ''url'' of
                  JStr url \<Rightarrow> (if http_url url then Inr url
                    else Inl (Runtime_Failure ''DigiSac response does not contain an image URL''))
                | _ \<Rightarrow> Inl (Runtime_Failure ''DigiSac response does not contain an image URL''))"

definition size_error :: "'w media_worker \<Rightarrow> media_error" where
  "size_error env = Runtime_Failure (''Image exceeds '' @ int_text (mw_image_max_bytes env) @ '' byte processing limit'')"

definition image_content_error :: "'w media_worker \<Rightarrow> http_response \<Rightarrow> media_error option" where
  "image_content_error env picture =
    (case hr_content_length picture of
       Some (c # text) \<Rightarrow>
        (case mw_int env (c # text) of
           None \<Rightarrow> Some (Other_Failure (''invalid literal for int() with base 10: '' @ mw_repr env (JStr (c # text))))
         | Some n \<Rightarrow>
            (if mw_image_max_bytes env < n \<or> mw_image_max_bytes env < int (length (hr_content picture)) then Some (size_error env)
             else if hr_content picture = [] then Some (Runtime_Failure ''DigiSac returned an empty image'') else None))
     | _ \<Rightarrow>
        (if mw_image_max_bytes env < int (length (hr_content picture)) then Some (size_error env)
         else if hr_content picture = [] then Some (Runtime_Failure ''DigiSac returned an empty image'') else None))"

definition vision_error :: "vision_exception \<Rightarrow> media_error" where
  "vision_error e =
    (if (case ve_status e of None \<Rightarrow> False | Some s \<Rightarrow> s \<in> set MEDIA_TRANSIENT_STATUSES) \<or> ve_named_transient e
     then Transient_Failure (''Groq vision request failed: '' @ ve_text e) ''transient_provider'' (ve_retry_after e)
     else Other_Failure (ve_text e))"

definition vision_result :: "vision_reply \<Rightarrow> media_error + vision_choice list" where
  "vision_result reply =
    (case reply of Vision_Failed e \<Rightarrow> Inl (vision_error e) | Vision_Answer choices \<Rightarrow> Inr choices)"

text \<open>The third request, after the provider told how many tokens of the current minute are used; the margin is 100.\<close>

definition third_completion ::
  "'w media_worker \<Rightarrow> int \<Rightarrow> vision_exception \<Rightarrow> 'w \<Rightarrow> (vision_choice list, 'w) media_result" where
  "third_completion env adjusted e w =
    (case (ve_status e, ve_current_tpm e) of
       (Some status, Some (limit, used, requested)) \<Rightarrow>
        (let available = max (limit - used - 100) 0;
             tokens = adjusted - (requested - available)
         in if status = 429 \<and> 256 \<le> tokens
            then (case mw_vision env tokens w of (reply, w') \<Rightarrow> (vision_result reply, w'))
            else (Inl (vision_error e), w))
     | _ \<Rightarrow> (Inl (vision_error e), w))"

definition create_completions :: "'w media_worker \<Rightarrow> 'w \<Rightarrow> (vision_choice list, 'w) media_result" where
  "create_completions env w =
    (case mw_vision env (mw_vision_tokens env) w of
       (Vision_Answer choices, w1) \<Rightarrow> (Inr choices, w1)
     | (Vision_Failed e, w1) \<Rightarrow>
        (case (ve_status e, ve_token_limit e) of
           (Some status, Some (limit, requested)) \<Rightarrow>
            (if status \<noteq> 413 then (Inl (vision_error e), w1)
             else let adjusted = mw_vision_tokens env - (requested - limit)
               in if adjusted < 1 then (Inl (Runtime_Failure ''Groq vision input alone exceeds the TPM token budget''), w1)
                  else case mw_vision env adjusted w1 of
                    (Vision_Answer choices, w2) \<Rightarrow> (Inr choices, w2)
                  | (Vision_Failed e2, w2) \<Rightarrow> third_completion env adjusted e2 w2)
         | _ \<Rightarrow> (Inl (vision_error e), w1)))"

definition vision_text :: "vision_choice list \<Rightarrow> media_error + string" where
  "vision_text choices =
    (case choices of
       [] \<Rightarrow> Inl (Other_Failure ''list index out of range'')
     | (True, text) # _ \<Rightarrow> Inl (Runtime_Failure ''Groq vision response exceeded the output token limit'')
     | (False, None) # _ \<Rightarrow> Inl (Runtime_Failure ''Groq returned an empty image extraction'')
     | (False, Some text) # _ \<Rightarrow>
        (if py_strip text = [] then Inl (Runtime_Failure ''Groq returned an empty image extraction'')
         else Inr (py_strip text)))"

definition extract_image_message :: "'w media_worker \<Rightarrow> string \<Rightarrow> 'w \<Rightarrow> (string, 'w) media_result" where
  "extract_image_message env message_id w =
    (case keys_missing env ''image'' of
       Some e \<Rightarrow> (Inl e, w)
     | None \<Rightarrow>
        and_next (image_request ''DigiSac message lookup'' (mw_lookup env (message_url env message_id) w))
        (\<lambda>metadata w. and_next (json_body metadata w)
        (\<lambda>payload w. and_next (image_source env payload, w)
        (\<lambda>url w. and_next (image_request ''image download'' (mw_download env url w))
        (\<lambda>picture w. case image_content_error env picture of
           Some e \<Rightarrow> (Inl e, w)
         | None \<Rightarrow> and_next (create_completions env w) (\<lambda>choices w. (vision_text choices, w)))))))"

section \<open>Reports\<close>

text \<open>The queues and the time until which the worker leaves its provider alone.\<close>

record media_worker_state =
  ms_db :: media_db
  ms_limited_until :: rat

definition extract_text :: "media_kind \<Rightarrow> 'w media_worker \<Rightarrow> string \<Rightarrow> 'w \<Rightarrow> (string, 'w) media_result" where
  "extract_text kind = (case kind of Audio \<Rightarrow> transcribe_message | Picture \<Rightarrow> extract_image_message)"

definition error_text :: "media_kind \<Rightarrow> media_error \<Rightarrow> string" where
  "error_text kind e =
    (case kind of
       Audio \<Rightarrow> safe_audio_error e
     | Picture \<Rightarrow>
        (case e of Transient_Failure text category retry \<Rightarrow> text | Conversion_Expired \<Rightarrow> []
         | Runtime_Failure text \<Rightarrow> text | Other_Failure text \<Rightarrow> text))"

definition set_status ::
  "media_kind \<Rightarrow> time \<Rightarrow> time \<Rightarrow> string \<Rightarrow> string \<Rightarrow> status_args \<Rightarrow> media_db \<Rightarrow> (py_error + time option) \<times> media_db" where
  "set_status kind = (case kind of Audio \<Rightarrow> set_transcription_status | Picture \<Rightarrow> set_image_extraction_status)"

definition claim_media ::
  "media_kind \<Rightarrow> time \<Rightarrow> string set \<Rightarrow> string \<Rightarrow> int \<Rightarrow> string option \<Rightarrow> media_db \<Rightarrow>
   (py_error + (content_row \<times> content_status) option) \<times> media_db" where
  "claim_media kind = (case kind of Audio \<Rightarrow> claim_next_transcription | Picture \<Rightarrow> claim_next_image_extraction)"

text \<open>The next attempt, and the time in seconds that the worker remembers: the audio worker rounds the delay to
  microseconds, the image worker adds it to the float of the present time and rounds for the column only.\<close>

definition retry_times :: "media_kind \<Rightarrow> time \<Rightarrow> rat \<Rightarrow> time \<times> rat" where
  "retry_times kind now delay =
    (case kind of
       Audio \<Rightarrow> (let at' = now + round_half_even (delay * 1000000) in (at', of_int at' / 1000000))
     | Picture \<Rightarrow> (let at' = of_int now / 1000000 + delay in (round_half_even (at' * 1000000), at')))"

definition report :: "string option \<Rightarrow> string option \<Rightarrow> time option \<Rightarrow> time \<Rightarrow> string \<Rightarrow> status_args" where
  "report text error next_attempt_at lease owner =
    \<lparr>sa_text = text, sa_error_message = error, sa_increment_attempt = False, sa_next_attempt_at = next_attempt_at,
     sa_expected_statuses = None, sa_expected_updated_at = Some lease, sa_expected_lease_owner = Some owner\<rparr>"

definition media_retry_delay :: "'w media_worker \<Rightarrow> rat option \<Rightarrow> int \<Rightarrow> rat" where
  "media_retry_delay env retry_after attempt =
    retry_delay attempt (mw_retry_base env) (mw_retry_max_delay env) (mw_retry_margin env) retry_after"

definition put_report ::
  "media_kind \<Rightarrow> time \<Rightarrow> time \<Rightarrow> string \<Rightarrow> string \<Rightarrow> status_args \<Rightarrow> media_worker_state \<Rightarrow> 'w \<Rightarrow>
   (py_error + unit) \<times> media_worker_state \<times> 'w" where
  "put_report kind py_now now message_id status args s w =
    (case set_status kind py_now now message_id status args (ms_db s) of
       (res, db) \<Rightarrow> ((case res of Inl e \<Rightarrow> Inl e | Inr _ \<Rightarrow> Inr ()), s\<lparr>ms_db := db\<rparr>, w))"

text \<open>The text, stripped again, or the error that the \<open>except\<close> clause of \<open>_process_claim\<close> handles.\<close>

definition claim_outcome :: "media_kind \<Rightarrow> 'w media_worker \<Rightarrow> string \<Rightarrow> 'w \<Rightarrow> (string, 'w) media_result" where
  "claim_outcome kind env message_id w =
    and_next (extract_text kind env message_id w)
      (\<lambda>text w. (if py_strip text = []
        then Inl (Runtime_Failure (case kind of Audio \<Rightarrow> ''empty transcription'' | Picture \<Rightarrow> ''empty image extraction''))
        else Inr (py_strip text), w))"

text \<open>\<open>clk 1\<close> is the time at which a retry is scheduled, \<open>clk 2\<close> and \<open>clk 3\<close> are the times of the report.\<close>

definition process_claim ::
  "media_kind \<Rightarrow> 'w media_worker \<Rightarrow> (nat \<Rightarrow> time) \<Rightarrow> content_row \<Rightarrow> media_worker_state \<Rightarrow> 'w \<Rightarrow>
   (py_error + unit) \<times> media_worker_state \<times> 'w" where
  "process_claim kind env clk claim s w =
    (let message_id = ct_message_id claim; lease = ct_updated_at claim; owner = mw_owner env
     in case claim_outcome kind env message_id w of
          (Inl e, w') \<Rightarrow>
           (case e of
              Transient_Failure text category retry_after \<Rightarrow>
               (case retry_times kind (clk 1) (media_retry_delay env retry_after (ct_attempt_count claim)) of
                  (retry_at, limited) \<Rightarrow>
                    put_report kind (clk 2) (clk 3) message_id ''pending''
                      (report None (Some (error_text kind e)) (Some retry_at) lease owner)
                      (s\<lparr>ms_limited_until := max (ms_limited_until s) limited\<rparr>) w')
            | _ \<Rightarrow> put_report kind (clk 2) (clk 3) message_id ''failed''
                      (report None (Some (error_text kind e)) None lease owner) s w')
        | (Inr text, w') \<Rightarrow>
            put_report kind (clk 2) (clk 3) message_id ''completed'' (report (Some text) None None lease owner) s w')"

definition poll_media ::
  "media_kind \<Rightarrow> 'w media_worker \<Rightarrow> (nat \<Rightarrow> time) \<Rightarrow> string set \<Rightarrow> string option \<Rightarrow> media_worker_state \<Rightarrow> 'w \<Rightarrow>
   (py_error + bool) \<times> media_worker_state \<times> 'w" where
  "poll_media kind env clk locked message_id s w =
    (case claim_media kind (clk 0) locked (mw_owner env) (mw_lease_seconds env) message_id (ms_db s) of
       (Inl e, db) \<Rightarrow> (Inl e, s\<lparr>ms_db := db\<rparr>, w)
     | (Inr None, db) \<Rightarrow> (Inr False, s\<lparr>ms_db := db\<rparr>, w)
     | (Inr (Some (claim, previous)), db) \<Rightarrow>
        (case process_claim kind env clk claim (s\<lparr>ms_db := db\<rparr>) w of
           (Inl e, s', w') \<Rightarrow> (Inl e, s', w')
         | (Inr _, s', w') \<Rightarrow> (Inr True, s', w')))"

text \<open>The compatibility hook for one message.\<close>

definition process_job ::
  "media_kind \<Rightarrow> 'w media_worker \<Rightarrow> (nat \<Rightarrow> time) \<Rightarrow> string set \<Rightarrow> jvalue \<Rightarrow> media_worker_state \<Rightarrow> 'w \<Rightarrow>
   (py_error + bool) \<times> media_worker_state \<times> 'w" where
  "process_job kind env clk locked message_id s w =
    (case message_id of
       JStr (c # i) \<Rightarrow> poll_media kind env clk locked (Some (c # i)) s w
     | _ \<Rightarrow> (Inl (ValueError ((case kind of Audio \<Rightarrow> ''Audio'' | Picture \<Rightarrow> ''Image'') @ '' job missing message_id'')), s, w))"

definition poll_once_media ::
  "media_kind \<Rightarrow> 'w media_worker \<Rightarrow> (nat \<Rightarrow> time) \<Rightarrow> string set \<Rightarrow> media_worker_state \<Rightarrow> 'w \<Rightarrow>
   (py_error + bool) \<times> media_worker_state \<times> 'w" where
  "poll_once_media kind env clk locked s w =
    (case mw_time env w of
       (now, w1) \<Rightarrow>
        (if now < ms_limited_until s then (Inr False, s, w1) else poll_media kind env clk locked None s w1))"

text \<open>One round of the endless loop.\<close>

definition media_round ::
  "media_kind \<Rightarrow> 'w media_worker \<Rightarrow> (nat \<Rightarrow> time) \<Rightarrow> string set \<Rightarrow> media_worker_state \<Rightarrow> 'w \<Rightarrow> media_worker_state \<times> 'w" where
  "media_round kind env clk locked s w =
    (case mw_time env w of
       (now, w1) \<Rightarrow>
        (if 0 < ms_limited_until s - now then (s, mw_sleep env (min (ms_limited_until s - now) 1) w1)
         else case poll_once_media kind env clk locked s w1 of
           (Inl e, s', w') \<Rightarrow> (s', mw_sleep env 1 w')
         | (Inr True, s', w') \<Rightarrow> (s', w')
         | (Inr False, s', w') \<Rightarrow> (s', mw_sleep env (mw_poll_seconds env) w')))"

end
