(* ===== verification/Media_Correctness.thy ===== *)
theory Media_Correctness
  imports Media_Workers
begin

text \<open>
  Correctness of the media workers: what a poll leaves in the queue, the errors and texts a transcription may end with,
  the token budgets of the vision requests, and the rest of a worker after its provider failed.
\<close>

section \<open>A worker to evaluate\<close>

definition demo_reply :: "jvalue \<Rightarrow> string \<Rightarrow> http_outcome" where
  "demo_reply body content = Replied \<lparr>hr_status = 200, hr_retry_after = None, hr_text_retry_after = None, hr_error = [],
     hr_json = Inr body, hr_content = content, hr_content_length = None\<rparr>"

definition demo_vision :: "int \<Rightarrow> unit \<times> int list \<Rightarrow> vision_reply \<times> unit \<times> int list" where
  "demo_vision n w =
    ((if n = 4096 then Vision_Failed \<lparr>ve_text = ''too large'', ve_status = Some 413, ve_named_transient = False,
        ve_retry_after = None, ve_token_limit = Some (3000, 5096), ve_current_tpm = None\<rparr>
      else if n = 2000 then Vision_Failed \<lparr>ve_text = ''rate limit'', ve_status = Some 429, ve_named_transient = True,
        ve_retry_after = None, ve_token_limit = None, ve_current_tpm = Some (3000, 500, 3000)\<rparr>
      else Vision_Answer [(False, Some '' a receipt '')]), (fst w, snd w @ [n]))"

definition demo_worker :: "(unit \<times> int list) media_worker" where
  "demo_worker = \<lparr>mw_owner = ''w1'', mw_digisac_api_key = ''k'', mw_groq_api_key = ''g'',
     mw_digisac_api_base_url = ''https://d/'',
     mw_lookup = \<lambda>url w. (demo_reply (JObj [(''file'', JObj [(''mimetype'', JStr ''image/png''), (''url'', JStr ''https://f'')])]) [], w),
     mw_download = \<lambda>url w. (demo_reply JNull ''bytes'', w), mw_ffmpeg = \<lambda>content w. (Converted 0 [], w),
     mw_transcribe = \<lambda>w. (Timed_Out ''read timed out'' (Some 30), w), mw_vision = demo_vision,
     mw_vision_tokens = 4096, mw_image_max_bytes = 100, mw_int = \<lambda>s. None, mw_repr = \<lambda>v. [],
     mw_time = \<lambda>w. (0, w), mw_sleep = \<lambda>d w. w, mw_lease_seconds = 60, mw_poll_seconds = 1, mw_retry_base = 5,
     mw_retry_max_delay = 60, mw_retry_margin = 1\<rparr>"

definition demo_state :: media_worker_state where
  "demo_state = \<lparr>ms_db = \<lparr>message_transcriptions = [new_content_row 5 None ''m1'' None ''whisper''],
     message_image_extractions = [new_content_row 5 None ''m2'' None ''vision'']\<rparr>, ms_limited_until = 0\<rparr>"

section \<open>Reports on the claimed row\<close>

lemma and_next_simps [simp]:
  "and_next (Inl e, w) f = (Inl e, w)" "and_next (Inr x, w) f = f x w"
  by (simp_all add: and_next_def)

lemma claim_outcome_nonblank:
  assumes "claim_outcome kind env message_id w = (Inr text, w')"
  shows "py_strip text = text \<and> text \<noteq> []"
proof -
  obtain res v where "extract_text kind env message_id w = (res, v)" by (cases "extract_text kind env message_id w")
  then show ?thesis using assms by (cases res) (auto simp: claim_outcome_def split: if_splits)
qed

definition media_table :: "media_kind \<Rightarrow> media_db \<Rightarrow> content_row list" where
  "media_table kind = (case kind of Audio \<Rightarrow> message_transcriptions | Picture \<Rightarrow> message_image_extractions)"

definition other_kind :: "media_kind \<Rightarrow> media_kind" where
  "other_kind kind = (case kind of Audio \<Rightarrow> Picture | Picture \<Rightarrow> Audio)"

definition with_media_table :: "media_kind \<Rightarrow> content_row list \<Rightarrow> media_db \<Rightarrow> media_db" where
  "with_media_table kind rows db =
    (case kind of Audio \<Rightarrow> db\<lparr>message_transcriptions := rows\<rparr> | Picture \<Rightarrow> db\<lparr>message_image_extractions := rows\<rparr>)"

lemma media_table_simps [simp]:
  "media_table kind (with_media_table kind rows db) = rows"
  "media_table (other_kind kind) (with_media_table kind rows db) = media_table (other_kind kind) db"
  "with_media_table kind rows (with_media_table kind rows' db) = with_media_table kind rows db"
  by (cases kind; simp add: media_table_def with_media_table_def other_kind_def)+

lemma set_status_table:
  "set_status kind py_now now mid status args db =
    (case set_content_status py_now now mid status args (media_table kind db) of
       (res, rows) \<Rightarrow> (res, with_media_table kind rows db))"
  by (cases kind) (simp_all add: set_status_def set_transcription_status_def set_image_extraction_status_def
      on_content_table_def media_table_def with_media_table_def split: prod.split)

lemma claim_media_table:
  "claim_media kind now locked owner lease mid db =
    (case claim_content now locked owner lease mid (media_table kind db) of
       (res, rows) \<Rightarrow> (res, with_media_table kind rows db))"
  by (cases kind) (simp_all add: claim_media_def claim_next_transcription_def claim_next_image_extraction_def
      on_content_table_def media_table_def with_media_table_def split: prod.split)

lemma update_where_key:
  assumes "distinct (map key rows)" and "c \<in> set rows"
  shows "update_where (\<lambda>x. key x = key c) f rows = update_where (\<lambda>x. x = c) f rows"
proof -
  have "\<And>x. x \<in> set rows \<Longrightarrow> key x = key c \<longleftrightarrow> x = c" using assms by (auto simp: distinct_map inj_on_def)
  then show ?thesis by (auto simp: update_where_def)
qed

lemma report_simps [simp]:
  "sa_text (report txt err nxt now owner) = txt" "sa_error_message (report txt err nxt now owner) = err"
  "sa_increment_attempt (report txt err nxt now owner) = False" "sa_next_attempt_at (report txt err nxt now owner) = nxt"
  "sa_expected_statuses (report txt err nxt now owner) = None"
  "sa_expected_updated_at (report txt err nxt now owner) = Some now"
  "sa_expected_lease_owner (report txt err nxt now owner) = Some owner"
  by (simp_all add: report_def)

lemma update_single:
  assumes "\<forall>x \<in> set rows. m (g x) \<longleftrightarrow> x = c" and "\<forall>x \<in> set rows. x \<noteq> c \<longrightarrow> g x = x"
    and "c \<in> set rows" and "P (f (g c))"
  shows "list_all (\<lambda>r. m r \<longrightarrow> P (f r)) (map g rows)" "list_ex m (map g rows)"
    "update_where m f (map g rows) = update_where (\<lambda>x. x = c) (\<lambda>x. f (g c)) rows"
  using assms by (auto simp: list_all_iff list_ex_iff update_where_def)

text \<open>A report by the owner of the lease, under the token of the lease, reaches the claimed row and no other.\<close>

lemma report_reaches_claim:
  assumes inv: "content_inv rows" and c: "c \<in> set rows"
    and st: "parse_content_status status = Some st" "st \<noteq> Processing"
    and check: "content_check (apply_status py_now now st (report txt err next_at now0 owner)
      (claimed_content now0 owner lease c))"
  shows "set_content_status py_now now (ct_message_id c) status (report txt err next_at now0 owner)
      (update_where (\<lambda>x. ct_message_id x = ct_message_id c) (claimed_content now0 owner lease) rows) =
    (Inr (Some now), update_where (\<lambda>x. x = c) (\<lambda>x. apply_status py_now now st (report txt err next_at now0 owner)
      (claimed_content now0 owner lease c)) rows)"
proof -
  let ?args = "report txt err next_at now0 owner"
  let ?m = "status_matches (ct_message_id c) (coalesce (sa_expected_statuses ?args) (default_expected st)) ?args"
  let ?claimed = "\<lambda>x. if ct_message_id x = ct_message_id c then claimed_content now0 owner lease x else x"
  have key: "ct_message_id x = ct_message_id c \<longleftrightarrow> x = c" if "x \<in> set rows" for x
    using inv c that by (auto simp: content_inv_def distinct_map inj_on_def)
  have "?m (claimed_content now0 owner lease c)"
    using st(2) by (cases st) (simp_all add: status_matches_def claimed_content_def)
  then have m: "\<forall>x \<in> set rows. ?m (?claimed x) \<longleftrightarrow> x = c" using key by (auto simp: status_matches_def)
  have rows: "update_where (\<lambda>x. ct_message_id x = ct_message_id c) (claimed_content now0 owner lease) rows =
      map ?claimed rows"
    by (simp add: update_where_def)
  have same: "\<forall>x \<in> set rows. x \<noteq> c \<longrightarrow> ?claimed x = x" using key by simp
  have "content_check (apply_status py_now now st ?args (?claimed c))" using check by simp
  note single = update_single[of rows ?m ?claimed c content_check "apply_status py_now now st ?args", OF m same c this]
  show ?thesis using st(1) single by (simp add: set_content_status_def rows Let_def)
qed

text \<open>How the outcome of a claimed row \<open>c\<close> is kept in its row \<open>d\<close> after the report.\<close>

definition reported_as ::
  "media_kind \<Rightarrow> 'w media_worker \<Rightarrow> time \<Rightarrow> media_error + string \<Rightarrow> content_row \<Rightarrow> content_row \<Rightarrow> bool" where
  "reported_as kind env now outcome c d \<longleftrightarrow>
    (case outcome of
       Inr t \<Rightarrow> ct_status d = Completed \<and> ct_text d = Some t \<and> ct_error_message d = None
     | Inl e \<Rightarrow> ct_text d = ct_text c \<and> ct_error_message d = Some (error_text kind e) \<and>
        (case e of
           Transient_Failure _ _ retry_after \<Rightarrow> ct_status d = Pending \<and>
             ct_next_attempt_at d =
               Some (fst (retry_times kind now (media_retry_delay env retry_after (ct_attempt_count c + 1))))
         | _ \<Rightarrow> ct_status d = Failed \<and> ct_next_attempt_at d = None))"

lemma process_claim_reports:
  assumes inv: "content_inv rows" and c: "c \<in> set rows" and owner: "owner = mw_owner env"
    and table: "media_table kind (ms_db s) =
      update_where (\<lambda>x. ct_message_id x = ct_message_id c) (claimed_content now owner lease) rows"
  shows "\<exists>d s'. process_claim kind env clk (claimed_content now owner lease c) s w =
      (Inr (), s', snd (claim_outcome kind env (ct_message_id c) w)) \<and>
    ms_db s' = with_media_table kind (update_where (\<lambda>y. y = c) (\<lambda>y. d) rows) (ms_db s) \<and>
    ct_message_id d = ct_message_id c \<and> ct_attempt_count d = ct_attempt_count c + 1 \<and>
    ct_lease_owner d = None \<and> ct_lease_expires_at d = None \<and>
    reported_as kind env (clk 1) (fst (claim_outcome kind env (ct_message_id c) w)) c d"
proof -
  let ?r = "claimed_content now owner lease c"
  have r: "ct_message_id ?r = ct_message_id c" "ct_updated_at ?r = now" "ct_attempt_count ?r = ct_attempt_count c + 1"
    by (simp_all add: claimed_content_def)
  have check: "content_check c" using inv c by (simp add: content_inv_def)
  note put = put_report_def set_status_table table report_reaches_claim[OF inv c] r owner[symmetric]
  obtain res w' where out: "claim_outcome kind env (ct_message_id c) w = (res, w')" by force
  show ?thesis
  proof (cases res)
    case (Inr t)
    let ?d = "apply_status (clk 2) (clk 3) Completed (report (Some t) None None now owner) ?r"
    have "btrim t \<noteq> []" using claim_outcome_nonblank[of kind env "ct_message_id c" w t w'] out Inr strip_nonblank by metis
    then have "content_check ?d" using check by (simp add: content_check_def apply_status_def claimed_content_def)
    then show ?thesis
      using out Inr
      by (intro exI[of _ ?d]) (simp add: process_claim_def Let_def put parse_content_status_def reported_as_def
          apply_status_def claimed_content_def)
  next
    case (Inl e)
    have pending: "content_check (apply_status (clk 2) (clk 3) Pending (report None err nxt now owner) ?r)"
      and failed: "content_check (apply_status (clk 2) (clk 3) Failed (report None err nxt now owner) ?r)" for err nxt
      using check by (simp_all add: content_check_def apply_status_def claimed_content_def)
    have permanent: ?thesis if "case e of Transient_Failure m category retry \<Rightarrow> False | _ \<Rightarrow> True"
      using that out Inl failed
      by (intro exI[of _ "apply_status (clk 2) (clk 3) Failed (report None (Some (error_text kind e)) None now owner) ?r"])
        (cases e; simp add: process_claim_def Let_def put parse_content_status_def reported_as_def
            apply_status_def claimed_content_def)
    show ?thesis
    proof (cases e)
      case (Transient_Failure m category retry)
      obtain retry_at limited where times:
        "retry_times kind (clk 1) (media_retry_delay env retry (ct_attempt_count c + 1)) = (retry_at, limited)" by force
      let ?d = "apply_status (clk 2) (clk 3) Pending (report None (Some (error_text kind e)) (Some retry_at) now owner) ?r"
      show ?thesis
        using out Inl Transient_Failure times pending
        by (intro exI[of _ ?d]) (simp add: process_claim_def Let_def put parse_content_status_def reported_as_def
            apply_status_def claimed_content_def)
    next
      case Conversion_Expired
      show ?thesis by (rule permanent) (use Conversion_Expired in simp_all)
    next
      case (Runtime_Failure m)
      show ?thesis by (rule permanent) (use Runtime_Failure in simp_all)
    next
      case (Other_Failure m)
      show ?thesis by (rule permanent) (use Other_Failure in simp_all)
    qed
  qed
qed

text \<open>C11: A poll with a due row that no other worker has locked takes the first one in the order of the queue and reports
  on it: the text is kept and the row completed; a transient failure gives the row back to the queue at the retry time;
  any other failure fails it with the text of the error.  The row counts one attempt and gives its lease back, and
  no other row of the two queues changes.\<close>

theorem due_media_reported:
  assumes "content_inv (media_table kind (ms_db s))" and "py_strip (mw_owner env) = mw_owner env" and "mw_owner env \<noteq> []"
    and "1 \<le> mw_lease_seconds env" and "x \<in> set (media_table kind (ms_db s))" and "content_claimable (clk 0) x"
    and "ct_message_id x \<notin> locked"
  shows "\<exists>c d s'. c \<in> set (media_table kind (ms_db s)) \<and> content_claimable (clk 0) c \<and> ct_message_id c \<notin> locked \<and>
    content_order c \<le> content_order x \<and>
    poll_media kind env clk locked None s w = (Inr True, s', snd (claim_outcome kind env (ct_message_id c) w)) \<and>
    ms_db s' = with_media_table kind (update_where (\<lambda>y. y = c) (\<lambda>y. d) (media_table kind (ms_db s))) (ms_db s) \<and>
    ct_message_id d = ct_message_id c \<and> ct_attempt_count d = ct_attempt_count c + 1 \<and>
    ct_lease_owner d = None \<and> ct_lease_expires_at d = None \<and>
    reported_as kind env (clk 1) (fst (claim_outcome kind env (ct_message_id c) w)) c d"
proof -
  let ?T = "media_table kind (ms_db s)"
  obtain res rows where claim: "claim_content (clk 0) locked (mw_owner env) (mw_lease_seconds env) None ?T = (res, rows)"
    by force
  obtain opt where opt: "res = Inr opt"
    using claim assms(2-4) by (auto simp: claim_content_def Let_def split: option.splits)
  obtain r prev where some: "opt = Some (r, prev)"
  proof (cases opt)
    case None
    then have "\<not> content_claimable (clk 0) x" using claim_content_None[of "clk 0" locked "mw_owner env"] claim opt assms(5,7) by auto
    then show ?thesis using assms(6) by simp
  qed (use that in force)
  obtain c where c: "c \<in> set ?T" "content_claimable (clk 0) c" "ct_message_id c \<notin> locked"
      "r = claimed_content (clk 0) (mw_owner env) (mw_lease_seconds env) c"
      "rows = update_where (\<lambda>x. ct_message_id x = ct_message_id c)
        (claimed_content (clk 0) (mw_owner env) (mw_lease_seconds env)) ?T"
      "content_order c \<le> content_order x"
    using claim_content_Some[OF claim[unfolded opt some]] assms(2,5-7) by auto
  let ?s = "s\<lparr>ms_db := with_media_table kind rows (ms_db s)\<rparr>"
  have "media_table kind (ms_db ?s) = rows" by simp
  then obtain d s' where d: "process_claim kind env clk r ?s w =
      (Inr (), s', snd (claim_outcome kind env (ct_message_id c) w))"
      "ms_db s' = with_media_table kind (update_where (\<lambda>y. y = c) (\<lambda>y. d) ?T) (ms_db ?s)"
      "ct_message_id d = ct_message_id c" "ct_attempt_count d = ct_attempt_count c + 1"
      "ct_lease_owner d = None" "ct_lease_expires_at d = None"
      "reported_as kind env (clk 1) (fst (claim_outcome kind env (ct_message_id c) w)) c d"
    using process_claim_reports[OF assms(1) c(1) refl, where kind = kind and env = env and s = ?s and now = "clk 0" and lease = "mw_lease_seconds env" and clk = clk and w = w] c(4,5) by auto
  have "poll_media kind env clk locked None s w = (Inr True, s', snd (claim_outcome kind env (ct_message_id c) w))"
    using claim opt some d(1) by (simp add: poll_media_def claim_media_table)
  then show ?thesis using c d by (intro exI[of _ c] exI[of _ d] exI[of _ s']) simp
qed

theorem due_media_reported_witness:
  "\<exists>d s'. poll_media Audio demo_worker (\<lambda>n. 10) {} None demo_state ((), []) = (Inr True, s', ((), [])) \<and>
    message_transcriptions (ms_db s') = [d] \<and> ct_status d = Pending \<and> ct_attempt_count d = 1 \<and>
    ct_next_attempt_at d = Some 31000010 \<and> ct_error_message d = Some ''transient_audio_failure:timeout''"
proof -
  let ?c = "new_content_row 5 None ''m1'' None ''whisper''"
  have T: "media_table Audio (ms_db demo_state) = [?c]" by (simp add: media_table_def demo_state_def)
  have inv: "content_inv [?c]" by (simp add: content_inv_def content_check_code new_content_row_def btrim_def)
  have owner: "py_strip (mw_owner demo_worker) = mw_owner demo_worker" by code_simp
  have out: "claim_outcome Audio demo_worker ''m1'' ((), []) =
      (Inl (Transient_Failure ''Groq request failed (timeout)'' ''timeout'' (Some 30)), ((), []))"
    by code_simp
  have retry: "fst (retry_times Audio 10 (media_retry_delay demo_worker (Some 30) (0 + 1))) = 31000010" by code_simp
  have err: "error_text Audio (Transient_Failure ''Groq request failed (timeout)'' ''timeout'' (Some 30)) =
      ''transient_audio_failure:timeout''"
    by (simp add: error_text_def safe_audio_error_def)
  have c: "ct_message_id ?c = ''m1''" "ct_attempt_count ?c = 0" "content_claimable 10 ?c"
    by (simp_all add: new_content_row_def content_claimable_def)
  have env: "mw_owner demo_worker \<noteq> []" "1 \<le> mw_lease_seconds demo_worker" by (simp_all add: demo_worker_def)
  from due_media_reported[where kind = Audio and s = demo_state and env = demo_worker and x = ?c and clk = "\<lambda>n. 10"
      and locked = "{}" and w = "((), [])", unfolded T, OF inv owner env _ c(3)]
  obtain d s' where "poll_media Audio demo_worker (\<lambda>n. 10) {} None demo_state ((), []) = (Inr True, s', ((), []))"
    "ms_db s' = with_media_table Audio [d] (ms_db demo_state)" "ct_attempt_count d = 1"
    "reported_as Audio demo_worker 10 (Inl (Transient_Failure ''Groq request failed (timeout)'' ''timeout'' (Some 30))) ?c d"
    by (auto simp: c out)
  then show ?thesis
    by (intro exI[of _ d] exI[of _ s']) (simp add: with_media_table_def reported_as_def c retry[simplified] err)
qed

section \<open>Errors and texts of a transcription\<close>

definition ends :: "(media_error \<Rightarrow> bool) \<Rightarrow> ('a \<Rightarrow> bool) \<Rightarrow> ('a, 'w) media_result \<Rightarrow> bool" where
  "ends E R m \<longleftrightarrow> (case fst m of Inl e \<Rightarrow> E e | Inr x \<Rightarrow> R x)"

lemma ends_simps [simp]: "ends E R (Inl e, w) \<longleftrightarrow> E e" "ends E R (Inr x, w) \<longleftrightarrow> R x"
  by (simp_all add: ends_def)

lemma ends_and_next:
  assumes "ends E S m" and "\<And>x w. S x \<Longrightarrow> ends E R (f x w)"
  shows "ends E R (and_next m f)"
proof (cases m)
  case (Pair res w)
  then show ?thesis using assms by (cases res) auto
qed

lemma first_url_http: "first_url ks d = Some u \<Longrightarrow> http_url u"
  by (induction ks) (auto split: jvalue.splits if_splits)

lemma find_audio_url_http:
  "find_audio_url v = Some u \<Longrightarrow> http_url u"
  "find_in_values d = Some u \<Longrightarrow> http_url u"
  "find_in_items vs = Some u \<Longrightarrow> http_url u"
  by (induction v and d and vs rule: find_audio_url_find_in_values_find_in_items.induct)
    (auto split: option.splits simp del: first_url.simps dest: first_url_http)

text \<open>The categories a row of the queue may carry.\<close>

definition transient_categories :: "string list" where
  "transient_categories = ''timeout'' # ''connection'' # map (\<lambda>n. ''http_'' @ int_text n) MEDIA_TRANSIENT_STATUSES"

definition audio_categories :: "string list" where
  "audio_categories = map (\<lambda>c. ''transient_audio_failure:'' @ c) transient_categories @
    [''audio_file_missing'', ''audio_conversion_failed'', ''audio_transcription_empty'', ''audio_transcription_failed'']"

definition categorized :: "media_error \<Rightarrow> bool" where
  "categorized e \<longleftrightarrow>
    (case e of Transient_Failure m category retry \<Rightarrow> category \<in> set transient_categories
     | Conversion_Expired \<Rightarrow> False | Runtime_Failure m \<Rightarrow> True | Other_Failure m \<Rightarrow> True)"

lemma categorized_simps [simp]:
  "categorized (Runtime_Failure m)" "categorized (Other_Failure m)" "\<not> categorized Conversion_Expired"
  "categorized (Transient_Failure m category retry) \<longleftrightarrow> category \<in> set transient_categories"
  by (simp_all add: categorized_def)

lemma categorized_safe: "categorized e \<Longrightarrow> safe_audio_error e \<in> set audio_categories"
  by (cases e) (auto simp: safe_audio_error_def audio_categories_def Let_def)

lemma audio_status_categorized: "audio_status_error response operation = Some e \<Longrightarrow> categorized e"
  by (auto simp: audio_status_error_def transient_categories_def split: if_splits)

lemma audio_request_ends: "ends categorized (\<lambda>x. True) (audio_request failed operation reply)"
proof -
  obtain outcome w where "reply = (outcome, w)" by force
  then show ?thesis
    by (cases outcome) (auto simp: audio_request_def transient_categories_def split: option.split dest: audio_status_categorized)
qed

lemma json_body_ends: "ends categorized (\<lambda>x. True) (json_body response w)"
  by (simp add: json_body_def split: sum.split)

lemma convert_audio_ends: "ends categorized (\<lambda>x. True) (convert_audio env content w)"
proof -
  obtain outcome w' where "mw_ffmpeg env content w = (outcome, w')" by force
  then show ?thesis by (cases outcome) (simp_all add: convert_audio_def Let_def)
qed

lemma transcribed_text_ends: "ends categorized (\<lambda>t. py_strip t = t \<and> t \<noteq> []) (transcribed_text v, w)"
  by (auto simp: transcribed_text_def split: jvalue.splits)

text \<open>C13: A transcription ends with a text that is stripped and not blank, or with an error whose category is one of a
  fixed list: no text of the provider, the conversion or the address of the file reaches the queue.  The
  category \<open>audio_conversion_timeout\<close> of \<open>_safe_audio_error\<close> is not in the list: \<open>transcribe_message\<close> turns the
  timeout of the conversion into a runtime error, which is kept as a failed conversion.\<close>

theorem transcription_ends_categorized:
  "case fst (transcribe_message env message_id w) of
     Inl e \<Rightarrow> safe_audio_error e \<in> set audio_categories \<and> safe_audio_error e \<noteq> ''audio_conversion_timeout''
   | Inr t \<Rightarrow> py_strip t = t \<and> t \<noteq> []"
proof -
  let ?E = "categorized" and ?R = "\<lambda>t. py_strip t = t \<and> t \<noteq> []"
  note steps = ends_and_next[OF audio_request_ends] ends_and_next[OF json_body_ends] ends_and_next[OF convert_audio_ends]
    transcribed_text_ends
  have "ends ?E ?R (transcribe_message env message_id w)"
    unfolding transcribe_message_def
    by (auto simp: keys_missing_def split: option.split intro!: steps)
  moreover have "''audio_conversion_timeout'' \<notin> set audio_categories" by code_simp
  ultimately show ?thesis using categorized_safe by (force simp: ends_def split: sum.splits)
qed

text \<open>\<open>_safe_audio_error\<close> looks for the missing file before the failed conversion, so what \<open>ffmpeg\<close> prints for a
  file without an audio stream is kept as a missing file.\<close>

lemma streamless_file_kept_as_missing:
  assumes "mw_ffmpeg env content w = (Converted 1 ''Output file does not contain any stream'', w')"
  shows "map_sum safe_audio_error id (fst (convert_audio env content w)) = Inl ''audio_file_missing''"
proof -
  have "safe_audio_error (Runtime_Failure (''ffmpeg conversion failed: '' @ drop (length (py_strip t) - 1000) (py_strip t))) =
      ''audio_file_missing''" if "t = ''Output file does not contain any stream''" for t
    unfolding that by code_simp
  then show ?thesis using assms by (simp add: convert_audio_def Let_def)
qed

section \<open>Token budgets of the vision requests\<close>

text \<open>The world keeps the budgets of the requests; and the numbers in the messages of the provider, as it documents
  them: the tokens asked for are those of the image and the budget, and they exceed what is left.\<close>

definition budgets_recorded :: "('v \<times> int list) media_worker \<Rightarrow> bool" where
  "budgets_recorded env \<longleftrightarrow> (\<forall>n u ns. snd (snd (mw_vision env n (u, ns))) = ns @ [n])"

definition tpm_messages :: "int \<Rightarrow> 'w media_worker \<Rightarrow> bool" where
  "tpm_messages input env \<longleftrightarrow>
    (\<forall>n w e. fst (mw_vision env n w) = Vision_Failed e \<longrightarrow>
      (\<forall>limit requested. ve_token_limit e = Some (limit, requested) \<longrightarrow> requested = input + n \<and> limit < requested) \<and>
      (\<forall>limit used requested. ve_current_tpm e = Some (limit, used, requested) \<longrightarrow>
        requested = input + n \<and> limit < used + requested))"

lemma tpm_messagesD:
  assumes "tpm_messages input env" and "mw_vision env n w = (Vision_Failed e, w')"
  shows "ve_token_limit e = Some (limit, requested) \<Longrightarrow> requested = input + n \<and> limit < input + n"
    "ve_current_tpm e = Some (limit, used, requested) \<Longrightarrow> requested = input + n \<and> limit < used + (input + n)"
  using assms unfolding tpm_messages_def by (metis fst_conv)+

lemma budgets_recordedD:
  "budgets_recorded env \<Longrightarrow> mw_vision env n w = (reply, w') \<Longrightarrow> snd w' = snd w @ [n]"
  by (metis budgets_recorded_def prod.collapse snd_conv)

lemma third_budget:
  assumes rec: "budgets_recorded env" and honest: "tpm_messages input env" and "0 \<le> input"
    and reply: "mw_vision env adjusted w1 = (Vision_Failed e, w)"
  shows "snd (snd (third_completion env adjusted e w)) = snd w \<or>
    (\<exists>m limit used requested. snd (snd (third_completion env adjusted e w)) = snd w @ [m] \<and> 256 \<le> m \<and> m < adjusted \<and>
      ve_status e = Some 429 \<and> ve_current_tpm e = Some (limit, used, requested) \<and> used + input + m + 100 = limit)"
proof (cases "ve_status e")
  case (Some status)
  note status = Some
  show ?thesis
  proof (cases "ve_current_tpm e")
    case (Some t)
    obtain limit used requested where t: "t = (limit, used, requested)" by (cases t)
    let ?m = "adjusted - (requested - max (limit - used - 100) 0)"
    have req: "requested = input + adjusted" "limit < used + (input + adjusted)"
      using tpm_messagesD(2)[OF honest reply] Some t by auto
    obtain reply3 w3 where third: "mw_vision env ?m w = (reply3, w3)" by (rule prod.exhaust)
    show ?thesis
    proof (cases "status = 429 \<and> 256 \<le> ?m")
      case True
      then have "used + input + ?m + 100 = limit" "?m < adjusted"
        using req \<open>0 \<le> input\<close> by (auto simp: max_def split: if_splits)
      then show ?thesis
        using True Some t status third budgets_recordedD[OF rec third]
        by (auto simp: third_completion_def Let_def)
    qed (use Some t status in \<open>auto simp: third_completion_def Let_def\<close>)
  qed (use status in \<open>simp add: third_completion_def\<close>)
qed (simp add: third_completion_def)

text \<open>C12: The extraction of an image asks the vision service at most three times, with ever smaller budgets.  The first is
  the configured one; the second, after a rejection for the size of the request, makes image and budget fit the limit
  exactly; the third, after a rejection for the use of the present minute, leaves 100 tokens free and has a
  budget of at least 256.\<close>

theorem vision_budgets_fit:
  assumes "budgets_recorded env" and "tpm_messages input env" and "0 \<le> input"
  shows "\<exists>ms. snd (snd (create_completions env (u, ns))) = ns @ ms \<and> length ms \<in> {1, 2, 3} \<and>
    ms ! 0 = mw_vision_tokens env \<and> sorted_wrt (>) ms \<and>
    (2 \<le> length ms \<longrightarrow> 1 \<le> ms ! 1 \<and> (\<exists>e. fst (mw_vision env (ms ! 0) (u, ns)) = Vision_Failed e \<and>
      ve_status e = Some 413 \<and> ve_token_limit e = Some (input + ms ! 1, input + ms ! 0))) \<and>
    (length ms = 3 \<longrightarrow> 256 \<le> ms ! 2 \<and> (\<exists>e used requested.
      fst (mw_vision env (ms ! 1) (snd (mw_vision env (ms ! 0) (u, ns)))) = Vision_Failed e \<and> ve_status e = Some 429 \<and>
      ve_current_tpm e = Some (used + input + ms ! 2 + 100, used, requested)))"
proof -
  let ?T = "mw_vision_tokens env" and ?w = "(u, ns)"
  obtain reply1 w1 where r1: "mw_vision env ?T ?w = (reply1, w1)" by (rule prod.exhaust)
  have w1: "snd w1 = ns @ [?T]" using budgets_recordedD[OF assms(1) r1] by simp
  have one: ?thesis if "snd (snd (create_completions env ?w)) = snd w1"
    using that w1 by (intro exI[of _ "[?T]"]) simp
  show ?thesis
  proof (cases "\<exists>e limit requested. reply1 = Vision_Failed e \<and> ve_status e = Some 413 \<and>
      ve_token_limit e = Some (limit, requested) \<and> 1 \<le> ?T - (requested - limit)")
    case False
    then have "snd (create_completions env ?w) = w1"
      using r1 by (auto simp: create_completions_def Let_def split: vision_reply.split option.split)
    then show ?thesis using one by simp
  next
    case True
    then obtain e limit requested where e: "reply1 = Vision_Failed e" "ve_status e = Some 413"
        "ve_token_limit e = Some (limit, requested)" "1 \<le> ?T - (requested - limit)" by blast
    let ?A = "?T - (requested - limit)"
    have req: "requested = input + ?T" "limit < input + ?T"
      using tpm_messagesD(1)[OF assms(2) r1[unfolded e(1)] e(3)] by auto
    obtain reply2 w2 where r2: "mw_vision env ?A w1 = (reply2, w2)" by (rule prod.exhaust)
    have w2: "snd w2 = ns @ [?T, ?A]" using budgets_recordedD[OF assms(1) r2] w1 by simp
    have create: "create_completions env ?w = (case (reply2, w2) of (Vision_Answer choices, w2) \<Rightarrow> (Inr choices, w2)
        | (Vision_Failed e2, w2) \<Rightarrow> third_completion env ?A e2 w2)"
      using e r1 r2 by (simp add: create_completions_def Let_def)
    have two: ?thesis if "snd (snd (create_completions env ?w)) = snd w2"
      using that w2 e req r1 by (intro exI[of _ "[?T, ?A]"]) simp
    show ?thesis
    proof (cases reply2)
      case (Vision_Answer choices)
      then show ?thesis using two create by simp
    next
      case (Vision_Failed e2)
      consider "snd (snd (third_completion env ?A e2 w2)) = snd w2"
        | m used requested' where "snd (snd (third_completion env ?A e2 w2)) = snd w2 @ [m]" "256 \<le> m" "m < ?A"
          "ve_status e2 = Some 429" "ve_current_tpm e2 = Some (used + input + m + 100, used, requested')"
        using third_budget[OF assms r2[unfolded Vision_Failed]] by auto
      then show ?thesis
      proof cases
        case 1
        then show ?thesis using two create Vision_Failed by simp
      next
        case 2
        then show ?thesis using w2 e req r1 r2 create Vision_Failed
          by (intro exI[of _ "[?T, ?A, m]"]) simp
      qed
    qed
  qed
qed

theorem vision_budgets_fit_witness:
  "snd (snd (create_completions demo_worker ((), []))) = [4096, 2000, 1400] \<and>
    (\<exists>ms. snd (snd (create_completions demo_worker ((), []))) = [] @ ms \<and> length ms \<in> {1, 2, 3} \<and> sorted_wrt (>) ms)"
proof -
  have vision: "mw_vision demo_worker = demo_vision" by (simp add: demo_worker_def)
  have rec: "budgets_recorded demo_worker" by (simp add: budgets_recorded_def vision demo_vision_def)
  have honest: "tpm_messages 1000 demo_worker" by (auto simp: tpm_messages_def vision demo_vision_def)
  have "snd (snd (create_completions demo_worker ((), []))) = [4096, 2000, 1400]" by code_simp
  moreover have "\<exists>ms. snd (snd (create_completions demo_worker ((), []))) = [] @ ms \<and> length ms \<in> {1, 2, 3} \<and>
      sorted_wrt (>) ms"
    using vision_budgets_fit[OF rec honest, of "()" "[]"] by auto
  ultimately show ?thesis by blast
qed

end
